(* ===== verification/Nexus_Prelude.thy ===== *)
theory Nexus_Prelude
  imports Main "HOL-Library.AList" "HOL-Library.List_Lexorder" "HOL-Library.Char_ord"
begin

text \<open>
  Shared vocabulary of the development: the failures the runtime raises, the
  result type of fallible operations with its sequencing combinators, Python
  dictionaries as association lists in insertion order, and the list facts the
  component theories rely on.

  Strings are character lists compared lexicographically by code point, as
  Python compares \<open>str\<close> values; the human-readable message and the \<open>details\<close>
  of an exception are not modelled, its class and its stable code are.
\<close>

named_theorems res_simps \<open>sequencing of fallible operations\<close>
named_theorems dict_simps \<open>dictionary reads after dictionary writes\<close>
named_theorems raises \<open>exceptions a composed operation can raise\<close>
named_theorems runtime_defs \<open>definitions of the component operations, for unfolding\<close>

section \<open>Failures\<close>

text \<open>
  The exception classes of \<open>query_runtime/errors.py\<close> with their code, the
  exception of \<open>semantic_core/validation.py\<close>, the built-in exceptions the
  modelled code raises, and the two cancellation exceptions of asyncio.
\<close>

datatype failure =
    RuntimeFailure string
  | BindingFailure string
  | PlanFailure string
  | OperatorFailure string
  | ResourceLimitFailure string
  | ResultStoreFailure string
  | ResolverFailure string
  | SemanticValidationError
  | ValueError
  | KeyError
  | IndexError
  | StopIteration
  | AssertionError
  | TimeoutError
  | OtherException
  | CancelledError
  | DeferredCleanupCancellation

type_synonym 'a res = "failure + 'a"

text \<open>\<open>isinstance(exc, RuntimeFailure)\<close> and the code such an exception carries.\<close>

fun failure_code :: "failure \<Rightarrow> string option" where
  "failure_code (RuntimeFailure c) = Some c"
| "failure_code (BindingFailure c) = Some c"
| "failure_code (PlanFailure c) = Some c"
| "failure_code (OperatorFailure c) = Some c"
| "failure_code (ResourceLimitFailure c) = Some c"
| "failure_code (ResultStoreFailure c) = Some c"
| "failure_code (ResolverFailure c) = Some c"
| "failure_code _ = None"

section \<open>Sequencing\<close>

definition rbind :: "'e + 'a \<Rightarrow> ('a \<Rightarrow> 'e + 'b) \<Rightarrow> 'e + 'b" where
  "rbind r f = (case r of Inl e \<Rightarrow> Inl e | Inr x \<Rightarrow> f x)"

definition raise_unless :: "bool \<Rightarrow> 'e \<Rightarrow> 'e + unit" where
  "raise_unless b e = (if b then Inr () else Inl e)"

fun traverse :: "('a \<Rightarrow> 'e + 'b) \<Rightarrow> 'a list \<Rightarrow> 'e + 'b list" where
  "traverse f [] = Inr []"
| "traverse f (x # xs) = rbind (f x) (\<lambda>y. rbind (traverse f xs) (\<lambda>ys. Inr (y # ys)))"

fun check_each :: "('a \<Rightarrow> 'e + unit) \<Rightarrow> 'a list \<Rightarrow> 'e + unit" where
  "check_each f [] = Inr ()"
| "check_each f (x # xs) = rbind (f x) (\<lambda>_. check_each f xs)"

definition from_option :: "'e \<Rightarrow> 'a option \<Rightarrow> 'e + 'a" where
  "from_option e m = (case m of None \<Rightarrow> Inl e | Some x \<Rightarrow> Inr x)"

definition is_ok :: "'e + 'a \<Rightarrow> bool" where
  "is_ok r = (case r of Inl _ \<Rightarrow> False | Inr _ \<Rightarrow> True)"

lemma rbind_Inr [simp, res_simps]: "rbind (Inr x) f = f x"
  by (simp add: rbind_def)

lemma rbind_Inl [simp, res_simps]: "rbind (Inl e) f = Inl e"
  by (simp add: rbind_def)

lemma rbind_eq_Inr [simp, res_simps]: "rbind r f = Inr y \<longleftrightarrow> (\<exists>x. r = Inr x \<and> f x = Inr y)"
  by (cases r) auto

lemma rbind_eq_Inl [res_simps]:
  "rbind r f = Inl e \<longleftrightarrow> r = Inl e \<or> (\<exists>x. r = Inr x \<and> f x = Inl e)"
  by (cases r) auto

lemma rbind_cong [fundef_cong]:
  "r = r' \<Longrightarrow> (\<And>x. r' = Inr x \<Longrightarrow> f x = f' x) \<Longrightarrow> rbind r f = rbind r' f'"
  by (cases r') auto

lemma raise_unless_simps [simp, res_simps]:
  "raise_unless True e = Inr ()" "raise_unless False e = Inl e"
  by (simp_all add: raise_unless_def)

lemma raise_unless_eq_Inr [simp, res_simps]: "raise_unless b e = Inr u \<longleftrightarrow> b"
  by (simp add: raise_unless_def)

lemma raise_unless_eq_Inl [simp, res_simps]: "raise_unless b e = Inl e' \<longleftrightarrow> \<not> b \<and> e' = e"
  by (auto simp: raise_unless_def)

lemma from_option_eq_Inr [simp, res_simps]: "from_option e m = Inr x \<longleftrightarrow> m = Some x"
  by (simp add: from_option_def split: option.splits)

lemma from_option_eq_Inl [simp, res_simps]: "from_option e m = Inl e' \<longleftrightarrow> m = None \<and> e' = e"
  by (auto simp: from_option_def split: option.splits)

lemma from_option_Some [simp, res_simps]: "from_option e (Some x) = Inr x"
  by (simp add: from_option_def)

lemma from_option_None [simp, res_simps]: "from_option e None = Inl e"
  by (simp add: from_option_def)

lemma is_ok_simps [simp, res_simps]: "is_ok (Inr x)" "\<not> is_ok (Inl e)"
  by (simp_all add: is_ok_def)

lemma is_ok_iff: "is_ok r \<longleftrightarrow> (\<exists>x. r = Inr x)"
  by (cases r) auto

lemma is_ok_raise_unless [simp, res_simps]: "is_ok (raise_unless b e) \<longleftrightarrow> b"
  by (simp add: is_ok_iff)

lemma is_ok_rbind_unit: "is_ok (rbind r (\<lambda>_. s)) \<longleftrightarrow> is_ok r \<and> is_ok s"
  by (cases r) auto

lemma check_each_ok [simp, res_simps]: "is_ok (check_each f xs) \<longleftrightarrow> (\<forall>x \<in> set xs. is_ok (f x))"
  by (induction xs) (auto simp: is_ok_iff)

lemma check_each_eq_Inr [simp]: "check_each f xs = Inr u \<longleftrightarrow> (\<forall>x \<in> set xs. f x = Inr ())"
  by (induction xs) auto

lemma check_each_eq_Inl_first:
  "check_each f xs = Inl e \<Longrightarrow> \<exists>x \<in> set xs. f x = Inl e"
  by (induction xs) (auto simp: rbind_eq_Inl)

lemma traverse_eq_Inr:
  "traverse f xs = Inr ys \<longleftrightarrow> list_all2 (\<lambda>x y. f x = Inr y) xs ys"
  by (induction xs arbitrary: ys) (auto simp: list_all2_Cons1)

lemma traverse_length: "traverse f xs = Inr ys \<Longrightarrow> length ys = length xs"
  by (simp add: traverse_eq_Inr list_all2_lengthD)

lemma traverse_member: "traverse f xs = Inr ys \<Longrightarrow> y \<in> set ys \<Longrightarrow> \<exists>x \<in> set xs. f x = Inr y"
  by (induction xs arbitrary: ys) auto

lemma traverse_eq_Inl_first:
  "traverse f xs = Inl e \<Longrightarrow> \<exists>x \<in> set xs. f x = Inl e"
  by (induction xs) (auto simp: rbind_eq_Inl)

lemma traverse_cong [fundef_cong]:
  "xs = ys \<Longrightarrow> (\<And>x. x \<in> set ys \<Longrightarrow> f x = g x) \<Longrightarrow> traverse f xs = traverse g ys"
  by (induction ys arbitrary: xs) auto

lemma check_each_cong [fundef_cong]:
  "xs = ys \<Longrightarrow> (\<And>x. x \<in> set ys \<Longrightarrow> f x = g x) \<Longrightarrow> check_each f xs = check_each g ys"
  by (induction ys arbitrary: xs) auto

section \<open>Dictionaries\<close>

text \<open>
  A Python dictionary keeps its keys in insertion order: writing an existing
  key keeps its place, a new key goes to the end. \<^const>\<open>AList.update\<close> and
  \<^const>\<open>AList.delete\<close> on association lists behave the same way.
\<close>

type_synonym ('k, 'v) dict = "('k \<times> 'v) list"

abbreviation dget :: "('k, 'v) dict \<Rightarrow> 'k \<Rightarrow> 'v option" where
  "dget \<equiv> map_of"

abbreviation dput :: "'k \<Rightarrow> 'v \<Rightarrow> ('k, 'v) dict \<Rightarrow> ('k, 'v) dict" where
  "dput \<equiv> AList.update"

abbreviation dpop :: "'k \<Rightarrow> ('k, 'v) dict \<Rightarrow> ('k, 'v) dict" where
  "dpop \<equiv> AList.delete"

definition dkeys :: "('k, 'v) dict \<Rightarrow> 'k list" where
  "dkeys d = map fst d"

definition dget_or :: "('k, 'v) dict \<Rightarrow> 'k \<Rightarrow> 'v \<Rightarrow> 'v" where
  "dget_or d k v = (case dget d k of None \<Rightarrow> v | Some w \<Rightarrow> w)"

lemma dget_dput [simp, dict_simps]:
  "dget (dput k v d) k' = (if k' = k then Some v else dget d k')"
  by (simp add: update_conv')

lemma dget_dpop [simp, dict_simps]:
  "dget (dpop k d) k' = (if k' = k then None else dget d k')"
  by (simp add: delete_conv' restrict_map_def)

lemma distinct_dput [simp]: "distinct (map fst (dput k v d)) \<longleftrightarrow> distinct (map fst d)"
  by (induction d) (auto simp: dom_update)

lemma distinct_dpop: "distinct (map fst d) \<Longrightarrow> distinct (map fst (dpop k d))"
  by (rule distinct_delete)

lemma set_dkeys: "set (dkeys d) = dom (dget d)"
  by (simp add: dkeys_def dom_map_of_conv_image_fst)

lemma dget_or_simps [simp, dict_simps]:
  "dget d k = None \<Longrightarrow> dget_or d k v = v"
  "dget d k = Some w \<Longrightarrow> dget_or d k v = w"
  by (simp_all add: dget_or_def)

lemma dget_or_dput [simp, dict_simps]:
  "dget_or (dput k v d) k' w = (if k' = k then v else dget_or d k' w)"
  by (simp add: dget_or_def)

lemma dget_or_dpop [simp, dict_simps]:
  "dget_or (dpop k d) k' w = (if k' = k then w else dget_or d k' w)"
  by (simp add: dget_or_def)

text \<open>A dictionary display or comprehension: the entries are written in order.\<close>

definition dict_of :: "('k \<times> 'v) list \<Rightarrow> ('k, 'v) dict" where
  "dict_of kvs = foldl (\<lambda>d (k, v). dput k v d) [] kvs"

lemma foldl_dput: "dget (foldl (\<lambda>d (k, v). dput k v d) d kvs) k =
    (case dget (rev kvs) k of None \<Rightarrow> dget d k | Some v \<Rightarrow> Some v)"
  by (induction kvs arbitrary: d) (auto simp: map_add_def split: option.splits)

lemma dget_dict_of: "dget (dict_of kvs) k = dget (rev kvs) k"
  by (simp add: dict_of_def foldl_dput split: option.splits)

lemma dget_dict_of_distinct [simp, dict_simps]:
  "distinct (map fst kvs) \<Longrightarrow> dget (dict_of kvs) k = dget kvs k"
  by (metis dget_dict_of distinct_rev map_of_eqI map_of_inject_set rev_map set_map set_rev)

lemma dom_dict_of [simp]: "dom (dget (dict_of kvs)) = fst ` set kvs"
  by (simp add: dget_dict_of [abs_def] dom_map_of_conv_image_fst)

lemma dget_dict_of_SomeD: "dget (dict_of kvs) k = Some v \<Longrightarrow> (k, v) \<in> set kvs"
  using map_of_SomeD [of "rev kvs"] by (simp add: dget_dict_of)

lemma dget_dict_of_mem: "(k, v) \<in> set kvs \<Longrightarrow> \<exists>w. dget (dict_of kvs) k = Some w"
  using dom_dict_of [of kvs] by (force simp: dom_def)

lemma map_of_keyed: "dget (map (\<lambda>x. (f x, g x)) xs) k = map_option g (find (\<lambda>x. f x = k) xs)"
  by (induction xs) auto

text \<open>\<open>d[k]\<close> raises \<open>KeyError\<close>, \<open>xs[i]\<close> raises \<open>IndexError\<close>, \<open>next(...)\<close> raises \<open>StopIteration\<close>.\<close>

definition dict_item :: "('k, 'v) dict \<Rightarrow> 'k \<Rightarrow> 'v res" where
  "dict_item d k = from_option KeyError (dget d k)"

definition list_item :: "'a list \<Rightarrow> nat \<Rightarrow> 'a res" where
  "list_item xs i = (if i < length xs then Inr (xs ! i) else Inl IndexError)"

definition next_item :: "('a \<Rightarrow> bool) \<Rightarrow> 'a list \<Rightarrow> 'a res" where
  "next_item P xs = from_option StopIteration (find P xs)"

lemma dict_item_eq_Inr [simp]: "dict_item d k = Inr v \<longleftrightarrow> dget d k = Some v"
  by (simp add: dict_item_def)

lemma dict_item_eq_Inl [simp]: "dict_item d k = Inl e \<longleftrightarrow> dget d k = None \<and> e = KeyError"
  by (simp add: dict_item_def)

lemma list_item_eq_Inr [simp]: "list_item xs i = Inr v \<longleftrightarrow> i < length xs \<and> xs ! i = v"
  by (simp add: list_item_def)

lemma list_item_eq_Inl [simp]: "list_item xs i = Inl e \<longleftrightarrow> length xs \<le> i \<and> e = IndexError"
  by (auto simp: list_item_def)

lemma next_item_eq_Inr [simp]: "next_item P xs = Inr v \<longleftrightarrow> find P xs = Some v"
  by (simp add: next_item_def)

lemma next_item_eq_Inl [simp]: "next_item P xs = Inl e \<longleftrightarrow> (\<forall>x \<in> set xs. \<not> P x) \<and> e = StopIteration"
  by (auto simp: next_item_def find_None_iff)

text \<open>The exceptions an operation can raise, composed along its structure.\<close>

definition raises_only :: "'e set \<Rightarrow> 'e + 'a \<Rightarrow> bool" where
  "raises_only E r \<longleftrightarrow> (\<forall>e. r = Inl e \<longrightarrow> e \<in> E)"

lemma raises_only_Inr [simp, raises]: "raises_only E (Inr x)"
  by (simp add: raises_only_def)

lemma raises_only_Inl [simp]: "raises_only E (Inl e) \<longleftrightarrow> e \<in> E"
  by (auto simp: raises_only_def)

lemma raises_only_rbind [raises]:
  "raises_only E r \<Longrightarrow> (\<And>x. r = Inr x \<Longrightarrow> raises_only E (f x)) \<Longrightarrow> raises_only E (rbind r f)"
  by (cases r) (auto simp: raises_only_def)

lemma raises_only_raise_unless [simp]: "raises_only E (raise_unless b e) \<longleftrightarrow> b \<or> e \<in> E"
  by (auto simp: raises_only_def)

lemma raises_only_from_option [simp]: "raises_only E (from_option e m) \<longleftrightarrow> m \<noteq> None \<or> e \<in> E"
  by (auto simp: raises_only_def)

lemma raises_only_check_each [raises]:
  "(\<And>x. x \<in> set xs \<Longrightarrow> raises_only E (f x)) \<Longrightarrow> raises_only E (check_each f xs)"
  by (auto simp: raises_only_def dest: check_each_eq_Inl_first)

lemma raises_only_traverse [raises]:
  "(\<And>x. x \<in> set xs \<Longrightarrow> raises_only E (f x)) \<Longrightarrow> raises_only E (traverse f xs)"
  by (auto simp: raises_only_def dest: traverse_eq_Inl_first)

lemma raises_only_dict_item [simp]: "raises_only E (dict_item d k) \<longleftrightarrow> k \<in> dom (dget d) \<or> KeyError \<in> E"
  by (auto simp: raises_only_def)

lemma raises_only_list_item [simp]: "raises_only E (list_item xs i) \<longleftrightarrow> i < length xs \<or> IndexError \<in> E"
  by (auto simp: raises_only_def)

lemma raises_only_next_item [simp]: "raises_only E (next_item P xs) \<longleftrightarrow> (\<exists>x \<in> set xs. P x) \<or> StopIteration \<in> E"
  by (auto simp: raises_only_def)

lemma traverse_total: "(\<And>x. x \<in> set xs \<Longrightarrow> f x = Inr (g x)) \<Longrightarrow> traverse f xs = Inr (map g xs)"
  by (induction xs) auto

lemma dget_dict_of_map: "dget (dict_of (map (\<lambda>x. (x, h x)) xs)) c = (if c \<in> set xs then Some (h c) else None)"
  by (simp add: dget_dict_of rev_map map_of_map_restrict restrict_map_def)

lemma update_fresh: "k \<notin> fst ` set d \<Longrightarrow> dput k v d = d @ [(k, v)]"
  by (induction d) auto

lemma foldl_dput_fresh:
  "distinct (map fst (d @ kvs)) \<Longrightarrow> foldl (\<lambda>d (k, v). dput k v d) d kvs = d @ kvs"
proof (induction kvs arbitrary: d)
  case (Cons kv kvs)
  then show ?case by (cases kv) (auto simp: update_fresh)
qed simp

lemma dict_of_distinct: "distinct (map fst kvs) \<Longrightarrow> dict_of kvs = kvs"
  using foldl_dput_fresh [of "[]" kvs] by (simp add: dict_of_def)

lemma dget_dict_of_append:
  "dget (dict_of (as @ bs)) c = (case dget (dict_of bs) c of None \<Rightarrow> dget (dict_of as) c | Some v \<Rightarrow> Some v)"
  by (simp add: dget_dict_of map_add_def split: option.splits)

lemma dget_dict_of_keyed:
  "distinct (map k xs) \<Longrightarrow> x \<in> set xs \<Longrightarrow> dget (dict_of (map (\<lambda>x. (k x, h x)) xs)) (k x) = Some (h x)"
  by (subst dget_dict_of_distinct) (auto simp: comp_def intro!: map_of_is_SomeI)

lemma traverse_keys:
  "traverse f xs = Inr ys \<Longrightarrow> (\<And>x y. f x = Inr y \<Longrightarrow> fst y = k x) \<Longrightarrow> map fst ys = map k xs"
  by (induction xs arbitrary: ys) auto

lemma dget_dict_of_None: "k \<notin> fst ` set kvs \<Longrightarrow> dget (dict_of kvs) k = None"
  by (metis dom_dict_of domIff)

lemma dict_item_known: "k \<in> dom (dget d) \<Longrightarrow> dict_item d k = Inr (the (dget d k))"
  by (auto simp: dict_item_def)

lemma list_item_Cons [simp]: "list_item (x # xs) 0 = Inr x" "list_item (x # y # xs) (Suc 0) = Inr y" "list_item (x # y # xs) 1 = Inr y"
  by (simp_all add: list_item_def)

section \<open>Lists\<close>

text \<open>\<open>dict.fromkeys(xs)\<close> keeps the first occurrence of every element, in order.\<close>

fun dedupe :: "'a list \<Rightarrow> 'a list" where
  "dedupe [] = []"
| "dedupe (x # xs) = x # filter (\<lambda>y. y \<noteq> x) (dedupe xs)"

lemma set_dedupe [simp]: "set (dedupe xs) = set xs"
  by (induction xs) auto

lemma distinct_dedupe [simp]: "distinct (dedupe xs)"
  by (induction xs) auto

lemma dedupe_eq_Nil [simp]: "dedupe xs = [] \<longleftrightarrow> xs = []"
  by (cases xs) auto

lemma dedupe_distinct: "distinct xs \<Longrightarrow> dedupe xs = xs"
proof (induction xs)
  case (Cons x xs)
  then have "filter (\<lambda>y. y \<noteq> x) xs = xs" by (auto simp: filter_id_conv)
  with Cons show ?case by simp
qed simp

lemma length_dedupe_le: "length (dedupe xs) \<le> length xs"
proof (induction xs)
  case (Cons x xs)
  have "length (filter (\<lambda>y. y \<noteq> x) (dedupe xs)) \<le> length (dedupe xs)"
    by (rule length_filter_le)
  also have "\<dots> \<le> length xs" by (rule Cons.IH)
  finally show ?case by simp
qed simp

lemma length_dedupe_eq_iff: "length (dedupe xs) = length xs \<longleftrightarrow> distinct xs"
  by (metis card_distinct distinct_card distinct_dedupe dedupe_distinct set_dedupe)

text \<open>A comma separated SQL list, \<open>', '.join(...)\<close>.\<close>

fun join_with :: "string \<Rightarrow> string list \<Rightarrow> string" where
  "join_with sep [] = []"
| "join_with sep [x] = x"
| "join_with sep (x # y # ys) = x @ sep @ join_with sep (y # ys)"

end
