(* ===== verification/Scalar_Values.thy ===== *)
theory Scalar_Values
  imports Nexus_Prelude
begin

text \<open>
  Strict v1 scalar literals (\<open>query_runtime/scalar_values.py\<close>): the shape of a
  decimal and the check that a literal fits its declared type. The parts of the
  Python standard library the source calls are written out here as well: the
  numeric string syntax of \<open>decimal.Decimal\<close>, and \<open>date.fromisoformat\<close> and
  \<open>datetime.fromisoformat\<close> of Python 3.12. A date is its proleptic Gregorian
  ordinal, a timezone-naive timestamp its distance from 1970-01-01 in
  microseconds, and a float a dyadic rational, an infinity or NaN.
\<close>

section \<open>Values\<close>

datatype pyfloat = FFinite int int | FInfinite bool | FNan

text \<open>\<open>ScalarValue\<close>: the JSON-like value a literal carries.\<close>

datatype scalar = SString string | SInt int | SFloat pyfloat | SBool bool | SNone

text \<open>A \<open>Decimal\<close>: sign, non-negative coefficient and exponent, or a special value.\<close>

datatype decimal = DFinite bool int int | DInfinity bool | DNaN

text \<open>\<open>NativeScalar\<close>: the checked value handed to the executor.\<close>

datatype native =
    NString string | NInt int | NFloat pyfloat | NBool bool
  | NDecimal decimal | NDate int | NTimestamp int | NNone

section \<open>Digits\<close>

definition is_digit :: "char \<Rightarrow> bool" where
  "is_digit c = (48 \<le> (of_char c :: nat) \<and> (of_char c :: nat) \<le> 57)"

definition ascii_letter :: "char \<Rightarrow> bool" where
  "ascii_letter c = (let n = (of_char c :: nat) in 65 \<le> n \<and> n \<le> 90 \<or> 97 \<le> n \<and> n \<le> 122)"

definition digit_value :: "char \<Rightarrow> int" where
  "digit_value c = of_char c - 48"

definition digits_value :: "string \<Rightarrow> int" where
  "digits_value s = foldl (\<lambda>n c. 10 * n + digit_value c) 0 s"

text \<open>\<open>str(n)\<close> of a non-negative integer.\<close>

function show_nat :: "int \<Rightarrow> string" where
  "show_nat n =
     (if n < 10 then [char_of (48 + n)] else show_nat (n div 10) @ [char_of (48 + n mod 10)])"
  by pat_completeness auto
termination
  by (relation "measure nat") auto

declare show_nat.simps [simp del]

definition show_int :: "int \<Rightarrow> string" where
  "show_int i = (if i < 0 then ''-'' @ show_nat (- i) else show_nat i)"

text \<open>\<open>len(str(n))\<close>.\<close>

definition digit_count :: "int \<Rightarrow> nat" where
  "digit_count n = length (show_nat n)"

section \<open>Decimal\<close>

text \<open>\<open>value.adjusted()\<close>: the exponent of the leading digit.\<close>

definition decimal_adjusted :: "int \<Rightarrow> int \<Rightarrow> int" where
  "decimal_adjusted c e = e + int (digit_count c) - 1"

fun decimal_shape :: "decimal \<Rightarrow> (nat \<times> nat) res" where
  "decimal_shape (DFinite neg c e) =
     (let scale = nat (max 0 (- e));
          integer_digits = (if c = 0 then 0 else nat (max 0 (decimal_adjusted c e + 1)))
      in if 38 < integer_digits + scale then Inl ValueError else Inr (integer_digits, scale))"
| "decimal_shape _ = Inl ValueError"

definition is_space :: "char \<Rightarrow> bool" where
  "is_space c = (let n = (of_char c :: nat) in n \<in> {9, 10, 11, 12, 13, 28, 29, 30, 31, 32, 133, 160})"

definition strip :: "string \<Rightarrow> string" where
  "strip s = rev (dropWhile is_space (rev (dropWhile is_space s)))"

text \<open>\<open>str.lower()\<close> and \<open>str.translate\<close> with the ASCII fold, on ASCII letters.\<close>

definition ascii_lower :: "char \<Rightarrow> char" where
  "ascii_lower c =
     (if 65 \<le> (of_char c :: nat) \<and> (of_char c :: nat) \<le> 90 then char_of (of_char c + 32 :: nat) else c)"

definition take_sign :: "string \<Rightarrow> bool \<times> string" where
  "take_sign s =
     (case s of [] \<Rightarrow> (False, [])
      | c # r \<Rightarrow> if c = CHR ''-'' then (True, r) else if c = CHR ''+'' then (False, r) else (False, s))"

definition parse_exponent :: "string \<Rightarrow> int option" where
  "parse_exponent s =
     (let (neg, ds) = take_sign s
      in if ds \<noteq> [] \<and> list_all is_digit ds
         then Some (if neg then - digits_value ds else digits_value ds) else None)"

definition drop_prefix :: "string \<Rightarrow> string \<Rightarrow> string option" where
  "drop_prefix p s = (if take (length p) s = p then Some (drop (length p) s) else None)"

definition is_nan_text :: "string \<Rightarrow> bool" where
  "is_nan_text s =
     (case drop_prefix ''nan'' s of Some r \<Rightarrow> list_all is_digit r
      | None \<Rightarrow> (case drop_prefix ''snan'' s of Some r \<Rightarrow> list_all is_digit r | None \<Rightarrow> False))"

text \<open>
  \<open>Decimal(value)\<close>: surrounding blanks are stripped and underscores removed; a
  zero whose exponent does not fit the library's range is an invalid operation
  (a non-zero one of that size fails the precision check in any case).
\<close>

definition parse_decimal :: "string \<Rightarrow> decimal option" where
  "parse_decimal s =
     (let (neg, u) = take_sign (filter (\<lambda>c. c \<noteq> CHR ''_'') (strip s));
          lu = map ascii_lower u;
          ip = takeWhile is_digit u;
          r1 = dropWhile is_digit u;
          dot = (r1 \<noteq> [] \<and> hd r1 = CHR ''.'');
          fp = (if dot then takeWhile is_digit (tl r1) else []);
          r2 = (if dot then dropWhile is_digit (tl r1) else r1);
          c = digits_value (ip @ fp)
      in if lu = ''inf'' \<or> lu = ''infinity'' then Some (DInfinity neg)
         else if is_nan_text lu then Some DNaN
         else if ip = [] \<and> fp = [] then None
         else (case r2 of
             [] \<Rightarrow> Some (DFinite neg c (- int (length fp)))
           | x # r \<Rightarrow>
               if ascii_lower x = CHR ''e''
               then (case parse_exponent r of
                   None \<Rightarrow> None
                 | Some e \<Rightarrow>
                     let e' = e - int (length fp)
                     in if c = 0 \<and> 999999999999999999 < e' then None else Some (DFinite neg c e'))
               else None))"

section \<open>Calendar\<close>

definition is_leap :: "int \<Rightarrow> bool" where
  "is_leap y = (y mod 4 = 0 \<and> (y mod 100 \<noteq> 0 \<or> y mod 400 = 0))"

definition days_in_month :: "int \<Rightarrow> int \<Rightarrow> int" where
  "days_in_month y m =
     (if m = 2 then (if is_leap y then 29 else 28) else if m \<in> {4, 6, 9, 11} then 30 else 31)"

definition days_before_year :: "int \<Rightarrow> int" where
  "days_before_year y = (let p = y - 1 in p * 365 + p div 4 - p div 100 + p div 400)"

definition days_before_month :: "int \<Rightarrow> int \<Rightarrow> int" where
  "days_before_month y m = sum_list (map (days_in_month y) [1..m - 1])"

definition ymd_to_ord :: "int \<Rightarrow> int \<Rightarrow> int \<Rightarrow> int" where
  "ymd_to_ord y m d = days_before_year y + days_before_month y m + d"

definition valid_ymd :: "int \<Rightarrow> int \<Rightarrow> int \<Rightarrow> bool" where
  "valid_ymd y m d =
     (1 \<le> y \<and> y \<le> 9999 \<and> 1 \<le> m \<and> m \<le> 12 \<and> 1 \<le> d \<and> d \<le> days_in_month y m)"

text \<open>Weekday of 1 January, Monday being 0, and the Monday of ISO week 1.\<close>

definition first_weekday :: "int \<Rightarrow> int" where
  "first_weekday y = (ymd_to_ord y 1 1 + 6) mod 7"

definition iso_week1_monday :: "int \<Rightarrow> int" where
  "iso_week1_monday y =
     (let f = ymd_to_ord y 1 1; w = first_weekday y; m = f - w in if 3 < w then m + 7 else m)"

definition iso_to_ord :: "int \<Rightarrow> int \<Rightarrow> int \<Rightarrow> int option" where
  "iso_to_ord y w d =
     (let long_year = (first_weekday y = 3 \<or> first_weekday y = 2 \<and> is_leap y);
          n = iso_week1_monday y + (w - 1) * 7 + d - 1
      in if 1 \<le> y \<and> y \<le> 9999 \<and> 1 \<le> w \<and> (w < 53 \<or> w = 53 \<and> long_year)
            \<and> 1 \<le> d \<and> d \<le> 7 \<and> 1 \<le> n \<and> n \<le> 3652059
         then Some n else None)"

definition parse_digits :: "nat \<Rightarrow> string \<Rightarrow> (int \<times> string) option" where
  "parse_digits n s =
     (if n \<le> length s \<and> list_all is_digit (take n s)
      then Some (digits_value (take n s), drop n s) else None)"

definition starts_with :: "char \<Rightarrow> string \<Rightarrow> bool" where
  "starts_with c s = (s \<noteq> [] \<and> hd s = c)"

text \<open>
  The date part of an ISO string, as its first \<open>len\<close> characters: calendar
  dates and ISO week dates, with or without hyphens. Characters after a
  complete date are not looked at, as in the library.
\<close>

definition parse_iso_date :: "string \<Rightarrow> int option" where
  "parse_iso_date s =
     (case parse_digits 4 s of None \<Rightarrow> None
      | Some (y, p) \<Rightarrow>
        let sep = starts_with CHR ''-'' p; q = (if sep then tl p else p)
        in if starts_with CHR ''W'' q
           then (case parse_digits 2 (tl q) of None \<Rightarrow> None
                 | Some (w, r) \<Rightarrow>
                   if r = [] then iso_to_ord y w 1
                   else if sep \<and> \<not> starts_with CHR ''-'' r then None
                   else (case parse_digits 1 (if sep then tl r else r) of None \<Rightarrow> None
                         | Some (d, _) \<Rightarrow> iso_to_ord y w d))
           else (case parse_digits 2 q of None \<Rightarrow> None
                 | Some (m, r) \<Rightarrow>
                   if sep \<and> \<not> starts_with CHR ''-'' r then None
                   else (case parse_digits 2 (if sep then tl r else r) of None \<Rightarrow> None
                         | Some (d, _) \<Rightarrow>
                             if valid_ymd y m d then Some (ymd_to_ord y m d) else None)))"

definition date_fromisoformat :: "string \<Rightarrow> int option" where
  "date_fromisoformat s = (if length s \<in> {7, 8, 10} then parse_iso_date s else None)"

text \<open>Where the date part of a timestamp ends.\<close>

definition iso_separator :: "string \<Rightarrow> nat option" where
  "iso_separator s =
     (let n = length s;
          at = (\<lambda>i c. i < n \<and> s ! i = c);
          pos = 7 + length (takeWhile is_digit (drop 7 s))
      in if n = 7 then Some 7
         else if at 4 CHR ''-''
         then (if at 5 CHR ''W''
               then (if 8 < n \<and> at 8 CHR ''-''
                     then (if n = 9 then None
                           else if 10 < n \<and> is_digit (s ! 10) then Some 8 else Some 10)
                     else Some 8)
               else Some 10)
         else (if at 4 CHR ''W''
               then (if pos < 9 then Some pos else if even pos then Some 7 else Some 8)
               else Some 8))"

text \<open>
  \<open>parse_hh_mm_ss_ff\<close> on a time with no timezone: up to three two-digit
  fields, then a fraction cut to six digits. \<open>None\<close> is a malformed time.
\<close>

definition iso_fraction :: "string \<Rightarrow> int option" where
  "iso_fraction s =
     (let k = min 6 (length s)
      in if list_all is_digit s
         then Some (digits_value (take k s) * 10 ^ (6 - k)) else None)"

fun iso_time_fields :: "nat \<Rightarrow> bool \<Rightarrow> int list \<Rightarrow> string \<Rightarrow> (int list \<times> int) option" where
  "iso_time_fields 0 sep vs s = map_option (\<lambda>f. (vs, f)) (iso_fraction s)"
| "iso_time_fields (Suc i) sep vs s =
     (case parse_digits 2 s of None \<Rightarrow> None
      | Some (v, r) \<Rightarrow>
        let vs' = vs @ [v]
        in (case r of [] \<Rightarrow> Some (vs', 0)
            | c # r' \<Rightarrow>
              let sep' = (if i = 2 then c = CHR '':'' else sep)
              in if r' = [] then None
                 else if sep' \<and> c = CHR '':'' then iso_time_fields i sep' vs' r'
                 else if c = CHR ''.'' \<or> c = CHR '',''
                      then map_option (\<lambda>f. (vs', f)) (iso_fraction r')
                 else if \<not> sep' then iso_time_fields i sep' vs' r
                 else None))"

definition parse_iso_time :: "string \<Rightarrow> int option" where
  "parse_iso_time s =
     (case iso_time_fields 3 True [] s of None \<Rightarrow> None
      | Some (vs, us) \<Rightarrow>
        let h = vs ! 0; m = (if 1 < length vs then vs ! 1 else 0);
            sec = (if 2 < length vs then vs ! 2 else 0)
        in if h \<le> 23 \<and> m \<le> 59 \<and> sec \<le> 59
           then Some (((h * 60 + m) * 60 + sec) * 1000000 + us) else None)"

text \<open>
  \<open>datetime.fromisoformat\<close> restricted to timezone-naive results: a timezone
  suffix is refused by the caller whether it parses or not, so \<open>None\<close> stands
  for both.
\<close>

definition naive_datetime_fromisoformat :: "string \<Rightarrow> int option" where
  "naive_datetime_fromisoformat s =
     (if length s < 7 then None
      else case iso_separator s of None \<Rightarrow> None
      | Some k \<Rightarrow>
        (case parse_iso_date (take k s) of None \<Rightarrow> None
         | Some n \<Rightarrow>
           let base = (n - 719163) * 86400000000; t = drop (Suc k) s
           in if length s \<le> k then Some base
              else if list_ex (\<lambda>c. c \<in> {CHR ''+'', CHR ''-'', CHR ''Z''}) t then None
              else map_option (\<lambda>us. base + us) (parse_iso_time t)))"

text \<open>\<open>re.search(r"[.,](\d+)", value)\<close>: the digits after the first separator that has any.\<close>

fun fraction_digits :: "string \<Rightarrow> string option" where
  "fraction_digits [] = None"
| "fraction_digits (c # s) =
     (if (c = CHR ''.'' \<or> c = CHR '','') \<and> s \<noteq> [] \<and> is_digit (hd s)
      then Some (takeWhile is_digit s) else fraction_digits s)"

section \<open>Checked literals\<close>

text \<open>\<open>math.isfinite(float(value))\<close>; an integer past the double range overflows.\<close>

fun finite_float :: "scalar \<Rightarrow> bool" where
  "finite_float (SInt i) = (\<bar>i\<bar> < 2 ^ 1024 - 2 ^ 970)"
| "finite_float (SFloat (FFinite m e)) = True"
| "finite_float _ = False"

definition scalar_value :: "string \<Rightarrow> scalar \<Rightarrow> native res" where
  "scalar_value kind v =
     (case v of
        SNone \<Rightarrow> Inr NNone
      | SString s \<Rightarrow>
          if kind = ''string'' then Inr (NString s)
          else if kind = ''decimal''
          then (case parse_decimal s of
              None \<Rightarrow> Inl ValueError
            | Some d \<Rightarrow>
                rbind (decimal_shape d) (\<lambda>_.
                  Inr (NDecimal (case d of DFinite neg c e \<Rightarrow>
                      if c = 0 \<and> 0 < e then DFinite False 0 0 else d | _ \<Rightarrow> d))))
          else if kind = ''date''
          then map_sum id NDate (from_option ValueError (date_fromisoformat s))
          else if kind = ''timestamp''
          then (case fraction_digits s of
              Some f \<Rightarrow>
                if list_ex (\<lambda>c. c \<noteq> CHR ''0'') (drop 6 f) then Inl ValueError
                else map_sum id NTimestamp (from_option ValueError (naive_datetime_fromisoformat s))
            | None \<Rightarrow> map_sum id NTimestamp (from_option ValueError (naive_datetime_fromisoformat s)))
          else Inl ValueError
      | SInt i \<Rightarrow>
          if kind = ''integer'' \<and> - (2 ^ 63) \<le> i \<and> i < 2 ^ 63 then Inr (NInt i)
          else if kind = ''float'' \<and> finite_float v then Inr (NInt i)
          else Inl ValueError
      | SFloat f \<Rightarrow> if kind = ''float'' \<and> finite_float v then Inr (NFloat f) else Inl ValueError
      | SBool b \<Rightarrow> if kind = ''boolean'' then Inr (NBool b) else Inl ValueError)"

end
