(* ===== verification/Runtime_Domain.thy ===== *)
theory Runtime_Domain
  imports Scalar_Values
begin

text \<open>
  The contracts of \<open>query_runtime/domain.py\<close>: operator kinds, typed
  expressions, operator specifications of both contract versions, physical
  nodes and plans, execution states, and the validators the models run. A
  model with a validator is a record together with a bool-valued check; where
  the source raises \<open>ValueError\<close> the check is false.

  \<open>OperatorSpecV1\<close> is a subclass of \<open>OperatorSpec\<close>: the record
  \<open>operator_spec\<close> carries the extension fields in \<open>op_ext\<close>, which is \<open>Some\<close>
  exactly when the object is an \<open>OperatorSpecV1\<close>.
\<close>

section \<open>Enumerations\<close>

datatype operator_kind =
    Op_SOURCE | Op_SELECT | Op_FILTER | Op_AGGREGATE | Op_PIVOT | Op_DERIVE | Op_PROJECT
  | Op_SORT | Op_LIMIT | Op_JOIN | Op_ACT | Op_ASK | Op_DATE | Op_DEDUPLICATE | Op_DISTINCT
  | Op_EXCEPT | Op_EXPLODE | Op_IMPUTE | Op_INTERSECT | Op_PICK | Op_RESAMPLE | Op_SAMPLE
  | Op_SEARCH | Op_SUMMARIZE | Op_UNION_ALL | Op_UNION_DISTINCT | Op_UNPIVOT | Op_WINDOW

fun op_kind_value :: "operator_kind \<Rightarrow> string" where
  "op_kind_value Op_SOURCE = ''SOURCE''"
| "op_kind_value Op_SELECT = ''SELECT''"
| "op_kind_value Op_FILTER = ''FILTER''"
| "op_kind_value Op_AGGREGATE = ''AGGREGATE''"
| "op_kind_value Op_PIVOT = ''PIVOT''"
| "op_kind_value Op_DERIVE = ''DERIVE''"
| "op_kind_value Op_PROJECT = ''PROJECT''"
| "op_kind_value Op_SORT = ''SORT''"
| "op_kind_value Op_LIMIT = ''LIMIT''"
| "op_kind_value Op_JOIN = ''JOIN''"
| "op_kind_value Op_ACT = ''ACT''"
| "op_kind_value Op_ASK = ''ASK''"
| "op_kind_value Op_DATE = ''DATE''"
| "op_kind_value Op_DEDUPLICATE = ''DEDUPLICATE''"
| "op_kind_value Op_DISTINCT = ''DISTINCT''"
| "op_kind_value Op_EXCEPT = ''EXCEPT''"
| "op_kind_value Op_EXPLODE = ''EXPLODE''"
| "op_kind_value Op_IMPUTE = ''IMPUTE''"
| "op_kind_value Op_INTERSECT = ''INTERSECT''"
| "op_kind_value Op_PICK = ''PICK''"
| "op_kind_value Op_RESAMPLE = ''RESAMPLE''"
| "op_kind_value Op_SAMPLE = ''SAMPLE''"
| "op_kind_value Op_SEARCH = ''SEARCH''"
| "op_kind_value Op_SUMMARIZE = ''SUMMARIZE''"
| "op_kind_value Op_UNION_ALL = ''UNION_ALL''"
| "op_kind_value Op_UNION_DISTINCT = ''UNION_DISTINCT''"
| "op_kind_value Op_UNPIVOT = ''UNPIVOT''"
| "op_kind_value Op_WINDOW = ''WINDOW''"

definition V0_OPERATOR_KINDS :: "operator_kind list" where
  "V0_OPERATOR_KINDS =
     [Op_SOURCE, Op_SELECT, Op_FILTER, Op_AGGREGATE, Op_PIVOT, Op_DERIVE, Op_PROJECT,
      Op_SORT, Op_LIMIT, Op_JOIN]"

definition BLOCKED_OPERATOR_KINDS :: "operator_kind list" where
  "BLOCKED_OPERATOR_KINDS = [Op_ACT, Op_ASK, Op_SEARCH]"

datatype plan_version = V0 | V1

datatype physical_node_kind = SOURCE_FRAGMENT | OPERATOR

datatype scalar_type =
  T_STRING | T_INTEGER | T_FLOAT | T_DECIMAL | T_BOOLEAN | T_DATE | T_TIMESTAMP

fun scalar_type_value :: "scalar_type \<Rightarrow> string" where
  "scalar_type_value T_STRING = ''string''"
| "scalar_type_value T_INTEGER = ''integer''"
| "scalar_type_value T_FLOAT = ''float''"
| "scalar_type_value T_DECIMAL = ''decimal''"
| "scalar_type_value T_BOOLEAN = ''boolean''"
| "scalar_type_value T_DATE = ''date''"
| "scalar_type_value T_TIMESTAMP = ''timestamp''"

datatype expression_kind =
    E_COLUMN | E_LITERAL | E_ADD | E_SUBTRACT | E_MULTIPLY | E_DIVIDE | E_EQUAL | E_NOT_EQUAL
  | E_LESS_THAN | E_LESS_EQUAL | E_GREATER_THAN | E_GREATER_EQUAL | E_AND | E_OR | E_NOT
  | E_IS_NULL | E_COALESCE

datatype aggregate_function = Agg_SUM | Agg_AVG | Agg_MIN | Agg_MAX | Agg_COUNT

datatype join_type = J_INNER | J_LEFT | J_RIGHT | J_FULL

datatype sort_direction = ASC | DESC

datatype time_grain = G_DAY | G_WEEK | G_MONTH | G_QUARTER | G_YEAR

fun time_grain_value :: "time_grain \<Rightarrow> string" where
  "time_grain_value G_DAY = ''day''"
| "time_grain_value G_WEEK = ''week''"
| "time_grain_value G_MONTH = ''month''"
| "time_grain_value G_QUARTER = ''quarter''"
| "time_grain_value G_YEAR = ''year''"

section \<open>Sources and columns\<close>

record capability_catalog =
  cap_source_alias :: string
  cap_source_type :: string
  cap_operator_kinds :: "operator_kind list"
  cap_joins :: bool
  cap_aggregate_functions :: "aggregate_function list"
  cap_time_grains :: "time_grain list"
  cap_spill_supported :: bool
  cap_max_rows :: "int option"
  cap_max_bytes :: "int option"

definition legacy_capabilities :: "capability_catalog \<Rightarrow> bool" where
  "legacy_capabilities c =
     (set (cap_operator_kinds c) \<subseteq> set V0_OPERATOR_KINDS
      \<and> (case cap_max_rows c of None \<Rightarrow> True | Some n \<Rightarrow> 0 < n)
      \<and> (case cap_max_bytes c of None \<Rightarrow> True | Some n \<Rightarrow> 0 < n))"

definition catalog_supports :: "capability_catalog \<Rightarrow> operator_kind \<Rightarrow> bool" where
  "catalog_supports c k =
     (if k = Op_JOIN then cap_joins c \<and> k \<in> set (cap_operator_kinds c)
      else k \<in> set (cap_operator_kinds c))"

record bound_source =
  src_alias :: string
  src_type :: string
  src_object_name :: string

record bound_column =
  bc_concept :: string
  bc_source_alias :: string
  bc_column_name :: string
  bc_data_type :: scalar_type

section \<open>Typed expressions\<close>

datatype typed_expression =
  TypedExpression
    (expr_kind: expression_kind)
    (expr_type: scalar_type)
    (expr_column: "string option")
    (expr_value: scalar)
    (expr_args: "typed_expression list")

text \<open>Python truth of an optional string: neither \<open>None\<close> nor empty.\<close>

definition has_text :: "string option \<Rightarrow> bool" where
  "has_text s = (s \<noteq> None \<and> s \<noteq> Some [])"

definition validate_shape :: "typed_expression \<Rightarrow> bool" where
  "validate_shape e =
     (\<not> (expr_kind e = E_COLUMN \<and> (\<not> has_text (expr_column e) \<or> expr_args e \<noteq> []))
      \<and> \<not> (expr_kind e = E_LITERAL \<and> (has_text (expr_column e) \<or> expr_args e \<noteq> []))
      \<and> \<not> (expr_kind e \<notin> {E_COLUMN, E_LITERAL} \<and> has_text (expr_column e)))"

text \<open>Constructing a nested expression validates every expression inside it.\<close>

fun validate_shape_deep :: "typed_expression \<Rightarrow> bool" where
  "validate_shape_deep (TypedExpression k t c v as) =
     (validate_shape (TypedExpression k t c v as) \<and> (\<forall>a \<in> set as. validate_shape_deep a))"

definition expr_col :: "string \<Rightarrow> scalar_type \<Rightarrow> typed_expression" where
  "expr_col name t = TypedExpression E_COLUMN t (Some name) SNone []"

definition expr_literal :: "scalar \<Rightarrow> scalar_type \<Rightarrow> typed_expression" where
  "expr_literal v t = TypedExpression E_LITERAL t None v []"

datatype bound_predicate = BoundPredicate (pred_expression: typed_expression)

definition boolean_expression :: "bound_predicate \<Rightarrow> bool" where
  "boolean_expression p = (expr_type (pred_expression p) = T_BOOLEAN)"

record named_expression =
  ne_name :: string
  ne_expression :: typed_expression

record aggregate_spec =
  agg_name :: string
  agg_function :: aggregate_function
  agg_expression :: "typed_expression option"

record sort_spec =
  sort_column :: string
  sort_dir :: sort_direction
  sort_nulls_first :: bool

record join_key =
  jk_left :: string
  jk_right :: string

section \<open>Operator specifications\<close>

datatype window_function =
  W_row_number | W_rank | W_dense_rank | W_sum | W_min | W_max | W_count

record window_spec =
  win_function :: window_function
  win_output :: string
  win_column :: "string option"
  win_preceding :: int

record date_spec =
  date_column :: string
  date_output :: string
  date_grain :: time_grain

record unpivot_spec =
  unp_columns :: "string list"
  unp_name_column :: string
  unp_value_column :: string

record explode_spec =
  expl_column :: string
  expl_output :: string

record impute_spec =
  imp_column :: string
  imp_value :: typed_expression

text \<open>The fields \<open>OperatorSpecV1\<close> adds.\<close>

record operator_ext =
  ext_partition_by :: "string list"
  ext_window :: "window_spec option"
  ext_date :: "date_spec option"
  ext_unpivot :: "unpivot_spec option"
  ext_explode :: "explode_spec option"
  ext_impute :: "impute_spec option"
  ext_sample_seed :: "int option"

record operator_spec =
  op_kind :: operator_kind
  op_columns :: "string list"
  op_predicate :: "bound_predicate option"
  op_group_by :: "string list"
  op_aggregates :: "aggregate_spec list"
  op_expressions :: "named_expression list"
  op_sort :: "sort_spec list"
  op_limit :: "int option"
  op_join_type :: "join_type option"
  op_join_keys :: "join_key list"
  op_pivot_index :: "string list"
  op_pivot_column :: "string option"
  op_pivot_value :: "string option"
  op_pivot_values :: "string list"
  op_time_grain :: "time_grain option"
  op_ext :: "operator_ext option"

definition empty_ext :: operator_ext where
  "empty_ext = \<lparr>ext_partition_by = [], ext_window = None, ext_date = None, ext_unpivot = None,
     ext_explode = None, ext_impute = None, ext_sample_seed = None\<rparr>"

text \<open>An \<open>OperatorSpec\<close> of the given kind with every other field at its default.\<close>

definition operator_of :: "operator_kind \<Rightarrow> operator_spec" where
  "operator_of k = \<lparr>op_kind = k, op_columns = [], op_predicate = None, op_group_by = [],
     op_aggregates = [], op_expressions = [], op_sort = [], op_limit = None,
     op_join_type = None, op_join_keys = [], op_pivot_index = [], op_pivot_column = None,
     op_pivot_value = None, op_pivot_values = [], op_time_grain = None, op_ext = None\<rparr>"

definition is_v1 :: "operator_spec \<Rightarrow> bool" where
  "is_v1 op = (op_ext op \<noteq> None)"

text \<open>The extension fields as \<open>model_dump\<close> and \<open>setdefault\<close> present them to the v1 model.\<close>

definition ext_of :: "operator_spec \<Rightarrow> operator_ext" where
  "ext_of op = (case op_ext op of None \<Rightarrow> empty_ext | Some x \<Rightarrow> x)"

definition legacy_operator :: "operator_spec \<Rightarrow> bool" where
  "legacy_operator op =
     ((is_v1 op \<or> op_kind op \<in> set V0_OPERATOR_KINDS)
      \<and> (case op_limit op of None \<Rightarrow> True | Some n \<Rightarrow> 0 \<le> n))"

subsection \<open>Validation of the v1 payloads\<close>

definition bounded_name :: "string \<Rightarrow> bool" where
  "bounded_name s = (1 \<le> length s \<and> length s \<le> 128)"

definition window_shape :: "window_spec \<Rightarrow> bool" where
  "window_shape w =
     (bounded_name (win_output w) \<and> 0 \<le> win_preceding w \<and> win_preceding w \<le> 100000
      \<and> (let ranking = win_function w \<in> {W_row_number, W_rank, W_dense_rank}
         in \<not> (ranking \<and> (win_column w \<noteq> None \<or> win_preceding w \<noteq> 0))
            \<and> \<not> (\<not> ranking \<and> \<not> has_text (win_column w))))"

definition date_shape :: "date_spec \<Rightarrow> bool" where
  "date_shape d = (bounded_name (date_column d) \<and> bounded_name (date_output d))"

definition unpivot_shape :: "unpivot_spec \<Rightarrow> bool" where
  "unpivot_shape u =
     (1 \<le> length (unp_columns u) \<and> length (unp_columns u) \<le> 128
      \<and> bounded_name (unp_name_column u) \<and> bounded_name (unp_value_column u))"

definition explode_shape :: "explode_spec \<Rightarrow> bool" where
  "explode_shape e = (bounded_name (expl_column e) \<and> bounded_name (expl_output e))"

definition literal_only :: "impute_spec \<Rightarrow> bool" where
  "literal_only i =
     (bounded_name (imp_column i) \<and> validate_shape_deep (imp_value i)
      \<and> expr_kind (imp_value i) = E_LITERAL \<and> expr_value (imp_value i) \<noteq> SNone
      \<and> is_ok (scalar_value (scalar_type_value (expr_type (imp_value i))) (expr_value (imp_value i))))"

text \<open>\<open>validate_expression_v1\<close>: a depth-first walk with a stack and a node counter.\<close>

definition expression_node_ok :: "typed_expression \<Rightarrow> bool" where
  "expression_node_ok e =
     (if expr_kind e = E_LITERAL
      then expr_args e = [] \<and> \<not> has_text (expr_column e)
           \<and> is_ok (scalar_value (scalar_type_value (expr_type e)) (expr_value e))
      else if expr_kind e = E_COLUMN
      then has_text (expr_column e) \<and> CHR 0x00 \<notin> set (the (expr_column e)) \<and> expr_args e = []
      else \<not> has_text (expr_column e)
           \<and> (if expr_kind e = E_COALESCE
              then expr_args e \<noteq> [] \<and> (\<forall>a \<in> set (expr_args e). expr_type a = expr_type e)
              else length (expr_args e) = (if expr_kind e \<in> {E_NOT, E_IS_NULL} then 1 else 2)))"

definition expressions_size :: "(typed_expression \<times> nat) list \<Rightarrow> nat" where
  "expressions_size ps = (\<Sum>(e, d) \<leftarrow> ps. size e)"

text \<open>
  \<open>pending.pop()\<close> takes the last entry of the Python list and \<open>extend\<close> adds
  at that end: the head of the list here is the end of the Python list.
\<close>

lemma size_args_less:
  "sum_list (map size (expr_args e)) < size e"
proof (cases e)
  case (TypedExpression k t c v as)
  have "sum_list (map size as) \<le> size_list size as" by (induction as) auto
  with TypedExpression show ?thesis by simp
qed

lemma expressions_size_args:
  "expressions_size (rev (map (\<lambda>a. (a, d)) as)) = sum_list (map size as)"
  by (induction as) (simp_all add: expressions_size_def)

lemma expressions_size_append:
  "expressions_size (ps @ qs) = expressions_size ps + expressions_size qs"
  by (simp add: expressions_size_def)

function walk_expression_v1 :: "(typed_expression \<times> nat) list \<Rightarrow> nat \<Rightarrow> bool" where
  "walk_expression_v1 [] count = True"
| "walk_expression_v1 ((node, depth) # pending) count =
     (if 16 < depth \<or> 128 < Suc count then False
      else if \<not> expression_node_ok node then False
      else walk_expression_v1
             (rev (map (\<lambda>a. (a, Suc depth)) (expr_args node)) @ pending) (Suc count))"
  by pat_completeness auto
termination
proof (relation "measure (\<lambda>(ps, n). expressions_size ps)")
  fix node :: typed_expression and depth count :: nat and pending
  have "expressions_size (rev (map (\<lambda>a. (a, Suc depth)) (expr_args node)) @ pending)
        = sum_list (map size (expr_args node)) + expressions_size pending"
    by (simp add: expressions_size_append expressions_size_args)
  also have "\<dots> < size node + expressions_size pending"
    using size_args_less by simp
  finally show "((rev (map (\<lambda>a. (a, Suc depth)) (expr_args node)) @ pending, Suc count),
      (node, depth) # pending, count) \<in> measure (\<lambda>(ps, n). expressions_size ps)"
    by (simp add: expressions_size_def)
qed simp

definition validate_expression_v1 :: "typed_expression \<Rightarrow> bool" where
  "validate_expression_v1 e = walk_expression_v1 [(e, 0)] 0"

subsection \<open>The form table of \<open>OperatorSpecV1.extension_shape\<close>\<close>

fun allowed_fields :: "operator_kind \<Rightarrow> string list" where
  "allowed_fields Op_SELECT = [''columns'', ''expressions'']"
| "allowed_fields Op_PROJECT = [''columns'', ''expressions'']"
| "allowed_fields Op_DERIVE = [''expressions'']"
| "allowed_fields Op_FILTER = [''predicate'']"
| "allowed_fields Op_SORT = [''sort'']"
| "allowed_fields Op_LIMIT = [''limit'']"
| "allowed_fields Op_AGGREGATE = [''group_by'', ''aggregates'']"
| "allowed_fields Op_SUMMARIZE = [''group_by'', ''aggregates'']"
| "allowed_fields Op_JOIN = [''join_type'', ''join_keys'']"
| "allowed_fields Op_PIVOT = [''pivot_index'', ''pivot_column'', ''pivot_value'', ''pivot_values'']"
| "allowed_fields Op_DISTINCT = [''columns'']"
| "allowed_fields Op_DEDUPLICATE = [''partition_by'', ''sort'']"
| "allowed_fields Op_PICK = [''partition_by'', ''sort'', ''limit'']"
| "allowed_fields Op_SAMPLE = [''sample_seed'', ''limit'']"
| "allowed_fields Op_WINDOW = [''partition_by'', ''sort'', ''window'']"
| "allowed_fields Op_DATE = [''date'']"
| "allowed_fields Op_RESAMPLE = [''date'', ''group_by'', ''aggregates'']"
| "allowed_fields Op_UNPIVOT = [''unpivot'']"
| "allowed_fields Op_EXPLODE = [''explode'']"
| "allowed_fields Op_IMPUTE = [''impute'']"
| "allowed_fields _ = []"

text \<open>\<open>set(self.model_dump(exclude_defaults=True)) - {"kind", "version"}\<close>.\<close>

definition nondefault_fields :: "operator_spec \<Rightarrow> string list" where
  "nondefault_fields op =
     (let x = ext_of op in
      map fst (filter snd
        [(''columns'', op_columns op \<noteq> []),
         (''predicate'', op_predicate op \<noteq> None),
         (''group_by'', op_group_by op \<noteq> []),
         (''aggregates'', op_aggregates op \<noteq> []),
         (''expressions'', op_expressions op \<noteq> []),
         (''sort'', op_sort op \<noteq> []),
         (''limit'', op_limit op \<noteq> None),
         (''join_type'', op_join_type op \<noteq> None),
         (''join_keys'', op_join_keys op \<noteq> []),
         (''pivot_index'', op_pivot_index op \<noteq> []),
         (''pivot_column'', op_pivot_column op \<noteq> None),
         (''pivot_value'', op_pivot_value op \<noteq> None),
         (''pivot_values'', op_pivot_values op \<noteq> []),
         (''time_grain'', op_time_grain op \<noteq> None),
         (''partition_by'', ext_partition_by x \<noteq> []),
         (''window'', ext_window x \<noteq> None),
         (''date'', ext_date x \<noteq> None),
         (''unpivot'', ext_unpivot x \<noteq> None),
         (''explode'', ext_explode x \<noteq> None),
         (''impute'', ext_impute x \<noteq> None),
         (''sample_seed'', ext_sample_seed x \<noteq> None)]))"

definition required_payload :: "operator_spec \<Rightarrow> bool" where
  "required_payload op =
     (case op_kind op of
        Op_FILTER \<Rightarrow> op_predicate op \<noteq> None
      | Op_LIMIT \<Rightarrow> op_limit op \<noteq> None
      | Op_SELECT \<Rightarrow> op_columns op \<noteq> [] \<or> op_expressions op \<noteq> []
      | Op_PROJECT \<Rightarrow> op_columns op \<noteq> [] \<or> op_expressions op \<noteq> []
      | Op_DERIVE \<Rightarrow> op_expressions op \<noteq> []
      | Op_AGGREGATE \<Rightarrow> op_aggregates op \<noteq> []
      | Op_SUMMARIZE \<Rightarrow> op_aggregates op \<noteq> []
      | Op_RESAMPLE \<Rightarrow> op_aggregates op \<noteq> []
      | Op_JOIN \<Rightarrow> op_join_type op \<noteq> None \<and> op_join_keys op \<noteq> []
      | Op_SORT \<Rightarrow> op_sort op \<noteq> []
      | Op_PIVOT \<Rightarrow> has_text (op_pivot_column op) \<and> has_text (op_pivot_value op)
                    \<and> op_pivot_values op \<noteq> []
      | _ \<Rightarrow> True)"

definition operator_identifiers :: "operator_spec \<Rightarrow> string list" where
  "operator_identifiers op =
     (let x = ext_of op in
      op_columns op @ op_group_by op @ ext_partition_by x @ op_pivot_index op @ op_pivot_values op
      @ map ne_name (op_expressions op) @ map agg_name (op_aggregates op)
      @ map sort_column (op_sort op) @ map jk_left (op_join_keys op) @ map jk_right (op_join_keys op)
      @ (case op_pivot_column op of None \<Rightarrow> [] | Some c \<Rightarrow> [c])
      @ (case op_pivot_value op of None \<Rightarrow> [] | Some c \<Rightarrow> [c])
      @ (case ext_window x of None \<Rightarrow> []
         | Some w \<Rightarrow> win_output w # (case win_column w of None \<Rightarrow> [] | Some c \<Rightarrow> [c]))
      @ (case ext_date x of None \<Rightarrow> [] | Some d \<Rightarrow> [date_column d, date_output d])
      @ (case ext_unpivot x of None \<Rightarrow> []
         | Some u \<Rightarrow> unp_columns u @ [unp_name_column u, unp_value_column u])
      @ (case ext_explode x of None \<Rightarrow> [] | Some e \<Rightarrow> [expl_column e, expl_output e])
      @ (case ext_impute x of None \<Rightarrow> [] | Some i \<Rightarrow> [imp_column i]))"

definition operator_expressions :: "operator_spec \<Rightarrow> typed_expression list" where
  "operator_expressions op =
     map ne_expression (op_expressions op)
     @ List.map_filter agg_expression (op_aggregates op)
     @ (case op_predicate op of None \<Rightarrow> [] | Some p \<Rightarrow> [pred_expression p])
     @ (case ext_impute (ext_of op) of None \<Rightarrow> [] | Some i \<Rightarrow> [imp_value i])"

definition payload_only_for :: "operator_spec \<Rightarrow> bool" where
  "payload_only_for op =
     (let x = ext_of op; k = op_kind op
      in (ext_window x \<noteq> None) = (k = Op_WINDOW)
         \<and> (ext_date x \<noteq> None) = (k \<in> {Op_DATE, Op_RESAMPLE})
         \<and> (ext_unpivot x \<noteq> None) = (k = Op_UNPIVOT)
         \<and> (ext_explode x \<noteq> None) = (k = Op_EXPLODE)
         \<and> (ext_impute x \<noteq> None) = (k = Op_IMPUTE)
         \<and> (ext_sample_seed x \<noteq> None) = (k = Op_SAMPLE))"

definition unique_bounded :: "string list \<Rightarrow> bool" where
  "unique_bounded xs = (length xs \<le> 128 \<and> distinct xs)"

definition extension_shape :: "operator_spec \<Rightarrow> bool" where
  "extension_shape op =
     (set (nondefault_fields op) \<subseteq> set (allowed_fields (op_kind op))
      \<and> required_payload op
      \<and> (\<forall>a \<in> set (op_aggregates op). agg_function a = Agg_COUNT \<or> agg_expression a \<noteq> None)
      \<and> (\<forall>s \<in> set (operator_identifiers op). s \<noteq> [] \<and> CHR 0x00 \<notin> set s)
      \<and> (\<forall>e \<in> set (operator_expressions op). validate_expression_v1 e)
      \<and> length (op_sort op) \<le> 128 \<and> length (op_aggregates op) \<le> 128
      \<and> length (op_expressions op) \<le> 128 \<and> length (op_join_keys op) \<le> 128
      \<and> payload_only_for op
      \<and> (if op_kind op \<in> {Op_PICK, Op_DEDUPLICATE, Op_WINDOW}
         then op_sort op \<noteq> [] else ext_partition_by (ext_of op) = [])
      \<and> \<not> (op_kind op = Op_SAMPLE \<and> op_limit op = None)
      \<and> \<not> (op_kind op = Op_RESAMPLE \<and> op_aggregates op = [])
      \<and> \<not> (op_kind op \<in> {Op_DISTINCT, Op_DEDUPLICATE} \<and> op_limit op \<notin> {None, Some 0})
      \<and> unique_bounded (ext_partition_by (ext_of op)) \<and> unique_bounded (op_columns op)
      \<and> unique_bounded (op_group_by op) \<and> unique_bounded (op_pivot_values op))"

text \<open>The declared field constraints of \<open>OperatorSpecV1\<close> and of the models nested in it.\<close>

definition field_constraints_v1 :: "operator_spec \<Rightarrow> bool" where
  "field_constraints_v1 op =
     (let x = ext_of op in
      (case op_limit op of None \<Rightarrow> True | Some n \<Rightarrow> 0 \<le> n \<and> n \<le> 1000000)
      \<and> length (ext_partition_by x) \<le> 128
      \<and> (case ext_sample_seed x of None \<Rightarrow> True | Some n \<Rightarrow> 0 \<le> n \<and> n \<le> 2 ^ 32 - 1)
      \<and> (case op_predicate op of None \<Rightarrow> True
         | Some p \<Rightarrow> validate_shape_deep (pred_expression p) \<and> boolean_expression p)
      \<and> (\<forall>e \<in> set (op_expressions op). validate_shape_deep (ne_expression e))
      \<and> (\<forall>a \<in> set (op_aggregates op).
           case agg_expression a of None \<Rightarrow> True | Some e \<Rightarrow> validate_shape_deep e)
      \<and> (case ext_window x of None \<Rightarrow> True | Some w \<Rightarrow> window_shape w)
      \<and> (case ext_date x of None \<Rightarrow> True | Some d \<Rightarrow> date_shape d)
      \<and> (case ext_unpivot x of None \<Rightarrow> True | Some u \<Rightarrow> unpivot_shape u)
      \<and> (case ext_explode x of None \<Rightarrow> True | Some e \<Rightarrow> explode_shape e)
      \<and> (case ext_impute x of None \<Rightarrow> True | Some i \<Rightarrow> literal_only i))"

text \<open>
  \<open>validate_operator_v1\<close> dumps the operator, marks it as v1 and runs the v1
  model over the dump: field constraints, nested models, then the form table.
\<close>

definition validate_operator_v1 :: "operator_spec \<Rightarrow> unit res" where
  "validate_operator_v1 op =
     raise_unless (field_constraints_v1 op \<and> extension_shape op) ValueError"

section \<open>Fragments, nodes and plans\<close>

record bound_parameter =
  par_name :: string
  par_data_type :: scalar_type
  par_value :: scalar

text \<open>\<open>safe_metadata\<close>: the dictionary \<open>{"name": \<dots>, "data_type": \<dots>}\<close>.\<close>

definition safe_metadata :: "bound_parameter \<Rightarrow> (string, string) dict" where
  "safe_metadata p =
     [(''name'', par_name p), (''data_type'', scalar_type_value (par_data_type p))]"

record source_fragment =
  frag_source :: bound_source
  frag_operations :: "operator_spec list"
  frag_parameters :: "bound_parameter list"
  frag_bound_columns :: "bound_column list"

definition legacy_fragment :: "source_fragment \<Rightarrow> bool" where
  "legacy_fragment f = (\<forall>op \<in> set (frag_operations f). \<not> is_v1 op)"

record logical_operation_ref =
  ref_logical_node_id :: string
  ref_operation :: operator_kind

record physical_node =
  pn_id :: string
  pn_kind :: physical_node_kind
  pn_operation :: operator_kind
  pn_dependencies :: "string list"
  pn_wave :: int
  pn_logical_node_ids :: "string list"
  pn_logical_operations :: "logical_operation_ref list"
  pn_source_fragment :: "source_fragment option"
  pn_operator :: "operator_spec option"

definition validate_payload :: "physical_node \<Rightarrow> bool" where
  "validate_payload n =
     (0 \<le> pn_wave n
      \<and> \<not> (1 < length (pn_logical_node_ids n) \<and> pn_logical_operations n = [])
      \<and> \<not> (pn_logical_operations n \<noteq> []
            \<and> map ref_logical_node_id (pn_logical_operations n) \<noteq> pn_logical_node_ids n)
      \<and> (if pn_kind n = SOURCE_FRAGMENT
         then (case pn_source_fragment n of
                 None \<Rightarrow> False
               | Some f \<Rightarrow> pn_operator n = None \<and> frag_operations f \<noteq> []
                           \<and> pn_operation n = op_kind (last (frag_operations f)))
         else (case pn_operator n of
                 None \<Rightarrow> False
               | Some op \<Rightarrow> pn_source_fragment n = None \<and> pn_operation n = op_kind op)))"

record physical_plan =
  plan_version :: plan_version
  plan_id :: string
  plan_nodes :: "physical_node list"
  plan_output_node_id :: string

definition plan_version_boundary :: "physical_plan \<Rightarrow> bool" where
  "plan_version_boundary p =
     (if plan_version p = V0
      then (\<forall>n \<in> set (plan_nodes p).
              (case pn_operator n of None \<Rightarrow> True | Some op \<Rightarrow> \<not> is_v1 op)
              \<and> pn_operation n \<in> set V0_OPERATOR_KINDS
              \<and> (\<forall>r \<in> set (pn_logical_operations n). ref_operation r \<in> set V0_OPERATOR_KINDS))
      else (\<forall>n \<in> set (plan_nodes p).
              (case pn_operator n of None \<Rightarrow> True | Some op \<Rightarrow> is_ok (validate_operator_v1 op))
              \<and> (case pn_source_fragment n of None \<Rightarrow> True
                 | Some f \<Rightarrow> \<forall>op \<in> set (frag_operations f). is_ok (validate_operator_v1 op))))"

section \<open>Execution states\<close>

datatype execution_state =
  PENDING | READY | RUNNING | SUCCEEDED | FAILED | CANCELLED | TIMED_OUT | SKIPPED

fun execution_state_value :: "execution_state \<Rightarrow> string" where
  "execution_state_value PENDING = ''PENDING''"
| "execution_state_value READY = ''READY''"
| "execution_state_value RUNNING = ''RUNNING''"
| "execution_state_value SUCCEEDED = ''SUCCEEDED''"
| "execution_state_value FAILED = ''FAILED''"
| "execution_state_value CANCELLED = ''CANCELLED''"
| "execution_state_value TIMED_OUT = ''TIMED_OUT''"
| "execution_state_value SKIPPED = ''SKIPPED''"

definition TERMINAL_STATES :: "execution_state list" where
  "TERMINAL_STATES = [SUCCEEDED, FAILED, CANCELLED, TIMED_OUT, SKIPPED]"

fun STATE_TRANSITIONS :: "execution_state \<Rightarrow> execution_state list" where
  "STATE_TRANSITIONS PENDING = [READY, CANCELLED, SKIPPED]"
| "STATE_TRANSITIONS READY = [RUNNING, FAILED, CANCELLED, SKIPPED]"
| "STATE_TRANSITIONS RUNNING = [SUCCEEDED, FAILED, CANCELLED, TIMED_OUT]"
| "STATE_TRANSITIONS _ = []"

section \<open>Events and results\<close>

datatype event_scope = Scope_run | Scope_stage | Scope_node

text \<open>
  A \<open>DiagnosticEvent\<close> without its message, timestamp, duration and metadata.
\<close>

record diagnostic_event =
  ev_sequence :: nat
  ev_run_id :: string
  ev_scope :: event_scope
  ev_scope_id :: string
  ev_state :: execution_state
  ev_code :: string

datatype storage_kind = Inline | Parquet

record result_handle =
  rh_result_id :: string
  rh_run_id :: string
  rh_node_id :: string
  rh_storage :: storage_kind
  rh_uri :: string

record schema_field =
  sf_name :: string
  sf_data_type :: string
  sf_nullable :: bool

record result_part =
  part_path :: string
  part_rows :: nat
  part_bytes :: nat

text \<open>A \<open>CommittedManifest\<close> without its commit timestamp.\<close>

record committed_manifest =
  man_result :: result_handle
  man_schema :: "schema_field list"
  man_row_count :: nat
  man_byte_count :: nat
  man_parts :: "result_part list"

record result_summary =
  sum_run_id :: string
  sum_state :: execution_state
  sum_row_count :: "nat option"
  sum_result :: "result_handle option"
  sum_diagnostic_code :: "string option"


section \<open>The expression walk meets its recursive reading\<close>

text \<open>Depth (a leaf has depth 0), node count and a predicate on every node of an expression.\<close>

fun expr_depth :: "typed_expression \<Rightarrow> nat" where
  "expr_depth (TypedExpression k t c v as) = foldr (\<lambda>a m. max (Suc (expr_depth a)) m) as 0"

fun expr_nodes :: "typed_expression \<Rightarrow> nat" where
  "expr_nodes (TypedExpression k t c v as) = Suc (\<Sum>a\<leftarrow>as. expr_nodes a)"

fun expr_all :: "(typed_expression \<Rightarrow> bool) \<Rightarrow> typed_expression \<Rightarrow> bool" where
  "expr_all P (TypedExpression k t c v as) =
     (P (TypedExpression k t c v as) \<and> (\<forall>a \<in> set as. expr_all P a))"

lemma foldr_max_le: "foldr (\<lambda>a m. max (f a) m) xs (0::nat) \<le> n \<longleftrightarrow> (\<forall>x \<in> set xs. f x \<le> n)"
  by (induction xs) auto

lemma expr_depth_within:
  "d + expr_depth e \<le> n \<longleftrightarrow> d \<le> n \<and> (\<forall>a \<in> set (expr_args e). Suc d + expr_depth a \<le> n)"
proof (cases e)
  case (TypedExpression k t c v as)
  have "expr_depth e \<le> n - d \<longleftrightarrow> (\<forall>a \<in> set as. Suc (expr_depth a) \<le> n - d)"
    by (simp add: TypedExpression foldr_max_le)
  moreover have "d + x \<le> n \<longleftrightarrow> d \<le> n \<and> x \<le> n - d" for x by arith
  moreover have "Suc d + x \<le> n \<longleftrightarrow> d \<le> n \<and> Suc x \<le> n - d" for x by arith
  ultimately show ?thesis by (simp add: TypedExpression del: expr_depth.simps) blast
qed

lemma expr_nodes_unfold: "expr_nodes e = Suc (\<Sum>a\<leftarrow>expr_args e. expr_nodes a)"
  by (cases e) simp

lemma expr_all_unfold: "expr_all P e \<longleftrightarrow> P e \<and> (\<forall>a \<in> set (expr_args e). expr_all P a)"
  by (cases e) simp

lemma sum_list_rev_pairs:
  "(\<Sum>(e, k)\<leftarrow>rev (map (\<lambda>a. (a, d)) as). f e) = (\<Sum>a\<leftarrow>as. f a :: nat)"
  by (induction as) simp_all

lemma walk_expression_v1_iff:
  "count \<le> 128 \<Longrightarrow>
   walk_expression_v1 pending count \<longleftrightarrow>
     (\<forall>(e, d) \<in> set pending. d + expr_depth e \<le> 16 \<and> expr_all expression_node_ok e)
     \<and> count + (\<Sum>(e, d)\<leftarrow>pending. expr_nodes e) \<le> 128"
proof (induction pending count rule: walk_expression_v1.induct)
  case (2 node depth pending count)
  show ?case
  proof (cases "depth \<le> 16 \<and> Suc count \<le> 128 \<and> expression_node_ok node")
    case True
    with 2 show ?thesis
      by (auto simp: sum_list_rev_pairs expr_nodes_unfold [of node] expr_depth_within [of depth node]
          expr_all_unfold [of _ node] ball_Un)
  next
    case False
    then show ?thesis
      by (auto simp: expr_nodes_unfold [of node] expr_all_unfold [of _ node])
  qed
qed simp

lemma expr_all_imp: "expr_all P e \<Longrightarrow> P e"
  by (cases e) simp

lemma validate_expression_v1_iff:
  "validate_expression_v1 e \<longleftrightarrow>
     expr_depth e \<le> 16 \<and> expr_nodes e \<le> 128 \<and> expr_all expression_node_ok e"
  using walk_expression_v1_iff [of 0 "[(e, 0)]"]
  by (auto simp: validate_expression_v1_def simp del: walk_expression_v1.simps)

text \<open>States of a finished machine have no way out, and nothing returns to \<^const>\<open>PENDING\<close>.\<close>

lemma terminal_no_transition: "s \<in> set TERMINAL_STATES \<Longrightarrow> STATE_TRANSITIONS s = []"
  by (auto simp: TERMINAL_STATES_def)

lemma nonterminal_transition: "s \<notin> set TERMINAL_STATES \<Longrightarrow> STATE_TRANSITIONS s \<noteq> []"
  by (cases s) (auto simp: TERMINAL_STATES_def)

section \<open>Properties\<close>

text \<open>
  C35: The iterative expression check of \<open>validate_expression_v1\<close>, which walks the
  tree with an explicit stack and stops at the first violation, accepts exactly
  the trees of depth at most 16 with at most 128 nodes in which every node is
  well formed, as the recursive definitions of depth, size and the node
  condition say.
\<close>

theorem expression_walk_is_recursive_check:
  "validate_expression_v1 e \<longleftrightarrow>
     expr_depth e \<le> 16 \<and> expr_nodes e \<le> 128 \<and> expr_all expression_node_ok e"
  by (rule validate_expression_v1_iff)

end
