(* ===== verification/Runtime_Events.thy ===== *)
theory Runtime_Events
  imports Runtime_Domain
begin

text \<open>
  Finite state tracking and the in-memory event store
  (\<open>query_runtime/events.py\<close>): the \<open>StateMachine\<close> of a run, a stage or a
  node; \<open>InMemoryEventStore\<close> with its claims, its per-run event lists and its
  bounded subscriber queues; and the \<open>_Emitter\<close> of the coordinator, which
  numbers the events of one run. The \<open>EventStore\<close> protocol is the locale
  \<open>event_log\<close>; the facts about numbering are proved in it once and the
  in-memory store interprets it.
\<close>

section \<open>State machine\<close>

text \<open>\<open>StateMachine.validate_transition\<close> and \<open>StateMachine.transition\<close>; the machine is its state.\<close>

definition validate_transition :: "execution_state \<Rightarrow> execution_state \<Rightarrow> unit res" where
  "validate_transition s target =
     raise_unless (target \<in> set (STATE_TRANSITIONS s)) (RuntimeFailure ''STATE_TRANSITION_INVALID'')"

definition transition :: "execution_state \<Rightarrow> execution_state \<Rightarrow> execution_state res" where
  "transition s target = rbind (validate_transition s target) (\<lambda>_. Inr target)"

fun run_transitions :: "execution_state \<Rightarrow> execution_state list \<Rightarrow> execution_state res" where
  "run_transitions s [] = Inr s"
| "run_transitions s (t # ts) = rbind (transition s t) (\<lambda>s'. run_transitions s' ts)"

definition is_terminal :: "execution_state \<Rightarrow> bool" where
  "is_terminal s = (s \<in> set TERMINAL_STATES)"

lemma transition_ok: "transition s t = Inr s' \<longleftrightarrow> s' = t \<and> t \<in> set (STATE_TRANSITIONS s)"
  by (auto simp: transition_def validate_transition_def)

lemma transition_error:
  "transition s t = Inl e \<longleftrightarrow>
     e = RuntimeFailure ''STATE_TRANSITION_INVALID'' \<and> t \<notin> set (STATE_TRANSITIONS s)"
  by (auto simp: transition_def validate_transition_def rbind_eq_Inl)

lemma is_terminal_simps [simp]:
  "is_terminal SUCCEEDED" "is_terminal FAILED" "is_terminal CANCELLED" "is_terminal TIMED_OUT"
  "is_terminal SKIPPED" "\<not> is_terminal PENDING" "\<not> is_terminal READY" "\<not> is_terminal RUNNING"
  by (simp_all add: is_terminal_def TERMINAL_STATES_def)

text \<open>How far along a state is; every transition moves forward, so histories are short.\<close>

fun state_rank :: "execution_state \<Rightarrow> nat" where
  "state_rank PENDING = 0"
| "state_rank READY = 1"
| "state_rank RUNNING = 2"
| "state_rank _ = 3"

lemma transition_rank: "transition s t = Inr s' \<Longrightarrow> state_rank s < state_rank s'"
  by (cases s) (auto simp: transition_ok)

lemma run_transitions_bounded:
  "run_transitions s ts = Inr s' \<Longrightarrow> state_rank s + length ts \<le> state_rank s'"
proof (induction ts arbitrary: s)
  case (Cons t ts)
  then obtain u where u: "transition s t = Inr u" "run_transitions u ts = Inr s'" by auto
  with Cons.IH [OF u(2)] transition_rank [OF u(1)] show ?case by simp
qed simp

lemma state_rank_le: "state_rank s \<le> 3"
  by (cases s) simp_all

lemma run_transitions_terminal_stuck:
  "is_terminal s \<Longrightarrow> run_transitions s ts = Inr s' \<longleftrightarrow> ts = [] \<and> s' = s"
  by (cases ts) (auto simp: is_terminal_def transition_ok terminal_no_transition)

section \<open>In-memory event store\<close>

text \<open>
  A subscriber's queue is named by a number. \<open>st_subscribers\<close> and
  \<open>st_closing\<close> hold the queue names the source keeps in sets; \<open>st_queues\<close>
  is the content of every queue.
\<close>

record mem_store =
  st_events :: "(string, diagnostic_event list) dict"
  st_subscribers :: "(string, nat list) dict"
  st_queues :: "(nat, diagnostic_event list) dict"
  st_closing :: "nat list"
  st_claimed :: "string list"

definition empty_store :: mem_store where
  "empty_store = \<lparr>st_events = [], st_subscribers = [], st_queues = [], st_closing = [],
     st_claimed = []\<rparr>"

definition queue_maxsize :: nat where
  "queue_maxsize = 256"

definition store_events :: "mem_store \<Rightarrow> string \<Rightarrow> diagnostic_event list" where
  "store_events st r = dget_or (st_events st) r []"

definition store_subscribers :: "mem_store \<Rightarrow> string \<Rightarrow> nat list" where
  "store_subscribers st r = dget_or (st_subscribers st) r []"

definition queue_content :: "mem_store \<Rightarrow> nat \<Rightarrow> diagnostic_event list" where
  "queue_content st q = dget_or (st_queues st) q []"

definition store_claim :: "mem_store \<Rightarrow> string \<Rightarrow> bool \<times> mem_store" where
  "store_claim st r =
     (if r \<in> set (st_claimed st) \<or> store_events st r \<noteq> [] then (False, st)
      else (True, st\<lparr>st_claimed := r # st_claimed st\<rparr>))"

definition is_run_terminal :: "diagnostic_event \<Rightarrow> bool" where
  "is_run_terminal e = (ev_scope e = Scope_run \<and> ev_state e \<in> set TERMINAL_STATES)"

text \<open>
  One subscriber of \<open>append\<close>: a full queue is drained and closed, otherwise
  the event is put and a terminal run event closes the queue.
\<close>

definition put_event ::
  "diagnostic_event \<Rightarrow> nat \<Rightarrow> (nat, diagnostic_event list) dict \<times> nat list
     \<Rightarrow> (nat, diagnostic_event list) dict \<times> nat list" where
  "put_event e q acc =
     (let (queues, closing) = acc; content = dget_or queues q []
      in if queue_maxsize \<le> length content then (dput q [] queues, closing @ [q])
         else (dput q (content @ [e]) queues,
               if is_run_terminal e then closing @ [q] else closing))"

definition store_append :: "mem_store \<Rightarrow> diagnostic_event \<Rightarrow> mem_store" where
  "store_append st e =
     (let r = ev_run_id e;
          subscribers = store_subscribers st r;
          (queues, closing) = fold (put_event e) subscribers (st_queues st, [])
      in st\<lparr>st_events := dput r (store_events st r @ [e]) (st_events st),
            st_queues := queues,
            st_subscribers :=
              (if closing = [] then st_subscribers st
               else dput r (filter (\<lambda>q. q \<notin> set closing) subscribers) (st_subscribers st)),
            st_closing := st_closing st @ filter (\<lambda>q. q \<notin> set (st_closing st)) closing\<rparr>)"

text \<open>The opening of \<open>subscribe\<close>: nothing is registered once the run has ended.\<close>

definition store_subscribe :: "mem_store \<Rightarrow> string \<Rightarrow> nat \<Rightarrow> bool \<times> mem_store" where
  "store_subscribe st r q =
     (if \<exists>e \<in> set (store_events st r). is_run_terminal e then (False, st)
      else (True, st\<lparr>st_subscribers := dput r (q # store_subscribers st r) (st_subscribers st),
                     st_queues := dput q [] (st_queues st)\<rparr>))"

text \<open>
  One turn of the loop in \<open>subscribe\<close>. The subscription ends, yields the next
  queued event, or, when nothing arrives before the heartbeat interval, yields
  a heartbeat that is not stored.
\<close>

datatype turn = Finished | Yield diagnostic_event | Heartbeat nat

definition subscription_turn :: "mem_store \<Rightarrow> string \<Rightarrow> nat \<Rightarrow> turn \<times> mem_store" where
  "subscription_turn st r q =
     (let closing = (q \<in> set (st_closing st));
          active = (q \<in> set (store_subscribers st r));
          content = queue_content st q
      in if closing \<and> content = []
         then (Finished, st\<lparr>st_closing := filter (\<lambda>x. x \<noteq> q) (st_closing st)\<rparr>)
         else if \<not> closing \<and> \<not> active then (Finished, st)
         else (case content of
                 e # es \<Rightarrow> (Yield e, st\<lparr>st_queues := dput q es (st_queues st)\<rparr>)
               | [] \<Rightarrow> (Heartbeat (length (store_events st r)), st)))"

text \<open>The \<open>finally\<close> of \<open>subscribe\<close>.\<close>

definition store_unsubscribe :: "mem_store \<Rightarrow> string \<Rightarrow> nat \<Rightarrow> mem_store" where
  "store_unsubscribe st r q =
     st\<lparr>st_subscribers := dput r (filter (\<lambda>x. x \<noteq> q) (store_subscribers st r)) (st_subscribers st),
        st_closing := filter (\<lambda>x. x \<noteq> q) (st_closing st)\<rparr>"

lemmas store_defs [runtime_defs] =
  store_events_def store_subscribers_def queue_content_def store_claim_def store_append_def
  store_subscribe_def subscription_turn_def store_unsubscribe_def

subsection \<open>What each operation does to the events and the queues\<close>

lemma store_events_append:
  "store_events (store_append st e) r =
     (if r = ev_run_id e then store_events st r @ [e] else store_events st r)"
  by (simp add: store_append_def store_events_def dget_or_def Let_def split: prod.split)

lemma store_events_claim: "store_events (snd (store_claim st r)) r' = store_events st r'"
  by (simp add: store_claim_def store_events_def)

lemma store_claimed_append: "st_claimed (store_append st e) = st_claimed st"
  by (simp add: store_append_def Let_def split: prod.split)

lemma store_events_subscribe: "store_events (snd (store_subscribe st r q)) r' = store_events st r'"
  by (simp add: store_subscribe_def store_events_def)

lemma store_events_turn: "store_events (snd (subscription_turn st r q)) r' = store_events st r'"
  by (simp add: subscription_turn_def store_events_def Let_def split: list.split)

lemma store_events_unsubscribe: "store_events (store_unsubscribe st r q) r' = store_events st r'"
  by (simp add: store_unsubscribe_def store_events_def)

text \<open>A full queue, and the state of one queue after \<open>append\<close> has visited it.\<close>

definition queue_after_put ::
  "diagnostic_event \<Rightarrow> diagnostic_event list \<Rightarrow> diagnostic_event list" where
  "queue_after_put e content =
     (if queue_maxsize \<le> length content then [] else content @ [e])"

definition closes_queue :: "diagnostic_event \<Rightarrow> diagnostic_event list \<Rightarrow> bool" where
  "closes_queue e content = (queue_maxsize \<le> length content \<or> is_run_terminal e)"

lemma put_event_eq:
  "put_event e q (queues, closing) =
     (dput q (queue_after_put e (dget_or queues q [])) queues,
      if closes_queue e (dget_or queues q []) then closing @ [q] else closing)"
  by (simp add: put_event_def queue_after_put_def closes_queue_def Let_def)

lemma fold_put_event_other:
  "q \<notin> set qs \<Longrightarrow> fold (put_event e) qs (queues, closing) = (queues', closing') \<Longrightarrow>
     dget_or queues' q [] = dget_or queues q [] \<and> (q \<in> set closing' \<longleftrightarrow> q \<in> set closing)"
proof (induction qs arbitrary: queues closing)
  case (Cons p qs)
  then have pq: "p \<noteq> q" and q: "q \<notin> set qs" by auto
  have f: "fold (put_event e) qs
      (dput p (queue_after_put e (dget_or queues p [])) queues,
       if closes_queue e (dget_or queues p []) then closing @ [p] else closing)
      = (queues', closing')"
    using Cons.prems(2) by (simp add: put_event_eq)
  show ?case using Cons.IH [OF q f] pq by simp
qed simp

lemma fold_put_event:
  "distinct qs \<Longrightarrow> q \<in> set qs \<Longrightarrow> q \<notin> set closing \<Longrightarrow>
   fold (put_event e) qs (queues, closing) = (queues', closing') \<Longrightarrow>
     dget_or queues' q [] = queue_after_put e (dget_or queues q [])
     \<and> (q \<in> set closing' \<longleftrightarrow> closes_queue e (dget_or queues q []))"
proof (induction qs arbitrary: queues closing)
  case (Cons p qs)
  show ?case
  proof (cases "p = q")
    case True
    with Cons.prems have q: "q \<notin> set qs" by simp
    have f: "fold (put_event e) qs
        (dput q (queue_after_put e (dget_or queues q [])) queues,
         if closes_queue e (dget_or queues q []) then closing @ [q] else closing)
        = (queues', closing')"
      using Cons.prems(4) True by (simp add: put_event_eq)
    show ?thesis using fold_put_event_other [OF q f] Cons.prems(3) by simp
  next
    case False
    let ?c = "if closes_queue e (dget_or queues p []) then closing @ [p] else closing"
    let ?qu = "dput p (queue_after_put e (dget_or queues p [])) queues"
    from Cons.prems False have "fold (put_event e) qs (?qu, ?c) = (queues', closing')"
      by (simp add: put_event_eq)
    moreover have "q \<notin> set ?c" using Cons.prems False by auto
    moreover have "dget_or ?qu q [] = dget_or queues q []"
      using False by (simp add: dget_or_def)
    ultimately show ?thesis using Cons False by simp
  qed
qed simp

text \<open>
  The invariant of the subscriber bookkeeping: the subscribers of a run are
  listed once and no queue ever holds more than \<^const>\<open>queue_maxsize\<close> events.
\<close>

definition store_wf :: "mem_store \<Rightarrow> bool" where
  "store_wf st \<longleftrightarrow>
     (\<forall>r. distinct (store_subscribers st r))
     \<and> (\<forall>q. length (queue_content st q) \<le> queue_maxsize)"

lemma queue_after_put_bounded:
  "length content \<le> queue_maxsize \<Longrightarrow> length (queue_after_put e content) \<le> queue_maxsize"
  by (auto simp: queue_after_put_def)

lemma store_append_queue:
  assumes "store_wf st"
  shows "queue_content (store_append st e) q =
     (if q \<in> set (store_subscribers st (ev_run_id e))
      then queue_after_put e (queue_content st q) else queue_content st q)"
proof -
  obtain queues closing where f:
    "fold (put_event e) (store_subscribers st (ev_run_id e)) (st_queues st, []) = (queues, closing)"
    by fastforce
  have q: "queue_content (store_append st e) q = dget_or queues q []"
    by (simp add: store_append_def queue_content_def f Let_def)
  have d: "distinct (store_subscribers st (ev_run_id e))" using assms by (simp add: store_wf_def)
  show ?thesis
  proof (cases "q \<in> set (store_subscribers st (ev_run_id e))")
    case True
    then show ?thesis using fold_put_event [OF d True _ f] by (simp add: q) (simp add: queue_content_def)
  next
    case False
    then show ?thesis using fold_put_event_other [OF False f] by (simp add: q) (simp add: queue_content_def)
  qed
qed

lemma store_append_subscribers:
  assumes "store_wf st"
  shows "set (store_subscribers (store_append st e) r) =
     (if r = ev_run_id e
      then {q \<in> set (store_subscribers st r). \<not> closes_queue e (queue_content st q)}
      else set (store_subscribers st r))"
proof -
  obtain queues closing where f:
    "fold (put_event e) (store_subscribers st (ev_run_id e)) (st_queues st, []) = (queues, closing)"
    by fastforce
  have d: "distinct (store_subscribers st (ev_run_id e))" using assms by (simp add: store_wf_def)
  have c: "q \<in> set closing \<longleftrightarrow> closes_queue e (queue_content st q)"
    if "q \<in> set (store_subscribers st (ev_run_id e))" for q
    using fold_put_event [OF d that _ f] by (simp add: queue_content_def)
  have "store_subscribers (store_append st e) r =
      (if r = ev_run_id e then filter (\<lambda>q. q \<notin> set closing) (store_subscribers st r)
       else store_subscribers st r)"
    by (simp add: store_append_def f Let_def)
      (simp add: store_subscribers_def dget_or_def)
  with c show ?thesis by auto
qed

lemma store_append_wf:
  assumes "store_wf st"
  shows "store_wf (store_append st e)"
proof -
  have "distinct (store_subscribers (store_append st e) r)" for r
    using assms
    by (simp add: store_wf_def store_append_def Let_def split: prod.split)
      (simp add: store_subscribers_def dget_or_def)
  moreover have "length (queue_content (store_append st e) q) \<le> queue_maxsize" for q
    using assms by (simp add: store_append_queue queue_after_put_bounded store_wf_def)
  ultimately show ?thesis by (simp add: store_wf_def)
qed

text \<open>
  What a subscriber sees: as long as its queue is not closed, each append puts
  exactly the new event at the end of the queue; a queue that closes because
  the run ended has received the final event too.
\<close>

lemma store_append_delivers:
  assumes "store_wf st" and "q \<in> set (store_subscribers st (ev_run_id e))"
    and "length (queue_content st q) < queue_maxsize"
  shows "queue_content (store_append st e) q = queue_content st q @ [e]"
    and "q \<in> set (store_subscribers (store_append st e) (ev_run_id e)) \<longleftrightarrow> \<not> is_run_terminal e"
  using assms
  by (simp_all add: store_append_queue store_append_subscribers queue_after_put_def closes_queue_def)

section \<open>The event store protocol and the emitter\<close>

text \<open>
  \<open>_Emitter.emit\<close>: the event takes the current sequence number, the store
  appends it, and only then does the counter advance; a failing append leaves
  the counter alone. The protocol's \<open>append\<close> is an argument.
\<close>

record emitter =
  em_run_id :: string
  em_sequence :: nat

definition new_emitter :: "string \<Rightarrow> emitter" where
  "new_emitter r = \<lparr>em_run_id = r, em_sequence = 0\<rparr>"

definition make_event ::
  "emitter \<Rightarrow> event_scope \<Rightarrow> string \<Rightarrow> execution_state \<Rightarrow> string \<Rightarrow> diagnostic_event" where
  "make_event em scope sid s code =
     \<lparr>ev_sequence = em_sequence em, ev_run_id = em_run_id em, ev_scope = scope,
      ev_scope_id = sid, ev_state = s, ev_code = code\<rparr>"

definition emit ::
  "('s \<Rightarrow> diagnostic_event \<Rightarrow> failure + 's) \<Rightarrow> emitter \<Rightarrow> 's \<Rightarrow> event_scope \<Rightarrow> string
     \<Rightarrow> execution_state \<Rightarrow> string \<Rightarrow> (emitter \<times> 's) res" where
  "emit appendf em st scope sid s code =
     rbind (appendf st (make_event em scope sid s code)) (\<lambda>st'.
       Inr (em\<lparr>em_sequence := Suc (em_sequence em)\<rparr>, st'))"

text \<open>A sequence of emissions; the first failing append ends it.\<close>

fun emit_all ::
  "('s \<Rightarrow> diagnostic_event \<Rightarrow> failure + 's) \<Rightarrow> emitter \<Rightarrow> 's
     \<Rightarrow> (event_scope \<times> string \<times> execution_state \<times> string) list \<Rightarrow> (emitter \<times> 's) res" where
  "emit_all appendf em st [] = Inr (em, st)"
| "emit_all appendf em st ((scope, sid, s, code) # xs) =
     rbind (emit appendf em st scope sid s code) (\<lambda>(em', st'). emit_all appendf em' st' xs)"

locale event_log =
  fixes appendf :: "'s \<Rightarrow> diagnostic_event \<Rightarrow> failure + 's"
    and list_events :: "'s \<Rightarrow> string \<Rightarrow> diagnostic_event list"
  assumes append_same:
      "appendf st e = Inr st' \<Longrightarrow> list_events st' (ev_run_id e) = list_events st (ev_run_id e) @ [e]"
    and append_other:
      "appendf st e = Inr st' \<Longrightarrow> r \<noteq> ev_run_id e \<Longrightarrow> list_events st' r = list_events st r"
begin

text \<open>The log of the emitter's run is numbered from 0 without gaps.\<close>

definition numbered :: "emitter \<Rightarrow> 's \<Rightarrow> bool" where
  "numbered em st \<longleftrightarrow>
     map ev_sequence (list_events st (em_run_id em)) = [0..<em_sequence em]"

lemma emit_events:
  assumes "emit appendf em st scope sid s code = Inr (em', st')"
  shows "list_events st' (em_run_id em)
           = list_events st (em_run_id em) @ [make_event em scope sid s code]"
    and "em_run_id em' = em_run_id em" and "em_sequence em' = Suc (em_sequence em)"
    and "r \<noteq> em_run_id em \<Longrightarrow> list_events st' r = list_events st r"
proof -
  let ?e = "make_event em scope sid s code"
  from assms have a: "appendf st ?e = Inr st'"
    and em': "em' = em\<lparr>em_sequence := Suc (em_sequence em)\<rparr>"
    by (auto simp: emit_def)
  have r: "ev_run_id ?e = em_run_id em" by (simp add: make_event_def)
  show "list_events st' (em_run_id em) = list_events st (em_run_id em) @ [?e]"
    using append_same [OF a] by (simp add: r)
  show "em_run_id em' = em_run_id em" and "em_sequence em' = Suc (em_sequence em)"
    by (simp_all add: em')
  show "r \<noteq> em_run_id em \<Longrightarrow> list_events st' r = list_events st r"
    using append_other [OF a] by (simp add: r)
qed

lemma emit_numbered:
  assumes "emit appendf em st scope sid s code = Inr (em', st')" and "numbered em st"
  shows "numbered em' st'"
  using assms emit_events [OF assms(1)] by (simp add: numbered_def make_event_def)

lemma emit_all_numbered:
  "emit_all appendf em st xs = Inr (em', st') \<Longrightarrow> numbered em st \<Longrightarrow> numbered em' st'"
proof (induction xs arbitrary: em st)
  case (Cons x xs)
  then show ?case by (cases x) (auto dest: emit_numbered)
qed simp

lemma emit_all_run_id:
  "emit_all appendf em st xs = Inr (em', st') \<Longrightarrow> em_run_id em' = em_run_id em"
proof (induction xs arbitrary: em st)
  case (Cons x xs)
  then show ?case by (cases x) (auto dest: emit_events(2))
qed simp

lemma emit_all_other_runs:
  "emit_all appendf em st xs = Inr (em', st') \<Longrightarrow> r \<noteq> em_run_id em \<Longrightarrow>
     list_events st' r = list_events st r"
proof (induction xs arbitrary: em st)
  case (Cons x xs)
  obtain scope sid s code where x: "x = (scope, sid, s, code)" by (cases x)
  from Cons.prems obtain em1 st1 where
    one: "emit appendf em st scope sid s code = Inr (em1, st1)"
    and rest: "emit_all appendf em1 st1 xs = Inr (em', st')"
    by (auto simp: x)
  from Cons.IH [OF rest] emit_events [OF one] Cons.prems(2) show ?case by simp
qed simp

lemma emit_all_events:
  "emit_all appendf em st xs = Inr (em', st') \<Longrightarrow>
     map (\<lambda>e. (ev_scope e, ev_scope_id e, ev_state e, ev_code e)) (list_events st' (em_run_id em))
     = map (\<lambda>e. (ev_scope e, ev_scope_id e, ev_state e, ev_code e)) (list_events st (em_run_id em)) @ xs"
proof (induction xs arbitrary: em st)
  case (Cons x xs)
  obtain scope sid s code where x: "x = (scope, sid, s, code)" by (cases x)
  from Cons.prems obtain em1 st1 where
    one: "emit appendf em st scope sid s code = Inr (em1, st1)"
    and rest: "emit_all appendf em1 st1 xs = Inr (em', st')"
    by (auto simp: x)
  from Cons.IH [OF rest] emit_events [OF one] show ?case by (simp add: x make_event_def)
qed simp

end

text \<open>The in-memory store never refuses an event.\<close>

definition mem_append :: "mem_store \<Rightarrow> diagnostic_event \<Rightarrow> mem_store res" where
  "mem_append st e = Inr (store_append st e)"

interpretation mem_log: event_log mem_append store_events
  by unfold_locales (auto simp: mem_append_def store_events_append)

lemma mem_emit_total:
  "\<exists>em' st'. emit_all mem_append em st xs = Inr (em', st')"
proof (induction xs arbitrary: em st)
  case (Cons x xs)
  then show ?case by (cases x) (auto simp: emit_def mem_append_def)
qed simp

section \<open>Properties\<close>

text \<open>
  A state machine history is finite by construction: from any state at most
  three transitions succeed before the machine is stuck, terminal states accept
  none at all, and a refused transition raises STATE\_TRANSITION\_INVALID and
  keeps the state.
\<close>

theorem state_machine_progress:
  "(\<forall>ts s'. run_transitions s ts = Inr s' \<longrightarrow> length ts \<le> 3 - state_rank s)
   \<and> (is_terminal s \<longrightarrow> (\<forall>t. transition s t = Inl (RuntimeFailure ''STATE_TRANSITION_INVALID'')))
   \<and> (\<not> is_terminal s \<longrightarrow> (\<exists>t. transition s t = Inr t \<and> (is_terminal t \<or> state_rank s < state_rank t)))"
proof (intro conjI allI impI)
  fix ts s' assume "run_transitions s ts = Inr s'"
  from run_transitions_bounded [OF this] state_rank_le [of s'] show "length ts \<le> 3 - state_rank s" by simp
next
  fix t assume "is_terminal s"
  then show "transition s t = Inl (RuntimeFailure ''STATE_TRANSITION_INVALID'')"
    by (simp add: transition_error is_terminal_def terminal_no_transition)
next
  assume "\<not> is_terminal s"
  then show "\<exists>t. transition s t = Inr t \<and> (is_terminal t \<or> state_rank s < state_rank t)"
    by (intro exI [of _ CANCELLED]) (cases s, simp_all add: transition_ok)
qed

theorem state_machine_progress_witness:
  "run_transitions PENDING [READY, RUNNING, SUCCEEDED] = Inr SUCCEEDED
   \<and> (\<exists>t. transition READY t = Inr t)
   \<and> transition SUCCEEDED RUNNING = Inl (RuntimeFailure ''STATE_TRANSITION_INVALID'')
   \<and> (length [READY, RUNNING, SUCCEEDED] \<le> 3 - state_rank PENDING)"
  using state_machine_progress [of PENDING] state_machine_progress [of READY]
    state_machine_progress [of SUCCEEDED]
  by (auto simp: transition_def validate_transition_def)

text \<open>
  Delivery to a subscriber: an event of its run is put at the end of the
  queue of every subscriber that has room, the subscriber stays registered
  exactly when the event does not end the run, a full queue is emptied and
  closed, and no queue ever grows beyond 256 events.
\<close>

theorem append_delivers_to_subscribers:
  assumes "store_wf st" and "q \<in> set (store_subscribers st (ev_run_id e))"
  shows "store_wf (store_append st e)
     \<and> (length (queue_content st q) < queue_maxsize \<longrightarrow>
          queue_content (store_append st e) q = queue_content st q @ [e]
          \<and> (q \<in> set (store_subscribers (store_append st e) (ev_run_id e)) \<longleftrightarrow> \<not> is_run_terminal e))
     \<and> (length (queue_content st q) = queue_maxsize \<longrightarrow>
          queue_content (store_append st e) q = []
          \<and> q \<notin> set (store_subscribers (store_append st e) (ev_run_id e)))"
  using assms
  by (simp add: store_append_wf store_append_queue store_append_subscribers queue_after_put_def
      closes_queue_def)

definition sample_event :: diagnostic_event where
  "sample_event = make_event (new_emitter ''r'') Scope_run ''r'' SUCCEEDED ''RUN_SUCCEEDED''"

definition sample_store :: mem_store where
  "sample_store = snd (store_subscribe empty_store ''r'' 0)"

theorem append_delivers_to_subscribers_witness:
  "queue_content (store_append sample_store sample_event) 0 = [sample_event]
   \<and> 0 \<notin> set (store_subscribers (store_append sample_store sample_event) ''r'')"
proof -
  have s: "sample_store = \<lparr>st_events = [], st_subscribers = [(''r'', [0])], st_queues = [(0, [])],
      st_closing = [], st_claimed = []\<rparr>"
    by (simp add: sample_store_def store_subscribe_def empty_store_def store_events_def
        store_subscribers_def dget_or_def)
  have wf: "store_wf sample_store"
    by (auto simp: s store_wf_def store_subscribers_def queue_content_def dget_or_def split: option.splits)
  have r: "ev_run_id sample_event = ''r''" and q: "queue_content sample_store 0 = []"
    and t: "is_run_terminal sample_event"
    by (simp_all add: sample_event_def make_event_def new_emitter_def s queue_content_def
        is_run_terminal_def TERMINAL_STATES_def)
  have m: "0 \<in> set (store_subscribers sample_store (ev_run_id sample_event))"
    by (simp add: r s store_subscribers_def)
  show ?thesis
    using append_delivers_to_subscribers [OF wf m] q t r by (simp add: queue_maxsize_def)
qed

text \<open>
  C19: Whatever a run emits through one emitter, the in-memory store accepts it
  all, the log of the run is exactly the emitted events in order, numbered
  0, 1, 2, ... without gaps, and the logs of other runs do not change.
\<close>

theorem emitted_log_is_numbered:
  assumes "store_events st run_id = []"
  shows "\<exists>em st'. emit_all mem_append (new_emitter run_id) st xs = Inr (em, st')
     \<and> map ev_sequence (store_events st' run_id) = [0..<length xs]
     \<and> map (\<lambda>e. (ev_scope e, ev_scope_id e, ev_state e, ev_code e)) (store_events st' run_id) = xs
     \<and> (\<forall>r. r \<noteq> run_id \<longrightarrow> store_events st' r = store_events st r)"
proof -
  obtain em st' where r: "emit_all mem_append (new_emitter run_id) st xs = Inr (em, st')"
    using mem_emit_total [of "new_emitter run_id" st xs] by auto
  have events: "map (\<lambda>e. (ev_scope e, ev_scope_id e, ev_state e, ev_code e)) (store_events st' run_id) = xs"
    using mem_log.emit_all_events [OF r] assms by (simp add: new_emitter_def)
  then have len: "length (store_events st' run_id) = length xs" by auto
  have "em_run_id em = run_id"
    using mem_log.emit_all_run_id [OF r] by (simp add: new_emitter_def)
  moreover have "mem_log.numbered em st'"
    by (rule mem_log.emit_all_numbered [OF r])
      (simp add: mem_log.numbered_def new_emitter_def assms)
  ultimately have seq: "map ev_sequence (store_events st' run_id) = [0..<em_sequence em]"
    by (simp add: mem_log.numbered_def)
  then have "length (map ev_sequence (store_events st' run_id)) = em_sequence em" by (simp only: length_upt)
  then have "em_sequence em = length xs" using len by simp
  moreover have "store_events st' r = store_events st r" if "r \<noteq> run_id" for r
    using mem_log.emit_all_other_runs [OF r] that by (simp add: new_emitter_def)
  ultimately show ?thesis using r events seq by auto
qed

theorem emitted_log_is_numbered_witness:
  "\<exists>em st'. emit_all mem_append (new_emitter ''r'') empty_store
       [(Scope_run, ''r'', PENDING, ''a''), (Scope_run, ''r'', READY, ''b'')] = Inr (em, st')
     \<and> map ev_sequence (store_events st' ''r'') = [0, 1]"
proof -
  have "store_events empty_store ''r'' = []" by (simp add: store_events_def empty_store_def)
  from emitted_log_is_numbered [OF this, of
      "[(Scope_run, ''r'', PENDING, ''a''), (Scope_run, ''r'', READY, ''b'')]"]
  show ?thesis by (auto simp: upt_rec)
qed

end
