(* ===== verification/Arrow_Memory.thy ===== *)
theory Arrow_Memory
  imports Runtime_Domain
begin

text \<open>
  Arrow tables as far as the runtime looks at them, and the retained-buffer
  accounting of \<open>query_runtime/arrow_memory.py\<close>. A buffer is a view that may
  sit inside a parent buffer; what a table keeps alive are the root buffers,
  identified by address and size.
\<close>

section \<open>Arrow data\<close>

datatype time_unit = Unit_s | Unit_ms | Unit_us | Unit_ns

datatype arrow_type =
    A_Int nat bool            \<comment> \<open>bit width, signed\<close>
  | A_Float nat
  | A_Decimal128 nat int      \<comment> \<open>precision, scale\<close>
  | A_Decimal256 nat int
  | A_String
  | A_Bool
  | A_Date
  | A_Timestamp time_unit "string option"
  | A_List arrow_type
  | A_Large_List arrow_type
  | A_Other string

record arrow_field =
  fld_name :: string
  fld_type :: arrow_type
  fld_nullable :: bool

datatype buffer = Buffer (buf_parent: "buffer option") (buf_address: int) (buf_size: nat)

datatype arrow_array =
    PlainArray "buffer option list"
  | DictionaryArray "buffer option list" arrow_array
  | ExtensionArray "buffer option list" arrow_array
  | StructArray "buffer option list" "arrow_array list"
  | ListLikeArray "buffer option list" arrow_array
  | UnionArray "buffer option list" "arrow_array list"
  | RunEndEncodedArray "buffer option list" arrow_array arrow_array

text \<open>A table: its schema, its rows and, per column, the chunks that hold them.\<close>

record 'row arrow_table =
  tbl_schema :: "arrow_field list"
  tbl_rows :: "'row list"
  tbl_columns :: "arrow_array list list"

definition num_rows :: "'row arrow_table \<Rightarrow> nat" where
  "num_rows t = length (tbl_rows t)"

definition column_names :: "'row arrow_table \<Rightarrow> string list" where
  "column_names t = map fld_name (tbl_schema t)"

section \<open>Retained buffers\<close>

datatype buffer_identity = BufferIdentity (identity_address: int) (identity_size: nat)

fun root_buffer :: "buffer \<Rightarrow> buffer" where
  "root_buffer (Buffer None a s) = Buffer None a s"
| "root_buffer (Buffer (Some p) a s) = root_buffer p"

text \<open>The loop over \<open>array.buffers()\<close>.\<close>

fun collect_buffers ::
  "buffer option list \<Rightarrow> (buffer_identity, nat) dict \<Rightarrow> (buffer_identity, nat) dict" where
  "collect_buffers [] d = d"
| "collect_buffers (None # bs) d = collect_buffers bs d"
| "collect_buffers (Some b # bs) d =
     (let root = root_buffer b
      in collect_buffers bs
           (if buf_size root \<noteq> 0 then dput (BufferIdentity (buf_address root) (buf_size root)) (buf_size root) d else d))"

fun collect_array_buffers ::
  "arrow_array \<Rightarrow> (buffer_identity, nat) dict \<Rightarrow> (buffer_identity, nat) dict" where
  "collect_array_buffers (PlainArray bs) d = collect_buffers bs d"
| "collect_array_buffers (DictionaryArray bs a) d = collect_array_buffers a (collect_buffers bs d)"
| "collect_array_buffers (ExtensionArray bs a) d = collect_array_buffers a (collect_buffers bs d)"
| "collect_array_buffers (StructArray bs fs) d = fold collect_array_buffers fs (collect_buffers bs d)"
| "collect_array_buffers (ListLikeArray bs a) d = collect_array_buffers a (collect_buffers bs d)"
| "collect_array_buffers (UnionArray bs fs) d = fold collect_array_buffers fs (collect_buffers bs d)"
| "collect_array_buffers (RunEndEncodedArray bs r v) d =
     collect_array_buffers v (collect_array_buffers r (collect_buffers bs d))"

definition retained_buffer_sizes :: "'row arrow_table \<Rightarrow> (buffer_identity, nat) dict" where
  "retained_buffer_sizes t = fold collect_array_buffers (concat (tbl_columns t)) []"

definition retained_table_size :: "'row arrow_table \<Rightarrow> nat" where
  "retained_table_size t = sum_list (map snd (retained_buffer_sizes t))"

section \<open>Every root buffer is counted once\<close>

text \<open>The buffer slots of an array and of everything nested in it.\<close>

fun array_slots :: "arrow_array \<Rightarrow> buffer option list" where
  "array_slots (PlainArray bs) = bs"
| "array_slots (DictionaryArray bs a) = bs @ array_slots a"
| "array_slots (ExtensionArray bs a) = bs @ array_slots a"
| "array_slots (StructArray bs fs) = bs @ concat (map array_slots fs)"
| "array_slots (ListLikeArray bs a) = bs @ array_slots a"
| "array_slots (UnionArray bs fs) = bs @ concat (map array_slots fs)"
| "array_slots (RunEndEncodedArray bs r v) = bs @ array_slots r @ array_slots v"

definition root_identity :: "buffer \<Rightarrow> buffer_identity" where
  "root_identity b = BufferIdentity (buf_address (root_buffer b)) (buf_size (root_buffer b))"

definition slot_identities :: "buffer option list \<Rightarrow> buffer_identity set" where
  "slot_identities bs = {root_identity b | b. Some b \<in> set bs \<and> buf_size (root_buffer b) \<noteq> 0}"

definition table_identities :: "'row arrow_table \<Rightarrow> buffer_identity set" where
  "table_identities t = slot_identities (concat (map array_slots (concat (tbl_columns t))))"

lemma collect_buffers_append:
  "collect_buffers (xs @ ys) d = collect_buffers ys (collect_buffers xs d)"
  by (induction xs d rule: collect_buffers.induct) (simp_all add: Let_def)

lemma collect_array_buffers_slots: "collect_array_buffers a d = collect_buffers (array_slots a) d"
proof (induction a arbitrary: d)
  case (StructArray bs fs)
  then have "fold collect_array_buffers fs d = collect_buffers (concat (map array_slots fs)) d" for d
    by (induction fs arbitrary: d) (simp_all add: collect_buffers_append)
  then show ?case by (simp add: collect_buffers_append)
next
  case (UnionArray bs fs)
  then have "fold collect_array_buffers fs d = collect_buffers (concat (map array_slots fs)) d" for d
    by (induction fs arbitrary: d) (simp_all add: collect_buffers_append)
  then show ?case by (simp add: collect_buffers_append)
qed (simp_all add: collect_buffers_append)

lemma fold_collect_array_buffers:
  "fold collect_array_buffers as d = collect_buffers (concat (map array_slots as)) d"
  by (induction as arbitrary: d) (simp_all add: collect_array_buffers_slots collect_buffers_append)

text \<open>A well-formed size dictionary: one entry per identity, holding the size the identity names.\<close>

definition sizes_wf :: "(buffer_identity, nat) dict \<Rightarrow> bool" where
  "sizes_wf d \<longleftrightarrow> distinct (map fst d) \<and> (\<forall>(i, s) \<in> set d. s = identity_size i \<and> 0 < s)"

lemma sizes_wf_dput:
  assumes "sizes_wf d" and "identity_size i = s" and "0 < s"
  shows "sizes_wf (dput i s d)"
proof -
  have "set (dput i s d) \<subseteq> insert (i, s) (set d)" by (induction d) auto
  with assms show ?thesis by (fastforce simp: sizes_wf_def)
qed

lemma collect_buffers_wf: "sizes_wf d \<Longrightarrow> sizes_wf (collect_buffers bs d)"
  by (induction bs d rule: collect_buffers.induct) (simp_all add: Let_def sizes_wf_dput)

lemma slot_identities_simps [simp]:
  "slot_identities [] = {}"
  "slot_identities (None # bs) = slot_identities bs"
  "slot_identities (Some b # bs) =
     (if buf_size (root_buffer b) = 0 then slot_identities bs
      else insert (root_identity b) (slot_identities bs))"
  by (auto simp: slot_identities_def)

lemma keys_dput: "set (dkeys (dput k v d)) = insert k (set (dkeys d))"
  by (auto simp: set_dkeys dom_def)

lemma collect_buffers_keys:
  "set (dkeys (collect_buffers bs d)) = set (dkeys d) \<union> slot_identities bs"
  by (induction bs d rule: collect_buffers.induct)
    (auto simp: Let_def keys_dput root_identity_def)

lemma retained_buffer_sizes_wf: "sizes_wf (retained_buffer_sizes t)"
proof -
  have "sizes_wf []" by (simp add: sizes_wf_def)
  then show ?thesis
    by (simp add: retained_buffer_sizes_def fold_collect_array_buffers collect_buffers_wf)
qed

lemma retained_buffer_keys: "set (dkeys (retained_buffer_sizes t)) = table_identities t"
  by (simp add: retained_buffer_sizes_def fold_collect_array_buffers collect_buffers_keys
      table_identities_def) (simp add: dkeys_def)

lemma sizes_wf_sum:
  assumes "sizes_wf d"
  shows "sum_list (map snd d) = (\<Sum>i \<in> set (dkeys d). identity_size i)"
proof -
  have "map snd d = map (identity_size \<circ> fst) d" using assms by (auto simp: sizes_wf_def)
  then have "sum_list (map snd d) = sum_list (map identity_size (map fst d))" by (simp only: map_map)
  also have "\<dots> = (\<Sum>i \<in> set (map fst d). identity_size i)"
    using assms by (intro sum_list_distinct_conv_sum_set) (simp add: sizes_wf_def)
  finally show ?thesis by (simp add: dkeys_def)
qed

lemma retained_table_size_eq: "retained_table_size t = (\<Sum>i \<in> table_identities t. identity_size i)"
  by (simp add: retained_table_size_def sizes_wf_sum retained_buffer_sizes_wf
      flip: retained_buffer_keys)

section \<open>Properties\<close>

text \<open>
  The retained size of a table is the sum of the sizes of its distinct
  non-empty root buffers: slices, nested children, dictionaries and columns
  that share a parent allocation are charged for that allocation once.
\<close>

theorem retained_size_counts_roots_once:
  "retained_table_size t = (\<Sum>i \<in> table_identities t. identity_size i)
   \<and> set (dkeys (retained_buffer_sizes t)) = table_identities t
   \<and> distinct (dkeys (retained_buffer_sizes t))"
  using retained_buffer_sizes_wf [of t]
  by (simp add: retained_table_size_eq retained_buffer_keys sizes_wf_def) (simp add: dkeys_def)

end
