(* ===== verification/Memory_Budget.thy ===== *)
theory Memory_Budget
  imports Arrow_Memory
begin

text \<open>
  The in-flight memory budget of the coordinator (\<open>_MemoryBudget\<close> in
  \<open>query_runtime/coordinator.py\<close>). A node reserves its admission estimate
  before it runs; when its table is known the reservation is replaced by the
  buffers the table retains, shared buffers counted once by reference counts;
  releases wait for retainers. Every operation is the body the source runs
  under its lock. Sizes are integers, as in Python; \<open>KeyError\<close> marks the
  dictionary reads that raise when a key is missing.
\<close>

datatype budget_key = BudgetKey (key_run: string) (key_node: string)

record memory_budget =
  mb_maximum :: int
  mb_current :: int
  mb_reservations :: "(budget_key, int) dict"
  mb_reservation_buffers :: "(budget_key, buffer_identity list) dict"
  mb_buffer_sizes :: "(buffer_identity, int) dict"
  mb_buffer_references :: "(buffer_identity, int) dict"
  mb_deferred :: "budget_key list"
  mb_retainers :: "(budget_key, int) dict"
  mb_release_pending :: "budget_key list"

definition new_budget :: "int \<Rightarrow> memory_budget" where
  "new_budget maximum = \<lparr>mb_maximum = maximum, mb_current = 0, mb_reservations = [],
     mb_reservation_buffers = [], mb_buffer_sizes = [], mb_buffer_references = [],
     mb_deferred = [], mb_retainers = [], mb_release_pending = []\<rparr>"

definition add_key :: "'k \<Rightarrow> 'k list \<Rightarrow> 'k list" where
  "add_key k ks = (if k \<in> set ks then ks else ks @ [k])"

definition discard_key :: "'k \<Rightarrow> 'k list \<Rightarrow> 'k list" where
  "discard_key k ks = filter (\<lambda>x. x \<noteq> k) ks"

definition budget_reserve :: "budget_key \<Rightarrow> int \<Rightarrow> memory_budget \<Rightarrow> memory_budget res" where
  "budget_reserve key sz b =
     (if mb_maximum b < mb_current b + sz
      then Inl (ResourceLimitFailure ''LIMIT_IN_FLIGHT_BYTES_EXCEEDED'')
      else Inr (b\<lparr>mb_current := mb_current b + sz,
                  mb_reservations := dput key sz (mb_reservations b)\<rparr>))"

text \<open>The loop of \<open>reconcile\<close> over the buffers of the table.\<close>

fun reference_buffers :: "(buffer_identity \<times> nat) list \<Rightarrow> memory_budget \<Rightarrow> memory_budget" where
  "reference_buffers [] b = b"
| "reference_buffers ((i, s) # bs) b =
     (let references = dget_or (mb_buffer_references b) i 0;
          b1 = (if references = 0
                then b\<lparr>mb_current := mb_current b + int s,
                       mb_buffer_sizes := dput i (int s) (mb_buffer_sizes b)\<rparr>
                else b)
      in reference_buffers bs
           (b1\<lparr>mb_buffer_references := dput i (references + 1) (mb_buffer_references b1)\<rparr>))"

definition budget_reconcile ::
  "budget_key \<Rightarrow> 'row arrow_table \<Rightarrow> memory_budget \<Rightarrow> memory_budget res" where
  "budget_reconcile key table b =
     (let buffers = retained_buffer_sizes table; sz = int (sum_list (map snd buffers))
      in rbind (from_option KeyError (dget (mb_reservations b) key)) (\<lambda>reserved.
           if reserved < sz
           then Inl (ResourceLimitFailure ''LIMIT_ADMISSION_ESTIMATE_EXCEEDED'')
           else Inr (reference_buffers buffers
             (b\<lparr>mb_current := mb_current b - reserved,
                mb_reservations := dput key sz (mb_reservations b),
                mb_reservation_buffers := dput key (dkeys buffers) (mb_reservation_buffers b)\<rparr>))))"

text \<open>The loop of \<open>_release_key\<close> over the identities a reservation holds.\<close>

fun dereference_buffers :: "buffer_identity list \<Rightarrow> memory_budget \<Rightarrow> memory_budget res" where
  "dereference_buffers [] b = Inr b"
| "dereference_buffers (i # ids) b =
     rbind (from_option KeyError (dget (mb_buffer_references b) i)) (\<lambda>n.
       if n - 1 = 0
       then rbind (from_option KeyError (dget (mb_buffer_sizes b) i)) (\<lambda>s.
              dereference_buffers ids
                (b\<lparr>mb_current := mb_current b - s,
                   mb_buffer_sizes := dpop i (mb_buffer_sizes b),
                   mb_buffer_references := dpop i (mb_buffer_references b)\<rparr>))
       else dereference_buffers ids
              (b\<lparr>mb_buffer_references := dput i (n - 1) (mb_buffer_references b)\<rparr>))"

definition release_key :: "budget_key \<Rightarrow> memory_budget \<Rightarrow> memory_budget res" where
  "release_key key b =
     (let reserved = dget_or (mb_reservations b) key 0;
          identities = dget_or (mb_reservation_buffers b) key [];
          b0 = b\<lparr>mb_reservations := dpop key (mb_reservations b),
                 mb_reservation_buffers := dpop key (mb_reservation_buffers b)\<rparr>
      in rbind (if identities \<noteq> [] then dereference_buffers identities b0
                else Inr (b0\<lparr>mb_current := mb_current b0 - reserved\<rparr>)) (\<lambda>b1.
           Inr (b1\<lparr>mb_deferred := discard_key key (mb_deferred b1),
                   mb_release_pending := discard_key key (mb_release_pending b1),
                   mb_current := max 0 (mb_current b1)\<rparr>)))"

definition retainer_count :: "memory_budget \<Rightarrow> budget_key \<Rightarrow> int" where
  "retainer_count b key = dget_or (mb_retainers b) key 0"

definition budget_release :: "budget_key \<Rightarrow> memory_budget \<Rightarrow> memory_budget res" where
  "budget_release key b =
     (if 0 < retainer_count b key
      then Inr (b\<lparr>mb_release_pending := add_key key (mb_release_pending b)\<rparr>)
      else release_key key b)"

definition budget_defer :: "budget_key \<Rightarrow> memory_budget \<Rightarrow> memory_budget" where
  "budget_defer key b =
     (if dget (mb_reservations b) key \<noteq> None
      then b\<lparr>mb_deferred := add_key key (mb_deferred b)\<rparr> else b)"

definition budget_retain :: "budget_key \<Rightarrow> memory_budget \<Rightarrow> memory_budget res" where
  "budget_retain key b =
     (if dget (mb_reservations b) key = None
      then Inl (RuntimeFailure ''MEMORY_RESERVATION_MISSING'')
      else Inr (b\<lparr>mb_retainers := dput key (retainer_count b key + 1) (mb_retainers b)\<rparr>))"

definition budget_release_retained :: "budget_key \<Rightarrow> memory_budget \<Rightarrow> memory_budget res" where
  "budget_release_retained key b =
     (let retained = retainer_count b key
      in if retained \<le> 1
         then (let b1 = b\<lparr>mb_retainers := dpop key (mb_retainers b)\<rparr>
               in if key \<in> set (mb_release_pending b1) then release_key key b1 else Inr b1)
         else Inr (b\<lparr>mb_retainers := dput key (retained - 1) (mb_retainers b)\<rparr>))"

fun release_keys :: "budget_key list \<Rightarrow> memory_budget \<Rightarrow> memory_budget res" where
  "release_keys [] b = Inr b"
| "release_keys (k # ks) b = rbind (release_key k b) (release_keys ks)"

definition budget_release_run :: "string \<Rightarrow> memory_budget \<Rightarrow> memory_budget res" where
  "budget_release_run run_id b =
     (let retained = filter (\<lambda>k. key_run k = run_id \<and> 0 < retainer_count b k) (dkeys (mb_reservations b));
          b1 = b\<lparr>mb_release_pending := fold add_key retained (mb_release_pending b)\<rparr>;
          keys = filter (\<lambda>k. key_run k = run_id \<and> k \<notin> set (mb_deferred b1) \<and> k \<notin> set retained)
                   (dkeys (mb_reservations b1))
      in release_keys keys b1)"

section \<open>The accounting invariant\<close>

text \<open>
  The abstract view: reservations that have not been reconciled count their
  estimate; reconciled ones hold a set of buffers, and a buffer counts once
  however many reservations hold it.
\<close>

definition estimated_keys :: "memory_budget \<Rightarrow> budget_key set" where
  "estimated_keys b = dom (dget (mb_reservations b)) - dom (dget (mb_reservation_buffers b))"

definition holders :: "memory_budget \<Rightarrow> buffer_identity \<Rightarrow> budget_key set" where
  "holders b i = {k. i \<in> set (dget_or (mb_reservation_buffers b) k [])}"

definition held_buffers :: "memory_budget \<Rightarrow> buffer_identity set" where
  "held_buffers b = {i. holders b i \<noteq> {}}"

definition accounted :: "memory_budget \<Rightarrow> int" where
  "accounted b = (\<Sum>k \<in> estimated_keys b. dget_or (mb_reservations b) k 0)
                 + (\<Sum>i \<in> held_buffers b. int (identity_size i))"

definition budget_inv :: "memory_budget \<Rightarrow> bool" where
  "budget_inv b \<longleftrightarrow>
     mb_current b = accounted b \<and> mb_current b \<le> mb_maximum b
     \<and> (\<forall>k v. dget (mb_reservations b) k = Some v \<longrightarrow> 0 \<le> v)
     \<and> (\<forall>k ids. dget (mb_reservation_buffers b) k = Some ids \<longrightarrow>
           distinct ids \<and> dget (mb_reservations b) k = Some (\<Sum>i\<leftarrow>ids. int (identity_size i)))
     \<and> (\<forall>i. dget (mb_buffer_references b) i =
           (if holders b i = {} then None else Some (int (card (holders b i)))))
     \<and> (\<forall>i. dget (mb_buffer_sizes b) i = (if holders b i = {} then None else Some (int (identity_size i))))"

lemma finite_dom_dget [simp]: "finite (dom (dget d))"
  by (rule finite_dom_map_of)

lemma finite_estimated_keys [simp]: "finite (estimated_keys b)"
  by (simp add: estimated_keys_def)

lemma holders_subset: "holders b i \<subseteq> dom (dget (mb_reservation_buffers b))"
proof
  fix k assume "k \<in> holders b i"
  then show "k \<in> dom (dget (mb_reservation_buffers b))"
    by (cases "dget (mb_reservation_buffers b) k") (auto simp: holders_def)
qed

lemma finite_holders [simp]: "finite (holders b i)"
  using holders_subset by (rule finite_subset) simp

lemma held_buffers_eq:
  "held_buffers b = (\<Union>k \<in> dom (dget (mb_reservation_buffers b)).
     set (dget_or (mb_reservation_buffers b) k []))"
proof (rule set_eqI)
  fix i
  show "i \<in> held_buffers b \<longleftrightarrow> i \<in> (\<Union>k \<in> dom (dget (mb_reservation_buffers b)).
     set (dget_or (mb_reservation_buffers b) k []))"
    using holders_subset [of b i] unfolding held_buffers_def holders_def by blast
qed

lemma finite_held_buffers [simp]: "finite (held_buffers b)"
  by (simp add: held_buffers_eq)

lemma budget_inv_new: "0 \<le> maximum \<Longrightarrow> budget_inv (new_budget maximum)"
  by (simp add: budget_inv_def new_budget_def accounted_def estimated_keys_def held_buffers_def
      holders_def dget_or_def)

lemma budget_invD:
  assumes "budget_inv b"
  shows "mb_current b = accounted b" and "mb_current b \<le> mb_maximum b"
    and "dget (mb_reservations b) k = Some v \<Longrightarrow> 0 \<le> v"
    and "dget (mb_reservation_buffers b) k = Some ids \<Longrightarrow> distinct ids"
    and "dget (mb_reservation_buffers b) k = Some ids \<Longrightarrow>
           dget (mb_reservations b) k = Some (\<Sum>i\<leftarrow>ids. int (identity_size i))"
    and "dget (mb_buffer_references b) i =
           (if holders b i = {} then None else Some (int (card (holders b i))))"
    and "dget (mb_buffer_sizes b) i =
           (if holders b i = {} then None else Some (int (identity_size i)))"
  using assms by (simp_all add: budget_inv_def)

lemma budget_invI:
  assumes "mb_current b = accounted b" and "mb_current b \<le> mb_maximum b"
    and "\<And>k v. dget (mb_reservations b) k = Some v \<Longrightarrow> 0 \<le> v"
    and "\<And>k ids. dget (mb_reservation_buffers b) k = Some ids \<Longrightarrow> distinct ids"
    and "\<And>k ids. dget (mb_reservation_buffers b) k = Some ids \<Longrightarrow>
           dget (mb_reservations b) k = Some (\<Sum>i\<leftarrow>ids. int (identity_size i))"
    and "\<And>i. dget (mb_buffer_references b) i =
           (if holders b i = {} then None else Some (int (card (holders b i))))"
    and "\<And>i. dget (mb_buffer_sizes b) i =
           (if holders b i = {} then None else Some (int (identity_size i)))"
  shows "budget_inv b"
  using assms by (simp add: budget_inv_def)

lemma budget_inv_bounds:
  assumes "budget_inv b"
  shows "0 \<le> mb_current b" and "mb_current b \<le> mb_maximum b"
proof -
  have "0 \<le> dget_or (mb_reservations b) k 0" for k
    using budget_invD(3) [OF assms] by (simp add: dget_or_def split: option.split)
  then have "0 \<le> accounted b" by (simp add: accounted_def sum_nonneg)
  with assms show "0 \<le> mb_current b" and "mb_current b \<le> mb_maximum b"
    by (simp_all add: budget_inv_def)
qed

text \<open>The accounting reads only the reservations and the buffers they hold.\<close>

lemma budget_inv_frame:
  assumes "budget_inv b" and "mb_current b' = mb_current b" and "mb_maximum b' = mb_maximum b"
    and "mb_reservations b' = mb_reservations b"
    and "mb_reservation_buffers b' = mb_reservation_buffers b"
    and "mb_buffer_references b' = mb_buffer_references b"
    and "mb_buffer_sizes b' = mb_buffer_sizes b"
  shows "budget_inv b'"
  using assms
  by (simp add: budget_inv_def accounted_def estimated_keys_def held_buffers_def holders_def)

subsection \<open>Reserve\<close>

lemma budget_reserve_inv:
  assumes inv: "budget_inv b" and fresh: "dget (mb_reservations b) key = None" and "0 \<le> sz"
    and ok: "budget_reserve key sz b = Inr b'"
  shows "budget_inv b'"
proof -
  from ok have b': "b' = b\<lparr>mb_current := mb_current b + sz,
      mb_reservations := dput key sz (mb_reservations b)\<rparr>"
    and le: "mb_current b + sz \<le> mb_maximum b"
    by (auto simp: budget_reserve_def split: if_splits)
  have nb: "dget (mb_reservation_buffers b) key = None"
    using budget_invD(5) [OF inv] fresh by (cases "dget (mb_reservation_buffers b) key") auto
  have h: "holders b' = holders b" by (simp add: b' holders_def fun_eq_iff)
  have e: "estimated_keys b' = insert key (estimated_keys b)"
    using nb by (auto simp: estimated_keys_def b')
  have "key \<notin> estimated_keys b" using fresh by (auto simp: estimated_keys_def)
  then have "accounted b' = accounted b + sz"
    by (simp add: accounted_def e held_buffers_def h)
      (auto simp: b' intro!: sum.cong)
  then show ?thesis
    using budget_invD [OF inv] le \<open>0 \<le> sz\<close> nb
    by (intro budget_invI) (simp_all add: h, auto simp: b' split: if_splits)
qed

subsection \<open>Reconcile\<close>

lemma reference_buffers_frame [simp]:
  "mb_maximum (reference_buffers bs b) = mb_maximum b"
  "mb_reservations (reference_buffers bs b) = mb_reservations b"
  "mb_reservation_buffers (reference_buffers bs b) = mb_reservation_buffers b"
  "mb_deferred (reference_buffers bs b) = mb_deferred b"
  "mb_retainers (reference_buffers bs b) = mb_retainers b"
  "mb_release_pending (reference_buffers bs b) = mb_release_pending b"
  by (induction bs b rule: reference_buffers.induct) (simp_all add: Let_def)

lemma reference_buffers_effect:
  assumes "distinct (map fst bs)"
  shows "dget (mb_buffer_references (reference_buffers bs b)) i =
           (if i \<in> fst ` set bs then Some (dget_or (mb_buffer_references b) i 0 + 1)
            else dget (mb_buffer_references b) i)
         \<and> dget (mb_buffer_sizes (reference_buffers bs b)) i =
           (if i \<in> fst ` set bs \<and> dget_or (mb_buffer_references b) i 0 = 0
            then map_option int (dget bs i) else dget (mb_buffer_sizes b) i)
         \<and> mb_current (reference_buffers bs b) = mb_current b
           + (\<Sum>(j, s)\<leftarrow>filter (\<lambda>(j, s). dget_or (mb_buffer_references b) j 0 = 0) bs. int s)"
  using assms
proof (induction bs b rule: reference_buffers.induct)
  case (2 j s bs b)
  let ?r = "dget_or (mb_buffer_references b) j 0"
  let ?b1 = "if ?r = 0 then b\<lparr>mb_current := mb_current b + int s,
    mb_buffer_sizes := dput j (int s) (mb_buffer_sizes b)\<rparr> else b"
  let ?b2 = "?b1\<lparr>mb_buffer_references := dput j (?r + 1) (mb_buffer_references ?b1)\<rparr>"
  have refs: "mb_buffer_references ?b2 = dput j (?r + 1) (mb_buffer_references b)" by simp
  have d: "distinct (map fst bs)" and j: "j \<notin> fst ` set bs" using "2.prems" by auto
  have f: "filter (\<lambda>(k, s). dget_or (mb_buffer_references ?b2) k 0 = 0) bs
      = filter (\<lambda>(k, s). dget_or (mb_buffer_references b) k 0 = 0) bs"
    using j by (intro filter_cong) (auto simp: refs image_iff)
  have step: "reference_buffers ((j, s) # bs) b = reference_buffers bs ?b2" by (simp add: Let_def)
  show ?case
    using "2.IH" [OF refl refl d] f j unfolding step
    by (cases "i = j") auto
qed simp

lemmas reference_refs = reference_buffers_effect [THEN conjunct1]
lemmas reference_sizes = reference_buffers_effect [THEN conjunct2, THEN conjunct1]
lemmas reference_current = reference_buffers_effect [THEN conjunct2, THEN conjunct2]

lemma sizes_wf_sum_new:
  assumes "sizes_wf d"
  shows "(\<Sum>(j, s)\<leftarrow>filter (\<lambda>(j, s). j \<notin> H) d. int s)
       = (\<Sum>i \<in> set (dkeys d) - H. int (identity_size i))"
proof -
  have "map (\<lambda>(j, s). int s) (filter (\<lambda>(j, s). j \<notin> H) d)
      = map (\<lambda>i. int (identity_size i)) (filter (\<lambda>i. i \<notin> H) (dkeys d))"
    using assms unfolding dkeys_def filter_map sizes_wf_def by (auto simp: o_def case_prod_unfold)
  moreover have "distinct (filter (\<lambda>i. i \<notin> H) (dkeys d))"
    using assms by (simp add: dkeys_def sizes_wf_def)
  ultimately show ?thesis by (simp add: sum_list_distinct_conv_sum_set set_diff_eq)
qed

text \<open>What reconciling a key does to the holders of a buffer and to the running total.\<close>

definition reconciled ::
  "budget_key \<Rightarrow> int \<Rightarrow> (buffer_identity, nat) dict \<Rightarrow> memory_budget \<Rightarrow> memory_budget" where
  "reconciled key reserved bs b = reference_buffers bs
     (b\<lparr>mb_current := mb_current b - reserved,
        mb_reservations := dput key (int (sum_list (map snd bs))) (mb_reservations b),
        mb_reservation_buffers := dput key (dkeys bs) (mb_reservation_buffers b)\<rparr>)"

lemma reconciled_frame [simp]:
  "mb_maximum (reconciled key reserved bs b) = mb_maximum b"
  "mb_reservations (reconciled key reserved bs b) =
     dput key (int (sum_list (map snd bs))) (mb_reservations b)"
  "mb_reservation_buffers (reconciled key reserved bs b) =
     dput key (dkeys bs) (mb_reservation_buffers b)"
  by (simp_all add: reconciled_def)

lemma reconciled_holders:
  "dget (mb_reservation_buffers b) key = None \<Longrightarrow>
   holders (reconciled key reserved bs b) i =
     (if i \<in> set (dkeys bs) then insert key (holders b i) else holders b i)"
  by (auto simp: holders_def split: if_splits)

lemma references_count:
  assumes "budget_inv b"
  shows "dget_or (mb_buffer_references b) i 0 = int (card (holders b i))"
  using budget_invD(6) [OF assms] by (simp add: dget_or_def)

lemma reconciled_current:
  assumes "budget_inv b" and "sizes_wf bs"
  shows "mb_current (reconciled key reserved bs b) = mb_current b - reserved
           + (\<Sum>i \<in> set (dkeys bs) - held_buffers b. int (identity_size i))"
proof -
  have d: "distinct (map fst bs)" using assms(2) by (simp add: sizes_wf_def)
  have "dget_or (mb_buffer_references b) i 0 = 0 \<longleftrightarrow> i \<notin> held_buffers b" for i
    by (simp add: references_count [OF assms(1)] held_buffers_def)
  then show ?thesis
    by (simp add: reconciled_def reference_current [OF d] sizes_wf_sum_new [OF assms(2)])
qed

lemma reconciled_accounted:
  assumes inv: "budget_inv b" and wf: "sizes_wf bs"
    and r: "dget (mb_reservations b) key = Some reserved"
    and new: "dget (mb_reservation_buffers b) key = None"
  shows "mb_current (reconciled key reserved bs b) = accounted (reconciled key reserved bs b)"
proof -
  let ?b' = "reconciled key reserved bs b"
  have est: "estimated_keys b = insert key (estimated_keys ?b')" and nk: "key \<notin> estimated_keys ?b'"
    using r new by (auto simp: estimated_keys_def split: if_splits)
  have "(\<Sum>k \<in> estimated_keys ?b'. dget_or (mb_reservations ?b') k 0)
      = (\<Sum>k \<in> estimated_keys ?b'. dget_or (mb_reservations b) k 0)"
    using nk by (intro sum.cong) auto
  moreover have "held_buffers ?b' = held_buffers b \<union> (set (dkeys bs) - held_buffers b)"
    by (auto simp: held_buffers_def reconciled_holders [OF new])
  moreover have "(\<Sum>i \<in> held_buffers b \<union> (set (dkeys bs) - held_buffers b). int (identity_size i))
      = (\<Sum>i \<in> held_buffers b. int (identity_size i))
        + (\<Sum>i \<in> set (dkeys bs) - held_buffers b. int (identity_size i))"
    by (rule sum.union_disjoint) auto
  ultimately show ?thesis
    using budget_invD(1) [OF inv] r nk
    by (simp add: reconciled_current [OF inv wf] accounted_def est)
qed

lemma budget_reconcile_ok:
  "budget_reconcile key table b = Inr b' \<longleftrightarrow>
     (\<exists>reserved. dget (mb_reservations b) key = Some reserved
        \<and> int (retained_table_size table) \<le> reserved
        \<and> b' = reconciled key reserved (retained_buffer_sizes table) b)"
  unfolding budget_reconcile_def reconciled_def retained_table_size_def Let_def
  by (cases "dget (mb_reservations b) key") (simp_all add: eq_commute [of b'] not_less)

lemma budget_reconcile_inv:
  assumes inv: "budget_inv b" and new: "dget (mb_reservation_buffers b) key = None"
    and ok: "budget_reconcile key table b = Inr b'"
  shows "budget_inv b'"
proof -
  let ?bs = "retained_buffer_sizes table"
  from ok obtain reserved where r: "dget (mb_reservations b) key = Some reserved"
    and le: "int (sum_list (map snd ?bs)) \<le> reserved" and b': "b' = reconciled key reserved ?bs b"
    by (auto simp: budget_reconcile_ok retained_table_size_def)
  have wf: "sizes_wf ?bs" by (rule retained_buffer_sizes_wf)
  then have d: "distinct (map fst ?bs)" by (simp add: sizes_wf_def)
  have mem: "i \<in> fst ` set ?bs \<longleftrightarrow> i \<in> set (dkeys ?bs)" for i by (simp add: dkeys_def)
  have sz: "dget ?bs i = Some (identity_size i)" if "i \<in> set (dkeys ?bs)" for i
    using that wf by (force simp: sizes_wf_def dkeys_def)
  have key: "key \<notin> holders b i" for i using new by (simp add: holders_def)
  note total = sizes_wf_sum [OF wf] and h = reconciled_holders [OF new]
  have "(\<Sum>i \<in> set (dkeys ?bs) - held_buffers b. int (identity_size i)) \<le> int (sum_list (map snd ?bs))"
    unfolding total by (simp add: sum_mono2)
  with le budget_invD(2) [OF inv] have max: "mb_current b' \<le> mb_maximum b'"
    by (simp add: b' reconciled_current [OF inv wf])
  have refs: "dget (mb_buffer_references b') i =
      (if holders b' i = {} then None else Some (int (card (holders b' i))))" for i
    using budget_invD(6) [OF inv, of i] key
    by (cases "i \<in> set (dkeys ?bs)") (simp_all add: b' h card_insert_if,
        simp_all add: reconciled_def reference_refs [OF d] mem references_count [OF inv])
  have szs: "dget (mb_buffer_sizes b') i =
      (if holders b' i = {} then None else Some (int (identity_size i)))" for i
    using budget_invD(7) [OF inv, of i] sz
    by (cases "i \<in> set (dkeys ?bs)") (simp_all add: b' h,
        simp_all add: reconciled_def reference_sizes [OF d] mem references_count [OF inv])
  show ?thesis
    using reconciled_accounted [OF inv wf r new] max budget_invD(3-5) [OF inv] d
    by (intro budget_invI refs szs)
      (auto simp: b' total dkeys_def sum_list_distinct_conv_sum_set sum_nonneg split: if_splits)
qed

subsection \<open>Release\<close>

definition drop_reference :: "int option \<Rightarrow> int option" where
  "drop_reference r = (case r of None \<Rightarrow> None | Some n \<Rightarrow> if n = 1 then None else Some (n - 1))"

text \<open>The effect of dropping one reference to each of the given buffers.\<close>

definition dereferenced :: "buffer_identity list \<Rightarrow> memory_budget \<Rightarrow> memory_budget \<Rightarrow> bool" where
  "dereferenced ids b b' \<longleftrightarrow>
     mb_maximum b' = mb_maximum b \<and> mb_reservations b' = mb_reservations b
     \<and> mb_reservation_buffers b' = mb_reservation_buffers b \<and> mb_deferred b' = mb_deferred b
     \<and> mb_retainers b' = mb_retainers b \<and> mb_release_pending b' = mb_release_pending b
     \<and> mb_current b' = mb_current b
         - (\<Sum>i | i \<in> set ids \<and> dget (mb_buffer_references b) i = Some 1. int (identity_size i))
     \<and> (\<forall>i. dget (mb_buffer_references b') i =
           (if i \<in> set ids then drop_reference (dget (mb_buffer_references b) i)
            else dget (mb_buffer_references b) i))
     \<and> (\<forall>i. dget (mb_buffer_sizes b') i =
           (if i \<in> set ids \<and> dget (mb_buffer_references b) i = Some 1 then None
            else dget (mb_buffer_sizes b) i))"

definition dereference_one :: "buffer_identity \<Rightarrow> int \<Rightarrow> memory_budget \<Rightarrow> memory_budget" where
  "dereference_one j n b =
     (if n = 1 then b\<lparr>mb_current := mb_current b - int (identity_size j),
        mb_buffer_sizes := dpop j (mb_buffer_sizes b),
        mb_buffer_references := dpop j (mb_buffer_references b)\<rparr>
      else b\<lparr>mb_buffer_references := dput j (n - 1) (mb_buffer_references b)\<rparr>)"

lemma dereference_one_simps [simp]:
  "mb_maximum (dereference_one j n b) = mb_maximum b"
  "mb_reservations (dereference_one j n b) = mb_reservations b"
  "mb_reservation_buffers (dereference_one j n b) = mb_reservation_buffers b"
  "mb_deferred (dereference_one j n b) = mb_deferred b"
  "mb_retainers (dereference_one j n b) = mb_retainers b"
  "mb_release_pending (dereference_one j n b) = mb_release_pending b"
  "mb_current (dereference_one j n b) = mb_current b - (if n = 1 then int (identity_size j) else 0)"
  "dget (mb_buffer_references (dereference_one j n b)) i =
     (if i = j then drop_reference (Some n) else dget (mb_buffer_references b) i)"
  "dget (mb_buffer_sizes (dereference_one j n b)) i =
     (if i = j \<and> n = 1 then None else dget (mb_buffer_sizes b) i)"
  by (simp_all add: dereference_one_def drop_reference_def)

lemma dereferenced_step:
  assumes "dereferenced ids (dereference_one j n b) b'" and "j \<notin> set ids"
    and n: "dget (mb_buffer_references b) j = Some n"
  shows "dereferenced (j # ids) b b'"
proof -
  have "{i. i \<in> set (j # ids) \<and> dget (mb_buffer_references b) i = Some 1}
      = (if n = 1 then {j} else {})
        \<union> {i. i \<in> set ids \<and> dget (mb_buffer_references (dereference_one j n b)) i = Some 1}"
    using n \<open>j \<notin> set ids\<close> by auto
  then have "(\<Sum>i | i \<in> set (j # ids) \<and> dget (mb_buffer_references b) i = Some 1. int (identity_size i))
      = (if n = 1 then int (identity_size j) else 0)
        + (\<Sum>i | i \<in> set ids \<and> dget (mb_buffer_references (dereference_one j n b)) i = Some 1.
             int (identity_size i))"
    using \<open>j \<notin> set ids\<close> by (simp add: sum.union_disjoint)
  then show ?thesis using assms unfolding dereferenced_def by (simp cong: conj_cong)
qed

lemma dereference_buffers_effect:
  assumes "distinct ids"
    and "\<And>i. i \<in> set ids \<Longrightarrow> \<exists>n. dget (mb_buffer_references b) i = Some n"
    and "\<And>i. i \<in> set ids \<Longrightarrow> dget (mb_buffer_sizes b) i = Some (int (identity_size i))"
  shows "\<exists>b'. dereference_buffers ids b = Inr b' \<and> dereferenced ids b b'"
  using assms
proof (induction ids arbitrary: b)
  case Nil
  then show ?case by (simp add: dereferenced_def)
next
  case (Cons j ids)
  obtain n where n: "dget (mb_buffer_references b) j = Some n"
    using Cons.prems(2) [of j] by auto
  have j: "j \<notin> set ids" and d: "distinct ids" using Cons.prems(1) by auto
  have step: "dereference_buffers (j # ids) b = dereference_buffers ids (dereference_one j n b)"
    using n Cons.prems(3) [of j] by (simp add: dereference_one_def)
  have "\<exists>b'. dereference_buffers ids (dereference_one j n b) = Inr b'
      \<and> dereferenced ids (dereference_one j n b) b'"
    using Cons.prems j by (intro Cons.IH [OF d]) auto
  then show ?case unfolding step using dereferenced_step [OF _ j n] by blast
qed

text \<open>The accounting with one key taken out.\<close>

definition without_key :: "budget_key \<Rightarrow> memory_budget \<Rightarrow> memory_budget" where
  "without_key key b = b\<lparr>mb_reservations := dpop key (mb_reservations b),
     mb_reservation_buffers := dpop key (mb_reservation_buffers b)\<rparr>"

lemma without_key_simps [simp]:
  "mb_maximum (without_key key b) = mb_maximum b"
  "mb_current (without_key key b) = mb_current b"
  "mb_reservations (without_key key b) = dpop key (mb_reservations b)"
  "mb_reservation_buffers (without_key key b) = dpop key (mb_reservation_buffers b)"
  "mb_buffer_references (without_key key b) = mb_buffer_references b"
  "mb_buffer_sizes (without_key key b) = mb_buffer_sizes b"
  "mb_deferred (without_key key b) = mb_deferred b"
  "mb_retainers (without_key key b) = mb_retainers b"
  "mb_release_pending (without_key key b) = mb_release_pending b"
  by (simp_all add: without_key_def)

lemma holders_without_key: "holders (without_key key b) i = holders b i - {key}"
  by (auto simp: holders_def split: if_splits)

lemma key_holds: "key \<in> holders b i \<longleftrightarrow> i \<in> set (dget_or (mb_reservation_buffers b) key [])"
  by (simp add: holders_def)

text \<open>The buffers only this key holds.\<close>

definition sole_buffers :: "budget_key \<Rightarrow> memory_budget \<Rightarrow> buffer_identity set" where
  "sole_buffers key b = {i. holders b i = {key}}"

lemma held_without_key: "held_buffers b = held_buffers (without_key key b) \<union> sole_buffers key b"
  and sole_disjoint: "held_buffers (without_key key b) \<inter> sole_buffers key b = {}"
  by (auto simp: held_buffers_def holders_without_key sole_buffers_def)

lemma finite_sole_buffers [simp]: "finite (sole_buffers key b)"
  using held_without_key by (metis finite_Un finite_held_buffers)

lemma sole_buffers_eq:
  assumes "budget_inv b"
  shows "sole_buffers key b =
    {i. i \<in> set (dget_or (mb_reservation_buffers b) key []) \<and> dget (mb_buffer_references b) i = Some 1}"
proof -
  have "holders b i = {key} \<longleftrightarrow> key \<in> holders b i \<and> card (holders b i) = 1" for i
    by (auto simp: card_1_singleton_iff)
  then show ?thesis
    using budget_invD(6) [OF assms] by (auto simp: sole_buffers_def key_holds)
qed

lemma accounted_without_key:
  assumes inv: "budget_inv b"
  shows "accounted (without_key key b) = accounted b
     - (if dget_or (mb_reservation_buffers b) key [] = [] then dget_or (mb_reservations b) key 0 else 0)
     - (\<Sum>i \<in> sole_buffers key b. int (identity_size i))"
proof -
  let ?b0 = "without_key key b"
  have held: "(\<Sum>i \<in> held_buffers b. int (identity_size i))
      = (\<Sum>i \<in> held_buffers ?b0. int (identity_size i)) + (\<Sum>i \<in> sole_buffers key b. int (identity_size i))"
    unfolding held_without_key [of b key] by (rule sum.union_disjoint) (simp_all add: sole_disjoint)
  have est: "estimated_keys ?b0 = estimated_keys b - {key}"
    by (auto simp: estimated_keys_def split: if_splits)
  have sum0: "(\<Sum>k \<in> estimated_keys ?b0. dget_or (mb_reservations ?b0) k 0)
      = (\<Sum>k \<in> estimated_keys b - {key}. dget_or (mb_reservations b) k 0)"
    unfolding est by (intro sum.cong) auto
  have empty: "dget_or (mb_reservations b) key 0 = 0"
    if "dget (mb_reservation_buffers b) key = Some []"
    using budget_invD(5) [OF inv that] by simp
  show ?thesis
  proof (cases "key \<in> estimated_keys b")
    case True
    then have "dget_or (mb_reservation_buffers b) key [] = []"
      by (auto simp: estimated_keys_def dget_or_def split: option.splits)
    with True sum0 show ?thesis by (simp add: accounted_def held sum.remove [of _ key])
  next
    case False
    then have "dget_or (mb_reservation_buffers b) key [] = [] \<Longrightarrow> dget_or (mb_reservations b) key 0 = 0"
      using empty by (cases "dget (mb_reservation_buffers b) key"; cases "dget (mb_reservations b) key")
        (auto simp: estimated_keys_def)
    with False sum0 show ?thesis by (simp add: accounted_def held)
  qed
qed

text \<open>After the loop of \<open>_release_key\<close> the books balance again.\<close>

lemma dereferenced_inv:
  assumes inv: "budget_inv b"
    and ids: "dget (mb_reservation_buffers b) key = Some ids" "ids \<noteq> []"
    and der: "dereferenced ids (without_key key b) b1"
  shows "budget_inv b1"
proof -
  note D = der [unfolded dereferenced_def, simplified]
  have h: "holders b1 i = holders b i - {key}" for i
    using D holders_without_key [of key b i] by (simp add: holders_def)
  have acc: "accounted b1 = accounted (without_key key b)"
    using D by (simp add: accounted_def estimated_keys_def held_buffers_def h holders_without_key)
  have cur: "mb_current b1 = accounted b1"
    using D budget_invD(1) [OF inv] ids
    by (simp add: acc accounted_without_key [OF inv] sole_buffers_eq [OF inv])
  have nonneg: "0 \<le> (\<Sum>i \<in> sole_buffers key b. int (identity_size i))" by (simp add: sum_nonneg)
  have in_ids: "i \<in> set ids \<longleftrightarrow> key \<in> holders b i" for i by (simp add: key_holds ids)
  have card: "int (card (holders b i - {key})) = int (card (holders b i)) - 1"
    if "key \<in> holders b i" for i
    using that card_gt_0_iff [of "holders b i"] by (auto simp: of_nat_diff Suc_leI)
  have one: "int (card (holders b i)) = 1 \<longleftrightarrow> holders b i - {key} = {}" if "key \<in> holders b i" for i
    using that card [OF that] by (metis card_0_eq eq_iff_diff_eq_0 finite_Diff finite_holders of_nat_eq_0_iff)
  show ?thesis
  proof (rule budget_invI)
    show "mb_current b1 \<le> mb_maximum b1"
      using D nonneg budget_invD(1,2) [OF inv] ids
      by (simp add: cur acc accounted_without_key [OF inv])
    show "dget (mb_buffer_references b1) i =
        (if holders b1 i = {} then None else Some (int (card (holders b1 i))))" for i
      using D budget_invD(6) [OF inv, of i] in_ids [of i] card [of i] one [of i]
      by (auto simp: h drop_reference_def)
    show "dget (mb_buffer_sizes b1) i =
        (if holders b1 i = {} then None else Some (int (identity_size i)))" for i
      using D budget_invD(6,7) [OF inv, of i] in_ids [of i] one [of i] by (auto simp: h)
  qed (use D cur budget_invD(3-5) [OF inv] in \<open>auto split: if_splits\<close>)
qed

lemma unheld_inv:
  assumes inv: "budget_inv b" and none: "dget_or (mb_reservation_buffers b) key [] = []"
    and b1: "b1 = (without_key key b)\<lparr>mb_current := mb_current b - dget_or (mb_reservations b) key 0\<rparr>"
  shows "budget_inv b1"
proof -
  have h: "holders b1 i = holders b i" for i
    using none holders_without_key [of key b i] key_holds [of key b i]
    by (auto simp: holders_def b1)
  have "sole_buffers key b = {}" using none key_holds [of key b] by (auto simp: sole_buffers_def)
  then have acc: "accounted b1 = accounted b - dget_or (mb_reservations b) key 0"
    using accounted_without_key [OF inv, of key] none
    by (simp add: b1 accounted_def estimated_keys_def held_buffers_def holders_def)
  have nonneg: "0 \<le> dget_or (mb_reservations b) key 0"
    using budget_invD(3) [OF inv] by (simp add: dget_or_def split: option.split)
  have cur: "mb_current b1 = accounted b1" using acc budget_invD(1) [OF inv] by (simp add: b1)
  moreover have "mb_current b1 \<le> mb_maximum b1"
    using nonneg budget_invD(2) [OF inv] by (simp add: b1)
  moreover have "mb_buffer_references b1 = mb_buffer_references b"
    "mb_buffer_sizes b1 = mb_buffer_sizes b" by (simp_all add: b1)
  ultimately show ?thesis
    using budget_invD(3-7) [OF inv] by (intro budget_invI) (simp_all add: h, auto simp: b1 split: if_splits)
qed

text \<open>
  Releasing a key never fails on a consistent budget; it keeps the books
  balanced and takes the key, and nothing else, out of the reservations.
\<close>

lemma release_key_ok:
  assumes inv: "budget_inv b"
  shows "\<exists>b'. release_key key b = Inr b' \<and> budget_inv b'
     \<and> mb_reservations b' = dpop key (mb_reservations b)
     \<and> mb_reservation_buffers b' = dpop key (mb_reservation_buffers b)
     \<and> mb_retainers b' = mb_retainers b
     \<and> mb_deferred b' = discard_key key (mb_deferred b)
     \<and> mb_release_pending b' = discard_key key (mb_release_pending b)
     \<and> mb_maximum b' = mb_maximum b"
proof -
  let ?ids = "dget_or (mb_reservation_buffers b) key []"
  let ?fin = "\<lambda>b1. b1\<lparr>mb_deferred := discard_key key (mb_deferred b1),
      mb_release_pending := discard_key key (mb_release_pending b1), mb_current := max 0 (mb_current b1)\<rparr>"
  have fin: "budget_inv (?fin b1)" if "budget_inv b1" for b1
    using that budget_inv_bounds(1) [OF that] by (intro budget_inv_frame [OF that]) simp_all
  show ?thesis
  proof (cases "?ids = []")
    case True
    then have "release_key key b = Inr (?fin ((without_key key b)
        \<lparr>mb_current := mb_current b - dget_or (mb_reservations b) key 0\<rparr>))"
      by (simp add: release_key_def without_key_def Let_def)
    then show ?thesis using fin [OF unheld_inv [OF inv True refl]] by simp
  next
    case False
    then obtain ids where ids: "dget (mb_reservation_buffers b) key = Some ids" "ids \<noteq> []"
      by (cases "dget (mb_reservation_buffers b) key") auto
    have hold: "holders b i \<noteq> {}" if "i \<in> set ids" for i
      using that ids key_holds [of key b i] by auto
    have "\<exists>b1. dereference_buffers ids (without_key key b) = Inr b1 \<and> dereferenced ids (without_key key b) b1"
      using budget_invD(4,6,7) [OF inv] ids hold by (intro dereference_buffers_effect) auto
    then obtain b1 where b1: "dereference_buffers ids (without_key key b) = Inr b1"
        "dereferenced ids (without_key key b) b1" by blast
    have "release_key key b = Inr (?fin b1)"
      using False ids b1(1) by (simp add: release_key_def without_key_def Let_def)
    then show ?thesis
      using fin [OF dereferenced_inv [OF inv ids b1(2)]] b1(2) by (simp add: dereferenced_def)
  qed
qed

lemma release_key_inv: "budget_inv b \<Longrightarrow> release_key key b = Inr b' \<Longrightarrow> budget_inv b'"
  using release_key_ok [of b key] by auto

lemma release_keys_ok:
  assumes "budget_inv b"
  shows "\<exists>b'. release_keys ks b = Inr b' \<and> budget_inv b' \<and> mb_retainers b' = mb_retainers b
     \<and> (\<forall>k. dget (mb_reservations b') k = (if k \<in> set ks then None else dget (mb_reservations b) k))
     \<and> mb_maximum b' = mb_maximum b"
  using assms
proof (induction ks arbitrary: b)
  case (Cons k ks)
  obtain b1 where b1: "release_key k b = Inr b1" "budget_inv b1" "mb_retainers b1 = mb_retainers b"
      "mb_reservations b1 = dpop k (mb_reservations b)" "mb_maximum b1 = mb_maximum b"
    using release_key_ok [OF Cons.prems, of k] by auto
  from Cons.IH [OF b1(2)] show ?case using b1 by auto
qed simp

section \<open>Operation sequences\<close>

text \<open>
  The calls the coordinator makes. A reservation is made for a key without one
  (a run reserves each of its nodes once and run identifiers are claimed once)
  and a table is reconciled once per reservation; all other calls are
  unconstrained. A call that raises leaves the budget as it was.
\<close>

inductive budget_step :: "memory_budget \<Rightarrow> memory_budget \<Rightarrow> bool" where
  call_reserve: "budget_reserve key sz b = Inr b' \<Longrightarrow> dget (mb_reservations b) key = None \<Longrightarrow> 0 \<le> sz
    \<Longrightarrow> budget_step b b'"
| call_reconcile: "budget_reconcile key (t :: string list arrow_table) b = Inr b'
    \<Longrightarrow> dget (mb_reservation_buffers b) key = None \<Longrightarrow> budget_step b b'"
| call_release: "budget_release key b = Inr b' \<Longrightarrow> budget_step b b'"
| call_defer: "budget_step b (budget_defer key b)"
| call_retain: "budget_retain key b = Inr b' \<Longrightarrow> budget_step b b'"
| call_release_retained: "budget_release_retained key b = Inr b' \<Longrightarrow> budget_step b b'"
| call_release_run: "budget_release_run run_id b = Inr b' \<Longrightarrow> budget_step b b'"

inductive budget_reachable :: "int \<Rightarrow> memory_budget \<Rightarrow> bool" for maximum where
  start: "budget_reachable maximum (new_budget maximum)"
| step: "budget_reachable maximum b \<Longrightarrow> budget_step b b' \<Longrightarrow> budget_reachable maximum b'"

lemma budget_release_inv:
  "budget_inv b \<Longrightarrow> budget_release key b = Inr b' \<Longrightarrow> budget_inv b'"
  by (auto simp: budget_release_def split: if_splits intro: release_key_inv budget_inv_frame)

lemma budget_defer_inv: "budget_inv b \<Longrightarrow> budget_inv (budget_defer key b)"
  by (auto simp: budget_defer_def intro: budget_inv_frame)

lemma budget_retain_inv: "budget_inv b \<Longrightarrow> budget_retain key b = Inr b' \<Longrightarrow> budget_inv b'"
  by (auto simp: budget_retain_def split: if_splits intro: budget_inv_frame)

lemma budget_release_retained_inv:
  assumes "budget_inv b" and "budget_release_retained key b = Inr b'"
  shows "budget_inv b'"
proof -
  have "budget_inv (b\<lparr>mb_retainers := x\<rparr>)" for x using assms(1) by (rule budget_inv_frame) simp_all
  then show ?thesis using assms(2)
    by (auto simp: budget_release_retained_def Let_def split: if_splits intro: release_key_inv)
qed

lemma release_key_run_inv: "budget_inv b \<Longrightarrow> release_keys ks b = Inr b' \<Longrightarrow> budget_inv b'"
  using release_keys_ok [of b ks] by auto

lemma budget_release_run_inv:
  assumes "budget_inv b" and "budget_release_run r b = Inr b'"
  shows "budget_inv b'"
proof -
  have "budget_inv (b\<lparr>mb_release_pending := x\<rparr>)" for x using assms(1) by (rule budget_inv_frame) simp_all
  from release_key_run_inv [OF this] show ?thesis
    using assms(2) by (simp add: budget_release_run_def Let_def)
qed

lemmas budget_inv_steps =
  budget_reserve_inv budget_reconcile_inv budget_release_inv budget_defer_inv budget_retain_inv
  budget_release_retained_inv budget_release_run_inv

lemma budget_step_inv: "budget_step b b' \<Longrightarrow> budget_inv b \<Longrightarrow> budget_inv b'"
  by (induction rule: budget_step.induct) (blast intro: budget_inv_steps)+

lemma budget_reachable_inv:
  "budget_reachable maximum b \<Longrightarrow> 0 \<le> maximum \<Longrightarrow> budget_inv b"
  by (induction rule: budget_reachable.induct) (auto intro: budget_inv_new budget_step_inv)

lemma fold_add_key_set: "set (fold add_key ks acc) = set ks \<union> set acc"
  by (induction ks arbitrary: acc) (auto simp: add_key_def)

text \<open>
  What \<open>release_run\<close> leaves behind: of the run's own keys exactly those that
  are deferred or retained, and the retained ones are marked for release.
\<close>

lemma budget_release_run_ok:
  assumes inv: "budget_inv b"
  shows "\<exists>b'. budget_release_run r b = Inr b' \<and> budget_inv b'
     \<and> (\<forall>k. dget (mb_reservations b') k =
          (if key_run k = r \<and> k \<notin> set (mb_deferred b) \<and> \<not> 0 < retainer_count b k then None
           else dget (mb_reservations b) k))"
proof -
  have "budget_inv (b\<lparr>mb_release_pending := x\<rparr>)" for x using inv by (rule budget_inv_frame) simp_all
  from release_keys_ok [OF this] show ?thesis
    unfolding budget_release_run_def Let_def
    by (fastforce simp: set_dkeys dom_def)
qed

section \<open>Properties\<close>

lemma release_keys_maximum:
  "budget_inv b \<Longrightarrow> release_keys ks b = Inr b' \<Longrightarrow> mb_maximum b' = mb_maximum b"
  using release_keys_ok [of b ks] by auto

lemma budget_step_maximum: "budget_step b b' \<Longrightarrow> budget_inv b \<Longrightarrow> mb_maximum b' = mb_maximum b"
proof (induction rule: budget_step.induct)
  case (call_reconcile key t b b')
  then show ?case by (auto simp: budget_reconcile_def Let_def split: if_splits)
next
  case (call_release key b b')
  then show ?case
    using release_key_ok [of b key] by (auto simp: budget_release_def split: if_splits)
next
  case (call_release_retained key b b')
  have "budget_inv (b\<lparr>mb_retainers := x\<rparr>)" for x
    using call_release_retained(2) by (rule budget_inv_frame) simp_all
  from release_key_ok [OF this [of "dpop key (mb_retainers b)"], of key] show ?case
    using call_release_retained(1) by (auto simp: budget_release_retained_def Let_def split: if_splits)
next
  case (call_release_run run_id b b')
  have "budget_inv (b\<lparr>mb_release_pending := x\<rparr>)" for x
    using call_release_run(2) by (rule budget_inv_frame) simp_all
  from release_keys_maximum [OF this] show ?case
    using call_release_run(1) by (auto simp: budget_release_run_def Let_def)
qed (auto simp: budget_reserve_def budget_defer_def budget_retain_def split: if_splits)

lemma budget_reachable_maximum:
  "budget_reachable maximum b \<Longrightarrow> 0 \<le> maximum \<Longrightarrow> mb_maximum b = maximum"
  by (induction rule: budget_reachable.induct)
    (auto simp: new_budget_def budget_step_maximum budget_reachable_inv)

text \<open>
  C13: After any sequence of reserve, reconcile, release, defer, retain,
  release\_retained and release\_run calls, the in-flight counter equals what the
  outstanding reservations account for (estimates of running nodes plus each
  distinct buffer held by a finished node, counted once however many nodes
  share it), it is never negative and it never exceeds the configured limit.
\<close>

theorem memory_accounting:
  assumes "budget_reachable maximum b" and "0 \<le> maximum"
  shows "mb_current b = accounted b \<and> 0 \<le> mb_current b \<and> mb_current b \<le> maximum"
  using budget_inv_bounds [OF budget_reachable_inv [OF assms]] budget_reachable_inv [OF assms]
    budget_reachable_maximum [OF assms]
  by (auto simp: budget_inv_def)

definition sample_table :: "string list arrow_table" where
  "sample_table = \<lparr>tbl_schema = [], tbl_rows = [],
     tbl_columns = [[PlainArray [None, Some (Buffer (Some (Buffer None 64 40)) 80 8)]],
                    [PlainArray [None, Some (Buffer None 64 40)]]]\<rparr>"

definition sample_budget :: memory_budget where
  "sample_budget = \<lparr>mb_maximum = 100, mb_current = 40,
     mb_reservations = [(BudgetKey ''r'' ''a'', 40)],
     mb_reservation_buffers = [(BudgetKey ''r'' ''a'', [BufferIdentity 64 40])],
     mb_buffer_sizes = [(BufferIdentity 64 40, 40)],
     mb_buffer_references = [(BufferIdentity 64 40, 1)],
     mb_deferred = [], mb_retainers = [], mb_release_pending = []\<rparr>"

lemma sample_budget_reachable: "budget_reachable 100 sample_budget"
proof -
  let ?b1 = "(new_budget 100)\<lparr>mb_current := 60, mb_reservations := [(BudgetKey ''r'' ''a'', 60)]\<rparr>"
  have "budget_step (new_budget 100) ?b1"
    by (rule call_reserve [of "BudgetKey ''r'' ''a''" 60])
      (simp_all add: budget_reserve_def new_budget_def)
  moreover have "budget_step ?b1 sample_budget"
    by (rule call_reconcile [of "BudgetKey ''r'' ''a''" sample_table])
      (simp_all add: budget_reconcile_def new_budget_def retained_buffer_sizes_def sample_table_def
        sample_budget_def dkeys_def dget_or_def from_option_def Let_def)
  ultimately show ?thesis by (blast intro: budget_reachable.intros)
qed

theorem memory_accounting_witness:
  "mb_current sample_budget = accounted sample_budget \<and> 0 \<le> mb_current sample_budget
     \<and> mb_current sample_budget \<le> 100"
  by (rule memory_accounting [OF sample_budget_reachable]) simp

text \<open>
  C18: Closing a run succeeds in every reachable state and removes exactly the
  run's reservations that are neither deferred to a background cleanup nor
  retained by a consumer; no reservation of another run is touched, and when
  nothing is reserved any more the counter is back at zero.
\<close>

theorem release_run_exact:
  assumes "budget_reachable maximum b" and "0 \<le> maximum"
  shows "\<exists>b'. budget_release_run run_id b = Inr b'
     \<and> (\<forall>k. dget (mb_reservations b') k =
          (if key_run k = run_id \<and> k \<notin> set (mb_deferred b) \<and> \<not> 0 < retainer_count b k then None
           else dget (mb_reservations b) k))
     \<and> ((\<forall>k. dget (mb_reservations b') k = None) \<longrightarrow> mb_current b' = 0)"
proof -
  obtain b' where b': "budget_release_run run_id b = Inr b'" "budget_inv b'"
      "\<forall>k. dget (mb_reservations b') k =
          (if key_run k = run_id \<and> k \<notin> set (mb_deferred b) \<and> \<not> 0 < retainer_count b k then None
           else dget (mb_reservations b) k)"
    using budget_release_run_ok [OF budget_reachable_inv [OF assms], of run_id] by blast
  have "mb_current b' = 0" if none: "\<forall>k. dget (mb_reservations b') k = None"
  proof -
    have "dget (mb_reservation_buffers b') k = None" for k
      using budget_invD(5) [OF b'(2), of k] none by (cases "dget (mb_reservation_buffers b') k") auto
    then have "accounted b' = 0"
      using none by (simp add: accounted_def estimated_keys_def held_buffers_eq dom_def)
    with b'(2) show ?thesis by (simp add: budget_inv_def)
  qed
  with b' show ?thesis by blast
qed

theorem release_run_exact_witness:
  "\<exists>b'. budget_release_run ''r'' sample_budget = Inr b' \<and> mb_current b' = 0"
  using release_run_exact [OF sample_budget_reachable, of "''r''"]
  by (fastforce simp: sample_budget_def retainer_count_def dget_or_def)

end
