(* ===== verification/Dependency_Graph.thy ===== *)
theory Dependency_Graph
  imports Nexus_Prelude "HOL-Library.Multiset"
begin

text \<open>
  The three graph loops of the runtime, over a list of nodes given as
  (identifier, dependency list) pairs: the topological sort with a sorted ready
  list (\<open>topological_order\<close> in \<open>planner.py\<close>, repeated with a counter in
  \<open>validate_physical_plan\<close> of \<open>coordinator.py\<close>), the dependency closure with
  a stack (\<open>_reachable\<close>, repeated in \<open>validate_physical_plan\<close>), and the wave
  assignment (\<open>_assign_waves\<close>). A dependency may be listed twice; every loop
  is shown to stop.
\<close>

type_synonym adjacency = "(string \<times> string list) list"

definition node_ids :: "adjacency \<Rightarrow> string list" where
  "node_ids g = map fst g"

definition deps_of :: "adjacency \<Rightarrow> string \<Rightarrow> string list" where
  "deps_of g i = (case map_of g i of None \<Rightarrow> [] | Some ds \<Rightarrow> ds)"

text \<open>Every dependency names a node.\<close>

definition closed_graph :: "adjacency \<Rightarrow> bool" where
  "closed_graph g \<longleftrightarrow> (\<forall>(i, ds) \<in> set g. set ds \<subseteq> set (node_ids g))"

text \<open>The edge relation from a dependency to its dependent.\<close>

definition edges :: "adjacency \<Rightarrow> (string \<times> string) set" where
  "edges g = {(d, i). i \<in> set (node_ids g) \<and> d \<in> set (deps_of g i)}"

lemma deps_of_member: "distinct (node_ids g) \<Longrightarrow> (i, ds) \<in> set g \<Longrightarrow> deps_of g i = ds"
  by (simp add: deps_of_def node_ids_def)

lemma node_ids_member:
  "distinct (node_ids g) \<Longrightarrow> i \<in> set (node_ids g) \<Longrightarrow> (i, deps_of g i) \<in> set g"
  by (auto simp: node_ids_def deps_of_member)

lemma closed_graphD:
  "closed_graph g \<Longrightarrow> distinct (node_ids g) \<Longrightarrow> i \<in> set (node_ids g) \<Longrightarrow> d \<in> set (deps_of g i)
     \<Longrightarrow> d \<in> set (node_ids g)"
  using node_ids_member by (fastforce simp: closed_graph_def)

lemma deps_of_notin: "i \<notin> set (node_ids g) \<Longrightarrow> deps_of g i = []"
  by (simp add: deps_of_def node_ids_def flip: map_of_eq_None_iff)

section \<open>Topological sort\<close>

text \<open>\<open>dependents[n]\<close>: one entry per occurrence of \<open>n\<close> among the dependencies.\<close>

definition dependents :: "adjacency \<Rightarrow> string \<Rightarrow> string list" where
  "dependents g n = concat (map (\<lambda>(i, ds). map (\<lambda>_. i) (filter (\<lambda>d. d = n) ds)) g)"

definition initial_indegree :: "adjacency \<Rightarrow> string \<Rightarrow> int" where
  "initial_indegree g i = int (length (deps_of g i))"

text \<open>The inner loop over the dependents of the node just taken.\<close>

fun relax :: "string list \<Rightarrow> (string \<Rightarrow> int) \<Rightarrow> string list \<Rightarrow> (string \<Rightarrow> int) \<times> string list" where
  "relax [] indegree ready = (indegree, ready)"
| "relax (c # cs) indegree ready =
     (let indegree' = indegree(c := indegree c - 1)
      in relax cs indegree' (if indegree' c = 0 then sort (ready @ [c]) else ready))"

definition kahn_measure :: "adjacency \<Rightarrow> (string \<Rightarrow> int) \<Rightarrow> string list \<Rightarrow> nat" where
  "kahn_measure g indegree ready = (\<Sum>i \<in> set (node_ids g). nat (indegree i)) + length ready"

lemma relax_measure:
  "relax cs indegree ready = (indegree', ready') \<Longrightarrow> set cs \<subseteq> set (node_ids g) \<Longrightarrow>
     kahn_measure g indegree' ready' \<le> kahn_measure g indegree ready"
proof (induction cs indegree ready rule: relax.induct)
  case (2 c cs indegree ready)
  let ?ind = "indegree(c := indegree c - 1)"
  let ?ready = "if ?ind c = 0 then sort (ready @ [c]) else ready"
  have c: "c \<in> set (node_ids g)" using "2.prems" by simp
  have r: "relax cs ?ind ?ready = (indegree', ready')" using "2.prems"(1) by (simp add: Let_def)
  have "kahn_measure g indegree' ready' \<le> kahn_measure g ?ind ?ready"
    by (rule "2.IH" [OF refl r]) (use "2.prems"(2) in simp)
  also have "\<dots> \<le> kahn_measure g indegree ready"
  proof -
    have "(\<Sum>i \<in> set (node_ids g) - {c}. nat (?ind i)) = (\<Sum>i \<in> set (node_ids g) - {c}. nat (indegree i))"
      by (rule sum.cong) auto
    then show ?thesis
      using c by (auto simp: kahn_measure_def sum.remove [of _ c])
  qed
  finally show ?case .
qed simp

lemma set_dependents: "set (dependents g n) \<subseteq> set (node_ids g)"
  by (force simp: dependents_def node_ids_def)

function kahn ::
  "adjacency \<Rightarrow> string list \<Rightarrow> (string \<Rightarrow> int) \<Rightarrow> string list \<Rightarrow> string list" where
  "kahn g [] indegree ordered = ordered"
| "kahn g (n # ready) indegree ordered =
     (case relax (sort (dependents g n)) indegree ready of (indegree', ready') \<Rightarrow>
        kahn g ready' indegree' (ordered @ [n]))"
  by pat_completeness auto
termination
proof (relation "measure (\<lambda>(g, ready, indegree, ordered). kahn_measure g indegree ready)")
  fix g n ready indegree ordered and indegree' :: "string \<Rightarrow> int" and ready'
  assume "(indegree', ready') = relax (sort (dependents g n)) indegree ready"
  then have "kahn_measure g indegree' ready' \<le> kahn_measure g indegree ready"
    using set_dependents [of g n]
    by (intro relax_measure [of "sort (dependents g n)"]) (simp_all only: set_sort)
  then show "((g, ready', indegree', ordered @ [n]), g, n # ready, indegree, ordered)
      \<in> measure (\<lambda>(g, ready, indegree, ordered). kahn_measure g indegree ready)"
    by (simp add: kahn_measure_def)
qed simp

text \<open>The loop from its initial state, and the variant that only counts.\<close>

definition kahn_order :: "adjacency \<Rightarrow> string list" where
  "kahn_order g =
     kahn g (sort (filter (\<lambda>i. initial_indegree g i = 0) (node_ids g))) (initial_indegree g) []"

subsection \<open>What the loop computes\<close>

lemma count_list_dependents:
  "distinct (node_ids g) \<Longrightarrow> count_list (dependents g n) i = count_list (deps_of g i) n"
proof (induction g)
  case (Cons p g)
  obtain j ds where p: "p = (j, ds)" by (cases p)
  have const: "count_list (map (\<lambda>_. j) xs) k = (if k = j then length xs else 0)" for xs :: "string list" and k
    by (induction xs) auto
  have len: "length (filter (\<lambda>d. d = n) ds) = count_list ds n"
    by (induction ds) auto
  show ?case
  proof (cases "i = j")
    case True
    with Cons.prems p have "i \<notin> set (node_ids g)" by (simp add: node_ids_def)
    then have "count_list (dependents g n) i = 0"
      using set_dependents by (metis count_list_0_iff subsetD)
    then show ?thesis
      using True p by (simp add: dependents_def deps_of_def count_list_append const len)
  next
    case False
    then show ?thesis
      using Cons p by (simp add: dependents_def deps_of_def count_list_append const node_ids_def)
  qed
qed (simp add: dependents_def deps_of_def)

lemma count_list_sort [simp]: "count_list (sort xs) x = count_list xs x"
  by (metis count_mset mset_sort)

lemma relax_indegree:
  "relax cs indegree ready = (indegree', ready') \<Longrightarrow> indegree' i = indegree i - int (count_list cs i)"
  by (induction cs indegree ready rule: relax.induct) (auto simp: Let_def)

text \<open>
  A dependent joins the ready list exactly when its count reaches zero during
  the loop, and then only once.
\<close>

lemma relax_ready:
  "relax cs indegree ready = (indegree', ready') \<Longrightarrow>
   distinct ready \<Longrightarrow> (\<And>i. i \<in> set ready \<Longrightarrow> indegree i \<le> 0) \<Longrightarrow>
     distinct ready' \<and>
     set ready' = set ready \<union> {i. 1 \<le> indegree i \<and> indegree i \<le> int (count_list cs i)}"
proof (induction cs indegree ready rule: relax.induct)
  case (2 c cs indegree ready)
  let ?ind = "indegree(c := indegree c - 1)"
  let ?ready = "if ?ind c = 0 then sort (ready @ [c]) else ready"
  have r: "relax cs ?ind ?ready = (indegree', ready')" using "2.prems"(1) by (simp add: Let_def)
  have d: "distinct ?ready" using "2.prems"(2,3) by force
  have z: "?ind i \<le> 0" if "i \<in> set ?ready" for i
    using that "2.prems"(3) [of i] by (auto split: if_splits)
  note IH = "2.IH" [OF refl r d z]
  have "set ?ready \<union> {i. 1 \<le> ?ind i \<and> ?ind i \<le> int (count_list cs i)}
      = set ready \<union> {i. 1 \<le> indegree i \<and> indegree i \<le> int (count_list (c # cs) i)}"
    by (auto split: if_splits)
  with IH show ?case by simp
qed auto

text \<open>How many dependencies of a node have not been taken yet.\<close>

definition outstanding :: "adjacency \<Rightarrow> string list \<Rightarrow> string \<Rightarrow> nat" where
  "outstanding g ordered i = length (filter (\<lambda>d. d \<notin> set ordered) (deps_of g i))"

lemma outstanding_snoc:
  "n \<notin> set ordered \<Longrightarrow>
     int (outstanding g (ordered @ [n]) i) = int (outstanding g ordered i) - int (count_list (deps_of g i) n)"
proof -
  assume "n \<notin> set ordered"
  then have "length (filter (\<lambda>d. d \<notin> set ordered) ds)
      = length (filter (\<lambda>d. d \<notin> set (ordered @ [n])) ds) + count_list ds n" for ds
    by (induction ds) auto
  then show ?thesis by (simp add: outstanding_def)
qed

lemma outstanding_0: "outstanding g ordered i = 0 \<longleftrightarrow> set (deps_of g i) \<subseteq> set ordered"
  by (auto simp: outstanding_def filter_empty_conv)

text \<open>Every node of the list comes after its dependencies.\<close>

definition topological :: "adjacency \<Rightarrow> string list \<Rightarrow> bool" where
  "topological g xs \<longleftrightarrow> (\<forall>k < length xs. set (deps_of g (xs ! k)) \<subseteq> set (take k xs))"

lemma topological_snoc:
  "topological g (xs @ [n]) \<longleftrightarrow> topological g xs \<and> set (deps_of g n) \<subseteq> set xs"
  by (auto simp: topological_def nth_append less_Suc_eq)

definition kahn_inv :: "adjacency \<Rightarrow> string list \<Rightarrow> (string \<Rightarrow> int) \<Rightarrow> string list \<Rightarrow> bool" where
  "kahn_inv g ready indegree ordered \<longleftrightarrow>
     distinct (ordered @ ready) \<and> set (ordered @ ready) \<subseteq> set (node_ids g)
     \<and> topological g ordered
     \<and> (\<forall>i \<in> set (node_ids g). indegree i = int (outstanding g ordered i))
     \<and> (\<forall>i \<in> set (node_ids g). i \<in> set (ordered @ ready) \<longleftrightarrow> outstanding g ordered i = 0)"

lemma kahn_inv_start:
  "distinct (node_ids g) \<Longrightarrow>
   kahn_inv g (sort (filter (\<lambda>i. initial_indegree g i = 0) (node_ids g))) (initial_indegree g) []"
  by (auto simp: kahn_inv_def topological_def outstanding_def initial_indegree_def)

lemma kahn_inv_step:
  assumes inv: "kahn_inv g (n # ready) indegree ordered" and d: "distinct (node_ids g)"
    and r: "relax (sort (dependents g n)) indegree ready = (indegree', ready')"
  shows "kahn_inv g ready' indegree' (ordered @ [n])"
proof -
  note I = inv [unfolded kahn_inv_def]
  have n: "n \<in> set (node_ids g)" "n \<notin> set ordered" using I by auto
  have ind: "indegree' i = int (outstanding g (ordered @ [n]) i)" if "i \<in> set (node_ids g)" for i
    using that I n(2) by (simp add: relax_indegree [OF r] count_list_dependents [OF d] outstanding_snoc)
  have low: "indegree i \<le> 0" if "i \<in> set ready" for i using that I by force
  have "distinct ready" using I by simp
  from relax_ready [OF r this low]
  have dr: "distinct ready'" and sr: "set ready' = set ready
      \<union> {i. 1 \<le> indegree i \<and> indegree i \<le> int (count_list (deps_of g i) n)}"
    by (simp_all add: count_list_dependents [OF d])
  have zero: "outstanding g (ordered @ [n]) i = 0 \<longleftrightarrow>
      outstanding g ordered i = 0 \<or>
      (1 \<le> indegree i \<and> indegree i \<le> int (count_list (deps_of g i) n))"
    if "i \<in> set (node_ids g)" for i
    using that I outstanding_snoc [OF n(2), of g i] by auto
  have known: "i \<in> set (node_ids g)" if "1 \<le> int (count_list (deps_of g i) n)" for i
    using that deps_of_notin by (metis count_list.simps(1) of_nat_0 not_one_le_zero)
  have mem: "i \<in> set ((ordered @ [n]) @ ready') \<longleftrightarrow> outstanding g (ordered @ [n]) i = 0"
    if "i \<in> set (node_ids g)" for i
    using that zero [OF that] I by (auto simp: sr)
  have fresh: "i \<notin> set (ordered @ [n])" if "i \<in> set ready'" for i
  proof (cases "i \<in> set ready")
    case False
    with that known have "1 \<le> indegree i" "i \<in> set (node_ids g)" by (auto simp: sr)
    with I show ?thesis by force
  qed (use I in auto)
  have "outstanding g ordered n = 0" using I n by auto
  then have "topological g (ordered @ [n])"
    using I by (simp add: topological_snoc outstanding_0)
  moreover have "set ready' \<subseteq> set (node_ids g)" using I known by (auto simp: sr)
  ultimately show ?thesis
    using I dr fresh ind mem unfolding kahn_inv_def by auto
qed

lemma kahn_result:
  assumes "kahn_inv g ready indegree ordered" and d: "distinct (node_ids g)"
  shows "\<exists>indegree'. kahn_inv g [] indegree' (kahn g ready indegree ordered)"
  using assms
proof (induction g ready indegree ordered rule: kahn.induct)
  case (2 g n ready indegree ordered)
  obtain indegree' ready' where r: "relax (sort (dependents g n)) indegree ready = (indegree', ready')"
    by fastforce
  show ?case
    using "2.IH" [OF r [symmetric]] kahn_inv_step [OF "2.prems" r] "2.prems"(2) r by simp
qed auto

lemma kahn_order_inv:
  "distinct (node_ids g) \<Longrightarrow> \<exists>indegree. kahn_inv g [] indegree (kahn_order g)"
  unfolding kahn_order_def by (rule kahn_result [OF kahn_inv_start])

lemma kahn_order_props:
  assumes "distinct (node_ids g)"
  shows "distinct (kahn_order g)" "set (kahn_order g) \<subseteq> set (node_ids g)" "topological g (kahn_order g)"
    and "i \<in> set (node_ids g) \<Longrightarrow>
           i \<in> set (kahn_order g) \<longleftrightarrow> set (deps_of g i) \<subseteq> set (kahn_order g)"
  using kahn_order_inv [OF assms] by (auto simp: kahn_inv_def outstanding_0)

lemma kahn_order_complete_iff:
  assumes "distinct (node_ids g)"
  shows "length (kahn_order g) = length g \<longleftrightarrow> set (kahn_order g) = set (node_ids g)"
proof -
  note k = kahn_order_props [OF assms]
  have "length (kahn_order g) = card (set (kahn_order g))" "length g = card (set (node_ids g))"
    using k(1) assms by (simp_all add: distinct_card) (simp add: node_ids_def)
  then show ?thesis using k(2) by (metis card_subset_eq finite_set)
qed

subsection \<open>Orders and cycles\<close>

lemma topological_wf:
  assumes t: "topological g xs" and all: "set (node_ids g) \<subseteq> set xs"
  shows "wf (edges g)"
proof (rule wfI_min)
  fix x Q assume x: "x \<in> (Q :: string set)"
  show "\<exists>z \<in> Q. \<forall>y. (y, z) \<in> edges g \<longrightarrow> y \<notin> Q"
  proof (cases "\<exists>k. k < length xs \<and> xs ! k \<in> Q")
    case True
    define k where "k = (LEAST k. k < length xs \<and> xs ! k \<in> Q)"
    have k: "k < length xs" "xs ! k \<in> Q" using LeastI_ex [OF True] by (simp_all add: k_def)
    have "y \<notin> Q" if "(y, xs ! k) \<in> edges g" for y
    proof -
      have "y \<in> set (take k xs)" using that t k(1) by (auto simp: edges_def topological_def)
      then obtain j where "j < k" "j < length xs" "y = xs ! j" by (auto simp: in_set_conv_nth)
      then show ?thesis using not_less_Least [of j] by (auto simp: k_def)
    qed
    with k(2) show ?thesis by blast
  next
    case False
    with x have "x \<notin> set xs" by (auto simp: in_set_conv_nth)
    with all have "x \<notin> set (node_ids g)" by blast
    with x show ?thesis by (auto simp: edges_def)
  qed
qed

lemma edges_finite: "finite (edges g)"
proof -
  have "edges g \<subseteq> (\<Union>i \<in> set (node_ids g). (\<lambda>d. (d, i)) ` set (deps_of g i))" by (auto simp: edges_def)
  then show ?thesis by (rule finite_subset) auto
qed

text \<open>
  Under an acyclic edge relation, a set of nodes that contains every node whose
  dependencies it contains is the set of all nodes.
\<close>

lemma acyclic_saturated:
  assumes "acyclic (edges g)" "closed_graph g" "distinct (node_ids g)"
    and step: "\<And>i. i \<in> set (node_ids g) \<Longrightarrow> set (deps_of g i) \<subseteq> S \<Longrightarrow> i \<in> S"
  shows "set (node_ids g) \<subseteq> S"
proof
  fix i
  have "wf (edges g)" using assms(1) edges_finite by (rule finite_acyclic_wf [rotated])
  then show "i \<in> set (node_ids g) \<Longrightarrow> i \<in> S"
  proof (induction i rule: wf_induct_rule)
    case (less i)
    have "d \<in> S" if "d \<in> set (deps_of g i)" for d
      using that less closed_graphD [OF assms(2,3)] by (auto simp: edges_def)
    with step less.prems show ?case by blast
  qed
qed

lemma kahn_order_acyclic_iff:
  assumes "distinct (node_ids g)" "closed_graph g"
  shows "length (kahn_order g) = length g \<longleftrightarrow> acyclic (edges g)"
proof
  note k = kahn_order_props [OF assms(1)]
  assume "length (kahn_order g) = length g"
  with kahn_order_complete_iff [OF assms(1)] topological_wf [OF k(3)]
  show "acyclic (edges g)" by (simp add: wf_acyclic)
next
  note k = kahn_order_props [OF assms(1)]
  assume a: "acyclic (edges g)"
  have "set (node_ids g) \<subseteq> set (kahn_order g)"
    using k(4) by (intro acyclic_saturated [OF a assms(2,1)]) blast
  with k(2) show "length (kahn_order g) = length g"
    by (simp add: kahn_order_complete_iff [OF assms(1)])
qed

section \<open>Dependency closure\<close>

text \<open>
  The stack is listed from its top: \<open>pending.extend(deps)\<close> followed by
  \<open>pending.pop()\<close> takes the last dependency first. \<open>nodes[node_id]\<close> raises
  \<open>KeyError\<close> on an unknown identifier.
\<close>

function reach :: "adjacency \<Rightarrow> string list \<Rightarrow> string list \<Rightarrow> string list res" where
  "reach g [] result = Inr result"
| "reach g (n # pending) result =
     (if n \<in> set result then reach g pending result
      else case map_of g n of
        None \<Rightarrow> Inl KeyError
      | Some ds \<Rightarrow> reach g (rev ds @ pending) (n # result))"
  by pat_completeness auto
termination
proof (relation "inv_image (less_than <*lex*> less_than)
    (\<lambda>(g, pending, result). (card (set (node_ids g) - set result), length pending))")
  fix g :: adjacency and n :: string and pending result ds
  assume "n \<notin> set result" and "map_of g n = Some ds"
  then have "n \<in> set (node_ids g) - set result"
    by (auto simp: node_ids_def dest!: map_of_SomeD intro: rev_image_eqI)
  then have "card (set (node_ids g) - set (n # result)) < card (set (node_ids g) - set result)"
    by (intro psubset_card_mono) auto
  then show "((g, rev ds @ pending, n # result), g, n # pending, result)
      \<in> inv_image (less_than <*lex*> less_than)
          (\<lambda>(g, pending, result). (card (set (node_ids g) - set result), length pending))"
    by simp
qed auto

definition reachable_from :: "string \<Rightarrow> adjacency \<Rightarrow> string list res" where
  "reachable_from output_id g = reach g [output_id] []"

lemma reach_ok:
  "closed_graph g \<Longrightarrow> distinct (node_ids g) \<Longrightarrow> set pending \<subseteq> set (node_ids g) \<Longrightarrow>
   distinct result \<Longrightarrow> (\<And>i. i \<in> set result \<Longrightarrow> set (deps_of g i) \<subseteq> set result \<union> set pending) \<Longrightarrow>
   set result \<subseteq> set (node_ids g) \<Longrightarrow>
   \<exists>R. reach g pending result = Inr R \<and> distinct R \<and> set result \<union> set pending \<subseteq> set R
     \<and> set R \<subseteq> set (node_ids g)
     \<and> (\<forall>i \<in> set R. set (deps_of g i) \<subseteq> set R)
     \<and> (\<forall>i \<in> set R. i \<in> set result \<or> (\<exists>p \<in> set pending. (i, p) \<in> (edges g)\<^sup>*))"
proof (induction g pending result rule: reach.induct)
  case (2 g n pending result)
  have n: "n \<in> set (node_ids g)" using "2.prems" by simp
  show ?case
  proof (cases "n \<in> set result")
    case True
    have "\<exists>R. reach g pending result = Inr R \<and> distinct R \<and> set result \<union> set pending \<subseteq> set R
        \<and> set R \<subseteq> set (node_ids g) \<and> (\<forall>i \<in> set R. set (deps_of g i) \<subseteq> set R)
        \<and> (\<forall>i \<in> set R. i \<in> set result \<or> (\<exists>p \<in> set pending. (i, p) \<in> (edges g)\<^sup>*))"
      using "2.prems" True by (intro "2.IH"(1) [OF True]) auto
    with True show ?thesis by auto
  next
    case False
    obtain ds where ds: "map_of g n = Some ds" "deps_of g n = ds"
      using n by (cases "map_of g n") (auto simp: node_ids_def deps_of_def map_of_eq_None_iff)
    have e: "(d, n) \<in> edges g" if "d \<in> set ds" for d using that n ds by (simp add: edges_def)
    have "\<exists>R. reach g (rev ds @ pending) (n # result) = Inr R \<and> distinct R
        \<and> set (n # result) \<union> set (rev ds @ pending) \<subseteq> set R \<and> set R \<subseteq> set (node_ids g)
        \<and> (\<forall>i \<in> set R. set (deps_of g i) \<subseteq> set R)
        \<and> (\<forall>i \<in> set R. i \<in> set (n # result) \<or> (\<exists>p \<in> set (rev ds @ pending). (i, p) \<in> (edges g)\<^sup>*))"
      using "2.prems" False ds closed_graphD [OF "2.prems"(1,2) n] n
      by (intro "2.IH"(2) [OF False ds(1)]) auto
    then obtain R where R: "reach g (rev ds @ pending) (n # result) = Inr R" "distinct R"
        "set (n # result) \<union> set (rev ds @ pending) \<subseteq> set R" "set R \<subseteq> set (node_ids g)"
        "\<forall>i \<in> set R. set (deps_of g i) \<subseteq> set R"
        "\<forall>i \<in> set R. i \<in> set (n # result) \<or> (\<exists>p \<in> set (rev ds @ pending). (i, p) \<in> (edges g)\<^sup>*)"
      by blast
    have "i \<in> set result \<or> (\<exists>p \<in> set (n # pending). (i, p) \<in> (edges g)\<^sup>*)" if "i \<in> set R" for i
      using R(6) that e by (fastforce intro: rtrancl_into_rtrancl)
    with R False ds show ?thesis by auto
  qed
qed auto

lemma reachable_from_ok:
  assumes "closed_graph g" "distinct (node_ids g)" "output_id \<in> set (node_ids g)"
  obtains R where "reachable_from output_id g = Inr R" "distinct R"
    "set R = {i. (i, output_id) \<in> (edges g)\<^sup>*}"
proof -
  obtain R where R: "reach g [output_id] [] = Inr R" "distinct R" "output_id \<in> set R"
      "set R \<subseteq> set (node_ids g)" "\<forall>i \<in> set R. set (deps_of g i) \<subseteq> set R"
      "\<forall>i \<in> set R. (i, output_id) \<in> (edges g)\<^sup>*"
    using reach_ok [OF assms(1,2), of "[output_id]" "[]"] assms(3) by auto
  have "i \<in> set R" if "(i, output_id) \<in> (edges g)\<^sup>*" for i
    using that R(3)
    by (induction rule: converse_rtrancl_induct) (use R(5) in \<open>auto simp: edges_def\<close>)
  with R(6) have "set R = {i. (i, output_id) \<in> (edges g)\<^sup>*}" by blast
  with R that show thesis by (simp only: reachable_from_def)
qed

section \<open>Wave assignment\<close>

definition node_wave :: "adjacency \<Rightarrow> (string \<times> nat) list \<Rightarrow> string \<Rightarrow> nat" where
  "node_wave g waves i =
     (if deps_of g i = [] then 0 else Max (set (map (\<lambda>d. dget_or waves d 0) (deps_of g i))) + 1)"

text \<open>One round: the loop over the ready nodes, writing \<open>waves\<close> and \<open>ordered\<close>.\<close>

fun assign_ready ::
  "adjacency \<Rightarrow> string list \<Rightarrow> (string \<times> nat) list \<Rightarrow> (string \<times> nat) list
     \<Rightarrow> (string \<times> nat) list \<times> (string \<times> nat) list" where
  "assign_ready g [] waves ordered = (waves, ordered)"
| "assign_ready g (i # ready) waves ordered =
     (let wave = node_wave g waves i
      in assign_ready g ready (dput i wave waves) (ordered @ [(i, wave)]))"

definition ready_nodes :: "adjacency \<Rightarrow> string list \<Rightarrow> (string \<times> nat) list \<Rightarrow> string list" where
  "ready_nodes g remaining waves =
     sort (filter (\<lambda>i. list_all (\<lambda>d. d \<in> set (dkeys waves)) (deps_of g i)) remaining)"

lemma set_ready_nodes:
  "set (ready_nodes g remaining waves) = {i \<in> set remaining. set (deps_of g i) \<subseteq> set (dkeys waves)}"
  by (auto simp: ready_nodes_def list_all_iff)

function wave_rounds ::
  "adjacency \<Rightarrow> string list \<Rightarrow> (string \<times> nat) list \<Rightarrow> (string \<times> nat) list
     \<Rightarrow> (string \<times> nat) list res" where
  "wave_rounds g remaining waves ordered =
     (if remaining = [] then Inr ordered
      else let ready = ready_nodes g remaining waves
           in if ready = [] then Inl (PlanFailure ''PLAN_CYCLE'')
              else case assign_ready g ready waves ordered of (waves', ordered') \<Rightarrow>
                wave_rounds g (filter (\<lambda>i. i \<notin> set ready) remaining) waves' ordered')"
  by pat_completeness auto
termination
proof (relation "measure (\<lambda>(g, remaining, waves, ordered). length remaining)")
  fix g remaining waves ordered ready waves' ordered'
  assume "ready = ready_nodes g remaining waves" and "ready \<noteq> []"
  then have "hd ready \<in> set ready" "set ready \<subseteq> set remaining"
    by (simp, auto simp: set_ready_nodes)
  then obtain i where "i \<in> set ready" "i \<in> set remaining" by blast
  then have "length (filter (\<lambda>i. i \<notin> set ready) remaining) < length remaining"
    by (intro length_filter_less) auto
  then show "((g, filter (\<lambda>i. i \<notin> set ready) remaining, waves', ordered'), g, remaining, waves, ordered)
      \<in> measure (\<lambda>(g, remaining, waves, ordered). length remaining)"
    by simp
qed simp

declare wave_rounds.simps [simp del]

definition wave_order :: "adjacency \<Rightarrow> (string \<times> nat) list res" where
  "wave_order g = wave_rounds g (node_ids g) [] []"

lemma distinct_ready_nodes: "distinct remaining \<Longrightarrow> distinct (ready_nodes g remaining waves)"
  by (simp add: ready_nodes_def)

lemma dput_fresh: "k \<notin> set (dkeys d) \<Longrightarrow> dput k v d = d @ [(k, v)]"
  by (induction d) (auto simp: dkeys_def)

lemma dget_or_fresh: "k \<in> set (dkeys d) \<Longrightarrow> dget_or (d @ e) k v = dget_or d k v"
  by (auto simp: dget_or_def dkeys_def map_add_def map_of_eq_None_iff split: option.splits)

lemma node_wave_append:
  "set (deps_of g i) \<subseteq> set (dkeys ws) \<Longrightarrow> node_wave g (ws @ e) i = node_wave g ws i"
  by (auto simp: node_wave_def dget_or_fresh subset_iff cong: map_cong)

text \<open>Every node of the list follows its dependencies and has the wave they give it.\<close>

definition waves_ok :: "adjacency \<Rightarrow> (string \<times> nat) list \<Rightarrow> bool" where
  "waves_ok g ws \<longleftrightarrow> distinct (dkeys ws) \<and> topological g (dkeys ws)
     \<and> (\<forall>(i, w) \<in> set ws. set (deps_of g i) \<subseteq> set (dkeys ws) \<and> w = node_wave g ws i)"

lemma waves_ok_snoc:
  assumes "waves_ok g ws" "i \<notin> set (dkeys ws)" "set (deps_of g i) \<subseteq> set (dkeys ws)"
  shows "waves_ok g (ws @ [(i, node_wave g ws i)])"
proof -
  have keys: "dkeys (ws @ [(i, node_wave g ws i)]) = dkeys ws @ [i]" by (simp add: dkeys_def)
  show ?thesis
    using assms unfolding waves_ok_def keys
    by (auto simp: topological_snoc node_wave_append dkeys_def)
qed

lemma assign_ready_ok:
  assumes "waves_ok g ws" "distinct ready" "set ready \<inter> set (dkeys ws) = {}"
    and "\<And>i. i \<in> set ready \<Longrightarrow> set (deps_of g i) \<subseteq> set (dkeys ws)"
  shows "\<exists>ws'. assign_ready g ready ws ws = (ws', ws') \<and> waves_ok g ws' \<and> dkeys ws' = dkeys ws @ ready"
  using assms
proof (induction ready arbitrary: ws)
  case (Cons i ready)
  let ?ws = "ws @ [(i, node_wave g ws i)]"
  have keys: "dkeys ?ws = dkeys ws @ [i]" by (simp add: dkeys_def)
  have "waves_ok g ?ws" using Cons.prems by (intro waves_ok_snoc) auto
  then have "\<exists>ws'. assign_ready g ready ?ws ?ws = (ws', ws') \<and> waves_ok g ws' \<and> dkeys ws' = dkeys ?ws @ ready"
    using Cons.prems keys by (intro Cons.IH) auto
  with Cons.prems keys show ?case by (simp add: Let_def dput_fresh)
qed simp

lemma ready_round:
  assumes "waves_ok g ws" "distinct remaining" "set remaining \<inter> set (dkeys ws) = {}"
  shows "\<exists>ws'. assign_ready g (ready_nodes g remaining ws) ws ws = (ws', ws') \<and> waves_ok g ws'
           \<and> dkeys ws' = dkeys ws @ ready_nodes g remaining ws"
  using assms(3)
  by (intro assign_ready_ok assms(1) distinct_ready_nodes assms(2)) (auto simp: set_ready_nodes)

lemma wave_rounds_result:
  assumes "wave_rounds g remaining ws ws = Inr ordered" "waves_ok g ws" "distinct remaining"
    and "set remaining \<inter> set (dkeys ws) = {}"
  shows "waves_ok g ordered \<and> set (dkeys ordered) = set remaining \<union> set (dkeys ws)"
  using assms
proof (induction "length remaining" arbitrary: remaining ws rule: less_induct)
  case less
  show ?case
  proof (cases "remaining = []")
    case False
    let ?ready = "ready_nodes g remaining ws"
    have ne: "?ready \<noteq> []" using less.prems(1) False by (auto simp: wave_rounds.simps Let_def split: if_splits)
    have sub: "set ?ready \<subseteq> set remaining" by (auto simp: set_ready_nodes)
    obtain ws' where ws': "assign_ready g ?ready ws ws = (ws', ws')" "waves_ok g ws'"
        "dkeys ws' = dkeys ws @ ?ready"
      using ready_round [OF less.prems(2-4)] by blast
    let ?rest = "filter (\<lambda>i. i \<notin> set ?ready) remaining"
    have run: "wave_rounds g ?rest ws' ws' = Inr ordered"
      using less.prems(1) False ne ws'(1) by (subst (asm) wave_rounds.simps) simp
    have shorter: "length ?rest < length remaining"
      using ne sub by (intro length_filter_less [of "hd ?ready"]) (auto dest: hd_in_set)
    have disjoint: "set ?rest \<inter> set (dkeys ws') = {}" using less.prems(4) ws'(3) by auto
    have "waves_ok g ordered \<and> set (dkeys ordered) = set ?rest \<union> set (dkeys ws')"
      using less.prems(3) by (intro less.hyps [OF shorter run ws'(2) _ disjoint]) simp
    with sub ws'(3) show ?thesis by auto
  qed (use less.prems in \<open>simp add: wave_rounds.simps\<close>)
qed

lemma waves_ok_Nil: "waves_ok g []"
  by (simp add: waves_ok_def dkeys_def topological_def)

lemma wave_order_result:
  "distinct (node_ids g) \<Longrightarrow> wave_order g = Inr ws \<Longrightarrow> waves_ok g ws \<and> set (dkeys ws) = set (node_ids g)"
  unfolding wave_order_def
  using wave_rounds_result [of g "node_ids g" "[]" ws] waves_ok_Nil by (simp add: dkeys_def)

lemma wave_rounds_total:
  assumes "acyclic (edges g)" "closed_graph g" "distinct (node_ids g)"
    and "waves_ok g ws" "distinct remaining" "set remaining \<inter> set (dkeys ws) = {}"
    and "set remaining \<union> set (dkeys ws) = set (node_ids g)"
  shows "\<exists>ordered. wave_rounds g remaining ws ws = Inr ordered"
  using assms(4-7)
proof (induction "length remaining" arbitrary: remaining ws rule: less_induct)
  case less
  show ?case
  proof (cases "remaining = []")
    case False
    let ?ready = "ready_nodes g remaining ws"
    have ne: "?ready \<noteq> []"
    proof
      assume "?ready = []"
      then have "set (node_ids g) \<subseteq> set (dkeys ws)"
        using less.prems(4) set_ready_nodes [of g remaining ws]
        by (intro acyclic_saturated [OF assms(1-3)]) auto
      with less.prems False show False by (cases remaining) auto
    qed
    have sub: "set ?ready \<subseteq> set remaining" by (auto simp: set_ready_nodes)
    obtain ws' where ws': "assign_ready g ?ready ws ws = (ws', ws')" "waves_ok g ws'"
        "dkeys ws' = dkeys ws @ ?ready"
      using ready_round [OF less.prems(1-3)] by blast
    let ?rest = "filter (\<lambda>i. i \<notin> set ?ready) remaining"
    have shorter: "length ?rest < length remaining"
      using ne sub by (intro length_filter_less [of "hd ?ready"]) (auto dest: hd_in_set)
    have "\<exists>ordered. wave_rounds g ?rest ws' ws' = Inr ordered"
      using less.prems sub ws'(2,3) by (intro less.hyps [OF shorter]) auto
    then show ?thesis using False ne ws'(1) by (subst wave_rounds.simps) simp
  qed (simp add: wave_rounds.simps)
qed

lemma wave_order_total:
  assumes "acyclic (edges g)" "closed_graph g" "distinct (node_ids g)"
  shows "\<exists>ws. wave_order g = Inr ws"
  unfolding wave_order_def
  by (rule wave_rounds_total [OF assms]) (simp_all add: waves_ok_Nil assms dkeys_def)

lemma wave_order_acyclic:
  assumes "distinct (node_ids g)" "wave_order g = Inr ws"
  shows "acyclic (edges g)"
  using wave_order_result [OF assms] topological_wf [of g "dkeys ws"]
  by (simp add: waves_ok_def wf_acyclic)

lemma node_wave_gt:
  "d \<in> set (deps_of g i) \<Longrightarrow> dget_or ws d 0 < node_wave g ws i"
  by (auto simp: node_wave_def less_Suc_eq_le)

end
