(* ===== verification/Query_Planner.thy ===== *)
theory Query_Planner
  imports Runtime_Domain Dependency_Graph "HOL-Library.Product_Lexorder"
begin

text \<open>
  \<open>planner.py\<close>: logical graphs, the exact lookup of concept bindings, the topological
  order, the application of bindings to an operation, and the capability-driven
  planner that pushes operations into source fragments, fuses chains over one
  source and assigns waves. The concept lookup and the optional \<open>fragment_supported\<close>
  callback of the constructor are arguments.
\<close>

section \<open>Logical graphs\<close>

record logical_node =
  ln_id :: string
  ln_operation :: operator_spec
  ln_dependencies :: "string list"
  ln_source_alias :: "string option"
  ln_concepts :: "string list"
  ln_estimated_rows :: "int option"
  ln_estimated_bytes :: "int option"
  ln_requires_spill :: bool

record logical_graph =
  lg_version :: plan_version
  lg_id :: string
  lg_nodes :: "logical_node list"
  lg_output_node_id :: string

definition graph_version_boundary :: "logical_graph \<Rightarrow> unit res" where
  "graph_version_boundary g =
     (if lg_version g = V0
      then raise_unless (\<forall>n \<in> set (lg_nodes g). \<not> is_v1 (ln_operation n)) ValueError
      else check_each (\<lambda>n. validate_operator_v1 (ln_operation n)) (lg_nodes g))"

section \<open>Concept bindings\<close>

type_synonym concept_binder = "string \<Rightarrow> bound_column res"

definition exact_bind :: "(string, bound_column list) dict \<Rightarrow> concept_binder" where
  "exact_bind bindings concept =
     (let candidates = dget_or bindings concept []
      in case candidates of
           [] \<Rightarrow> Inl (BindingFailure ''BINDING_MISSING'')
         | [c] \<Rightarrow> Inr c
         | _ \<Rightarrow> Inl (BindingFailure ''BINDING_AMBIGUOUS''))"

definition LOCAL_ONLY :: "operator_kind list" where
  "LOCAL_ONLY = [Op_PIVOT, Op_DERIVE, Op_PROJECT]"

section \<open>Topological order\<close>

definition logical_adjacency :: "logical_node list \<Rightarrow> adjacency" where
  "logical_adjacency nodes = map (\<lambda>n. (ln_id n, ln_dependencies n)) nodes"

definition unknown_dependencies :: "adjacency \<Rightarrow> string list" where
  "unknown_dependencies g =
     sort (dedupe (filter (\<lambda>d. d \<notin> set (node_ids g)) (concat (map snd g))))"

definition topological_order :: "logical_node list \<Rightarrow> logical_node list res" where
  "topological_order nodes =
     (let by_id = map (\<lambda>n. (ln_id n, n)) nodes; g = logical_adjacency nodes
      in rbind (raise_unless (distinct (node_ids g)) (PlanFailure ''PLAN_DUPLICATE_NODE'')) (\<lambda>_.
         rbind (raise_unless (unknown_dependencies g = []) (PlanFailure ''PLAN_MISSING_DEPENDENCY'')) (\<lambda>_.
         let ordered = kahn_order g
         in rbind (raise_unless (length ordered = length nodes) (PlanFailure ''PLAN_CYCLE'')) (\<lambda>_.
            Inr (map (\<lambda>i. the (dget by_id i)) ordered)))))"

section \<open>Applying bindings\<close>

type_synonym column_bindings = "(string, bound_column) dict"

definition column_bindings :: "bound_column list \<Rightarrow> column_bindings" where
  "column_bindings columns = fold (\<lambda>c d. dput (bc_concept c) c d) columns []"

definition bind_name :: "column_bindings \<Rightarrow> string \<Rightarrow> string" where
  "bind_name b v = (case dget b v of None \<Rightarrow> v | Some c \<Rightarrow> bc_column_name c)"

fun bind_expression :: "column_bindings \<Rightarrow> typed_expression \<Rightarrow> typed_expression res" where
  "bind_expression b (TypedExpression k t c v as) =
     (case (if k = E_COLUMN then Option.bind c (dget b) else None) of
        Some binding \<Rightarrow>
          if bc_data_type binding \<noteq> t then Inl (BindingFailure ''BINDING_TYPE_MISMATCH'')
          else Inr (TypedExpression k t (Some (bc_column_name binding)) v as)
      | None \<Rightarrow>
          if as = [] then Inr (TypedExpression k t c v as)
          else rbind (traverse (bind_expression b) as) (\<lambda>as'. Inr (TypedExpression k t c v as')))"

definition bind_optional :: "('a \<Rightarrow> 'a res) \<Rightarrow> 'a option \<Rightarrow> 'a option res" where
  "bind_optional f m = (case m of None \<Rightarrow> Inr None | Some x \<Rightarrow> rbind (f x) (\<lambda>y. Inr (Some y)))"

definition bind_predicate :: "column_bindings \<Rightarrow> bound_predicate \<Rightarrow> bound_predicate res" where
  "bind_predicate b p = rbind (bind_expression b (pred_expression p)) (\<lambda>e. Inr (BoundPredicate e))"

definition bind_aggregate :: "column_bindings \<Rightarrow> aggregate_spec \<Rightarrow> aggregate_spec res" where
  "bind_aggregate b a =
     rbind (bind_optional (bind_expression b) (agg_expression a)) (\<lambda>e. Inr (a\<lparr>agg_expression := e\<rparr>))"

definition bind_named :: "column_bindings \<Rightarrow> named_expression \<Rightarrow> named_expression res" where
  "bind_named b n = rbind (bind_expression b (ne_expression n)) (\<lambda>e. Inr (n\<lparr>ne_expression := e\<rparr>))"

definition bind_impute :: "column_bindings \<Rightarrow> impute_spec \<Rightarrow> impute_spec res" where
  "bind_impute b i =
     rbind (bind_expression b (imp_value i)) (\<lambda>e.
       Inr (i\<lparr>imp_column := bind_name b (imp_column i), imp_value := e\<rparr>))"

definition bind_extension :: "column_bindings \<Rightarrow> operator_ext \<Rightarrow> operator_ext res" where
  "bind_extension b x =
     rbind (bind_optional (bind_impute b) (ext_impute x)) (\<lambda>impute.
       Inr (x\<lparr>ext_partition_by := map (bind_name b) (ext_partition_by x),
              ext_window := map_option
                (\<lambda>w. w\<lparr>win_column := map_option (bind_name b) (win_column w)\<rparr>) (ext_window x),
              ext_date := map_option (\<lambda>d. d\<lparr>date_column := bind_name b (date_column d)\<rparr>) (ext_date x),
              ext_explode := map_option
                (\<lambda>e. e\<lparr>expl_column := bind_name b (expl_column e)\<rparr>) (ext_explode x),
              ext_impute := impute,
              ext_unpivot := map_option
                (\<lambda>u. u\<lparr>unp_columns := map (bind_name b) (unp_columns u)\<rparr>) (ext_unpivot x)\<rparr>))"

definition apply_bindings :: "operator_spec \<Rightarrow> bound_column list \<Rightarrow> operator_spec res" where
  "apply_bindings operation columns =
     (let b = column_bindings columns; name = bind_name b
      in rbind (bind_optional (bind_predicate b) (op_predicate operation)) (\<lambda>predicate.
         rbind (traverse (bind_aggregate b) (op_aggregates operation)) (\<lambda>aggregates.
         rbind (traverse (bind_named b) (op_expressions operation)) (\<lambda>expressions.
         rbind (bind_optional (bind_extension b) (op_ext operation)) (\<lambda>ext.
           Inr (operation
             \<lparr>op_columns := map name (op_columns operation),
              op_predicate := predicate,
              op_group_by := map name (op_group_by operation),
              op_aggregates := aggregates,
              op_expressions := expressions,
              op_sort := map (\<lambda>s. s\<lparr>sort_column := name (sort_column s)\<rparr>) (op_sort operation),
              op_join_keys := map (\<lambda>k. k\<lparr>jk_left := name (jk_left k), jk_right := name (jk_right k)\<rparr>)
                                (op_join_keys operation),
              op_pivot_index := map name (op_pivot_index operation),
              op_pivot_column := map_option name (op_pivot_column operation),
              op_pivot_value := map_option name (op_pivot_value operation),
              op_ext := ext\<rparr>))))))"

text \<open>The key of a column; a later column replaces an earlier one with the same key.\<close>

definition column_key :: "bound_column \<Rightarrow> string \<times> string \<times> string" where
  "column_key c = (bc_concept c, bc_source_alias c, bc_column_name c)"

definition deduplicate_columns :: "bound_column list \<Rightarrow> bound_column list" where
  "deduplicate_columns columns =
     (let unique = fold (\<lambda>c d. dput (column_key c) c d) columns []
      in map (\<lambda>k. the (dget unique k)) (sort (dkeys unique)))"

section \<open>The planner\<close>

definition supports :: "logical_node \<Rightarrow> capability_catalog \<Rightarrow> bool" where
  "supports logical capability =
     (let op = ln_operation logical
      in if op_kind op = Op_JOIN then False
         else if \<not> catalog_supports capability (op_kind op) then False
         else if op_kind op = Op_AGGREGATE
                 \<and> (\<exists>a \<in> set (op_aggregates op). agg_function a \<notin> set (cap_aggregate_functions capability))
         then False
         else if (case op_time_grain op of None \<Rightarrow> False | Some g \<Rightarrow> g \<notin> set (cap_time_grains capability))
         then False
         else if ln_requires_spill logical \<and> \<not> cap_spill_supported capability then False
         else if (case (ln_estimated_rows logical, cap_max_rows capability) of
                    (Some n, Some m) \<Rightarrow> m < n | _ \<Rightarrow> False)
         then False
         else \<not> (case (ln_estimated_bytes logical, cap_max_bytes capability) of
                    (Some n, Some m) \<Rightarrow> m < n | _ \<Rightarrow> False))"

record planner =
  pl_binder :: concept_binder
  pl_sources :: "(string, bound_source) dict"
  pl_capabilities :: "(string, capability_catalog) dict"
  pl_fragment_supported :: "(source_fragment \<Rightarrow> bool) option"

definition check_operation :: "plan_version \<Rightarrow> logical_node \<Rightarrow> unit res" where
  "check_operation v n =
     rbind (raise_unless (\<not> ((v = V1 \<or> is_v1 (ln_operation n))
                              \<and> \<not> is_ok (validate_operator_v1 (ln_operation n))))
                         (PlanFailure ''PLAN_OPERATOR_INVALID'')) (\<lambda>_.
       raise_unless (op_kind (ln_operation n) \<notin> set BLOCKED_OPERATOR_KINDS)
                    (PlanFailure ''OPERATOR_UNSUPPORTED''))"

definition bind_node :: "concept_binder \<Rightarrow> logical_node \<Rightarrow> (string \<times> bound_column list) res" where
  "bind_node concept_binder n =
     rbind (traverse concept_binder (ln_concepts n)) (\<lambda>bound.
       case ln_source_alias n of
         None \<Rightarrow> Inr (ln_id n, bound)
       | Some a \<Rightarrow>
           rbind (raise_unless (\<forall>c \<in> set bound. bc_source_alias c = a)
                    (BindingFailure ''BINDING_SOURCE_MISMATCH'')) (\<lambda>_.
             Inr (ln_id n, bound)))"

definition physical_id :: "string \<Rightarrow> string" where
  "physical_id i = ''physical-'' @ i"

text \<open>The constructor calls that validate: a fragment of v0 operations, a well-formed node.\<close>

definition new_fragment ::
  "bound_source \<Rightarrow> operator_spec list \<Rightarrow> bound_column list \<Rightarrow> source_fragment res" where
  "new_fragment source operations columns =
     (let f = \<lparr>frag_source = source, frag_operations = operations, frag_parameters = [],
               frag_bound_columns = columns\<rparr>
      in rbind (raise_unless (legacy_fragment f) ValueError) (\<lambda>_. Inr f))"

definition new_physical_node :: "physical_node \<Rightarrow> physical_node res" where
  "new_physical_node n = rbind (raise_unless (validate_payload n) ValueError) (\<lambda>_. Inr n)"

definition logical_ref :: "logical_node \<Rightarrow> operator_spec \<Rightarrow> logical_operation_ref" where
  "logical_ref logical operation =
     \<lparr>ref_logical_node_id = ln_id logical, ref_operation = op_kind operation\<rparr>"

definition alias_or_empty :: "logical_node \<Rightarrow> string" where
  "alias_or_empty n = (case ln_source_alias n of None \<Rightarrow> [] | Some a \<Rightarrow> a)"

text \<open>The predecessor an operation may be fused with: the only dependency, a source fragment.\<close>

definition fusion_predecessor ::
  "(string, physical_node) dict \<Rightarrow> string list \<Rightarrow> physical_node option" where
  "fusion_predecessor physical dependency_ids =
     (case dependency_ids of
        [d] \<Rightarrow> (case dget physical d of
                  Some p \<Rightarrow> if pn_kind p = SOURCE_FRAGMENT then Some p else None
                | None \<Rightarrow> None)
      | _ \<Rightarrow> None)"

text \<open>The fragment of the predecessor when \<open>can_fuse\<close> holds.\<close>

definition fusion_target ::
  "bound_source option \<Rightarrow> physical_node option \<Rightarrow> (physical_node \<times> source_fragment) option" where
  "fusion_target source predecessor =
     (case (source, predecessor) of
        (Some s, Some p) \<Rightarrow>
          (case pn_source_fragment p of
             Some f \<Rightarrow> if src_alias (frag_source f) = src_alias s then Some (p, f) else None
           | None \<Rightarrow> None)
      | _ \<Rightarrow> None)"

definition candidate_pushdown :: "planner \<Rightarrow> logical_node \<Rightarrow> operator_spec \<Rightarrow> bool" where
  "candidate_pushdown pl logical operation =
     (ln_source_alias logical \<noteq> None
      \<and> op_kind operation \<notin> set LOCAL_ONLY
      \<and> \<not> is_v1 operation
      \<and> (case dget (pl_capabilities pl) (alias_or_empty logical) of
           None \<Rightarrow> False | Some capability \<Rightarrow> supports logical capability))"

text \<open>The callback is asked about the whole fragment the operation would end.\<close>

definition callback_accepts ::
  "planner \<Rightarrow> bound_source option \<Rightarrow> (physical_node \<times> source_fragment) option
     \<Rightarrow> operator_spec \<Rightarrow> bool res" where
  "callback_accepts pl source fuse operation =
     (case (source, pl_fragment_supported pl) of
        (Some s, Some supported) \<Rightarrow>
          rbind (new_fragment s ((case fuse of None \<Rightarrow> [] | Some (p, f) \<Rightarrow> frag_operations f) @ [operation]) [])
            (\<lambda>fragment. Inr (supported fragment))
      | _ \<Rightarrow> Inr True)"

definition fragment_node ::
  "logical_node \<Rightarrow> operator_spec \<Rightarrow> bound_column list \<Rightarrow> string list \<Rightarrow> bound_source option
     \<Rightarrow> (physical_node \<times> source_fragment) option \<Rightarrow> physical_node res" where
  "fragment_node logical operation bound dependency_ids source fuse =
     rbind (from_option (PlanFailure ''PLAN_SOURCE_MISSING'') source) (\<lambda>s.
       case fuse of
         Some (p, f) \<Rightarrow>
           rbind (new_fragment s (frag_operations f @ [operation])
                    (deduplicate_columns (frag_bound_columns f @ bound))) (\<lambda>fragment.
             new_physical_node
               \<lparr>pn_id = physical_id (ln_id logical), pn_kind = SOURCE_FRAGMENT,
                pn_operation = op_kind operation, pn_dependencies = pn_dependencies p, pn_wave = 0,
                pn_logical_node_ids = pn_logical_node_ids p @ [ln_id logical],
                pn_logical_operations = pn_logical_operations p @ [logical_ref logical operation],
                pn_source_fragment = Some fragment, pn_operator = None\<rparr>)
       | None \<Rightarrow>
           rbind (new_fragment s [operation] bound) (\<lambda>fragment.
             new_physical_node
               \<lparr>pn_id = physical_id (ln_id logical), pn_kind = SOURCE_FRAGMENT,
                pn_operation = op_kind operation, pn_dependencies = dependency_ids, pn_wave = 0,
                pn_logical_node_ids = [ln_id logical],
                pn_logical_operations = [logical_ref logical operation],
                pn_source_fragment = Some fragment, pn_operator = None\<rparr>))"

definition operator_node :: "logical_node \<Rightarrow> operator_spec \<Rightarrow> string list \<Rightarrow> physical_node res" where
  "operator_node logical operation dependency_ids =
     rbind (raise_unless (dependency_ids \<noteq> []) (PlanFailure ''PLAN_ROOT_LOCAL_UNSUPPORTED'')) (\<lambda>_.
       new_physical_node
         \<lparr>pn_id = physical_id (ln_id logical), pn_kind = OPERATOR,
          pn_operation = op_kind operation, pn_dependencies = dependency_ids, pn_wave = 0,
          pn_logical_node_ids = [ln_id logical],
          pn_logical_operations = [logical_ref logical operation],
          pn_source_fragment = None, pn_operator = Some operation\<rparr>)"

record planning =
  pg_physical :: "(string, physical_node) dict"
  pg_mapping :: "(string, string) dict"

text \<open>One turn of the loop over the ordered logical nodes.\<close>

definition plan_node ::
  "planner \<Rightarrow> (string \<times> bound_column list) list \<Rightarrow> logical_node \<Rightarrow> planning \<Rightarrow> planning res" where
  "plan_node pl bindings logical st =
     rbind (from_option KeyError (dget bindings (ln_id logical))) (\<lambda>bound.
     rbind (apply_bindings (ln_operation logical) bound) (\<lambda>operation.
     rbind (traverse (\<lambda>d. from_option KeyError (dget (pg_mapping st) d)) (ln_dependencies logical)) (\<lambda>mapped.
     let dependency_ids = dedupe mapped;
         source = dget (pl_sources pl) (alias_or_empty logical);
         fuse = fusion_target source (fusion_predecessor (pg_physical st) dependency_ids);
         candidate = candidate_pushdown pl logical operation \<and> (dependency_ids = [] \<or> fuse \<noteq> None)
     in rbind (if candidate then callback_accepts pl source fuse operation else Inr False) (\<lambda>pushdown.
        rbind (if pushdown
               then fragment_node logical operation bound dependency_ids source fuse
               else operator_node logical operation dependency_ids) (\<lambda>node.
          Inr (st\<lparr>pg_physical := dput (physical_id (ln_id logical)) node (pg_physical st),
                  pg_mapping := dput (ln_id logical) (physical_id (ln_id logical)) (pg_mapping st)\<rparr>))))))"

fun plan_all ::
  "planner \<Rightarrow> (string \<times> bound_column list) list \<Rightarrow> logical_node list \<Rightarrow> planning \<Rightarrow> planning res" where
  "plan_all pl bindings [] st = Inr st"
| "plan_all pl bindings (n # ns) st = rbind (plan_node pl bindings n st) (plan_all pl bindings ns)"

definition physical_adjacency :: "physical_node list \<Rightarrow> adjacency" where
  "physical_adjacency nodes = map (\<lambda>n. (pn_id n, pn_dependencies n)) nodes"

definition reachable :: "string \<Rightarrow> physical_node list \<Rightarrow> string list res" where
  "reachable output_id nodes = reachable_from output_id (physical_adjacency nodes)"

definition assign_waves :: "physical_node list \<Rightarrow> physical_node list res" where
  "assign_waves nodes =
     (let by_id = map (\<lambda>n. (pn_id n, n)) nodes
      in rbind (wave_order (physical_adjacency nodes)) (\<lambda>ordered.
           Inr (map (\<lambda>(i, w). (the (dget by_id i))\<lparr>pn_wave := int w\<rparr>) ordered)))"

definition plan :: "planner \<Rightarrow> logical_graph \<Rightarrow> physical_plan res" where
  "plan pl graph =
     rbind (topological_order (lg_nodes graph)) (\<lambda>ordered.
     rbind (check_each (check_operation (lg_version graph)) ordered) (\<lambda>_.
     rbind (traverse (bind_node (pl_binder pl)) ordered) (\<lambda>bindings.
     rbind (plan_all pl bindings ordered \<lparr>pg_physical = [], pg_mapping = []\<rparr>) (\<lambda>st.
     rbind (from_option (PlanFailure ''PLAN_OUTPUT_MISSING'')
              (dget (pg_mapping st) (lg_output_node_id graph))) (\<lambda>output_id.
     rbind (reachable output_id (map snd (pg_physical st))) (\<lambda>needed.
     rbind (assign_waves (map snd (filter (\<lambda>(i, n). i \<in> set needed) (pg_physical st)))) (\<lambda>planned.
     let p = \<lparr>plan_version = lg_version graph, plan_id = physical_id (lg_id graph),
              plan_nodes = planned, plan_output_node_id = output_id\<rparr>
     in rbind (raise_unless (plan_version_boundary p) ValueError) (\<lambda>_. Inr p))))))))"

end
