(* ===== verification/Plan_Validation.thy ===== *)
theory Plan_Validation
  imports Query_Planner
begin

text \<open>
  \<open>validate_physical_plan\<close> of \<open>coordinator.py\<close>, the gate every plan passes
  before a run starts, with \<open>operator_input_count\<close> of \<open>operators.py\<close>; the
  invariants of the planner's loop; and the agreement of the two: what the
  planner produces passes the gate unless an operator has the wrong number of
  inputs.
\<close>

section \<open>The gate\<close>

definition SET_OPERATORS :: "operator_kind list" where
  "SET_OPERATORS = [Op_UNION_ALL, Op_UNION_DISTINCT, Op_INTERSECT, Op_EXCEPT]"

definition operator_input_count :: "operator_kind \<Rightarrow> nat" where
  "operator_input_count k = (if k \<in> set SET_OPERATORS \<union> {Op_JOIN} then 2 else 1)"

definition plan_operations :: "physical_node \<Rightarrow> operator_spec list" where
  "plan_operations n =
     (case pn_source_fragment n of
        Some f \<Rightarrow> frag_operations f
      | None \<Rightarrow> (case pn_operator n of Some op \<Rightarrow> [op] | None \<Rightarrow> []))"

definition carries_v1 :: "physical_node \<Rightarrow> bool" where
  "carries_v1 n = (case pn_operator n of None \<Rightarrow> False | Some op \<Rightarrow> is_v1 op)"

definition check_dependency :: "(string, physical_node) dict \<Rightarrow> physical_node \<Rightarrow> string \<Rightarrow> unit res" where
  "check_dependency by_id n d =
     (case dget by_id d of
        None \<Rightarrow> Inl (PlanFailure ''PLAN_MISSING_DEPENDENCY'')
      | Some m \<Rightarrow> raise_unless (pn_wave m < pn_wave n) (PlanFailure ''PLAN_WAVE_INVALID''))"

definition check_plan_node ::
  "plan_version \<Rightarrow> (string, physical_node) dict \<Rightarrow> physical_node \<Rightarrow> unit res" where
  "check_plan_node v by_id n =
     rbind (raise_unless (\<not> ((v = V1 \<or> carries_v1 n)
                              \<and> (\<exists>op \<in> set (plan_operations n). \<not> is_ok (validate_operator_v1 op))))
              (PlanFailure ''PLAN_OPERATOR_INVALID'')) (\<lambda>_.
     rbind (raise_unless (pn_operation n \<notin> set BLOCKED_OPERATOR_KINDS)
              (PlanFailure ''OPERATOR_UNSUPPORTED'')) (\<lambda>_.
     rbind (raise_unless (\<not> (pn_kind n = SOURCE_FRAGMENT \<and> pn_dependencies n \<noteq> []))
              (PlanFailure ''PLAN_SOURCE_FRAGMENT_INPUT'')) (\<lambda>_.
     rbind (raise_unless (pn_kind n = OPERATOR \<longrightarrow>
                            length (pn_dependencies n) = operator_input_count (pn_operation n))
              (PlanFailure ''PLAN_OPERATOR_INPUT_COUNT'')) (\<lambda>_.
       check_each (check_dependency by_id n) (pn_dependencies n)))))"

definition validate_physical_plan :: "physical_plan \<Rightarrow> unit res" where
  "validate_physical_plan p =
     (let nodes = plan_nodes p; by_id = map (\<lambda>n. (pn_id n, n)) nodes; g = physical_adjacency nodes
      in rbind (raise_unless (distinct (node_ids g)) (PlanFailure ''PLAN_DUPLICATE_NODE'')) (\<lambda>_.
         rbind (raise_unless (plan_output_node_id p \<in> set (node_ids g))
                  (PlanFailure ''PLAN_OUTPUT_MISSING'')) (\<lambda>_.
         rbind (check_each (check_plan_node (plan_version p) by_id) nodes) (\<lambda>_.
         rbind (reachable_from (plan_output_node_id p) g) (\<lambda>needed.
         rbind (raise_unless (set (node_ids g) \<subseteq> set needed)
                  (PlanFailure ''PLAN_UNREACHABLE_NODE'')) (\<lambda>_.
           raise_unless (length (kahn_order g) = length nodes) (PlanFailure ''PLAN_CYCLE'')))))))"

section \<open>Adjacency of node lists\<close>

lemma node_ids_physical [simp]: "node_ids (physical_adjacency nodes) = map pn_id nodes"
  by (simp add: node_ids_def physical_adjacency_def comp_def)

lemma node_ids_logical [simp]: "node_ids (logical_adjacency nodes) = map ln_id nodes"
  by (simp add: node_ids_def logical_adjacency_def comp_def)

lemma dget_keyed:
  "distinct (map f nodes) \<Longrightarrow> n \<in> set nodes \<Longrightarrow> dget (map (\<lambda>n. (f n, n)) nodes) (f n) = Some n"
  by (rule map_of_is_SomeI) (auto simp: comp_def)

lemma dget_keyed_Some:
  "dget (map (\<lambda>n. (f n, n)) nodes) i = Some n \<Longrightarrow> n \<in> set nodes \<and> f n = i"
  by (auto dest: map_of_SomeD)

lemma dget_keyed_None: "dget (map (\<lambda>n. (f n, n)) nodes) i = None \<longleftrightarrow> i \<notin> f ` set nodes"
  by (auto simp: map_of_eq_None_iff image_iff)

lemma deps_of_physical:
  "distinct (map pn_id nodes) \<Longrightarrow> n \<in> set nodes \<Longrightarrow>
     deps_of (physical_adjacency nodes) (pn_id n) = pn_dependencies n"
  by (rule deps_of_member) (auto simp: physical_adjacency_def node_ids_def comp_def)

lemma deps_of_logical:
  "distinct (map ln_id nodes) \<Longrightarrow> n \<in> set nodes \<Longrightarrow>
     deps_of (logical_adjacency nodes) (ln_id n) = ln_dependencies n"
  by (rule deps_of_member) (auto simp: logical_adjacency_def node_ids_def comp_def)

lemma closed_physical:
  "closed_graph (physical_adjacency nodes) \<longleftrightarrow>
     (\<forall>n \<in> set nodes. set (pn_dependencies n) \<subseteq> pn_id ` set nodes)"
  by (auto simp: closed_graph_def) (auto simp: physical_adjacency_def)

lemma closed_logical:
  "closed_graph (logical_adjacency nodes) \<longleftrightarrow>
     (\<forall>n \<in> set nodes. set (ln_dependencies n) \<subseteq> ln_id ` set nodes)"
  by (auto simp: closed_graph_def) (auto simp: logical_adjacency_def)

lemma unknown_dependencies_closed: "unknown_dependencies g = [] \<longleftrightarrow> closed_graph g"
proof -
  have "unknown_dependencies g = [] \<longleftrightarrow> set (unknown_dependencies g) = {}" by simp
  also have "set (unknown_dependencies g) = (\<Union>p \<in> set g. set (snd p)) - set (node_ids g)"
    by (auto simp: unknown_dependencies_def)
  also have "\<dots> = {} \<longleftrightarrow> closed_graph g" by (auto simp: closed_graph_def split_def)
  finally show ?thesis .
qed

section \<open>The topological order\<close>

lemma kahn_order_length_le:
  "distinct (node_ids g) \<Longrightarrow> length (kahn_order g) \<le> length g"
  using kahn_order_props(1,2) [of g]
  by (metis card_mono distinct_card finite_set length_map node_ids_def)

lemma topological_order_ok:
  assumes "topological_order nodes = Inr xs"
  shows "distinct (map ln_id nodes)" "closed_graph (logical_adjacency nodes)"
    "map ln_id xs = kahn_order (logical_adjacency nodes)" "distinct (map ln_id xs)"
    "set xs = set nodes" "topological (logical_adjacency nodes) (map ln_id xs)"
    "acyclic (edges (logical_adjacency nodes))"
proof -
  let ?g = "logical_adjacency nodes" let ?by_id = "map (\<lambda>n. (ln_id n, n)) nodes"
  have d: "distinct (map ln_id nodes)" and c: "closed_graph ?g"
    and len: "length (kahn_order ?g) = length nodes"
    and xs: "xs = map (\<lambda>i. the (dget ?by_id i)) (kahn_order ?g)"
    using assms by (auto simp: topological_order_def Let_def unknown_dependencies_closed)
  have dn: "distinct (node_ids ?g)" using d by simp
  have lg: "length ?g = length nodes" by (simp add: logical_adjacency_def)
  have all: "set (kahn_order ?g) = ln_id ` set nodes"
    using kahn_order_complete_iff [OF dn] len lg by simp
  have found: "\<exists>n \<in> set nodes. ln_id n = i \<and> the (dget ?by_id i) = n" if "i \<in> set (kahn_order ?g)" for i
    using that all dget_keyed [OF d] by fastforce
  then show ids: "map ln_id xs = kahn_order ?g"
    unfolding xs by (induction "kahn_order ?g") (auto simp: map_idI)
  have sub: "set xs \<subseteq> set nodes" using found by (auto simp: xs)
  have "ln_id ` set xs = ln_id ` set nodes" using all ids by (metis image_set)
  with sub d show "set xs = set nodes"
    by (metis (no_types, lifting) distinct_map inj_on_image_eq_iff order_refl)
  show "distinct (map ln_id nodes)" "closed_graph ?g" by fact+
  show "distinct (map ln_id xs)" "topological ?g (map ln_id xs)"
    using kahn_order_props(1,3) [OF dn] ids by simp_all
  show "acyclic (edges ?g)" using kahn_order_acyclic_iff [OF dn c] len lg by simp
qed

text \<open>The order of the reported errors.\<close>

lemma topological_order_total:
  "distinct (map ln_id nodes) \<Longrightarrow> closed_graph (logical_adjacency nodes) \<Longrightarrow>
   acyclic (edges (logical_adjacency nodes)) \<Longrightarrow> \<exists>xs. topological_order nodes = Inr xs"
  using kahn_order_acyclic_iff [of "logical_adjacency nodes"]
  by (simp add: topological_order_def Let_def unknown_dependencies_closed raise_unless_def)
    (simp add: logical_adjacency_def)

section \<open>Binding keeps the shape of an operation\<close>

lemma bind_optional_ok:
  "bind_optional f m = Inr m' \<Longrightarrow> (m' = None \<longleftrightarrow> m = None)"
  by (auto simp: bind_optional_def split: option.splits)

lemma apply_bindings_kind [simp]:
  "apply_bindings op columns = Inr op' \<Longrightarrow> op_kind op' = op_kind op"
  by (simp only: apply_bindings_def Let_def rbind_eq_Inr sum.inject, elim exE conjE, hypsubst, simp)

lemma apply_bindings_ext:
  "apply_bindings op columns = Inr op' \<Longrightarrow>
     bind_optional (bind_extension (column_bindings columns)) (op_ext op) = Inr (op_ext op')"
  by (simp only: apply_bindings_def Let_def rbind_eq_Inr sum.inject, elim exE conjE, hypsubst, simp)

lemma apply_bindings_v1:
  "apply_bindings op columns = Inr op' \<Longrightarrow> is_v1 op' = is_v1 op"
  using bind_optional_ok [OF apply_bindings_ext] by (simp add: is_v1_def)

section \<open>The planner's loop\<close>

text \<open>What the physical node made for a logical node looks like.\<close>

definition node_spec :: "logical_node \<Rightarrow> physical_node \<Rightarrow> bool" where
  "node_spec l n \<longleftrightarrow>
     pn_id n = physical_id (ln_id l) \<and> pn_operation n = op_kind (ln_operation l)
     \<and> validate_payload n \<and> last (pn_logical_node_ids n) = ln_id l
     \<and> (if pn_kind n = SOURCE_FRAGMENT then pn_dependencies n = []
        else pn_dependencies n = dedupe (map physical_id (ln_dependencies l)))"

definition planning_inv :: "logical_node list \<Rightarrow> planning \<Rightarrow> bool" where
  "planning_inv prev st \<longleftrightarrow>
     pg_mapping st = map (\<lambda>l. (ln_id l, physical_id (ln_id l))) prev
     \<and> list_all2 (\<lambda>l (i, n). i = physical_id (ln_id l) \<and> node_spec l n) prev (pg_physical st)"

lemma physical_id_inj [simp]: "physical_id i = physical_id j \<longleftrightarrow> i = j"
  by (simp add: physical_id_def)

lemma planning_inv_keys:
  "planning_inv prev st \<Longrightarrow> map fst (pg_physical st) = map (\<lambda>l. physical_id (ln_id l)) prev"
proof -
  assume "planning_inv prev st"
  then have "list_all2 (\<lambda>l (i, n). i = physical_id (ln_id l) \<and> node_spec l n) prev (pg_physical st)"
    by (simp add: planning_inv_def)
  then show ?thesis by induction auto
qed

lemma planning_inv_node:
  assumes "planning_inv prev st" "(i, n) \<in> set (pg_physical st)"
  shows "\<exists>l \<in> set prev. i = physical_id (ln_id l) \<and> node_spec l n"
proof -
  have "list_all2 (\<lambda>l (i, n). i = physical_id (ln_id l) \<and> node_spec l n) prev (pg_physical st)"
    using assms(1) by (simp add: planning_inv_def)
  then show ?thesis using assms(2) by induction auto
qed

lemma planning_inv_mapping:
  "planning_inv prev st \<Longrightarrow> dget (pg_mapping st) i = Some j \<Longrightarrow> j = physical_id i \<and> i \<in> ln_id ` set prev"
  by (auto simp: planning_inv_def dest!: map_of_SomeD)

lemma mapped_dependencies:
  assumes "planning_inv prev st"
    and "traverse (\<lambda>d. from_option KeyError (dget (pg_mapping st) d)) deps = Inr mapped"
  shows "mapped = map physical_id deps \<and> set deps \<subseteq> ln_id ` set prev"
  using assms(2)
  by (induction deps arbitrary: mapped) (auto dest!: planning_inv_mapping [OF assms(1)])

lemma new_fragment_ok [simp]:
  "new_fragment s ops cs = Inr f \<longleftrightarrow>
     f = \<lparr>frag_source = s, frag_operations = ops, frag_parameters = [], frag_bound_columns = cs\<rparr>
     \<and> (\<forall>op \<in> set ops. \<not> is_v1 op)"
  by (auto simp: new_fragment_def Let_def legacy_fragment_def)

lemma new_physical_node_ok [simp]: "new_physical_node n = Inr m \<longleftrightarrow> m = n \<and> validate_payload n"
  by (auto simp: new_physical_node_def)

lemma fusion_target_Some:
  assumes "fusion_target source (fusion_predecessor physical deps) = Some (p, f)"
  shows "\<exists>d s. deps = [d] \<and> dget physical d = Some p \<and> pn_kind p = SOURCE_FRAGMENT
           \<and> pn_source_fragment p = Some f \<and> source = Some s \<and> src_alias (frag_source f) = src_alias s"
  using assms
  by (auto simp: fusion_target_def fusion_predecessor_def split: option.splits list.splits if_splits)

text \<open>The two outcomes of one turn.\<close>

lemma plan_node_cases:
  assumes "plan_node pl bindings l st = Inr st'"
  obtains bound operation mapped node where
    "dget bindings (ln_id l) = Some bound" "apply_bindings (ln_operation l) bound = Inr operation"
    "traverse (\<lambda>d. from_option KeyError (dget (pg_mapping st) d)) (ln_dependencies l) = Inr mapped"
    "st' = st\<lparr>pg_physical := dput (physical_id (ln_id l)) node (pg_physical st),
             pg_mapping := dput (ln_id l) (physical_id (ln_id l)) (pg_mapping st)\<rparr>"
    "operator_node l operation (dedupe mapped) = Inr node
     \<or> (\<exists>source fuse. source = dget (pl_sources pl) (alias_or_empty l)
          \<and> fuse = fusion_target source (fusion_predecessor (pg_physical st) (dedupe mapped))
          \<and> candidate_pushdown pl l operation \<and> (dedupe mapped = [] \<or> fuse \<noteq> None)
          \<and> fragment_node l operation bound (dedupe mapped) source fuse = Inr node)"
  using assms by (fastforce simp: plan_node_def Let_def split: if_splits)

lemma operator_node_spec:
  assumes "operator_node l operation deps = Inr n"
  shows "n = \<lparr>pn_id = physical_id (ln_id l), pn_kind = OPERATOR, pn_operation = op_kind operation,
      pn_dependencies = deps, pn_wave = 0, pn_logical_node_ids = [ln_id l],
      pn_logical_operations = [logical_ref l operation], pn_source_fragment = None,
      pn_operator = Some operation\<rparr> \<and> deps \<noteq> [] \<and> validate_payload n"
  using assms by (auto simp: operator_node_def)

lemma fragment_node_spec:
  assumes "fragment_node l operation bound deps source fuse = Inr n"
    and "deps = [] \<or> fuse \<noteq> None"
  shows "pn_id n = physical_id (ln_id l)" "pn_kind n = SOURCE_FRAGMENT"
    "pn_operation n = op_kind operation" "validate_payload n"
    "pn_dependencies n = (case fuse of None \<Rightarrow> [] | Some (p, f) \<Rightarrow> pn_dependencies p)"
    "pn_logical_node_ids n = (case fuse of None \<Rightarrow> [] | Some (p, f) \<Rightarrow> pn_logical_node_ids p) @ [ln_id l]"
    "\<exists>s f'. source = Some s \<and> pn_source_fragment n = Some f' \<and> frag_source f' = s
       \<and> frag_operations f' = (case fuse of None \<Rightarrow> [] | Some (p, f) \<Rightarrow> frag_operations f) @ [operation]"
  using assms by (cases fuse; auto simp: fragment_node_def)+

lemma plan_node_spec:
  assumes inv: "planning_inv prev st" and step: "plan_node pl bindings l st = Inr st'"
    and fresh: "ln_id l \<notin> ln_id ` set prev"
  shows "planning_inv (prev @ [l]) st'"
proof -
  obtain bound operation mapped node where
    op: "apply_bindings (ln_operation l) bound = Inr operation"
    and mapped: "traverse (\<lambda>d. from_option KeyError (dget (pg_mapping st) d)) (ln_dependencies l) = Inr mapped"
    and st': "st' = st\<lparr>pg_physical := dput (physical_id (ln_id l)) node (pg_physical st),
             pg_mapping := dput (ln_id l) (physical_id (ln_id l)) (pg_mapping st)\<rparr>"
    and node: "operator_node l operation (dedupe mapped) = Inr node
     \<or> (\<exists>source fuse. source = dget (pl_sources pl) (alias_or_empty l)
          \<and> fuse = fusion_target source (fusion_predecessor (pg_physical st) (dedupe mapped))
          \<and> candidate_pushdown pl l operation \<and> (dedupe mapped = [] \<or> fuse \<noteq> None)
          \<and> fragment_node l operation bound (dedupe mapped) source fuse = Inr node)"
    using step by (rule plan_node_cases)
  have deps: "mapped = map physical_id (ln_dependencies l)" using mapped_dependencies [OF inv mapped] by simp
  have kind: "op_kind operation = op_kind (ln_operation l)" using op by simp
  have "node_spec l node"
    using node
  proof
    assume "operator_node l operation (dedupe mapped) = Inr node"
    from operator_node_spec [OF this] show ?thesis
      by (elim conjE) (simp add: node_spec_def kind deps)
  next
    assume "\<exists>source fuse. source = dget (pl_sources pl) (alias_or_empty l)
          \<and> fuse = fusion_target source (fusion_predecessor (pg_physical st) (dedupe mapped))
          \<and> candidate_pushdown pl l operation \<and> (dedupe mapped = [] \<or> fuse \<noteq> None)
          \<and> fragment_node l operation bound (dedupe mapped) source fuse = Inr node"
    then obtain source fuse where
      fuse: "fuse = fusion_target source (fusion_predecessor (pg_physical st) (dedupe mapped))"
      and ready: "dedupe mapped = [] \<or> fuse \<noteq> None"
      and made: "fragment_node l operation bound (dedupe mapped) source fuse = Inr node" by blast
    have "pn_dependencies p = []" if "fuse = Some (p, f)" for p f
      using fusion_target_Some [of source "pg_physical st" "dedupe mapped" p f] that fuse
        planning_inv_node [OF inv] map_of_SomeD by (fastforce simp: node_spec_def)
    with fragment_node_spec(1-6) [OF made ready] show ?thesis
      by (cases fuse) (auto simp: node_spec_def kind)
  qed
  moreover have "physical_id (ln_id l) \<notin> set (dkeys (pg_physical st))"
    using fresh planning_inv_keys [OF inv] by (auto simp: dkeys_def)
  moreover have "ln_id l \<notin> set (dkeys (pg_mapping st))"
    using fresh inv by (auto simp: planning_inv_def dkeys_def)
  ultimately show ?thesis
    using inv by (auto simp: planning_inv_def st' dput_fresh intro: list_all2_appendI)
qed

lemma plan_all_spec:
  "planning_inv prev st \<Longrightarrow> plan_all pl bindings ls st = Inr st' \<Longrightarrow> distinct (map ln_id (prev @ ls)) \<Longrightarrow>
     planning_inv (prev @ ls) st'"
proof (induction ls arbitrary: prev st)
  case (Cons l ls)
  then obtain st1 where "plan_node pl bindings l st = Inr st1" "plan_all pl bindings ls st1 = Inr st'" by auto
  with Cons plan_node_spec [OF Cons.prems(1), of pl bindings l st1] Cons.IH [of "prev @ [l]" st1]
  show ?case by auto
qed simp

lemma planning_inv_start: "planning_inv [] \<lparr>pg_physical = [], pg_mapping = []\<rparr>"
  by (simp add: planning_inv_def)

section \<open>The physical graph\<close>

lemma topological_subset_ids:
  "topological g xs \<Longrightarrow> x \<in> set xs \<Longrightarrow> set (deps_of g x) \<subseteq> set xs"
proof
  fix d assume t: "topological g xs" "x \<in> set xs" and d: "d \<in> set (deps_of g x)"
  then obtain k where k: "k < length xs" "x = xs ! k" by (auto simp: in_set_conv_nth)
  with t(1) have "set (deps_of g (xs ! k)) \<subseteq> set (take k xs)" by (simp add: topological_def)
  with d k(2) show "d \<in> set xs" using in_set_takeD by fast
qed

lemma planned_topological:
  assumes inv: "planning_inv ordered st" and t: "topological (logical_adjacency nodes) (map ln_id ordered)"
    and d: "distinct (map ln_id nodes)" "set ordered \<subseteq> set nodes" "distinct (map ln_id ordered)"
  shows "topological (physical_adjacency (map snd (pg_physical st))) (map pn_id (map snd (pg_physical st)))"
proof -
  have l2: "list_all2 (\<lambda>l (i, n). i = physical_id (ln_id l) \<and> node_spec l n) ordered (pg_physical st)"
    using inv by (simp add: planning_inv_def)
  let ?ns = "map snd (pg_physical st)"
  have len: "length (pg_physical st) = length ordered" using l2 by (simp add: list_all2_lengthD)
  have spec: "node_spec (ordered ! k) (?ns ! k)" if "k < length ordered" for k
    using list_all2_nthD [OF l2 that] that len by (simp add: split_def)
  have ids: "map pn_id ?ns = map (\<lambda>l. physical_id (ln_id l)) ordered"
    by (rule nth_equalityI) (use spec len in \<open>auto simp: node_spec_def\<close>)
  have dp: "distinct (map pn_id ?ns)" using d(3) unfolding ids by (auto simp: distinct_map inj_on_def)
  show ?thesis
    unfolding topological_def
  proof (intro allI impI)
    fix k assume "k < length (map pn_id ?ns)"
    then have k: "k < length ordered" "k < length ?ns" using len by simp_all
    have "deps_of (physical_adjacency ?ns) (map pn_id ?ns ! k) = pn_dependencies (?ns ! k)"
      using deps_of_physical [OF dp nth_mem [OF k(2)]] k(2) by simp
    also have "set \<dots> \<subseteq> physical_id ` set (ln_dependencies (ordered ! k))"
      using spec [OF k(1)] by (auto simp: node_spec_def split: if_splits)
    also have "ln_dependencies (ordered ! k) = deps_of (logical_adjacency nodes) (map ln_id ordered ! k)"
      using deps_of_logical [OF d(1), of "ordered ! k"] d(2) k(1) nth_mem by force
    also have "set \<dots> \<subseteq> set (take k (map ln_id ordered))"
      using t k(1) by (simp add: topological_def)
    finally show "set (deps_of (physical_adjacency ?ns) (map pn_id ?ns ! k)) \<subseteq> set (take k (map pn_id ?ns))"
      unfolding ids by (auto simp: take_map)
  qed
qed

lemma topological_restrict:
  assumes "distinct (map pn_id ns)" "topological (physical_adjacency ns) (map pn_id ns)"
  shows "closed_graph (physical_adjacency ns)" "acyclic (edges (physical_adjacency ns))"
proof -
  show "closed_graph (physical_adjacency ns)"
    unfolding closed_physical
    using topological_subset_ids [OF assms(2)] deps_of_physical [OF assms(1)] by force
  show "acyclic (edges (physical_adjacency ns))"
    using topological_wf [OF assms(2)] by (simp add: wf_acyclic)
qed

lemma edges_physical:
  "distinct (map pn_id ns) \<Longrightarrow>
     (d, i) \<in> edges (physical_adjacency ns) \<longleftrightarrow> (\<exists>n \<in> set ns. pn_id n = i \<and> d \<in> set (pn_dependencies n))"
  by (auto simp: edges_def deps_of_physical)

lemma restrict_closed:
  assumes d: "distinct (map pn_id ns)" and c: "closed_graph (physical_adjacency ns)"
    and o: "out \<in> pn_id ` set ns"
    and R: "set R = {i. (i, out) \<in> (edges (physical_adjacency ns))\<^sup>*}"
    and ns': "ns' = filter (\<lambda>n. pn_id n \<in> set R) ns"
  shows "closed_graph (physical_adjacency ns')"
    and "edges (physical_adjacency ns') \<subseteq> edges (physical_adjacency ns)"
    and "pn_id ` set ns' = set R"
    and "i \<in> set R \<Longrightarrow> (i, out) \<in> (edges (physical_adjacency ns'))\<^sup>*"
proof -
  let ?E = "edges (physical_adjacency ns)" and ?E' = "edges (physical_adjacency ns')"
  have d': "distinct (map pn_id ns')" using d by (simp add: ns' distinct_map_filter)
  have closed: "d \<in> set R" if "n \<in> set ns" "pn_id n \<in> set R" "d \<in> set (pn_dependencies n)" for d n
    using that R edges_physical [OF d, of d "pn_id n"] by (auto intro: converse_rtrancl_into_rtrancl)
  have known: "i \<in> pn_id ` set ns" if "(i, out) \<in> ?E\<^sup>*" for i
    using that o c
    by (induction rule: converse_rtrancl_induct) (auto simp: edges_physical [OF d] closed_physical)
  have m: "n \<in> set ns' \<longleftrightarrow> n \<in> set ns \<and> pn_id n \<in> set R" for n by (simp add: ns')
  show sub: "?E' \<subseteq> ?E" by (clarsimp simp: edges_physical [OF d] edges_physical [OF d'] m) blast
  have "i \<in> pn_id ` set ns'" if "i \<in> set R" for i
  proof -
    have "(i, out) \<in> ?E\<^sup>*" using that R by simp
    from known [OF this] obtain n where "n \<in> set ns" "i = pn_id n" by blast
    with that show ?thesis using m by blast
  qed
  then show ids: "pn_id ` set ns' = set R" using m by blast
  show "closed_graph (physical_adjacency ns')"
    unfolding closed_physical ids using closed by (auto simp: m)
  show "(i, out) \<in> ?E'\<^sup>*" if "i \<in> set R"
  proof -
    have "(i, out) \<in> ?E\<^sup>*" using that R by simp
    then show ?thesis
    proof (induction rule: converse_rtrancl_induct)
      case (step i j)
      then have "j \<in> set R" by (simp add: R)
      with step.hyps(1) have "(i, j) \<in> ?E'"
        by (clarsimp simp: edges_physical [OF d] edges_physical [OF d']) (use m in blast)
      with step.IH show ?case by (rule converse_rtrancl_into_rtrancl [rotated])
    qed simp
  qed
qed

text \<open>The nodes \<^const>\<open>assign_waves\<close> returns: the same nodes with their waves.\<close>

definition with_wave :: "(string \<Rightarrow> nat) \<Rightarrow> physical_node \<Rightarrow> physical_node" where
  "with_wave w n = n\<lparr>pn_wave := int (w (pn_id n))\<rparr>"

lemma with_wave_simps [simp]:
  "pn_id (with_wave w n) = pn_id n" "pn_dependencies (with_wave w n) = pn_dependencies n"
  "pn_kind (with_wave w n) = pn_kind n" "pn_operation (with_wave w n) = pn_operation n"
  "pn_operator (with_wave w n) = pn_operator n" "pn_wave (with_wave w n) = int (w (pn_id n))"
  "pn_source_fragment (with_wave w n) = pn_source_fragment n"
  "pn_logical_node_ids (with_wave w n) = pn_logical_node_ids n"
  by (simp_all add: with_wave_def)

lemma node_spec_with_wave: "node_spec l n \<Longrightarrow> node_spec l (with_wave w n)"
  by (auto simp: node_spec_def with_wave_def validate_payload_def split: option.splits if_splits)

definition wave_equation :: "(string \<Rightarrow> nat) \<Rightarrow> physical_node \<Rightarrow> bool" where
  "wave_equation w n \<longleftrightarrow>
     w (pn_id n) = (if pn_dependencies n = [] then 0 else Max (w ` set (pn_dependencies n)) + 1)"

lemma assign_waves_result:
  assumes d: "distinct (map pn_id ns)" and ok: "assign_waves ns = Inr planned"
  shows "\<exists>w. set planned = with_wave w ` set ns \<and> distinct (map pn_id planned)
           \<and> (\<forall>n \<in> set ns. wave_equation w n)"
proof -
  let ?g = "physical_adjacency ns" and ?by_id = "map (\<lambda>n. (pn_id n, n)) ns"
  obtain ws where ws: "wave_order ?g = Inr ws"
    and planned: "planned = map (\<lambda>(i, w). (the (dget ?by_id i))\<lparr>pn_wave := int w\<rparr>) ws"
    using ok by (auto simp: assign_waves_def Let_def)
  have wok: "waves_ok ?g ws" and keys: "set (dkeys ws) = pn_id ` set ns"
    using wave_order_result [OF _ ws] d by simp_all
  define w where "w i = dget_or ws i 0" for i
  have dws: "distinct (map fst ws)" using wok by (simp add: waves_ok_def dkeys_def)
  have found: "\<exists>n \<in> set ns. pn_id n = i \<and> k = w i \<and> the (dget ?by_id i) = n" if "(i, k) \<in> set ws" for i k
  proof -
    have "i \<in> set (dkeys ws)" using imageI [OF that, of fst] by (simp add: dkeys_def)
    then have "i \<in> pn_id ` set ns" unfolding keys .
    then obtain n where "n \<in> set ns" "pn_id n = i" by blast
    with dget_keyed [OF d this(1)] map_of_is_SomeI [OF dws that] show ?thesis by (simp add: w_def)
  qed
  have eq: "planned = map (with_wave w \<circ> (\<lambda>i. the (dget ?by_id i))) (map fst ws)"
    unfolding planned map_map by (rule map_cong [OF refl]) (use found in \<open>auto simp: with_wave_def\<close>)
  have "map pn_id planned = map fst ws"
    unfolding eq map_map by (rule map_cong [OF refl]) (use found in fastforce)
  moreover have "set planned = with_wave w ` set ns"
  proof -
    have "set (map fst ws) = pn_id ` set ns" using keys by (simp only: dkeys_def)
    moreover have "(\<lambda>n. the (dget ?by_id (pn_id n))) ` set ns = (\<lambda>n. n) ` set ns"
      by (rule image_cong [OF refl]) (simp add: dget_keyed [OF d])
    ultimately have "(\<lambda>i. the (dget ?by_id i)) ` set (map fst ws) = set ns" by (simp add: image_image)
    then show ?thesis by (simp only: eq list.set_map image_comp [symmetric])
  qed
  moreover have "wave_equation w n" if "n \<in> set ns" for n
  proof -
    have "pn_id n \<in> set (dkeys ws)" using that unfolding keys by (rule imageI)
    then obtain k where k: "(pn_id n, k) \<in> set ws" by (auto simp: dkeys_def)
    then have "k = node_wave ?g ws (pn_id n)" using wok by (auto simp: waves_ok_def)
    moreover have "k = w (pn_id n)" using found [OF k] by auto
    ultimately show ?thesis
      by (simp add: wave_equation_def node_wave_def deps_of_physical [OF d that] w_def)
  qed
  ultimately show ?thesis using dws by (intro exI [of _ w]) simp
qed

section \<open>What the planner returns\<close>

text \<open>The facts about a returned plan that its consumers rely on.\<close>

definition plan_facts :: "logical_graph \<Rightarrow> physical_plan \<Rightarrow> bool" where
  "plan_facts graph p \<longleftrightarrow>
     distinct (map pn_id (plan_nodes p))
     \<and> plan_output_node_id p = physical_id (lg_output_node_id graph)
     \<and> plan_output_node_id p \<in> pn_id ` set (plan_nodes p)
     \<and> closed_graph (physical_adjacency (plan_nodes p))
     \<and> acyclic (edges (physical_adjacency (plan_nodes p)))
     \<and> (\<forall>n \<in> set (plan_nodes p). \<exists>l \<in> set (lg_nodes graph). node_spec l n)
     \<and> (\<forall>n \<in> set (plan_nodes p). pn_operation n \<notin> set BLOCKED_OPERATOR_KINDS)
     \<and> (\<forall>i \<in> pn_id ` set (plan_nodes p).
          (i, plan_output_node_id p) \<in> (edges (physical_adjacency (plan_nodes p)))\<^sup>*)
     \<and> (\<exists>w. \<forall>n \<in> set (plan_nodes p). pn_wave n = int (w (pn_id n)) \<and> wave_equation w n)
     \<and> plan_version p = lg_version graph \<and> plan_version_boundary p"

text \<open>The stages of \<open>plan\<close>, before the waves are assigned.\<close>

lemma plan_stages:
  assumes "plan pl graph = Inr p"
  obtains ordered bindings st R planned where
    "topological_order (lg_nodes graph) = Inr ordered"
    "\<forall>n \<in> set ordered. check_operation (lg_version graph) n = Inr ()"
    "traverse (bind_node (pl_binder pl)) ordered = Inr bindings"
    "plan_all pl bindings ordered \<lparr>pg_physical = [], pg_mapping = []\<rparr> = Inr st"
    "planning_inv ordered st"
    "lg_output_node_id graph \<in> ln_id ` set ordered"
    "reachable (physical_id (lg_output_node_id graph)) (map snd (pg_physical st)) = Inr R"
    "assign_waves (map snd (filter (\<lambda>(i, n). i \<in> set R) (pg_physical st))) = Inr planned"
    "p = \<lparr>plan_version = lg_version graph, plan_id = physical_id (lg_id graph),
          plan_nodes = planned, plan_output_node_id = physical_id (lg_output_node_id graph)\<rparr>"
    "plan_version_boundary p"
proof -
  obtain ordered bindings st out R planned where
    a: "topological_order (lg_nodes graph) = Inr ordered"
    and b: "\<forall>n \<in> set ordered. check_operation (lg_version graph) n = Inr ()"
    and c: "traverse (bind_node (pl_binder pl)) ordered = Inr bindings"
    and e: "plan_all pl bindings ordered \<lparr>pg_physical = [], pg_mapping = []\<rparr> = Inr st"
    and out: "dget (pg_mapping st) (lg_output_node_id graph) = Some out"
    and r: "reachable out (map snd (pg_physical st)) = Inr R"
    and f: "assign_waves (map snd (filter (\<lambda>(i, n). i \<in> set R) (pg_physical st))) = Inr planned"
    and p: "p = \<lparr>plan_version = lg_version graph, plan_id = physical_id (lg_id graph),
          plan_nodes = planned, plan_output_node_id = out\<rparr>" "plan_version_boundary p"
    using assms by (auto simp: plan_def Let_def)
  have inv: "planning_inv ordered st"
    using plan_all_spec [OF planning_inv_start e] topological_order_ok(4) [OF a] by simp
  from planning_inv_mapping [OF inv out] a b c e r f p inv show thesis by (intro that) auto
qed

lemma planning_inv_ids:
  assumes "planning_inv ordered st"
  shows "map pn_id (map snd (pg_physical st)) = map (\<lambda>l. physical_id (ln_id l)) ordered"
    and "map snd (filter (\<lambda>(i, n). i \<in> S) (pg_physical st))
           = filter (\<lambda>n. pn_id n \<in> S) (map snd (pg_physical st))"
proof -
  have "list_all2 (\<lambda>l (i, n). i = physical_id (ln_id l) \<and> node_spec l n) ordered (pg_physical st)"
    using assms by (simp add: planning_inv_def)
  then show "map pn_id (map snd (pg_physical st)) = map (\<lambda>l. physical_id (ln_id l)) ordered"
    by induction (auto simp: node_spec_def)
  have "pn_id n = i" if "(i, n) \<in> set (pg_physical st)" for i n
    using planning_inv_node [OF assms that] by (auto simp: node_spec_def)
  then show "map snd (filter (\<lambda>(i, n). i \<in> S) (pg_physical st))
      = filter (\<lambda>n. pn_id n \<in> S) (map snd (pg_physical st))"
    by (simp add: filter_map comp_def) (rule arg_cong [of _ _ "map snd"], rule filter_cong, auto)
qed

lemma wave_adjacency:
  assumes "set planned = with_wave w ` set ns" "distinct (map pn_id planned)" "distinct (map pn_id ns)"
  shows "edges (physical_adjacency planned) = edges (physical_adjacency ns)"
    and "closed_graph (physical_adjacency planned) = closed_graph (physical_adjacency ns)"
    and "pn_id ` set planned = pn_id ` set ns"
proof -
  show "edges (physical_adjacency planned) = edges (physical_adjacency ns)"
    by (auto simp: set_eq_iff edges_physical [OF assms(2)] edges_physical [OF assms(3)]) (auto simp: assms(1))
  show "closed_graph (physical_adjacency planned) = closed_graph (physical_adjacency ns)"
    by (simp add: closed_physical assms(1) image_image)
  show "pn_id ` set planned = pn_id ` set ns" by (simp add: assms(1) image_image)
qed

text \<open>The planned nodes are the part of the physical nodes the output depends on.\<close>

lemma plan_parts:
  assumes "plan pl graph = Inr p"
  obtains ordered bindings st ns R w where
    "topological_order (lg_nodes graph) = Inr ordered"
    "\<forall>n \<in> set ordered. check_operation (lg_version graph) n = Inr ()"
    "traverse (bind_node (pl_binder pl)) ordered = Inr bindings"
    "plan_all pl bindings ordered \<lparr>pg_physical = [], pg_mapping = []\<rparr> = Inr st"
    "planning_inv ordered st" "lg_output_node_id graph \<in> ln_id ` set ordered"
    "ns = map snd (pg_physical st)" "distinct (map pn_id ns)"
    "closed_graph (physical_adjacency ns)" "acyclic (edges (physical_adjacency ns))"
    "plan_output_node_id p = physical_id (lg_output_node_id graph)"
    "plan_output_node_id p \<in> pn_id ` set ns"
    "set R = {i. (i, plan_output_node_id p) \<in> (edges (physical_adjacency ns))\<^sup>*}"
    "set (plan_nodes p) = with_wave w ` set (filter (\<lambda>n. pn_id n \<in> set R) ns)"
    "distinct (map pn_id (plan_nodes p))"
    "\<forall>n \<in> set (filter (\<lambda>n. pn_id n \<in> set R) ns). wave_equation w n"
    "plan_version p = lg_version graph" "plan_version_boundary p"
proof -
  let ?out = "physical_id (lg_output_node_id graph)"
  obtain ordered bindings st R planned where
    order: "topological_order (lg_nodes graph) = Inr ordered"
    and checked: "\<forall>n \<in> set ordered. check_operation (lg_version graph) n = Inr ()"
    and binds: "traverse (bind_node (pl_binder pl)) ordered = Inr bindings"
    and all: "plan_all pl bindings ordered \<lparr>pg_physical = [], pg_mapping = []\<rparr> = Inr st"
    and inv: "planning_inv ordered st" and out: "lg_output_node_id graph \<in> ln_id ` set ordered"
    and reach: "reachable ?out (map snd (pg_physical st)) = Inr R"
    and waves: "assign_waves (map snd (filter (\<lambda>(i, n). i \<in> set R) (pg_physical st))) = Inr planned"
    and p: "p = \<lparr>plan_version = lg_version graph, plan_id = physical_id (lg_id graph),
          plan_nodes = planned, plan_output_node_id = ?out\<rparr>" "plan_version_boundary p"
    using assms by (rule plan_stages)
  note o = topological_order_ok [OF order]
  define ns where "ns = map snd (pg_physical st)"
  have ids: "map pn_id ns = map (\<lambda>l. physical_id (ln_id l)) ordered"
    unfolding ns_def by (rule planning_inv_ids [OF inv])
  have d: "distinct (map pn_id ns)" using o(4) unfolding ids by (auto simp: distinct_map inj_on_def)
  have "topological (physical_adjacency ns) (map pn_id ns)"
    unfolding ns_def using o(5) by (intro planned_topological [OF inv o(6,1) _ o(4)]) simp
  note c = topological_restrict [OF d this]
  have out': "?out \<in> pn_id ` set ns" using out ids by (metis (no_types, lifting) image_iff list.set_map)
  have R: "set R = {i. (i, ?out) \<in> (edges (physical_adjacency ns))\<^sup>*}"
    using reachable_from_ok [OF c(1) _ , of ?out] d out' reach by (auto simp: reachable_def ns_def)
  have aw: "assign_waves (filter (\<lambda>n. pn_id n \<in> set R) ns) = Inr planned"
    using waves planning_inv_ids(2) [OF inv, of "set R"] by (simp add: ns_def)
  obtain w where w: "set planned = with_wave w ` set (filter (\<lambda>n. pn_id n \<in> set R) ns)"
      "distinct (map pn_id planned)" "\<forall>n \<in> set (filter (\<lambda>n. pn_id n \<in> set R) ns). wave_equation w n"
    using assign_waves_result [OF distinct_map_filter [OF d] aw] by blast
  show thesis
    by (rule that [OF order checked binds all inv out ns_def d c _ _ _ _ _ w(3)])
      (use out' R w(1,2) p in simp_all)
qed

lemma plan_facts_hold:
  assumes "plan pl graph = Inr p"
  shows "plan_facts graph p"
proof -
  obtain ordered st ns R w where
    order: "topological_order (lg_nodes graph) = Inr ordered"
    and checked: "\<forall>n \<in> set ordered. check_operation (lg_version graph) n = Inr ()"
    and inv: "planning_inv ordered st"
    and ns: "ns = map snd (pg_physical st)" and d: "distinct (map pn_id ns)"
    and c: "closed_graph (physical_adjacency ns)" "acyclic (edges (physical_adjacency ns))"
    and out: "plan_output_node_id p = physical_id (lg_output_node_id graph)"
      "plan_output_node_id p \<in> pn_id ` set ns"
    and R: "set R = {i. (i, plan_output_node_id p) \<in> (edges (physical_adjacency ns))\<^sup>*}"
    and w: "set (plan_nodes p) = with_wave w ` set (filter (\<lambda>n. pn_id n \<in> set R) ns)"
      "distinct (map pn_id (plan_nodes p))"
      "\<forall>n \<in> set (filter (\<lambda>n. pn_id n \<in> set R) ns). wave_equation w n"
    and v: "plan_version p = lg_version graph" "plan_version_boundary p"
    using assms by (rule plan_parts)
  let ?ns = "filter (\<lambda>n. pn_id n \<in> set R) ns"
  note r = restrict_closed [OF d c(1) out(2) R refl]
  note wa = wave_adjacency [OF w(1,2) distinct_map_filter [OF d]]
  have spec: "\<exists>l \<in> set ordered. node_spec l n" if "n \<in> set ns" for n
    using that planning_inv_node [OF inv] by (auto simp: ns) blast
  have sp: "\<exists>l \<in> set (lg_nodes graph). node_spec l n" if "n \<in> set (plan_nodes p)" for n
    using that w(1) spec node_spec_with_wave topological_order_ok(5) [OF order] by fastforce
  have bl: "pn_operation n \<notin> set BLOCKED_OPERATOR_KINDS" if "n \<in> set (plan_nodes p)" for n
    using sp [OF that] checked topological_order_ok(5) [OF order]
    by (auto simp: check_operation_def node_spec_def)
  have wv: "pn_wave n = int (w (pn_id n)) \<and> wave_equation w n" if "n \<in> set (plan_nodes p)" for n
    using that w by (auto simp: wave_equation_def)
  have ac: "acyclic (edges (physical_adjacency ?ns))" using c(2) r(2) by (rule acyclic_subset)
  have o: "plan_output_node_id p \<in> set R" using R by simp
  show ?thesis
    unfolding plan_facts_def using v w(2) out(1) wa r o ac sp bl wv by auto
qed

section \<open>The gate accepts planned plans\<close>

definition arity_ok :: "physical_node \<Rightarrow> bool" where
  "arity_ok n \<longleftrightarrow>
     (pn_kind n = OPERATOR \<longrightarrow> length (pn_dependencies n) = operator_input_count (pn_operation n))"

lemma check_each_single_error:
  "(\<And>x. x \<in> set xs \<Longrightarrow> f x = (if P x then Inr () else Inl e)) \<Longrightarrow>
     check_each f xs = (if \<forall>x \<in> set xs. P x then Inr () else Inl e)"
  by (induction xs) auto

lemma wave_equation_less:
  "wave_equation w n \<Longrightarrow> d \<in> set (pn_dependencies n) \<Longrightarrow> w d < w (pn_id n)"
  by (auto simp: wave_equation_def less_Suc_eq_le split: if_splits)

lemma check_dependency_ok:
  assumes "distinct (map pn_id ns)"
  shows "check_dependency (map (\<lambda>n. (pn_id n, n)) ns) n d = Inr () \<longleftrightarrow>
     (\<exists>m \<in> set ns. pn_id m = d \<and> pn_wave m < pn_wave n)"
proof (cases "d \<in> pn_id ` set ns")
  case True
  then obtain m where m: "m \<in> set ns" "d = pn_id m" by blast
  have "m' = m" if "m' \<in> set ns" "pn_id m' = d" for m'
    using that m assms by (meson distinct_map inj_onD)
  then have "(\<exists>m \<in> set ns. pn_id m = d \<and> pn_wave m < pn_wave n) \<longleftrightarrow> pn_wave m < pn_wave n"
    using m by blast
  then show ?thesis
    unfolding check_dependency_def m(2) dget_keyed [OF assms m(1)] by simp
next
  case False
  then show ?thesis using dget_keyed_None [of pn_id ns d] by (auto simp: check_dependency_def)
qed

lemma plan_operations_valid:
  assumes "plan_version_boundary p" "n \<in> set (plan_nodes p)"
  shows "\<not> ((plan_version p = V1 \<or> carries_v1 n)
            \<and> (\<exists>op \<in> set (plan_operations n). \<not> is_ok (validate_operator_v1 op)))"
  using assms
  by (cases "plan_version p")
    (auto simp: plan_version_boundary_def carries_v1_def plan_operations_def split: option.splits)

lemma check_plan_node_planned:
  assumes "plan_facts graph p" "n \<in> set (plan_nodes p)"
  shows "check_plan_node (plan_version p) (map (\<lambda>n. (pn_id n, n)) (plan_nodes p)) n =
     (if arity_ok n then Inr () else Inl (PlanFailure ''PLAN_OPERATOR_INPUT_COUNT''))"
proof -
  note f = assms(1) [unfolded plan_facts_def]
  obtain w where w: "\<And>n. n \<in> set (plan_nodes p) \<Longrightarrow> pn_wave n = int (w (pn_id n)) \<and> wave_equation w n"
    using f by blast
  have "\<exists>m \<in> set (plan_nodes p). pn_id m = d \<and> pn_wave m < pn_wave n" if "d \<in> set (pn_dependencies n)" for d
  proof -
    have "closed_graph (physical_adjacency (plan_nodes p))" using f by blast
    with that assms(2) obtain m where m: "m \<in> set (plan_nodes p)" "pn_id m = d"
      by (auto simp: closed_physical)
    have "w d < w (pn_id n)" using w [OF assms(2)] that by (blast intro: wave_equation_less)
    with w [OF assms(2)] w [OF m(1)] m(2) have "pn_wave m < pn_wave n" by simp
    with m show ?thesis by blast
  qed
  then have "check_each (check_dependency (map (\<lambda>n. (pn_id n, n)) (plan_nodes p)) n) (pn_dependencies n) = Inr ()"
    using f by (simp add: check_dependency_ok)
  moreover have "\<not> (pn_kind n = SOURCE_FRAGMENT \<and> pn_dependencies n \<noteq> [])"
    using f assms(2) by (auto simp: node_spec_def)
  moreover have "pn_operation n \<notin> set BLOCKED_OPERATOR_KINDS" using f assms(2) by blast
  moreover have "plan_version_boundary p" using f by blast
  ultimately show ?thesis
    using plan_operations_valid [OF _ assms(2)] by (simp add: check_plan_node_def arity_ok_def)
qed

section \<open>What the gate guarantees\<close>

definition executable_plan :: "physical_plan \<Rightarrow> bool" where
  "executable_plan p \<longleftrightarrow>
     distinct (map pn_id (plan_nodes p))
     \<and> plan_output_node_id p \<in> pn_id ` set (plan_nodes p)
     \<and> (\<forall>n \<in> set (plan_nodes p).
          pn_operation n \<notin> set BLOCKED_OPERATOR_KINDS
          \<and> length (pn_dependencies n) = (if pn_kind n = OPERATOR then operator_input_count (pn_operation n) else 0)
          \<and> (\<forall>d \<in> set (pn_dependencies n). \<exists>m \<in> set (plan_nodes p). pn_id m = d \<and> pn_wave m < pn_wave n)
          \<and> ((plan_version p = V1 \<or> carries_v1 n) \<longrightarrow>
               (\<forall>op \<in> set (plan_operations n). is_ok (validate_operator_v1 op)))
          \<and> (pn_id n, plan_output_node_id p) \<in> (edges (physical_adjacency (plan_nodes p)))\<^sup>*)"

lemma check_plan_node_ok:
  assumes "distinct (map pn_id (plan_nodes p))"
  shows "check_plan_node (plan_version p) (map (\<lambda>n. (pn_id n, n)) (plan_nodes p)) n = Inr () \<longleftrightarrow>
     pn_operation n \<notin> set BLOCKED_OPERATOR_KINDS
     \<and> length (pn_dependencies n) = (if pn_kind n = OPERATOR then operator_input_count (pn_operation n) else 0)
     \<and> (\<forall>d \<in> set (pn_dependencies n). \<exists>m \<in> set (plan_nodes p). pn_id m = d \<and> pn_wave m < pn_wave n)
     \<and> ((plan_version p = V1 \<or> carries_v1 n) \<longrightarrow>
          (\<forall>op \<in> set (plan_operations n). is_ok (validate_operator_v1 op)))"
  by (cases "pn_kind n") (auto simp: check_plan_node_def check_dependency_ok [OF assms])

lemma waves_acyclic:
  assumes d: "distinct (map pn_id ns)"
    and dec: "\<And>n d. n \<in> set ns \<Longrightarrow> d \<in> set (pn_dependencies n) \<Longrightarrow>
      \<exists>m \<in> set ns. pn_id m = d \<and> pn_wave m < pn_wave n"
  shows "acyclic (edges (physical_adjacency ns))" "closed_graph (physical_adjacency ns)"
proof -
  define wave where "wave i = (case dget (map (\<lambda>n. (pn_id n, n)) ns) i of None \<Rightarrow> 0 | Some n \<Rightarrow> pn_wave n)" for i
  have wave: "wave (pn_id n) = pn_wave n" if "n \<in> set ns" for n
    using dget_keyed [OF d that] by (simp add: wave_def)
  have "wave a < wave b" if "(a, b) \<in> (edges (physical_adjacency ns))\<^sup>+" for a b
    using that
    by (induction rule: trancl_induct)
      (use dec wave in \<open>fastforce simp: edges_physical [OF d]\<close>)+
  then show "acyclic (edges (physical_adjacency ns))" by (auto simp: acyclic_def)
  show "closed_graph (physical_adjacency ns)" using dec by (fastforce simp: closed_physical)
qed

lemma validate_after_nodes:
  assumes d: "distinct (map pn_id (plan_nodes p))" and o: "plan_output_node_id p \<in> pn_id ` set (plan_nodes p)"
    and nodes: "check_each (check_plan_node (plan_version p) (map (\<lambda>n. (pn_id n, n)) (plan_nodes p)))
                  (plan_nodes p) = Inr ()"
  shows "validate_physical_plan p =
     (if \<forall>n \<in> set (plan_nodes p).
           (pn_id n, plan_output_node_id p) \<in> (edges (physical_adjacency (plan_nodes p)))\<^sup>*
      then Inr () else Inl (PlanFailure ''PLAN_UNREACHABLE_NODE''))"
proof -
  let ?g = "physical_adjacency (plan_nodes p)"
  have dec: "\<exists>m \<in> set (plan_nodes p). pn_id m = d \<and> pn_wave m < pn_wave n"
    if "n \<in> set (plan_nodes p)" "d \<in> set (pn_dependencies n)" for n d
    using that nodes unfolding check_each_eq_Inr check_plan_node_ok [OF d] by blast
  note w = waves_acyclic [OF d dec]
  have d': "distinct (node_ids ?g)" and o': "plan_output_node_id p \<in> set (node_ids ?g)"
    using d o by simp_all
  obtain R where R: "reachable_from (plan_output_node_id p) ?g = Inr R" "distinct R"
      "set R = {i. (i, plan_output_node_id p) \<in> (edges ?g)\<^sup>*}"
    by (rule reachable_from_ok [OF w(2) d' o'])
  have "length (kahn_order ?g) = length (plan_nodes p)"
    using kahn_order_acyclic_iff [OF d' w(2)] w(1) by (simp add: physical_adjacency_def)
  moreover have "set (node_ids ?g) \<subseteq> set R \<longleftrightarrow>
      (\<forall>n \<in> set (plan_nodes p). (pn_id n, plan_output_node_id p) \<in> (edges ?g)\<^sup>*)"
    unfolding R(3) by auto
  ultimately show ?thesis
    unfolding validate_physical_plan_def Let_def nodes R(1) using d' o'
    by (simp add: raise_unless_def del: node_ids_physical)
qed

lemma executable_plan_alt:
  "executable_plan p \<longleftrightarrow>
     distinct (map pn_id (plan_nodes p)) \<and> plan_output_node_id p \<in> pn_id ` set (plan_nodes p)
     \<and> check_each (check_plan_node (plan_version p) (map (\<lambda>n. (pn_id n, n)) (plan_nodes p))) (plan_nodes p) = Inr ()
     \<and> (\<forall>n \<in> set (plan_nodes p).
          (pn_id n, plan_output_node_id p) \<in> (edges (physical_adjacency (plan_nodes p)))\<^sup>*)"
  by (cases "distinct (map pn_id (plan_nodes p))")
    (simp_all add: executable_plan_def check_plan_node_ok ball_conj_distrib)

lemma validate_needs:
  assumes "validate_physical_plan p = Inr ()"
  shows "distinct (map pn_id (plan_nodes p))" "plan_output_node_id p \<in> pn_id ` set (plan_nodes p)"
    "check_each (check_plan_node (plan_version p) (map (\<lambda>n. (pn_id n, n)) (plan_nodes p))) (plan_nodes p) = Inr ()"
  using assms by (simp_all add: validate_physical_plan_def Let_def)

lemma validate_iff: "validate_physical_plan p = Inr () \<longleftrightarrow> executable_plan p"
proof
  assume v: "validate_physical_plan p = Inr ()"
  note n = validate_needs [OF v]
  from validate_after_nodes [OF n] v n show "executable_plan p"
    by (simp only: executable_plan_alt split: if_splits) simp
next
  assume "executable_plan p"
  then show "validate_physical_plan p = Inr ()"
    unfolding executable_plan_alt using validate_after_nodes [of p] by simp
qed

lemma check_plan_node_no_cycle: "check_plan_node v by_id n \<noteq> Inl (PlanFailure ''PLAN_CYCLE'')"
proof -
  have "check_each (check_dependency by_id n) ds \<noteq> Inl (PlanFailure ''PLAN_CYCLE'')" for ds
    by (auto simp: check_dependency_def split: option.splits dest!: check_each_eq_Inl_first)
  then show ?thesis by (simp add: check_plan_node_def raise_unless_def)
qed

lemma validate_no_cycle: "validate_physical_plan p \<noteq> Inl (PlanFailure ''PLAN_CYCLE'')"
proof
  assume v: "validate_physical_plan p = Inl (PlanFailure ''PLAN_CYCLE'')"
  then have d: "distinct (map pn_id (plan_nodes p))"
    and o: "plan_output_node_id p \<in> pn_id ` set (plan_nodes p)"
    by (simp_all add: validate_physical_plan_def Let_def raise_unless_def split: if_splits)
  let ?c = "check_each (check_plan_node (plan_version p) (map (\<lambda>n. (pn_id n, n)) (plan_nodes p))) (plan_nodes p)"
  show False
  proof (cases ?c)
    case (Inl e)
    with v d o have "e = PlanFailure ''PLAN_CYCLE''" by (simp add: validate_physical_plan_def Let_def)
    with check_each_eq_Inl_first [OF Inl] check_plan_node_no_cycle show False by blast
  next
    case (Inr u)
    with validate_after_nodes [OF d o] v show False by (simp split: if_splits)
  qed
qed

lemma validate_planned:
  assumes f: "plan_facts graph p"
  shows "validate_physical_plan p =
     (if \<forall>n \<in> set (plan_nodes p). arity_ok n then Inr ()
      else Inl (PlanFailure ''PLAN_OPERATOR_INPUT_COUNT''))"
proof -
  have d: "distinct (map pn_id (plan_nodes p))" and o: "plan_output_node_id p \<in> pn_id ` set (plan_nodes p)"
    and r: "\<forall>n \<in> set (plan_nodes p).
      (pn_id n, plan_output_node_id p) \<in> (edges (physical_adjacency (plan_nodes p)))\<^sup>*"
    using f unfolding plan_facts_def by blast+
  have c: "check_each (check_plan_node (plan_version p) (map (\<lambda>n. (pn_id n, n)) (plan_nodes p))) (plan_nodes p)
      = (if \<forall>n \<in> set (plan_nodes p). arity_ok n then Inr ()
         else Inl (PlanFailure ''PLAN_OPERATOR_INPUT_COUNT''))"
    by (rule check_each_single_error) (rule check_plan_node_planned [OF f])
  show ?thesis
  proof (cases "\<forall>n \<in> set (plan_nodes p). arity_ok n")
    case True
    then have "check_each (check_plan_node (plan_version p) (map (\<lambda>n. (pn_id n, n)) (plan_nodes p))) (plan_nodes p)
        = Inr ()"
      unfolding c by (rule if_P)
    from validate_after_nodes [OF d o this] show ?thesis unfolding if_P [OF r] if_P [OF True] .
  next
    case False
    then have "check_each (check_plan_node (plan_version p) (map (\<lambda>n. (pn_id n, n)) (plan_nodes p))) (plan_nodes p)
        = Inl (PlanFailure ''PLAN_OPERATOR_INPUT_COUNT'')"
      unfolding c by (rule if_not_P)
    with d o show ?thesis using False by (simp add: validate_physical_plan_def Let_def)
  qed
qed

section \<open>Properties\<close>

text \<open>
  C17: The topological sort of a logical graph succeeds exactly when node
  identifiers are unique, every dependency names a node and the dependency
  relation has no cycle; the result then lists every node once, each after all
  of its dependencies.
\<close>

theorem topological_order_correct:
  "(is_ok (topological_order nodes) \<longleftrightarrow>
      distinct (map ln_id nodes)
      \<and> (\<forall>n \<in> set nodes. set (ln_dependencies n) \<subseteq> ln_id ` set nodes)
      \<and> acyclic {(d, ln_id n) | d n. n \<in> set nodes \<and> d \<in> set (ln_dependencies n)})
   \<and> (\<forall>xs. topological_order nodes = Inr xs \<longrightarrow>
        set xs = set nodes \<and> distinct (map ln_id xs)
        \<and> (\<forall>k < length xs. set (ln_dependencies (xs ! k)) \<subseteq> ln_id ` set (take k xs)))"
proof -
  let ?E = "{(d, ln_id n) | d n. n \<in> set nodes \<and> d \<in> set (ln_dependencies n)}"
  have E: "edges (logical_adjacency nodes) = ?E" if "distinct (map ln_id nodes)"
    using deps_of_logical [OF that] by (auto simp: edges_def)
  have "set (ln_dependencies (xs ! k)) \<subseteq> ln_id ` set (take k xs)"
    if ok: "topological_order nodes = Inr xs" and k: "k < length xs" for xs k
  proof -
    note o = topological_order_ok [OF ok]
    have "xs ! k \<in> set nodes" using k o(5) nth_mem by blast
    with o(6) k deps_of_logical [OF o(1), of "xs ! k"] show ?thesis
      by (fastforce simp: topological_def take_map)
  qed
  moreover have "is_ok (topological_order nodes) \<longleftrightarrow>
      distinct (map ln_id nodes) \<and> closed_graph (logical_adjacency nodes)
      \<and> acyclic (edges (logical_adjacency nodes))"
    unfolding is_ok_iff using topological_order_ok(1,2,7) topological_order_total by metis
  ultimately show ?thesis
    using E topological_order_ok(4,5) by (auto simp: closed_logical)
qed

definition sample_logical :: "string \<Rightarrow> operator_kind \<Rightarrow> string list \<Rightarrow> logical_node" where
  "sample_logical i k deps = \<lparr>ln_id = i, ln_operation = operator_of k, ln_dependencies = deps,
     ln_source_alias = Some ''s'', ln_concepts = [], ln_estimated_rows = None,
     ln_estimated_bytes = None, ln_requires_spill = False\<rparr>"

theorem topological_order_correct_witness:
  "topological_order [sample_logical ''b'' Op_SORT [''a''], sample_logical ''a'' Op_SOURCE []]
     = Inr [sample_logical ''a'' Op_SOURCE [], sample_logical ''b'' Op_SORT [''a'']]
   \<and> distinct (map ln_id [sample_logical ''a'' Op_SOURCE [], sample_logical ''b'' Op_SORT [''a'']])"
proof -
  have "topological_order [sample_logical ''b'' Op_SORT [''a''], sample_logical ''a'' Op_SOURCE []]
      = Inr [sample_logical ''a'' Op_SOURCE [], sample_logical ''b'' Op_SORT [''a'']]"
    by code_simp
  with topological_order_correct [of "[sample_logical ''b'' Op_SORT [''a''], sample_logical ''a'' Op_SOURCE []]"]
  show ?thesis by blast
qed

text \<open>
  C15: The planner and the gate agree: a plan the planner returns is accepted by
  \<open>validate_physical_plan\<close> when every local operator has the number of inputs
  its kind needs, and is refused with PLAN\_OPERATOR\_INPUT\_COUNT otherwise; no
  other check of the gate can fail on it.
\<close>

theorem planner_passes_gate:
  assumes "plan pl graph = Inr p"
  shows "validate_physical_plan p =
     (if \<forall>n \<in> set (plan_nodes p). pn_kind n = OPERATOR \<longrightarrow>
           length (pn_dependencies n) = operator_input_count (pn_operation n)
      then Inr () else Inl (PlanFailure ''PLAN_OPERATOR_INPUT_COUNT''))"
  using validate_planned [OF plan_facts_hold [OF assms]] by (simp only: arity_ok_def)

definition sample_planner :: planner where
  "sample_planner = \<lparr>pl_binder = exact_bind [],
     pl_sources = [(''s'', \<lparr>src_alias = ''s'', src_type = ''fake'', src_object_name = ''t''\<rparr>)],
     pl_capabilities = [(''s'', \<lparr>cap_source_alias = ''s'', cap_source_type = ''fake'',
        cap_operator_kinds = [Op_SOURCE, Op_SORT], cap_joins = False, cap_aggregate_functions = [],
        cap_time_grains = [], cap_spill_supported = False, cap_max_rows = None,
        cap_max_bytes = None\<rparr>)],
     pl_fragment_supported = None\<rparr>"

definition sample_graph :: logical_graph where
  "sample_graph = \<lparr>lg_version = V0, lg_id = ''g'',
     lg_nodes = [sample_logical ''c'' Op_JOIN [''b'', ''b''],
                 sample_logical ''b'' Op_SORT [''a''], sample_logical ''a'' Op_SOURCE []],
     lg_output_node_id = ''c''\<rparr>"

definition sample_fragment :: physical_node where
  "sample_fragment = \<lparr>pn_id = ''physical-b'', pn_kind = SOURCE_FRAGMENT, pn_operation = Op_SORT,
     pn_dependencies = [], pn_wave = 0, pn_logical_node_ids = [''a'', ''b''],
     pn_logical_operations =
       [\<lparr>ref_logical_node_id = ''a'', ref_operation = Op_SOURCE\<rparr>,
        \<lparr>ref_logical_node_id = ''b'', ref_operation = Op_SORT\<rparr>],
     pn_source_fragment = Some
       \<lparr>frag_source = \<lparr>src_alias = ''s'', src_type = ''fake'', src_object_name = ''t''\<rparr>,
        frag_operations = [operator_of Op_SOURCE, operator_of Op_SORT],
        frag_parameters = [], frag_bound_columns = []\<rparr>,
     pn_operator = None\<rparr>"

definition sample_join :: physical_node where
  "sample_join = \<lparr>pn_id = ''physical-c'', pn_kind = OPERATOR, pn_operation = Op_JOIN,
     pn_dependencies = [''physical-b''], pn_wave = 1, pn_logical_node_ids = [''c''],
     pn_logical_operations = [\<lparr>ref_logical_node_id = ''c'', ref_operation = Op_JOIN\<rparr>],
     pn_source_fragment = None, pn_operator = Some (operator_of Op_JOIN)\<rparr>"

definition sample_plan :: physical_plan where
  "sample_plan = \<lparr>plan_version = V0, plan_id = ''physical-g'',
     plan_nodes = [sample_fragment, sample_join], plan_output_node_id = ''physical-c''\<rparr>"

lemma sample_planned: "plan sample_planner sample_graph = Inr sample_plan"
  by code_simp

theorem planner_passes_gate_witness:
  "validate_physical_plan sample_plan = Inl (PlanFailure ''PLAN_OPERATOR_INPUT_COUNT'')"
  using planner_passes_gate [OF sample_planned]
  by (simp add: sample_plan_def sample_join_def operator_input_count_def)

text \<open>
  C16: What the gate guarantees to the coordinator: a plan is accepted exactly
  when identifiers are unique, the output node exists, no operation needs a
  governed backend, fragments have no inputs and operators the exact number,
  every dependency is a node of a strictly earlier wave, the v1 operators are
  valid and every node contributes to the output.
\<close>

theorem gate_accepts_executable_plans: "validate_physical_plan p = Inr () \<longleftrightarrow> executable_plan p"
  by (rule validate_iff)

text \<open>
  The final cycle check of the gate never fires: the wave check before it
  already refuses every cyclic plan.
\<close>

theorem gate_never_reports_cycle:
  "validate_physical_plan p \<noteq> Inl (PlanFailure ''PLAN_CYCLE'')"
  by (rule validate_no_cycle)

text \<open>
  In a returned plan the wave of a node is 0 when it has no dependencies
  and otherwise one more than the largest wave among its dependencies, and
  every node lies on a dependency path to the output.
\<close>

theorem planned_waves:
  assumes "plan pl graph = Inr p"
  shows "\<exists>w. \<forall>n \<in> set (plan_nodes p).
     pn_wave n = int (w (pn_id n))
     \<and> w (pn_id n) = (if pn_dependencies n = [] then 0 else Max (w ` set (pn_dependencies n)) + 1)
     \<and> (pn_id n, plan_output_node_id p) \<in> (edges (physical_adjacency (plan_nodes p)))\<^sup>*"
proof -
  note f = plan_facts_hold [OF assms, unfolded plan_facts_def]
  obtain w where "\<forall>n \<in> set (plan_nodes p). pn_wave n = int (w (pn_id n)) \<and> wave_equation w n"
    using f by blast
  moreover have "(pn_id n, plan_output_node_id p) \<in> (edges (physical_adjacency (plan_nodes p)))\<^sup>*"
    if "n \<in> set (plan_nodes p)" for n
    using f that by blast
  ultimately show ?thesis unfolding wave_equation_def by (intro exI [of _ w]) blast
qed

theorem planned_waves_witness:
  "\<exists>w. pn_wave sample_join = int (w ''physical-c'') \<and> w ''physical-c'' = w ''physical-b'' + 1"
  using planned_waves [OF sample_planned]
  by (auto simp: sample_plan_def sample_join_def)

end
