(* ===== verification/Plan_Semantics.thy ===== *)
theory Plan_Semantics
  imports Plan_Validation
begin

text \<open>
  What a plan computes. A logical graph and a physical plan are both read over
  an arbitrary domain of tables, given the effect of an operation on its input
  tables (\<open>run\<close>) and of a root operation on a source (\<open>scan\<close>); a fragment
  means its operations one after the other. The planner's pushdown and fusion
  keep that meaning, when every source is registered under its own alias.
\<close>

section \<open>The two readings\<close>

definition bound_operation :: "planner \<Rightarrow> logical_node \<Rightarrow> operator_spec res" where
  "bound_operation pl l =
     rbind (bind_node (pl_binder pl) l) (\<lambda>(i, bound). apply_bindings (ln_operation l) bound)"

inductive logical_value ::
  "planner \<Rightarrow> (bound_source \<Rightarrow> operator_spec \<Rightarrow> 'v) \<Rightarrow> (operator_spec \<Rightarrow> 'v list \<Rightarrow> 'v)
     \<Rightarrow> logical_node list \<Rightarrow> string \<Rightarrow> 'v \<Rightarrow> bool"
  for pl scan run nodes where
  root_value: "l \<in> set nodes \<Longrightarrow> ln_dependencies l = [] \<Longrightarrow> bound_operation pl l = Inr op \<Longrightarrow>
    dget (pl_sources pl) (alias_or_empty l) = Some s \<Longrightarrow>
    logical_value pl scan run nodes (ln_id l) (scan s op)"
| inner_value: "l \<in> set nodes \<Longrightarrow> ln_dependencies l \<noteq> [] \<Longrightarrow> bound_operation pl l = Inr op \<Longrightarrow>
    list_all2 (logical_value pl scan run nodes) (dedupe (ln_dependencies l)) vs \<Longrightarrow>
    logical_value pl scan run nodes (ln_id l) (run op vs)"

inductive physical_value ::
  "(bound_source \<Rightarrow> operator_spec \<Rightarrow> 'v) \<Rightarrow> (operator_spec \<Rightarrow> 'v list \<Rightarrow> 'v)
     \<Rightarrow> physical_node list \<Rightarrow> string \<Rightarrow> 'v \<Rightarrow> bool"
  for scan run nodes where
  fragment_value: "n \<in> set nodes \<Longrightarrow> pn_source_fragment n = Some f \<Longrightarrow> frag_operations f = op # ops \<Longrightarrow>
    physical_value scan run nodes (pn_id n) (foldl (\<lambda>v x. run x [v]) (scan (frag_source f) op) ops)"
| operator_value: "n \<in> set nodes \<Longrightarrow> pn_operator n = Some op \<Longrightarrow>
    list_all2 (physical_value scan run nodes) (pn_dependencies n) vs \<Longrightarrow>
    physical_value scan run nodes (pn_id n) (run op vs)"

section \<open>Values are unique\<close>

lemma list_all2_unique:
  "list_all2 (\<lambda>x v. \<forall>u. P x u \<longrightarrow> v = u) xs vs \<Longrightarrow> list_all2 P xs us \<Longrightarrow> vs = us"
  by (induction xs vs arbitrary: us rule: list_all2_induct) (auto simp: list_all2_Cons1)

lemma distinct_map_same: "distinct (map f xs) \<Longrightarrow> x \<in> set xs \<Longrightarrow> y \<in> set xs \<Longrightarrow> f x = f y \<Longrightarrow> y = x"
  by (metis distinct_map inj_onD)

lemma logical_value_unique:
  assumes d: "distinct (map ln_id nodes)"
  shows "logical_value pl scan run nodes i v \<Longrightarrow> logical_value pl scan run nodes i u \<Longrightarrow> v = u"
proof (induction arbitrary: u rule: logical_value.induct)
  case (root_value l op s)
  have same: "l' = l" if "l' \<in> set nodes" "ln_id l = ln_id l'" for l'
    using distinct_map_same [OF d root_value.hyps(1) that] .
  from root_value.prems show ?case
  proof cases
    case (root_value l' op' s')
    with same have "l' = l" by blast
    with root_value \<open>bound_operation pl l = Inr op\<close>
      \<open>dget (pl_sources pl) (alias_or_empty l) = Some s\<close> show ?thesis by simp
  qed (use same root_value.hyps in auto)
next
  case (inner_value l op vs)
  have same: "l' = l" if "l' \<in> set nodes" "ln_id l = ln_id l'" for l'
    using distinct_map_same [OF d inner_value.hyps(1) that] .
  have all: "list_all2 (\<lambda>x v. \<forall>u. logical_value pl scan run nodes x u \<longrightarrow> v = u) (dedupe (ln_dependencies l)) vs"
    using inner_value.IH by (rule list_all2_mono) blast
  from inner_value.prems show ?case
  proof cases
    case (inner_value l' op' vs')
    with same have "l' = l" by blast
    with inner_value \<open>bound_operation pl l = Inr op\<close> list_all2_unique [OF all] show ?thesis by simp
  qed (use same inner_value.hyps in auto)
qed

definition well_formed_nodes :: "physical_node list \<Rightarrow> bool" where
  "well_formed_nodes ns \<longleftrightarrow> distinct (map pn_id ns) \<and> (\<forall>n \<in> set ns. validate_payload n)"

lemma payload_exclusive:
  "validate_payload n \<Longrightarrow> pn_source_fragment n = Some f \<Longrightarrow> pn_operator n = None"
  by (auto simp: validate_payload_def split: if_splits option.splits)

lemma physical_value_unique:
  assumes wf: "well_formed_nodes ns"
  shows "physical_value scan run ns i v \<Longrightarrow> physical_value scan run ns i u \<Longrightarrow> v = u"
proof (induction arbitrary: u rule: physical_value.induct)
  case (fragment_value n f op ops)
  have d: "distinct (map pn_id ns)" using wf by (simp add: well_formed_nodes_def)
  have same: "n' = n" if "n' \<in> set ns" "pn_id n = pn_id n'" for n'
    using distinct_map_same [OF d fragment_value.hyps(1) that] .
  have none: "pn_operator n = None"
    using fragment_value.hyps wf by (auto simp: well_formed_nodes_def intro: payload_exclusive)
  from fragment_value.prems show ?case
  proof cases
    case (fragment_value n' f' op' ops')
    with same have "n' = n" by blast
    with fragment_value \<open>pn_source_fragment n = Some f\<close> \<open>frag_operations f = op # ops\<close>
    show ?thesis by simp
  qed (use same none in auto)
next
  case (operator_value n op vs)
  have d: "distinct (map pn_id ns)" using wf by (simp add: well_formed_nodes_def)
  have same: "n' = n" if "n' \<in> set ns" "pn_id n = pn_id n'" for n'
    using distinct_map_same [OF d operator_value.hyps(1) that] .
  have none: "pn_source_fragment n = None"
    using operator_value.hyps wf payload_exclusive by (fastforce simp: well_formed_nodes_def)
  have all: "list_all2 (\<lambda>x v. \<forall>u. physical_value scan run ns x u \<longrightarrow> v = u) (pn_dependencies n) vs"
    using operator_value.IH by (rule list_all2_mono) blast
  from operator_value.prems show ?case
  proof cases
    case (operator_value n' op' vs')
    with same have "n' = n" by blast
    with operator_value \<open>pn_operator n = Some op\<close> list_all2_unique [OF all] show ?thesis by simp
  qed (use same none in auto)
qed

section \<open>Values survive on a larger node list and on a closed part\<close>

lemma physical_value_mono:
  "physical_value scan run ns i v \<Longrightarrow> set ns \<subseteq> set ms \<Longrightarrow> physical_value scan run ms i v"
proof (induction rule: physical_value.induct)
  case (operator_value n op vs)
  have "list_all2 (physical_value scan run ms) (pn_dependencies n) vs"
    using operator_value.IH by (rule list_all2_mono) (use operator_value.prems in blast)
  with operator_value show ?case by (blast intro: physical_value.operator_value)
qed (blast intro: physical_value.fragment_value)

lemma physical_value_closed_part:
  assumes part: "set planned = with_wave w ` {n \<in> set ns. pn_id n \<in> S}"
    and closed: "\<And>n. n \<in> set ns \<Longrightarrow> pn_id n \<in> S \<Longrightarrow> set (pn_dependencies n) \<subseteq> S"
  shows "physical_value scan run ns i v \<Longrightarrow> i \<in> S \<Longrightarrow> physical_value scan run planned i v"
proof (induction rule: physical_value.induct)
  case (fragment_value n f op ops)
  then have "with_wave w n \<in> set planned" by (simp add: part)
  from physical_value.fragment_value [OF this, of f op ops scan run] fragment_value show ?case by simp
next
  case (operator_value n op vs)
  then have n: "with_wave w n \<in> set planned" by (simp add: part)
  have "list_all2 (physical_value scan run planned) (pn_dependencies n) vs"
    using operator_value.IH closed [OF operator_value.hyps(1) operator_value.prems]
    by (simp add: list_all2_conv_all_nth subset_iff)
  with physical_value.operator_value [OF n, of op scan run vs] operator_value.hyps show ?case by simp
qed

section \<open>One turn of the planner keeps the meaning\<close>

text \<open>Every source is registered under its own alias.\<close>

definition sources_consistent :: "planner \<Rightarrow> bool" where
  "sources_consistent pl \<longleftrightarrow> (\<forall>(a, s) \<in> set (pl_sources pl). src_alias s = a)"

lemma sources_consistentD:
  "sources_consistent pl \<Longrightarrow> dget (pl_sources pl) a = Some s \<Longrightarrow> src_alias s = a"
  by (auto simp: sources_consistent_def dest!: map_of_SomeD)

definition meaning_inv ::
  "planner \<Rightarrow> (bound_source \<Rightarrow> operator_spec \<Rightarrow> 'v) \<Rightarrow> (operator_spec \<Rightarrow> 'v list \<Rightarrow> 'v)
     \<Rightarrow> logical_node list \<Rightarrow> logical_node list \<Rightarrow> planning \<Rightarrow> bool" where
  "meaning_inv pl scan run nodes prev st \<longleftrightarrow>
     planning_inv prev st \<and> distinct (map ln_id prev)
     \<and> (\<forall>i \<in> ln_id ` set prev. \<exists>v. logical_value pl scan run nodes i v
          \<and> physical_value scan run (map snd (pg_physical st)) (physical_id i) v)
     \<and> (\<forall>n \<in> snd ` set (pg_physical st). \<forall>f. pn_source_fragment n = Some f \<longrightarrow>
          dget (pl_sources pl) (src_alias (frag_source f)) = Some (frag_source f))"

lemma meaning_invD:
  assumes "meaning_inv pl scan run nodes prev st"
  shows "planning_inv prev st" "distinct (map ln_id prev)"
    and "\<forall>i \<in> ln_id ` set prev. \<exists>v. logical_value pl scan run nodes i v
          \<and> physical_value scan run (map snd (pg_physical st)) (physical_id i) v"
    and "\<forall>n \<in> snd ` set (pg_physical st). \<forall>f. pn_source_fragment n = Some f \<longrightarrow>
          dget (pl_sources pl) (src_alias (frag_source f)) = Some (frag_source f)"
  using assms unfolding meaning_inv_def by - ((elim conjE, assumption)+)

lemma dedupe_map_inj: "(\<And>x y. f x = f y \<Longrightarrow> x = y) \<Longrightarrow> dedupe (map f xs) = map f (dedupe xs)"
proof (induction xs)
  case (Cons x xs)
  have "filter (\<lambda>y. y \<noteq> f x) (map f (dedupe xs)) = map f (filter (\<lambda>y. y \<noteq> x) (dedupe xs))"
    using Cons.prems by (auto simp: filter_map comp_def intro!: arg_cong [of _ _ "map f"] filter_cong)
  with Cons show ?case by simp
qed simp

lemma planning_inv_well_formed:
  "planning_inv prev st \<Longrightarrow> distinct (map ln_id prev) \<Longrightarrow> well_formed_nodes (map snd (pg_physical st))"
proof -
  assume inv: "planning_inv prev st" and d: "distinct (map ln_id prev)"
  have "distinct (map pn_id (map snd (pg_physical st)))"
    using d unfolding planning_inv_ids(1) [OF inv] by (auto simp: distinct_map inj_on_def)
  moreover have "validate_payload n" if "(i, n) \<in> set (pg_physical st)" for i n
    using planning_inv_node [OF inv that] by (auto simp: node_spec_def)
  ultimately show ?thesis by (auto simp: well_formed_nodes_def)
qed

text \<open>The values of the dependencies, on both sides.\<close>

lemma meaning_inv_values:
  assumes "meaning_inv pl scan run nodes prev st" "set ids \<subseteq> ln_id ` set prev"
  shows "\<exists>vs. list_all2 (logical_value pl scan run nodes) ids vs
      \<and> list_all2 (physical_value scan run (map snd (pg_physical st))) (map physical_id ids) vs"
  using assms(2)
proof (induction ids)
  case (Cons i ids)
  then obtain vs where vs: "list_all2 (logical_value pl scan run nodes) ids vs"
      "list_all2 (physical_value scan run (map snd (pg_physical st))) (map physical_id ids) vs" by auto
  obtain v where v: "logical_value pl scan run nodes i v"
      "physical_value scan run (map snd (pg_physical st)) (physical_id i) v"
    using assms(1) Cons.prems by (auto simp: meaning_inv_def)
  with vs show ?case by (intro exI [of _ "v # vs"]) simp
qed simp

lemma operator_step_meaning:
  assumes inv: "meaning_inv pl scan run nodes prev st" and l: "l \<in> set nodes"
    and op: "bound_operation pl l = Inr operation"
    and deps: "set (ln_dependencies l) \<subseteq> ln_id ` set prev"
    and node: "operator_node l operation (dedupe (map physical_id (ln_dependencies l))) = Inr n"
    and ns: "insert n (snd ` set (pg_physical st)) \<subseteq> set ns"
  shows "\<exists>v. logical_value pl scan run nodes (ln_id l) v \<and> physical_value scan run ns (physical_id (ln_id l)) v"
proof -
  have dd: "dedupe (map physical_id (ln_dependencies l)) = map physical_id (dedupe (ln_dependencies l))"
    by (rule dedupe_map_inj) simp
  note n = operator_node_spec [OF node]
  obtain vs where vs: "list_all2 (logical_value pl scan run nodes) (dedupe (ln_dependencies l)) vs"
      "list_all2 (physical_value scan run (map snd (pg_physical st)))
         (map physical_id (dedupe (ln_dependencies l))) vs"
    using meaning_inv_values [OF inv, of "dedupe (ln_dependencies l)"] deps by auto
  have "ln_dependencies l \<noteq> []" using n by auto
  with logical_value.inner_value [OF l _ op vs(1)]
  have "logical_value pl scan run nodes (ln_id l) (run operation vs)" by blast
  moreover have "list_all2 (physical_value scan run ns) (pn_dependencies n) vs"
    using vs(2) n dd by (auto elim!: list_all2_mono intro: physical_value_mono [where ms = ns] simp: ns [THEN subsetD])
  then have "physical_value scan run ns (pn_id n) (run operation vs)"
    using n ns by (intro physical_value.operator_value) auto
  ultimately show ?thesis using n by auto
qed

lemma fragment_operations_nonempty:
  "validate_payload n \<Longrightarrow> pn_source_fragment n = Some f \<Longrightarrow> frag_operations f \<noteq> []"
  by (auto simp: validate_payload_def split: if_splits option.splits)

lemma fused_value:
  assumes "n \<in> set ns" "pn_source_fragment n = Some f'" "frag_operations f' = frag_operations f @ [operation]"
    and "frag_source f' = frag_source f" "frag_operations f \<noteq> []"
    and p: "p \<in> set ms" "pn_source_fragment p = Some f" "well_formed_nodes ms"
      "physical_value scan run ms (pn_id p) v"
  shows "physical_value scan run ns (pn_id n) (run operation [v])"
proof -
  obtain op ops where ops: "frag_operations f = op # ops" using assms(5) by (cases "frag_operations f") auto
  let ?v = "foldl (\<lambda>v x. run x [v]) (scan (frag_source f) op) ops"
  have "v = ?v"
    using physical_value_unique [OF p(3,4) fragment_value [OF p(1,2) ops]] .
  moreover have "physical_value scan run ns (pn_id n) (foldl (\<lambda>v x. run x [v]) (scan (frag_source f') op) (ops @ [operation]))"
    using assms(3) ops by (intro fragment_value [OF assms(1,2)]) simp
  ultimately show ?thesis using assms(4) by simp
qed

lemma fragment_step_meaning:
  assumes inv: "meaning_inv pl scan run nodes prev st" and l: "l \<in> set nodes"
    and op: "bound_operation pl l = Inr operation"
    and deps: "set (ln_dependencies l) \<subseteq> ln_id ` set prev"
    and sc: "sources_consistent pl"
    and fuse: "fuse = fusion_target (dget (pl_sources pl) (alias_or_empty l))
                 (fusion_predecessor (pg_physical st) (dedupe (map physical_id (ln_dependencies l))))"
    and ready: "dedupe (map physical_id (ln_dependencies l)) = [] \<or> fuse \<noteq> None"
    and node: "fragment_node l operation bound (dedupe (map physical_id (ln_dependencies l)))
                 (dget (pl_sources pl) (alias_or_empty l)) fuse = Inr n"
    and ns: "n \<in> set ns"
  shows "\<exists>v. logical_value pl scan run nodes (ln_id l) v \<and> physical_value scan run ns (physical_id (ln_id l)) v"
    and "pn_source_fragment n = Some f' \<Longrightarrow> dget (pl_sources pl) (src_alias (frag_source f')) = Some (frag_source f')"
proof -
  note spec = fragment_node_spec [OF node ready]
  obtain s f'' where s: "dget (pl_sources pl) (alias_or_empty l) = Some s"
    and f'': "pn_source_fragment n = Some f''" "frag_source f'' = s"
      "frag_operations f'' = (case fuse of None \<Rightarrow> [] | Some (p, f) \<Rightarrow> frag_operations f) @ [operation]"
    using spec(7) by blast
  have registered: "dget (pl_sources pl) (src_alias s) = Some s" using sources_consistentD [OF sc s] s by simp
  then show "pn_source_fragment n = Some f' \<Longrightarrow> dget (pl_sources pl) (src_alias (frag_source f')) = Some (frag_source f')"
    using f'' by simp
  show "\<exists>v. logical_value pl scan run nodes (ln_id l) v \<and> physical_value scan run ns (physical_id (ln_id l)) v"
  proof (cases fuse)
    case None
    with ready have "ln_dependencies l = []" by simp
    from root_value [OF l this op s] have "logical_value pl scan run nodes (ln_id l) (scan s operation)" .
    moreover have "physical_value scan run ns (pn_id n) (foldl (\<lambda>v x. run x [v]) (scan (frag_source f'') operation) [])"
      using f''(3) None by (intro fragment_value [OF ns f''(1)]) simp
    ultimately show ?thesis using f''(2) spec(1) by auto
  next
    case (Some pf)
    obtain p f where pf: "fuse = Some (p, f)" using Some by (cases pf) auto
    obtain d where d: "dedupe (map physical_id (ln_dependencies l)) = [d]" "dget (pg_physical st) d = Some p"
        "pn_source_fragment p = Some f" "src_alias (frag_source f) = src_alias s"
      using fusion_target_Some [of "dget (pl_sources pl) (alias_or_empty l)" "pg_physical st"] fuse pf s by force
    have dd: "dedupe (map physical_id (ln_dependencies l)) = map physical_id (dedupe (ln_dependencies l))"
      by (rule dedupe_map_inj) simp
    then obtain i where i: "dedupe (ln_dependencies l) = [i]" "d = physical_id i" using d(1) by auto
    have p: "(d, p) \<in> set (pg_physical st)" using d(2) by (rule map_of_SomeD)
    have pinv: "planning_inv prev st" and dist: "distinct (map ln_id prev)" using inv by (auto simp: meaning_inv_def)
    have pid: "pn_id p = d" "validate_payload p"
      using planning_inv_node [OF pinv p] by (auto simp: node_spec_def)
    have "i \<in> ln_id ` set prev" using deps i(1) by (metis list.set_intros(1) set_dedupe subsetD)
    then obtain v where v: "logical_value pl scan run nodes i v"
        "physical_value scan run (map snd (pg_physical st)) (pn_id p) v"
      using inv i(2) pid by (auto simp: meaning_inv_def)
    have "ln_dependencies l \<noteq> []" using i(1) by auto
    from inner_value [OF l this op, of scan run "[v]"] v(1) i(1)
    have "logical_value pl scan run nodes (ln_id l) (run operation [v])" by simp
    moreover have "frag_source f = s"
      using inv p d(3,4) registered by (fastforce simp: meaning_inv_def)
    then have "physical_value scan run ns (pn_id n) (run operation [v])"
      using f'' pf p d(3) pid fragment_operations_nonempty planning_inv_well_formed [OF pinv dist] v(2)
      by (intro fused_value [OF ns f''(1), of f _ p "map snd (pg_physical st)"]) force+
    ultimately show ?thesis using spec(1) by auto
  qed
qed

lemma bindings_lookup:
  assumes "traverse (bind_node b) ordered = Inr bindings" "distinct (map ln_id ordered)" "l \<in> set ordered"
    and "dget bindings (ln_id l) = Some bound"
  shows "bind_node b l = Inr (ln_id l, bound)"
proof -
  have l2: "list_all2 (\<lambda>l x. bind_node b l = Inr x) ordered bindings"
    using assms(1) by (simp add: traverse_eq_Inr)
  have key: "bind_node b m = Inr x \<Longrightarrow> fst x = ln_id m" for m x
    by (auto simp: bind_node_def split: option.splits)
  have "(ln_id l, bound) \<in> set bindings" using assms(4) by (rule map_of_SomeD)
  then obtain k where k: "k < length bindings" "bindings ! k = (ln_id l, bound)" by (auto simp: in_set_conv_nth)
  have "length ordered = length bindings" using l2 by (rule list_all2_lengthD)
  then have m: "ordered ! k \<in> set ordered" using k(1) by (intro nth_mem) simp
  have bm: "bind_node b (ordered ! k) = Inr (ln_id l, bound)"
    using list_all2_nthD2 [OF l2 k(1)] unfolding k(2) .
  from key [OF bm] have "ln_id l = ln_id (ordered ! k)" by simp
  from distinct_map_same [OF assms(2,3) m this] bm show ?thesis by (simp only:)
qed

lemma plan_node_meaning:
  assumes inv: "meaning_inv pl scan run nodes prev st" and sc: "sources_consistent pl"
    and step: "plan_node pl bindings l st = Inr st'"
    and l: "l \<in> set nodes" "ln_id l \<notin> ln_id ` set prev"
    and bound: "\<And>b. dget bindings (ln_id l) = Some b \<Longrightarrow> bind_node (pl_binder pl) l = Inr (ln_id l, b)"
  shows "meaning_inv pl scan run nodes (prev @ [l]) st'"
proof -
  have pinv: "planning_inv prev st" and dist: "distinct (map ln_id prev)"
    using inv by (simp_all add: meaning_inv_def)
  have pinv': "planning_inv (prev @ [l]) st'" by (rule plan_node_spec [OF pinv step l(2)])
  obtain b operation mapped n where
    b: "dget bindings (ln_id l) = Some b" and op: "apply_bindings (ln_operation l) b = Inr operation"
    and mapped: "traverse (\<lambda>d. from_option KeyError (dget (pg_mapping st) d)) (ln_dependencies l) = Inr mapped"
    and st': "st' = st\<lparr>pg_physical := dput (physical_id (ln_id l)) n (pg_physical st),
             pg_mapping := dput (ln_id l) (physical_id (ln_id l)) (pg_mapping st)\<rparr>"
    and node: "operator_node l operation (dedupe mapped) = Inr n
     \<or> (\<exists>source fuse. source = dget (pl_sources pl) (alias_or_empty l)
          \<and> fuse = fusion_target source (fusion_predecessor (pg_physical st) (dedupe mapped))
          \<and> candidate_pushdown pl l operation \<and> (dedupe mapped = [] \<or> fuse \<noteq> None)
          \<and> fragment_node l operation b (dedupe mapped) source fuse = Inr n)"
    using step by (rule plan_node_cases)
  have deps: "mapped = map physical_id (ln_dependencies l)" "set (ln_dependencies l) \<subseteq> ln_id ` set prev"
    using mapped_dependencies [OF pinv mapped] by simp_all
  have bop: "bound_operation pl l = Inr operation" using bound [OF b] op by (simp add: bound_operation_def)
  have "physical_id (ln_id l) \<notin> set (dkeys (pg_physical st))"
    using l(2) planning_inv_keys [OF pinv] by (auto simp: dkeys_def)
  then have phys: "pg_physical st' = pg_physical st @ [(physical_id (ln_id l), n)]"
    by (simp add: st' dput_fresh)
  let ?ns = "map snd (pg_physical st')"
  have val: "\<exists>v. logical_value pl scan run nodes (ln_id l) v \<and> physical_value scan run ?ns (physical_id (ln_id l)) v"
    and src: "\<And>f. pn_source_fragment n = Some f \<Longrightarrow>
      dget (pl_sources pl) (src_alias (frag_source f)) = Some (frag_source f)"
    using node
  proof (atomize(full), elim disjE)
    assume o: "operator_node l operation (dedupe mapped) = Inr n"
    show "(\<exists>v. logical_value pl scan run nodes (ln_id l) v \<and> physical_value scan run ?ns (physical_id (ln_id l)) v)
        \<and> (\<forall>f. pn_source_fragment n = Some f \<longrightarrow>
              dget (pl_sources pl) (src_alias (frag_source f)) = Some (frag_source f))"
      using operator_step_meaning [OF inv l(1) bop deps(2) o [unfolded deps(1)], of ?ns]
        operator_node_spec [OF o] by (auto simp: phys)
  next
    assume "\<exists>source fuse. source = dget (pl_sources pl) (alias_or_empty l)
          \<and> fuse = fusion_target source (fusion_predecessor (pg_physical st) (dedupe mapped))
          \<and> candidate_pushdown pl l operation \<and> (dedupe mapped = [] \<or> fuse \<noteq> None)
          \<and> fragment_node l operation b (dedupe mapped) source fuse = Inr n"
    then obtain fuse where f: "fuse = fusion_target (dget (pl_sources pl) (alias_or_empty l))
            (fusion_predecessor (pg_physical st) (dedupe mapped))"
        "dedupe mapped = [] \<or> fuse \<noteq> None"
        "fragment_node l operation b (dedupe mapped) (dget (pl_sources pl) (alias_or_empty l)) fuse = Inr n"
      by blast
    have "n \<in> set ?ns" by (simp add: phys)
    note fragment = fragment_step_meaning [OF inv l(1) bop deps(2) sc f [unfolded deps(1)] this]
    show "(\<exists>v. logical_value pl scan run nodes (ln_id l) v \<and> physical_value scan run ?ns (physical_id (ln_id l)) v)
        \<and> (\<forall>f. pn_source_fragment n = Some f \<longrightarrow>
              dget (pl_sources pl) (src_alias (frag_source f)) = Some (frag_source f))"
      using fragment by (intro conjI allI impI)
  qed
  have old: "\<exists>v. logical_value pl scan run nodes i v \<and> physical_value scan run ?ns (physical_id i) v"
    if i: "i \<in> ln_id ` set prev" for i
  proof -
    obtain v where v: "logical_value pl scan run nodes i v"
        "physical_value scan run (map snd (pg_physical st)) (physical_id i) v"
      using bspec [OF meaning_invD(3) [OF inv] i] by (elim exE conjE)
    have "set (map snd (pg_physical st)) \<subseteq> set ?ns" by (auto simp: phys)
    from v(1) physical_value_mono [OF v(2) this] show ?thesis by (intro exI conjI)
  qed
  have olds: "\<forall>n \<in> snd ` set (pg_physical st). \<forall>f. pn_source_fragment n = Some f \<longrightarrow>
      dget (pl_sources pl) (src_alias (frag_source f)) = Some (frag_source f)"
    using meaning_invD(4) [OF inv] .
  show ?thesis
    unfolding meaning_inv_def using pinv' dist l(2) old val olds src
    by (intro conjI) (simp_all add: phys)
qed

lemma plan_all_meaning:
  "meaning_inv pl scan run nodes prev st \<Longrightarrow> sources_consistent pl \<Longrightarrow>
   plan_all pl bindings ls st = Inr st' \<Longrightarrow> set ls \<subseteq> set nodes \<Longrightarrow> distinct (map ln_id (prev @ ls)) \<Longrightarrow>
   (\<And>l b. l \<in> set ls \<Longrightarrow> dget bindings (ln_id l) = Some b \<Longrightarrow> bind_node (pl_binder pl) l = Inr (ln_id l, b)) \<Longrightarrow>
   meaning_inv pl scan run nodes (prev @ ls) st'"
proof (induction ls arbitrary: prev st)
  case (Cons l ls)
  from Cons.prems(3) obtain st1 where
    st1: "plan_node pl bindings l st = Inr st1" "plan_all pl bindings ls st1 = Inr st'" by auto
  have "meaning_inv pl scan run nodes (prev @ [l]) st1"
    using Cons.prems by (intro plan_node_meaning [OF Cons.prems(1,2) st1(1)]) auto
  from Cons.IH [OF this Cons.prems(2) st1(2)] Cons.prems(4-6) show ?case by auto
qed simp

section \<open>Properties\<close>

lemma meaning_inv_start: "meaning_inv pl scan run nodes [] \<lparr>pg_physical = [], pg_mapping = []\<rparr>"
  by (simp add: meaning_inv_def planning_inv_start)

lemma plan_meaning:
  assumes pl: "plan pl graph = Inr p" and sc: "sources_consistent pl"
  shows "\<exists>v. logical_value pl scan run (lg_nodes graph) (lg_output_node_id graph) v
           \<and> physical_value scan run (plan_nodes p) (plan_output_node_id p) v"
proof -
  obtain ordered bindings st ns R w where
    order: "topological_order (lg_nodes graph) = Inr ordered"
    and binds: "traverse (bind_node (pl_binder pl)) ordered = Inr bindings"
    and all: "plan_all pl bindings ordered \<lparr>pg_physical = [], pg_mapping = []\<rparr> = Inr st"
    and out: "lg_output_node_id graph \<in> ln_id ` set ordered"
    and ns: "ns = map snd (pg_physical st)" and d: "distinct (map pn_id ns)"
    and o: "plan_output_node_id p = physical_id (lg_output_node_id graph)"
    and R: "set R = {i. (i, plan_output_node_id p) \<in> (edges (physical_adjacency ns))\<^sup>*}"
    and w: "set (plan_nodes p) = with_wave w ` set (filter (\<lambda>n. pn_id n \<in> set R) ns)"
    using pl by (rule plan_parts)
  note t = topological_order_ok [OF order]
  have "meaning_inv pl scan run (lg_nodes graph) ([] @ ordered) st"
    using t(4,5) bindings_lookup [OF binds t(4)]
    by (intro plan_all_meaning [OF meaning_inv_start sc all]) simp_all
  then have inv: "meaning_inv pl scan run (lg_nodes graph) ordered st" by simp
  obtain v where v: "logical_value pl scan run (lg_nodes graph) (lg_output_node_id graph) v"
      "physical_value scan run ns (plan_output_node_id p) v"
    using bspec [OF meaning_invD(3) [OF inv] out] unfolding ns o by (elim exE conjE)
  have closed: "set (pn_dependencies n) \<subseteq> set R" if "n \<in> set ns" "pn_id n \<in> set R" for n
  proof
    fix x assume "x \<in> set (pn_dependencies n)"
    with that(1) have "(x, pn_id n) \<in> edges (physical_adjacency ns)" by (auto simp: edges_physical [OF d])
    with that(2) show "x \<in> set R" unfolding R by (auto intro: converse_rtrancl_into_rtrancl)
  qed
  have "set (plan_nodes p) = with_wave w ` {n \<in> set ns. pn_id n \<in> set R}" using w by simp
  from physical_value_closed_part [OF this closed v(2)]
  have "physical_value scan run (plan_nodes p) (plan_output_node_id p) v" by (simp add: R)
  with v(1) show ?thesis by (intro exI conjI)
qed


text \<open>A reading that records the applied operations as text.\<close>

definition trace_scan :: "bound_source \<Rightarrow> operator_spec \<Rightarrow> string" where
  "trace_scan s op = src_object_name s @ ''.'' @ op_kind_value (op_kind op)"

definition trace_run :: "operator_spec \<Rightarrow> string list \<Rightarrow> string" where
  "trace_run op vs = op_kind_value (op_kind op) @ ''('' @ join_with '', '' vs @ '')''"


end
