(* ===== verification/Sql_Expressions.thy ===== *)
theory Sql_Expressions
  imports Arrow_Memory
begin

text \<open>
  \<open>expressions.py\<close>: identifier quoting and the rendering of typed expressions
  to parameterised SQL, with the lossless decimal widths of exact mode. The
  available columns are a list read as a set; \<open>column_types\<close> is a dictionary
  of Arrow types, empty where the source passes \<open>None\<close>.
\<close>

section \<open>Text\<close>

definition quote_text :: "string \<Rightarrow> string" where
  "quote_text s = [CHR 0x22] @ concat (map (\<lambda>c. if c = CHR 0x22 then [c, c] else [c]) s) @ [CHR 0x22]"

definition quote_identifier :: "string \<Rightarrow> string list option \<Rightarrow> string res" where
  "quote_identifier identifier available =
     (if identifier = [] \<or> CHR 0x00 \<in> set identifier
      then Inl (OperatorFailure ''EXPRESSION_INVALID_IDENTIFIER'')
      else if (case available of None \<Rightarrow> False | Some cs \<Rightarrow> identifier \<notin> set cs)
      then Inl (OperatorFailure ''COLUMN_MISSING'')
      else Inr (quote_text identifier))"

text \<open>\<open>format(d, "f")\<close> of a finite decimal.\<close>

definition zeros :: "nat \<Rightarrow> string" where
  "zeros n = replicate n (CHR ''0'')"

fun format_decimal :: "decimal \<Rightarrow> string" where
  "format_decimal (DFinite neg c e) =
     (if neg then ''-'' else []) @
     (let ds = show_nat c
      in if 0 \<le> e then ds @ zeros (nat e)
         else (let k = nat (- e);
                   padded = zeros (Suc k - length ds) @ ds
               in take (length padded - k) padded @ ''.'' @ drop (length padded - k) padded))"
| "format_decimal (DInfinity neg) = (if neg then ''-'' else []) @ ''Infinity''"
| "format_decimal DNaN = ''NaN''"

datatype sql_parameter = ScalarParam scalar | NativeParam native

type_synonym rendered = "string \<times> sql_parameter list"

fun BINARY :: "expression_kind \<Rightarrow> string option" where
  "BINARY E_ADD = Some ''+''"
| "BINARY E_SUBTRACT = Some ''-''"
| "BINARY E_MULTIPLY = Some ''*''"
| "BINARY E_EQUAL = Some ''=''"
| "BINARY E_NOT_EQUAL = Some ''<>''"
| "BINARY E_LESS_THAN = Some ''<''"
| "BINARY E_LESS_EQUAL = Some ''<=''"
| "BINARY E_GREATER_THAN = Some ''>''"
| "BINARY E_GREATER_EQUAL = Some ''>=''"
| "BINARY E_AND = Some ''AND''"
| "BINARY E_OR = Some ''OR''"
| "BINARY _ = None"

fun SQL_TYPES :: "scalar_type \<Rightarrow> string" where
  "SQL_TYPES T_STRING = ''VARCHAR''"
| "SQL_TYPES T_INTEGER = ''BIGINT''"
| "SQL_TYPES T_FLOAT = ''DOUBLE''"
| "SQL_TYPES T_DECIMAL = ''DECIMAL(38, 10)''"
| "SQL_TYPES T_BOOLEAN = ''BOOLEAN''"
| "SQL_TYPES T_DATE = ''DATE''"
| "SQL_TYPES T_TIMESTAMP = ''TIMESTAMP''"

definition DECIMAL_ARITHMETIC :: "expression_kind list" where
  "DECIMAL_ARITHMETIC = [E_ADD, E_SUBTRACT, E_MULTIPLY]"

section \<open>Decimal widths\<close>

fun is_exact_numeric_expression :: "typed_expression \<Rightarrow> bool" where
  "is_exact_numeric_expression (TypedExpression k t c v as) =
     (if t \<notin> {T_DECIMAL, T_INTEGER} then False
      else if k \<in> {E_COLUMN, E_LITERAL} then True
      else (k \<in> set DECIMAL_ARITHMETIC \<or> k = E_COALESCE) \<and> list_all is_exact_numeric_expression as)"

type_synonym shape = "int \<times> int"

text \<open>\<open>max\<close> of a generator raises \<open>ValueError\<close> when there is nothing to compare.\<close>

definition py_max :: "int list \<Rightarrow> int res" where
  "py_max xs = (if xs = [] then Inl ValueError else Inr (Max (set xs)))"

definition type_failure :: failure where
  "type_failure = OperatorFailure ''EXPRESSION_TYPE''"

definition integer_shape ::
  "(string, arrow_type) dict \<Rightarrow> expression_kind \<Rightarrow> string option \<Rightarrow> scalar \<Rightarrow> shape res" where
  "integer_shape types k c v =
     (if k = E_LITERAL
      then rbind (scalar_value (scalar_type_value T_INTEGER) v) (\<lambda>n.
             case n of
               NInt i \<Rightarrow> Inr (if i \<noteq> 0 then int (digit_count \<bar>i\<bar>) else 0, 0)
             | NNone \<Rightarrow> Inr (0, 0)
             | _ \<Rightarrow> Inl AssertionError)
      else if k = E_COLUMN
      then (case dget types (case c of None \<Rightarrow> [] | Some s \<Rightarrow> s) of
              Some (A_Int bits signed) \<Rightarrow>
                Inr (int (digit_count (2 ^ (bits - (if signed then 1 else 0)))), 0)
            | _ \<Rightarrow> Inl type_failure)
      else Inr (19, 0))"

definition decimal_leaf_shape ::
  "(string, arrow_type) dict \<Rightarrow> expression_kind \<Rightarrow> string option \<Rightarrow> scalar \<Rightarrow> shape res" where
  "decimal_leaf_shape types k c v =
     (if k = E_LITERAL
      then rbind (scalar_value (scalar_type_value T_DECIMAL) v) (\<lambda>n.
             case n of
               NDecimal d \<Rightarrow> rbind (decimal_shape d) (\<lambda>(i, s). Inr (int i, int s))
             | NNone \<Rightarrow> Inr (0, 0)
             | _ \<Rightarrow> Inl AssertionError)
      else (case dget types (case c of None \<Rightarrow> [] | Some s \<Rightarrow> s) of
              Some (A_Decimal128 precision scale) \<Rightarrow> Inr (int precision - scale, scale)
            | _ \<Rightarrow> Inl type_failure))"

definition combine_shapes :: "expression_kind \<Rightarrow> shape list \<Rightarrow> shape res" where
  "combine_shapes k shapes =
     (if k = E_COALESCE
      then rbind (py_max (map fst shapes)) (\<lambda>integer_digits.
           rbind (py_max (map snd shapes)) (\<lambda>scale.
             if 38 < integer_digits + scale then Inl type_failure else Inr (integer_digits, scale)))
      else if k \<in> set DECIMAL_ARITHMETIC
      then rbind (if k = E_MULTIPLY then Inr (sum_list (map snd shapes), sum_list (map fst shapes))
                  else rbind (py_max (map snd shapes)) (\<lambda>scale.
                       rbind (py_max (map fst shapes)) (\<lambda>digits. Inr (scale, digits + 1))))
             (\<lambda>(scale, integer_digits).
                if 38 < scale then Inl type_failure else Inr (min integer_digits (38 - scale), scale))
      else Inl type_failure)"

fun decimal_expression_shape ::
  "(string, arrow_type) dict \<Rightarrow> typed_expression \<Rightarrow> shape res" where
  "decimal_expression_shape types (TypedExpression k t c v as) =
     (if t = T_INTEGER then integer_shape types k c v
      else if t \<noteq> T_DECIMAL then Inl type_failure
      else if k \<in> {E_LITERAL, E_COLUMN} then decimal_leaf_shape types k c v
      else rbind (traverse (decimal_expression_shape types) as) (combine_shapes k))"

section \<open>Rendering\<close>

definition decimal_type :: "int \<Rightarrow> int \<Rightarrow> string" where
  "decimal_type precision scale =
     ''DECIMAL('' @ show_int precision @ '', '' @ show_int scale @ '')''"

definition cast_as :: "string \<Rightarrow> string \<Rightarrow> string" where
  "cast_as sql t = ''CAST('' @ sql @ '' AS '' @ t @ '')''"

definition render_literal :: "bool \<Rightarrow> scalar_type \<Rightarrow> scalar \<Rightarrow> rendered res" where
  "render_literal exact t v =
     (if exact
      then case scalar_value (scalar_type_value t) v of
             Inl e \<Rightarrow> Inl type_failure
           | Inr n \<Rightarrow>
               if t = T_DECIMAL
               then (case n of
                       NDecimal d \<Rightarrow> rbind (decimal_shape d) (\<lambda>(i, s).
                         Inr (cast_as ''?'' (decimal_type (max 1 (int i + int s)) (int s)),
                              [ScalarParam (SString (format_decimal d))]))
                     | NNone \<Rightarrow> Inr (cast_as ''?'' (decimal_type 1 0), [ScalarParam SNone])
                     | _ \<Rightarrow> Inl AssertionError)
               else Inr (cast_as ''?'' (SQL_TYPES t), [ScalarParam v])
      else Inr (cast_as ''?'' (SQL_TYPES t), [ScalarParam v]))"

definition require_arity :: "typed_expression list \<Rightarrow> nat \<Rightarrow> unit res" where
  "require_arity as expected = raise_unless (length as = expected) (OperatorFailure ''EXPRESSION_ARITY'')"

definition render_binary ::
  "bool \<Rightarrow> (string, arrow_type) dict \<Rightarrow> typed_expression \<Rightarrow> string \<Rightarrow> rendered list \<Rightarrow> string res" where
  "render_binary exact types e symbol rendered =
     (if exact \<and> expr_kind e \<in> set DECIMAL_ARITHMETIC \<and> expr_type e = T_DECIMAL
         \<and> is_exact_numeric_expression e
      then rbind (decimal_expression_shape types e) (\<lambda>(integer_digits, scale).
           let precision = max 1 (integer_digits + scale)
           in rbind (if expr_kind e = E_MULTIPLY
                     then rbind (traverse (decimal_expression_shape types) (expr_args e))
                            (\<lambda>shapes. Inr (map snd shapes))
                     else Inr [scale, scale]) (\<lambda>operand_scales.
              let widened = map (\<lambda>(item, s). cast_as (fst item) (decimal_type precision s))
                              (zip rendered operand_scales)
              in Inr (cast_as (''('' @ widened ! 0 @ '' '' @ symbol @ '' '' @ widened ! 1 @ '')'')
                              (decimal_type precision scale))))
      else Inr (''('' @ fst (rendered ! 0) @ '' '' @ symbol @ '' '' @ fst (rendered ! 1) @ '')''))"

definition render_coalesce ::
  "bool \<Rightarrow> (string, arrow_type) dict \<Rightarrow> typed_expression \<Rightarrow> rendered list \<Rightarrow> string res" where
  "render_coalesce exact types e rendered =
     (if rendered = [] then Inl (OperatorFailure ''EXPRESSION_ARITY'')
      else if exact \<and> expr_type e = T_DECIMAL
      then rbind (decimal_expression_shape types e) (\<lambda>(integer_digits, scale).
             let precision = max 1 (integer_digits + scale)
             in Inr (''COALESCE('' @ join_with '', ''
                       (map (\<lambda>item. cast_as (fst item) (decimal_type precision scale)) rendered) @ '')''))
      else Inr (''COALESCE('' @ join_with '', '' (map fst rendered) @ '')''))"

text \<open>The part of \<open>render_expression\<close> after the arguments have been rendered.\<close>

definition render_node ::
  "bool \<Rightarrow> (string, arrow_type) dict \<Rightarrow> typed_expression \<Rightarrow> rendered list \<Rightarrow> rendered res" where
  "render_node exact types e rendered =
     (let parameters = concat (map snd rendered); k = expr_kind e
      in case BINARY k of
           Some symbol \<Rightarrow>
             rbind (require_arity (expr_args e) 2) (\<lambda>_.
             rbind (render_binary exact types e symbol rendered) (\<lambda>sql. Inr (sql, parameters)))
         | None \<Rightarrow>
             if k = E_DIVIDE then
               rbind (require_arity (expr_args e) 2) (\<lambda>_.
                 Inr (''('' @ fst (rendered ! 0) @ '' / NULLIF('' @ fst (rendered ! 1) @ '', 0))'', parameters))
             else if k = E_NOT then
               rbind (require_arity (expr_args e) 1) (\<lambda>_.
                 Inr (''(NOT '' @ fst (rendered ! 0) @ '')'', parameters))
             else if k = E_IS_NULL then
               rbind (require_arity (expr_args e) 1) (\<lambda>_.
                 Inr (''('' @ fst (rendered ! 0) @ '' IS NULL)'', parameters))
             else if k = E_COALESCE then
               rbind (render_coalesce exact types e rendered) (\<lambda>sql. Inr (sql, parameters))
             else Inl (OperatorFailure ''EXPRESSION_UNSUPPORTED''))"

fun render_expression ::
  "string list \<Rightarrow> bool \<Rightarrow> (string, arrow_type) dict \<Rightarrow> typed_expression \<Rightarrow> rendered res" where
  "render_expression available exact types (TypedExpression k t c v as) =
     (if k = E_COLUMN
      then (case c of
              None \<Rightarrow> Inl AssertionError
            | Some name \<Rightarrow> rbind (quote_identifier name (Some available)) (\<lambda>sql. Inr (sql, [])))
      else if k = E_LITERAL then render_literal exact t v
      else rbind (traverse (render_expression available exact types) as)
             (render_node exact types (TypedExpression k t c v as)))"

section \<open>Placeholders and quoting\<close>

text \<open>
  A reader of SQL text: quoted identifiers and string literals end at the next
  quote of their kind (a doubled quote closes and reopens), and a question
  mark outside them is a placeholder. A text is balanced with \<open>n\<close> placeholders
  when reading it from plain text ends in plain text.
\<close>

datatype lexmode = Plain | Quoted | Literal

fun lex :: "lexmode \<Rightarrow> string \<Rightarrow> lexmode \<times> nat" where
  "lex m [] = (m, 0)"
| "lex Plain (c # cs) =
     (if c = CHR 0x22 then lex Quoted cs
      else if c = CHR 0x27 then lex Literal cs
      else if c = CHR ''?'' then (let (m, n) = lex Plain cs in (m, Suc n))
      else lex Plain cs)"
| "lex Quoted (c # cs) = (if c = CHR 0x22 then lex Plain cs else lex Quoted cs)"
| "lex Literal (c # cs) = (if c = CHR 0x27 then lex Plain cs else lex Literal cs)"

definition balanced :: "string \<Rightarrow> nat \<Rightarrow> bool" where
  "balanced s n \<longleftrightarrow> lex Plain s = (Plain, n)"

lemma lex_append:
  "lex m (a @ b) = (let (m1, n1) = lex m a; (m2, n2) = lex m1 b in (m2, n1 + n2))"
  by (induction m a rule: lex.induct) (auto simp: Let_def split_def)

lemma balanced_append: "balanced a n \<Longrightarrow> balanced b m \<Longrightarrow> balanced (a @ b) (n + m)"
  by (simp add: balanced_def lex_append)

lemma balanced_appendI: "balanced a n \<Longrightarrow> balanced b m \<Longrightarrow> k = n + m \<Longrightarrow> balanced (a @ b) k"
  by (simp add: balanced_append)

lemma balanced_Nil [simp]: "balanced [] n \<longleftrightarrow> n = 0"
  by (auto simp: balanced_def)

lemma lex_quoted: "lex Quoted (concat (map (\<lambda>c. if c = CHR 0x22 then [c, c] else [c]) s) @ [CHR 0x22]) = (Plain, 0)"
  by (induction s) auto

lemma quote_text_balanced: "balanced (quote_text s) 0"
  by (simp add: balanced_def quote_text_def lex_quoted)

lemma quote_identifier_ok:
  "quote_identifier i available = Inr sql \<longleftrightarrow>
     i \<noteq> [] \<and> CHR 0x00 \<notin> set i \<and> (\<forall>cs. available = Some cs \<longrightarrow> i \<in> set cs) \<and> sql = quote_text i"
  by (auto simp: quote_identifier_def split: option.splits)

text \<open>Text without quotes and question marks.\<close>

definition plain_text :: "string \<Rightarrow> bool" where
  "plain_text s \<longleftrightarrow> set s \<inter> {CHR 0x22, CHR 0x27, CHR ''?''} = {}"

lemma plain_text_balanced: "plain_text s \<Longrightarrow> balanced s 0"
proof -
  have "set s \<inter> {CHR 0x22, CHR 0x27, CHR ''?''} = {} \<Longrightarrow> lex Plain s = (Plain, 0)"
    by (induction s) auto
  then show "plain_text s \<Longrightarrow> balanced s 0" by (simp add: plain_text_def balanced_def)
qed

lemma plain_text_append [simp]: "plain_text (a @ b) \<longleftrightarrow> plain_text a \<and> plain_text b"
  by (auto simp: plain_text_def)

lemma plain_text_Cons [simp]:
  "plain_text (c # cs) \<longleftrightarrow> c \<notin> {CHR 0x22, CHR 0x27, CHR ''?''} \<and> plain_text cs" "plain_text []"
  by (auto simp: plain_text_def)

lemma show_nat_digits: "0 \<le> n \<Longrightarrow> c \<in> set (show_nat n) \<Longrightarrow> is_digit c"
proof (induction n rule: show_nat.induct)
  case (1 n)
  have d: "is_digit (char_of (48 + k))" if "0 \<le> k" "k < 10" for k :: int
  proof -
    have "k = 0 \<or> k = 1 \<or> k = 2 \<or> k = 3 \<or> k = 4 \<or> k = 5 \<or> k = 6 \<or> k = 7 \<or> k = 8 \<or> k = 9"
      using that by presburger
    then show ?thesis by (elim disjE) (simp_all add: is_digit_def char_of_def)
  qed
  show ?case
  proof (cases "n < 10")
    case True
    with 1 d [of n] show ?thesis by (subst (asm) (2) show_nat.simps) simp
  next
    case False
    with 1 d [of "n mod 10"] show ?thesis by (subst (asm) (2) show_nat.simps) auto
  qed
qed

lemma show_int_plain: "plain_text (show_int i)"
proof -
  have "plain_text (show_nat n)" if "0 \<le> n" for n
  proof -
    have "\<not> is_digit (CHR 0x22)" "\<not> is_digit (CHR 0x27)" "\<not> is_digit (CHR ''?'')"
      by (simp_all add: is_digit_def)
    with show_nat_digits [OF that] show ?thesis by (auto simp: plain_text_def)
  qed
  then show ?thesis by (simp add: show_int_def)
qed

lemma decimal_type_balanced: "balanced (decimal_type p s) 0"
proof -
  show ?thesis by (intro plain_text_balanced) (simp add: decimal_type_def show_int_plain)
qed

lemma cast_as_balanced: "balanced sql n \<Longrightarrow> balanced t 0 \<Longrightarrow> balanced (cast_as sql t) n"
  unfolding cast_as_def
  by (rule balanced_appendI [of _ 0 _ n], simp add: balanced_def, rule balanced_appendI [of _ n _ 0],
      assumption, rule balanced_appendI [of _ 0 _ 0], simp add: balanced_def,
      rule balanced_appendI [of _ 0 _ 0], assumption) (simp_all add: balanced_def)

lemma SQL_TYPES_balanced: "balanced (SQL_TYPES t) 0"
  by (cases t) (simp_all add: balanced_def)

lemma join_balanced:
  "list_all2 balanced xs ns \<Longrightarrow> balanced sep 0 \<Longrightarrow> balanced (join_with sep xs) (sum_list ns)"
proof (induction xs arbitrary: ns rule: join_with.induct [of _ sep])
  case (3 sep x y ys)
  then obtain n ms where ns: "ns = n # ms" "balanced x n" "list_all2 balanced (y # ys) ms"
    by (auto simp: list_all2_Cons1)
  from "3.IH" [OF ns(3) "3.prems"(2)] have "balanced (sep @ join_with sep (y # ys)) (0 + sum_list ms)"
    using "3.prems"(2) by (rule balanced_append [rotated])
  from balanced_append [OF ns(2) this] show ?case by (simp add: ns(1))
qed (auto simp: list_all2_Cons1)

subsection \<open>Rendered expressions are balanced\<close>

lemma balanced_literals:
  "balanced ''?'' (Suc 0)" "balanced ''('' 0" "balanced '')'' 0" "balanced '' '' 0" "balanced '', '' 0"
  "balanced ''(NOT '' 0" "balanced '' IS NULL)'' 0" "balanced '' / NULLIF('' 0" "balanced '', 0))'' 0"
  "balanced ''COALESCE('' 0"
  by (simp_all add: balanced_def)

lemma BINARY_balanced: "BINARY k = Some symbol \<Longrightarrow> balanced symbol 0"
  by (cases k) (auto simp: balanced_def)

lemma render_literal_balanced:
  "render_literal exact t v = Inr (sql, ps) \<Longrightarrow> balanced sql (length ps)"
  by (auto simp: render_literal_def split: if_splits sum.splits native.splits
      intro!: cast_as_balanced decimal_type_balanced SQL_TYPES_balanced balanced_literals(1))

lemma infix_balanced:
  assumes "balanced a n" "balanced b m" "balanced symbol 0"
  shows "balanced (''('' @ a @ '' '' @ symbol @ '' '' @ b @ '')'') (n + m)"
proof -
  have "balanced ('' '' @ symbol @ '' '' @ b @ '')'') (0 + (0 + (0 + (m + 0))))"
    by (intro balanced_append balanced_literals assms)
  with assms(1) have "balanced (''('' @ a @ ('' '' @ symbol @ '' '' @ b @ '')'')) (0 + (n + m))"
    by (intro balanced_append balanced_literals) simp_all
  then show ?thesis by simp
qed

definition rendered_ok :: "rendered \<Rightarrow> bool" where
  "rendered_ok r \<longleftrightarrow> balanced (fst r) (length (snd r))"

lemma two_rendered:
  assumes "length rendered = 2"
  shows "length (concat (map snd rendered)) = length (snd (rendered ! 0)) + length (snd (rendered ! 1))"
proof -
  obtain a b where "rendered = [a, b]" using assms by (cases rendered; cases "tl rendered") auto
  then show ?thesis by simp
qed

lemma render_binary_balanced:
  assumes "render_binary exact types e symbol rendered = Inr sql" "length rendered = 2"
    and len: "length (expr_args e) = 2"
    and "\<forall>r \<in> set rendered. rendered_ok r" "balanced symbol 0"
  shows "balanced sql (length (concat (map snd rendered)))"
proof -
  obtain r0 r1 where r: "rendered = [r0, r1]" using assms(2) by (cases rendered; cases "tl rendered") auto
  have b: "balanced (fst r0) (length (snd r0))" "balanced (fst r1) (length (snd r1))"
    using assms(4) by (simp_all add: r rendered_ok_def)
  have two: "\<exists>x y. xs = [x, y]" if "traverse f (expr_args e) = Inr xs"
    for f :: "typed_expression \<Rightarrow> shape res" and xs
    using traverse_length [OF that] len by (cases xs; cases "tl xs") auto
  have wide: "balanced (cast_as (''('' @ cast_as (fst r0) (decimal_type p x) @ '' '' @ symbol @ '' ''
      @ cast_as (fst r1) (decimal_type p y) @ '')'') (decimal_type p z)) (length (snd r0) + length (snd r1))"
    for p x y z
    using b assms(5) by (intro cast_as_balanced decimal_type_balanced infix_balanced)
  have plain: "balanced (''('' @ fst r0 @ '' '' @ symbol @ '' '' @ fst r1 @ '')'') (length (snd r0) + length (snd r1))"
    using b assms(5) by (rule infix_balanced)
  show ?thesis
    using assms(1) wide plain
    by (auto simp: render_binary_def r Let_def simp del: append.simps append_assoc split: if_splits dest!: two)
qed

lemma wrap_balanced:
  "balanced a 0 \<Longrightarrow> balanced x n \<Longrightarrow> balanced b 0 \<Longrightarrow> balanced (a @ x @ b) n"
  by (metis add.right_neutral add_0 balanced_append)

lemma list_all2_rendered:
  "\<forall>r \<in> set rendered. rendered_ok r \<Longrightarrow> list_all2 balanced (map fst rendered) (map (length \<circ> snd) rendered)"
  by (induction rendered) (auto simp: rendered_ok_def)

lemma render_coalesce_balanced:
  assumes "render_coalesce exact types e rendered = Inr sql" "\<forall>r \<in> set rendered. rendered_ok r"
  shows "balanced sql (length (concat (map snd rendered)))"
proof -
  have len: "length (concat (map snd rendered)) = sum_list (map (length \<circ> snd) rendered)"
    by (simp add: length_concat comp_def)
  have casts: "list_all2 balanced (map (\<lambda>item. cast_as (fst item) (decimal_type p q)) rendered)
      (map (length \<circ> snd) rendered)" for p q
    using assms(2) by (induction rendered) (auto simp: rendered_ok_def intro!: cast_as_balanced decimal_type_balanced)
  have "balanced (''COALESCE('' @ join_with '', '' xs @ '')'') (sum_list (map (length \<circ> snd) rendered))"
    if "list_all2 balanced xs (map (length \<circ> snd) rendered)" for xs
    using that by (intro wrap_balanced balanced_literals join_balanced)
  note w = this [OF casts] this [OF list_all2_rendered [OF assms(2)]]
  show ?thesis
    using assms(1) w unfolding len
    by (auto simp: render_coalesce_def Let_def simp del: append.simps append_assoc split: if_splits)
qed

lemma render_divide_balanced:
  "rendered_ok a \<Longrightarrow> rendered_ok b \<Longrightarrow>
   balanced (''('' @ fst a @ '' / NULLIF('' @ fst b @ '', 0))'') (length (snd a) + length (snd b))"
proof -
  assume ok: "rendered_ok a" "rendered_ok b"
  have "balanced ('' / NULLIF('' @ fst b @ '', 0))'') (length (snd b))"
    using ok(2) by (intro wrap_balanced balanced_literals) (simp add: rendered_ok_def)
  with ok(1) have "balanced (''('' @ fst a @ ('' / NULLIF('' @ fst b @ '', 0))'')) (0 + (length (snd a) + length (snd b)))"
    by (intro balanced_append balanced_literals) (simp_all add: rendered_ok_def)
  then show ?thesis by simp
qed

lemma render_node_ok:
  assumes r: "render_node exact types e rendered = Inr out"
    and len: "length rendered = length (expr_args e)" and ok: "\<forall>r \<in> set rendered. rendered_ok r"
  shows "rendered_ok out"
proof (cases "BINARY (expr_kind e)")
  case (Some symbol)
  with r obtain sql where two: "length (expr_args e) = 2" and out: "out = (sql, concat (map snd rendered))"
    and sql: "render_binary exact types e symbol rendered = Inr sql"
    by (auto simp: render_node_def require_arity_def)
  from render_binary_balanced [OF sql _ two ok BINARY_balanced [OF Some]] two len out
  show ?thesis by (simp add: rendered_ok_def)
next
  case None
  have one: "\<exists>x. rendered = [x]" if "length (expr_args e) = Suc 0" using that len by (cases rendered) auto
  have two: "\<exists>x y. rendered = [x, y]" if "length (expr_args e) = 2" using that len
    by (cases rendered; cases "tl rendered") auto
  have un: "balanced (a @ fst x @ b) (length (snd x))"
    if "rendered_ok x" "balanced a 0" "balanced b 0" for x a b
    using that by (intro wrap_balanced) (simp_all add: rendered_ok_def)
  consider "expr_kind e = E_DIVIDE" | "expr_kind e = E_NOT" | "expr_kind e = E_IS_NULL" | "expr_kind e = E_COALESCE"
    using r None by (fastforce simp: render_node_def Let_def split: if_splits)
  then show ?thesis
  proof cases
    case 1
    with r None two obtain x y where "rendered = [x, y]"
        "out = (''('' @ fst x @ '' / NULLIF('' @ fst y @ '', 0))'', snd x @ snd y)"
      by (auto simp: render_node_def require_arity_def simp del: append.simps)
    with ok render_divide_balanced [of x y] show ?thesis by (simp add: rendered_ok_def del: append.simps)
  next
    case 2
    with r None one obtain x where "rendered = [x]" "out = (''(NOT '' @ fst x @ '')'', snd x)"
      by (auto simp: render_node_def require_arity_def simp del: append.simps)
    with ok un [of x] balanced_literals show ?thesis by (simp add: rendered_ok_def del: append.simps)
  next
    case 3
    with r None one obtain x where "rendered = [x]" "out = (''('' @ fst x @ '' IS NULL)'', snd x)"
      by (auto simp: render_node_def require_arity_def simp del: append.simps)
    with ok un [of x] balanced_literals show ?thesis by (simp add: rendered_ok_def del: append.simps)
  next
    case 4
    with r None obtain sql where "render_coalesce exact types e rendered = Inr sql"
        "out = (sql, concat (map snd rendered))"
      by (auto simp: render_node_def)
    with render_coalesce_balanced [of exact types e rendered sql] ok show ?thesis by (simp add: rendered_ok_def)
  qed
qed

lemma render_expression_ok:
  "render_expression available exact types e = Inr out \<Longrightarrow> rendered_ok out"
proof (induction available exact types e arbitrary: out rule: render_expression.induct)
  case (1 available exact types k t c v as)
  consider "k = E_COLUMN" | "k = E_LITERAL" | "k \<noteq> E_COLUMN" "k \<noteq> E_LITERAL" by blast
  then show ?case
  proof cases
    case 1
    with "1.prems" show ?thesis
      by (auto simp: quote_identifier_ok rendered_ok_def quote_text_balanced split: option.splits)
  next
    case 2
    with "1.prems" show ?thesis
      by (cases out) (auto simp: rendered_ok_def intro: render_literal_balanced)
  next
    case 3
    with "1.prems" obtain rendered where
      t: "traverse (render_expression available exact types) as = Inr rendered"
      and n: "render_node exact types (TypedExpression k t c v as) rendered = Inr out"
      by auto
    have "rendered_ok r" if "r \<in> set rendered" for r
      using traverse_member [OF t that] "1.IH" 3 by blast
    with render_node_ok [OF n] traverse_length [OF t] show ?thesis by simp
  qed
qed

section \<open>Decimal widths stay within 38 digits\<close>

definition shape_ok :: "shape \<Rightarrow> bool" where
  "shape_ok sh \<longleftrightarrow> 0 \<le> fst sh \<and> 0 \<le> snd sh \<and> fst sh + snd sh \<le> 38"

text \<open>Column types with the widths Arrow and DuckDB give them.\<close>

definition valid_types :: "(string, arrow_type) dict \<Rightarrow> bool" where
  "valid_types types \<longleftrightarrow> (\<forall>(c, ty) \<in> set types. case ty of
       A_Decimal128 p s \<Rightarrow> p \<le> 38 \<and> 0 \<le> s \<and> s \<le> int p
     | A_Int bits signed \<Rightarrow> bits \<le> 64
     | _ \<Rightarrow> True)"

lemma digit_count_le: "0 \<le> n \<Longrightarrow> n < 10 ^ Suc k \<Longrightarrow> digit_count n \<le> Suc k"
proof (induction k arbitrary: n)
  case 0
  then show ?case by (simp add: digit_count_def show_nat.simps [of n])
next
  case (Suc k)
  then have "digit_count (n div 10) \<le> Suc k" by (intro Suc.IH) auto
  then show ?case by (simp add: digit_count_def show_nat.simps [of n])
qed

lemma integer_shape_ok:
  assumes "integer_shape types k c v = Inr sh" "valid_types types"
  shows "shape_ok sh"
proof -
  have lit: "digit_count \<bar>i\<bar> \<le> 38" if "- (2 ^ 63) \<le> i" "i < 2 ^ 63" for i :: int
  proof -
    have "\<bar>i\<bar> < 10 ^ Suc 18" using that by (simp add: abs_if)
    from digit_count_le [OF abs_ge_zero this] show ?thesis by simp
  qed
  have col: "digit_count (2 ^ b) \<le> Suc 19" if "b \<le> 64" for b
  proof (rule digit_count_le)
    have "(2::int) ^ b \<le> 2 ^ 64" using that by (intro power_increasing) auto
    then show "(2::int) ^ b < 10 ^ Suc 19" by simp
  qed simp
  show ?thesis
  proof (cases "k = E_LITERAL")
    case True
    with assms(1) show ?thesis
      by (auto simp: integer_shape_def scalar_value_def shape_ok_def split: scalar.splits if_splits
          intro!: lit)
  next
    case False
    show ?thesis
    proof (cases "k = E_COLUMN")
      case True
      with assms(1) False obtain name bits signed where
        ty: "dget types name = Some (A_Int bits signed)"
        and sh: "sh = (int (digit_count (2 ^ (bits - (if signed then 1 else 0)))), 0)"
        by (auto simp: integer_shape_def split: option.splits arrow_type.splits)
      have "bits \<le> 64" using assms(2) map_of_SomeD [OF ty] by (auto simp: valid_types_def)
      then have "bits - (if signed then 1 else 0) \<le> 64" by simp
      from col [OF this] show ?thesis by (simp add: sh shape_ok_def)
    qed (use assms(1) False in \<open>auto simp: integer_shape_def shape_ok_def\<close>)
  qed
qed

lemma decimal_shape_ok: "decimal_shape d = Inr (i, s) \<Longrightarrow> i + s \<le> 38"
  by (cases d) (auto simp: Let_def split: if_splits)

lemma decimal_leaf_shape_ok:
  assumes "decimal_leaf_shape types k c v = Inr sh" "valid_types types"
  shows "shape_ok sh"
proof (cases "k = E_LITERAL")
  case True
  with assms(1) obtain n where "(case n of NDecimal d \<Rightarrow> rbind (decimal_shape d) (\<lambda>(i, s). Inr (int i, int s))
      | NNone \<Rightarrow> Inr (0, 0) | _ \<Rightarrow> Inl AssertionError) = Inr sh"
    by (auto simp: decimal_leaf_shape_def)
  then show ?thesis
    by (cases n) (auto simp: shape_ok_def dest!: decimal_shape_ok)
next
  case False
  with assms show ?thesis
    by (fastforce simp: decimal_leaf_shape_def shape_ok_def valid_types_def
        split: option.splits arrow_type.splits dest!: map_of_SomeD)
qed

lemma py_max_ok: "py_max xs = Inr m \<Longrightarrow> \<forall>x \<in> set xs. 0 \<le> x \<Longrightarrow> 0 \<le> m"
  by (auto simp: py_max_def Max_ge_iff split: if_splits)

lemma combine_shapes_ok:
  assumes "combine_shapes k shapes = Inr sh" "\<forall>x \<in> set shapes. shape_ok x"
  shows "shape_ok sh"
proof -
  have nn: "\<forall>x \<in> set (map fst shapes). 0 \<le> x" "\<forall>x \<in> set (map snd shapes). 0 \<le> x"
    using assms(2) by (auto simp: shape_ok_def)
  have sums: "0 \<le> sum_list (map fst shapes)" "0 \<le> sum_list (map snd shapes)"
    using nn by (intro sum_list_nonneg; blast)+
  show ?thesis
    using assms(1) sums
    by (auto simp: combine_shapes_def shape_ok_def split: if_splits dest!: py_max_ok [OF _ nn(1)] py_max_ok [OF _ nn(2)])
qed

lemma decimal_expression_shape_ok:
  "decimal_expression_shape types e = Inr sh \<Longrightarrow> valid_types types \<Longrightarrow> shape_ok sh"
proof (induction types e arbitrary: sh rule: decimal_expression_shape.induct)
  case (1 types k t c v as)
  show ?case
  proof (cases "t = T_INTEGER \<or> k \<in> {E_LITERAL, E_COLUMN}")
    case True
    with "1.prems" show ?thesis
      by (auto split: if_splits intro: integer_shape_ok decimal_leaf_shape_ok)
  next
    case False
    with "1.prems" obtain shapes where t: "t = T_DECIMAL"
      and tr: "traverse (decimal_expression_shape types) as = Inr shapes"
      and sh: "combine_shapes k shapes = Inr sh"
      by (auto split: if_splits)
    have "shape_ok x" if "x \<in> set shapes" for x
      using traverse_member [OF tr that] "1.IH" "1.prems"(2) t False by blast
    with combine_shapes_ok [OF sh] show ?thesis by blast
  qed
qed

section \<open>Validated expressions render\<close>

definition only_type_failure :: "'a res \<Rightarrow> bool" where
  "only_type_failure r \<longleftrightarrow> (\<forall>e. r = Inl e \<longrightarrow> e = type_failure)"

lemma only_type_failure_simps [simp]:
  "only_type_failure (Inr x)" "only_type_failure (Inl e) \<longleftrightarrow> e = type_failure"
  by (auto simp: only_type_failure_def)

lemma only_type_failure_rbind:
  "only_type_failure r \<Longrightarrow> (\<And>x. r = Inr x \<Longrightarrow> only_type_failure (f x)) \<Longrightarrow> only_type_failure (rbind r f)"
  by (cases r) auto

lemma only_type_failure_traverse:
  "(\<And>x. x \<in> set xs \<Longrightarrow> only_type_failure (f x)) \<Longrightarrow> only_type_failure (traverse f xs)"
  by (induction xs) (auto intro!: only_type_failure_rbind)

lemma scalar_value_decimal:
  assumes "scalar_value ''decimal'' v = Inr n"
  shows "n = NNone \<or> (\<exists>d sh. n = NDecimal d \<and> decimal_shape d = Inr sh)"
proof (cases v)
  case (SString s)
  with assms obtain d sh where d: "decimal_shape d = Inr sh"
    and n: "n = NDecimal (case d of DFinite neg c e \<Rightarrow> if c = 0 \<and> 0 < e then DFinite False 0 0 else d | _ \<Rightarrow> d)"
    by (auto simp: scalar_value_def split: option.splits)
  then show ?thesis by (cases d) (auto simp: Let_def)
qed (use assms in \<open>auto simp: scalar_value_def\<close>)

lemma scalar_value_integer:
  "scalar_value ''integer'' v = Inr n \<Longrightarrow> n = NNone \<or> (\<exists>i. n = NInt i)"
  by (auto simp: scalar_value_def split: scalar.splits if_splits)

lemma py_max_total: "xs \<noteq> [] \<Longrightarrow> \<exists>m. py_max xs = Inr m"
  by (simp add: py_max_def)

lemma combine_shapes_failure: "shapes \<noteq> [] \<Longrightarrow> only_type_failure (combine_shapes k shapes)"
  using py_max_total [of "map fst shapes"] py_max_total [of "map snd shapes"]
  by (auto simp: combine_shapes_def intro!: only_type_failure_rbind)

lemma node_ok_literal:
  "expression_node_ok (TypedExpression E_LITERAL t c v as) \<Longrightarrow> \<exists>n. scalar_value (scalar_type_value t) v = Inr n"
  by (simp add: expression_node_ok_def is_ok_iff)

lemma node_ok_args:
  "expression_node_ok (TypedExpression k t c v as) \<Longrightarrow> k \<notin> {E_LITERAL, E_COLUMN} \<Longrightarrow> as \<noteq> []"
  by (auto simp: expression_node_ok_def split: if_splits)

lemma decimal_expression_shape_failure:
  "expr_all expression_node_ok e \<Longrightarrow> only_type_failure (decimal_expression_shape types e)"
proof (induction types e rule: decimal_expression_shape.induct)
  case (1 types k t c v as)
  have ok: "expression_node_ok (TypedExpression k t c v as)" and sub: "\<forall>a \<in> set as. expr_all expression_node_ok a"
    using "1.prems" by simp_all
  show ?case
  proof (cases "k = E_LITERAL")
    case True
    with ok obtain n where n: "scalar_value (scalar_type_value t) v = Inr n" using node_ok_literal by blast
    then show ?thesis
      using True scalar_value_integer [of v n] scalar_value_decimal [of v n]
      by (auto simp: integer_shape_def decimal_leaf_shape_def)
  next
    case False
    have "only_type_failure (traverse (decimal_expression_shape types) as)"
      if "t \<noteq> T_INTEGER" "t = T_DECIMAL" "k \<noteq> E_COLUMN"
      using "1.IH" that False sub by (intro only_type_failure_traverse) auto
    moreover have "only_type_failure (combine_shapes k shapes)"
      if "traverse (decimal_expression_shape types) as = Inr shapes" "k \<noteq> E_COLUMN" for shapes
      using node_ok_args [OF ok] False that traverse_length [OF that(1)]
      by (intro combine_shapes_failure) auto
    ultimately show ?thesis
      using False
      by (auto simp: integer_shape_def decimal_leaf_shape_def intro!: only_type_failure_rbind
          split: option.splits arrow_type.splits)
  qed
qed

definition columns_available :: "string list \<Rightarrow> typed_expression \<Rightarrow> bool" where
  "columns_available available =
     expr_all (\<lambda>e. expr_kind e = E_COLUMN \<longrightarrow> the (expr_column e) \<in> set available)"

lemma render_literal_failure:
  assumes "\<exists>n. scalar_value (scalar_type_value t) v = Inr n"
  shows "only_type_failure (render_literal exact t v)" "\<exists>r. render_literal False t v = Inr r"
  using assms scalar_value_decimal [of v]
  by (auto simp: render_literal_def split: sum.splits native.splits intro!: only_type_failure_rbind)

lemma render_node_failure:
  assumes ok: "expr_all expression_node_ok e" and k: "expr_kind e \<notin> {E_LITERAL, E_COLUMN}"
    and len: "length rendered = length (expr_args e)"
  shows "only_type_failure (render_node exact types e rendered)"
    and "\<exists>r. render_node False types e rendered = Inr r"
proof -
  have n: "expression_node_ok e" using ok by (rule expr_all_imp)
  have shape: "only_type_failure (decimal_expression_shape types e)"
    using ok by (rule decimal_expression_shape_failure)
  have args: "only_type_failure (traverse (decimal_expression_shape types) (expr_args e))"
    using ok by (intro only_type_failure_traverse decimal_expression_shape_failure)
      (auto simp: expr_all_unfold [of _ e])
  have ar: "length (expr_args e) = (if expr_kind e \<in> {E_NOT, E_IS_NULL} then 1 else 2)" if "expr_kind e \<noteq> E_COALESCE"
    using n k that by (simp add: expression_node_ok_def)
  have ne: "rendered \<noteq> []" using n k len by (auto simp: expression_node_ok_def split: if_splits)
  show "only_type_failure (render_node exact types e rendered)"
    using k ar ne shape args
    by (cases "expr_kind e")
      (auto simp: render_node_def Let_def require_arity_def render_binary_def render_coalesce_def
        intro!: only_type_failure_rbind)
  show "\<exists>r. render_node False types e rendered = Inr r"
    using k ar ne
    by (cases "expr_kind e")
      (auto simp: render_node_def Let_def require_arity_def render_binary_def render_coalesce_def)
qed

lemma render_expression_failure:
  "expr_all expression_node_ok e \<Longrightarrow> columns_available available e \<Longrightarrow>
     only_type_failure (render_expression available exact types e)
     \<and> (\<not> exact \<longrightarrow> (\<exists>r. render_expression available exact types e = Inr r))"
proof (induction available exact types e rule: render_expression.induct)
  case (1 available exact types k t c v as)
  let ?e = "TypedExpression k t c v as"
  have ok: "expression_node_ok ?e" using "1.prems"(1) by simp
  consider "k = E_COLUMN" | "k = E_LITERAL" | "k \<noteq> E_COLUMN" "k \<noteq> E_LITERAL" by blast
  then show ?case
  proof cases
    case 1
    with ok "1.prems"(2) have "has_text c" "CHR 0x00 \<notin> set (the c)" "the c \<in> set available"
      by (auto simp: expression_node_ok_def columns_available_def)
    with 1 show ?thesis by (cases c) (simp_all add: quote_identifier_def has_text_def)
  next
    case 2
    with ok render_literal_failure [of t v] node_ok_literal [of t c v as] show ?thesis by auto
  next
    case 3
    have sub: "only_type_failure (render_expression available exact types a)
        \<and> (\<not> exact \<longrightarrow> (\<exists>r. render_expression available exact types a = Inr r))" if "a \<in> set as" for a
      using "1.IH" 3 that "1.prems" by (auto simp: columns_available_def)
    have all: "\<exists>rs. traverse (render_expression available exact types) as = Inr rs" if "\<not> exact"
      using sub that by (induction as) auto
    have "only_type_failure (traverse (render_expression available exact types) as)"
      using sub by (intro only_type_failure_traverse) blast
    moreover have "only_type_failure (render_node exact types ?e rs)" "\<exists>r. render_node False types ?e rs = Inr r"
      if "traverse (render_expression available exact types) as = Inr rs" for rs
      using render_node_failure [OF "1.prems"(1), of rs] 3 traverse_length [OF that] by simp_all
    ultimately show ?thesis
      using 3 all by (auto intro!: only_type_failure_rbind)
  qed
qed

section \<open>Literal values do not reach the SQL text\<close>

fun erase_values :: "typed_expression \<Rightarrow> typed_expression" where
  "erase_values (TypedExpression k t c v as) =
     TypedExpression k t c (if k = E_LITERAL then SNone else v) (map erase_values as)"

definition sql_text :: "rendered res \<Rightarrow> string res" where
  "sql_text r = map_sum id fst r"

lemma sql_text_simps [simp]: "sql_text (Inl e) = Inl e" "sql_text (Inr (s, ps)) = Inr s"
  by (simp_all add: sql_text_def)

lemma same_text_nth:
  "map fst r1 = map fst r2 \<Longrightarrow> i < length r1 \<Longrightarrow> fst (r1 ! i) = fst (r2 ! i)"
  by (metis length_map nth_map)

lemma render_node_legacy:
  assumes texts: "map fst r1 = map fst (r2 :: rendered list)" and "expr_kind e1 = expr_kind e2"
    and "length (expr_args e1) = length (expr_args e2)" and len: "length r1 = length (expr_args e1)"
  shows "sql_text (render_node False types e1 r1) = sql_text (render_node False types e2 r2)"
proof -
  note nth = same_text_nth [OF texts]
  have "r1 = [] \<longleftrightarrow> r2 = []" using texts by (metis map_is_Nil_conv)
  moreover have "fst (r1 ! 0) = fst (r2 ! 0)" if "r1 \<noteq> []" using nth [of 0] that by simp
  ultimately show ?thesis
    using assms nth [of 1]
    by (cases "BINARY (expr_kind e2)")
      (auto simp: render_node_def Let_def render_binary_def render_coalesce_def require_arity_def
        raise_unless_def)
qed

lemma traverse_texts:
  "(\<And>a. a \<in> set as \<Longrightarrow> sql_text (f a) = sql_text (g a)) \<Longrightarrow>
     map_sum id (map fst) (traverse f as) = map_sum id (map fst) (traverse g as)"
proof (induction as)
  case (Cons a as)
  have a: "sql_text (f a) = sql_text (g a)" using Cons.prems by simp
  have IH: "map_sum id (map fst) (traverse f as) = map_sum id (map fst) (traverse g as)"
    using Cons.prems by (intro Cons.IH) simp
  show ?case
    using a IH by (cases "f a"; cases "g a"; cases "traverse f as"; cases "traverse g as")
      (auto simp: sql_text_def)
qed simp

lemma traverse_map: "traverse f (map g xs) = traverse (f \<circ> g) xs"
  by (induction xs) simp_all

lemma render_erased:
  "sql_text (render_expression available False types (erase_values e))
     = sql_text (render_expression available False types e)"
proof (induction e rule: erase_values.induct)
  case (1 k t c v as)
  let ?r = "render_expression available False types"
  let ?e = "TypedExpression k t c v as"
  consider "k = E_COLUMN" | "k = E_LITERAL" | "k \<noteq> E_COLUMN" "k \<noteq> E_LITERAL" by blast
  then show ?case
  proof cases
    case 2
    then show ?thesis by (simp add: render_literal_def)
  next
    case 3
    have same: "map_sum id (map fst) (traverse ?r (map erase_values as)) = map_sum id (map fst) (traverse ?r as)"
      unfolding traverse_map using "1.IH" by (intro traverse_texts) simp
    show ?thesis
    proof (cases "traverse ?r as")
      case (Inl e)
      with same have "traverse ?r (map erase_values as) = Inl e"
        by (cases "traverse ?r (map erase_values as)") simp_all
      with Inl 3 show ?thesis by simp
    next
      case (Inr rs)
      with same obtain rs' where rs': "traverse ?r (map erase_values as) = Inr rs'" "map fst rs' = map fst rs"
        by (cases "traverse ?r (map erase_values as)") simp_all
      have "sql_text (render_node False types (erase_values ?e) rs') = sql_text (render_node False types ?e rs)"
        using rs' traverse_length [OF rs'(1)] by (intro render_node_legacy) simp_all
      with Inr rs'(1) 3 show ?thesis by simp
    qed
  qed simp
qed

section \<open>Properties\<close>

text \<open>Reading a quoted identifier back.\<close>

fun unescape :: "string \<Rightarrow> string option" where
  "unescape [] = None"
| "unescape [c] = (if c = CHR 0x22 then Some [] else None)"
| "unescape (c # d # cs) =
     (if c = CHR 0x22 then (if d = CHR 0x22 then map_option (Cons c) (unescape cs) else None)
      else map_option (Cons c) (unescape (d # cs)))"

definition unquote_text :: "string \<Rightarrow> string option" where
  "unquote_text s = (case s of [] \<Rightarrow> None | c # cs \<Rightarrow> if c = CHR 0x22 then unescape cs else None)"

lemma unescape_quoted:
  "unescape (concat (map (\<lambda>c. if c = CHR 0x22 then [c, c] else [c]) s) @ [CHR 0x22]) = Some s"
proof (induction s)
  case (Cons c s)
  let ?rest = "concat (map (\<lambda>c. if c = CHR 0x22 then [c, c] else [c]) s) @ [CHR 0x22]"
  have "?rest \<noteq> []" by simp
  then obtain d cs where rest: "?rest = d # cs" by (cases ?rest) auto
  show ?case
  proof (cases "c = CHR 0x22")
    case True
    with Cons.IH show ?thesis by simp
  next
    case False
    with Cons.IH rest show ?thesis by simp
  qed
qed simp

text \<open>
  C25: Quoting an identifier loses nothing: it fails exactly on an empty name,
  a name with a NUL character or a name that is not among the available
  columns, and otherwise the quoted text reads back as the same name, so
  different identifiers never share a quoted form.
\<close>

theorem quote_identifier_roundtrip:
  "(\<exists>sql. quote_identifier i available = Inr sql) =
     (i \<noteq> [] \<and> CHR 0x00 \<notin> set i \<and> (case available of None \<Rightarrow> True | Some cs \<Rightarrow> i \<in> set cs))
   \<and> (\<forall>sql. quote_identifier i available = Inr sql \<longrightarrow> unquote_text sql = Some i)"
  by (auto simp: quote_identifier_ok quote_text_def unquote_text_def unescape_quoted split: option.splits)

theorem quote_identifier_roundtrip_witness:
  "quote_identifier ''a;b'' (Some [''a;b'']) = Inr (quote_text ''a;b'')
   \<and> unquote_text (quote_text ''a;b'') = Some ''a;b''"
proof -
  have "quote_identifier ''a;b'' (Some [''a;b'']) = Inr (quote_text ''a;b'')"
    by (simp add: quote_identifier_def)
  with quote_identifier_roundtrip [of "''a;b''" "Some [''a;b'']"] show ?thesis by blast
qed

text \<open>
  C24: No column name can break out of the rendered SQL: whatever characters
  the identifiers contain, the rendered text of an expression ends outside any
  quote and has exactly as many placeholders outside quotes as it has
  parameters.
\<close>

theorem rendered_sql_is_balanced:
  assumes "render_expression available exact types e = Inr (sql, parameters)"
  shows "balanced sql (length parameters)"
  using render_expression_ok [OF assms] by (simp add: rendered_ok_def)

theorem rendered_sql_is_balanced_witness:
  "\<exists>sql ps. render_expression [''?'' @ [CHR 0x22]] False []
     (TypedExpression E_EQUAL T_BOOLEAN None SNone
       [expr_col (''?'' @ [CHR 0x22]) T_STRING, expr_literal (SString ''x'') T_STRING]) = Inr (sql, ps)
     \<and> length ps = 1 \<and> balanced sql 1"
proof -
  let ?e = "TypedExpression E_EQUAL T_BOOLEAN None SNone
       [expr_col (''?'' @ [CHR 0x22]) T_STRING, expr_literal (SString ''x'') T_STRING]"
  obtain sql ps where r: "render_expression [''?'' @ [CHR 0x22]] False [] ?e = Inr (sql, ps)" "length ps = 1"
    by (simp add: expr_col_def expr_literal_def quote_identifier_def render_literal_def render_node_def
        render_binary_def require_arity_def)
  from rendered_sql_is_balanced [OF r(1)] r show ?thesis by (intro exI conjI) (simp_all only:)
qed

text \<open>
  Outside exact mode the SQL text does not depend on literal values at
  all: erasing every literal value leaves the text, and the failure if there is
  one, unchanged. Values travel as parameters only.
\<close>

theorem sql_text_ignores_literals:
  "map_sum id fst (render_expression available False types (erase_values e))
     = map_sum id fst (render_expression available False types e)"
  using render_erased [of available types e] by (simp add: sql_text_def)

text \<open>
  An expression that passed the v1 validator and whose columns exist never
  makes the renderer raise an arity error, an assertion or a value error: it
  renders, or in exact mode is refused as EXPRESSION\_TYPE because no decimal
  type within 38 digits is lossless; outside exact mode it always renders.
\<close>

theorem validated_expression_renders:
  assumes "validate_expression_v1 e" and "columns_available available e"
  shows "(\<exists>r. render_expression available exact types e = Inr r)
           \<or> (exact \<and> render_expression available exact types e = Inl (OperatorFailure ''EXPRESSION_TYPE''))"
proof -
  have "expr_all expression_node_ok e" using assms(1) by (simp add: validate_expression_v1_iff)
  from render_expression_failure [OF this assms(2), of exact types] show ?thesis
    by (cases exact; cases "render_expression available exact types e") (auto simp: type_failure_def)
qed

theorem validated_expression_renders_witness:
  "\<exists>r. render_expression [''a''] False [] (expr_col ''a'' T_STRING) = Inr r"
proof -
  have "validate_expression_v1 (expr_col ''a'' T_STRING)" "columns_available [''a''] (expr_col ''a'' T_STRING)"
    by (simp_all add: validate_expression_v1_def expr_col_def expression_node_ok_def has_text_def
        columns_available_def)
  from validated_expression_renders [OF this, of False "[]"] show ?thesis by simp
qed

text \<open>
  C26: The widths of exact decimal arithmetic: with Arrow column types in their
  ranges, whatever width \<open>_decimal_expression_shape\<close> returns has non-negative
  digit counts and at most 38 digits in total, so every generated
  DECIMAL(p, s) has 1 <= p <= 38 and 0 <= s <= p.
\<close>

theorem decimal_width_bounds:
  assumes "decimal_expression_shape types e = Inr (integer_digits, scale)" and "valid_types types"
  shows "0 \<le> integer_digits \<and> 0 \<le> scale \<and> integer_digits + scale \<le> 38
         \<and> 1 \<le> max 1 (integer_digits + scale) \<and> max 1 (integer_digits + scale) \<le> 38
         \<and> scale \<le> max 1 (integer_digits + scale)"
  using decimal_expression_shape_ok [OF assms] by (auto simp: shape_ok_def)

theorem decimal_width_bounds_witness:
  "decimal_expression_shape [(''a'', A_Decimal128 38 10)]
      (TypedExpression E_ADD T_DECIMAL None SNone [expr_col ''a'' T_DECIMAL, expr_col ''a'' T_DECIMAL])
     = Inr (28, 10) \<and> (28 :: int) + 10 \<le> 38"
proof -
  have "decimal_expression_shape [(''a'', A_Decimal128 38 10)]
      (TypedExpression E_ADD T_DECIMAL None SNone [expr_col ''a'' T_DECIMAL, expr_col ''a'' T_DECIMAL])
     = Inr (28, 10)"
    by (simp add: expr_col_def decimal_leaf_shape_def combine_shapes_def DECIMAL_ARITHMETIC_def py_max_def)
  from this decimal_width_bounds [OF this] show ?thesis by (simp add: valid_types_def)
qed

end
