(* ===== verification/Sql_Operators.thy ===== *)
theory Sql_Operators
  imports Sql_Expressions Plan_Validation
begin

text \<open>
  \<open>operators.py\<close> and \<open>operators_v1.py\<close>: the SQL text and parameters built for
  every operator kind, the checks of the executor around DuckDB and its
  resource limits. A builder sees the Arrow schemas of its inputs. DuckDB
  itself and \<open>pa.scalar\<close> are third-party code: they are arguments of the
  definitions that use them.
\<close>

section \<open>Names\<close>

definition normalize_identifier :: "string \<Rightarrow> string" where
  "normalize_identifier name = map ascii_lower name"

fun reject_normalized_collisions :: "string list \<Rightarrow> string list \<Rightarrow> unit res" where
  "reject_normalized_collisions normalized [] = Inr ()"
| "reject_normalized_collisions normalized (n # ns) =
     (if normalize_identifier n \<in> set normalized then Inl (OperatorFailure ''COLUMN_COLLISION'')
      else reject_normalized_collisions (normalize_identifier n # normalized) ns)"

definition add_output_name :: "string list \<Rightarrow> string \<Rightarrow> string list res" where
  "add_output_name names name =
     (if normalize_identifier name \<in> set names then Inl (OperatorFailure ''COLUMN_COLLISION'')
      else Inr (normalize_identifier name # names))"

fun add_output_names :: "string list \<Rightarrow> string list \<Rightarrow> string list res" where
  "add_output_names names [] = Inr names"
| "add_output_names names (c # cs) = rbind (add_output_name names c) (\<lambda>names'. add_output_names names' cs)"

section \<open>Schemas\<close>

type_synonym schema = "arrow_field list"

definition schema_names :: "schema \<Rightarrow> string list" where
  "schema_names sch = map fld_name sch"

definition schema_types :: "schema \<Rightarrow> (string, arrow_type) dict" where
  "schema_types sch = map (\<lambda>f. (fld_name f, fld_type f)) sch"

text \<open>\<open>schema.field(name).type\<close>.\<close>

definition field_type :: "schema \<Rightarrow> string \<Rightarrow> arrow_type res" where
  "field_type sch name = from_option KeyError (dget (schema_types sch) name)"

definition render :: "typed_expression \<Rightarrow> string list \<Rightarrow> bool \<Rightarrow> schema \<Rightarrow> rendered res" where
  "render e columns exact sch = render_expression columns exact (schema_types sch) e"

section \<open>The v0 operators\<close>

definition operator_invalid :: failure where
  "operator_invalid = OperatorFailure ''OPERATOR_INVALID''"

fun aggregate_name :: "aggregate_function \<Rightarrow> string" where
  "aggregate_name Agg_SUM = ''SUM''"
| "aggregate_name Agg_AVG = ''AVG''"
| "aggregate_name Agg_MIN = ''MIN''"
| "aggregate_name Agg_MAX = ''MAX''"
| "aggregate_name Agg_COUNT = ''COUNT''"

fun join_name :: "join_type \<Rightarrow> string" where
  "join_name J_INNER = ''INNER''"
| "join_name J_LEFT = ''LEFT''"
| "join_name J_RIGHT = ''RIGHT''"
| "join_name J_FULL = ''FULL''"

definition quote_all :: "string list \<Rightarrow> string list \<Rightarrow> string list res" where
  "quote_all columns names = traverse (\<lambda>c. quote_identifier c (Some columns)) names"

text \<open>The loop over \<open>spec.columns\<close> of \<open>_select_query\<close>.\<close>

fun project_columns :: "string list \<Rightarrow> string list \<Rightarrow> string list \<Rightarrow> (string list \<times> string list) res" where
  "project_columns columns names [] = Inr (names, [])"
| "project_columns columns names (c # cs) =
     rbind (add_output_name names c) (\<lambda>names1.
     rbind (quote_identifier c (Some columns)) (\<lambda>q.
     rbind (project_columns columns names1 cs) (\<lambda>(names2, ps). Inr (names2, q # ps))))"

definition named_projection :: "string \<Rightarrow> string \<Rightarrow> string res" where
  "named_projection sql name = rbind (quote_identifier name None) (\<lambda>q. Inr (sql @ '' AS '' @ q))"

text \<open>The loop over \<open>spec.expressions\<close> of \<open>_select_query\<close> and \<open>_derive_query\<close>.\<close>

fun project_expressions ::
  "string list \<Rightarrow> bool \<Rightarrow> schema \<Rightarrow> string list \<Rightarrow> named_expression list
     \<Rightarrow> (string list \<times> rendered list) res" where
  "project_expressions columns exact sch names [] = Inr (names, [])"
| "project_expressions columns exact sch names (item # items) =
     rbind (add_output_name names (ne_name item)) (\<lambda>names1.
     rbind (render (ne_expression item) columns exact sch) (\<lambda>r.
     rbind (named_projection (fst r) (ne_name item)) (\<lambda>p.
     rbind (project_expressions columns exact sch names1 items) (\<lambda>(names2, rs).
       Inr (names2, (p, snd r) # rs)))))"

definition select_query :: "operator_spec \<Rightarrow> string list \<Rightarrow> schema \<Rightarrow> rendered res" where
  "select_query spec columns sch =
     rbind (project_columns columns [] (op_columns spec)) (\<lambda>(names, ps).
     rbind (project_expressions columns (is_v1 spec) sch names (op_expressions spec)) (\<lambda>(names', rs).
       let projections = ps @ map fst rs
       in rbind (raise_unless (projections \<noteq> []) operator_invalid) (\<lambda>_.
            Inr (''SELECT '' @ join_with '', '' projections @ '' FROM input_0'', concat (map snd rs)))))"

fun aggregate_items ::
  "string list \<Rightarrow> bool \<Rightarrow> schema \<Rightarrow> string list \<Rightarrow> aggregate_spec list \<Rightarrow> rendered list res" where
  "aggregate_items columns exact sch names [] = Inr []"
| "aggregate_items columns exact sch names (a # as) =
     rbind (add_output_name names (agg_name a)) (\<lambda>names1.
     rbind (case agg_expression a of
              None \<Rightarrow> if agg_function a = Agg_COUNT then Inr (''*'', []) else Inl operator_invalid
            | Some e \<Rightarrow> render e columns exact sch) (\<lambda>r.
     rbind (named_projection (aggregate_name (agg_function a) @ ''('' @ fst r @ '')'') (agg_name a)) (\<lambda>p.
     rbind (aggregate_items columns exact sch names1 as) (\<lambda>rs. Inr ((p, snd r) # rs)))))"

definition group_clause :: "string \<Rightarrow> string list \<Rightarrow> string" where
  "group_clause keyword qs = (if qs = [] then [] else keyword @ join_with '', '' qs)"

definition aggregate_query :: "operator_spec \<Rightarrow> string list \<Rightarrow> string \<Rightarrow> schema \<Rightarrow> rendered res" where
  "aggregate_query spec columns source sch =
     rbind (quote_all columns (op_group_by spec)) (\<lambda>groups.
     rbind (add_output_names [] (op_group_by spec)) (\<lambda>names.
     rbind (aggregate_items columns (is_v1 spec) sch names (op_aggregates spec)) (\<lambda>rs.
     rbind (raise_unless (op_aggregates spec \<noteq> []) operator_invalid) (\<lambda>_.
     rbind (quote_identifier source None) (\<lambda>src.
       Inr (''SELECT '' @ join_with '', '' (groups @ map fst rs) @ '' FROM '' @ src
              @ group_clause '' GROUP BY '' groups, concat (map snd rs)))))))"

fun pivot_items :: "string \<Rightarrow> string \<Rightarrow> string list \<Rightarrow> string list \<Rightarrow> rendered list res" where
  "pivot_items column val names [] = Inr []"
| "pivot_items column val names (v # vs) =
     rbind (add_output_name names v) (\<lambda>names1.
     rbind (named_projection (''SUM(CASE WHEN '' @ column @ '' = ? THEN '' @ val @ '' END)'') v) (\<lambda>p.
     rbind (pivot_items column val names1 vs) (\<lambda>rs. Inr ((p, [ScalarParam (SString v)]) # rs))))"

definition pivot_query :: "operator_spec \<Rightarrow> string list \<Rightarrow> rendered res" where
  "pivot_query spec columns =
     (if \<not> has_text (op_pivot_column spec) \<or> \<not> has_text (op_pivot_value spec) \<or> op_pivot_values spec = []
      then Inl operator_invalid
      else rbind (quote_identifier (the (op_pivot_column spec)) (Some columns)) (\<lambda>column.
           rbind (quote_identifier (the (op_pivot_value spec)) (Some columns)) (\<lambda>val.
           rbind (quote_all columns (op_pivot_index spec)) (\<lambda>index.
           rbind (add_output_names [] (op_pivot_index spec)) (\<lambda>names.
           rbind (pivot_items column val names (op_pivot_values spec)) (\<lambda>rs.
             Inr (''SELECT '' @ join_with '', '' (index @ map fst rs) @ '' FROM input_0''
                    @ group_clause '' GROUP BY '' index @ group_clause '' ORDER BY '' index,
                  concat (map snd rs))))))))"

definition derive_query :: "operator_spec \<Rightarrow> string list \<Rightarrow> schema \<Rightarrow> rendered res" where
  "derive_query spec columns sch =
     rbind (project_expressions columns (is_v1 spec) sch (map normalize_identifier columns) (op_expressions spec))
       (\<lambda>(names, rs).
     rbind (raise_unless (op_expressions spec \<noteq> []) operator_invalid) (\<lambda>_.
       Inr (''SELECT '' @ join_with '', '' (''*'' # map fst rs) @ '' FROM input_0'', concat (map snd rs))))"

definition join_clause :: "string list \<Rightarrow> string list \<Rightarrow> join_key \<Rightarrow> string res" where
  "join_clause left_columns right_columns k =
     rbind (quote_identifier (jk_left k) (Some left_columns)) (\<lambda>l.
     rbind (quote_identifier (jk_right k) (Some right_columns)) (\<lambda>r.
       Inr (''left_input.'' @ l @ '' = right_input.'' @ r)))"

definition join_query :: "operator_spec \<Rightarrow> schema list \<Rightarrow> rendered res" where
  "join_query spec inputs =
     (case op_join_type spec of
        None \<Rightarrow> Inl operator_invalid
      | Some jt \<Rightarrow>
          if op_join_keys spec = [] then Inl operator_invalid
          else (let left_columns = schema_names (inputs ! 0); right_columns = schema_names (inputs ! 1)
                in if set (map normalize_identifier left_columns) \<inter> set (map normalize_identifier right_columns) \<noteq> {}
                   then Inl (OperatorFailure ''COLUMN_COLLISION'')
                   else rbind (traverse (join_clause left_columns right_columns) (op_join_keys spec)) (\<lambda>clauses.
                     Inr (''SELECT left_input.*, right_input.* FROM input_0 AS left_input ''
                            @ join_name jt @ '' JOIN input_1 AS right_input ON ''
                            @ join_with '' AND '' clauses, []))))"

definition sort_term :: "string list \<Rightarrow> sort_spec \<Rightarrow> string res" where
  "sort_term columns item =
     rbind (quote_identifier (sort_column item) (Some columns)) (\<lambda>q.
       Inr (q @ (if sort_dir item = ASC then '' ASC'' else '' DESC'')
              @ (if sort_nulls_first item then '' NULLS FIRST'' else '' NULLS LAST'')))"

section \<open>The v1 operators\<close>

text \<open>\<open>str.lower()\<close> on the code points up to 255.\<close>

definition lower_char :: "char \<Rightarrow> char" where
  "lower_char c =
     (let n = (of_char c :: nat)
      in if (65 \<le> n \<and> n \<le> 90) \<or> (192 \<le> n \<and> n \<le> 222 \<and> n \<noteq> 215) then char_of (n + 32) else c)"

definition new_name :: "string \<Rightarrow> string list \<Rightarrow> string res" where
  "new_name name columns =
     (if map lower_char name \<in> set (map (map lower_char) columns)
      then Inl (OperatorFailure ''COLUMN_COLLISION'')
      else quote_identifier name None)"

definition in_range :: "int \<Rightarrow> int \<Rightarrow> nat \<Rightarrow> bool" where
  "in_range minimum v bits = (minimum \<le> v \<and> v < minimum + 2 ^ bits)"

definition last_digits_nonzero :: "int \<Rightarrow> nat \<Rightarrow> bool" where
  "last_digits_nonzero c k =
     (let ds = show_nat c in list_ex (\<lambda>d. d \<noteq> CHR ''0'') (drop (length ds - k) ds))"

fun unit_divisor :: "time_unit \<Rightarrow> int" where
  "unit_divisor Unit_s = 1000000"
| "unit_divisor Unit_ms = 1000"
| "unit_divisor Unit_us = 1"
| "unit_divisor Unit_ns = 1"

definition validate_decimal_target :: "decimal \<Rightarrow> nat \<Rightarrow> int \<Rightarrow> unit res" where
  "validate_decimal_target d precision scale =
     rbind (decimal_shape d) (\<lambda>(integer_digits, sc).
       let discarded = max 0 (int sc - scale)
       in raise_unless (\<not> (int precision - scale < int integer_digits
              \<or> (discarded \<noteq> 0 \<and> (case d of DFinite neg c e \<Rightarrow> last_digits_nonzero c (nat discarded) | _ \<Rightarrow> False))))
            operator_invalid)"

definition validate_imputation_value :: "native \<Rightarrow> arrow_type \<Rightarrow> unit res" where
  "validate_imputation_value v target =
     (case target of
        A_Int bits signed \<Rightarrow>
          (case v of
             NInt i \<Rightarrow> raise_unless (in_range (if signed then - (2 ^ (bits - 1)) else 0) i bits) operator_invalid
           | _ \<Rightarrow> Inl AssertionError)
      | A_Decimal128 precision scale \<Rightarrow>
          (case v of NDecimal d \<Rightarrow> validate_decimal_target d precision scale | _ \<Rightarrow> Inl AssertionError)
      | A_Decimal256 precision scale \<Rightarrow>
          (case v of NDecimal d \<Rightarrow> validate_decimal_target d precision scale | _ \<Rightarrow> Inl AssertionError)
      | A_Timestamp u tz \<Rightarrow>
          (case v of
             NTimestamp us \<Rightarrow>
               (let divisor = unit_divisor u;
                    units = (if u \<noteq> Unit_ns then us div divisor else us * 1000)
                in raise_unless (us mod divisor = 0 \<and> - (2 ^ 63) \<le> units \<and> units < 2 ^ 63) operator_invalid)
           | _ \<Rightarrow> Inl AssertionError)
      | _ \<Rightarrow> Inr ())"

definition row_json :: "string list \<Rightarrow> string res" where
  "row_json columns =
     (if columns = [] then Inl operator_invalid
      else rbind (traverse (\<lambda>c. quote_identifier c None) columns) (\<lambda>qs.
             Inr (''to_json(struct_pack('' @ join_with '', '' (map (\<lambda>q. q @ '' := '' @ q) qs) @ ''))'')))"

definition order_terms :: "operator_spec \<Rightarrow> string list \<Rightarrow> string \<Rightarrow> bool \<Rightarrow> string res" where
  "order_terms spec columns json tie_break =
     rbind (traverse (sort_term columns) (op_sort spec)) (\<lambda>terms.
       Inr (join_with '', '' (terms @ (if tie_break then [json] else []))))"

fun set_operation :: "operator_kind \<Rightarrow> string" where
  "set_operation Op_UNION_ALL = ''UNION ALL''"
| "set_operation Op_UNION_DISTINCT = ''UNION''"
| "set_operation Op_INTERSECT = ''INTERSECT''"
| "set_operation _ = ''EXCEPT''"

fun window_name :: "window_function \<Rightarrow> string" where
  "window_name W_row_number = ''row_number''"
| "window_name W_rank = ''rank''"
| "window_name W_dense_rank = ''dense_rank''"
| "window_name W_sum = ''sum''"
| "window_name W_min = ''min''"
| "window_name W_max = ''max''"
| "window_name W_count = ''count''"

definition set_query :: "operator_spec \<Rightarrow> schema list \<Rightarrow> rendered res" where
  "set_query spec inputs =
     (if inputs ! 0 \<noteq> inputs ! 1 then Inl operator_invalid
      else Inr (''SELECT * FROM input_0 '' @ set_operation (op_kind spec) @ '' SELECT * FROM input_1'', []))"

definition distinct_query :: "operator_spec \<Rightarrow> string list \<Rightarrow> rendered res" where
  "distinct_query spec columns =
     rbind (quote_all columns (op_columns spec)) (\<lambda>qs.
       Inr (''SELECT DISTINCT '' @ (if qs = [] then ''*'' else join_with '', '' qs) @ '' FROM input_0'', []))"

text \<open>The prefix, the row identity and the order DEDUPLICATE, PICK and WINDOW share.\<close>

definition partition_prefix :: "operator_spec \<Rightarrow> string list \<Rightarrow> string res" where
  "partition_prefix spec columns =
     rbind (quote_all columns (ext_partition_by (ext_of spec))) (\<lambda>qs.
       Inr (if qs = [] then [] else ''PARTITION BY '' @ join_with '', '' qs @ '' ''))"

definition pick_count :: "operator_spec \<Rightarrow> int" where
  "pick_count spec =
     (if op_limit spec = Some 0 then 0
      else if op_kind spec = Op_DEDUPLICATE then 1
      else (case op_limit spec of None \<Rightarrow> 1 | Some n \<Rightarrow> n))"

definition pick_query :: "operator_spec \<Rightarrow> string \<Rightarrow> string \<Rightarrow> rendered" where
  "pick_query spec prefix order =
     (''SELECT * FROM input_0 QUALIFY row_number() OVER ('' @ prefix @ ''ORDER BY '' @ order
        @ '') <= ? ORDER BY '' @ order, [ScalarParam (SInt (pick_count spec))])"

definition window_frame :: "window_spec \<Rightarrow> string" where
  "window_frame window =
     (if win_column window \<noteq> None
      then '' ROWS BETWEEN '' @ show_int (win_preceding window) @ '' PRECEDING AND CURRENT ROW''
      else [])"

definition window_query ::
  "operator_spec \<Rightarrow> string list \<Rightarrow> string \<Rightarrow> string \<Rightarrow> string \<Rightarrow> rendered res" where
  "window_query spec columns json prefix order =
     rbind (from_option AssertionError (ext_window (ext_of spec))) (\<lambda>window.
     rbind (new_name (win_output window) columns) (\<lambda>output.
     rbind (if win_function window \<in> {W_rank, W_dense_rank} then order_terms spec columns json False
            else Inr order) (\<lambda>order'.
     rbind (case win_column window of None \<Rightarrow> Inr [] | Some c \<Rightarrow> quote_identifier c (Some columns)) (\<lambda>expression.
       Inr (''SELECT *, '' @ window_name (win_function window) @ ''('' @ expression @ '') OVER (''
                 @ prefix @ ''ORDER BY '' @ order' @ window_frame window @ '') AS '' @ output
                 @ '' FROM input_0 ORDER BY '' @ order' @ '', '' @ output, [])))))"

definition ranked_query :: "operator_spec \<Rightarrow> schema \<Rightarrow> rendered res" where
  "ranked_query spec sch =
     (let columns = schema_names sch
      in rbind (partition_prefix spec columns) (\<lambda>prefix.
         rbind (row_json columns) (\<lambda>json.
         rbind (order_terms spec columns json True) (\<lambda>order.
           if op_kind spec \<in> {Op_DEDUPLICATE, Op_PICK} then Inr (pick_query spec prefix order)
           else window_query spec columns json prefix order))))"

text \<open>The seed and the limit of SAMPLE may be \<open>None\<close> only before validation.\<close>

definition int_param :: "int option \<Rightarrow> sql_parameter" where
  "int_param m = ScalarParam (case m of None \<Rightarrow> SNone | Some n \<Rightarrow> SInt n)"

definition sample_query :: "operator_spec \<Rightarrow> schema \<Rightarrow> rendered res" where
  "sample_query spec sch =
     rbind (row_json (schema_names sch)) (\<lambda>json.
       Inr (''SELECT * FROM input_0 ORDER BY md5(CAST(? AS VARCHAR) || '' @ [CHR 0x27, CHR '':'', CHR 0x27]
              @ '' || '' @ json @ ''), '' @ json @ '' LIMIT ?'',
            [int_param (ext_sample_seed (ext_of spec)), int_param (op_limit spec)]))"

definition date_query :: "operator_spec \<Rightarrow> schema \<Rightarrow> rendered res" where
  "date_query spec sch =
     (let columns = schema_names sch
      in rbind (from_option AssertionError (ext_date (ext_of spec))) (\<lambda>date.
         rbind (quote_identifier (date_column date) (Some columns)) (\<lambda>column.
         rbind (new_name (date_output date) columns) (\<lambda>output.
         rbind (field_type sch (date_column date)) (\<lambda>data_type.
         rbind (raise_unless (case data_type of A_Date \<Rightarrow> True | A_Timestamp u tz \<Rightarrow> tz = None | _ \<Rightarrow> False)
                  operator_invalid) (\<lambda>_.
           let bucket = ''date_trunc(?, '' @ column @ '')'';
               bucket' = (if data_type = A_Date then ''CAST('' @ bucket @ '' AS DATE)'' else bucket);
               inner = ''SELECT *, '' @ bucket' @ '' AS '' @ output @ '' FROM input_0'';
               grain = ScalarParam (SString (time_grain_value (date_grain date)))
           in if op_kind spec = Op_DATE then Inr (inner, [grain])
              else rbind (aggregate_query (spec\<lparr>op_kind := Op_AGGREGATE,
                              op_group_by := date_output date # op_group_by spec, op_time_grain := None\<rparr>)
                            (date_output date # columns) ''bucketed'' sch) (\<lambda>(sql, parameters).
                     Inr (''WITH bucketed AS ('' @ inner @ '') '' @ sql, grain # parameters))))))))"

definition explode_query :: "operator_spec \<Rightarrow> schema \<Rightarrow> rendered res" where
  "explode_query spec sch =
     (let columns = schema_names sch
      in rbind (from_option AssertionError (ext_explode (ext_of spec))) (\<lambda>explode.
         rbind (quote_identifier (expl_column explode) (Some columns)) (\<lambda>column.
         rbind (new_name (expl_output explode) columns) (\<lambda>output.
         rbind (field_type sch (expl_column explode)) (\<lambda>data_type.
         rbind (raise_unless (case data_type of A_List t \<Rightarrow> True | A_Large_List t \<Rightarrow> True | _ \<Rightarrow> False)
                  operator_invalid) (\<lambda>_.
           Inr (''SELECT *, unnest('' @ column @ '') AS '' @ output @ '' FROM input_0'', [])))))))"

definition unpivot_branch :: "string \<Rightarrow> string \<Rightarrow> string \<Rightarrow> string \<Rightarrow> string res" where
  "unpivot_branch prefix name val c =
     rbind (quote_identifier c None) (\<lambda>q.
       Inr (''SELECT '' @ prefix @ ''CAST(? AS VARCHAR) AS '' @ name @ '', '' @ q @ '' AS '' @ val
              @ '' FROM input_0''))"

definition unpivot_query :: "operator_spec \<Rightarrow> schema \<Rightarrow> rendered res" where
  "unpivot_query spec sch =
     (let columns = schema_names sch
      in rbind (from_option AssertionError (ext_unpivot (ext_of spec))) (\<lambda>unpivot.
         rbind (raise_unless (distinct (unp_columns unpivot)) operator_invalid) (\<lambda>_.
         rbind (new_name (unp_name_column unpivot) columns) (\<lambda>name.
         rbind (new_name (unp_value_column unpivot) (unp_name_column unpivot # columns)) (\<lambda>val.
         rbind (quote_all columns (unp_columns unpivot)) (\<lambda>_.
         rbind (traverse (field_type sch) (unp_columns unpivot)) (\<lambda>types.
         rbind (raise_unless (length (dedupe types) = 1) operator_invalid) (\<lambda>_.
         rbind (traverse (\<lambda>c. quote_identifier c None)
                  (filter (\<lambda>c. c \<notin> set (unp_columns unpivot)) columns)) (\<lambda>retained.
         rbind (traverse (unpivot_branch (concat (map (\<lambda>q. q @ '', '') retained)) name val)
                  (unp_columns unpivot)) (\<lambda>queries.
           Inr (join_with '' UNION ALL '' queries,
                map (\<lambda>c. ScalarParam (SString c)) (unp_columns unpivot))))))))))))"

fun literal_matches :: "scalar_type \<Rightarrow> arrow_type \<Rightarrow> bool" where
  "literal_matches T_STRING t = (t = A_String)"
| "literal_matches T_INTEGER t = (case t of A_Int b s \<Rightarrow> True | _ \<Rightarrow> False)"
| "literal_matches T_FLOAT t = (case t of A_Float b \<Rightarrow> True | _ \<Rightarrow> False)"
| "literal_matches T_DECIMAL t = (case t of A_Decimal128 p s \<Rightarrow> True | A_Decimal256 p s \<Rightarrow> True | _ \<Rightarrow> False)"
| "literal_matches T_BOOLEAN t = (t = A_Bool)"
| "literal_matches T_DATE t = (t = A_Date)"
| "literal_matches T_TIMESTAMP t = (case t of A_Timestamp u tz \<Rightarrow> True | _ \<Rightarrow> False)"

definition impute_query :: "(native \<Rightarrow> arrow_type \<Rightarrow> native option) \<Rightarrow> operator_spec \<Rightarrow> schema \<Rightarrow> rendered res" where
  "impute_query arrow_scalar spec sch =
     (let columns = schema_names sch
      in rbind (from_option AssertionError (ext_impute (ext_of spec))) (\<lambda>impute.
         rbind (quote_identifier (imp_column impute) (Some columns)) (\<lambda>column.
         rbind (field_type sch (imp_column impute)) (\<lambda>target.
         let literal = imp_value impute
         in rbind (raise_unless (literal_matches (expr_type literal) target) operator_invalid) (\<lambda>_.
            rbind (render literal columns True []) (\<lambda>_.
            rbind (scalar_value (scalar_type_value (expr_type literal)) (expr_value literal)) (\<lambda>replacement.
            rbind (validate_imputation_value replacement target) (\<lambda>_.
            rbind (from_option operator_invalid (arrow_scalar replacement target)) (\<lambda>converted.
            rbind (traverse (\<lambda>c. if c = imp_column impute
                                 then Inr (''COALESCE('' @ column @ '', cast_to_type(?, '' @ column @ '')) AS '' @ column)
                                 else quote_identifier c None) columns) (\<lambda>expressions.
              Inr (''SELECT '' @ join_with '', '' expressions @ '' FROM input_0'', [NativeParam converted])))))))))))"

definition build_extension_query ::
  "(native \<Rightarrow> arrow_type \<Rightarrow> native option) \<Rightarrow> operator_spec \<Rightarrow> schema list \<Rightarrow> rendered option res" where
  "build_extension_query arrow_scalar spec inputs =
     (let kind = op_kind spec; sch = inputs ! 0; columns = schema_names sch
      in if kind \<in> set SET_OPERATORS then map_sum id Some (set_query spec inputs)
         else if kind = Op_DISTINCT then map_sum id Some (distinct_query spec columns)
         else if kind \<in> {Op_DEDUPLICATE, Op_PICK, Op_WINDOW} then map_sum id Some (ranked_query spec sch)
         else if kind = Op_SAMPLE then map_sum id Some (sample_query spec sch)
         else if kind \<in> {Op_DATE, Op_RESAMPLE} then map_sum id Some (date_query spec sch)
         else if kind = Op_SUMMARIZE then map_sum id Some (aggregate_query spec columns ''input_0'' sch)
         else if kind = Op_EXPLODE then map_sum id Some (explode_query spec sch)
         else if kind = Op_UNPIVOT then map_sum id Some (unpivot_query spec sch)
         else if kind = Op_IMPUTE then map_sum id Some (impute_query arrow_scalar spec sch)
         else Inr None)"

section \<open>The query of an operator\<close>

definition legacy_query :: "operator_spec \<Rightarrow> schema list \<Rightarrow> rendered res" where
  "legacy_query spec inputs =
     (let kind = op_kind spec; sch = inputs ! 0; columns = schema_names sch
      in if kind \<in> {Op_SELECT, Op_PROJECT} then select_query spec columns sch
         else if kind = Op_FILTER then
           (case op_predicate spec of
              None \<Rightarrow> Inl operator_invalid
            | Some p \<Rightarrow> rbind (render (pred_expression p) columns (is_v1 spec) sch) (\<lambda>(sql, parameters).
                Inr (''SELECT * FROM input_0 WHERE '' @ sql, parameters)))
         else if kind = Op_AGGREGATE then
           (if op_time_grain spec \<noteq> None then Inl (OperatorFailure ''OPERATOR_TIME_GRAIN_UNSUPPORTED'')
            else aggregate_query spec columns ''input_0'' sch)
         else if kind = Op_PIVOT then pivot_query spec columns
         else if kind = Op_DERIVE then derive_query spec columns sch
         else if kind = Op_SORT then
           (if op_sort spec = [] then Inl operator_invalid
            else rbind (traverse (sort_term columns) (op_sort spec)) (\<lambda>terms.
                   Inr (''SELECT * FROM input_0 ORDER BY '' @ join_with '', '' terms, [])))
         else if kind = Op_LIMIT then
           (case op_limit spec of
              None \<Rightarrow> Inl operator_invalid
            | Some n \<Rightarrow> Inr (''SELECT * FROM input_0 LIMIT ?'', [ScalarParam (SInt n)]))
         else if kind = Op_JOIN then join_query spec inputs
         else Inl (OperatorFailure ''OPERATOR_UNSUPPORTED''))"

definition build_query ::
  "(native \<Rightarrow> arrow_type \<Rightarrow> native option) \<Rightarrow> operator_spec \<Rightarrow> schema list \<Rightarrow> rendered res" where
  "build_query arrow_scalar spec inputs =
     rbind (check_each (\<lambda>sch. reject_normalized_collisions [] (schema_names sch)) inputs) (\<lambda>_.
     rbind (raise_unless (op_kind spec \<notin> set BLOCKED_OPERATOR_KINDS)
              (OperatorFailure ''OPERATOR_UNSUPPORTED'')) (\<lambda>_.
     rbind (if is_v1 spec then build_extension_query arrow_scalar spec inputs else Inr None) (\<lambda>extended.
       case extended of Some q \<Rightarrow> Inr q | None \<Rightarrow> legacy_query spec inputs)))"

section \<open>Placeholders of operator queries\<close>

text \<open>
  The two halves of \<^const>\<open>balanced\<close> as rewrite rules: a text whose quotes
  are closed can be read past, adding its placeholders.
\<close>

definition well_quoted :: "string \<Rightarrow> bool" where
  "well_quoted s \<longleftrightarrow> fst (lex Plain s) = Plain"

definition holes :: "string \<Rightarrow> nat" where
  "holes s = snd (lex Plain s)"

named_theorems sql_simps \<open>reading SQL text\<close>

lemma balanced_iff: "balanced s n \<longleftrightarrow> well_quoted s \<and> holes s = n"
  by (auto simp: balanced_def well_quoted_def holes_def prod_eq_iff)

lemma sql_append [sql_simps]:
  assumes "well_quoted a"
  shows "well_quoted (a @ b) = well_quoted b" "holes (a @ b) = holes a + holes b"
  using assms by (simp_all add: lex_append well_quoted_def holes_def Let_def split_def)

lemma sql_chars [sql_simps]:
  "well_quoted []" "holes [] = 0"
  "c \<noteq> CHR 0x22 \<Longrightarrow> c \<noteq> CHR 0x27 \<Longrightarrow> well_quoted (c # cs) = well_quoted cs"
  "c \<noteq> CHR 0x22 \<Longrightarrow> c \<noteq> CHR 0x27 \<Longrightarrow> holes (c # cs) = (if c = CHR ''?'' then Suc (holes cs) else holes cs)"
  "c \<noteq> CHR 0x27 \<Longrightarrow> well_quoted (CHR 0x27 # c # CHR 0x27 # cs) = well_quoted cs"
  "c \<noteq> CHR 0x27 \<Longrightarrow> holes (CHR 0x27 # c # CHR 0x27 # cs) = holes cs"
  by (auto simp: well_quoted_def holes_def Let_def split_def)

lemma rendered_ok_iff: "rendered_ok r \<longleftrightarrow> well_quoted (fst r) \<and> holes (fst r) = length (snd r)"
  by (simp add: rendered_ok_def balanced_iff)

lemma quote_text_sql [sql_simps]: "well_quoted (quote_text s)" "holes (quote_text s) = 0"
  using quote_text_balanced [of s] by (simp_all add: balanced_iff)

lemma show_int_sql [sql_simps]: "well_quoted (show_int i)" "holes (show_int i) = 0"
  using plain_text_balanced [OF show_int_plain, of i] by (simp_all add: balanced_iff)

lemma join_sql:
  assumes "\<forall>x \<in> set xs. well_quoted x" "balanced sep 0"
  shows "well_quoted (join_with sep xs)" "holes (join_with sep xs) = sum_list (map holes xs)"
proof -
  have "list_all2 balanced xs (map holes xs)" using assms(1) by (induction xs) (auto simp: balanced_iff)
  from join_balanced [OF this assms(2)]
  show "well_quoted (join_with sep xs)" "holes (join_with sep xs) = sum_list (map holes xs)"
    by (simp_all add: balanced_iff)
qed

lemma separators_balanced: "balanced '', '' 0" "balanced '' AND '' 0" "balanced '' UNION ALL '' 0"
  by (simp_all add: balanced_def)

definition quoted_only :: "string list \<Rightarrow> bool" where
  "quoted_only xs \<longleftrightarrow> (\<forall>x \<in> set xs. well_quoted x \<and> holes x = 0)"

lemma quoted_only_join [sql_simps]:
  assumes "quoted_only xs"
  shows "well_quoted (join_with '', '' xs)" "holes (join_with '', '' xs) = 0"
    "well_quoted (join_with '' AND '' xs)" "holes (join_with '' AND '' xs) = 0"
  using assms join_sql [of xs, OF _ separators_balanced(1)] join_sql [of xs, OF _ separators_balanced(2)]
  by (auto simp: quoted_only_def cong: map_cong)

lemma quoted_only_simps [simp]:
  "quoted_only []" "quoted_only (x # xs) \<longleftrightarrow> well_quoted x \<and> holes x = 0 \<and> quoted_only xs"
  "quoted_only (xs @ ys) \<longleftrightarrow> quoted_only xs \<and> quoted_only ys"
  by (auto simp: quoted_only_def)

lemma traverse_quoted_only:
  "traverse f xs = Inr ys \<Longrightarrow> (\<And>x y. f x = Inr y \<Longrightarrow> well_quoted y \<and> holes y = 0) \<Longrightarrow> quoted_only ys"
  unfolding quoted_only_def using traverse_member by metis

lemma quote_identifier_sql: "quote_identifier i av = Inr q \<Longrightarrow> well_quoted q \<and> holes q = 0"
  by (auto simp: quote_identifier_ok sql_simps)

lemma quote_all_sql: "quote_all columns names = Inr qs \<Longrightarrow> quoted_only qs"
  unfolding quote_all_def by (erule traverse_quoted_only) (rule quote_identifier_sql)

lemma rendered_items_join:
  assumes "quoted_only qs" "\<forall>r \<in> set rs. rendered_ok r"
  shows "well_quoted (join_with '', '' (qs @ map fst rs))"
    "holes (join_with '', '' (qs @ map fst rs)) = length (concat (map snd rs))"
proof -
  have wq: "\<forall>x \<in> set (qs @ map fst rs). well_quoted x"
    using assms by (auto simp: quoted_only_def rendered_ok_iff)
  have "sum_list (map holes qs) = 0" using assms(1) by (induction qs) auto
  moreover have "sum_list (map (\<lambda>r. holes (fst r)) rs) = length (concat (map snd rs))"
    using assms(2) by (induction rs) (auto simp: rendered_ok_iff)
  ultimately show "well_quoted (join_with '', '' (qs @ map fst rs))"
    "holes (join_with '', '' (qs @ map fst rs)) = length (concat (map snd rs))"
    using join_sql [OF wq separators_balanced(1)] by (simp_all add: comp_def)
qed

lemma render_rendered_ok: "render e columns exact sch = Inr r \<Longrightarrow> rendered_ok r"
  unfolding render_def by (rule render_expression_ok)

lemma named_projection_ok:
  "named_projection sql name = Inr p \<Longrightarrow> well_quoted sql \<Longrightarrow> well_quoted p \<and> holes p = holes sql"
  by (auto simp: named_projection_def quote_identifier_ok sql_simps)

lemma project_columns_sql:
  "project_columns columns names cs = Inr (names', ps) \<Longrightarrow> quoted_only ps"
  by (induction cs arbitrary: names ps) (auto dest: quote_identifier_sql)

lemma project_expressions_ok:
  "project_expressions columns exact sch names items = Inr (names', rs) \<Longrightarrow> \<forall>r \<in> set rs. rendered_ok r"
proof (induction items arbitrary: names rs)
  case (Cons item items)
  then obtain names1 r p rs' where r: "render (ne_expression item) columns exact sch = Inr r"
    and p: "named_projection (fst r) (ne_name item) = Inr p"
    and rest: "project_expressions columns exact sch names1 items = Inr (names', rs')"
    and rs: "rs = (p, snd r) # rs'"
    by auto
  from named_projection_ok [OF p] render_rendered_ok [OF r] Cons.IH [OF rest] rs
  show ?case by (simp add: rendered_ok_iff)
qed simp

lemma select_query_ok: "select_query spec columns sch = Inr r \<Longrightarrow> rendered_ok r"
  by (auto simp: select_query_def Let_def rendered_ok_iff sql_simps
      rendered_items_join [OF project_columns_sql project_expressions_ok])

lemma aggregate_name_sql [sql_simps]: "well_quoted (aggregate_name f)" "holes (aggregate_name f) = 0"
  by (cases f; simp add: sql_simps)+

lemma join_name_sql [sql_simps]: "well_quoted (join_name j)" "holes (join_name j) = 0"
  by (cases j; simp add: sql_simps)+

lemma set_operation_sql [sql_simps]: "well_quoted (set_operation k)" "holes (set_operation k) = 0"
  by (cases k; simp add: sql_simps)+

lemma window_name_sql [sql_simps]: "well_quoted (window_name w)" "holes (window_name w) = 0"
  by (cases w; simp add: sql_simps)+

lemma aggregate_items_ok:
  "aggregate_items columns exact sch names as = Inr rs \<Longrightarrow> \<forall>r \<in> set rs. rendered_ok r"
proof (induction as arbitrary: names rs)
  case (Cons a as)
  then obtain names1 r p rs' where
    r: "(case agg_expression a of
            None \<Rightarrow> if agg_function a = Agg_COUNT then Inr (''*'', []) else Inl operator_invalid
          | Some e \<Rightarrow> render e columns exact sch) = Inr r"
    and p: "named_projection (aggregate_name (agg_function a) @ ''('' @ fst r @ '')'') (agg_name a) = Inr p"
    and rest: "aggregate_items columns exact sch names1 as = Inr rs'"
    and rs: "rs = (p, snd r) # rs'"
    by auto
  have "rendered_ok r"
    using r render_rendered_ok by (auto simp: rendered_ok_iff sql_simps split: option.splits if_splits)
  with named_projection_ok [OF p] Cons.IH [OF rest] rs show ?case
    by (simp add: rendered_ok_iff sql_simps)
qed simp

lemma group_clause_sql [sql_simps]:
  "quoted_only qs \<Longrightarrow> balanced keyword 0 \<Longrightarrow> well_quoted (group_clause keyword qs)"
  "quoted_only qs \<Longrightarrow> balanced keyword 0 \<Longrightarrow> holes (group_clause keyword qs) = 0"
  by (auto simp: group_clause_def balanced_iff sql_simps)

lemma keywords_balanced [simp]: "balanced '' GROUP BY '' 0" "balanced '' ORDER BY '' 0"
  by (simp_all add: balanced_def)

lemma aggregate_query_ok: "aggregate_query spec columns source sch = Inr r \<Longrightarrow> rendered_ok r"
proof -
  assume "aggregate_query spec columns source sch = Inr r"
  then obtain groups names rs src where q: "quote_all columns (op_group_by spec) = Inr groups"
    and rs: "aggregate_items columns (is_v1 spec) sch names (op_aggregates spec) = Inr rs"
    and src: "quote_identifier source None = Inr src"
    and r: "r = (''SELECT '' @ join_with '', '' (groups @ map fst rs) @ '' FROM '' @ src
              @ group_clause '' GROUP BY '' groups, concat (map snd rs))"
    by (auto simp: aggregate_query_def)
  from rendered_items_join [OF quote_all_sql [OF q] aggregate_items_ok [OF rs]] quote_all_sql [OF q]
    quote_identifier_sql [OF src]
  show ?thesis by (simp add: r rendered_ok_iff sql_simps)
qed

lemma pivot_items_ok:
  assumes "well_quoted column" "holes column = 0" "well_quoted val" "holes val = 0"
  shows "pivot_items column val names vs = Inr rs \<Longrightarrow> \<forall>r \<in> set rs. rendered_ok r"
proof (induction vs arbitrary: names rs)
  case (Cons v vs)
  then obtain names1 p rs' where
    p: "named_projection (''SUM(CASE WHEN '' @ column @ '' = ? THEN '' @ val @ '' END)'') v = Inr p"
    and rest: "pivot_items column val names1 vs = Inr rs'" and rs: "rs = (p, [ScalarParam (SString v)]) # rs'"
    by auto
  from named_projection_ok [OF p] Cons.IH [OF rest] rs assms show ?case
    by (simp add: rendered_ok_iff sql_simps)
qed simp

lemma pivot_query_ok: "pivot_query spec columns = Inr r \<Longrightarrow> rendered_ok r"
proof -
  assume "pivot_query spec columns = Inr r"
  then obtain column val index names rs where
    c: "quote_identifier (the (op_pivot_column spec)) (Some columns) = Inr column"
    and v: "quote_identifier (the (op_pivot_value spec)) (Some columns) = Inr val"
    and i: "quote_all columns (op_pivot_index spec) = Inr index"
    and rs: "pivot_items column val names (op_pivot_values spec) = Inr rs"
    and r: "r = (''SELECT '' @ join_with '', '' (index @ map fst rs) @ '' FROM input_0''
                   @ group_clause '' GROUP BY '' index @ group_clause '' ORDER BY '' index,
                 concat (map snd rs))"
    by (auto simp: pivot_query_def split: if_splits)
  have "\<forall>r \<in> set rs. rendered_ok r"
    using quote_identifier_sql [OF c] quote_identifier_sql [OF v]
    by (intro pivot_items_ok [OF _ _ _ _ rs]) simp_all
  from rendered_items_join [OF quote_all_sql [OF i] this] quote_all_sql [OF i]
  show ?thesis by (simp add: r rendered_ok_iff sql_simps)
qed

lemma derive_query_ok: "derive_query spec columns sch = Inr r \<Longrightarrow> rendered_ok r"
proof -
  assume "derive_query spec columns sch = Inr r"
  then obtain names rs where
    rs: "project_expressions columns (is_v1 spec) sch (map normalize_identifier columns) (op_expressions spec)
           = Inr (names, rs)"
    and r: "r = (''SELECT '' @ join_with '', '' ([''*''] @ map fst rs) @ '' FROM input_0'', concat (map snd rs))"
    by (auto simp: derive_query_def)
  have "quoted_only [''*'']" by (simp add: sql_simps)
  from rendered_items_join [OF this project_expressions_ok [OF rs]]
  show ?thesis by (simp add: r rendered_ok_iff sql_simps)
qed

lemma join_query_ok: "join_query spec inputs = Inr r \<Longrightarrow> rendered_ok r"
proof -
  assume q: "join_query spec inputs = Inr r"
  then obtain jt clauses where
    c: "traverse (join_clause (schema_names (inputs ! 0)) (schema_names (inputs ! 1))) (op_join_keys spec) = Inr clauses"
    and r: "r = (''SELECT left_input.*, right_input.* FROM input_0 AS left_input ''
              @ join_name jt @ '' JOIN input_1 AS right_input ON '' @ join_with '' AND '' clauses, [])"
    by (auto simp: join_query_def Let_def split: option.splits if_splits)
  have "quoted_only clauses"
    using c by (rule traverse_quoted_only)
      (auto simp: join_clause_def sql_simps dest!: quote_identifier_sql)
  then show ?thesis by (simp add: r rendered_ok_iff sql_simps)
qed

lemma sort_term_sql: "sort_term columns item = Inr t \<Longrightarrow> well_quoted t \<and> holes t = 0"
  by (auto simp: sort_term_def sql_simps dest!: quote_identifier_sql)

lemma sort_terms_sql: "traverse (sort_term columns) items = Inr ts \<Longrightarrow> quoted_only ts"
  by (erule traverse_quoted_only) (rule sort_term_sql)

lemma legacy_query_ok: "legacy_query spec inputs = Inr r \<Longrightarrow> rendered_ok r"
  by (auto simp: legacy_query_def Let_def rendered_ok_iff sql_simps
      split: if_splits option.splits
      dest!: select_query_ok aggregate_query_ok pivot_query_ok derive_query_ok join_query_ok sort_terms_sql
        render_rendered_ok)

lemma new_name_sql: "new_name name columns = Inr q \<Longrightarrow> well_quoted q \<and> holes q = 0"
  by (auto simp: new_name_def split: if_splits dest: quote_identifier_sql)

lemma row_json_sql: "row_json columns = Inr j \<Longrightarrow> well_quoted j \<and> holes j = 0"
proof -
  assume "row_json columns = Inr j"
  then obtain qs where qs: "traverse (\<lambda>c. quote_identifier c None) columns = Inr qs"
    and j: "j = ''to_json(struct_pack('' @ join_with '', '' (map (\<lambda>q. q @ '' := '' @ q) qs) @ ''))''"
    by (auto simp: row_json_def split: if_splits)
  have "quoted_only qs" using qs by (rule traverse_quoted_only) (rule quote_identifier_sql)
  then have "quoted_only (map (\<lambda>q. q @ '' := '' @ q) qs)" by (induction qs) (auto simp: sql_simps)
  then show ?thesis by (simp add: j sql_simps)
qed

lemma order_terms_sql:
  "order_terms spec columns json tie = Inr t \<Longrightarrow> well_quoted json \<Longrightarrow> holes json = 0 \<Longrightarrow>
     well_quoted t \<and> holes t = 0"
  by (auto simp: order_terms_def sql_simps dest!: sort_terms_sql)

lemma partition_prefix_sql: "partition_prefix spec columns = Inr t \<Longrightarrow> well_quoted t \<and> holes t = 0"
  by (auto simp: partition_prefix_def sql_simps dest!: quote_all_sql)

lemma window_query_ok:
  assumes "window_query spec columns json prefix order = Inr r"
    and "well_quoted json" "holes json = 0" "well_quoted prefix" "holes prefix = 0" "well_quoted order" "holes order = 0"
  shows "rendered_ok r"
proof -
  obtain window out order' expression where
    o: "new_name (win_output window) columns = Inr out"
    and t: "(if win_function window \<in> {W_rank, W_dense_rank} then order_terms spec columns json False
            else Inr order) = Inr order'"
    and e: "(case win_column window of None \<Rightarrow> Inr [] | Some c \<Rightarrow> quote_identifier c (Some columns)) = Inr expression"
    and r: "r = (''SELECT *, '' @ window_name (win_function window) @ ''('' @ expression @ '') OVER (''
                 @ prefix @ ''ORDER BY '' @ order' @ window_frame window @ '') AS '' @ out
                 @ '' FROM input_0 ORDER BY '' @ order' @ '', '' @ out, [])"
    using assms(1) by (auto simp: window_query_def Let_def)
  have "well_quoted order' \<and> holes order' = 0"
    using t assms order_terms_sql [of spec columns json False order'] by (auto split: if_splits)
  moreover have "well_quoted expression \<and> holes expression = 0"
    using e quote_identifier_sql by (auto simp: sql_simps split: option.splits)
  moreover have "well_quoted (window_frame window) \<and> holes (window_frame window) = 0"
    by (simp add: window_frame_def sql_simps)
  ultimately show ?thesis
    using new_name_sql [OF o] assms(2-) by (simp add: r rendered_ok_iff sql_simps)
qed

lemma ranked_query_ok: "ranked_query spec sch = Inr r \<Longrightarrow> rendered_ok r"
proof -
  assume q: "ranked_query spec sch = Inr r"
  let ?columns = "schema_names sch"
  from q obtain prefix json order where p: "partition_prefix spec ?columns = Inr prefix"
    and j: "row_json ?columns = Inr json" and o: "order_terms spec ?columns json True = Inr order"
    and r: "(if op_kind spec \<in> {Op_DEDUPLICATE, Op_PICK} then Inr (pick_query spec prefix order)
           else window_query spec ?columns json prefix order) = Inr r"
    by (auto simp: ranked_query_def Let_def)
  note sql = partition_prefix_sql [OF p] row_json_sql [OF j] order_terms_sql [OF o]
  show ?thesis
    using r sql by (auto simp: pick_query_def rendered_ok_iff sql_simps intro: window_query_ok split: if_splits)
      (use window_query_ok sql in \<open>auto simp: rendered_ok_iff\<close>)
qed

lemma sample_query_ok: "sample_query spec sch = Inr r \<Longrightarrow> rendered_ok r"
  by (auto simp: sample_query_def rendered_ok_iff sql_simps dest!: row_json_sql)

lemma date_query_ok: "date_query spec sch = Inr r \<Longrightarrow> rendered_ok r"
  by (auto simp: date_query_def Let_def rendered_ok_iff sql_simps
      dest!: quote_identifier_sql new_name_sql aggregate_query_ok split: if_splits)

lemma explode_query_ok: "explode_query spec sch = Inr r \<Longrightarrow> rendered_ok r"
  by (auto simp: explode_query_def Let_def rendered_ok_iff sql_simps
      dest!: quote_identifier_sql new_name_sql)

lemma set_query_ok: "set_query spec inputs = Inr r \<Longrightarrow> rendered_ok r"
  by (auto simp: set_query_def rendered_ok_iff sql_simps split: if_splits)

lemma distinct_query_ok: "distinct_query spec columns = Inr r \<Longrightarrow> rendered_ok r"
  by (auto simp: distinct_query_def rendered_ok_iff sql_simps dest!: quote_all_sql)

lemma sum_list_ones: "(\<And>x. x \<in> set xs \<Longrightarrow> f x = Suc 0) \<Longrightarrow> sum_list (map f xs) = length xs"
  by (induction xs) auto

lemma unpivot_query_ok: "unpivot_query spec sch = Inr r \<Longrightarrow> rendered_ok r"
proof -
  assume "unpivot_query spec sch = Inr r"
  then obtain unpivot :: unpivot_spec and name val retained queries where
    n: "new_name (unp_name_column unpivot) (schema_names sch) = Inr name"
    and v: "new_name (unp_value_column unpivot) (unp_name_column unpivot # schema_names sch) = Inr val"
    and ret: "traverse (\<lambda>c. quote_identifier c None)
                (filter (\<lambda>c. c \<notin> set (unp_columns unpivot)) (schema_names sch)) = Inr retained"
    and qs: "traverse (unpivot_branch (concat (map (\<lambda>q. q @ '', '') retained)) name val)
               (unp_columns unpivot) = Inr queries"
    and r: "r = (join_with '' UNION ALL '' queries, map (\<lambda>c. ScalarParam (SString c)) (unp_columns unpivot))"
    unfolding unpivot_query_def Let_def rbind_eq_Inr sum.inject
    by (elim exE conjE) (rule that, assumption, assumption, assumption, assumption, rule sym, assumption)
  have "quoted_only retained" using ret by (rule traverse_quoted_only) (rule quote_identifier_sql)
  then have prefix: "well_quoted (concat (map (\<lambda>q. q @ '', '') retained))
      \<and> holes (concat (map (\<lambda>q. q @ '', '') retained)) = 0"
    by (induction retained) (auto simp: sql_simps)
  have q: "well_quoted q \<and> holes q = Suc 0" if "q \<in> set queries" for q
    using traverse_member [OF qs that] prefix new_name_sql [OF n] new_name_sql [OF v]
    by (auto simp: unpivot_branch_def sql_simps dest!: quote_identifier_sql)
  have all: "\<forall>x \<in> set queries. well_quoted x" using q by blast
  have "sum_list (map holes queries) = length queries" using q by (intro sum_list_ones) blast
  with join_sql [OF all separators_balanced(3)] traverse_length [OF qs] show ?thesis
    by (simp add: r rendered_ok_iff)
qed

lemma impute_expressions_sql:
  assumes "traverse (\<lambda>c. if c = target then Inr (''COALESCE('' @ q @ '', cast_to_type(?, '' @ q @ '')) AS '' @ q)
             else quote_identifier c None) columns = Inr es"
    and "well_quoted q" "holes q = 0" "distinct columns" "target \<in> set columns"
  shows "(\<forall>x \<in> set es. well_quoted x) \<and> sum_list (map holes es) = 1"
proof -
  have none: "(\<forall>x \<in> set es. well_quoted x) \<and> sum_list (map holes es) = 0"
    if "traverse (\<lambda>c. if c = target then Inr (''COALESCE('' @ q @ '', cast_to_type(?, '' @ q @ '')) AS '' @ q)
             else quote_identifier c None) cs = Inr es" "target \<notin> set cs" for cs es
    using that by (induction cs arbitrary: es) (auto dest!: quote_identifier_sql)
  show ?thesis
    using assms
  proof (induction columns arbitrary: es)
    case (Cons c cs)
    then obtain e es' where es: "es = e # es'"
      and e: "(if c = target then Inr (''COALESCE('' @ q @ '', cast_to_type(?, '' @ q @ '')) AS '' @ q)
             else quote_identifier c None) = Inr e"
      and rest: "traverse (\<lambda>c. if c = target then Inr (''COALESCE('' @ q @ '', cast_to_type(?, '' @ q @ '')) AS '' @ q)
             else quote_identifier c None) cs = Inr es'"
      by auto
    show ?case
    proof (cases "c = target")
      case True
      with e Cons.prems(2,3) have "well_quoted e \<and> holes e = 1" by (auto simp: sql_simps)
      moreover have "target \<notin> set cs" using True Cons.prems(4) by simp
      ultimately show ?thesis using none [OF rest] es by simp
    next
      case False
      then have "target \<in> set cs" using Cons.prems(5) by simp
      with Cons.IH [OF rest Cons.prems(2,3)] Cons.prems(4) e False es show ?thesis
        by (auto dest!: quote_identifier_sql)
    qed
  qed simp
qed

lemma impute_query_ok:
  assumes "impute_query arrow_scalar spec sch = Inr r" "distinct (schema_names sch)"
  shows "rendered_ok r"
proof -
  obtain impute :: impute_spec and column converted expressions where
    c: "quote_identifier (imp_column impute) (Some (schema_names sch)) = Inr column"
    and es: "traverse (\<lambda>c. if c = imp_column impute
               then Inr (''COALESCE('' @ column @ '', cast_to_type(?, '' @ column @ '')) AS '' @ column)
               else quote_identifier c None) (schema_names sch) = Inr expressions"
    and r: "r = (''SELECT '' @ join_with '', '' expressions @ '' FROM input_0'', [NativeParam converted])"
    using assms(1) [unfolded impute_query_def Let_def rbind_eq_Inr sum.inject]
    by (elim exE conjE) (rule that, assumption, assumption, rule sym, assumption)
  have "imp_column impute \<in> set (schema_names sch)" using c by (simp add: quote_identifier_ok)
  from impute_expressions_sql [OF es _ _ assms(2) this] quote_identifier_sql [OF c]
  have e: "\<forall>x \<in> set expressions. well_quoted x" "sum_list (map holes expressions) = 1" by simp_all
  from join_sql [OF e(1) separators_balanced(1)] e(2) show ?thesis by (simp add: r rendered_ok_iff sql_simps)
qed

lemma no_collisions_distinct:
  "reject_normalized_collisions normalized ns = Inr u \<Longrightarrow>
     distinct (map normalize_identifier ns) \<and> set (map normalize_identifier ns) \<inter> set normalized = {}"
  by (induction normalized ns rule: reject_normalized_collisions.induct) (auto split: if_splits)

lemma build_extension_query_ok:
  assumes "build_extension_query arrow_scalar spec inputs = Inr (Some r)" "distinct (schema_names (inputs ! 0))"
  shows "rendered_ok r"
proof -
  have from_ok: "q = Inr r" if "map_sum id Some q = Inr (Some r)" for q :: "rendered res"
    using that by (cases q) simp_all
  show ?thesis
    using assms
    by (auto simp: build_extension_query_def Let_def split: if_splits dest!: from_ok
        intro: set_query_ok distinct_query_ok ranked_query_ok sample_query_ok date_query_ok aggregate_query_ok
          explode_query_ok unpivot_query_ok impute_query_ok)
qed

lemma build_query_ok:
  assumes "build_query arrow_scalar spec inputs = Inr r" "inputs \<noteq> []"
  shows "rendered_ok r"
proof -
  obtain ext where c: "check_each (\<lambda>sch. reject_normalized_collisions [] (schema_names sch)) inputs = Inr ()"
    and ext: "(if is_v1 spec then build_extension_query arrow_scalar spec inputs else Inr None) = Inr ext"
    and r: "(case ext of Some q \<Rightarrow> Inr q | None \<Rightarrow> legacy_query spec inputs) = Inr r"
    using assms(1) by (auto simp: build_query_def)
  have "reject_normalized_collisions [] (schema_names (inputs ! 0)) = Inr ()" using c assms(2) by simp
  from no_collisions_distinct [OF this] have d: "distinct (schema_names (inputs ! 0))" by (auto simp: distinct_map)
  show ?thesis
    using r ext build_extension_query_ok [OF _ d] legacy_query_ok
    by (auto split: option.splits if_splits)
qed

section \<open>Decimal digits\<close>

lemma show_nat_length_bounds:
  "0 \<le> c \<Longrightarrow> c < 10 ^ length (show_nat c) \<and> (0 < c \<longrightarrow> 10 ^ (length (show_nat c) - 1) \<le> c)"
proof (induction c rule: show_nat.induct)
  case (1 n)
  show ?case
  proof (cases "n < 10")
    case True
    with 1 show ?thesis by (simp add: show_nat.simps [of n])
  next
    case False
    let ?l = "length (show_nat (n div 10))"
    from False have "0 < n div 10" by simp
    with 1(1) [OF False] have ih: "n div 10 < 10 ^ ?l" "10 ^ (?l - 1) \<le> n div 10" by simp_all
    have pos: "0 < ?l" by (simp add: show_nat.simps [of "n div 10"])
    then have "(10 :: int) ^ ?l = 10 * 10 ^ (?l - 1)" by (simp add: power_eq_if)
    with ih have "n < 10 * 10 ^ ?l \<and> 10 ^ ?l \<le> n" by linarith
    with False show ?thesis by (simp add: show_nat.simps [of n])
  qed
qed

lemma show_nat_nonempty: "0 < length (show_nat c)"
  by (simp add: show_nat.simps [of c])

text \<open>A non-negative integer has its digit count as order of magnitude.\<close>

lemma digit_count_le_iff:
  assumes "0 < c"
  shows "digit_count c \<le> n \<longleftrightarrow> c < 10 ^ n"
proof
  assume "digit_count c \<le> n"
  then have "(10 :: int) ^ digit_count c \<le> 10 ^ n" by (rule power_increasing) simp
  moreover have "c < 10 ^ digit_count c" using show_nat_length_bounds [of c] assms by (simp add: digit_count_def)
  ultimately show "c < 10 ^ n" by (rule less_le_trans [rotated])
next
  assume l: "c < 10 ^ n"
  have "10 ^ (digit_count c - 1) \<le> c" using show_nat_length_bounds [of c] assms by (simp add: digit_count_def)
  then have "(10 :: int) ^ (digit_count c - 1) < 10 ^ n" using l by (rule le_less_trans)
  then have "digit_count c - 1 < n" by (rule power_less_imp_less_exp [rotated]) simp
  with show_nat_nonempty [of c] show "digit_count c \<le> n" by (simp add: digit_count_def)
qed

lemma last_digit_zero: "0 \<le> n \<Longrightarrow> n < 10 \<Longrightarrow> char_of (48 + n) = CHR ''0'' \<longleftrightarrow> n = 0" for n :: int
proof -
  assume "0 \<le> n" "n < 10"
  then have "n \<in> {0, 1, 2, 3, 4, 5, 6, 7, 8, 9}" by simp presburger
  then show ?thesis by (auto simp: char_of_def bit_simps)
qed

text \<open>The last \<open>k\<close> digits are all zero exactly when \<open>10\<^sup>k\<close> divides the number.\<close>

lemma last_digits_nonzero_iff: "0 \<le> c \<Longrightarrow> last_digits_nonzero c k \<longleftrightarrow> c mod 10 ^ k \<noteq> 0"
proof (induction c arbitrary: k rule: show_nat.induct)
  case (1 n)
  show ?case
  proof (cases k)
    case 0
    then show ?thesis by (simp add: last_digits_nonzero_def Let_def)
  next
    case (Suc j)
    show ?thesis
    proof (cases "n < 10")
      case True
      have "(10 :: int) ^ 1 \<le> 10 ^ k" using Suc by (intro power_increasing) simp_all
      with True have "n < 10 ^ k" by simp
      with 1 True Suc show ?thesis
        by (simp add: last_digits_nonzero_def Let_def show_nat.simps [of n] last_digit_zero)
    next
      case False
      have "n mod (10 * 10 ^ j) = 10 * (n div 10 mod 10 ^ j) + n mod 10" using zmod_zmult2_eq [of "10 ^ j" n 10] by simp
      moreover have "0 \<le> n div 10 mod 10 ^ j" "0 \<le> n mod 10" by simp_all
      ultimately have "n mod (10 * 10 ^ j) \<noteq> 0 \<longleftrightarrow> n div 10 mod 10 ^ j \<noteq> 0 \<or> n mod 10 \<noteq> 0" by linarith
      then have m: "n mod 10 ^ k \<noteq> 0 \<longleftrightarrow> n div 10 mod 10 ^ j \<noteq> 0 \<or> n mod 10 \<noteq> 0"
        by (simp only: Suc power_Suc)
      have "last_digits_nonzero n k \<longleftrightarrow> last_digits_nonzero (n div 10) j \<or> n mod 10 \<noteq> 0"
        using False Suc by (auto simp: last_digits_nonzero_def Let_def show_nat.simps [of n] last_digit_zero)
      with 1(1) [OF False] 1(2) m show ?thesis by simp
    qed
  qed
qed

text \<open>
  A decimal literal \<open>c * 10\<^sup>e\<close> is stored in a column of scale \<open>s\<close> as an
  unscaled integer of at most \<open>p\<close> digits; it fits when some such integer
  denotes exactly the same number.
\<close>

definition decimal_fits :: "int \<Rightarrow> int \<Rightarrow> nat \<Rightarrow> int \<Rightarrow> bool" where
  "decimal_fits c e p s \<longleftrightarrow>
     (\<exists>u. 0 \<le> u \<and> u < 10 ^ p \<and> c * 10 ^ nat (e + s) = u * 10 ^ nat (- (e + s)))"

text \<open>The length of a timestamp unit in nanoseconds.\<close>

fun unit_nanoseconds :: "time_unit \<Rightarrow> int" where
  "unit_nanoseconds Unit_s = 1000000000"
| "unit_nanoseconds Unit_ms = 1000000"
| "unit_nanoseconds Unit_us = 1000"
| "unit_nanoseconds Unit_ns = 1"

lemma decimal_fits_upscaled:
  assumes "0 \<le> e + s" "0 < c" "s \<le> int p"
  shows "decimal_fits c e p s \<longleftrightarrow> int (digit_count c) + e \<le> int p - s"
proof -
  have "decimal_fits c e p s \<longleftrightarrow> c * 10 ^ nat (e + s) < 10 ^ p"
    using assms by (auto simp: decimal_fits_def)
  also have "\<dots> \<longleftrightarrow> int (digit_count c) + e \<le> int p - s"
  proof (cases "nat (e + s) \<le> p")
    case True
    then have "(10 :: int) ^ p = 10 ^ (p - nat (e + s)) * 10 ^ nat (e + s)" by (simp flip: power_add)
    then have "c * 10 ^ nat (e + s) < 10 ^ p \<longleftrightarrow> c < 10 ^ (p - nat (e + s))" by simp
    also have "\<dots> \<longleftrightarrow> digit_count c \<le> p - nat (e + s)" using assms(2) by (rule digit_count_le_iff [symmetric])
    finally show ?thesis using True assms(1) by linarith
  next
    case False
    then have "(10 :: int) ^ p \<le> 10 ^ nat (e + s)" by (intro power_increasing) simp_all
    also have "\<dots> \<le> c * 10 ^ nat (e + s)" using assms(2) by simp
    finally show ?thesis using False by simp
  qed
  finally show ?thesis .
qed

lemma decimal_fits_downscaled:
  assumes "e + s < 0" "0 < c" "s \<le> int p"
  shows "decimal_fits c e p s \<longleftrightarrow>
    int (digit_count c) + e \<le> int p - s \<and> c mod 10 ^ nat (- (e + s)) = 0"
proof -
  let ?k = "nat (- (e + s))"
  have "c < 10 ^ (p + ?k) \<longleftrightarrow> u < 10 ^ p" if "c = u * 10 ^ ?k" for u
    by (simp add: that power_add)
  then have "decimal_fits c e p s \<longleftrightarrow> c < 10 ^ (p + ?k) \<and> c mod 10 ^ ?k = 0"
    using assms by (auto simp: decimal_fits_def zero_less_mult_iff mod_0_imp_dvd mult.commute elim!: dvdE)
  also have "c < 10 ^ (p + ?k) \<longleftrightarrow> digit_count c \<le> p + ?k"
    using assms(2) by (rule digit_count_le_iff [symmetric])
  also have "\<dots> \<longleftrightarrow> int (digit_count c) + e \<le> int p - s" using assms(1) by linarith
  finally show ?thesis .
qed

lemma decimal_fits_zero: "decimal_fits 0 e p s"
  by (auto simp: decimal_fits_def)

lemma validate_decimal_target_iff:
  assumes "decimal_shape (DFinite neg c e) = Inr sh" "0 \<le> c" "0 \<le> s" "s \<le> int p"
  shows "validate_decimal_target (DFinite neg c e) p s = Inr () \<longleftrightarrow> decimal_fits c e p s"
proof (cases "c = 0")
  case True
  with assms show ?thesis
    by (auto simp: validate_decimal_target_def Let_def last_digits_nonzero_iff decimal_fits_zero split: if_splits)
next
  case False
  with assms(2) have "0 < c" by simp
  show ?thesis
  proof (cases "0 \<le> e + s")
    case True
    from decimal_fits_upscaled [OF this \<open>0 < c\<close> assms(4)] show ?thesis using assms False True
      by (auto simp: validate_decimal_target_def Let_def decimal_adjusted_def split: if_splits)
  next
    case neg: False
    then have "e + s < 0" by simp
    from decimal_fits_downscaled [OF this \<open>0 < c\<close> assms(4)] show ?thesis using assms False neg
      by (auto simp: validate_decimal_target_def Let_def decimal_adjusted_def last_digits_nonzero_iff
          minus_add_distrib max_def split: if_splits)
  qed
qed

lemma timestamp_fits_iff:
  "validate_imputation_value (NTimestamp us) (A_Timestamp u tz) = Inr () \<longleftrightarrow>
     (\<exists>units. - (2 ^ 63) \<le> units \<and> units < 2 ^ 63 \<and> units * unit_nanoseconds u = us * 1000)"
proof (cases "u = Unit_ns")
  case True
  then show ?thesis by (auto simp: validate_imputation_value_def Let_def)
next
  case False
  let ?d = "unit_divisor u"
  have u: "unit_nanoseconds u = ?d * 1000" "?d \<noteq> 0" using False by (cases u; simp)+
  have eq: "units * unit_nanoseconds u = us * 1000 \<longleftrightarrow> units * ?d = us" for units by (simp add: u)
  have "us mod ?d = 0 \<and> - (2 ^ 63) \<le> us div ?d \<and> us div ?d < 2 ^ 63
          \<longleftrightarrow> (\<exists>units. - (2 ^ 63) \<le> units \<and> units < 2 ^ 63 \<and> units * ?d = us)"
    (is "?l \<longleftrightarrow> ?r")
  proof
    assume ?l
    moreover from this have "us div ?d * ?d = us" using div_mult_mod_eq [of us ?d] by simp
    ultimately show ?r by (intro exI [of _ "us div ?d"]) simp
  next
    assume ?r
    then show ?l using u(2) by auto
  qed
  with False show ?thesis by (simp add: validate_imputation_value_def Let_def eq)
qed

section \<open>Properties\<close>

text \<open>
  C20: Whatever the column names, aliases and values of an operator are, the
  query built for it ends outside any quote and has exactly as many
  placeholders outside quotes as there are parameters to pass to DuckDB.
\<close>

theorem operator_query_is_balanced:
  assumes "build_query arrow_scalar spec inputs = Inr (sql, parameters)" and "inputs \<noteq> []"
  shows "balanced sql (length parameters)"
  using build_query_ok [OF assms] by (simp add: rendered_ok_def)

definition sample_schema :: schema where
  "sample_schema = [\<lparr>fld_name = ''a'' @ [CHR 0x22], fld_type = A_Int 64 True, fld_nullable = True\<rparr>]"

definition sample_spec :: operator_spec where
  "sample_spec = (operator_of Op_LIMIT)\<lparr>op_limit := Some 5\<rparr>"

theorem operator_query_is_balanced_witness:
  "build_query (\<lambda>_ _. None) sample_spec [sample_schema] = Inr (''SELECT * FROM input_0 LIMIT ?'', [ScalarParam (SInt 5)])
   \<and> balanced ''SELECT * FROM input_0 LIMIT ?'' 1"
proof -
  have "build_query (\<lambda>_ _. None) sample_spec [sample_schema]
          = Inr (''SELECT * FROM input_0 LIMIT ?'', [ScalarParam (SInt 5)])"
    by code_simp
  with operator_query_is_balanced [OF this] show ?thesis by simp
qed



end
