(* ===== verification/Operator_Executor.thy ===== *)
theory Operator_Executor
  imports Sql_Operators
begin

text \<open>
  \<open>ResourceLimits\<close> and \<open>DuckDBOperatorExecutor\<close> of \<open>operators.py\<close>: the checks
  before and after a query, the batch loop that enforces the row and byte
  limits while DuckDB streams its result, and the race of the worker thread
  with cancellation and the node deadline. DuckDB, \<open>Table.from_batches\<close> and
  \<open>pa.scalar\<close> are arguments; which awaited task finishes first is an argument
  too, so a statement for every \<open>race\<close> holds for every interleaving.
\<close>

section \<open>Resource limits\<close>

text \<open>The values Python accepts for a limit, as far as \<open>__post_init__\<close> tells them apart.\<close>

datatype limit_value = L_Bool bool | L_Int int | L_Float pyfloat | L_Other

record resource_limits =
  max_rows :: int
  max_bytes :: int
  max_in_flight_bytes :: int
  memory_limit_bytes :: int
  node_timeout_seconds :: pyfloat

fun limit_int :: "limit_value \<Rightarrow> int res" where
  "limit_int (L_Int i) = Inr i"
| "limit_int _ = Inl ValueError"

fun limit_number :: "limit_value \<Rightarrow> pyfloat res" where
  "limit_number (L_Int i) = Inr (FFinite i 0)"
| "limit_number (L_Float (FFinite m e)) = Inr (FFinite m e)"
| "limit_number _ = Inl ValueError"

fun float_positive :: "pyfloat \<Rightarrow> bool" where
  "float_positive (FFinite m e) = (0 < m)"
| "float_positive (FInfinite neg) = (\<not> neg)"
| "float_positive FNan = False"

definition new_limits ::
  "limit_value \<Rightarrow> limit_value \<Rightarrow> limit_value \<Rightarrow> limit_value \<Rightarrow> limit_value \<Rightarrow> resource_limits res" where
  "new_limits rows bytes in_flight mem deadline =
     rbind (traverse limit_int [rows, bytes, in_flight, mem]) (\<lambda>integer_limits.
     rbind (limit_number deadline) (\<lambda>seconds.
     rbind (raise_unless (list_all (\<lambda>v. 0 < v) integer_limits \<and> float_positive seconds) ValueError) (\<lambda>_.
       Inr \<lparr>max_rows = integer_limits ! 0, max_bytes = integer_limits ! 1,
            max_in_flight_bytes = integer_limits ! 2, memory_limit_bytes = integer_limits ! 3,
            node_timeout_seconds = seconds\<rparr>)))"

definition enforce_limits :: "resource_limits \<Rightarrow> 'row arrow_table \<Rightarrow> unit res" where
  "enforce_limits limits t =
     rbind (raise_unless (int (num_rows t) \<le> max_rows limits)
              (ResourceLimitFailure ''LIMIT_ROWS_EXCEEDED'')) (\<lambda>_.
       raise_unless (int (retained_table_size t) \<le> max_bytes limits)
         (ResourceLimitFailure ''LIMIT_BYTES_EXCEEDED''))"

section \<open>The worker\<close>

record 'row record_batch =
  rb_schema :: schema
  rb_rows :: "'row list"
  rb_null_counts :: "nat list"
  rb_columns :: "arrow_array list"

text \<open>
  What DuckDB does with a statement: it raises \<open>duckdb.Error\<close> or another
  exception, or hands out a reader whose schema is known and whose batches
  arrive one by one, any of which may raise instead.
\<close>

datatype duckdb_raise = DuckDBError | DuckDBOther

datatype 'row reader_item = Batch "'row record_batch" | ReaderRaises duckdb_raise

type_synonym 'row duckdb =
  "string \<Rightarrow> sql_parameter list \<Rightarrow> 'row arrow_table list \<Rightarrow> duckdb_raise + schema \<times> 'row reader_item list"

type_synonym 'row from_batches = "schema \<Rightarrow> 'row record_batch list \<Rightarrow> 'row arrow_table"

text \<open>The \<open>except duckdb.Error\<close> clause.\<close>

fun duckdb_failure :: "duckdb_raise \<Rightarrow> failure" where
  "duckdb_failure DuckDBError = OperatorFailure ''DUCKDB_EXECUTION_FAILED''"
| "duckdb_failure DuckDBOther = OtherException"

definition violates_nullability :: "schema \<Rightarrow> 'row record_batch \<Rightarrow> bool" where
  "violates_nullability result_schema b =
     list_ex (\<lambda>(f, nulls). \<not> fld_nullable f \<and> nulls \<noteq> 0) (zip result_schema (rb_null_counts b))"

fun collect_batches ::
  "'row from_batches \<Rightarrow> resource_limits \<Rightarrow> schema \<Rightarrow> int \<Rightarrow> int \<Rightarrow> 'row reader_item list
     \<Rightarrow> 'row record_batch list res" where
  "collect_batches from_batches limits result_schema rows bytes [] = Inr []"
| "collect_batches from_batches limits result_schema rows bytes (ReaderRaises e # items) = Inl (duckdb_failure e)"
| "collect_batches from_batches limits result_schema rows bytes (Batch b # items) =
     (if violates_nullability result_schema b then Inl (OperatorFailure ''OPERATOR_NULLABILITY'')
      else let rows' = rows + int (length (rb_rows b));
               bytes' = bytes + int (retained_table_size (from_batches (rb_schema b) [b]))
           in if max_rows limits < rows' then Inl (ResourceLimitFailure ''LIMIT_ROWS_EXCEEDED'')
              else if max_bytes limits < bytes' then Inl (ResourceLimitFailure ''LIMIT_BYTES_EXCEEDED'')
              else rbind (collect_batches from_batches limits result_schema rows' bytes' items) (\<lambda>bs.
                     Inr (b # bs)))"

text \<open>The schema of the result: IMPUTE must keep names and types and takes the input's schema back.\<close>

definition result_schema_of :: "operator_spec \<Rightarrow> 'row arrow_table list \<Rightarrow> schema \<Rightarrow> schema res" where
  "result_schema_of spec inputs reader_schema =
     (if is_v1 spec \<and> op_kind spec = Op_IMPUTE
      then let original = tbl_schema (inputs ! 0)
           in rbind (raise_unless (schema_names reader_schema = schema_names original
                        \<and> map fld_type reader_schema = map fld_type original)
                      (OperatorFailure ''OPERATOR_TYPE_MISMATCH'')) (\<lambda>_. Inr original)
      else Inr reader_schema)"

text \<open>What the executor does to its connection, in order.\<close>

datatype connection_action =
    DisableExternalAccess
  | Register nat
  | Execute string "sql_parameter list"
  | Unregister nat
  | Interrupt
  | AwaitWorker
  | CloseConnection

definition registrations :: "'row arrow_table list \<Rightarrow> connection_action list" where
  "registrations inputs = map Register [0..<length inputs]"

definition unregistrations :: "'row arrow_table list \<Rightarrow> connection_action list" where
  "unregistrations inputs = map Unregister [0..<length inputs]"

definition run_query ::
  "'row duckdb \<Rightarrow> 'row from_batches \<Rightarrow> resource_limits \<Rightarrow> operator_spec \<Rightarrow> 'row arrow_table list
     \<Rightarrow> rendered \<Rightarrow> 'row arrow_table res" where
  "run_query duckdb from_batches limits spec inputs q =
     (case duckdb (fst q) (snd q) inputs of
        Inl e \<Rightarrow> Inl (duckdb_failure e)
      | Inr (reader_schema, items) \<Rightarrow>
          rbind (result_schema_of spec inputs reader_schema) (\<lambda>result_schema.
          rbind (collect_batches from_batches limits result_schema 0 0 items) (\<lambda>batches.
            Inr ((from_batches reader_schema batches)\<lparr>tbl_schema := result_schema\<rparr>))))"

definition execute_sync ::
  "(native \<Rightarrow> arrow_type \<Rightarrow> native option) \<Rightarrow> 'row duckdb \<Rightarrow> 'row from_batches \<Rightarrow> resource_limits
     \<Rightarrow> operator_spec \<Rightarrow> 'row arrow_table list \<Rightarrow> 'row arrow_table res \<times> connection_action list" where
  "execute_sync arrow_scalar duckdb from_batches limits spec inputs =
     (if length inputs \<noteq> operator_input_count (op_kind spec)
      then (Inl (OperatorFailure ''OPERATOR_INPUT_COUNT''), [])
      else (case build_query arrow_scalar spec (map tbl_schema inputs) of
              Inl e \<Rightarrow> (Inl e, registrations inputs @ unregistrations inputs)
            | Inr q \<Rightarrow> (run_query duckdb from_batches limits spec inputs q,
                registrations inputs @ [Execute (fst q) (snd q)] @ unregistrations inputs)))"

section \<open>The executor\<close>

text \<open>
  How the wait for \<open>{work, cancelled}\<close> ends: nothing was done before the
  deadline, the cancel event came first, the worker came first, or the calling
  task itself was cancelled while waiting.
\<close>

datatype race = Deadline_First | Cancel_First | Work_First | Outer_Cancel

definition check_inputs :: "resource_limits \<Rightarrow> operator_spec \<Rightarrow> 'row arrow_table list \<Rightarrow> unit res" where
  "check_inputs limits spec inputs =
     rbind (if is_v1 spec then (if is_ok (validate_operator_v1 spec) then Inr () else Inl operator_invalid)
            else Inr ()) (\<lambda>_.
     rbind (check_each (enforce_limits limits) inputs) (\<lambda>_.
       raise_unless (int (sum_list (map retained_table_size inputs)) \<le> max_in_flight_bytes limits)
         (ResourceLimitFailure ''LIMIT_IN_FLIGHT_BYTES_EXCEEDED'')))"

text \<open>
  \<open>_await_worker\<close> returns only when the worker is done and drops its outcome;
  the connection is closed in the \<open>finally\<close> clause.
\<close>

definition execute ::
  "(native \<Rightarrow> arrow_type \<Rightarrow> native option) \<Rightarrow> 'row duckdb \<Rightarrow> 'row from_batches \<Rightarrow> resource_limits
     \<Rightarrow> bool \<Rightarrow> race \<Rightarrow> operator_spec \<Rightarrow> 'row arrow_table list
     \<Rightarrow> 'row arrow_table res \<times> connection_action list" where
  "execute arrow_scalar duckdb from_batches limits cancel_set outcome spec inputs =
     (if cancel_set then (Inl CancelledError, [])
      else case check_inputs limits spec inputs of
        Inl e \<Rightarrow> (Inl e, [])
      | Inr _ \<Rightarrow>
          let (result, actions) = execute_sync arrow_scalar duckdb from_batches limits spec inputs
          in (case outcome of
                Deadline_First \<Rightarrow>
                  (Inl (ResourceLimitFailure ''LIMIT_TIMEOUT_EXCEEDED''),
                   DisableExternalAccess # Interrupt # actions @ [AwaitWorker, CloseConnection])
              | Cancel_First \<Rightarrow>
                  (Inl CancelledError, DisableExternalAccess # Interrupt # actions
                     @ [AwaitWorker, Interrupt, AwaitWorker, CloseConnection])
              | Outer_Cancel \<Rightarrow>
                  (Inl CancelledError, DisableExternalAccess # Interrupt # actions @ [AwaitWorker, CloseConnection])
              | Work_First \<Rightarrow>
                  (rbind result (\<lambda>t. rbind (enforce_limits limits t) (\<lambda>_. Inr t)),
                   DisableExternalAccess # actions @ [AwaitWorker, CloseConnection])))"


section \<open>The batch loop\<close>

definition batch_bytes :: "'row from_batches \<Rightarrow> 'row record_batch \<Rightarrow> nat" where
  "batch_bytes from_batches b = retained_table_size (from_batches (rb_schema b) [b])"

text \<open>The running totals only grow, so the last comparison of the loop implies the earlier ones.\<close>

lemma collect_batches_iff:
  assumes "rows \<le> max_rows limits" "bytes \<le> max_bytes limits"
  shows "collect_batches from_batches limits sch rows bytes items = Inr bs \<longleftrightarrow>
    items = map Batch bs \<and> (\<forall>b \<in> set bs. \<not> violates_nullability sch b)
    \<and> rows + int (sum_list (map (length \<circ> rb_rows) bs)) \<le> max_rows limits
    \<and> bytes + int (sum_list (map (batch_bytes from_batches) bs)) \<le> max_bytes limits"
  using assms
proof (induction from_batches limits sch rows bytes items arbitrary: bs rule: collect_batches.induct)
  case (3 from_batches limits sch rows bytes b items)
  show ?case
  proof (cases bs)
    case Nil
    then show ?thesis by (simp add: Let_def)
  next
    case (Cons b' bs')
    let ?r = "rows + int (length (rb_rows b))" and ?b = "bytes + int (batch_bytes from_batches b)"
    consider "violates_nullability sch b" | "max_rows limits < ?r" | "max_bytes limits < ?b"
      | "\<not> violates_nullability sch b" "?r \<le> max_rows limits" "?b \<le> max_bytes limits"
      by linarith
    then show ?thesis
    proof cases
      case 4
      note ih = "3.IH" [OF 4(1) refl refl, folded batch_bytes_def, of bs']
      have "b' = b \<Longrightarrow> rows + int (sum_list (map (length \<circ> rb_rows) bs)) =
          ?r + int (sum_list (map (length \<circ> rb_rows) bs'))" using Cons by simp
      moreover have "b' = b \<Longrightarrow> bytes + int (sum_list (map (batch_bytes from_batches) bs)) =
          ?b + int (sum_list (map (batch_bytes from_batches) bs'))" using Cons by simp
      ultimately show ?thesis using 4 ih Cons by (auto simp: Let_def simp flip: batch_bytes_def)
    qed (use Cons in \<open>auto simp: Let_def simp flip: batch_bytes_def\<close>)
  qed
qed auto

lemma enforce_limits_iff [simp]:
  "enforce_limits limits t = Inr u \<longleftrightarrow>
     int (num_rows t) \<le> max_rows limits \<and> int (retained_table_size t) \<le> max_bytes limits"
  by (auto simp: enforce_limits_def)

lemma check_inputs_iff:
  "check_inputs limits spec inputs = Inr u \<longleftrightarrow>
     (is_v1 spec \<longrightarrow> is_ok (validate_operator_v1 spec))
     \<and> (\<forall>t \<in> set inputs. enforce_limits limits t = Inr ())
     \<and> int (sum_list (map retained_table_size inputs)) \<le> max_in_flight_bytes limits"
  by (simp add: check_inputs_def)

text \<open>A result exists only when the worker finished first, after every check passed.\<close>

lemma execute_ok:
  "execute arrow_scalar duckdb from_batches limits cancel_set outcome spec inputs = (Inr t, trace) \<longleftrightarrow>
     \<not> cancel_set \<and> outcome = Work_First \<and> check_inputs limits spec inputs = Inr ()
     \<and> fst (execute_sync arrow_scalar duckdb from_batches limits spec inputs) = Inr t
     \<and> enforce_limits limits t = Inr ()
     \<and> trace = DisableExternalAccess # snd (execute_sync arrow_scalar duckdb from_batches limits spec inputs)
           @ [AwaitWorker, CloseConnection]"
  by (auto simp: execute_def split: prod.splits race.splits sum.splits)

lemma execute_sync_ok:
  assumes "fst (execute_sync arrow_scalar duckdb from_batches limits spec inputs) = Inr t"
  obtains q reader_schema items sch batches where
    "length inputs = operator_input_count (op_kind spec)"
    "build_query arrow_scalar spec (map tbl_schema inputs) = Inr q"
    "duckdb (fst q) (snd q) inputs = Inr (reader_schema, items)"
    "result_schema_of spec inputs reader_schema = Inr sch"
    "collect_batches from_batches limits sch 0 0 items = Inr batches"
    "t = (from_batches reader_schema batches)\<lparr>tbl_schema := sch\<rparr>"
  using assms
  by (auto simp: execute_sync_def run_query_def simp del: arrow_table.update_convs split: if_splits sum.splits prod.splits)

section \<open>Properties\<close>

text \<open>
  C21: A table leaves the executor only within the limits. When \<open>execute\<close>
  returns a table, the run was not cancelled, the worker finished before the
  deadline, every input and the result are within the row and byte limits, the
  inputs together are within the in-flight limit, and the result was assembled
  from all the batches DuckDB produced, none of which has a null in a
  non-nullable field; an IMPUTE keeps the input's schema.
\<close>

theorem executor_enforces_limits:
  assumes "execute arrow_scalar duckdb from_batches limits cancel_set outcome spec inputs = (Inr t, trace)"
    and "new_limits l1 l2 l3 l4 l5 = Inr limits"
  shows "\<not> cancel_set \<and> outcome = Work_First
    \<and> int (num_rows t) \<le> max_rows limits \<and> int (retained_table_size t) \<le> max_bytes limits
    \<and> (\<forall>i \<in> set inputs. int (num_rows i) \<le> max_rows limits \<and> int (retained_table_size i) \<le> max_bytes limits)
    \<and> int (sum_list (map retained_table_size inputs)) \<le> max_in_flight_bytes limits
    \<and> (is_v1 spec \<and> op_kind spec = Op_IMPUTE \<longrightarrow> tbl_schema t = tbl_schema (inputs ! 0))
    \<and> (\<exists>sql parameters reader_schema batches.
         build_query arrow_scalar spec (map tbl_schema inputs) = Inr (sql, parameters)
         \<and> duckdb sql parameters inputs = Inr (reader_schema, map Batch batches)
         \<and> (\<forall>b \<in> set batches. \<not> violates_nullability (tbl_schema t) b)
         \<and> t = (from_batches reader_schema batches)\<lparr>tbl_schema := tbl_schema t\<rparr>)"
proof -
  have pos: "0 \<le> max_rows limits" "0 \<le> max_bytes limits"
    using assms(2) by (auto simp: new_limits_def)
  from assms(1) have ok: "\<not> cancel_set" "outcome = Work_First" "check_inputs limits spec inputs = Inr ()"
    "fst (execute_sync arrow_scalar duckdb from_batches limits spec inputs) = Inr t"
    "enforce_limits limits t = Inr ()" by (simp_all add: execute_ok)
  from ok(4) obtain q reader_schema items sch batches where w:
    "build_query arrow_scalar spec (map tbl_schema inputs) = Inr q"
    "duckdb (fst q) (snd q) inputs = Inr (reader_schema, items)"
    "result_schema_of spec inputs reader_schema = Inr sch"
    "collect_batches from_batches limits sch 0 0 items = Inr batches"
    and t: "t = (from_batches reader_schema batches)\<lparr>tbl_schema := sch\<rparr>"
    by (rule execute_sync_ok)
  have sch: "tbl_schema t = sch" by (simp add: t)
  have "items = map Batch batches" "\<forall>b \<in> set batches. \<not> violates_nullability (tbl_schema t) b"
    using w(4) by (simp_all add: collect_batches_iff pos sch)
  then have "\<exists>sql parameters reader_schema batches.
         build_query arrow_scalar spec (map tbl_schema inputs) = Inr (sql, parameters)
         \<and> duckdb sql parameters inputs = Inr (reader_schema, map Batch batches)
         \<and> (\<forall>b \<in> set batches. \<not> violates_nullability (tbl_schema t) b)
         \<and> t = (from_batches reader_schema batches)\<lparr>tbl_schema := tbl_schema t\<rparr>"
    using w(1,2) t sch by (intro exI [of _ "fst q"] exI [of _ "snd q"] exI [of _ reader_schema] exI [of _ batches]) simp
  moreover have "is_v1 spec \<and> op_kind spec = Op_IMPUTE \<longrightarrow> tbl_schema t = tbl_schema (inputs ! 0)"
    using w(3) sch by (auto simp: result_schema_of_def Let_def)
  ultimately show ?thesis using ok by (simp add: check_inputs_iff)
qed

text \<open>A two-row table, limits and a DuckDB that answers with one batch, for the witnesses.\<close>

definition sample_limits :: resource_limits where
  "sample_limits = \<lparr>max_rows = 10, max_bytes = 1000, max_in_flight_bytes = 1000, memory_limit_bytes = 1000,
     node_timeout_seconds = FFinite 30 0\<rparr>"

definition sample_table :: "nat arrow_table" where
  "sample_table = \<lparr>tbl_schema = sample_schema, tbl_rows = [7, 8],
     tbl_columns = [[PlainArray [None, Some (Buffer None 64 16)]]]\<rparr>"

definition sample_batch :: "nat record_batch" where
  "sample_batch = \<lparr>rb_schema = sample_schema, rb_rows = [7, 8], rb_null_counts = [0],
     rb_columns = [PlainArray [None, Some (Buffer None 64 16)]]\<rparr>"

definition sample_duckdb :: "nat duckdb" where
  "sample_duckdb sql parameters inputs = Inr (sample_schema, [Batch sample_batch])"

definition sample_from_batches :: "nat from_batches" where
  "sample_from_batches sch bs = \<lparr>tbl_schema = sch, tbl_rows = concat (map rb_rows bs),
     tbl_columns = [concat (map rb_columns bs)]\<rparr>"

lemma sample_limits_valid:
  "new_limits (L_Int 10) (L_Int 1000) (L_Int 1000) (L_Int 1000) (L_Int 30) = Inr sample_limits"
  by code_simp

lemma sample_execution:
  "execute (\<lambda>_ _. None) sample_duckdb sample_from_batches sample_limits False Work_First sample_spec [sample_table]
     = (Inr sample_table, DisableExternalAccess # [Register 0,
          Execute ''SELECT * FROM input_0 LIMIT ?'' [ScalarParam (SInt 5)], Unregister 0] @ [AwaitWorker, CloseConnection])"
  by code_simp

theorem executor_enforces_limits_witness:
  "\<exists>trace. execute (\<lambda>_ _. None) sample_duckdb sample_from_batches sample_limits False Work_First sample_spec [sample_table]
      = (Inr sample_table, trace) \<and> int (num_rows sample_table) \<le> max_rows sample_limits"
  using sample_execution executor_enforces_limits [OF sample_execution sample_limits_valid] by blast

text \<open>
  The batch loop of \<open>_execute_sync\<close> succeeds exactly when the reader
  never raises, no batch breaks a non-nullable field and the totals of rows and
  retained bytes over all batches stay within the limits, and then it keeps
  every batch in order.
\<close>

theorem batch_loop_exact:
  assumes "new_limits l1 l2 l3 l4 l5 = Inr limits"
  shows "collect_batches from_batches limits sch 0 0 items = Inr batches \<longleftrightarrow>
    items = map Batch batches \<and> (\<forall>b \<in> set batches. \<not> violates_nullability sch b)
    \<and> int (sum_list (map (length \<circ> rb_rows) batches)) \<le> max_rows limits
    \<and> int (sum_list (map (batch_bytes from_batches) batches)) \<le> max_bytes limits"
proof -
  have "0 \<le> max_rows limits" "0 \<le> max_bytes limits"
    using assms by (auto simp: new_limits_def)
  then show ?thesis by (simp add: collect_batches_iff)
qed

theorem batch_loop_exact_witness:
  "collect_batches sample_from_batches sample_limits sample_schema 0 0 [Batch sample_batch] = Inr [sample_batch]
   \<and> int (sum_list (map (length \<circ> rb_rows) [sample_batch])) \<le> max_rows sample_limits"
proof -
  have "collect_batches sample_from_batches sample_limits sample_schema 0 0 [Batch sample_batch] = Inr [sample_batch]"
    by code_simp
  with batch_loop_exact [OF sample_limits_valid, of sample_from_batches sample_schema "[Batch sample_batch]" "[sample_batch]"]
  show ?thesis by simp
qed



end
