(* ===== verification/Result_Store.thy ===== *)
theory Result_Store
  imports Arrow_Memory "HOL-Library.Sublist" "HOL-Library.Countable"
begin

text \<open>
  \<open>result_store.py\<close>: the inline store, the Parquet store with its atomic
  directory commit and deferred cleanup, and the hybrid store that picks one by
  size. A commit publishes a table under a handle; a page read returns a window
  of its rows.

  The file system is a dictionary from directory paths to their files; paths
  are lists of components. PyArrow, the JSON form of a manifest, SHA-256 and
  symbolic-link resolution are fields of the environment \<open>storage_env\<close>; what
  the code relies on is \<open>storage_env_ok\<close>. Result ids (\<open>uuid4().hex\<close>), the I/O
  failures and the cancellations of a commit are arguments.
\<close>

section \<open>Identifiers and pages\<close>

definition safe_char :: "char \<Rightarrow> bool" where
  "safe_char c = (let n = (of_char c :: nat) in
     (65 \<le> n \<and> n \<le> 90) \<or> (97 \<le> n \<and> n \<le> 122) \<or> (48 \<le> n \<and> n \<le> 57))"

fun safe_id :: "string \<Rightarrow> bool" where
  "safe_id [] = False"
| "safe_id (c # cs) =
     (safe_char c \<and> length cs \<le> 159
      \<and> list_all (\<lambda>d. safe_char d \<or> d = CHR ''.'' \<or> d = CHR ''_'' \<or> d = CHR ''-'') cs)"

definition validate_id :: "string \<Rightarrow> unit res" where
  "validate_id s = raise_unless (safe_id s) (ResultStoreFailure ''RESULT_PATH_INVALID'')"

definition validate_page :: "int \<Rightarrow> int \<Rightarrow> unit res" where
  "validate_page offset limit =
     raise_unless (\<not> (offset < 0 \<or> limit \<le> 0 \<or> 10000 < limit)) (ResultStoreFailure ''RESULT_PAGE_INVALID'')"

section \<open>The libraries underneath\<close>

type_synonym path = "string list"

record 'row parquet_file =
  pf_schema :: "arrow_field list"
  pf_groups :: "'row arrow_table list"
  pf_size :: nat

datatype 'row stored_file = ParquetData "'row parquet_file" | TextData string

record 'row storage_env =
  env_slice :: "'row arrow_table \<Rightarrow> nat \<Rightarrow> nat \<Rightarrow> 'row arrow_table"
  env_concat :: "'row arrow_table list \<Rightarrow> 'row arrow_table"
  env_empty :: "arrow_field list \<Rightarrow> 'row arrow_table"
  env_write_table :: "'row arrow_table \<Rightarrow> nat \<Rightarrow> 'row parquet_file"
  env_type_name :: "arrow_type \<Rightarrow> string"
  env_dump :: "committed_manifest \<Rightarrow> string"
  env_load :: "string \<Rightarrow> committed_manifest option"
  env_digest :: "string \<Rightarrow> string"
  env_resolve :: "path \<Rightarrow> path"

text \<open>
  Documented behaviour: a slice is a window of the rows, concatenation and the
  row groups of a written file keep the rows, an empty table has none, a
  manifest read back from its JSON text is the same manifest, and the result
  tree holds no symbolic links, so that resolving a path inside it changes
  nothing.
\<close>

definition storage_env_ok :: "'row storage_env \<Rightarrow> bool" where
  "storage_env_ok env \<longleftrightarrow>
     (\<forall>t i n. tbl_rows (env_slice env t i n) = take n (drop i (tbl_rows t)))
     \<and> (\<forall>ts. tbl_rows (env_concat env ts) = concat (map tbl_rows ts))
     \<and> (\<forall>sch. tbl_rows (env_empty env sch) = [])
     \<and> (\<forall>t n. concat (map tbl_rows (pf_groups (env_write_table env t n))) = tbl_rows t)
     \<and> (\<forall>m. env_load env (env_dump env m) = Some m)
     \<and> (\<forall>p. env_resolve env p = p)"

definition arrow_schema :: "'row storage_env \<Rightarrow> arrow_field list \<Rightarrow> schema_field list" where
  "arrow_schema env sch =
     map (\<lambda>f. \<lparr>sf_name = fld_name f, sf_data_type = env_type_name env (fld_type f), sf_nullable = fld_nullable f\<rparr>) sch"

section \<open>The inline store\<close>

record 'row inline_store =
  inl_tables :: "(string, 'row arrow_table) dict"
  inl_manifests :: "(string, committed_manifest) dict"

definition new_inline_store :: "'row inline_store" where
  "new_inline_store = \<lparr>inl_tables = [], inl_manifests = []\<rparr>"

definition inline_manifest ::
  "'row storage_env \<Rightarrow> string \<Rightarrow> string \<Rightarrow> string \<Rightarrow> 'row arrow_table \<Rightarrow> committed_manifest" where
  "inline_manifest env result_id run_id node_id t =
     (let uri = ''inline://'' @ run_id @ ''/'' @ node_id @ ''/'' @ result_id; bytes = retained_table_size t
      in \<lparr>man_result = \<lparr>rh_result_id = result_id, rh_run_id = run_id, rh_node_id = node_id,
                         rh_storage = Inline, rh_uri = uri\<rparr>,
          man_schema = arrow_schema env (tbl_schema t), man_row_count = num_rows t, man_byte_count = bytes,
          man_parts = [\<lparr>part_path = uri, part_rows = num_rows t, part_bytes = bytes\<rparr>]\<rparr>)"

definition inline_commit ::
  "'row storage_env \<Rightarrow> bool \<Rightarrow> 'row inline_store \<Rightarrow> string \<Rightarrow> string \<Rightarrow> string \<Rightarrow> 'row arrow_table
     \<Rightarrow> committed_manifest res \<times> 'row inline_store" where
  "inline_commit env cancel_set st result_id run_id node_id t =
     (case rbind (validate_id run_id) (\<lambda>_. rbind (validate_id node_id) (\<lambda>_.
             raise_unless (\<not> cancel_set) CancelledError)) of
        Inl e \<Rightarrow> (Inl e, st)
      | Inr _ \<Rightarrow>
          let m = inline_manifest env result_id run_id node_id t
          in (Inr m, st\<lparr>inl_tables := dput result_id t (inl_tables st),
                         inl_manifests := dput result_id m (inl_manifests st)\<rparr>))"

definition inline_read_page ::
  "'row storage_env \<Rightarrow> 'row inline_store \<Rightarrow> result_handle \<Rightarrow> int \<Rightarrow> int \<Rightarrow> 'row arrow_table res" where
  "inline_read_page env st h offset limit =
     rbind (validate_page offset limit) (\<lambda>_.
     rbind (raise_unless (rh_storage h = Inline) (ResultStoreFailure ''RESULT_HANDLE_INVALID'')) (\<lambda>_.
     rbind (from_option (ResultStoreFailure ''RESULT_NOT_COMMITTED'') (dget (inl_manifests st) (rh_result_id h))) (\<lambda>m.
     rbind (raise_unless (h = man_result m) (ResultStoreFailure ''RESULT_HANDLE_INVALID'')) (\<lambda>_.
     rbind (from_option (ResultStoreFailure ''RESULT_NOT_COMMITTED'') (dget (inl_tables st) (rh_result_id h))) (\<lambda>t.
       Inr (env_slice env t (nat offset) (nat limit)))))))"

section \<open>The Parquet store\<close>

type_synonym 'row directory = "(string, 'row stored_file) dict"

record 'row parquet_store =
  ps_root :: path
  ps_dirs :: "(path, 'row directory) dict"
  ps_cleanup_tasks :: "path list"
  ps_cleanup_failures :: "failure list"

definition new_parquet_store :: "path \<Rightarrow> 'row parquet_store" where
  "new_parquet_store root = \<lparr>ps_root = root, ps_dirs = [], ps_cleanup_tasks = [], ps_cleanup_failures = []\<rparr>"

definition encode_path_component :: "'row storage_env \<Rightarrow> string \<Rightarrow> string" where
  "encode_path_component env s = ''id-'' @ env_digest env s"

definition safe_child :: "'row storage_env \<Rightarrow> path \<Rightarrow> string list \<Rightarrow> path res" where
  "safe_child env root parts =
     rbind (check_each validate_id parts) (\<lambda>_.
       let candidate = env_resolve env (root @ map (encode_path_component env) parts)
       in rbind (raise_unless (root = candidate \<or> strict_prefix root candidate)
                  (ResultStoreFailure ''RESULT_PATH_TRAVERSAL'')) (\<lambda>_. Inr candidate))"

text \<open>\<open>str(path)\<close> of an absolute path.\<close>

definition path_str :: "path \<Rightarrow> string" where
  "path_str p = concat (map (\<lambda>c. ''/'' @ c) p)"

text \<open>The I/O calls of a commit that may raise \<open>OSError\<close>.\<close>

datatype io_step =
  Make_Run_Root | Make_Temporary | Write_Part | Write_Manifest | Write_Marker | Replace_Directory | Remove_Temporary

record commit_choice =
  ch_cancel_set :: bool    \<comment> \<open>\<open>cancel_event\<close> is set when the write is done\<close>
  ch_outer_cancel :: bool  \<comment> \<open>the committing task is cancelled while it awaits the write\<close>
  ch_faults :: "io_step list"

definition parquet_manifest ::
  "'row storage_env \<Rightarrow> path \<Rightarrow> string \<Rightarrow> string \<Rightarrow> string \<Rightarrow> 'row arrow_table \<Rightarrow> nat \<Rightarrow> committed_manifest" where
  "parquet_manifest env final result_id run_id node_id t bytes =
     \<lparr>man_result = \<lparr>rh_result_id = result_id, rh_run_id = run_id, rh_node_id = node_id,
                    rh_storage = Parquet, rh_uri = path_str final\<rparr>,
      man_schema = arrow_schema env (tbl_schema t), man_row_count = num_rows t, man_byte_count = bytes,
      man_parts = [\<lparr>part_path = ''part-00000.parquet'', part_rows = num_rows t, part_bytes = bytes\<rparr>]\<rparr>"

text \<open>\<open>_write_temporary\<close>: the files it leaves in the temporary directory, and its outcome.\<close>

definition write_temporary ::
  "'row storage_env \<Rightarrow> io_step list \<Rightarrow> path \<Rightarrow> string \<Rightarrow> string \<Rightarrow> string \<Rightarrow> 'row arrow_table
     \<Rightarrow> committed_manifest res \<times> 'row directory" where
  "write_temporary env faults final result_id run_id node_id t =
     (if Write_Part \<in> set faults then (Inl OtherException, [])
      else let pf = env_write_table env t 64000;
               m = parquet_manifest env final result_id run_id node_id t (pf_size pf);
               part = [(''part-00000.parquet'', ParquetData pf)]
           in if Write_Manifest \<in> set faults then (Inl OtherException, part)
              else (Inr m, dput ''manifest.json'' (TextData (env_dump env m)) part))"

fun commit_failure :: "failure \<Rightarrow> failure" where
  "commit_failure (ResultStoreFailure c) = ResultStoreFailure c"
| "commit_failure _ = ResultStoreFailure ''RESULT_COMMIT_FAILED''"

text \<open>The \<open>except Exception\<close> clause: the temporary directory goes, the failure is normalised.\<close>

definition abandon_commit ::
  "io_step list \<Rightarrow> 'row parquet_store \<Rightarrow> path \<Rightarrow> failure \<Rightarrow> committed_manifest res \<times> 'row parquet_store" where
  "abandon_commit faults st temporary e =
     (if Remove_Temporary \<in> set faults then (Inl OtherException, st)
      else (Inl (commit_failure e), st\<lparr>ps_dirs := dpop temporary (ps_dirs st)\<rparr>))"

text \<open>Marker and rename: \<open>os.replace\<close> fails on a target directory that is not empty.\<close>

definition publish ::
  "io_step list \<Rightarrow> 'row parquet_store \<Rightarrow> path \<Rightarrow> path \<Rightarrow> committed_manifest
     \<Rightarrow> committed_manifest res \<times> 'row parquet_store" where
  "publish faults st temporary final m =
     (let files = dget_or (ps_dirs st) temporary [];
          marked = dput ''_COMMITTED'' (TextData []) files
      in if Write_Marker \<in> set faults then abandon_commit faults st temporary OtherException
         else if Replace_Directory \<in> set faults \<or> dget_or (ps_dirs st) final [] \<noteq> []
         then abandon_commit faults (st\<lparr>ps_dirs := dput temporary marked (ps_dirs st)\<rparr>) temporary OtherException
         else (Inr m, st\<lparr>ps_dirs := dput final marked (dpop temporary (ps_dirs st))\<rparr>))"

definition commit_paths ::
  "'row storage_env \<Rightarrow> commit_choice \<Rightarrow> 'row parquet_store \<Rightarrow> string \<Rightarrow> string \<Rightarrow> string \<Rightarrow> (path \<times> path) res" where
  "commit_paths env ch st result_id run_id node_id =
     rbind (validate_id run_id) (\<lambda>_.
     rbind (validate_id node_id) (\<lambda>_.
     rbind (safe_child env (ps_root st) [run_id, node_id]) (\<lambda>run_root.
     rbind (raise_unless (Make_Run_Root \<notin> set (ch_faults ch)) OtherException) (\<lambda>_.
     let temporary = run_root @ [''.tmp-'' @ result_id]
     in rbind (safe_child env (ps_root st) [run_id, node_id, result_id]) (\<lambda>final.
        rbind (raise_unless (Make_Temporary \<notin> set (ch_faults ch) \<and> dget (ps_dirs st) temporary = None)
                 OtherException) (\<lambda>_. Inr (temporary, final)))))))"

definition parquet_commit ::
  "'row storage_env \<Rightarrow> commit_choice \<Rightarrow> 'row parquet_store \<Rightarrow> string \<Rightarrow> string \<Rightarrow> string \<Rightarrow> 'row arrow_table
     \<Rightarrow> committed_manifest res \<times> 'row parquet_store" where
  "parquet_commit env ch st result_id run_id node_id t =
     (case commit_paths env ch st result_id run_id node_id of
        Inl e \<Rightarrow> (Inl e, st)
      | Inr (temporary, final) \<Rightarrow>
          let (written, files) = write_temporary env (ch_faults ch) final result_id run_id node_id t;
              st' = st\<lparr>ps_dirs := dput temporary files (ps_dirs st)\<rparr>
          in if ch_outer_cancel ch \<or> (is_ok written \<and> ch_cancel_set ch)
             then (Inl DeferredCleanupCancellation,
                   st'\<lparr>ps_cleanup_tasks := ps_cleanup_tasks st' @ [temporary]\<rparr>)
             else case written of
                 Inl e \<Rightarrow> abandon_commit (ch_faults ch) st' temporary e
               | Inr m \<Rightarrow> publish (ch_faults ch) st' temporary final m)"

subsection \<open>Deferred cleanup\<close>

datatype removal = Removed | Removal_Missing | Removal_OSError

text \<open>The three attempts to remove the temporary directory.\<close>

fun try_remove :: "nat \<Rightarrow> removal list \<Rightarrow> removal res" where
  "try_remove 0 rs = Inl (ResultStoreFailure ''RESULT_ORPHAN_CLEANUP_FAILED'')"
| "try_remove (Suc n) [] = Inr Removed"
| "try_remove (Suc n) (Removal_OSError # rs) = try_remove n rs"
| "try_remove (Suc n) (r # rs) = Inr r"

definition cleanup_cancelled_write ::
  "removal list \<Rightarrow> 'row parquet_store \<Rightarrow> path \<Rightarrow> unit res \<times> 'row parquet_store" where
  "cleanup_cancelled_write removals st temporary =
     (if dget (ps_dirs st) temporary = None then (Inr (), st)
      else case try_remove 3 removals of
          Inl e \<Rightarrow> (Inl e, st)
        | Inr _ \<Rightarrow> (Inr (), st\<lparr>ps_dirs := dpop temporary (ps_dirs st)\<rparr>))"

definition finish_cleanup :: "path \<Rightarrow> unit res \<Rightarrow> 'row parquet_store \<Rightarrow> 'row parquet_store" where
  "finish_cleanup temporary outcome st =
     (let st' = st\<lparr>ps_cleanup_tasks := filter (\<lambda>p. p \<noteq> temporary) (ps_cleanup_tasks st)\<rparr>
      in case outcome of
           Inl (ResultStoreFailure c) \<Rightarrow>
             st'\<lparr>ps_cleanup_failures := ps_cleanup_failures st' @ [ResultStoreFailure c]\<rparr>
         | _ \<Rightarrow> st')"

definition run_cleanup :: "(path \<Rightarrow> removal list) \<Rightarrow> path \<Rightarrow> 'row parquet_store \<Rightarrow> 'row parquet_store" where
  "run_cleanup removals temporary st =
     (let (outcome, st') = cleanup_cancelled_write (removals temporary) st temporary
      in finish_cleanup temporary outcome st')"

definition wait_for_cleanup ::
  "(path \<Rightarrow> removal list) \<Rightarrow> 'row parquet_store \<Rightarrow> unit res \<times> 'row parquet_store" where
  "wait_for_cleanup removals st =
     (let st' = fold (run_cleanup removals) (ps_cleanup_tasks st) st
      in (case ps_cleanup_failures st' of [] \<Rightarrow> Inr () | e # _ \<Rightarrow> Inl e, st'))"

subsection \<open>Reading a page\<close>

fun read_groups ::
  "'row storage_env \<Rightarrow> 'row arrow_table list \<Rightarrow> nat \<Rightarrow> nat \<Rightarrow> 'row arrow_table list
     \<Rightarrow> nat \<times> nat \<times> 'row arrow_table list" where
  "read_groups env [] remaining skip chunks = (remaining, skip, chunks)"
| "read_groups env (g # gs) remaining skip chunks =
     (if num_rows g \<le> skip then read_groups env gs remaining (skip - num_rows g) chunks
      else let n = min remaining (num_rows g - skip); chunks' = chunks @ [env_slice env g skip n]
           in if remaining - n = 0 then (0, 0, chunks')
              else read_groups env gs (remaining - n) 0 chunks')"

fun read_parts ::
  "'row storage_env \<Rightarrow> 'row directory \<Rightarrow> result_part list \<Rightarrow> nat \<Rightarrow> nat \<Rightarrow> arrow_field list
     \<Rightarrow> 'row arrow_table list \<Rightarrow> 'row arrow_table res" where
  "read_parts env dir [] remaining skip sch chunks =
     Inr (if chunks \<noteq> [] then env_concat env chunks else env_empty env sch)"
| "read_parts env dir (p # ps) remaining skip sch chunks =
     (if remaining = 0 then read_parts env dir [] remaining skip sch chunks
      else case dget dir (part_path p) of
          Some (ParquetData pf) \<Rightarrow>
            (let sch' = (if sch = [] then pf_schema pf else sch)
             in if part_rows p \<le> skip then read_parts env dir ps remaining (skip - part_rows p) sch' chunks
                else let (remaining', skip', chunks') = read_groups env (pf_groups pf) remaining skip chunks
                     in read_parts env dir ps remaining' skip' sch' chunks')
        | _ \<Rightarrow> Inl OtherException)"

definition read_page_sync ::
  "'row storage_env \<Rightarrow> 'row directory \<Rightarrow> committed_manifest \<Rightarrow> int \<Rightarrow> int \<Rightarrow> 'row arrow_table res" where
  "read_page_sync env dir m offset limit = read_parts env dir (man_parts m) (nat limit) (nat offset) [] []"

fun text_of :: "'row stored_file option \<Rightarrow> string res" where
  "text_of (Some (TextData s)) = Inr s"
| "text_of _ = Inl OtherException"

definition parquet_read_page ::
  "'row storage_env \<Rightarrow> 'row parquet_store \<Rightarrow> result_handle \<Rightarrow> int \<Rightarrow> int \<Rightarrow> 'row arrow_table res" where
  "parquet_read_page env st h offset limit =
     rbind (validate_page offset limit) (\<lambda>_.
     rbind (raise_unless (rh_storage h = Parquet) (ResultStoreFailure ''RESULT_HANDLE_INVALID'')) (\<lambda>_.
     rbind (check_each validate_id [rh_run_id h, rh_node_id h, rh_result_id h]) (\<lambda>_.
     rbind (safe_child env (ps_root st) [rh_run_id h, rh_node_id h, rh_result_id h]) (\<lambda>result_path.
     rbind (raise_unless (path_str result_path = rh_uri h) (ResultStoreFailure ''RESULT_HANDLE_INVALID'')) (\<lambda>_.
     let dir = dget_or (ps_dirs st) result_path []
     in rbind (raise_unless (dget dir ''_COMMITTED'' \<noteq> None \<and> dget dir ''manifest.json'' \<noteq> None)
                (ResultStoreFailure ''RESULT_NOT_COMMITTED'')) (\<lambda>_.
        rbind (text_of (dget dir ''manifest.json'')) (\<lambda>text.
        rbind (from_option ValueError (env_load env text)) (\<lambda>m.
        rbind (raise_unless (h = man_result m) (ResultStoreFailure ''RESULT_HANDLE_INVALID'')) (\<lambda>_.
          read_page_sync env dir m offset limit)))))))))"

section \<open>The hybrid store\<close>

record 'row hybrid_store =
  hy_inline_max_bytes :: int
  hy_inline :: "'row inline_store"
  hy_parquet :: "'row parquet_store"

definition hybrid_commit ::
  "'row storage_env \<Rightarrow> bool \<times> commit_choice \<Rightarrow> 'row hybrid_store \<Rightarrow> string \<Rightarrow> string \<Rightarrow> string \<Rightarrow> 'row arrow_table
     \<Rightarrow> committed_manifest res \<times> 'row hybrid_store" where
  "hybrid_commit env ch st result_id run_id node_id t =
     (if int (retained_table_size t) \<le> hy_inline_max_bytes st
      then map_prod id (\<lambda>s. st\<lparr>hy_inline := s\<rparr>) (inline_commit env (fst ch) (hy_inline st) result_id run_id node_id t)
      else map_prod id (\<lambda>s. st\<lparr>hy_parquet := s\<rparr>) (parquet_commit env (snd ch) (hy_parquet st) result_id run_id node_id t))"

definition hybrid_read_page ::
  "'row storage_env \<Rightarrow> 'row hybrid_store \<Rightarrow> result_handle \<Rightarrow> int \<Rightarrow> int \<Rightarrow> 'row arrow_table res" where
  "hybrid_read_page env st h offset limit =
     (if rh_storage h = Inline then inline_read_page env (hy_inline st) h offset limit
      else parquet_read_page env (hy_parquet st) h offset limit)"

section \<open>A page is a window of the rows\<close>

definition group_rows :: "'row arrow_table list \<Rightarrow> 'row list" where
  "group_rows gs = concat (map tbl_rows gs)"

lemma group_rows_simps [simp]:
  "group_rows [] = []" "group_rows (g # gs) = tbl_rows g @ group_rows gs"
  "group_rows (xs @ ys) = group_rows xs @ group_rows ys"
  by (simp_all add: group_rows_def)

lemma storage_env_okD:
  assumes "storage_env_ok env"
  shows "tbl_rows (env_slice env t i n) = take n (drop i (tbl_rows t))"
    and "tbl_rows (env_concat env ts) = group_rows ts"
    and "tbl_rows (env_empty env sch) = []"
    and "group_rows (pf_groups (env_write_table env t n)) = tbl_rows t"
    and "env_load env (env_dump env m) = Some m"
    and "env_resolve env p = p"
  using assms by (simp_all add: storage_env_ok_def group_rows_def)

text \<open>The inner loop appends a window of the row groups and leaves what is still to skip and to take.\<close>

lemma read_groups_rows:
  assumes "storage_env_ok env" "0 < remaining"
    and "read_groups env gs remaining skip chunks = (remaining', skip', chunks')"
  shows "group_rows chunks' = group_rows chunks @ take remaining (drop skip (group_rows gs))
    \<and> remaining' = remaining - (length (group_rows gs) - skip)
    \<and> (0 < remaining' \<longrightarrow> skip' = skip - length (group_rows gs))"
  using assms(2,3)
proof (induction gs arbitrary: remaining skip chunks)
  case (Cons g gs)
  note rows = storage_env_okD(1) [OF assms(1)]
  consider "num_rows g \<le> skip" | "skip < num_rows g" "remaining \<le> num_rows g - skip"
    | "skip < num_rows g" "num_rows g - skip < remaining" by linarith
  then show ?case
  proof cases
    case 1
    with Cons.prems have "read_groups env gs remaining (skip - num_rows g) chunks = (remaining', skip', chunks')"
      by simp
    from Cons.IH [OF Cons.prems(1) this] 1 show ?thesis by (simp add: num_rows_def)
  next
    case 2
    with Cons.prems show ?thesis by (auto simp: rows num_rows_def min_absorb1)
  next
    case 3
    let ?n = "num_rows g - skip"
    have "read_groups env gs (remaining - ?n) 0 (chunks @ [env_slice env g skip ?n]) = (remaining', skip', chunks')"
      using 3 Cons.prems by (simp add: Let_def min_absorb2)
    from Cons.IH [OF _ this] 3 show ?thesis by (simp add: rows num_rows_def)
  qed
qed simp

text \<open>
  A manifest describes its directory when every part names a Parquet file with
  the number of rows the manifest says.
\<close>

definition part_groups :: "'row directory \<Rightarrow> result_part \<Rightarrow> 'row arrow_table list" where
  "part_groups dir p = (case dget dir (part_path p) of Some (ParquetData pf) \<Rightarrow> pf_groups pf | _ \<Rightarrow> [])"

definition parts_described :: "'row directory \<Rightarrow> result_part list \<Rightarrow> bool" where
  "parts_described dir ps \<longleftrightarrow> (\<forall>p \<in> set ps.
     (\<exists>pf. dget dir (part_path p) = Some (ParquetData pf)) \<and> part_rows p = length (group_rows (part_groups dir p)))"

lemma read_parts_rows:
  assumes "storage_env_ok env" "parts_described dir ps"
  shows "\<exists>t. read_parts env dir ps remaining skip sch chunks = Inr t
     \<and> tbl_rows t = group_rows chunks @ take remaining (drop skip (concat (map (group_rows \<circ> part_groups dir) ps)))"
  using assms(2)
proof (induction ps arbitrary: remaining skip sch chunks)
  case Nil
  then show ?case by (simp add: storage_env_okD [OF assms(1)])
next
  case (Cons p ps)
  then obtain pf where pf: "dget dir (part_path p) = Some (ParquetData pf)"
    and n: "part_rows p = length (group_rows (pf_groups pf))" and ps: "parts_described dir ps"
    by (auto simp: parts_described_def part_groups_def)
  have g: "part_groups dir p = pf_groups pf" by (simp add: part_groups_def pf)
  let ?sch = "if sch = [] then pf_schema pf else sch"
  consider "remaining = 0" | "0 < remaining" "part_rows p \<le> skip" | "0 < remaining" "skip < part_rows p" by linarith
  then show ?case
  proof cases
    case 1
    then show ?thesis by (simp add: storage_env_okD [OF assms(1)])
  next
    case 2
    from Cons.IH [OF ps, of remaining "skip - part_rows p" ?sch chunks] 2 show ?thesis
      by (simp add: pf g n)
  next
    case 3
    obtain remaining' skip' chunks' where r: "read_groups env (pf_groups pf) remaining skip chunks = (remaining', skip', chunks')"
      by (cases "read_groups env (pf_groups pf) remaining skip chunks")
    from read_groups_rows [OF assms(1) 3(1) r] 3(2) have
      c: "group_rows chunks' = group_rows chunks @ take remaining (drop skip (group_rows (pf_groups pf)))"
      and m: "remaining' = remaining - (length (group_rows (pf_groups pf)) - skip)" and k: "0 < remaining' \<Longrightarrow> skip' = 0"
      by (auto simp: n)
    obtain t where t: "read_parts env dir ps remaining' skip' ?sch chunks' = Inr t"
      "tbl_rows t = group_rows chunks' @ take remaining' (drop skip' (concat (map (group_rows \<circ> part_groups dir) ps)))"
      using Cons.IH [OF ps] by blast
    have "take remaining' (drop skip' xs) = take remaining' xs" for xs :: "'a list"
      using k by (cases remaining') simp_all
    with t(2) have "tbl_rows t = group_rows chunks @ take remaining (drop skip (concat (map (group_rows \<circ> part_groups dir) (p # ps))))"
      using 3 by (simp add: c m g n)
    moreover have "read_parts env dir (p # ps) remaining skip sch chunks = Inr t"
      using 3 t(1) by (simp add: pf r Let_def)
    ultimately show ?thesis by blast
  qed
qed

section \<open>The contract of a result store\<close>

text \<open>
  One entry per commit request: the caller's choices and failures, the fresh
  result id, run id, node id and table.
\<close>

type_synonym ('o, 'row) commit_request = "'o \<times> string \<times> string \<times> string \<times> 'row arrow_table"

fun commit_all ::
  "('s \<Rightarrow> 'o \<Rightarrow> string \<Rightarrow> string \<Rightarrow> string \<Rightarrow> 'row arrow_table \<Rightarrow> committed_manifest res \<times> 's)
     \<Rightarrow> 's \<Rightarrow> ('o, 'row) commit_request list \<Rightarrow> committed_manifest res list \<times> 's" where
  "commit_all commit s [] = ([], s)"
| "commit_all commit s ((ch, i, r, n, t) # reqs) =
     (let (x, s') = commit s ch i r n t; (xs, s'') = commit_all commit s' reqs in (x # xs, s''))"

definition request_id :: "('o, 'row) commit_request \<Rightarrow> string" where
  "request_id q = fst (snd q)"

definition request_table :: "('o, 'row) commit_request \<Rightarrow> 'row arrow_table" where
  "request_table q = snd (snd (snd (snd q)))"

text \<open>
  What the \<open>ResultStore\<close> protocol promises its clients: a committed table can
  be read back page by page, later commits do not disturb it, and a commit that
  fails publishes nothing.
\<close>

locale result_store =
  fixes commit :: "'s \<Rightarrow> 'o \<Rightarrow> string \<Rightarrow> string \<Rightarrow> string \<Rightarrow> 'row arrow_table \<Rightarrow> committed_manifest res \<times> 's"
    and read_page :: "'s \<Rightarrow> result_handle \<Rightarrow> int \<Rightarrow> int \<Rightarrow> 'row arrow_table res"
    and sound :: "'s \<Rightarrow> bool"
    and fresh :: "'s \<Rightarrow> string \<Rightarrow> bool"
  assumes commit_sound: "sound s \<Longrightarrow> commit s ch i r n t = (x, s') \<Longrightarrow> sound s'"
    and commit_fresh: "sound s \<Longrightarrow> commit s ch i r n t = (x, s') \<Longrightarrow> fresh s j \<Longrightarrow> j \<noteq> i \<Longrightarrow> fresh s' j"
    and commit_reads: "sound s \<Longrightarrow> commit s ch i r n t = (Inr m, s') \<Longrightarrow> validate_page offset limit = Inr () \<Longrightarrow>
      \<exists>p. read_page s' (man_result m) offset limit = Inr p
          \<and> tbl_rows p = take (nat limit) (drop (nat offset) (tbl_rows t))"
    and commit_keeps: "sound s \<Longrightarrow> fresh s i \<Longrightarrow> commit s ch i r n t = (x, s') \<Longrightarrow>
      read_page s h offset limit = Inr p \<Longrightarrow> read_page s' h offset limit = Inr p"
    and failed_commit_hidden: "sound s \<Longrightarrow> commit s ch i r n t = (Inl e, s') \<Longrightarrow>
      read_page s' h offset limit = Inr p \<Longrightarrow> read_page s h offset limit = Inr p"
begin

lemma reads_survive:
  "commit_all commit s reqs = (xs, s') \<Longrightarrow> sound s \<Longrightarrow> distinct (map request_id reqs) \<Longrightarrow>
   (\<forall>q \<in> set reqs. fresh s (request_id q)) \<Longrightarrow>
   read_page s h offset limit = Inr p \<Longrightarrow> read_page s' h offset limit = Inr p"
proof (induction reqs arbitrary: s xs)
  case (Cons q reqs)
  obtain ch i r n t where q: "q = (ch, i, r, n, t)" by (cases q)
  from Cons.prems(1) obtain x s1 ys where c: "commit s ch i r n t = (x, s1)"
    and rest: "commit_all commit s1 reqs = (ys, s')"
    by (auto simp: q Let_def split: prod.splits)
  have "\<forall>q \<in> set reqs. fresh s1 (request_id q)"
    using Cons.prems(3,4) commit_fresh [OF Cons.prems(2) c] by (force simp: q request_id_def)
  moreover have "read_page s1 h offset limit = Inr p"
    using commit_keeps [OF Cons.prems(2) _ c Cons.prems(5)] Cons.prems(4) by (simp add: q request_id_def)
  ultimately show ?case
    using Cons.IH [OF rest commit_sound [OF Cons.prems(2) c]] Cons.prems(3) by simp
qed simp

text \<open>Every successful commit of a session can be read back at its end.\<close>

lemma committed_pages:
  "commit_all commit s reqs = (xs, s') \<Longrightarrow> sound s \<Longrightarrow> distinct (map request_id reqs) \<Longrightarrow>
   (\<forall>q \<in> set reqs. fresh s (request_id q)) \<Longrightarrow> k < length reqs \<Longrightarrow> xs ! k = Inr m \<Longrightarrow>
   validate_page offset limit = Inr () \<Longrightarrow>
   \<exists>p. read_page s' (man_result m) offset limit = Inr p
       \<and> tbl_rows p = take (nat limit) (drop (nat offset) (tbl_rows (request_table (reqs ! k))))"
proof (induction reqs arbitrary: s xs k)
  case (Cons q reqs)
  obtain ch i r n t where q: "q = (ch, i, r, n, t)" by (cases q)
  from Cons.prems(1) obtain x s1 ys where c: "commit s ch i r n t = (x, s1)"
    and rest: "commit_all commit s1 reqs = (ys, s')" and xs: "xs = x # ys"
    by (auto simp: q Let_def split: prod.splits)
  note s1 = commit_sound [OF Cons.prems(2) c]
  have fresh: "\<forall>q \<in> set reqs. fresh s1 (request_id q)"
    using Cons.prems(3,4) commit_fresh [OF Cons.prems(2) c] by (force simp: q request_id_def)
  have d: "distinct (map request_id reqs)" using Cons.prems(3) by simp
  show ?case
  proof (cases k)
    case 0
    with Cons.prems(6) xs c have "commit s ch i r n t = (Inr m, s1)" by simp
    from commit_reads [OF Cons.prems(2) this Cons.prems(7)] reads_survive [OF rest s1 d fresh] 0
    show ?thesis by (auto simp: q request_table_def)
  next
    case (Suc j)
    from Cons.IH [OF rest s1 d fresh, of j] Cons.prems(5,6,7) Suc xs show ?thesis by simp
  qed
qed simp

end

section \<open>The stores keep the contract\<close>

text \<open>A store and the libraries it runs on, as one state.\<close>

definition with_env ::
  "('e \<Rightarrow> 'o \<Rightarrow> 's \<Rightarrow> string \<Rightarrow> string \<Rightarrow> string \<Rightarrow> 't \<Rightarrow> 'm \<times> 's)
     \<Rightarrow> 'e \<times> 's \<Rightarrow> 'o \<Rightarrow> string \<Rightarrow> string \<Rightarrow> string \<Rightarrow> 't \<Rightarrow> 'm \<times> ('e \<times> 's)" where
  "with_env commit es ch i r n t =
     (let (x, s') = commit (fst es) ch (snd es) i r n t in (x, (fst es, s')))"

definition env_sound :: "'row storage_env \<times> 's \<Rightarrow> bool" where
  "env_sound es \<longleftrightarrow> storage_env_ok (fst es)"

lemma with_env_eq:
  "with_env commit es ch i r n t = (x, es') \<longleftrightarrow>
     commit (fst es) ch (snd es) i r n t = (x, snd es') \<and> fst es' = fst es"
  by (cases es') (auto simp: with_env_def split: prod.splits)

lemma validate_page_eq: "validate_page offset limit = Inr u \<longleftrightarrow> 0 \<le> offset \<and> 0 < limit \<and> limit \<le> 10000"
  by (auto simp: validate_page_def)

subsection \<open>Inline\<close>

lemma inline_commit_Inr:
  "inline_commit env c st i r n t = (Inr m, st') \<longleftrightarrow>
     safe_id r \<and> safe_id n \<and> \<not> c \<and> m = inline_manifest env i r n t
     \<and> st' = st\<lparr>inl_tables := dput i t (inl_tables st), inl_manifests := dput i m (inl_manifests st)\<rparr>"
  by (auto simp: inline_commit_def validate_id_def raise_unless_def Let_def)

lemma inline_commit_Inl: "inline_commit env c st i r n t = (Inl e, st') \<Longrightarrow> st' = st"
  by (auto simp: inline_commit_def Let_def split: sum.splits)

definition inline_fresh :: "'row storage_env \<times> 'row inline_store \<Rightarrow> string \<Rightarrow> bool" where
  "inline_fresh es i \<longleftrightarrow> dget (inl_manifests (snd es)) i = None"

lemma inline_read_page_Inr:
  "inline_read_page env st h offset limit = Inr p \<longleftrightarrow>
     validate_page offset limit = Inr () \<and> rh_storage h = Inline
     \<and> (\<exists>m t. dget (inl_manifests st) (rh_result_id h) = Some m \<and> h = man_result m
          \<and> dget (inl_tables st) (rh_result_id h) = Some t \<and> p = env_slice env t (nat offset) (nat limit))"
  by (auto simp: inline_read_page_def)

lemma inline_reads_new:
  assumes "storage_env_ok env" "inline_commit env c st i r n t = (Inr m, st')" "validate_page offset limit = Inr ()"
  shows "\<exists>p. inline_read_page env st' (man_result m) offset limit = Inr p
          \<and> tbl_rows p = take (nat limit) (drop (nat offset) (tbl_rows t))"
  using assms(2,3) storage_env_okD(1) [OF assms(1)]
  by (auto simp: inline_commit_Inr inline_read_page_Inr inline_manifest_def Let_def)

lemma inline_keeps:
  assumes "inline_commit env c st i r n t = (x, st')" "dget (inl_manifests st) i = None"
    and "inline_read_page env st h offset limit = Inr p"
  shows "inline_read_page env st' h offset limit = Inr p"
proof (cases x)
  case (Inl e)
  with assms inline_commit_Inl show ?thesis by blast
next
  case (Inr m)
  with assms show ?thesis by (auto simp: inline_commit_Inr inline_read_page_Inr)
qed

interpretation inline: result_store "with_env inline_commit" "\<lambda>es. inline_read_page (fst es) (snd es)"
  env_sound inline_fresh
proof
  fix es es' :: "'a storage_env \<times> 'a inline_store" and ch i r n t x j
  assume c: "with_env inline_commit es ch i r n t = (x, es')" and "inline_fresh es j" "j \<noteq> i"
  then show "inline_fresh es' j"
    by (cases x) (auto simp: with_env_eq inline_fresh_def inline_commit_Inr dest: inline_commit_Inl)
qed (auto simp: with_env_eq env_sound_def inline_fresh_def intro: inline_reads_new inline_keeps dest: inline_commit_Inl)

subsection \<open>Parquet\<close>

text \<open>Temporary directories are told from committed ones by their last component.\<close>

definition is_temporary :: "path \<Rightarrow> bool" where
  "is_temporary p \<longleftrightarrow> p \<noteq> [] \<and> prefix ''.tmp-'' (last p)"

lemma safe_child_Inr:
  assumes "storage_env_ok env"
  shows "safe_child env root parts = Inr p \<longleftrightarrow>
    (\<forall>s \<in> set parts. safe_id s) \<and> p = root @ map (encode_path_component env) parts"
  using storage_env_okD(6) [OF assms]
  by (auto simp: safe_child_def Let_def validate_id_def strict_prefix_def)

lemma safe_child_not_temporary:
  assumes "storage_env_ok env" "safe_child env root parts = Inr p" "parts \<noteq> []"
  shows "\<not> is_temporary p"
  using assms(2,3)
  by (auto simp: safe_child_Inr [OF assms(1)] is_temporary_def encode_path_component_def last_map prefix_def)

lemma commit_paths_Inr:
  assumes "commit_paths env ch st i r n = Inr (temporary, final)"
  shows "safe_child env (ps_root st) [r, n, i] = Inr final" "is_temporary temporary"
    "dget (ps_dirs st) temporary = None" "safe_id r \<and> safe_id n"
  using assms by (auto simp: commit_paths_def is_temporary_def validate_id_def prefix_def Let_def)

text \<open>The files of a committed directory.\<close>

definition committed_files :: "'row storage_env \<Rightarrow> committed_manifest \<Rightarrow> 'row parquet_file \<Rightarrow> 'row directory" where
  "committed_files env m pf =
     [(''part-00000.parquet'', ParquetData pf), (''manifest.json'', TextData (env_dump env m)), (''_COMMITTED'', TextData [])]"

text \<open>Directories with a temporary name aside, two stores look the same.\<close>

definition same_visible :: "'row parquet_store \<Rightarrow> 'row parquet_store \<Rightarrow> bool" where
  "same_visible st st' \<longleftrightarrow> ps_root st' = ps_root st
     \<and> (\<forall>p. \<not> is_temporary p \<longrightarrow> dget (ps_dirs st') p = dget (ps_dirs st) p)"

lemma abandon_visible:
  assumes "abandon_commit faults st temporary e = (x, st')" "is_temporary temporary"
  shows "same_visible st st' \<and> (\<exists>e'. x = Inl e')"
  using assms by (auto simp: abandon_commit_def same_visible_def split: if_splits)

lemma same_visible_trans: "same_visible s1 s2 \<Longrightarrow> same_visible s2 s3 \<Longrightarrow> same_visible s1 s3"
  by (simp add: same_visible_def)

lemma same_visible_temporary:
  "is_temporary temporary \<Longrightarrow> same_visible st (st\<lparr>ps_dirs := dput temporary files (ps_dirs st)\<rparr>)"
  by (auto simp: same_visible_def)

lemma publish_visible:
  assumes "publish faults st temporary final m = (x, st')" "is_temporary temporary" "\<not> is_temporary final"
  shows "(x = Inr m \<and> dget_or (ps_dirs st) final [] = [] \<and> ps_root st' = ps_root st
            \<and> dget (ps_dirs st') final = Some (dput ''_COMMITTED'' (TextData []) (dget_or (ps_dirs st) temporary []))
            \<and> (\<forall>p. \<not> is_temporary p \<longrightarrow> p \<noteq> final \<longrightarrow> dget (ps_dirs st') p = dget (ps_dirs st) p))
         \<or> (same_visible st st' \<and> (\<exists>e. x = Inl e))"
proof -
  let ?marked = "dput ''_COMMITTED'' (TextData []) (dget_or (ps_dirs st) temporary [])"
  consider "Write_Marker \<in> set faults"
    | "Write_Marker \<notin> set faults" "Replace_Directory \<in> set faults \<or> dget_or (ps_dirs st) final [] \<noteq> []"
    | "Write_Marker \<notin> set faults" "Replace_Directory \<notin> set faults" "dget_or (ps_dirs st) final [] = []" by blast
  then show ?thesis
  proof cases
    case 1
    then have "abandon_commit faults st temporary OtherException = (x, st')"
      using assms(1) by (simp add: publish_def Let_def)
    from abandon_visible [OF this assms(2)] show ?thesis by blast
  next
    case 2
    then have "abandon_commit faults (st\<lparr>ps_dirs := dput temporary ?marked (ps_dirs st)\<rparr>) temporary OtherException = (x, st')"
      using assms(1) by (simp add: publish_def Let_def)
    from abandon_visible [OF this assms(2)] same_visible_temporary [OF assms(2)] same_visible_trans
    show ?thesis by blast
  next
    case 3
    with assms show ?thesis by (auto simp: publish_def Let_def)
  qed
qed

text \<open>
  What a commit does to the directories a reader can see: a failing one
  nothing, a successful one adds exactly one complete directory.
\<close>

lemma parquet_commit_visible:
  assumes "parquet_commit env ch st i r n t = (x, st')" "storage_env_ok env"
  shows "(\<exists>e. x = Inl e \<and> same_visible st st')
    \<or> (\<exists>final. safe_child env (ps_root st) [r, n, i] = Inr final \<and> dget_or (ps_dirs st) final [] = []
         \<and> (let pf = env_write_table env t 64000; m = parquet_manifest env final i r n t (pf_size pf)
            in x = Inr m \<and> dget (ps_dirs st') final = Some (committed_files env m pf))
         \<and> ps_root st' = ps_root st
         \<and> (\<forall>p. \<not> is_temporary p \<longrightarrow> p \<noteq> final \<longrightarrow> dget (ps_dirs st') p = dget (ps_dirs st) p))"
proof (cases "commit_paths env ch st i r n")
  case (Inl e)
  with assms show ?thesis by (auto simp: parquet_commit_def same_visible_def)
next
  case (Inr paths)
  obtain temporary final where "paths = (temporary, final)" by (cases paths)
  note paths = Inr [unfolded this]
  note pths = commit_paths_Inr [OF paths]
  obtain w files where w: "write_temporary env (ch_faults ch) final i r n t = (w, files)"
    by (cases "write_temporary env (ch_faults ch) final i r n t")
  let ?st = "st\<lparr>ps_dirs := dput temporary files (ps_dirs st)\<rparr>"
  note tmp = same_visible_temporary [OF pths(2), of st files]
  have final: "\<not> is_temporary final" using safe_child_not_temporary [OF assms(2) pths(1)] by simp
  consider (deferred) "ch_outer_cancel ch \<or> (is_ok w \<and> ch_cancel_set ch)"
    | (failed) e where "\<not> (ch_outer_cancel ch \<or> (is_ok w \<and> ch_cancel_set ch))" "w = Inl e"
    | (written) m where "\<not> (ch_outer_cancel ch \<or> (is_ok w \<and> ch_cancel_set ch))" "w = Inr m"
    by (cases w) auto
  then show ?thesis
  proof cases
    case deferred
    then have "x = Inl DeferredCleanupCancellation" "st' = ?st\<lparr>ps_cleanup_tasks := ps_cleanup_tasks ?st @ [temporary]\<rparr>"
      using assms(1) by (simp_all add: parquet_commit_def paths w)
    moreover from this tmp have "same_visible st st'" by (simp add: same_visible_def)
    ultimately show ?thesis by blast
  next
    case failed
    then have "abandon_commit (ch_faults ch) ?st temporary e = (x, st')"
      using assms(1) by (auto simp: parquet_commit_def paths w)
    from abandon_visible [OF this pths(2)] same_visible_trans [OF tmp] show ?thesis by blast
  next
    case written
    then have "publish (ch_faults ch) ?st temporary final m = (x, st')"
      using assms(1) by (auto simp: parquet_commit_def paths w)
    note pub = publish_visible [OF this pths(2) final]
    have wr: "m = parquet_manifest env final i r n t (pf_size (env_write_table env t 64000))"
      "dput ''_COMMITTED'' (TextData []) files = committed_files env m (env_write_table env t 64000)"
      using w written(2) by (auto simp: write_temporary_def Let_def committed_files_def split: if_splits)
    from pub show ?thesis
    proof
      assume p: "x = Inr m \<and> dget_or (ps_dirs ?st) final [] = [] \<and> ps_root st' = ps_root ?st
            \<and> dget (ps_dirs st') final = Some (dput ''_COMMITTED'' (TextData []) (dget_or (ps_dirs ?st) temporary []))
            \<and> (\<forall>p. \<not> is_temporary p \<longrightarrow> p \<noteq> final \<longrightarrow> dget (ps_dirs st') p = dget (ps_dirs ?st) p)"
      have ne: "final \<noteq> temporary" using final pths(2) by blast
      have "\<forall>p. \<not> is_temporary p \<longrightarrow> p \<noteq> final \<longrightarrow> dget (ps_dirs st') p = dget (ps_dirs st) p"
        using p pths(2) by auto
      with p ne pths(1) wr show ?thesis by (intro disjI2 exI [of _ final]) (simp add: Let_def)
    next
      assume "same_visible ?st st' \<and> (\<exists>e. x = Inl e)"
      with same_visible_trans [OF tmp] show ?thesis by blast
    qed
  qed
qed

text \<open>A page read looks at one directory only, the one its handle names.\<close>

definition handle_path :: "'row storage_env \<Rightarrow> path \<Rightarrow> result_handle \<Rightarrow> path" where
  "handle_path env root h = root @ map (encode_path_component env) [rh_run_id h, rh_node_id h, rh_result_id h]"

lemma handle_path_visible: "\<not> is_temporary (handle_path env root h)"
  by (simp add: is_temporary_def handle_path_def encode_path_component_def prefix_def)

lemma parquet_read_page_cong:
  assumes "storage_env_ok env" "ps_root st' = ps_root st"
    and "dget (ps_dirs st') (handle_path env (ps_root st) h) = dget (ps_dirs st) (handle_path env (ps_root st) h)"
  shows "parquet_read_page env st' h offset limit = parquet_read_page env st h offset limit"
proof -
  have "dget_or (ps_dirs st') p [] = dget_or (ps_dirs st) p []"
    if "safe_child env (ps_root st) [rh_run_id h, rh_node_id h, rh_result_id h] = Inr p" for p
    using that assms(3) by (simp add: safe_child_Inr [OF assms(1)] handle_path_def dget_or_def)
  then show ?thesis
    by (auto simp: parquet_read_page_def assms(2) Let_def intro!: rbind_cong)
qed

lemma parquet_read_page_nonempty:
  assumes "storage_env_ok env" "parquet_read_page env st h offset limit = Inr p"
  shows "dget_or (ps_dirs st) (handle_path env (ps_root st) h) [] \<noteq> []"
proof -
  obtain q where "safe_child env (ps_root st) [rh_run_id h, rh_node_id h, rh_result_id h] = Inr q"
    "dget (dget_or (ps_dirs st) q []) ''_COMMITTED'' \<noteq> None"
    using assms(2) by (auto simp: parquet_read_page_def Let_def)
  then show ?thesis by (auto simp: safe_child_Inr [OF assms(1)] handle_path_def)
qed

lemma committed_files_described:
  assumes "storage_env_ok env"
  shows "parts_described (committed_files env m' (env_write_table env t k))
           (man_parts (parquet_manifest env final i r n t b))"
  using storage_env_okD(4) [OF assms, of t k]
  by (auto simp: parts_described_def committed_files_def parquet_manifest_def part_groups_def num_rows_def)

lemma parquet_reads_new:
  assumes ok: "storage_env_ok env" and "parquet_commit env ch st i r n t = (Inr m, st')"
    and page: "validate_page offset limit = Inr ()"
  shows "\<exists>p. parquet_read_page env st' (man_result m) offset limit = Inr p
          \<and> tbl_rows p = take (nat limit) (drop (nat offset) (tbl_rows t))"
proof -
  let ?pf = "env_write_table env t 64000"
  from parquet_commit_visible [OF assms(2) ok] obtain final where
    child: "safe_child env (ps_root st) [r, n, i] = Inr final"
    and m: "m = parquet_manifest env final i r n t (pf_size ?pf)"
    and files: "dget (ps_dirs st') final = Some (committed_files env m ?pf)"
    and root: "ps_root st' = ps_root st"
    by (auto simp: Let_def)
  let ?h = "man_result m"
  have h: "rh_run_id ?h = r" "rh_node_id ?h = n" "rh_result_id ?h = i" "rh_storage ?h = Parquet" "rh_uri ?h = path_str final"
    by (simp_all add: m parquet_manifest_def)
  have ids: "safe_id r" "safe_id n" "safe_id i" using child by (simp_all add: safe_child_Inr [OF ok])
  have dir: "dget_or (ps_dirs st') final [] = committed_files env m ?pf" using files by simp
  have "parquet_read_page env st' ?h offset limit = read_page_sync env (committed_files env m ?pf) m offset limit"
    using page child ids
    by (simp add: parquet_read_page_def h root dir Let_def validate_id_def committed_files_def storage_env_okD(5) [OF ok])
  moreover have "concat (map (group_rows \<circ> part_groups (committed_files env m ?pf)) (man_parts m)) = tbl_rows t"
    using storage_env_okD(4) [OF ok, of t 64000]
    by (simp add: committed_files_def m parquet_manifest_def part_groups_def)
  moreover have "parts_described (committed_files env m ?pf) (man_parts m)"
    unfolding m by (rule committed_files_described [OF ok])
  from read_parts_rows [OF ok this, of "nat limit" "nat offset" "[]" "[]"] obtain p where
    "read_page_sync env (committed_files env m ?pf) m offset limit = Inr p"
    "tbl_rows p = take (nat limit) (drop (nat offset)
       (concat (map (group_rows \<circ> part_groups (committed_files env m ?pf)) (man_parts m))))"
    by (auto simp: read_page_sync_def)
  ultimately show ?thesis by auto
qed

lemma parquet_keeps:
  assumes "storage_env_ok env" "parquet_commit env ch st i r n t = (x, st')"
    and "parquet_read_page env st h offset limit = Inr p"
  shows "parquet_read_page env st' h offset limit = Inr p"
proof -
  let ?q = "handle_path env (ps_root st) h"
  have "ps_root st' = ps_root st \<and> dget (ps_dirs st') ?q = dget (ps_dirs st) ?q"
    using parquet_commit_visible [OF assms(2,1)] parquet_read_page_nonempty [OF assms(1,3)]
      handle_path_visible [of env "ps_root st" h]
    by (auto simp: same_visible_def)
  then have "parquet_read_page env st' h offset limit = parquet_read_page env st h offset limit"
    by (intro parquet_read_page_cong [OF assms(1)]) simp_all
  with assms(3) show ?thesis by simp
qed

lemma parquet_failed_hidden:
  assumes "storage_env_ok env" "parquet_commit env ch st i r n t = (Inl e, st')"
  shows "parquet_read_page env st' h offset limit = parquet_read_page env st h offset limit"
proof -
  have "same_visible st st'" using parquet_commit_visible [OF assms(2,1)] by (auto simp: Let_def)
  then have "ps_root st' = ps_root st"
    "dget (ps_dirs st') (handle_path env (ps_root st) h) = dget (ps_dirs st) (handle_path env (ps_root st) h)"
    using handle_path_visible [of env "ps_root st" h] by (simp_all add: same_visible_def)
  then show ?thesis by (rule parquet_read_page_cong [OF assms(1)])
qed

interpretation parquet: result_store "with_env parquet_commit" "\<lambda>es. parquet_read_page (fst es) (snd es)"
  env_sound "\<lambda>_ _. True"
proof (unfold_locales, goal_cases)
  case (5 es ch i r n t e es' h offset limit p)
  then show ?case
    using parquet_failed_hidden [of "fst es" ch "snd es" i r n t e "snd es'" h offset limit]
    by (simp add: with_env_eq env_sound_def)
qed (auto simp: with_env_eq env_sound_def intro: parquet_reads_new parquet_keeps)

subsection \<open>Hybrid\<close>

definition hybrid_fresh :: "'row storage_env \<times> 'row hybrid_store \<Rightarrow> string \<Rightarrow> bool" where
  "hybrid_fresh es i \<longleftrightarrow> dget (inl_manifests (hy_inline (snd es))) i = None"

lemma hybrid_commit_cases:
  assumes "hybrid_commit env ch st i r n t = (x, st')"
  obtains
    (inline) s where "inline_commit env (fst ch) (hy_inline st) i r n t = (x, s)" "st' = st\<lparr>hy_inline := s\<rparr>"
  | (parquet) s where "parquet_commit env (snd ch) (hy_parquet st) i r n t = (x, s)" "st' = st\<lparr>hy_parquet := s\<rparr>"
  using assms by (auto simp: hybrid_commit_def map_prod_def split: if_splits prod.splits)

lemma inline_manifest_storage: "inline_commit env c st i r n t = (Inr m, st') \<Longrightarrow> rh_storage (man_result m) = Inline"
  by (auto simp: inline_commit_Inr inline_manifest_def Let_def)

lemma parquet_manifest_storage:
  "storage_env_ok env \<Longrightarrow> parquet_commit env ch st i r n t = (Inr m, st') \<Longrightarrow> rh_storage (man_result m) = Parquet"
  by (drule parquet_commit_visible) (auto simp: parquet_manifest_def Let_def)

lemma hybrid_reads_new:
  assumes "storage_env_ok env" "hybrid_commit env ch st i r n t = (Inr m, st')" "validate_page offset limit = Inr ()"
  shows "\<exists>p. hybrid_read_page env st' (man_result m) offset limit = Inr p
          \<and> tbl_rows p = take (nat limit) (drop (nat offset) (tbl_rows t))"
  using assms(2)
proof (cases rule: hybrid_commit_cases)
  case (inline s)
  with inline_reads_new [OF assms(1) inline(1) assms(3)] inline_manifest_storage [OF inline(1)] show ?thesis
    by (simp add: hybrid_read_page_def)
next
  case (parquet s)
  with parquet_reads_new [OF assms(1) parquet(1) assms(3)] parquet_manifest_storage [OF assms(1) parquet(1)]
  show ?thesis by (simp add: hybrid_read_page_def)
qed

lemma hybrid_keeps:
  assumes "storage_env_ok env" "hybrid_commit env ch st i r n t = (x, st')"
    and "dget (inl_manifests (hy_inline st)) i = None" "hybrid_read_page env st h offset limit = Inr p"
  shows "hybrid_read_page env st' h offset limit = Inr p"
  using assms(2)
proof (cases rule: hybrid_commit_cases)
  case (inline s)
  with inline_keeps [OF inline(1) assms(3)] assms(4) show ?thesis by (auto simp: hybrid_read_page_def)
next
  case (parquet s)
  with parquet_keeps [OF assms(1) parquet(1)] assms(4) show ?thesis by (auto simp: hybrid_read_page_def)
qed

lemma hybrid_failed_hidden:
  assumes "storage_env_ok env" "hybrid_commit env ch st i r n t = (Inl e, st')"
  shows "hybrid_read_page env st' h offset limit = hybrid_read_page env st h offset limit"
  using assms(2)
proof (cases rule: hybrid_commit_cases)
  case (inline s)
  with inline_commit_Inl [OF inline(1)] show ?thesis by (simp add: hybrid_read_page_def)
next
  case (parquet s)
  with parquet_failed_hidden [OF assms(1) parquet(1)] show ?thesis by (simp add: hybrid_read_page_def)
qed

lemma hybrid_stays_fresh:
  assumes "hybrid_commit env ch st i r n t = (x, st')" "j \<noteq> i"
  shows "dget (inl_manifests (hy_inline st')) j = dget (inl_manifests (hy_inline st)) j"
  using assms(1)
proof (cases rule: hybrid_commit_cases)
  case (inline s)
  then show ?thesis using assms(2) by (cases x) (auto simp: inline_commit_Inr dest: inline_commit_Inl)
qed simp

interpretation hybrid: result_store "with_env hybrid_commit" "\<lambda>es. hybrid_read_page (fst es) (snd es)"
  env_sound hybrid_fresh
proof (unfold_locales, goal_cases)
  case (2 es ch i r n t x es' j)
  then show ?case
    using hybrid_stays_fresh [of "fst es" ch "snd es" i r n t x "snd es'" j]
    by (simp add: with_env_eq hybrid_fresh_def)
next
  case (5 es ch i r n t e es' h offset limit p)
  then show ?case
    using hybrid_failed_hidden [of "fst es" ch "snd es" i r n t e "snd es'" h offset limit]
    by (simp add: with_env_eq env_sound_def)
qed (auto simp: with_env_eq env_sound_def hybrid_fresh_def intro: hybrid_reads_new hybrid_keeps)

section \<open>Temporary directories\<close>

text \<open>Every temporary directory on disk has a cleanup task that will remove it.\<close>

definition no_orphans :: "'row parquet_store \<Rightarrow> bool" where
  "no_orphans st \<longleftrightarrow> (\<forall>p. is_temporary p \<longrightarrow> dget (ps_dirs st) p \<noteq> None \<longrightarrow> p \<in> set (ps_cleanup_tasks st))"

lemma abandon_no_orphans:
  assumes "abandon_commit faults (st\<lparr>ps_dirs := dput temporary files (ps_dirs st)\<rparr>) temporary e = (x, st')"
    and "no_orphans st" "Remove_Temporary \<notin> set faults"
  shows "no_orphans st'"
  using assms by (auto simp: abandon_commit_def no_orphans_def split: if_splits)

lemma publish_no_orphans:
  assumes "publish faults (st\<lparr>ps_dirs := dput temporary files (ps_dirs st)\<rparr>) temporary final m = (x, st')"
    and "no_orphans st" "Remove_Temporary \<notin> set faults" "\<not> is_temporary final"
  shows "no_orphans st'"
  using assms by (auto simp: publish_def abandon_commit_def no_orphans_def Let_def split: if_splits)

lemma commit_no_orphans:
  assumes "parquet_commit env ch st i r n t = (x, st')" "storage_env_ok env"
    and "no_orphans st" "Remove_Temporary \<notin> set (ch_faults ch)"
  shows "no_orphans st'"
proof (cases "commit_paths env ch st i r n")
  case (Inl e)
  with assms show ?thesis by (simp add: parquet_commit_def)
next
  case (Inr paths)
  obtain temporary final where "paths = (temporary, final)" by (cases paths)
  note paths = Inr [unfolded this]
  have final: "\<not> is_temporary final"
    using safe_child_not_temporary [OF assms(2) commit_paths_Inr(1) [OF paths]] by simp
  obtain w files where w: "write_temporary env (ch_faults ch) final i r n t = (w, files)"
    by (cases "write_temporary env (ch_faults ch) final i r n t")
  let ?st = "st\<lparr>ps_dirs := dput temporary files (ps_dirs st)\<rparr>"
  show ?thesis
  proof (cases "ch_outer_cancel ch \<or> (is_ok w \<and> ch_cancel_set ch)")
    case True
    then have "st' = ?st\<lparr>ps_cleanup_tasks := ps_cleanup_tasks ?st @ [temporary]\<rparr>"
      using assms(1) by (simp add: parquet_commit_def paths w)
    then show ?thesis using assms(3) by (auto simp: no_orphans_def)
  next
    case False
    show ?thesis
    proof (cases w)
      case (Inl e)
      then have "abandon_commit (ch_faults ch) ?st temporary e = (x, st')"
        using False assms(1) by (auto simp: parquet_commit_def paths w)
      from abandon_no_orphans [OF this assms(3,4)] show ?thesis .
    next
      case (Inr m)
      then have "publish (ch_faults ch) ?st temporary final m = (x, st')"
        using False assms(1) by (auto simp: parquet_commit_def paths w)
      from publish_no_orphans [OF this assms(3,4) final] show ?thesis .
    qed
  qed
qed

text \<open>A cleanup task removes its directory, or records that it could not.\<close>

lemma try_remove_failure: "try_remove n rs = Inl e \<Longrightarrow> e = ResultStoreFailure ''RESULT_ORPHAN_CLEANUP_FAILED''"
  by (induction n rs rule: try_remove.induct) auto

lemma run_cleanup_dirs:
  "q \<noteq> temporary \<Longrightarrow> dget (ps_dirs (run_cleanup removals temporary st)) q = dget (ps_dirs st) q"
  "dget (ps_dirs (run_cleanup removals temporary st)) q \<noteq> None \<Longrightarrow> dget (ps_dirs st) q \<noteq> None"
  "ps_cleanup_failures (run_cleanup removals temporary st) = [] \<Longrightarrow>
     dget (ps_dirs (run_cleanup removals temporary st)) temporary = None \<and> ps_cleanup_failures st = []"
  by (auto simp: run_cleanup_def cleanup_cancelled_write_def finish_cleanup_def Let_def
      split: sum.splits failure.splits prod.splits if_splits dest!: try_remove_failure)

lemma run_cleanup_tasks:
  "ps_cleanup_tasks (run_cleanup removals temporary st) = filter (\<lambda>p. p \<noteq> temporary) (ps_cleanup_tasks st)"
  by (auto simp: run_cleanup_def cleanup_cancelled_write_def finish_cleanup_def Let_def
      split: sum.splits failure.splits prod.splits if_splits)

lemma fold_cleanup:
  assumes "ps_cleanup_failures (fold (run_cleanup removals) tasks st) = []"
  shows "(\<forall>p. dget (ps_dirs (fold (run_cleanup removals) tasks st)) p =
            (if p \<in> set tasks then None else dget (ps_dirs st) p)) \<and> ps_cleanup_failures st = []"
  using assms
proof (induction tasks arbitrary: st)
  case (Cons q tasks)
  let ?st = "run_cleanup removals q st"
  have "ps_cleanup_failures (fold (run_cleanup removals) tasks ?st) = []" using Cons.prems by simp
  from Cons.IH [OF this] have f: "ps_cleanup_failures ?st = []"
    and ih: "dget (ps_dirs (fold (run_cleanup removals) tasks ?st)) p =
      (if p \<in> set tasks then None else dget (ps_dirs ?st) p)" for p by blast+
  have "dget (ps_dirs ?st) p = (if p = q then None else dget (ps_dirs st) p)" for p
    using run_cleanup_dirs(3) [OF f] run_cleanup_dirs(1) [of p q removals st] by simp
  with run_cleanup_dirs(3) [OF f] show ?case by (simp add: ih)
qed simp

lemma fold_cleanup_tasks:
  "ps_cleanup_tasks (fold (run_cleanup removals) tasks st) = filter (\<lambda>p. p \<notin> set tasks) (ps_cleanup_tasks st)"
  by (induction tasks arbitrary: st) (simp_all add: run_cleanup_tasks filter_filter conj_commute)

section \<open>A concrete environment\<close>

text \<open>
  A storage environment that keeps the hypotheses, for the witnesses: tables
  are cut row-wise, a file has one row group, and a manifest is written as a
  numeral in unary.
\<close>

type_synonym manifest_tuple =
  "(string \<times> string \<times> string \<times> bool \<times> string) \<times> (string \<times> string \<times> bool) list \<times> nat \<times> nat \<times> (string \<times> nat \<times> nat) list"

definition manifest_tuple :: "committed_manifest \<Rightarrow> manifest_tuple" where
  "manifest_tuple m =
     ((rh_result_id (man_result m), rh_run_id (man_result m), rh_node_id (man_result m),
       rh_storage (man_result m) = Inline, rh_uri (man_result m)),
      map (\<lambda>f. (sf_name f, sf_data_type f, sf_nullable f)) (man_schema m), man_row_count m, man_byte_count m,
      map (\<lambda>p. (part_path p, part_rows p, part_bytes p)) (man_parts m))"

fun tuple_manifest :: "manifest_tuple \<Rightarrow> committed_manifest" where
  "tuple_manifest ((i, r, n, inline, u), fs, rows, bytes, ps) =
     \<lparr>man_result = \<lparr>rh_result_id = i, rh_run_id = r, rh_node_id = n,
                    rh_storage = (if inline then Inline else Parquet), rh_uri = u\<rparr>,
      man_schema = map (\<lambda>(a, b, c). \<lparr>sf_name = a, sf_data_type = b, sf_nullable = c\<rparr>) fs,
      man_row_count = rows, man_byte_count = bytes,
      man_parts = map (\<lambda>(a, b, c). \<lparr>part_path = a, part_rows = b, part_bytes = c\<rparr>) ps\<rparr>"

lemma tuple_manifest_inverse: "tuple_manifest (manifest_tuple m) = m"
proof -
  have "rh_storage (man_result m) = (if rh_storage (man_result m) = Inline then Inline else Parquet)"
    by (cases "rh_storage (man_result m)") simp_all
  then have "man_result (tuple_manifest (manifest_tuple m)) = man_result m"
    by (simp add: manifest_tuple_def)
  moreover have "man_schema (tuple_manifest (manifest_tuple m)) = man_schema m"
    "man_parts (tuple_manifest (manifest_tuple m)) = man_parts m"
    by (simp_all add: manifest_tuple_def map_idI)
  ultimately show ?thesis by (simp add: manifest_tuple_def)
qed

definition sample_env :: "nat storage_env" where
  "sample_env = \<lparr>
     env_slice = (\<lambda>t i n. t\<lparr>tbl_rows := take n (drop i (tbl_rows t))\<rparr>),
     env_concat = (\<lambda>ts. \<lparr>tbl_schema = [], tbl_rows = concat (map tbl_rows ts), tbl_columns = []\<rparr>),
     env_empty = (\<lambda>sch. \<lparr>tbl_schema = sch, tbl_rows = [], tbl_columns = []\<rparr>),
     env_write_table = (\<lambda>t n. \<lparr>pf_schema = tbl_schema t, pf_groups = [t], pf_size = 1\<rparr>),
     env_type_name = (\<lambda>_. ''int64''),
     env_dump = (\<lambda>m. replicate (to_nat (manifest_tuple m)) CHR ''x''),
     env_load = (\<lambda>s. Some (tuple_manifest (from_nat (length s)))),
     env_digest = id, env_resolve = id\<rparr>"

lemma sample_env_ok: "storage_env_ok sample_env"
  by (simp add: storage_env_ok_def sample_env_def tuple_manifest_inverse)

definition sample_stored :: "nat arrow_table" where
  "sample_stored = \<lparr>tbl_schema = [], tbl_rows = [7, 8, 9], tbl_columns = []\<rparr>"

definition sample_hybrid :: "int \<Rightarrow> nat hybrid_store" where
  "sample_hybrid inline_max = \<lparr>hy_inline_max_bytes = inline_max, hy_inline = new_inline_store,
     hy_parquet = new_parquet_store [''results'']\<rparr>"

definition sample_choice :: commit_choice where
  "sample_choice = \<lparr>ch_cancel_set = False, ch_outer_cancel = True, ch_faults = []\<rparr>"

section \<open>Properties\<close>

text \<open>
  C28: Round trip of the hybrid store. After any session of commits under fresh
  result ids, with any mix of sizes, I/O failures and cancellations, every
  commit that returned a manifest can still be read back: a valid page request
  returns exactly that window of the rows that were committed.
\<close>

theorem stored_results_read_back:
  assumes "storage_env_ok env"
    and "commit_all (with_env hybrid_commit) (env, st) reqs = (results, (env', st'))"
    and "distinct (map request_id reqs)"
    and "\<forall>q \<in> set reqs. dget (inl_manifests (hy_inline st)) (request_id q) = None"
    and "k < length reqs" "results ! k = Inr m" "validate_page offset limit = Inr ()"
  shows "\<exists>p. hybrid_read_page env' st' (man_result m) offset limit = Inr p
       \<and> tbl_rows p = take (nat limit) (drop (nat offset) (tbl_rows (request_table (reqs ! k))))"
proof -
  have "env_sound (env, st)" using assms(1) by (simp add: env_sound_def)
  moreover have "\<forall>q \<in> set reqs. hybrid_fresh (env, st) (request_id q)" using assms(4) by (simp add: hybrid_fresh_def)
  ultimately show ?thesis
    using hybrid.committed_pages [OF assms(2) _ assms(3) _ assms(5,6,7)] by (simp only: fst_conv snd_conv)
qed

theorem stored_results_read_back_witness:
  "\<exists>m p env' st'. commit_all (with_env hybrid_commit) (sample_env, sample_hybrid 10)
      [((False, sample_choice), ''a1'', ''run'', ''node'', sample_stored)] = ([Inr m], (env', st'))
    \<and> hybrid_read_page env' st' (man_result m) 1 2 = Inr p \<and> tbl_rows p = [8, 9]"
proof -
  let ?reqs = "[((False, sample_choice), ''a1'', ''run'', ''node'', sample_stored)]"
  obtain m env' st' where c: "commit_all (with_env hybrid_commit) (sample_env, sample_hybrid 10) ?reqs = ([Inr m], (env', st'))"
    by (simp add: with_env_def hybrid_commit_def inline_commit_def validate_id_def sample_hybrid_def
        retained_table_size_def retained_buffer_sizes_def sample_stored_def safe_char_def Let_def)
  have "\<exists>p. hybrid_read_page env' st' (man_result m) 1 2 = Inr p
      \<and> tbl_rows p = take (nat 2) (drop (nat 1) (tbl_rows (request_table (?reqs ! 0))))"
    by (rule stored_results_read_back [OF sample_env_ok c])
      (simp_all add: request_id_def sample_hybrid_def new_inline_store_def validate_page_def)
  with c show ?thesis by (auto simp: request_table_def sample_stored_def)
qed

text \<open>
  C29: A Parquet commit is atomic. Whatever step fails and whenever it is
  cancelled, either the commit returns a manifest and the directory its handle
  names holds the part, the manifest and the marker, or it raises and no page
  read of any handle changes. Results that could be read before can be read
  after, and temporary directories that are not removed at once have a cleanup
  task.
\<close>

theorem parquet_commit_is_atomic:
  assumes "storage_env_ok env" and "parquet_commit env ch st i r n t = (x, st')"
  shows "(case x of
       Inr m \<Rightarrow> dget (ps_dirs st') (handle_path env (ps_root st) (man_result m))
           = Some (committed_files env m (env_write_table env t 64000))
     | Inl e \<Rightarrow> (\<forall>h offset limit. parquet_read_page env st' h offset limit = parquet_read_page env st h offset limit))
    \<and> (\<forall>h offset limit p. parquet_read_page env st h offset limit = Inr p \<longrightarrow>
         parquet_read_page env st' h offset limit = Inr p)
    \<and> (no_orphans st \<and> Remove_Temporary \<notin> set (ch_faults ch) \<longrightarrow> no_orphans st')"
proof -
  have "dget (ps_dirs st') (handle_path env (ps_root st) (man_result m)) = Some (committed_files env m (env_write_table env t 64000))"
    if "x = Inr m" for m
    using parquet_commit_visible [OF assms(2,1)] that
    by (auto simp: Let_def safe_child_Inr [OF assms(1)] handle_path_def parquet_manifest_def)
  moreover have "\<forall>h offset limit. parquet_read_page env st' h offset limit = parquet_read_page env st h offset limit"
    if "x = Inl e" for e
    using parquet_failed_hidden [OF assms(1)] assms(2) that by blast
  moreover have "\<forall>h offset limit p. parquet_read_page env st h offset limit = Inr p \<longrightarrow>
      parquet_read_page env st' h offset limit = Inr p"
    using parquet_keeps [OF assms] by blast
  ultimately show ?thesis using commit_no_orphans [OF assms(2,1)] by (auto split: sum.splits)
qed

theorem parquet_commit_is_atomic_witness:
  "\<exists>st'. parquet_commit sample_env sample_choice (new_parquet_store [''results'']) ''a1'' ''run'' ''node'' sample_stored
      = (Inl DeferredCleanupCancellation, st')
    \<and> (\<forall>h offset limit. parquet_read_page sample_env st' h offset limit
        = parquet_read_page sample_env (new_parquet_store [''results'']) h offset limit)"
proof -
  obtain st' where c: "parquet_commit sample_env sample_choice (new_parquet_store [''results'']) ''a1'' ''run'' ''node'' sample_stored
      = (Inl DeferredCleanupCancellation, st')"
    by (simp add: parquet_commit_def commit_paths_def safe_child_def validate_id_def safe_char_def sample_choice_def
        sample_env_def new_parquet_store_def strict_prefix_def write_temporary_def Let_def)
  with parquet_commit_is_atomic [OF sample_env_ok c] show ?thesis by auto
qed

text \<open>
  Waiting for cleanup leaves nothing behind. In a store without orphans,
  when \<open>wait_for_cleanup\<close> returns normally no temporary directory is left, no
  cleanup task is pending and every committed directory is untouched; when a
  removal failed three times it raises RESULT\_ORPHAN\_CLEANUP\_FAILED or an
  earlier recorded failure instead.
\<close>

theorem cleanup_leaves_nothing:
  assumes "no_orphans st" and "wait_for_cleanup removals st = (Inr (), st')"
    and "\<forall>p \<in> set (ps_cleanup_tasks st). is_temporary p"
  shows "(\<forall>p. is_temporary p \<longrightarrow> dget (ps_dirs st') p = None) \<and> ps_cleanup_tasks st' = []
    \<and> (\<forall>p. \<not> is_temporary p \<longrightarrow> dget (ps_dirs st') p = dget (ps_dirs st) p)"
proof -
  from assms(2) have st': "st' = fold (run_cleanup removals) (ps_cleanup_tasks st) st" "ps_cleanup_failures st' = []"
    by (auto simp: wait_for_cleanup_def Let_def split: list.splits)
  with fold_cleanup [of removals "ps_cleanup_tasks st" st] have
    "\<forall>p. dget (ps_dirs st') p = (if p \<in> set (ps_cleanup_tasks st) then None else dget (ps_dirs st) p)" by simp
  with assms(1,3) show ?thesis
    by (auto simp: no_orphans_def st'(1) fold_cleanup_tasks)
qed

theorem cleanup_leaves_nothing_witness:
  "\<exists>st'. wait_for_cleanup (\<lambda>_. [Removal_OSError, Removed])
      \<lparr>ps_root = [], ps_dirs = [([''.tmp-a''], [])], ps_cleanup_tasks = [[''.tmp-a'']], ps_cleanup_failures = []\<rparr>
      = (Inr (), st' :: (nat) parquet_store) \<and> dget (ps_dirs st') [''.tmp-a''] = None"
proof -
  let ?st = "\<lparr>ps_root = [], ps_dirs = [([''.tmp-a''], [])], ps_cleanup_tasks = [[''.tmp-a'']], ps_cleanup_failures = []\<rparr> :: nat parquet_store"
  obtain st' where w: "wait_for_cleanup (\<lambda>_. [Removal_OSError, Removed]) ?st = (Inr (), st')"
    by (simp add: wait_for_cleanup_def run_cleanup_def cleanup_cancelled_write_def finish_cleanup_def Let_def numeral_3_eq_3)
  have "no_orphans ?st" "is_temporary [''.tmp-a'']" by (auto simp: no_orphans_def is_temporary_def prefix_def split: if_splits)
  with cleanup_leaves_nothing [OF this(1) w] w show ?thesis by auto
qed

text \<open>
  C30: No result path escapes the configured root. Whatever the identifiers and
  however the file system resolves links, a path the store uses has the root
  directory as a prefix; identifiers outside the safe alphabet, empty ones and
  ones longer than 160 characters are refused.
\<close>

theorem result_paths_stay_inside:
  "case safe_child env root parts of
     Inr p \<Rightarrow> prefix root p \<and> (\<forall>s \<in> set parts. 1 \<le> length s \<and> length s \<le> 160
                  \<and> (\<forall>c \<in> set s. safe_char c \<or> c = CHR ''.'' \<or> c = CHR ''_'' \<or> c = CHR ''-''))
   | Inl e \<Rightarrow> e \<in> {ResultStoreFailure ''RESULT_PATH_INVALID'', ResultStoreFailure ''RESULT_PATH_TRAVERSAL''}"
proof -
  have id: "1 \<le> length s \<and> length s \<le> 160 \<and> (\<forall>c \<in> set s. safe_char c \<or> c = CHR ''.'' \<or> c = CHR ''_'' \<or> c = CHR ''-'')"
    if "safe_id s" for s
    using that by (cases s) (auto simp: list_all_iff)
  have err: "e = ResultStoreFailure ''RESULT_PATH_INVALID''" if "check_each validate_id parts = Inl e" for e
    using check_each_eq_Inl_first [OF that] by (auto simp: validate_id_def)
  show ?thesis
    using id by (auto simp: safe_child_def Let_def validate_id_def [of "_"] strict_prefix_def rbind_eq_Inl split: sum.splits dest: err)
qed

theorem result_paths_stay_inside_witness:
  "(case safe_child sample_env [''root''] [''run'', ''node''] of
      Inr p \<Rightarrow> prefix [''root''] p \<and> (\<forall>s \<in> set [''run'', ''node'']. 1 \<le> length s \<and> length s \<le> 160
                   \<and> (\<forall>c \<in> set s. safe_char c \<or> c = CHR ''.'' \<or> c = CHR ''_'' \<or> c = CHR ''-''))
    | Inl e \<Rightarrow> e \<in> {ResultStoreFailure ''RESULT_PATH_INVALID'', ResultStoreFailure ''RESULT_PATH_TRAVERSAL''})
   \<and> is_ok (safe_child sample_env [''root''] [''run'', ''node''])"
  using result_paths_stay_inside [where env = sample_env and root = "[''root'']" and parts = "[''run'', ''node'']"]
  by (intro conjI) (assumption, code_simp)

end
