(* ===== verification/Runtime_Lineage.thy ===== *)
theory Runtime_Lineage
  imports Plan_Validation
begin

text \<open>
  \<open>lineage.py\<close>: the recorder that turns a physical plan and the committed
  results of a run into a graph of source, logical, physical and result nodes.
  The recorder keeps its nodes in a dictionary and its edges in a set; \<open>graph\<close>
  sorts both, so the graph does not depend on the order of recording.
\<close>

datatype lineage_kind = L_Logical | L_Physical | L_Source | L_Result

record lineage_node =
  lin_id :: string
  lin_kind :: lineage_kind
  lin_operation :: "string option"
  lin_source_alias :: "string option"
  lin_source_type :: "string option"
  lin_result_id :: "string option"
  lin_parameter_metadata :: "(string, string) dict list"

datatype relation = Realized_as | Reads_from | Depends_on | Produces

fun relation_value :: "relation \<Rightarrow> string" where
  "relation_value Realized_as = ''realized_as''"
| "relation_value Reads_from = ''reads_from''"
| "relation_value Depends_on = ''depends_on''"
| "relation_value Produces = ''produces''"

type_synonym lineage_edge = "string \<times> string \<times> string"

record lineage_recorder =
  lr_run_id :: string
  lr_nodes :: "(string, lineage_node) dict"
  lr_edges :: "lineage_edge list"

record lineage_graph =
  lg_run_id :: string
  lg_nodes :: "lineage_node list"
  lg_edges :: "lineage_edge list"

definition plain_node :: "string \<Rightarrow> lineage_kind \<Rightarrow> lineage_node" where
  "plain_node i k = \<lparr>lin_id = i, lin_kind = k, lin_operation = None, lin_source_alias = None,
     lin_source_type = None, lin_result_id = None, lin_parameter_metadata = []\<rparr>"

definition physical_lineage_id :: "string \<Rightarrow> string" where
  "physical_lineage_id i = ''physical:'' @ i"

definition add_edge :: "string \<Rightarrow> string \<Rightarrow> relation \<Rightarrow> lineage_recorder \<Rightarrow> lineage_recorder" where
  "add_edge source target rel r =
     (let e = (source, target, relation_value rel)
      in if e \<in> set (lr_edges r) then r else r\<lparr>lr_edges := e # lr_edges r\<rparr>)"

definition put_node :: "lineage_node \<Rightarrow> lineage_recorder \<Rightarrow> lineage_recorder" where
  "put_node n r = r\<lparr>lr_nodes := dput (lin_id n) n (lr_nodes r)\<rparr>"

definition logical_operations_of :: "physical_node \<Rightarrow> (string \<times> operator_kind) list" where
  "logical_operations_of n =
     (if pn_logical_operations n \<noteq> []
      then map (\<lambda>i. (ref_logical_node_id i, ref_operation i)) (pn_logical_operations n)
      else map (\<lambda>i. (i, pn_operation n)) (pn_logical_node_ids n))"

definition record_source :: "physical_node \<Rightarrow> lineage_recorder \<Rightarrow> lineage_recorder res" where
  "record_source n r =
     (if pn_kind n = SOURCE_FRAGMENT
      then rbind (from_option AssertionError (pn_source_fragment n)) (\<lambda>f.
             let s = frag_source f; sid = ''source:'' @ src_alias s
             in Inr (put_node
                  ((plain_node (physical_lineage_id (pn_id n)) L_Physical)\<lparr>
                     lin_operation := Some (op_kind_value (pn_operation n)), lin_source_alias := Some (src_alias s),
                     lin_source_type := Some (src_type s),
                     lin_parameter_metadata := map safe_metadata (frag_parameters f)\<rparr>)
                  (add_edge sid (physical_lineage_id (pn_id n)) Reads_from
                    (put_node ((plain_node sid L_Source)\<lparr>lin_source_alias := Some (src_alias s),
                                 lin_source_type := Some (src_type s)\<rparr>) r))))
      else Inr (put_node ((plain_node (physical_lineage_id (pn_id n)) L_Physical)\<lparr>
                   lin_operation := Some (op_kind_value (pn_operation n))\<rparr>) r))"

definition record_logical :: "string \<Rightarrow> string \<times> operator_kind \<Rightarrow> lineage_recorder \<Rightarrow> lineage_recorder" where
  "record_logical pid lo r =
     (let lid = ''logical:'' @ fst lo
      in add_edge lid pid Realized_as
           (put_node ((plain_node lid L_Logical)\<lparr>lin_operation := Some (op_kind_value (snd lo))\<rparr>) r))"

definition record_plan_node :: "physical_node \<Rightarrow> lineage_recorder \<Rightarrow> lineage_recorder res" where
  "record_plan_node n r =
     (let pid = physical_lineage_id (pn_id n)
      in rbind (record_source n r) (\<lambda>r1.
           Inr (fold (\<lambda>d. add_edge (physical_lineage_id d) pid Depends_on) (pn_dependencies n)
                 (fold (record_logical pid) (logical_operations_of n) r1))))"

fun record_plan_nodes :: "physical_node list \<Rightarrow> lineage_recorder \<Rightarrow> lineage_recorder res" where
  "record_plan_nodes [] r = Inr r"
| "record_plan_nodes (n # ns) r = rbind (record_plan_node n r) (record_plan_nodes ns)"

definition new_recorder :: "string \<Rightarrow> physical_plan \<Rightarrow> lineage_recorder res" where
  "new_recorder run_id p = record_plan_nodes (plan_nodes p) \<lparr>lr_run_id = run_id, lr_nodes = [], lr_edges = []\<rparr>"

definition record_result :: "string \<Rightarrow> committed_manifest \<Rightarrow> lineage_recorder \<Rightarrow> lineage_recorder" where
  "record_result node_id m r =
     (let i = rh_result_id (man_result m); rid = ''result:'' @ i
      in add_edge (physical_lineage_id node_id) rid Produces
           (put_node ((plain_node rid L_Result)\<lparr>lin_result_id := Some i\<rparr>) r))"

text \<open>Tuples of strings are sorted lexicographically, as Python sorts them.\<close>

definition edge_key :: "lineage_edge \<Rightarrow> string list" where
  "edge_key e = [fst e, fst (snd e), snd (snd e)]"

definition lineage_graph_of :: "lineage_recorder \<Rightarrow> lineage_graph" where
  "lineage_graph_of r =
     \<lparr>lg_run_id = lr_run_id r,
      lg_nodes = map (\<lambda>k. the (dget (lr_nodes r) k)) (sort (dkeys (lr_nodes r))),
      lg_edges = sort_key edge_key (lr_edges r)\<rparr>"

section \<open>The recorder's invariant\<close>

text \<open>
  Every node is filed under its own id once, every edge is listed once, and
  both ends of every edge are nodes, except that a dependency edge may precede
  the record of its source: those ids are collected in \<open>pending\<close>.
\<close>

definition recorder_ok :: "string set \<Rightarrow> lineage_recorder \<Rightarrow> bool" where
  "recorder_ok pending r \<longleftrightarrow>
     distinct (dkeys (lr_nodes r)) \<and> distinct (lr_edges r)
     \<and> (\<forall>i n. dget (lr_nodes r) i = Some n \<longrightarrow> lin_id n = i)
     \<and> (\<forall>(s, t, rel) \<in> set (lr_edges r). (s \<in> dom (dget (lr_nodes r)) \<or> s \<in> pending)
            \<and> t \<in> dom (dget (lr_nodes r)))"

lemma put_node_ok: "recorder_ok pending r \<Longrightarrow> recorder_ok pending (put_node n r)"
  by (fastforce simp: recorder_ok_def put_node_def dkeys_def split: if_splits)

lemma add_edge_ok:
  assumes "recorder_ok pending r" "s \<in> dom (dget (lr_nodes r)) \<or> s \<in> pending" "t \<in> dom (dget (lr_nodes r))"
  shows "recorder_ok pending (add_edge s t rel r)"
  using assms by (auto simp: recorder_ok_def add_edge_def Let_def)

lemma nodes_put_node [simp]: "dom (dget (lr_nodes (put_node n r))) = insert (lin_id n) (dom (dget (lr_nodes r)))"
  by (auto simp: put_node_def split: if_splits)

lemma get_put_node [simp]:
  "dget (lr_nodes (put_node n r)) i = (if i = lin_id n then Some n else dget (lr_nodes r) i)"
  by (simp add: put_node_def)

lemma nodes_add_edge [simp]: "lr_nodes (add_edge s t rel r) = lr_nodes r"
  by (simp add: add_edge_def Let_def)

lemma plain_node_id [simp]: "lin_id (plain_node i k) = i"
  by (simp add: plain_node_def)

lemma put_node_add_edge: "put_node n (add_edge s t rel r) = add_edge s t rel (put_node n r)"
  by (simp add: put_node_def add_edge_def Let_def)

lemma record_source_ok:
  assumes "record_source n r = Inr r'" "recorder_ok pending r"
  shows "recorder_ok pending r' \<and> dom (dget (lr_nodes r)) \<subseteq> dom (dget (lr_nodes r'))
    \<and> physical_lineage_id (pn_id n) \<in> dom (dget (lr_nodes r'))"
  using assms
  by (auto simp: record_source_def Let_def put_node_add_edge split: if_splits intro!: add_edge_ok put_node_ok)

lemma record_logical_ok:
  assumes "recorder_ok pending r" "pid \<in> dom (dget (lr_nodes r))"
  shows "recorder_ok pending (record_logical pid lo r)"
    and "dom (dget (lr_nodes r)) \<subseteq> dom (dget (lr_nodes (record_logical pid lo r)))"
  using assms by (auto simp: record_logical_def Let_def intro!: add_edge_ok put_node_ok)

lemma fold_record_logical_ok:
  "recorder_ok pending r \<Longrightarrow> pid \<in> dom (dget (lr_nodes r)) \<Longrightarrow>
   recorder_ok pending (fold (record_logical pid) los r)
   \<and> dom (dget (lr_nodes r)) \<subseteq> dom (dget (lr_nodes (fold (record_logical pid) los r)))"
proof (induction los arbitrary: r)
  case (Cons lo los)
  note one = record_logical_ok [OF Cons.prems, of lo]
  from Cons.IH [OF one(1) subsetD [OF one(2) Cons.prems(2)]] order_trans [OF one(2)] show ?case by simp
qed simp

lemma fold_depends_ok:
  "recorder_ok pending r \<Longrightarrow> pid \<in> dom (dget (lr_nodes r)) \<Longrightarrow> physical_lineage_id ` set ds \<subseteq> pending \<Longrightarrow>
   recorder_ok pending (fold (\<lambda>d. add_edge (physical_lineage_id d) pid Depends_on) ds r)
   \<and> lr_nodes (fold (\<lambda>d. add_edge (physical_lineage_id d) pid Depends_on) ds r) = lr_nodes r"
proof (induction ds arbitrary: r)
  case (Cons d ds)
  then have "recorder_ok pending (add_edge (physical_lineage_id d) pid Depends_on r)"
    by (intro add_edge_ok) auto
  from Cons.IH [OF this] Cons.prems(2,3) show ?case by simp
qed simp

lemma record_plan_node_ok:
  assumes "record_plan_node n r = Inr r'" "recorder_ok pending r"
    and "physical_lineage_id ` set (pn_dependencies n) \<subseteq> pending"
  shows "recorder_ok pending r'" "dom (dget (lr_nodes r)) \<subseteq> dom (dget (lr_nodes r'))"
    "physical_lineage_id (pn_id n) \<in> dom (dget (lr_nodes r'))"
proof -
  let ?pid = "physical_lineage_id (pn_id n)"
  from assms(1) obtain r1 where r1: "record_source n r = Inr r1"
    and r': "r' = fold (\<lambda>d. add_edge (physical_lineage_id d) ?pid Depends_on) (pn_dependencies n)
                 (fold (record_logical ?pid) (logical_operations_of n) r1)"
    by (auto simp: record_plan_node_def Let_def)
  let ?r2 = "fold (record_logical ?pid) (logical_operations_of n) r1"
  from record_source_ok [OF r1 assms(2)] have s: "recorder_ok pending r1"
    "dom (dget (lr_nodes r)) \<subseteq> dom (dget (lr_nodes r1))" "?pid \<in> dom (dget (lr_nodes r1))" by blast+
  from fold_record_logical_ok [OF s(1,3)] have l: "recorder_ok pending ?r2"
    "dom (dget (lr_nodes r1)) \<subseteq> dom (dget (lr_nodes ?r2))" by blast+
  from fold_depends_ok [OF l(1) subsetD [OF l(2) s(3)] assms(3)] have d: "recorder_ok pending r'"
    "lr_nodes r' = lr_nodes ?r2" unfolding r' by blast+
  show "recorder_ok pending r'" by (rule d(1))
  show "dom (dget (lr_nodes r)) \<subseteq> dom (dget (lr_nodes r'))" unfolding d(2) using s(2) l(2) by (rule order_trans)
  show "?pid \<in> dom (dget (lr_nodes r'))" unfolding d(2) using l(2) s(3) by (rule subsetD)
qed

lemma record_plan_nodes_ok:
  "record_plan_nodes ns r = Inr r' \<Longrightarrow> recorder_ok pending r \<Longrightarrow>
   (\<forall>n \<in> set ns. physical_lineage_id ` set (pn_dependencies n) \<subseteq> pending) \<Longrightarrow>
   recorder_ok pending r' \<and> dom (dget (lr_nodes r)) \<union> (physical_lineage_id \<circ> pn_id) ` set ns \<subseteq> dom (dget (lr_nodes r'))"
proof (induction ns arbitrary: r)
  case (Cons n ns)
  then obtain r1 where "record_plan_node n r = Inr r1" "record_plan_nodes ns r1 = Inr r'" by auto
  note n = record_plan_node_ok [OF this(1) Cons.prems(2)] and rest = this(2)
  have "physical_lineage_id ` set (pn_dependencies n) \<subseteq> pending" using Cons.prems(3) by simp
  note n = n [OF this]
  from Cons.IH [OF rest n(1)] Cons.prems(3) have
    "recorder_ok pending r'" and d: "dom (dget (lr_nodes r1)) \<union> (physical_lineage_id \<circ> pn_id) ` set ns \<subseteq> dom (dget (lr_nodes r'))"
    by simp_all
  moreover have "dom (dget (lr_nodes r)) \<subseteq> dom (dget (lr_nodes r'))" using n(2) d by (simp add: order_trans)
  moreover have "physical_lineage_id (pn_id n) \<in> dom (dget (lr_nodes r'))" using subsetD [OF d] n(3) by blast
  ultimately show ?case by (simp del: domIff)
qed simp

lemma record_plan_nodes_total:
  assumes "\<forall>n \<in> set ns. validate_payload n"
  shows "\<exists>r'. record_plan_nodes ns r = Inr r'"
  using assms
proof (induction ns arbitrary: r)
  case (Cons n ns)
  then have "\<exists>r1. record_plan_node n r = Inr r1"
    by (auto simp: record_plan_node_def record_source_def validate_payload_def Let_def split: option.splits)
  with Cons show ?case by auto
qed simp

text \<open>Results recorded later attach to physical nodes.\<close>

lemma record_result_ok:
  assumes "recorder_ok pending r" "physical_lineage_id i \<in> dom (dget (lr_nodes r))"
  shows "recorder_ok pending (record_result i m r)"
    and "dom (dget (lr_nodes r)) \<subseteq> dom (dget (lr_nodes (record_result i m r)))"
  using assms by (auto simp: record_result_def Let_def intro!: add_edge_ok put_node_ok)

lemma fold_record_result_ok:
  "recorder_ok pending r \<Longrightarrow> (\<forall>(i, m) \<in> set rs. physical_lineage_id i \<in> dom (dget (lr_nodes r))) \<Longrightarrow>
   recorder_ok pending (fold (\<lambda>(i, m). record_result i m) rs r)
   \<and> dom (dget (lr_nodes r)) \<subseteq> dom (dget (lr_nodes (fold (\<lambda>(i, m). record_result i m) rs r)))"
proof (induction rs arbitrary: r)
  case (Cons x rs)
  obtain i m where x: "x = (i, m)" by (cases x)
  with Cons.prems have "physical_lineage_id i \<in> dom (dget (lr_nodes r))" by simp
  note one = record_result_ok [OF Cons.prems(1) this, of m]
  have "\<forall>(j, m') \<in> set rs. physical_lineage_id j \<in> dom (dget (lr_nodes (record_result i m r)))"
    using Cons.prems(2) subsetD [OF one(2)] by (fastforce simp del: domIff)
  from Cons.IH [OF one(1) this] order_trans [OF one(2)] show ?case by (simp add: x)
qed simp

lemma graph_node_ids:
  assumes "recorder_ok pending r"
  shows "map lin_id (lg_nodes (lineage_graph_of r)) = sort (dkeys (lr_nodes r))"
proof -
  have "lin_id (the (dget (lr_nodes r) k)) = k" if "k \<in> set (dkeys (lr_nodes r))" for k
    using assms that by (auto simp: recorder_ok_def set_dkeys)
  then show ?thesis by (auto simp: lineage_graph_of_def intro: map_idI)
qed

lemma graph_edges_closed:
  assumes "recorder_ok pending r" "pending \<subseteq> dom (dget (lr_nodes r))"
  shows "\<forall>(s, t, rel) \<in> set (lg_edges (lineage_graph_of r)).
    s \<in> set (sort (dkeys (lr_nodes r))) \<and> t \<in> set (sort (dkeys (lr_nodes r)))"
proof -
  have "s \<in> set (dkeys (lr_nodes r)) \<and> t \<in> set (dkeys (lr_nodes r))" if "(s, t, rel) \<in> set (lr_edges r)" for s t rel
    using assms that unfolding recorder_ok_def set_dkeys by blast
  then show ?thesis by (auto simp: lineage_graph_of_def)
qed

definition canonical_graph :: "lineage_graph \<Rightarrow> bool" where
  "canonical_graph g \<longleftrightarrow>
     (let ids = map lin_id (lg_nodes g)
      in sorted ids \<and> distinct ids \<and> sorted (map edge_key (lg_edges g)) \<and> distinct (lg_edges g)
         \<and> (\<forall>(s, t, rel) \<in> set (lg_edges g). s \<in> set ids \<and> t \<in> set ids))"

lemma recorder_graph_canonical:
  assumes "recorder_ok pending r" "pending \<subseteq> dom (dget (lr_nodes r))"
  shows "canonical_graph (lineage_graph_of r)"
proof -
  have "distinct (dkeys (lr_nodes r))" "distinct (lr_edges r)" using assms(1) by (simp_all add: recorder_ok_def)
  moreover have "lg_edges (lineage_graph_of r) = sort_key edge_key (lr_edges r)" by (simp add: lineage_graph_of_def)
  ultimately show ?thesis
    using graph_edges_closed [OF assms] unfolding canonical_graph_def Let_def graph_node_ids [OF assms(1)] by simp
qed

text \<open>What the coordinator's gate guarantees of the nodes of a plan.\<close>

lemma validated_plan:
  assumes "validate_physical_plan p = Inr u"
  shows "distinct (map pn_id (plan_nodes p))" "plan_output_node_id p \<in> pn_id ` set (plan_nodes p)"
    and "n \<in> set (plan_nodes p) \<Longrightarrow> d \<in> set (pn_dependencies n) \<Longrightarrow>
      \<exists>m \<in> set (plan_nodes p). pn_id m = d \<and> pn_wave m < pn_wave n"
proof -
  let ?by_id = "map (\<lambda>n. (pn_id n, n)) (plan_nodes p)"
  show "distinct (map pn_id (plan_nodes p))" "plan_output_node_id p \<in> pn_id ` set (plan_nodes p)"
    using assms by (auto simp: validate_physical_plan_def Let_def)
  show "\<exists>m \<in> set (plan_nodes p). pn_id m = d \<and> pn_wave m < pn_wave n"
    if "n \<in> set (plan_nodes p)" "d \<in> set (pn_dependencies n)"
  proof -
    have "check_dependency ?by_id n d = Inr ()"
      using assms that by (auto simp: validate_physical_plan_def check_plan_node_def Let_def)
    then show ?thesis
      by (auto simp: check_dependency_def split: option.splits dest!: dget_keyed_Some)
  qed
qed

definition erase_parameters :: "physical_node \<Rightarrow> physical_node" where
  "erase_parameters n = n\<lparr>pn_source_fragment := map_option
     (\<lambda>f. f\<lparr>frag_parameters := map (\<lambda>q. q\<lparr>par_value := SNone\<rparr>) (frag_parameters f)\<rparr>) (pn_source_fragment n)\<rparr>"

lemma record_erased: "record_plan_node (erase_parameters n) r = record_plan_node n r"
proof -
  have "safe_metadata \<circ> par_value_update (\<lambda>_. SNone) = safe_metadata"
    by (rule ext) (simp add: safe_metadata_def)
  then show ?thesis
    by (cases "pn_source_fragment n")
      (simp_all add: record_plan_node_def record_source_def erase_parameters_def logical_operations_of_def Let_def)
qed

section \<open>Properties\<close>

text \<open>
  C31: For every plan the coordinator accepts the lineage graph can be recorded,
  and after recording any results of its nodes it is a closed graph in
  canonical order: node ids are strictly sorted, edges are listed once and
  sorted, both ends of every edge are nodes of the graph, and every physical
  node of the plan is present.
\<close>

theorem lineage_graph_is_closed:
  assumes "validate_physical_plan p = Inr ()" and "\<forall>n \<in> set (plan_nodes p). validate_payload n"
    and "\<forall>(i, m) \<in> set results. i \<in> pn_id ` set (plan_nodes p)"
  shows "\<exists>r. new_recorder run_id p = Inr r \<and>
    (let g = lineage_graph_of (fold (\<lambda>(i, m). record_result i m) results r)
     in canonical_graph g \<and> (\<forall>n \<in> set (plan_nodes p). physical_lineage_id (pn_id n) \<in> set (map lin_id (lg_nodes g))))"
proof -
  let ?pending = "physical_lineage_id ` pn_id ` set (plan_nodes p)"
  obtain r where r: "new_recorder run_id p = Inr r"
    using record_plan_nodes_total [OF assms(2)] by (auto simp: new_recorder_def)
  have "recorder_ok ?pending \<lparr>lr_run_id = run_id, lr_nodes = [], lr_edges = []\<rparr>"
    by (simp add: recorder_ok_def dkeys_def)
  moreover have "\<forall>n \<in> set (plan_nodes p). physical_lineage_id ` set (pn_dependencies n) \<subseteq> ?pending"
    using validated_plan(3) [OF assms(1)] by blast
  ultimately have ok: "recorder_ok ?pending r" "(physical_lineage_id \<circ> pn_id) ` set (plan_nodes p) \<subseteq> dom (dget (lr_nodes r))"
    using record_plan_nodes_ok [OF r [unfolded new_recorder_def]] by blast+
  let ?r = "fold (\<lambda>(i, m). record_result i m) results r"
  have "\<forall>(i, m) \<in> set results. physical_lineage_id i \<in> dom (dget (lr_nodes r))"
  proof
    fix x assume "x \<in> set results"
    with assms(3) obtain n where "n \<in> set (plan_nodes p)" "fst x = pn_id n" by fastforce
    then have "physical_lineage_id (fst x) \<in> (physical_lineage_id \<circ> pn_id) ` set (plan_nodes p)" by simp
    with ok(2) have "physical_lineage_id (fst x) \<in> dom (dget (lr_nodes r))" by (rule subsetD)
    then show "case x of (i, m) \<Rightarrow> physical_lineage_id i \<in> dom (dget (lr_nodes r))" by (cases x) simp
  qed
  from fold_record_result_ok [OF ok(1) this] have ok': "recorder_ok ?pending ?r"
    and sub: "dom (dget (lr_nodes r)) \<subseteq> dom (dget (lr_nodes ?r))" by blast+
  have pend: "?pending \<subseteq> dom (dget (lr_nodes ?r))" using ok(2) sub by (auto simp: image_comp simp del: domIff)
  have "\<forall>n \<in> set (plan_nodes p). physical_lineage_id (pn_id n) \<in> set (map lin_id (lg_nodes (lineage_graph_of ?r)))"
    using subsetD [OF pend] unfolding graph_node_ids [OF ok'] set_sort set_dkeys by blast
  with r recorder_graph_canonical [OF ok' pend] show ?thesis unfolding Let_def by blast
qed

definition sample_lineage_plan :: physical_plan where
  "sample_lineage_plan = \<lparr>plan_version = V0, plan_id = ''p'', plan_nodes =
     [\<lparr>pn_id = ''s'', pn_kind = SOURCE_FRAGMENT, pn_operation = Op_SOURCE, pn_dependencies = [], pn_wave = 0,
       pn_logical_node_ids = [''l''], pn_logical_operations = [],
       pn_source_fragment = Some \<lparr>frag_source = \<lparr>src_alias = ''a'', src_type = ''t'', src_object_name = ''o''\<rparr>,
          frag_operations = [operator_of Op_SOURCE], frag_parameters = [], frag_bound_columns = []\<rparr>,
       pn_operator = None\<rparr>],
     plan_output_node_id = ''s''\<rparr>"

theorem lineage_graph_is_closed_witness:
  "validate_physical_plan sample_lineage_plan = Inr () \<and> (\<exists>r. new_recorder ''r'' sample_lineage_plan = Inr r)"
proof -
  have v: "validate_physical_plan sample_lineage_plan = Inr ()" by code_simp
  have "\<forall>n \<in> set (plan_nodes sample_lineage_plan). validate_payload n" by code_simp
  from lineage_graph_is_closed [OF v this, of "[]" "''r''"] v show ?thesis by auto
qed

text \<open>
  Lineage never carries parameter values: replacing the value of every
  bound parameter of a plan leaves the recorded lineage unchanged.
\<close>

theorem lineage_hides_parameter_values:
  "new_recorder run_id (p\<lparr>plan_nodes := map erase_parameters (plan_nodes p)\<rparr>) = new_recorder run_id p"
proof -
  have "record_plan_nodes (map erase_parameters ns) r = record_plan_nodes ns r" for ns r
    by (induction ns arbitrary: r) (auto simp: record_erased intro: rbind_cong)
  then show ?thesis by (simp add: new_recorder_def)
qed

end
