(* ===== verification/Run_Coordinator.thy ===== *)
theory Run_Coordinator
  imports Operator_Executor Memory_Budget Runtime_Events Runtime_Lineage
begin

text \<open>
  One run of \<open>QueryCoordinator\<close> (\<open>coordinator.py\<close>): waves of nodes that run
  concurrently, their executions with admission, commit and deferred cleanup,
  cancellation by the caller, deadlines, and the terminal events.

  The model is a transition system. A state holds what the coroutines of
  \<open>run\<close>, \<open>_execute_node\<close> and \<open>_perform_and_commit\<close> keep between two
  suspension points; \<open>run_step\<close> executes the code up to the next one. Which
  coroutine moves next, and what the resolver, the operator executor, the
  result store, the clock and the callers do, is the argument \<open>choice\<close>, so a
  statement about every reachable state holds for every interleaving and every
  behaviour of those parts. Events go to the in-memory event store.
\<close>

section \<open>State\<close>

type_synonym table = "string list arrow_table"

record run_config =
  rc_run_id :: string
  rc_plan :: physical_plan
  rc_limits :: resource_limits
  rc_max_concurrency :: nat

record node_outcome =
  no_node_id :: string
  no_state :: execution_state
  no_table :: "table option"
  no_manifest :: "committed_manifest option"
  no_diagnostic_code :: "string option"

text \<open>
  Where \<open>_perform_and_commit\<close> is: before \<open>reserve\<close>, awaiting the resolver or
  executor, awaiting the result store, or done.
\<close>

datatype exec_phase =
    X_Created
  | X_Performing
  | X_Committing table
  | X_Done "(table \<times> committed_manifest) res"

text \<open>
  Where \<open>_execute_node\<close> is: waiting for the semaphore, waiting for its
  execution, or returned. A node without phase has not begun.
\<close>

datatype node_phase =
    N_Ready
  | N_Running exec_phase
  | N_Finished node_outcome

text \<open>Where \<open>run\<close> is: between two waves, in \<open>gather\<close>, past the loop, or finished.\<close>

datatype control =
    Next_Wave "int list"
  | In_Wave int "int list"
  | Closing execution_state "string option"
  | Closed execution_state "string option"

text \<open>An execution that was handed over to a cleanup task, with the inputs it retains.\<close>

record late_execution =
  le_node_id :: string
  le_retained :: "string list"
  le_phase :: exec_phase

record run_state =
  rs_emitter :: emitter
  rs_store :: mem_store
  rs_cancel :: bool
  rs_outer :: bool
  rs_budget :: memory_budget
  rs_tables :: "(string, table) dict"
  rs_manifests :: "(string, committed_manifest) dict"
  rs_recorder :: lineage_recorder
  rs_remaining :: "(string, int) dict"
  rs_phases :: "(string, node_phase) dict"
  rs_late :: "late_execution list"
  rs_cleanups :: "string list"
  rs_resolver_cancels :: "string list"
  rs_control :: control

definition run_key :: "run_config \<Rightarrow> string \<Rightarrow> budget_key" where
  "run_key c i = BudgetKey (rc_run_id c) i"

definition run_log :: "run_config \<Rightarrow> run_state \<Rightarrow> diagnostic_event list" where
  "run_log c st = store_events (rs_store st) (rc_run_id c)"

text \<open>\<open>emitter.emit\<close> on the in-memory store, which never refuses.\<close>

definition emit_event ::
  "event_scope \<Rightarrow> string \<Rightarrow> execution_state \<Rightarrow> string \<Rightarrow> run_state \<Rightarrow> run_state" where
  "emit_event scope sid s code st =
     (case emit mem_append (rs_emitter st) (rs_store st) scope sid s code of
        Inl _ \<Rightarrow> st
      | Inr (em, store) \<Rightarrow> st\<lparr>rs_emitter := em, rs_store := store\<rparr>)"

section \<open>Waves of a plan\<close>

definition plan_waves :: "physical_plan \<Rightarrow> int list" where
  "plan_waves p = sort (dedupe (map pn_wave (plan_nodes p)))"

definition wave_nodes :: "physical_plan \<Rightarrow> int \<Rightarrow> physical_node list" where
  "wave_nodes p w = sort_key pn_id (filter (\<lambda>n. pn_wave n = w) (plan_nodes p))"

text \<open>\<open>f"wave-{wave}"\<close>.\<close>

definition stage_id :: "int \<Rightarrow> string" where
  "stage_id w = ''wave-'' @ show_int w"

text \<open>\<open>remaining_consumers\<close>: how often a node is an input of the plan.\<close>

definition count_consumers :: "physical_node list \<Rightarrow> string \<Rightarrow> nat" where
  "count_consumers ns i = sum_list (map (\<lambda>n. count_list (pn_dependencies n) i) ns)"

definition initial_consumers :: "physical_plan \<Rightarrow> (string, int) dict" where
  "initial_consumers p = map (\<lambda>n. (pn_id n, int (count_consumers (plan_nodes p) (pn_id n)))) (plan_nodes p)"

section \<open>Memory calls\<close>

text \<open>
  \<open>await memory.release(\<dots>)\<close> and \<open>release_retained\<close>. In a reachable state they
  do not raise (\<open>release_key\<close> finds every buffer it looks up).
\<close>

definition release :: "budget_key \<Rightarrow> memory_budget \<Rightarrow> memory_budget" where
  "release key b = (case budget_release key b of Inr b' \<Rightarrow> b' | Inl _ \<Rightarrow> b)"

definition release_retained :: "budget_key \<Rightarrow> memory_budget \<Rightarrow> memory_budget" where
  "release_retained key b = (case budget_release_retained key b of Inr b' \<Rightarrow> b' | Inl _ \<Rightarrow> b)"

definition release_node :: "run_config \<Rightarrow> string \<Rightarrow> run_state \<Rightarrow> run_state" where
  "release_node c i st = st\<lparr>rs_budget := release (run_key c i) (rs_budget st)\<rparr>"

section \<open>\<open>_perform_and_commit\<close>\<close>

definition exec_reserve :: "run_config \<Rightarrow> string \<Rightarrow> run_state \<Rightarrow> exec_phase \<times> run_state" where
  "exec_reserve c i st =
     (case budget_reserve (run_key c i) (max_bytes (rc_limits c)) (rs_budget st) of
        Inl e \<Rightarrow> (X_Done (Inl e), st)
      | Inr b \<Rightarrow> (X_Performing, st\<lparr>rs_budget := b\<rparr>))"

text \<open>\<open>_perform_node\<close> returned or raised.\<close>

definition exec_performed ::
  "run_config \<Rightarrow> string \<Rightarrow> table res \<Rightarrow> run_state \<Rightarrow> exec_phase \<times> run_state" where
  "exec_performed c i r st =
     (case rbind r (\<lambda>t. rbind (enforce_limits (rc_limits c) t) (\<lambda>_. Inr t)) of
        Inl e \<Rightarrow> (X_Done (Inl e), release_node c i st)
      | Inr t \<Rightarrow>
          (case budget_reconcile (run_key c i) t (rs_budget st) of
             Inl e \<Rightarrow> (X_Done (Inl e), release_node c i st)
           | Inr b \<Rightarrow>
               if rs_cancel st then (X_Done (Inl CancelledError), release_node c i (st\<lparr>rs_budget := b\<rparr>))
               else (X_Committing t, st\<lparr>rs_budget := b\<rparr>)))"

text \<open>\<open>result_store.commit\<close> returned or raised.\<close>

definition exec_committed ::
  "run_config \<Rightarrow> string \<Rightarrow> table \<Rightarrow> committed_manifest res \<Rightarrow> run_state \<Rightarrow> exec_phase \<times> run_state" where
  "exec_committed c i t r st =
     (case r of
        Inr m \<Rightarrow> (X_Done (Inr (t, m)), st)
      | Inl e \<Rightarrow>
          if e = DeferredCleanupCancellation
          then (X_Done (Inl CancelledError),
                st\<lparr>rs_budget := budget_defer (run_key c i) (rs_budget st), rs_cleanups := rs_cleanups st @ [i]\<rparr>)
          else (X_Done (Inl e), release_node c i st))"

text \<open>
  What may happen to an execution: the call it awaits ends, or the task is
  cancelled before it has reserved anything.
\<close>

datatype exec_event =
    Reserve
  | Performed "table res"
  | Committed "committed_manifest res"
  | Dropped

fun exec_step :: "run_config \<Rightarrow> string \<Rightarrow> bool \<Rightarrow> exec_event \<Rightarrow> exec_phase \<Rightarrow> run_state \<Rightarrow> (exec_phase \<times> run_state) option" where
  "exec_step c i detached Reserve X_Created st = Some (exec_reserve c i st)"
| "exec_step c i detached (Performed r) X_Performing st = Some (exec_performed c i r st)"
| "exec_step c i detached (Committed r) (X_Committing t) st = Some (exec_committed c i t r st)"
| "exec_step c i detached Dropped X_Created st = (if detached then Some (X_Done (Inl CancelledError), st) else None)"
| "exec_step c i detached _ _ st = None"

fun exec_done :: "exec_phase \<Rightarrow> bool" where
  "exec_done (X_Done r) = True"
| "exec_done _ = False"

section \<open>Handing over an execution\<close>

text \<open>The loop of \<open>_prepare_deferred_execution\<close>: all inputs are retained, or the ones retained so far are given back.\<close>

fun retain_inputs :: "budget_key list \<Rightarrow> string list \<Rightarrow> (string \<Rightarrow> budget_key) \<Rightarrow> memory_budget \<Rightarrow> failure \<times> memory_budget + memory_budget" where
  "retain_inputs retained [] key b = Inr b"
| "retain_inputs retained (d # ds) key b =
     (case budget_retain (key d) b of
        Inl e \<Rightarrow> Inl (e, fold release_retained retained b)
      | Inr b' \<Rightarrow> retain_inputs (key d # retained) ds key b')"

text \<open>The result is the failure \<open>_prepare_deferred_execution\<close> raised, if it did.\<close>

definition handoff :: "run_config \<Rightarrow> physical_node \<Rightarrow> exec_phase \<Rightarrow> run_state \<Rightarrow> failure option \<times> run_state" where
  "handoff c n x st =
     (let i = pn_id n
      in case retain_inputs [] (pn_dependencies n) (run_key c) (budget_defer (run_key c i) (rs_budget st)) of
           Inr b \<Rightarrow> (None, st\<lparr>rs_budget := b, rs_late := rs_late st @
                       [\<lparr>le_node_id = i, le_retained = pn_dependencies n, le_phase = x\<rparr>]\<rparr>)
         | Inl (e, b) \<Rightarrow> (Some e, st\<lparr>rs_budget := b, rs_late := rs_late st @
                       [\<lparr>le_node_id = i, le_retained = [], le_phase = x\<rparr>]\<rparr>))"

text \<open>
  The end of \<open>_observe_node_cleanup\<close> and \<open>_release_late_execution\<close>: an
  execution that committed after all gives its table back, and the retained
  inputs are released.
\<close>

definition late_finish :: "run_config \<Rightarrow> late_execution \<Rightarrow> run_state \<Rightarrow> run_state" where
  "late_finish c le st =
     (let st1 = (case le_phase le of X_Done (Inr _) \<Rightarrow> release_node c (le_node_id le) st | _ \<Rightarrow> st)
      in st1\<lparr>rs_budget := fold (\<lambda>d. release_retained (run_key c d)) (le_retained le) (rs_budget st1)\<rparr>)"

section \<open>\<open>_execute_node\<close>\<close>

definition node_finished ::
  "string \<Rightarrow> execution_state \<Rightarrow> string \<Rightarrow> table option \<Rightarrow> committed_manifest option \<Rightarrow> string option
     \<Rightarrow> run_state \<Rightarrow> run_state" where
  "node_finished i s code t m diagnostic st =
     (emit_event Scope_node i s code st)\<lparr>rs_phases := dput i (N_Finished
        \<lparr>no_node_id = i, no_state = s, no_table = t, no_manifest = m, no_diagnostic_code = diagnostic\<rparr>)
        (rs_phases st)\<rparr>"

definition request_resolver_cancel :: "physical_node \<Rightarrow> run_state \<Rightarrow> run_state" where
  "request_resolver_cancel n st =
     (if pn_kind n = SOURCE_FRAGMENT then st\<lparr>rs_resolver_cancels := rs_resolver_cancels st @ [pn_id n]\<rparr> else st)"

text \<open>The \<open>except asyncio.CancelledError\<close>, \<open>except TimeoutError\<close> and \<open>except Exception\<close> clauses.\<close>

definition node_cancelled :: "physical_node \<Rightarrow> run_state \<Rightarrow> run_state" where
  "node_cancelled n st =
     node_finished (pn_id n) CANCELLED ''NODE_CANCELLED'' None None (Some ''NODE_CANCELLED'')
       (request_resolver_cancel n (st\<lparr>rs_cancel := True\<rparr>))"

definition node_timed_out :: "physical_node \<Rightarrow> run_state \<Rightarrow> run_state" where
  "node_timed_out n st =
     node_finished (pn_id n) TIMED_OUT ''NODE_TIMEOUT'' None None (Some ''NODE_TIMEOUT'')
       (request_resolver_cancel n (st\<lparr>rs_cancel := True\<rparr>))"

definition node_failed :: "physical_node \<Rightarrow> failure \<Rightarrow> run_state \<Rightarrow> run_state" where
  "node_failed n e st =
     (let code = (case failure_code e of Some code \<Rightarrow> code | None \<Rightarrow> ''NODE_FAILED'')
      in node_finished (pn_id n) FAILED code None None (Some code) (st\<lparr>rs_cancel := True\<rparr>))"

definition begin_node :: "physical_node \<Rightarrow> run_state \<Rightarrow> run_state" where
  "begin_node n st =
     (emit_event Scope_node (pn_id n) READY ''NODE_READY'' st)\<lparr>rs_phases := dput (pn_id n) N_Ready (rs_phases st)\<rparr>"

definition start_node :: "physical_node \<Rightarrow> run_state \<Rightarrow> run_state" where
  "start_node n st =
     (if rs_cancel st then node_cancelled n st
      else let st1 = emit_event Scope_node (pn_id n) RUNNING ''NODE_STARTED'' st
           in if \<forall>d \<in> set (pn_dependencies n). dget (rs_tables st1) d \<noteq> None
              then st1\<lparr>rs_phases := dput (pn_id n) (N_Running X_Created) (rs_phases st1)\<rparr>
              else node_failed n KeyError st1)"

text \<open>The node resumes because its execution is done.\<close>

definition complete_node :: "run_config \<Rightarrow> physical_node \<Rightarrow> (table \<times> committed_manifest) res \<Rightarrow> run_state \<Rightarrow> run_state" where
  "complete_node c n r st =
     (case r of
        Inr (t, m) \<Rightarrow>
          if rs_cancel st then node_cancelled n (release_node c (pn_id n) st)
          else node_finished (pn_id n) SUCCEEDED ''NODE_SUCCEEDED'' (Some t) (Some m) None st
      | Inl e \<Rightarrow>
          if e = CancelledError \<or> e = DeferredCleanupCancellation then node_cancelled n st
          else if e = TimeoutError then node_timed_out n st
          else node_failed n e st)"

text \<open>The node resumes because of the cancel event, or because its own task was cancelled.\<close>

definition abandon_node :: "run_config \<Rightarrow> physical_node \<Rightarrow> exec_phase \<Rightarrow> run_state \<Rightarrow> run_state" where
  "abandon_node c n x st =
     (case handoff c n x st of
        (None, st1) \<Rightarrow> node_cancelled n st1
      | (Some e, st1) \<Rightarrow> node_failed n e st1)"

text \<open>The node resumes because its deadline passed.\<close>

definition expire_node :: "run_config \<Rightarrow> physical_node \<Rightarrow> exec_phase \<Rightarrow> run_state \<Rightarrow> run_state" where
  "expire_node c n x st =
     (case handoff c n x (st\<lparr>rs_cancel := True\<rparr>) of
        (None, st1) \<Rightarrow> node_timed_out n st1
      | (Some e, st1) \<Rightarrow> node_failed n e st1)"

section \<open>\<open>run\<close>\<close>

definition terminal_stage_state :: "node_outcome list \<Rightarrow> execution_state" where
  "terminal_stage_state outcomes =
     (let states = map no_state outcomes
      in if TIMED_OUT \<in> set states then TIMED_OUT
         else if FAILED \<in> set states then FAILED
         else if CANCELLED \<in> set states then CANCELLED
         else SUCCEEDED)"

definition skip_node :: "execution_state \<Rightarrow> physical_node \<Rightarrow> run_state \<Rightarrow> run_state" where
  "skip_node s n st = emit_event Scope_node (pn_id n) s (''NODE_'' @ execution_state_value s) st"

definition terminalize_wave :: "physical_plan \<Rightarrow> execution_state \<Rightarrow> int \<Rightarrow> run_state \<Rightarrow> run_state" where
  "terminalize_wave p s w st =
     fold (skip_node s) (wave_nodes p w)
       (emit_event Scope_stage (stage_id w) s (''STAGE_'' @ execution_state_value s) st)"

definition terminalize_waves :: "physical_plan \<Rightarrow> execution_state \<Rightarrow> int list \<Rightarrow> run_state \<Rightarrow> run_state" where
  "terminalize_waves p s ws st = fold (terminalize_wave p s) ws st"

definition begin_wave :: "run_config \<Rightarrow> int \<Rightarrow> int list \<Rightarrow> run_state \<Rightarrow> run_state" where
  "begin_wave c w ws st =
     (if rs_cancel st
      then (terminalize_waves (rc_plan c) CANCELLED (w # ws) st)\<lparr>rs_control := Closing CANCELLED (Some ''RUN_CANCELLED'')\<rparr>
      else (emit_event Scope_stage (stage_id w) RUNNING ''STAGE_STARTED''
             (emit_event Scope_stage (stage_id w) READY ''STAGE_READY'' st))\<lparr>rs_control := In_Wave w ws\<rparr>)"

definition wave_outcomes :: "physical_plan \<Rightarrow> int \<Rightarrow> run_state \<Rightarrow> node_outcome list option" where
  "wave_outcomes p w st =
     those (map (\<lambda>n. case dget (rs_phases st) (pn_id n) of Some (N_Finished oc) \<Rightarrow> Some oc | _ \<Rightarrow> None) (wave_nodes p w))"

text \<open>The loop over the outcomes; outputs nobody consumes are released at once.\<close>

definition record_outcome :: "node_outcome \<Rightarrow> run_state \<times> string list \<Rightarrow> run_state \<times> string list" where
  "record_outcome oc acc =
     (case (no_table oc, no_manifest oc) of
        (Some t, Some m) \<Rightarrow>
          (let st = fst acc; i = no_node_id oc;
               st1 = st\<lparr>rs_manifests := dput i m (rs_manifests st), rs_recorder := record_result i m (rs_recorder st)\<rparr>
           in if 0 < dget_or (rs_remaining st) i 0
              then (st1\<lparr>rs_tables := dput i t (rs_tables st)\<rparr>, snd acc)
              else (st1, snd acc @ [i]))
      | _ \<Rightarrow> acc)"

definition consume :: "string \<Rightarrow> (string, int) dict \<Rightarrow> (string, int) dict" where
  "consume d remaining = dput d (dget_or remaining d 0 - 1) remaining"

definition drop_table :: "run_config \<Rightarrow> string \<Rightarrow> run_state \<Rightarrow> run_state" where
  "drop_table c i st = release_node c i (st\<lparr>rs_tables := dpop i (rs_tables st)\<rparr>)"

definition release_consumed_tables :: "run_config \<Rightarrow> physical_node list \<Rightarrow> run_state \<Rightarrow> run_state" where
  "release_consumed_tables c ns st =
     (let st1 = st\<lparr>rs_remaining := fold consume (concat (map pn_dependencies ns)) (rs_remaining st)\<rparr>;
          releasable = filter (\<lambda>i. dget_or (rs_remaining st1) i 0 = 0) (dkeys (rs_tables st1))
      in fold (drop_table c) releasable st1)"

definition stage_diagnostic :: "execution_state \<Rightarrow> node_outcome list \<Rightarrow> string" where
  "stage_diagnostic s outcomes =
     (case filter (\<lambda>oc. no_state oc = s \<and> no_diagnostic_code oc \<noteq> None) outcomes of
        oc # _ \<Rightarrow> the (no_diagnostic_code oc)
      | [] \<Rightarrow> ''RUN_'' @ execution_state_value s)"

definition end_wave :: "run_config \<Rightarrow> int \<Rightarrow> int list \<Rightarrow> node_outcome list \<Rightarrow> run_state \<Rightarrow> run_state" where
  "end_wave c w ws outcomes st =
     (let s = terminal_stage_state outcomes;
          (st1, release_outputs) = fold record_outcome outcomes (st, []);
          st2 = fold (release_node c) release_outputs st1;
          st3 = release_consumed_tables c (wave_nodes (rc_plan c) w) st2;
          st4 = emit_event Scope_stage (stage_id w) s (''STAGE_'' @ execution_state_value s) st3
      in if s = SUCCEEDED then st4\<lparr>rs_control := Next_Wave ws\<rparr>
         else (terminalize_waves (rc_plan c) (if s = CANCELLED then CANCELLED else SKIPPED) ws
                (st4\<lparr>rs_cancel := True\<rparr>))
              \<lparr>rs_control := Closing s (Some (stage_diagnostic s outcomes))\<rparr>)"

text \<open>The \<open>finally\<close> clause.\<close>

definition close_run :: "run_config \<Rightarrow> run_state \<Rightarrow> run_state" where
  "close_run c st =
     st\<lparr>rs_budget := (case budget_release_run (rc_run_id c) (rs_budget st) of Inr b \<Rightarrow> b | Inl _ \<Rightarrow> rs_budget st),
        rs_tables := []\<rparr>"

definition finish_run :: "run_config \<Rightarrow> execution_state \<Rightarrow> string option \<Rightarrow> run_state \<Rightarrow> run_state" where
  "finish_run c s code st =
     (let (s', code') = (if s = SUCCEEDED \<and> rs_cancel st then (CANCELLED, Some ''RUN_CANCELLED'') else (s, code))
      in (close_run c (emit_event Scope_run (rc_run_id c) s' (''RUN_'' @ execution_state_value s') st))
           \<lparr>rs_control := Closed s' code'\<rparr>)"

text \<open>\<open>_finalize_outer_cancellation\<close>: terminal events for everything that has none.\<close>

definition terminal_ids :: "event_scope \<Rightarrow> diagnostic_event list \<Rightarrow> string list" where
  "terminal_ids scope evs = map ev_scope_id (filter (\<lambda>e. ev_scope e = scope \<and> is_terminal (ev_state e)) evs)"

definition finalize_node :: "string list \<Rightarrow> physical_node \<Rightarrow> run_state \<Rightarrow> run_state" where
  "finalize_node terminal_nodes n st =
     (if pn_id n \<in> set terminal_nodes then st
      else emit_event Scope_node (pn_id n) CANCELLED ''NODE_CANCELLED'' st)"

definition finalize_wave :: "physical_plan \<Rightarrow> diagnostic_event list \<Rightarrow> int \<Rightarrow> run_state \<Rightarrow> run_state" where
  "finalize_wave p evs w st =
     fold (finalize_node (terminal_ids Scope_node evs)) (wave_nodes p w)
       (if stage_id w \<in> set (terminal_ids Scope_stage evs) then st
        else emit_event Scope_stage (stage_id w) CANCELLED ''STAGE_CANCELLED'' st)"

definition finalize_outer_cancellation :: "run_config \<Rightarrow> run_state \<Rightarrow> run_state" where
  "finalize_outer_cancellation c st =
     (let evs = run_log c st; st1 = fold (finalize_wave (rc_plan c) evs) (plan_waves (rc_plan c)) st
      in if \<exists>e \<in> set evs. ev_scope e = Scope_run \<and> is_terminal (ev_state e) then st1
         else emit_event Scope_run (rc_run_id c) CANCELLED ''RUN_CANCELLED'' st1)"

definition finish_outer :: "run_config \<Rightarrow> run_state \<Rightarrow> run_state" where
  "finish_outer c st =
     (close_run c (finalize_outer_cancellation c (st\<lparr>rs_cancel := True\<rparr>)))
       \<lparr>rs_control := Closed CANCELLED (Some ''RUN_CANCELLED'')\<rparr>"

section \<open>The transition system\<close>

datatype choice =
    Caller_Cancels
  | Outer_Cancel
  | Begin_Wave
  | Begin_Node string
  | Start_Node string
  | Execution string exec_event
  | Complete_Node string
  | Notice_Cancel string
  | Deadline string
  | End_Wave
  | Finish
  | Late_Execution nat exec_event
  | Late_Finish nat
  | Cleanup_Finished string

definition running_count :: "run_state \<Rightarrow> nat" where
  "running_count st = length (filter (\<lambda>p. case snd p of N_Running x \<Rightarrow> True | _ \<Rightarrow> False) (rs_phases st))"

definition current_node :: "run_config \<Rightarrow> run_state \<Rightarrow> string \<Rightarrow> physical_node option" where
  "current_node c st i =
     (case rs_control st of
        In_Wave w ws \<Rightarrow> List.find (\<lambda>n. pn_id n = i) (wave_nodes (rc_plan c) w)
      | _ \<Rightarrow> None)"

definition wave_quiet :: "run_config \<Rightarrow> run_state \<Rightarrow> bool" where
  "wave_quiet c st =
     (case rs_control st of
        In_Wave w ws \<Rightarrow> list_all (\<lambda>n. case dget (rs_phases st) (pn_id n) of
            None \<Rightarrow> True | Some (N_Finished oc) \<Rightarrow> True | _ \<Rightarrow> False) (wave_nodes (rc_plan c) w)
      | Closed s code \<Rightarrow> False
      | _ \<Rightarrow> True)"

definition not_closed :: "run_state \<Rightarrow> bool" where
  "not_closed st = (case rs_control st of Closed s code \<Rightarrow> False | _ \<Rightarrow> True)"

fun run_step :: "run_config \<Rightarrow> choice \<Rightarrow> run_state \<Rightarrow> run_state option" where
  "run_step c Caller_Cancels st = (if not_closed st then Some (st\<lparr>rs_cancel := True\<rparr>) else None)"
| "run_step c Outer_Cancel st = (if not_closed st then Some (st\<lparr>rs_outer := True\<rparr>) else None)"
| "run_step c Begin_Wave st =
     (case rs_control st of
        Next_Wave (w # ws) \<Rightarrow> if rs_outer st then None else Some (begin_wave c w ws st)
      | Next_Wave [] \<Rightarrow> if rs_outer st then None else Some (st\<lparr>rs_control := Closing SUCCEEDED None\<rparr>)
      | _ \<Rightarrow> None)"
| "run_step c (Begin_Node i) st =
     (case (current_node c st i, dget (rs_phases st) i) of
        (Some n, None) \<Rightarrow> if rs_outer st then None else Some (begin_node n st)
      | _ \<Rightarrow> None)"
| "run_step c (Start_Node i) st =
     (case (current_node c st i, dget (rs_phases st) i) of
        (Some n, Some N_Ready) \<Rightarrow>
          if rs_outer st then Some (node_cancelled n st)
          else if running_count st < rc_max_concurrency c then Some (start_node n st) else None
      | _ \<Rightarrow> None)"
| "run_step c (Execution i ev) st =
     (case (current_node c st i, dget (rs_phases st) i) of
        (Some n, Some (N_Running x)) \<Rightarrow>
          map_option (\<lambda>(x', st'). st'\<lparr>rs_phases := dput i (N_Running x') (rs_phases st')\<rparr>) (exec_step c i False ev x st)
      | _ \<Rightarrow> None)"
| "run_step c (Complete_Node i) st =
     (case (current_node c st i, dget (rs_phases st) i) of
        (Some n, Some (N_Running (X_Done r))) \<Rightarrow> Some (complete_node c n r st)
      | _ \<Rightarrow> None)"
| "run_step c (Notice_Cancel i) st =
     (case (current_node c st i, dget (rs_phases st) i) of
        (Some n, Some (N_Running x)) \<Rightarrow>
          if exec_done x then (if rs_outer st then Some (node_cancelled n st) else None)
          else if rs_cancel st \<or> rs_outer st then Some (abandon_node c n x st) else None
      | _ \<Rightarrow> None)"
| "run_step c (Deadline i) st =
     (case (current_node c st i, dget (rs_phases st) i) of
        (Some n, Some (N_Running x)) \<Rightarrow>
          if \<not> exec_done x \<and> \<not> rs_cancel st then Some (expire_node c n x st) else None
      | _ \<Rightarrow> None)"
| "run_step c End_Wave st =
     (case rs_control st of
        In_Wave w ws \<Rightarrow>
          (case wave_outcomes (rc_plan c) w st of
             Some outcomes \<Rightarrow> if rs_outer st then None else Some (end_wave c w ws outcomes st)
           | None \<Rightarrow> None)
      | _ \<Rightarrow> None)"
| "run_step c Finish st =
     (if rs_outer st then (if wave_quiet c st then Some (finish_outer c st) else None)
      else case rs_control st of Closing s code \<Rightarrow> Some (finish_run c s code st) | _ \<Rightarrow> None)"
| "run_step c (Late_Execution k ev) st =
     (if k < length (rs_late st)
      then let le = rs_late st ! k
           in map_option (\<lambda>(x, st'). st'\<lparr>rs_late := (rs_late st')[k := le\<lparr>le_phase := x\<rparr>]\<rparr>)
                (exec_step c (le_node_id le) True ev (le_phase le) st)
      else None)"
| "run_step c (Late_Finish k) st =
     (if k < length (rs_late st) \<and> exec_done (le_phase (rs_late st ! k))
      then Some (late_finish c (rs_late st ! k)
                  (st\<lparr>rs_late := take k (rs_late st) @ drop (Suc k) (rs_late st)\<rparr>))
      else None)"
| "run_step c (Cleanup_Finished i) st =
     (if i \<in> set (rs_cleanups st)
      then Some (release_node c i (st\<lparr>rs_cleanups := remove1 i (rs_cleanups st)\<rparr>))
      else None)"

text \<open>The state after \<open>_claim_run\<close> and the first two events; the budget is the coordinator's.\<close>

definition initial_state :: "run_config \<Rightarrow> mem_store \<Rightarrow> memory_budget \<Rightarrow> lineage_recorder \<Rightarrow> run_state" where
  "initial_state c store budget recorder =
     emit_event Scope_run (rc_run_id c) RUNNING ''RUN_STARTED''
      (emit_event Scope_run (rc_run_id c) READY ''RUN_READY''
        \<lparr>rs_emitter = new_emitter (rc_run_id c), rs_store = store, rs_cancel = False, rs_outer = False,
         rs_budget = budget, rs_tables = [], rs_manifests = [], rs_recorder = recorder,
         rs_remaining = initial_consumers (rc_plan c), rs_phases = [], rs_late = [], rs_cleanups = [],
         rs_resolver_cancels = [], rs_control = Next_Wave (plan_waves (rc_plan c))\<rparr>)"

inductive run_reachable :: "run_config \<Rightarrow> run_state \<Rightarrow> run_state \<Rightarrow> bool" for c st0 where
  run_start: "run_reachable c st0 st0"
| run_next: "run_reachable c st0 st \<Longrightarrow> run_step c ch st = Some st' \<Longrightarrow> run_reachable c st0 st'"

text \<open>What \<open>run\<close> returns once it is closed without an outer cancellation.\<close>

definition run_outcome :: "run_config \<Rightarrow> run_state \<Rightarrow> result_summary res" where
  "run_outcome c st =
     (case rs_control st of
        Closed s code \<Rightarrow>
          let m = (if s = SUCCEEDED then dget (rs_manifests st) (plan_output_node_id (rc_plan c)) else None)
          in if s = SUCCEEDED \<and> m = None then Inl (RuntimeFailure ''RUN_OUTPUT_MISSING'')
             else Inr \<lparr>sum_run_id = rc_run_id c, sum_state = s, sum_row_count = map_option man_row_count m,
                       sum_result = map_option man_result m, sum_diagnostic_code = code\<rparr>
      | _ \<Rightarrow> Inl AssertionError)"

section \<open>What the steps emit\<close>

text \<open>The event log as scope, subject and state.\<close>

type_synonym entry = "event_scope \<times> string \<times> execution_state"

definition entry_of :: "diagnostic_event \<Rightarrow> entry" where
  "entry_of e = (ev_scope e, ev_scope_id e, ev_state e)"

definition trace :: "run_config \<Rightarrow> run_state \<Rightarrow> entry list" where
  "trace c st = map entry_of (run_log c st)"

definition emits :: "run_config \<Rightarrow> run_state \<Rightarrow> bool" where
  "emits c st \<longleftrightarrow> em_run_id (rs_emitter st) = rc_run_id c"

lemma emit_event_eq:
  "emit_event scope sid s code st = st\<lparr>rs_emitter := (rs_emitter st)\<lparr>em_sequence := Suc (em_sequence (rs_emitter st))\<rparr>,
     rs_store := store_append (rs_store st) (make_event (rs_emitter st) scope sid s code)\<rparr>"
  by (simp add: emit_event_def emit_def mem_append_def)

lemma emit_event_fields [simp]:
  "rs_cancel (emit_event scope sid s code st) = rs_cancel st"
  "rs_outer (emit_event scope sid s code st) = rs_outer st"
  "rs_budget (emit_event scope sid s code st) = rs_budget st"
  "rs_tables (emit_event scope sid s code st) = rs_tables st"
  "rs_manifests (emit_event scope sid s code st) = rs_manifests st"
  "rs_recorder (emit_event scope sid s code st) = rs_recorder st"
  "rs_remaining (emit_event scope sid s code st) = rs_remaining st"
  "rs_phases (emit_event scope sid s code st) = rs_phases st"
  "rs_late (emit_event scope sid s code st) = rs_late st"
  "rs_cleanups (emit_event scope sid s code st) = rs_cleanups st"
  "rs_control (emit_event scope sid s code st) = rs_control st"
  "emits c (emit_event scope sid s code st) = emits c st"
  by (simp_all add: emit_event_eq emits_def)

lemma trace_emit [simp]:
  "emits c st \<Longrightarrow> trace c (emit_event scope sid s code st) = trace c st @ [(scope, sid, s)]"
  by (simp add: trace_def run_log_def emit_event_eq store_events_append make_event_def emits_def entry_of_def)

text \<open>Updates of the other fields leave the log alone.\<close>

lemma trace_update [simp]:
  "trace c (st\<lparr>rs_cancel := b\<rparr>) = trace c st" "trace c (st\<lparr>rs_outer := b\<rparr>) = trace c st"
  "trace c (st\<lparr>rs_budget := bu\<rparr>) = trace c st" "trace c (st\<lparr>rs_tables := ts\<rparr>) = trace c st"
  "trace c (st\<lparr>rs_manifests := ms\<rparr>) = trace c st" "trace c (st\<lparr>rs_recorder := re\<rparr>) = trace c st"
  "trace c (st\<lparr>rs_remaining := rm\<rparr>) = trace c st" "trace c (st\<lparr>rs_phases := ph\<rparr>) = trace c st"
  "trace c (st\<lparr>rs_late := la\<rparr>) = trace c st" "trace c (st\<lparr>rs_cleanups := cl\<rparr>) = trace c st"
  "trace c (st\<lparr>rs_resolver_cancels := rc\<rparr>) = trace c st" "trace c (st\<lparr>rs_control := co\<rparr>) = trace c st"
  by (simp_all add: trace_def run_log_def)

lemma emits_update [simp]:
  "emits c (st\<lparr>rs_cancel := b\<rparr>) = emits c st" "emits c (st\<lparr>rs_outer := b\<rparr>) = emits c st"
  "emits c (st\<lparr>rs_budget := bu\<rparr>) = emits c st" "emits c (st\<lparr>rs_tables := ts\<rparr>) = emits c st"
  "emits c (st\<lparr>rs_manifests := ms\<rparr>) = emits c st" "emits c (st\<lparr>rs_recorder := re\<rparr>) = emits c st"
  "emits c (st\<lparr>rs_remaining := rm\<rparr>) = emits c st" "emits c (st\<lparr>rs_phases := ph\<rparr>) = emits c st"
  "emits c (st\<lparr>rs_late := la\<rparr>) = emits c st" "emits c (st\<lparr>rs_cleanups := cl\<rparr>) = emits c st"
  "emits c (st\<lparr>rs_resolver_cancels := rc\<rparr>) = emits c st" "emits c (st\<lparr>rs_control := co\<rparr>) = emits c st"
  by (simp_all add: emits_def)

lemma quiet_release_node [simp]:
  "trace c (release_node c' i st) = trace c st" "emits c (release_node c' i st) = emits c st"
  "rs_phases (release_node c' i st) = rs_phases st" "rs_control (release_node c' i st) = rs_control st"
  "rs_manifests (release_node c' i st) = rs_manifests st" "rs_cancel (release_node c' i st) = rs_cancel st"
  "rs_tables (release_node c' i st) = rs_tables st" "rs_remaining (release_node c' i st) = rs_remaining st"
  "rs_outer (release_node c' i st) = rs_outer st" "rs_late (release_node c' i st) = rs_late st"
  "rs_cleanups (release_node c' i st) = rs_cleanups st" "rs_recorder (release_node c' i st) = rs_recorder st"
  by (simp_all add: release_node_def)

lemma request_resolver_cancel_fields [simp]:
  "trace c (request_resolver_cancel n st) = trace c st" "emits c (request_resolver_cancel n st) = emits c st"
  "rs_phases (request_resolver_cancel n st) = rs_phases st" "rs_control (request_resolver_cancel n st) = rs_control st"
  "rs_manifests (request_resolver_cancel n st) = rs_manifests st" "rs_cancel (request_resolver_cancel n st) = rs_cancel st"
  "rs_tables (request_resolver_cancel n st) = rs_tables st" "rs_remaining (request_resolver_cancel n st) = rs_remaining st"
  "rs_budget (request_resolver_cancel n st) = rs_budget st" "rs_late (request_resolver_cancel n st) = rs_late st"
  "rs_cleanups (request_resolver_cancel n st) = rs_cleanups st" "rs_outer (request_resolver_cancel n st) = rs_outer st"
  by (simp_all add: request_resolver_cancel_def)

lemma exec_step_quiet:
  assumes "exec_step c i d ev x st = Some (x', st')"
  shows "trace c st' = trace c st" "emits c st' = emits c st" "rs_phases st' = rs_phases st"
    "rs_control st' = rs_control st" "rs_manifests st' = rs_manifests st" "rs_cancel st' = rs_cancel st"
    "rs_tables st' = rs_tables st" "rs_remaining st' = rs_remaining st" "rs_late st' = rs_late st"
    "rs_outer st' = rs_outer st"
  using assms
  by (cases "(c, i, d, ev, x, st)" rule: exec_step.cases;
      auto simp: exec_reserve_def exec_performed_def exec_committed_def split: sum.splits if_splits)+

lemma handoff_quiet:
  assumes "handoff c n x st = (e, st')"
  shows "trace c st' = trace c st" "emits c st' = emits c st" "rs_phases st' = rs_phases st"
    "rs_control st' = rs_control st" "rs_manifests st' = rs_manifests st" "rs_cancel st' = rs_cancel st"
    "rs_tables st' = rs_tables st" "rs_remaining st' = rs_remaining st" "rs_outer st' = rs_outer st"
    "rs_cleanups st' = rs_cleanups st"
  using assms by (auto simp: handoff_def Let_def split: sum.splits prod.splits)

lemma late_finish_fields [simp]:
  "trace c (late_finish c' le st) = trace c st" "emits c (late_finish c' le st) = emits c st"
  "rs_phases (late_finish c' le st) = rs_phases st" "rs_control (late_finish c' le st) = rs_control st"
  "rs_manifests (late_finish c' le st) = rs_manifests st" "rs_cancel (late_finish c' le st) = rs_cancel st"
  "rs_tables (late_finish c' le st) = rs_tables st" "rs_remaining (late_finish c' le st) = rs_remaining st"
  "rs_outer (late_finish c' le st) = rs_outer st" "rs_late (late_finish c' le st) = rs_late st"
  "rs_cleanups (late_finish c' le st) = rs_cleanups st"
  by (auto simp: late_finish_def Let_def split: exec_phase.splits sum.splits)

end
