(* ===== verification/Run_Progress.thy ===== *)
theory Run_Progress
  imports Run_Coordinator
begin

text \<open>
  What the event log of a run tells: an invariant relates the log to the phases
  of the nodes and to the position of the wave loop, for every interleaving of
  nodes, cancellations, deadlines and failures. From it follow the order in
  which nodes start, the completeness of terminal events and the meaning of a
  successful run.
\<close>

section \<open>Stage names\<close>

lemma digit_value_char: "0 \<le> d \<Longrightarrow> d < 10 \<Longrightarrow> digit_value (char_of (48 + d)) = d" for d :: int
  by (simp add: digit_value_def)

lemma digits_value_show_nat: "0 \<le> n \<Longrightarrow> digits_value (show_nat n) = n"
proof (induction n rule: show_nat.induct)
  case (1 n)
  show ?case
  proof (cases "n < 10")
    case True
    with 1 show ?thesis by (simp add: show_nat.simps [of n] digits_value_def digit_value_char)
  next
    case False
    have "digits_value (show_nat n) = 10 * digits_value (show_nat (n div 10)) + digit_value (char_of (48 + n mod 10))"
      using False by (simp add: show_nat.simps [of n] digits_value_def)
    with 1 False show ?thesis by (simp add: digit_value_char)
  qed
qed

lemma show_nat_no_minus: "0 \<le> n \<Longrightarrow> hd (show_nat n) \<noteq> CHR ''-''"
proof -
  assume "0 \<le> n"
  have "hd (show_nat n) \<in> set (show_nat n)" by (rule hd_in_set) (simp add: show_nat.simps [of n])
  from show_nat_digits [OF \<open>0 \<le> n\<close> this] show ?thesis by (auto simp: is_digit_def)
qed

lemma show_int_inject: "show_int a = show_int b \<longleftrightarrow> a = b"
proof
  assume eq: "show_int a = show_int b"
  have "a < 0 \<longleftrightarrow> b < 0"
    using arg_cong [OF eq, of hd] show_nat_no_minus [of a] show_nat_no_minus [of b]
    by (auto simp: show_int_def split: if_splits)
  then show "a = b"
  proof (cases "a < 0")
    case True
    with eq \<open>a < 0 \<longleftrightarrow> b < 0\<close> have "digits_value (show_nat (- a)) = digits_value (show_nat (- b))" by (simp add: show_int_def)
    with True \<open>a < 0 \<longleftrightarrow> b < 0\<close> show ?thesis by (simp add: digits_value_show_nat)
  next
    case False
    with eq \<open>a < 0 \<longleftrightarrow> b < 0\<close> have "digits_value (show_nat a) = digits_value (show_nat b)" by (simp add: show_int_def)
    with False \<open>a < 0 \<longleftrightarrow> b < 0\<close> show ?thesis by (simp add: digits_value_show_nat)
  qed
qed simp

lemma stage_id_inject [simp]: "stage_id v = stage_id w \<longleftrightarrow> v = w"
  by (simp add: stage_id_def show_int_inject)

section \<open>Histories\<close>

text \<open>The states reported for a node or stage; for the run scope, of all events of that scope.\<close>

definition history :: "event_scope \<Rightarrow> string \<Rightarrow> entry list \<Rightarrow> execution_state list" where
  "history scope i tr = map (snd \<circ> snd) (filter (\<lambda>e. fst e = scope \<and> (scope = Scope_run \<or> fst (snd e) = i)) tr)"

lemma history_simps [simp]:
  "history scope i [] = []"
  "history scope i ((sc, j, s) # tr) = (if sc = scope \<and> (scope = Scope_run \<or> j = i) then [s] else []) @ history scope i tr"
  "history scope i (tr @ tr') = history scope i tr @ history scope i tr'"
  by (simp_all add: history_def)

lemma history_member: "scope \<noteq> Scope_run \<Longrightarrow> s \<in> set (history scope i tr) \<longleftrightarrow> (scope, i, s) \<in> set tr"
  by (force simp: history_def)

lemma history_run_member: "s \<in> set (history Scope_run i tr) \<longleftrightarrow> (\<exists>j. (Scope_run, j, s) \<in> set tr)"
  by (force simp: history_def)

definition skip_entries :: "physical_plan \<Rightarrow> execution_state \<Rightarrow> int \<Rightarrow> entry list" where
  "skip_entries p s w = (Scope_stage, stage_id w, s) # map (\<lambda>n. (Scope_node, pn_id n, s)) (wave_nodes p w)"

lemma fold_skip_node:
  "emits c st \<Longrightarrow> trace c (fold (skip_node s) ns st) = trace c st @ map (\<lambda>n. (Scope_node, pn_id n, s)) ns
     \<and> emits c (fold (skip_node s) ns st)"
  by (induction ns arbitrary: st) (simp_all add: skip_node_def)

lemma fold_skip_node_fields [simp]:
  "rs_phases (fold (skip_node s) ns st) = rs_phases st" "rs_control (fold (skip_node s) ns st) = rs_control st"
  "rs_manifests (fold (skip_node s) ns st) = rs_manifests st" "rs_budget (fold (skip_node s) ns st) = rs_budget st"
  "rs_tables (fold (skip_node s) ns st) = rs_tables st" "rs_remaining (fold (skip_node s) ns st) = rs_remaining st"
  "rs_late (fold (skip_node s) ns st) = rs_late st" "rs_cleanups (fold (skip_node s) ns st) = rs_cleanups st"
  "rs_cancel (fold (skip_node s) ns st) = rs_cancel st" "rs_outer (fold (skip_node s) ns st) = rs_outer st"
  by (induction ns arbitrary: st) (simp_all add: skip_node_def)

lemma terminalize_waves_fields [simp]:
  "rs_phases (terminalize_waves p s ws st) = rs_phases st" "rs_control (terminalize_waves p s ws st) = rs_control st"
  "rs_manifests (terminalize_waves p s ws st) = rs_manifests st" "rs_budget (terminalize_waves p s ws st) = rs_budget st"
  "rs_tables (terminalize_waves p s ws st) = rs_tables st" "rs_remaining (terminalize_waves p s ws st) = rs_remaining st"
  "rs_late (terminalize_waves p s ws st) = rs_late st" "rs_cleanups (terminalize_waves p s ws st) = rs_cleanups st"
  "rs_cancel (terminalize_waves p s ws st) = rs_cancel st" "rs_outer (terminalize_waves p s ws st) = rs_outer st"
  unfolding terminalize_waves_def
  by (induction ws arbitrary: st) (simp_all add: terminalize_wave_def)

lemma terminalize_waves_trace:
  "emits c st \<Longrightarrow> trace c (terminalize_waves p s ws st) = trace c st @ concat (map (skip_entries p s) ws)
     \<and> emits c (terminalize_waves p s ws st)"
  unfolding terminalize_waves_def
proof (induction ws arbitrary: st)
  case (Cons w ws)
  let ?st = "emit_event Scope_stage (stage_id w) s (''STAGE_'' @ execution_state_value s) st"
  have "trace c (terminalize_wave p s w st) = trace c st @ skip_entries p s w \<and> emits c (terminalize_wave p s w st)"
    using fold_skip_node [of c ?st s "wave_nodes p w"] Cons.prems
    by (simp add: terminalize_wave_def skip_entries_def)
  with Cons.IH [of "terminalize_wave p s w st"] show ?case by simp
qed simp

section \<open>Nodes of a wave\<close>

lemma plan_waves_props: "sorted (plan_waves p)" "distinct (plan_waves p)" "set (plan_waves p) = pn_wave ` set (plan_nodes p)"
  by (simp_all add: plan_waves_def)

lemma wave_nodes_set: "set (wave_nodes p w) = {n \<in> set (plan_nodes p). pn_wave n = w}"
  by (auto simp: wave_nodes_def)

lemma filter_unique:
  "distinct (map f xs) \<Longrightarrow> x \<in> set xs \<Longrightarrow> filter (\<lambda>y. f y = f x) xs = [x]"
  by (induction xs) (auto simp: filter_empty_conv image_iff)

lemma wave_nodes_filter:
  assumes "distinct (map pn_id (plan_nodes p))" "n \<in> set (plan_nodes p)"
  shows "filter (\<lambda>m. pn_id m = pn_id n) (wave_nodes p w) = (if pn_wave n = w then [n] else [])"
proof -
  have "filter (\<lambda>m. pn_id m = pn_id n) (wave_nodes p w)
      = sort_key pn_id (filter (\<lambda>m. pn_wave m = w) (filter (\<lambda>m. pn_id m = pn_id n) (plan_nodes p)))"
    by (simp add: wave_nodes_def filter_sort conj_commute)
  also have "filter (\<lambda>m. pn_id m = pn_id n) (plan_nodes p) = [n]" by (rule filter_unique [OF assms])
  finally show ?thesis by simp
qed

text \<open>Every node and stage of the given waves gets one entry from \<open>_terminalize_waves\<close>.\<close>

lemma skip_history_node:
  assumes "distinct (map pn_id (plan_nodes p))" "n \<in> set (plan_nodes p)" "distinct ws"
  shows "history Scope_node (pn_id n) (concat (map (skip_entries p s) ws)) = (if pn_wave n \<in> set ws then [s] else [])"
proof -
  have one: "history Scope_node (pn_id n) (skip_entries p s w) = (if pn_wave n = w then [s] else [])" for w
  proof -
    have "history Scope_node (pn_id n) (skip_entries p s w) = map (\<lambda>_. s) (filter (\<lambda>m. pn_id m = pn_id n) (wave_nodes p w))"
      by (simp add: skip_entries_def history_def filter_map comp_def)
    then show ?thesis by (simp add: wave_nodes_filter [OF assms(1,2)])
  qed
  show ?thesis using assms(3) by (induction ws) (auto simp: one)
qed

lemma skip_history_stage:
  "distinct ws \<Longrightarrow> history Scope_stage (stage_id w) (concat (map (skip_entries p s) ws)) = (if w \<in> set ws then [s] else [])"
proof (induction ws)
  case (Cons v ws)
  have "history Scope_stage (stage_id w) (map (\<lambda>n. (Scope_node, pn_id n, s)) ns) = []" for ns :: "physical_node list"
    by (induction ns) simp_all
  with Cons show ?case by (auto simp: skip_entries_def)
qed simp

lemma skip_history_run: "history Scope_run i (concat (map (skip_entries p s) ws)) = []"
proof -
  have "history Scope_run i (map (\<lambda>n. (Scope_node, pn_id n, s)) ns) = []" for ns :: "physical_node list"
    by (induction ns) simp_all
  then show ?thesis by (induction ws) (simp_all add: skip_entries_def)
qed

section \<open>The invariant\<close>

text \<open>Where a wave is, seen from the wave loop.\<close>

datatype wave_place = Future | Current | Past | Over execution_state

fun place :: "control \<Rightarrow> int \<Rightarrow> wave_place" where
  "place (Next_Wave ws) v = (if v \<in> set ws then Future else Past)"
| "place (In_Wave w ws) v = (if v \<in> set ws then Future else if v = w then Current else Past)"
| "place (Closing s code) v = Over s"
| "place (Closed s code) v = Over s"

text \<open>The history a node has emitted, given its phase.\<close>

fun phase_history :: "string \<Rightarrow> node_phase option \<Rightarrow> execution_state list \<Rightarrow> bool" where
  "phase_history i None h = (h = [])"
| "phase_history i (Some N_Ready) h = (h = [READY])"
| "phase_history i (Some (N_Running x)) h = (h = [READY, RUNNING])"
| "phase_history i (Some (N_Finished oc)) h =
     (no_node_id oc = i
      \<and> (\<exists>p \<in> {[READY], [READY, RUNNING]}. h = p @ [no_state oc] \<and> no_state oc \<in> set (STATE_TRANSITIONS (last p)))
      \<and> no_state oc \<in> {SUCCEEDED, FAILED, CANCELLED, TIMED_OUT}
      \<and> (if no_state oc = SUCCEEDED then no_table oc \<noteq> None \<and> no_manifest oc \<noteq> None
         else no_table oc = None \<and> no_manifest oc = None))"

definition node_succeeded ::
  "string \<Rightarrow> node_phase option \<Rightarrow> execution_state list \<Rightarrow> (string, committed_manifest) dict \<Rightarrow> bool" where
  "node_succeeded i ph h ms \<longleftrightarrow>
     phase_history i ph h \<and> (\<exists>oc. ph = Some (N_Finished oc) \<and> no_state oc = SUCCEEDED) \<and> dget ms i \<noteq> None"

definition node_ended :: "string \<Rightarrow> node_phase option \<Rightarrow> execution_state list \<Rightarrow> bool" where
  "node_ended i ph h \<longleftrightarrow>
     (phase_history i ph h \<and> (\<exists>oc. ph = Some (N_Finished oc))) \<or> (ph = None \<and> h \<in> {[CANCELLED], [SKIPPED]})"

fun node_inv ::
  "wave_place \<Rightarrow> string \<Rightarrow> node_phase option \<Rightarrow> execution_state list \<Rightarrow> (string, committed_manifest) dict \<Rightarrow> bool" where
  "node_inv Future i ph h ms = (ph = None \<and> h = [])"
| "node_inv Current i ph h ms = phase_history i ph h"
| "node_inv Past i ph h ms = node_succeeded i ph h ms"
| "node_inv (Over s) i ph h ms = (node_ended i ph h \<and> (s = SUCCEEDED \<longrightarrow> node_succeeded i ph h ms))"

fun stage_inv :: "wave_place \<Rightarrow> execution_state list \<Rightarrow> bool" where
  "stage_inv Future h = (h = [])"
| "stage_inv Current h = (h = [READY, RUNNING])"
| "stage_inv Past h = (h = [READY, RUNNING, SUCCEEDED])"
| "stage_inv (Over s) h =
     ((h \<in> {[CANCELLED], [SKIPPED]} \<or> (\<exists>t \<in> set (STATE_TRANSITIONS RUNNING). h = [READY, RUNNING, t]))
      \<and> (s = SUCCEEDED \<longrightarrow> h = [READY, RUNNING, SUCCEEDED]))"

fun run_inv :: "control \<Rightarrow> execution_state list \<Rightarrow> bool" where
  "run_inv (Closing s code) h = (h = [READY, RUNNING] \<and> s \<in> set (STATE_TRANSITIONS RUNNING))"
| "run_inv (Closed s code) h = (h = [READY, RUNNING, s] \<and> s \<in> set (STATE_TRANSITIONS RUNNING))"
| "run_inv _ h = (h = [READY, RUNNING])"

fun control_shape :: "int list \<Rightarrow> control \<Rightarrow> bool" where
  "control_shape waves (Next_Wave ws) = (\<exists>pre. waves = pre @ ws)"
| "control_shape waves (In_Wave w ws) = (\<exists>pre. waves = pre @ w # ws)"
| "control_shape waves _ = True"

text \<open>Whenever a node was reported running, all its inputs had been reported succeeded.\<close>

definition ordered_starts :: "physical_plan \<Rightarrow> entry list \<Rightarrow> bool" where
  "ordered_starts p tr \<longleftrightarrow>
     (\<forall>n \<in> set (plan_nodes p). \<forall>k < length tr. tr ! k = (Scope_node, pn_id n, RUNNING) \<longrightarrow>
        (\<forall>d \<in> set (pn_dependencies n). (Scope_node, d, SUCCEEDED) \<in> set (take k tr)))"

definition progress_inv :: "run_config \<Rightarrow> run_state \<Rightarrow> bool" where
  "progress_inv c st \<longleftrightarrow>
     emits c st \<and> control_shape (plan_waves (rc_plan c)) (rs_control st)
     \<and> (\<forall>n \<in> set (plan_nodes (rc_plan c)). node_inv (place (rs_control st) (pn_wave n)) (pn_id n)
          (dget (rs_phases st) (pn_id n)) (history Scope_node (pn_id n) (trace c st)) (rs_manifests st))
     \<and> (\<forall>w \<in> set (plan_waves (rc_plan c)). stage_inv (place (rs_control st) w) (history Scope_stage (stage_id w) (trace c st)))
     \<and> run_inv (rs_control st) (history Scope_run (rc_run_id c) (trace c st))
     \<and> ordered_starts (rc_plan c) (trace c st)"

lemma progress_invD:
  assumes "progress_inv c st"
  shows "emits c st" "control_shape (plan_waves (rc_plan c)) (rs_control st)"
    "n \<in> set (plan_nodes (rc_plan c)) \<Longrightarrow> node_inv (place (rs_control st) (pn_wave n)) (pn_id n)
          (dget (rs_phases st) (pn_id n)) (history Scope_node (pn_id n) (trace c st)) (rs_manifests st)"
    "w \<in> set (plan_waves (rc_plan c)) \<Longrightarrow>
       stage_inv (place (rs_control st) w) (history Scope_stage (stage_id w) (trace c st))"
    "run_inv (rs_control st) (history Scope_run (rc_run_id c) (trace c st))"
    "ordered_starts (rc_plan c) (trace c st)"
  using assms by (simp_all add: progress_inv_def)

subsection \<open>The order of starts\<close>

lemma ordered_starts_snoc:
  "ordered_starts p (tr @ [e]) \<longleftrightarrow> ordered_starts p tr \<and>
     (\<forall>n \<in> set (plan_nodes p). e = (Scope_node, pn_id n, RUNNING) \<longrightarrow>
        (\<forall>d \<in> set (pn_dependencies n). (Scope_node, d, SUCCEEDED) \<in> set tr))"
  by (auto simp: ordered_starts_def nth_append less_Suc_eq all_conj_distrib)

lemma ordered_starts_append:
  "ordered_starts p tr \<Longrightarrow>
   (\<forall>e \<in> set es. \<forall>n \<in> set (plan_nodes p). e = (Scope_node, pn_id n, RUNNING) \<longrightarrow>
        (\<forall>d \<in> set (pn_dependencies n). (Scope_node, d, SUCCEEDED) \<in> set tr)) \<Longrightarrow>
   ordered_starts p (tr @ es)"
proof (induction es rule: rev_induct)
  case (snoc e es)
  have "ordered_starts p ((tr @ es) @ [e])"
    unfolding ordered_starts_snoc using snoc by auto
  then show ?case by simp
qed simp

text \<open>At a position of the wave loop every input of a current node has succeeded.\<close>

lemma control_shape_past:
  assumes "control_shape (plan_waves p) (In_Wave w ws)" "v \<in> set (plan_waves p)" "v < w"
  shows "place (In_Wave w ws) v = Past"
proof -
  obtain pre where "plan_waves p = pre @ w # ws" using assms(1) by auto
  then have "\<forall>u \<in> set ws. w \<le> u" using plan_waves_props(1) [of p] by (simp add: sorted_append)
  with assms(3) show ?thesis by auto
qed

lemma current_inputs_succeeded:
  assumes inv: "progress_inv c st" and valid: "validate_physical_plan (rc_plan c) = Inr ()"
    and ctl: "rs_control st = In_Wave w ws" and n: "n \<in> set (plan_nodes (rc_plan c))" "pn_wave n = w"
    and d: "d \<in> set (pn_dependencies n)"
  obtains m where "m \<in> set (plan_nodes (rc_plan c))" "pn_id m = d" "pn_wave m < w"
    "node_succeeded d (dget (rs_phases st) d) (history Scope_node d (trace c st)) (rs_manifests st)"
proof -
  obtain m where m: "m \<in> set (plan_nodes (rc_plan c))" "pn_id m = d" "pn_wave m < w"
    using validated_plan(3) [OF valid n(1) d] n(2) by blast
  moreover have "pn_wave m \<in> set (plan_waves (rc_plan c))" using m(1) by (simp add: plan_waves_props)
  with control_shape_past [OF _ this m(3)] progress_invD(2) [OF inv]
  have "place (rs_control st) (pn_wave m) = Past" by (simp only: ctl)
  with progress_invD(3) [OF inv m(1)] m(2) have
    "node_succeeded d (dget (rs_phases st) d) (history Scope_node d (trace c st)) (rs_manifests st)" by simp
  ultimately show thesis by (rule that)
qed

lemma node_succeeded_entry:
  "node_succeeded i ph (history Scope_node i tr) ms \<Longrightarrow> (Scope_node, i, SUCCEEDED) \<in> set tr"
  using history_member [of Scope_node SUCCEEDED i tr] by (auto simp: node_succeeded_def)

subsection \<open>Steps of a node\<close>

lemma history_node_other:
  "history sc j (map (\<lambda>s. (Scope_node, i, s)) ss) = (if sc = Scope_node \<and> j = i then ss else [])"
  by (induction ss) auto

lemma progress_node_step:
  assumes inv: "progress_inv c st" and valid: "validate_physical_plan (rc_plan c) = Inr ()"
    and ctl: "rs_control st = In_Wave w ws" and n: "n \<in> set (plan_nodes (rc_plan c))" "pn_wave n = w"
    and st': "trace c st' = trace c st @ map (\<lambda>s. (Scope_node, pn_id n, s)) ss"
      "rs_phases st' = dput (pn_id n) ph (rs_phases st)" "rs_control st' = rs_control st"
      "rs_manifests st' = rs_manifests st" "emits c st' = emits c st"
    and ph: "phase_history (pn_id n) (Some ph) (history Scope_node (pn_id n) (trace c st) @ ss)"
  shows "progress_inv c st'"
proof -
  note d = progress_invD [OF inv]
  have notin: "w \<notin> set ws"
    using d(2) plan_waves_props(2) [of "rc_plan c"] by (auto simp: ctl)
  have node: "node_inv (place (rs_control st') (pn_wave m)) (pn_id m) (dget (rs_phases st') (pn_id m))
      (history Scope_node (pn_id m) (trace c st')) (rs_manifests st')"
    if m: "m \<in> set (plan_nodes (rc_plan c))" for m
  proof (cases "pn_id m = pn_id n")
    case True
    with m n validated_plan(1) [OF valid] have "m = n" by (auto simp: distinct_map inj_on_def)
    with ph notin n show ?thesis by (simp add: st' ctl history_node_other)
  next
    case False
    with d(3) [OF m] show ?thesis by (simp add: st' history_node_other)
  qed
  have "ordered_starts (rc_plan c) (trace c st')"
    unfolding st'(1)
  proof (rule ordered_starts_append [OF d(6)], intro ballI impI)
    fix e m dd
    assume e: "e \<in> set (map (\<lambda>s. (Scope_node, pn_id n, s)) ss)" "m \<in> set (plan_nodes (rc_plan c))"
      "e = (Scope_node, pn_id m, RUNNING)" "dd \<in> set (pn_dependencies m)"
    then have "m = n" using n validated_plan(1) [OF valid] by (auto simp: distinct_map inj_on_def)
    with e(4) obtain m' where
      "node_succeeded dd (dget (rs_phases st) dd) (history Scope_node dd (trace c st)) (rs_manifests st)"
      using current_inputs_succeeded [OF inv valid ctl n] by blast
    then show "(Scope_node, dd, SUCCEEDED) \<in> set (trace c st)" by (rule node_succeeded_entry)
  qed
  then show ?thesis using d(1,2,4,5) node
    by (simp add: progress_inv_def st' history_node_other)
qed

lemma progress_quiet:
  assumes "progress_inv c st" "trace c st' = trace c st" "rs_phases st' = rs_phases st"
    "rs_control st' = rs_control st" "rs_manifests st' = rs_manifests st" "emits c st' = emits c st"
  shows "progress_inv c st'"
  using assms by (simp add: progress_inv_def)

lemma current_node_Some:
  assumes "current_node c st i = Some n"
  obtains w ws where "rs_control st = In_Wave w ws" "n \<in> set (plan_nodes (rc_plan c))" "pn_wave n = w" "pn_id n = i"
proof -
  obtain w ws where ctl: "rs_control st = In_Wave w ws" and "List.find (\<lambda>n. pn_id n = i) (wave_nodes (rc_plan c) w) = Some n"
    using assms by (auto simp: current_node_def split: control.splits)
  then have "n \<in> set (wave_nodes (rc_plan c) w)" "pn_id n = i" by (auto simp: find_Some_iff)
  with ctl show thesis by (intro that) (auto simp: wave_nodes_set)
qed

lemma node_finished_fields [simp]:
  "emits c (node_finished i s code t m diag st) = emits c st"
  "rs_control (node_finished i s code t m diag st) = rs_control st"
  "rs_manifests (node_finished i s code t m diag st) = rs_manifests st"
  "rs_tables (node_finished i s code t m diag st) = rs_tables st"
  "rs_remaining (node_finished i s code t m diag st) = rs_remaining st"
  "rs_budget (node_finished i s code t m diag st) = rs_budget st"
  "rs_late (node_finished i s code t m diag st) = rs_late st"
  "rs_cleanups (node_finished i s code t m diag st) = rs_cleanups st"
  "rs_cancel (node_finished i s code t m diag st) = rs_cancel st"
  "rs_outer (node_finished i s code t m diag st) = rs_outer st"
  "rs_phases (node_finished i s code t m diag st) = dput i (N_Finished
     \<lparr>no_node_id = i, no_state = s, no_table = t, no_manifest = m, no_diagnostic_code = diag\<rparr>) (rs_phases st)"
  "emits c st \<Longrightarrow> trace c (node_finished i s code t m diag st) = trace c st @ [(Scope_node, i, s)]"
  by (simp_all add: node_finished_def)

text \<open>A step that ends a current node.\<close>

definition ends_node :: "run_config \<Rightarrow> physical_node \<Rightarrow> run_state \<Rightarrow> run_state \<Rightarrow> execution_state \<Rightarrow> bool" where
  "ends_node c n st st' s \<longleftrightarrow>
     trace c st' = trace c st @ [(Scope_node, pn_id n, s)]
     \<and> (\<exists>oc. rs_phases st' = dput (pn_id n) (N_Finished oc) (rs_phases st) \<and> no_node_id oc = pn_id n \<and> no_state oc = s
          \<and> (if s = SUCCEEDED then no_table oc \<noteq> None \<and> no_manifest oc \<noteq> None else no_table oc = None \<and> no_manifest oc = None))
     \<and> rs_control st' = rs_control st \<and> rs_manifests st' = rs_manifests st \<and> emits c st' = emits c st"

text \<open>Quiet changes before the end do not matter.\<close>

lemma ends_node_after:
  assumes "ends_node c n st1 st' s" "trace c st1 = trace c st" "rs_phases st1 = rs_phases st"
    "rs_control st1 = rs_control st" "rs_manifests st1 = rs_manifests st" "emits c st1 = emits c st"
  shows "ends_node c n st st' s"
  using assms by (simp add: ends_node_def)

lemma ends_node_finished:
  assumes "emits c st" "if s = SUCCEEDED then t \<noteq> None \<and> m \<noteq> None else t = None \<and> m = None"
  shows "ends_node c n st (node_finished (pn_id n) s code t m diag st) s"
  unfolding ends_node_def using assms
  by (simp add: exI [of _ "\<lparr>no_node_id = pn_id n, no_state = s, no_table = t, no_manifest = m, no_diagnostic_code = diag\<rparr>"])

lemma ends_node_cancelled: "emits c st \<Longrightarrow> ends_node c n st (node_cancelled n st) CANCELLED"
  unfolding node_cancelled_def by (rule ends_node_after, rule ends_node_finished) simp_all

lemma ends_node_timed_out: "emits c st \<Longrightarrow> ends_node c n st (node_timed_out n st) TIMED_OUT"
  unfolding node_timed_out_def by (rule ends_node_after, rule ends_node_finished) simp_all

lemma ends_node_failed: "emits c st \<Longrightarrow> ends_node c n st (node_failed n e st) FAILED"
  unfolding node_failed_def Let_def by (rule ends_node_after, rule ends_node_finished) simp_all

lemma ends_node_complete:
  assumes "emits c st"
  shows "\<exists>s \<in> set (STATE_TRANSITIONS RUNNING). ends_node c n st (complete_node c n r st) s"
proof (cases r)
  case (Inr tm)
  obtain t m where tm: "tm = (t, m)" by (cases tm)
  show ?thesis
  proof (cases "rs_cancel st")
    case True
    have "ends_node c n (release_node c (pn_id n) st) (node_cancelled n (release_node c (pn_id n) st)) CANCELLED"
      using assms by (intro ends_node_cancelled) simp
    then have "ends_node c n st (node_cancelled n (release_node c (pn_id n) st)) CANCELLED"
      by (rule ends_node_after) simp_all
    with True show ?thesis by (intro bexI [of _ CANCELLED]) (simp_all add: complete_node_def Inr tm)
  next
    case False
    with assms show ?thesis
      by (intro bexI [of _ SUCCEEDED]) (simp_all add: complete_node_def Inr tm ends_node_finished)
  qed
next
  case (Inl e)
  then show ?thesis
    using ends_node_cancelled [OF assms, of n] ends_node_timed_out [OF assms, of n] ends_node_failed [OF assms, of n e]
    by (auto simp: complete_node_def)
qed

lemma ends_node_abandon:
  assumes "emits c st"
  shows "\<exists>s \<in> set (STATE_TRANSITIONS RUNNING). ends_node c n st (abandon_node c n x st) s"
proof -
  obtain e st1 where h: "handoff c n x st = (e, st1)" by (cases "handoff c n x st")
  note q = handoff_quiet [OF h]
  have em: "emits c st1" using q(2) assms by simp
  show ?thesis
  proof (cases e)
    case None
    from ends_node_after [OF ends_node_cancelled [OF em, of n] q(1,3,4,5,2)] show ?thesis
      by (intro bexI [of _ CANCELLED]) (simp_all add: abandon_node_def h None)
  next
    case (Some f)
    from ends_node_after [OF ends_node_failed [OF em, of n f] q(1,3,4,5,2)] show ?thesis
      by (intro bexI [of _ FAILED]) (simp_all add: abandon_node_def h Some)
  qed
qed

lemma ends_node_expire:
  assumes "emits c st"
  shows "\<exists>s \<in> set (STATE_TRANSITIONS RUNNING). ends_node c n st (expire_node c n x st) s"
proof -
  obtain e st1 where h: "handoff c n x (st\<lparr>rs_cancel := True\<rparr>) = (e, st1)" by (cases "handoff c n x (st\<lparr>rs_cancel := True\<rparr>)")
  note q = handoff_quiet [OF h]
  have q': "trace c st1 = trace c st" "rs_phases st1 = rs_phases st" "rs_control st1 = rs_control st"
    "rs_manifests st1 = rs_manifests st" "emits c st1 = emits c st" using q by simp_all
  have em: "emits c st1" using q'(5) assms by simp
  show ?thesis
  proof (cases e)
    case None
    from ends_node_after [OF ends_node_timed_out [OF em, of n] q'] show ?thesis
      by (intro bexI [of _ TIMED_OUT]) (simp_all add: expire_node_def h None)
  next
    case (Some f)
    from ends_node_after [OF ends_node_failed [OF em, of n f] q'] show ?thesis
      by (intro bexI [of _ FAILED]) (simp_all add: expire_node_def h Some)
  qed
qed

lemma progress_ends_node:
  assumes inv: "progress_inv c st" and valid: "validate_physical_plan (rc_plan c) = Inr ()"
    and n: "current_node c st i = Some n"
    and ph: "dget (rs_phases st) i = Some p" "p = N_Ready \<and> s = CANCELLED \<or> (\<exists>x. p = N_Running x) \<and> s \<in> set (STATE_TRANSITIONS RUNNING)"
    and ends: "ends_node c n st st' s"
  shows "progress_inv c st'"
proof -
  obtain w ws where ctl: "rs_control st = In_Wave w ws" and n': "n \<in> set (plan_nodes (rc_plan c))" "pn_wave n = w" "pn_id n = i"
    by (rule current_node_Some [OF n])
  have "w \<notin> set ws" using progress_invD(2) [OF inv] plan_waves_props(2) [of "rc_plan c"] by (auto simp: ctl)
  with progress_invD(3) [OF inv n'(1)] ph(1) n' have
    h: "phase_history i (Some p) (history Scope_node i (trace c st))" by (simp add: ctl)
  obtain oc where oc: "rs_phases st' = dput (pn_id n) (N_Finished oc) (rs_phases st)" "no_node_id oc = pn_id n" "no_state oc = s"
    "if s = SUCCEEDED then no_table oc \<noteq> None \<and> no_manifest oc \<noteq> None else no_table oc = None \<and> no_manifest oc = None"
    and tr: "trace c st' = trace c st @ map (\<lambda>s. (Scope_node, pn_id n, s)) [s]"
    and rest: "rs_control st' = rs_control st" "rs_manifests st' = rs_manifests st" "emits c st' = emits c st"
    using ends by (auto simp: ends_node_def)
  have "phase_history (pn_id n) (Some (N_Finished oc)) (history Scope_node (pn_id n) (trace c st) @ [s])"
    using h ph(2) oc(2-4) n'(3) by auto
  from progress_node_step [OF inv valid ctl n'(1,2) tr oc(1) rest this] show ?thesis .
qed

lemma progress_begin_node:
  assumes inv: "progress_inv c st" and valid: "validate_physical_plan (rc_plan c) = Inr ()"
    and n: "current_node c st i = Some n" and ph: "dget (rs_phases st) i = None"
  shows "progress_inv c (begin_node n st)"
proof -
  obtain w ws where ctl: "rs_control st = In_Wave w ws" and n': "n \<in> set (plan_nodes (rc_plan c))" "pn_wave n = w" "pn_id n = i"
    by (rule current_node_Some [OF n])
  have "w \<notin> set ws" using progress_invD(2) [OF inv] plan_waves_props(2) [of "rc_plan c"] by (auto simp: ctl)
  with progress_invD(3) [OF inv n'(1)] ph n' have h: "history Scope_node (pn_id n) (trace c st) = []" by (simp add: ctl)
  show ?thesis
    by (rule progress_node_step [OF inv valid ctl n'(1,2), of _ "[READY]" N_Ready])
      (use progress_invD(1) [OF inv] h in \<open>simp_all add: begin_node_def\<close>)
qed

lemma progress_start_node:
  assumes inv: "progress_inv c st" and valid: "validate_physical_plan (rc_plan c) = Inr ()"
    and n: "current_node c st i = Some n" and ph: "dget (rs_phases st) i = Some N_Ready"
  shows "progress_inv c (start_node n st)"
proof (cases "rs_cancel st")
  case True
  then show ?thesis
    using progress_ends_node [OF inv valid n ph _ ends_node_cancelled] progress_invD(1) [OF inv]
    by (simp add: start_node_def)
next
  case False
  obtain w ws where ctl: "rs_control st = In_Wave w ws" and n': "n \<in> set (plan_nodes (rc_plan c))" "pn_wave n = w" "pn_id n = i"
    by (rule current_node_Some [OF n])
  have "w \<notin> set ws" using progress_invD(2) [OF inv] plan_waves_props(2) [of "rc_plan c"] by (auto simp: ctl)
  with progress_invD(3) [OF inv n'(1)] ph n' have h: "history Scope_node (pn_id n) (trace c st) = [READY]" by (simp add: ctl)
  let ?st = "emit_event Scope_node (pn_id n) RUNNING ''NODE_STARTED'' st"
  have em: "emits c st" by (rule progress_invD(1) [OF inv])
  show ?thesis
  proof (cases "\<forall>d \<in> set (pn_dependencies n). dget (rs_tables ?st) d \<noteq> None")
    case True
    show ?thesis
      by (rule progress_node_step [OF inv valid ctl n'(1,2), of _ "[RUNNING]" "N_Running X_Created"])
        (use em h True \<open>\<not> rs_cancel st\<close> in \<open>simp_all add: start_node_def\<close>)
  next
    case missing: False
    have "emits c ?st" using em by simp
    from ends_node_failed [OF this, of n KeyError] obtain oc where
      f: "trace c (node_failed n KeyError ?st) = trace c ?st @ [(Scope_node, pn_id n, FAILED)]"
      "rs_phases (node_failed n KeyError ?st) = dput (pn_id n) (N_Finished oc) (rs_phases ?st)"
      "no_node_id oc = pn_id n" "no_state oc = FAILED" "no_table oc = None" "no_manifest oc = None"
      "rs_control (node_failed n KeyError ?st) = rs_control ?st" "rs_manifests (node_failed n KeyError ?st) = rs_manifests ?st"
      "emits c (node_failed n KeyError ?st) = emits c ?st"
      by (auto simp: ends_node_def)
    have "start_node n st = node_failed n KeyError ?st"
      using missing \<open>\<not> rs_cancel st\<close> by (auto simp: start_node_def Let_def)
    moreover have "progress_inv c (node_failed n KeyError ?st)"
      by (rule progress_node_step [OF inv valid ctl n'(1,2), of _ "[RUNNING, FAILED]" "N_Finished oc"])
        (use em h f in simp_all)
    ultimately show ?thesis by simp
  qed
qed

lemma progress_execution:
  assumes inv: "progress_inv c st" and valid: "validate_physical_plan (rc_plan c) = Inr ()"
    and n: "current_node c st i = Some n" and ph: "dget (rs_phases st) i = Some (N_Running x)"
    and st': "rs_phases st' = rs_phases st" "trace c st' = trace c st" "rs_control st' = rs_control st"
      "rs_manifests st' = rs_manifests st" "emits c st' = emits c st"
  shows "progress_inv c (st'\<lparr>rs_phases := dput i (N_Running x') (rs_phases st')\<rparr>)"
proof -
  obtain w ws where ctl: "rs_control st = In_Wave w ws" and n': "n \<in> set (plan_nodes (rc_plan c))" "pn_wave n = w" "pn_id n = i"
    by (rule current_node_Some [OF n])
  have "w \<notin> set ws" using progress_invD(2) [OF inv] plan_waves_props(2) [of "rc_plan c"] by (auto simp: ctl)
  with progress_invD(3) [OF inv n'(1)] ph n' have h: "history Scope_node (pn_id n) (trace c st) = [READY, RUNNING]" by (simp add: ctl)
  show ?thesis
    by (rule progress_node_step [OF inv valid ctl n'(1,2), of _ "[]" "N_Running x'"])
      (use st' h n'(3) in simp_all)
qed

subsection \<open>Steps of the wave loop\<close>

lemma skip_no_start: "s \<noteq> RUNNING \<Longrightarrow> (sc, i, RUNNING) \<notin> set (concat (map (skip_entries p s) ws))"
  by (auto simp: skip_entries_def)

text \<open>The remaining waves are closed with one terminal state.\<close>

lemma progress_terminalize:
  assumes valid: "validate_physical_plan (rc_plan c) = Inr ()"
    and st: "emits c st" "distinct ws" "run_inv (Closing t code) (history Scope_run (rc_run_id c) (trace c st))"
      "ordered_starts (rc_plan c) (trace c st)" "t \<noteq> SUCCEEDED" "s \<in> {CANCELLED, SKIPPED}"
    and nodes: "\<And>n. n \<in> set (plan_nodes (rc_plan c)) \<Longrightarrow>
        (if pn_wave n \<in> set ws then dget (rs_phases st) (pn_id n) = None \<and> history Scope_node (pn_id n) (trace c st) = []
         else node_ended (pn_id n) (dget (rs_phases st) (pn_id n)) (history Scope_node (pn_id n) (trace c st)))"
    and stages: "\<And>w. w \<in> set (plan_waves (rc_plan c)) \<Longrightarrow>
        (if w \<in> set ws then history Scope_stage (stage_id w) (trace c st) = []
         else stage_inv (Over t) (history Scope_stage (stage_id w) (trace c st)))"
  shows "progress_inv c ((terminalize_waves (rc_plan c) s ws st)\<lparr>rs_control := Closing t code\<rparr>)"
proof -
  let ?st = "terminalize_waves (rc_plan c) s ws st"
  have tr: "trace c ?st = trace c st @ concat (map (skip_entries (rc_plan c) s) ws)" and em: "emits c ?st"
    using terminalize_waves_trace [OF st(1)] by blast+
  have "node_inv (Over t) (pn_id n) (dget (rs_phases ?st) (pn_id n)) (history Scope_node (pn_id n) (trace c ?st)) (rs_manifests ?st)"
    if "n \<in> set (plan_nodes (rc_plan c))" for n
    using nodes [OF that] st(5,6) skip_history_node [OF validated_plan(1) [OF valid] that st(2)]
    by (auto simp: tr node_ended_def split: if_splits)
  moreover have "stage_inv (Over t) (history Scope_stage (stage_id w) (trace c ?st))" if "w \<in> set (plan_waves (rc_plan c))" for w
    using stages [OF that] st(5,6) by (auto simp: tr skip_history_stage [OF st(2)] split: if_splits)
  moreover have "ordered_starts (rc_plan c) (trace c ?st)"
    unfolding tr using st(4,6) skip_no_start [of s] by (intro ordered_starts_append) auto
  ultimately show ?thesis
    using st(3) em by (simp add: progress_inv_def tr skip_history_run)
qed

lemma node_succeeded_ended: "node_succeeded i ph h ms \<Longrightarrow> node_ended i ph h"
  by (auto simp: node_succeeded_def node_ended_def)

lemma progress_begin_wave:
  assumes inv: "progress_inv c st" and valid: "validate_physical_plan (rc_plan c) = Inr ()"
    and ctl: "rs_control st = Next_Wave (w # ws)"
  shows "progress_inv c (begin_wave c w ws st)"
proof -
  note d = progress_invD [OF inv]
  obtain pre where pre: "plan_waves (rc_plan c) = pre @ w # ws" using d(2) by (auto simp: ctl)
  then have dist: "distinct (w # ws)" using plan_waves_props(2) [of "rc_plan c"] by simp
  show ?thesis
  proof (cases "rs_cancel st")
    case True
    have "progress_inv c ((terminalize_waves (rc_plan c) CANCELLED (w # ws) st)\<lparr>rs_control := Closing CANCELLED (Some ''RUN_CANCELLED'')\<rparr>)"
    proof (rule progress_terminalize [OF valid d(1) dist])
      fix n assume n: "n \<in> set (plan_nodes (rc_plan c))"
      from d(3) [OF n] show "if pn_wave n \<in> set (w # ws)
          then dget (rs_phases st) (pn_id n) = None \<and> history Scope_node (pn_id n) (trace c st) = []
          else node_ended (pn_id n) (dget (rs_phases st) (pn_id n)) (history Scope_node (pn_id n) (trace c st))"
        by (auto simp: ctl node_succeeded_ended split: if_splits)
    next
      fix v assume v: "v \<in> set (plan_waves (rc_plan c))"
      from d(4) [OF v] show "if v \<in> set (w # ws) then history Scope_stage (stage_id v) (trace c st) = []
          else stage_inv (Over CANCELLED) (history Scope_stage (stage_id v) (trace c st))"
        by (auto simp: ctl split: if_splits)
    qed (use d(5,6) in \<open>auto simp: ctl\<close>)
    with True show ?thesis by (simp add: begin_wave_def)
  next
    case False
    let ?st = "(emit_event Scope_stage (stage_id w) RUNNING ''STAGE_STARTED''
             (emit_event Scope_stage (stage_id w) READY ''STAGE_READY'' st))\<lparr>rs_control := In_Wave w ws\<rparr>"
    have tr: "trace c ?st = trace c st @ [(Scope_stage, stage_id w, READY), (Scope_stage, stage_id w, RUNNING)]"
      using d(1) by simp
    have "node_inv (place (In_Wave w ws) (pn_wave n)) (pn_id n) (dget (rs_phases ?st) (pn_id n))
        (history Scope_node (pn_id n) (trace c ?st)) (rs_manifests ?st)" if "n \<in> set (plan_nodes (rc_plan c))" for n
      using d(3) [OF that] dist unfolding tr by (auto simp: ctl split: if_splits)
    moreover have "stage_inv (place (In_Wave w ws) v) (history Scope_stage (stage_id v) (trace c ?st))"
      if "v \<in> set (plan_waves (rc_plan c))" for v
      using d(4) [OF that] dist unfolding tr by (auto simp: ctl split: if_splits)
    moreover have "ordered_starts (rc_plan c) (trace c ?st)"
      unfolding tr using d(6) by (intro ordered_starts_append) auto
    ultimately have "progress_inv c ?st"
      using d(1,5) pre unfolding progress_inv_def tr by (simp add: ctl)
    with False show ?thesis by (simp add: begin_wave_def)
  qed
qed

lemma progress_no_waves:
  assumes inv: "progress_inv c st" and ctl: "rs_control st = Next_Wave []"
  shows "progress_inv c (st\<lparr>rs_control := Closing SUCCEEDED None\<rparr>)"
  using inv by (auto simp: progress_inv_def ctl node_succeeded_ended)

subsection \<open>The end of a wave\<close>

lemma record_outcome_fields:
  assumes "record_outcome oc (st, rel) = (st', rel')"
  shows "trace c st' = trace c st" "emits c st' = emits c st" "rs_phases st' = rs_phases st"
    "rs_control st' = rs_control st" "rs_cancel st' = rs_cancel st" "rs_budget st' = rs_budget st"
    "rs_remaining st' = rs_remaining st" "rs_late st' = rs_late st" "rs_cleanups st' = rs_cleanups st"
    "rs_outer st' = rs_outer st"
    "dget (rs_manifests st) i \<noteq> None \<or> (i = no_node_id oc \<and> no_table oc \<noteq> None \<and> no_manifest oc \<noteq> None) \<Longrightarrow>
       dget (rs_manifests st') i \<noteq> None"
  using assms by (auto simp: record_outcome_def Let_def split: option.splits if_splits)

lemma fold_record_outcome:
  "fold record_outcome ocs (st, rel) = (st', rel') \<Longrightarrow>
   trace c st' = trace c st \<and> emits c st' = emits c st \<and> rs_phases st' = rs_phases st
   \<and> rs_control st' = rs_control st \<and> rs_cancel st' = rs_cancel st \<and> rs_budget st' = rs_budget st
   \<and> rs_remaining st' = rs_remaining st \<and> rs_late st' = rs_late st \<and> rs_cleanups st' = rs_cleanups st
   \<and> rs_outer st' = rs_outer st
   \<and> (\<forall>i. dget (rs_manifests st) i \<noteq> None \<or> (\<exists>oc \<in> set ocs. i = no_node_id oc \<and> no_table oc \<noteq> None \<and> no_manifest oc \<noteq> None)
        \<longrightarrow> dget (rs_manifests st') i \<noteq> None)"
proof (induction ocs arbitrary: st rel)
  case (Cons oc ocs)
  obtain st1 rel1 where one: "record_outcome oc (st, rel) = (st1, rel1)" by (cases "record_outcome oc (st, rel)")
  note f = record_outcome_fields [OF one]
  from Cons.IH [of st1 rel1] Cons.prems one have ih: "trace c st' = trace c st1 \<and> emits c st' = emits c st1 \<and> rs_phases st' = rs_phases st1
   \<and> rs_control st' = rs_control st1 \<and> rs_cancel st' = rs_cancel st1 \<and> rs_budget st' = rs_budget st1
   \<and> rs_remaining st' = rs_remaining st1 \<and> rs_late st' = rs_late st1 \<and> rs_cleanups st' = rs_cleanups st1
   \<and> rs_outer st' = rs_outer st1
   \<and> (\<forall>i. dget (rs_manifests st1) i \<noteq> None \<or> (\<exists>oc \<in> set ocs. i = no_node_id oc \<and> no_table oc \<noteq> None \<and> no_manifest oc \<noteq> None)
        \<longrightarrow> dget (rs_manifests st') i \<noteq> None)" by simp
  have "dget (rs_manifests st') i \<noteq> None"
    if "dget (rs_manifests st) i \<noteq> None \<or> (\<exists>oc \<in> set (oc # ocs). i = no_node_id oc \<and> no_table oc \<noteq> None \<and> no_manifest oc \<noteq> None)" for i
  proof -
    have "dget (rs_manifests st1) i \<noteq> None \<or> (\<exists>oc \<in> set ocs. i = no_node_id oc \<and> no_table oc \<noteq> None \<and> no_manifest oc \<noteq> None)"
      using that f(11) [of i] by (simp only: list.set) blast
    with ih show ?thesis by blast
  qed
  with ih f(1-10) show ?case by simp
qed simp

lemma fold_release_node_fields [simp]:
  "trace c (fold (release_node c') is st) = trace c st" "emits c (fold (release_node c') is st) = emits c st"
  "rs_phases (fold (release_node c') is st) = rs_phases st" "rs_control (fold (release_node c') is st) = rs_control st"
  "rs_manifests (fold (release_node c') is st) = rs_manifests st" "rs_cancel (fold (release_node c') is st) = rs_cancel st"
  "rs_tables (fold (release_node c') is st) = rs_tables st" "rs_remaining (fold (release_node c') is st) = rs_remaining st"
  "rs_outer (fold (release_node c') is st) = rs_outer st" "rs_late (fold (release_node c') is st) = rs_late st"
  "rs_cleanups (fold (release_node c') is st) = rs_cleanups st"
  by (induction "is" arbitrary: st) simp_all

lemma fold_drop_table_fields [simp]:
  "trace c (fold (drop_table c') is st) = trace c st" "emits c (fold (drop_table c') is st) = emits c st"
  "rs_phases (fold (drop_table c') is st) = rs_phases st" "rs_control (fold (drop_table c') is st) = rs_control st"
  "rs_manifests (fold (drop_table c') is st) = rs_manifests st" "rs_cancel (fold (drop_table c') is st) = rs_cancel st"
  "rs_remaining (fold (drop_table c') is st) = rs_remaining st"
  "rs_outer (fold (drop_table c') is st) = rs_outer st" "rs_late (fold (drop_table c') is st) = rs_late st"
  "rs_cleanups (fold (drop_table c') is st) = rs_cleanups st"
  by (induction "is" arbitrary: st) (simp_all add: drop_table_def)

lemma release_consumed_tables_fields [simp]:
  "trace c (release_consumed_tables c' ns st) = trace c st" "emits c (release_consumed_tables c' ns st) = emits c st"
  "rs_phases (release_consumed_tables c' ns st) = rs_phases st" "rs_control (release_consumed_tables c' ns st) = rs_control st"
  "rs_manifests (release_consumed_tables c' ns st) = rs_manifests st" "rs_cancel (release_consumed_tables c' ns st) = rs_cancel st"
  "rs_outer (release_consumed_tables c' ns st) = rs_outer st" "rs_late (release_consumed_tables c' ns st) = rs_late st"
  "rs_cleanups (release_consumed_tables c' ns st) = rs_cleanups st"
  by (simp_all add: release_consumed_tables_def Let_def)

lemma those_Some: "those xs = Some ys \<Longrightarrow> xs = map Some ys"
  by (induction xs arbitrary: ys) (auto split: option.splits)

lemma wave_outcomes_phase:
  assumes "wave_outcomes p w st = Some ocs"
  shows "n \<in> set (plan_nodes p) \<Longrightarrow> pn_wave n = w \<Longrightarrow> \<exists>oc \<in> set ocs. dget (rs_phases st) (pn_id n) = Some (N_Finished oc)"
    and "oc \<in> set ocs \<Longrightarrow> \<exists>n \<in> set (plan_nodes p). pn_wave n = w \<and> dget (rs_phases st) (pn_id n) = Some (N_Finished oc)"
proof -
  let ?f = "\<lambda>n. case dget (rs_phases st) (pn_id n) of Some (N_Finished oc) \<Rightarrow> Some oc | _ \<Rightarrow> None"
  have m: "map ?f (wave_nodes p w) = map Some ocs" using those_Some [OF assms [unfolded wave_outcomes_def]] by simp
  have fin: "dget (rs_phases st) (pn_id n) = Some (N_Finished oc)" if "?f n = Some oc" for n oc
    using that by (auto split: option.splits node_phase.splits)
  show "\<exists>oc \<in> set ocs. dget (rs_phases st) (pn_id n) = Some (N_Finished oc)" if "n \<in> set (plan_nodes p)" "pn_wave n = w"
  proof -
    have "?f n \<in> set (map Some ocs)" using that unfolding m [symmetric] by (simp add: wave_nodes_set)
    then show ?thesis using fin by auto
  qed
  show "\<exists>n \<in> set (plan_nodes p). pn_wave n = w \<and> dget (rs_phases st) (pn_id n) = Some (N_Finished oc)" if "oc \<in> set ocs"
  proof -
    have "Some oc \<in> set (map ?f (wave_nodes p w))" unfolding m using that by simp
    then obtain n where "n \<in> set (wave_nodes p w)" "?f n = Some oc" by auto
    with fin show ?thesis by (auto simp: wave_nodes_set)
  qed
qed

lemma terminal_stage_state_cases:
  "terminal_stage_state ocs \<in> {TIMED_OUT, FAILED, CANCELLED, SUCCEEDED}"
  "terminal_stage_state ocs = SUCCEEDED \<longleftrightarrow> (\<forall>oc \<in> set ocs. no_state oc \<notin> {TIMED_OUT, FAILED, CANCELLED})"
proof -
  show "terminal_stage_state ocs \<in> {TIMED_OUT, FAILED, CANCELLED, SUCCEEDED}"
    by (simp add: terminal_stage_state_def Let_def)
  have "terminal_stage_state ocs = SUCCEEDED \<longleftrightarrow> TIMED_OUT \<notin> no_state ` set ocs \<and> FAILED \<notin> no_state ` set ocs \<and> CANCELLED \<notin> no_state ` set ocs"
    by (simp add: terminal_stage_state_def Let_def)
  then show "terminal_stage_state ocs = SUCCEEDED \<longleftrightarrow> (\<forall>oc \<in> set ocs. no_state oc \<notin> {TIMED_OUT, FAILED, CANCELLED})"
    by (simp only: image_iff insert_iff empty_iff) (auto dest: sym)
qed

lemma progress_end_wave:
  assumes inv: "progress_inv c st" and valid: "validate_physical_plan (rc_plan c) = Inr ()"
    and ctl: "rs_control st = In_Wave w ws" and ocs: "wave_outcomes (rc_plan c) w st = Some ocs"
  shows "progress_inv c (end_wave c w ws ocs st)"
proof -
  note d = progress_invD [OF inv]
  obtain pre where pre: "plan_waves (rc_plan c) = pre @ w # ws" using d(2) by (auto simp: ctl)
  then have dist: "w \<notin> set ws" "distinct ws" using plan_waves_props(2) [of "rc_plan c"] by simp_all
  let ?s = "terminal_stage_state ocs"
  obtain st1 rel where one: "fold record_outcome ocs (st, []) = (st1, rel)" by (cases "fold record_outcome ocs (st, [])")
  note f = fold_record_outcome [OF one, of c]
  define st3 where "st3 = release_consumed_tables c (wave_nodes (rc_plan c) w) (fold (release_node c) rel st1)"
  define st4 where "st4 = emit_event Scope_stage (stage_id w) ?s (''STAGE_'' @ execution_state_value ?s) st3"
  have st4: "emits c st4" "rs_phases st4 = rs_phases st" "rs_control st4 = rs_control st"
    "trace c st4 = trace c st @ [(Scope_stage, stage_id w, ?s)]"
    using f d(1) by (simp_all add: st4_def st3_def)
  have mans: "dget (rs_manifests st4) i \<noteq> None"
    if "dget (rs_manifests st) i \<noteq> None \<or> (\<exists>oc \<in> set ocs. i = no_node_id oc \<and> no_table oc \<noteq> None \<and> no_manifest oc \<noteq> None)" for i
  proof -
    have "dget (rs_manifests st1) i \<noteq> None" using f that by blast
    then show ?thesis by (simp add: st4_def st3_def)
  qed
  have finished: "\<exists>oc \<in> set ocs. dget (rs_phases st) (pn_id n) = Some (N_Finished oc)
      \<and> phase_history (pn_id n) (Some (N_Finished oc)) (history Scope_node (pn_id n) (trace c st))"
    if n: "n \<in> set (plan_nodes (rc_plan c))" "pn_wave n = w" for n
    using wave_outcomes_phase(1) [OF ocs n] d(3) [OF n(1)] dist n(2) by (auto simp: ctl)
  have ordered: "ordered_starts (rc_plan c) (trace c st4)"
    unfolding st4(4) using d(6) by (intro ordered_starts_append) auto
  show ?thesis
  proof (cases "?s = SUCCEEDED")
    case True
    have "node_inv (place (Next_Wave ws) (pn_wave n)) (pn_id n) (dget (rs_phases st4) (pn_id n))
        (history Scope_node (pn_id n) (trace c st4)) (rs_manifests st4)" if n: "n \<in> set (plan_nodes (rc_plan c))" for n
    proof (cases "pn_wave n = w")
      case w: True
      from finished [OF n w] obtain oc where oc: "oc \<in> set ocs" "dget (rs_phases st) (pn_id n) = Some (N_Finished oc)"
        "phase_history (pn_id n) (Some (N_Finished oc)) (history Scope_node (pn_id n) (trace c st))" by blast
      have "no_state oc = SUCCEEDED" using terminal_stage_state_cases(2) [of ocs] True oc(1,3) by auto
      then have "dget (rs_manifests st4) (pn_id n) \<noteq> None" using oc by (intro mans) (auto intro: bexI [of _ oc])
      with oc \<open>no_state oc = SUCCEEDED\<close> w dist show ?thesis by (auto simp: node_succeeded_def st4)
    next
      case False
      with d(3) [OF n] mans [of "pn_id n"] show ?thesis by (auto simp: ctl st4 node_succeeded_def split: if_splits)
    qed
    moreover have "stage_inv (place (Next_Wave ws) v) (history Scope_stage (stage_id v) (trace c st4))"
      if "v \<in> set (plan_waves (rc_plan c))" for v
      using d(4) [OF that] dist True by (auto simp: ctl st4 split: if_splits)
    ultimately have "progress_inv c (st4\<lparr>rs_control := Next_Wave ws\<rparr>)"
      using ordered d(5) pre st4 by (auto simp: progress_inv_def ctl)
    with True show ?thesis by (simp add: end_wave_def one Let_def st4_def st3_def)
  next
    case False
    let ?t = "if ?s = CANCELLED then CANCELLED else SKIPPED"
    have "progress_inv c ((terminalize_waves (rc_plan c) ?t ws (st4\<lparr>rs_cancel := True\<rparr>))
        \<lparr>rs_control := Closing ?s (Some (stage_diagnostic ?s ocs))\<rparr>)"
    proof (rule progress_terminalize [OF valid])
      fix n assume n: "n \<in> set (plan_nodes (rc_plan c))"
      show "if pn_wave n \<in> set ws then dget (rs_phases (st4\<lparr>rs_cancel := True\<rparr>)) (pn_id n) = None
              \<and> history Scope_node (pn_id n) (trace c (st4\<lparr>rs_cancel := True\<rparr>)) = []
          else node_ended (pn_id n) (dget (rs_phases (st4\<lparr>rs_cancel := True\<rparr>)) (pn_id n))
              (history Scope_node (pn_id n) (trace c (st4\<lparr>rs_cancel := True\<rparr>)))"
      proof (cases "pn_wave n = w")
        case True
        with finished [OF n True] dist show ?thesis by (auto simp: st4 node_ended_def)
      next
        case False
        with d(3) [OF n] show ?thesis by (auto simp: ctl st4 node_succeeded_ended split: if_splits)
      qed
    next
      fix v assume v: "v \<in> set (plan_waves (rc_plan c))"
      from d(4) [OF v] dist terminal_stage_state_cases(1) [of ocs] False
      show "if v \<in> set ws then history Scope_stage (stage_id v) (trace c (st4\<lparr>rs_cancel := True\<rparr>)) = []
          else stage_inv (Over ?s) (history Scope_stage (stage_id v) (trace c (st4\<lparr>rs_cancel := True\<rparr>)))"
        by (auto simp: ctl st4 split: if_splits)
    qed (use False dist ordered d(5) st4 terminal_stage_state_cases(1) [of ocs] in \<open>auto simp: ctl\<close>)
    with False show ?thesis by (simp add: end_wave_def one Let_def st4_def st3_def)
  qed
qed

subsection \<open>The end of the run\<close>

lemma close_run_fields [simp]:
  "trace c (close_run c' st) = trace c st" "emits c (close_run c' st) = emits c st"
  "rs_phases (close_run c' st) = rs_phases st" "rs_control (close_run c' st) = rs_control st"
  "rs_manifests (close_run c' st) = rs_manifests st" "rs_cancel (close_run c' st) = rs_cancel st"
  "rs_late (close_run c' st) = rs_late st" "rs_cleanups (close_run c' st) = rs_cleanups st"
  "rs_remaining (close_run c' st) = rs_remaining st" "rs_outer (close_run c' st) = rs_outer st"
  by (simp_all add: close_run_def)

lemma progress_finish_run:
  assumes inv: "progress_inv c st" and ctl: "rs_control st = Closing s code"
  shows "progress_inv c (finish_run c s code st)"
proof -
  note d = progress_invD [OF inv]
  obtain s' code' where s': "(if s = SUCCEEDED \<and> rs_cancel st then (CANCELLED, Some ''RUN_CANCELLED'') else (s, code)) = (s', code')"
    by (cases "if s = SUCCEEDED \<and> rs_cancel st then (CANCELLED, Some ''RUN_CANCELLED'') else (s, code)")
  let ?st = "(close_run c (emit_event Scope_run (rc_run_id c) s' (''RUN_'' @ execution_state_value s') st))\<lparr>rs_control := Closed s' code'\<rparr>"
  have fin: "finish_run c s code st = ?st" unfolding finish_run_def s' by simp
  have tr: "trace c ?st = trace c st @ [(Scope_run, rc_run_id c, s')]" using d(1) by simp
  have t: "s' \<in> set (STATE_TRANSITIONS RUNNING)" "s' = SUCCEEDED \<Longrightarrow> s = SUCCEEDED"
    using s' d(5) by (auto simp: ctl split: if_splits)
  have "node_inv (Over s') (pn_id n) (dget (rs_phases ?st) (pn_id n)) (history Scope_node (pn_id n) (trace c ?st)) (rs_manifests ?st)"
    if "n \<in> set (plan_nodes (rc_plan c))" for n
    using d(3) [OF that] t(2) unfolding tr by (auto simp: ctl)
  moreover have "stage_inv (Over s') (history Scope_stage (stage_id w) (trace c ?st))" if "w \<in> set (plan_waves (rc_plan c))" for w
    using d(4) [OF that] t(2) unfolding tr by (auto simp: ctl)
  moreover have "ordered_starts (rc_plan c) (trace c ?st)" unfolding tr using d(6) by (intro ordered_starts_append) auto
  ultimately have "progress_inv c ?st"
    using d(1,5) t(1) unfolding progress_inv_def tr by (auto simp: ctl)
  then show ?thesis by (simp only: fin)
qed

definition finalize_entries :: "physical_plan \<Rightarrow> string list \<Rightarrow> string list \<Rightarrow> int \<Rightarrow> entry list" where
  "finalize_entries p nodes stages w =
     (if stage_id w \<in> set stages then [] else [(Scope_stage, stage_id w, CANCELLED)])
     @ map (\<lambda>n. (Scope_node, pn_id n, CANCELLED)) (filter (\<lambda>n. pn_id n \<notin> set nodes) (wave_nodes p w))"

lemma fold_finalize_node:
  "emits c st \<Longrightarrow> trace c (fold (finalize_node ts) ns st)
     = trace c st @ map (\<lambda>n. (Scope_node, pn_id n, CANCELLED)) (filter (\<lambda>n. pn_id n \<notin> set ts) ns)
   \<and> emits c (fold (finalize_node ts) ns st)"
  by (induction ns arbitrary: st) (simp_all add: finalize_node_def)

lemma fold_finalize_node_fields [simp]:
  "rs_phases (fold (finalize_node ts) ns st) = rs_phases st" "rs_control (fold (finalize_node ts) ns st) = rs_control st"
  "rs_manifests (fold (finalize_node ts) ns st) = rs_manifests st" "rs_budget (fold (finalize_node ts) ns st) = rs_budget st"
  "rs_late (fold (finalize_node ts) ns st) = rs_late st" "rs_cleanups (fold (finalize_node ts) ns st) = rs_cleanups st"
  by (induction ns arbitrary: st) (simp_all add: finalize_node_def)

lemma fold_finalize_wave_fields [simp]:
  "rs_phases (fold (finalize_wave p evs) ws st) = rs_phases st" "rs_control (fold (finalize_wave p evs) ws st) = rs_control st"
  "rs_manifests (fold (finalize_wave p evs) ws st) = rs_manifests st" "rs_budget (fold (finalize_wave p evs) ws st) = rs_budget st"
  "rs_late (fold (finalize_wave p evs) ws st) = rs_late st" "rs_cleanups (fold (finalize_wave p evs) ws st) = rs_cleanups st"
  by (induction ws arbitrary: st) (simp_all add: finalize_wave_def)

lemma fold_finalize_wave:
  "emits c st \<Longrightarrow> trace c (fold (finalize_wave p evs) ws st)
     = trace c st @ concat (map (finalize_entries p (terminal_ids Scope_node evs) (terminal_ids Scope_stage evs)) ws)
   \<and> emits c (fold (finalize_wave p evs) ws st)"
proof (induction ws arbitrary: st)
  case (Cons w ws)
  let ?st = "if stage_id w \<in> set (terminal_ids Scope_stage evs) then st
      else emit_event Scope_stage (stage_id w) CANCELLED ''STAGE_CANCELLED'' st"
  have "emits c ?st" using Cons.prems by simp
  from fold_finalize_node [OF this, of "terminal_ids Scope_node evs" "wave_nodes p w"] Cons.prems
  have "trace c (finalize_wave p evs w st) = trace c st @ finalize_entries p (terminal_ids Scope_node evs) (terminal_ids Scope_stage evs) w
      \<and> emits c (finalize_wave p evs w st)"
    by (simp add: finalize_wave_def finalize_entries_def)
  with Cons.IH [of "finalize_wave p evs w st"] show ?case by simp
qed simp

lemma finalize_history_node:
  assumes "distinct (map pn_id (plan_nodes p))" "n \<in> set (plan_nodes p)" "distinct ws"
  shows "history Scope_node (pn_id n) (concat (map (finalize_entries p ts ss) ws))
    = (if pn_wave n \<in> set ws \<and> pn_id n \<notin> set ts then [CANCELLED] else [])"
proof -
  have one: "history Scope_node (pn_id n) (finalize_entries p ts ss w) = (if pn_wave n = w \<and> pn_id n \<notin> set ts then [CANCELLED] else [])" for w
  proof -
    have "history Scope_node (pn_id n) (finalize_entries p ts ss w)
        = map (\<lambda>_. CANCELLED) (filter (\<lambda>m. pn_id m \<notin> set ts) (filter (\<lambda>m. pn_id m = pn_id n) (wave_nodes p w)))"
      by (simp add: finalize_entries_def history_def filter_map comp_def conj_commute)
    then show ?thesis by (simp add: wave_nodes_filter [OF assms(1,2)])
  qed
  show ?thesis using assms(3) by (induction ws) (auto simp: one)
qed

lemma history_node_map: "sc \<noteq> Scope_node \<Longrightarrow> history sc i (map (\<lambda>n. (Scope_node, f n, s)) ns) = []"
  by (induction ns) simp_all

lemma finalize_history_stage:
  "distinct ws \<Longrightarrow> history Scope_stage (stage_id w) (concat (map (finalize_entries p ts ss) ws))
    = (if w \<in> set ws \<and> stage_id w \<notin> set ss then [CANCELLED] else [])"
  by (induction ws) (auto simp: finalize_entries_def history_node_map)

lemma finalize_history_run: "history Scope_run i (concat (map (finalize_entries p ts ss) ws)) = []"
  by (induction ws) (auto simp: finalize_entries_def history_node_map)

lemma terminal_ids_history:
  "scope \<noteq> Scope_run \<Longrightarrow>
     i \<in> set (terminal_ids scope (run_log c st)) \<longleftrightarrow> (\<exists>s \<in> set (history scope i (trace c st)). is_terminal s)"
  by (force simp: terminal_ids_def trace_def entry_of_def history_member)

lemma progress_finish_outer:
  assumes inv: "progress_inv c st" and valid: "validate_physical_plan (rc_plan c) = Inr ()"
    and quiet: "wave_quiet c st"
  shows "progress_inv c (finish_outer c st)"
proof -
  note d = progress_invD [OF inv]
  let ?p = "rc_plan c" and ?st0 = "st\<lparr>rs_cancel := True\<rparr>" and ?evs = "run_log c st"
  let ?st1 = "fold (finalize_wave ?p ?evs) (plan_waves ?p) ?st0"
  let ?ts = "terminal_ids Scope_node ?evs" and ?ss = "terminal_ids Scope_stage ?evs"
  have log: "run_log c ?st0 = ?evs" by (simp add: run_log_def)
  have run: "history Scope_run (rc_run_id c) (trace c st) = [READY, RUNNING]"
    using d(5) quiet by (cases "rs_control st") (simp_all add: wave_quiet_def)
  have tr1: "trace c ?st1 = trace c st @ concat (map (finalize_entries ?p ?ts ?ss) (plan_waves ?p))" and em1: "emits c ?st1"
    using fold_finalize_wave [of c ?st0 ?p ?evs "plan_waves ?p"] d(1) by simp_all
  have none: "\<not> (\<exists>e \<in> set ?evs. ev_scope e = Scope_run \<and> is_terminal (ev_state e))"
  proof
    assume "\<exists>e \<in> set ?evs. ev_scope e = Scope_run \<and> is_terminal (ev_state e)"
    then obtain e where "e \<in> set ?evs" "ev_scope e = Scope_run" "is_terminal (ev_state e)" by blast
    then have "(Scope_run, ev_scope_id e, ev_state e) \<in> set (trace c st)" by (force simp: trace_def entry_of_def)
    then have "ev_state e \<in> set (history Scope_run (rc_run_id c) (trace c st))" by (auto simp: history_run_member)
    with \<open>is_terminal (ev_state e)\<close> show False by (auto simp: run)
  qed
  let ?st = "(close_run c (emit_event Scope_run (rc_run_id c) CANCELLED ''RUN_CANCELLED'' ?st1))\<lparr>rs_control := Closed CANCELLED (Some ''RUN_CANCELLED'')\<rparr>"
  have fin: "finish_outer c st = ?st"
    unfolding finish_outer_def finalize_outer_cancellation_def Let_def log if_not_P [OF none] ..
  have tr: "trace c ?st = trace c st @ concat (map (finalize_entries ?p ?ts ?ss) (plan_waves ?p)) @ [(Scope_run, rc_run_id c, CANCELLED)]"
    using em1 tr1 by simp
  have "node_inv (Over CANCELLED) (pn_id n) (dget (rs_phases ?st) (pn_id n)) (history Scope_node (pn_id n) (trace c ?st)) (rs_manifests ?st)"
    if n: "n \<in> set (plan_nodes ?p)" for n
  proof -
    let ?h = "history Scope_node (pn_id n) (trace c st)" and ?ph = "dget (rs_phases st) (pn_id n)"
    have h: "history Scope_node (pn_id n) (trace c ?st) = ?h @ (if \<exists>s \<in> set ?h. is_terminal s then [] else [CANCELLED])"
      unfolding tr using n by (simp add: finalize_history_node [OF validated_plan(1) [OF valid] n plan_waves_props(2)]
          terminal_ids_history plan_waves_props(3))
    have q: "?ph = None \<or> (\<exists>oc. ?ph = Some (N_Finished oc))" if ctl: "rs_control st = In_Wave w ws" "pn_wave n = w" for w ws
    proof -
      have "case ?ph of None \<Rightarrow> True | Some (N_Finished oc) \<Rightarrow> True | _ \<Rightarrow> False"
        using quiet n that by (auto simp: wave_quiet_def list_all_iff wave_nodes_set)
      then show ?thesis by (auto split: option.splits node_phase.splits)
    qed
    have "(phase_history (pn_id n) ?ph ?h \<and> (?ph = None \<or> (\<exists>oc. ?ph = Some (N_Finished oc)))) \<or> node_ended (pn_id n) ?ph ?h"
      using d(3) [OF n] q by (cases "rs_control st") (auto simp: node_succeeded_ended split: if_splits)
    then have "node_ended (pn_id n) ?ph (?h @ (if \<exists>s \<in> set ?h. is_terminal s then [] else [CANCELLED]))"
      by (auto simp: node_ended_def)
    then show ?thesis unfolding h by simp
  qed
  moreover have "stage_inv (Over CANCELLED) (history Scope_stage (stage_id w) (trace c ?st))" if w: "w \<in> set (plan_waves ?p)" for w
  proof -
    let ?h = "history Scope_stage (stage_id w) (trace c st)"
    have h: "history Scope_stage (stage_id w) (trace c ?st) = ?h @ (if \<exists>s \<in> set ?h. is_terminal s then [] else [CANCELLED])"
      unfolding tr using w by (simp add: finalize_history_stage [OF plan_waves_props(2)] terminal_ids_history)
    have "?h \<in> {[], [READY, RUNNING]} \<or> stage_inv (Over CANCELLED) ?h"
      using d(4) [OF w] by (cases "rs_control st") (auto split: if_splits)
    then show ?thesis unfolding h by auto
  qed
  moreover have "ordered_starts ?p (trace c ?st)"
    unfolding tr using d(6) by (intro ordered_starts_append) (auto simp: finalize_entries_def split: if_splits)
  ultimately have "progress_inv c ?st"
    using em1 run unfolding progress_inv_def tr by (simp add: finalize_history_run)
  then show ?thesis by (simp only: fin)
qed

section \<open>Every reachable state\<close>

lemma progress_step:
  assumes inv: "progress_inv c st" and valid: "validate_physical_plan (rc_plan c) = Inr ()"
    and step: "run_step c ch st = Some st'"
  shows "progress_inv c st'"
proof -
  note em = progress_invD(1) [OF inv]
  show ?thesis
  proof (cases ch)
    case Caller_Cancels
    with step show ?thesis by (auto split: if_splits intro: progress_quiet [OF inv])
  next
    case Outer_Cancel
    with step show ?thesis by (auto split: if_splits intro: progress_quiet [OF inv])
  next
    case Begin_Wave
    with step show ?thesis
      by (auto split: control.splits list.splits if_splits
          intro: progress_begin_wave [OF inv valid] progress_no_waves [OF inv])
  next
    case (Begin_Node i)
    with step show ?thesis
      by (auto split: option.splits if_splits intro: progress_begin_node [OF inv valid])
  next
    case (Start_Node i)
    with step show ?thesis
      by (auto split: option.splits node_phase.splits if_splits
          intro: progress_start_node [OF inv valid] progress_ends_node [OF inv valid _ _ _ ends_node_cancelled [OF em]])
  next
    case (Execution i ev)
    then obtain n x x' st1 where n: "current_node c st i = Some n" "dget (rs_phases st) i = Some (N_Running x)"
      and x: "exec_step c i False ev x st = Some (x', st1)"
      and st': "st' = st1\<lparr>rs_phases := dput i (N_Running x') (rs_phases st1)\<rparr>"
      using step by (auto split: option.splits node_phase.splits)
    note q = exec_step_quiet [OF x]
    show ?thesis unfolding st' by (rule progress_execution [OF inv valid n q(3,1,4,5,2)])
  next
    case (Complete_Node i)
    then obtain n r where n: "current_node c st i = Some n" "dget (rs_phases st) i = Some (N_Running (X_Done r))"
      "st' = complete_node c n r st"
      using step by (auto split: option.splits node_phase.splits exec_phase.splits)
    obtain s where "s \<in> set (STATE_TRANSITIONS RUNNING)" "ends_node c n st (complete_node c n r st) s"
      using ends_node_complete [OF em] by blast
    with progress_ends_node [OF inv valid n(1,2)] n(3) show ?thesis by blast
  next
    case (Notice_Cancel i)
    then obtain n x where n: "current_node c st i = Some n" "dget (rs_phases st) i = Some (N_Running x)"
      and st': "st' = node_cancelled n st \<or> st' = abandon_node c n x st"
      using step by (auto split: option.splits node_phase.splits if_splits)
    have "\<exists>s \<in> set (STATE_TRANSITIONS RUNNING). ends_node c n st st' s"
      using st' ends_node_cancelled [OF em, of n] ends_node_abandon [OF em, of n x] by auto
    with progress_ends_node [OF inv valid n] show ?thesis by blast
  next
    case (Deadline i)
    then obtain n x where n: "current_node c st i = Some n" "dget (rs_phases st) i = Some (N_Running x)"
      "st' = expire_node c n x st"
      using step by (auto split: option.splits node_phase.splits if_splits)
    obtain s where "s \<in> set (STATE_TRANSITIONS RUNNING)" "ends_node c n st (expire_node c n x st) s"
      using ends_node_expire [OF em] by blast
    with progress_ends_node [OF inv valid n(1,2)] n(3) show ?thesis by blast
  next
    case End_Wave
    with step show ?thesis
      by (auto split: control.splits option.splits if_splits intro: progress_end_wave [OF inv valid])
  next
    case Finish
    with step show ?thesis
      by (auto split: control.splits if_splits intro: progress_finish_outer [OF inv valid] progress_finish_run [OF inv])
  next
    case (Late_Execution k ev)
    then obtain x st1 where x: "exec_step c (le_node_id (rs_late st ! k)) True ev (le_phase (rs_late st ! k)) st = Some (x, st1)"
      "st' = st1\<lparr>rs_late := (rs_late st1)[k := (rs_late st ! k)\<lparr>le_phase := x\<rparr>]\<rparr>"
      using step by (auto simp: Let_def split: if_splits)
    with exec_step_quiet [OF x(1)] show ?thesis by (intro progress_quiet [OF inv]) simp_all
  next
    case (Late_Finish k)
    with step show ?thesis by (auto split: if_splits intro!: progress_quiet [OF inv])
  next
    case (Cleanup_Finished i)
    with step show ?thesis by (auto split: if_splits intro!: progress_quiet [OF inv])
  qed
qed

lemma progress_initial:
  assumes "store_events store (rc_run_id c) = []"
  shows "progress_inv c (initial_state c store budget recorder)"
proof -
  let ?st0 = "\<lparr>rs_emitter = new_emitter (rc_run_id c), rs_store = store, rs_cancel = False, rs_outer = False,
         rs_budget = budget, rs_tables = [], rs_manifests = [], rs_recorder = recorder,
         rs_remaining = initial_consumers (rc_plan c), rs_phases = [], rs_late = [], rs_cleanups = [],
         rs_resolver_cancels = [], rs_control = Next_Wave (plan_waves (rc_plan c))\<rparr>"
  have em: "emits c ?st0" by (simp add: emits_def new_emitter_def)
  have "trace c ?st0 = []" using assms by (simp add: trace_def run_log_def)
  with em have tr: "trace c (initial_state c store budget recorder) = [(Scope_run, rc_run_id c, READY), (Scope_run, rc_run_id c, RUNNING)]"
    by (simp add: initial_state_def)
  have f: "rs_control (initial_state c store budget recorder) = Next_Wave (plan_waves (rc_plan c))"
    "rs_phases (initial_state c store budget recorder) = []" "emits c (initial_state c store budget recorder)"
    using em by (simp_all add: initial_state_def)
  show ?thesis unfolding progress_inv_def tr f
    by (auto simp: f(3) plan_waves_props ordered_starts_def nth_Cons split: nat.splits)
qed

lemma progress_reachable:
  assumes "run_reachable c (initial_state c store budget recorder) st"
    and "validate_physical_plan (rc_plan c) = Inr ()" "store_events store (rc_run_id c) = []"
  shows "progress_inv c st"
  using assms(1)
proof (induction rule: run_reachable.induct)
  case run_start
  then show ?case by (rule progress_initial [OF assms(3)])
next
  case (run_next st ch st')
  then show ?case using progress_step [OF _ assms(2)] by blast
qed

section \<open>Leaving the wave loop\<close>

fun run_steps :: "run_config \<Rightarrow> choice list \<Rightarrow> run_state \<Rightarrow> run_state option" where
  "run_steps c [] st = Some st"
| "run_steps c (ch # chs) st = (case run_step c ch st of None \<Rightarrow> None | Some st' \<Rightarrow> run_steps c chs st')"

lemma run_steps_append:
  "run_steps c (xs @ ys) st = (case run_steps c xs st of None \<Rightarrow> None | Some st' \<Rightarrow> run_steps c ys st')"
  by (induction xs arbitrary: st) (auto split: option.splits)

lemma run_steps_reachable:
  "run_steps c chs st = Some st' \<Longrightarrow> run_reachable c st0 st \<Longrightarrow> run_reachable c st0 st'"
  by (induction chs arbitrary: st) (auto split: option.splits intro: run_reachable.intros)

text \<open>Once the caller's task is cancelled, each node of the wave can return.\<close>

lemma current_node_member:
  assumes "rs_control st = In_Wave w ws" "n \<in> set (wave_nodes (rc_plan c) w)"
    and "distinct (map pn_id (plan_nodes (rc_plan c)))"
  shows "current_node c st (pn_id n) = Some n"
proof -
  have "\<exists>m. List.find (\<lambda>m. pn_id m = pn_id n) (wave_nodes (rc_plan c) w) = Some m"
    using assms(2) by (auto simp: find_None_iff simp flip: not_None_eq)
  then obtain m where m: "List.find (\<lambda>m. pn_id m = pn_id n) (wave_nodes (rc_plan c) w) = Some m" by blast
  then have "m \<in> set (wave_nodes (rc_plan c) w)" "pn_id m = pn_id n" by (auto simp: find_Some_iff)
  with assms(2,3) have "m = n" by (auto simp: wave_nodes_set distinct_map inj_on_def)
  with m assms(1) show ?thesis by (simp add: current_node_def)
qed

lemma abandon_node_fields:
  "rs_control (abandon_node c n x st) = rs_control st" "rs_outer (abandon_node c n x st) = rs_outer st"
  "i \<noteq> pn_id n \<Longrightarrow> dget (rs_phases (abandon_node c n x st)) i = dget (rs_phases st) i"
  "\<exists>oc. dget (rs_phases (abandon_node c n x st)) (pn_id n) = Some (N_Finished oc)"
proof -
  obtain e st1 where h: "handoff c n x st = (e, st1)" by (cases "handoff c n x st")
  note q = handoff_quiet [OF h]
  show "rs_control (abandon_node c n x st) = rs_control st" "rs_outer (abandon_node c n x st) = rs_outer st"
    "i \<noteq> pn_id n \<Longrightarrow> dget (rs_phases (abandon_node c n x st)) i = dget (rs_phases st) i"
    "\<exists>oc. dget (rs_phases (abandon_node c n x st)) (pn_id n) = Some (N_Finished oc)"
    using q by (auto simp: abandon_node_def h node_cancelled_def node_failed_def Let_def split: option.splits)
qed

definition node_quiet :: "run_state \<Rightarrow> physical_node \<Rightarrow> bool" where
  "node_quiet st n = (case dget (rs_phases st) (pn_id n) of None \<Rightarrow> True | Some (N_Finished oc) \<Rightarrow> True | _ \<Rightarrow> False)"

lemma node_can_return:
  assumes "rs_control st = In_Wave w ws" "rs_outer st" "n \<in> set (wave_nodes (rc_plan c) w)"
    and "distinct (map pn_id (plan_nodes (rc_plan c)))"
  shows "\<exists>chs st'. run_steps c chs st = Some st' \<and> rs_control st' = In_Wave w ws \<and> rs_outer st'
    \<and> node_quiet st' n \<and> (\<forall>i. i \<noteq> pn_id n \<longrightarrow> dget (rs_phases st') i = dget (rs_phases st) i)"
proof (cases "dget (rs_phases st) (pn_id n)")
  case None
  with assms show ?thesis by (intro exI [of _ "[]"]) (simp add: node_quiet_def)
next
  case (Some ph)
  note cur = current_node_member [OF assms(1,3,4)]
  show ?thesis
  proof (cases ph)
    case N_Ready
    with Some cur assms(1,2) show ?thesis
      by (intro exI [of _ "[Start_Node (pn_id n)]"] exI [of _ "node_cancelled n st"])
        (simp add: node_quiet_def node_cancelled_def)
  next
    case (N_Running x)
    show ?thesis
    proof (cases "exec_done x")
      case True
      with Some N_Running cur assms(1,2) show ?thesis
        by (intro exI [of _ "[Notice_Cancel (pn_id n)]"] exI [of _ "node_cancelled n st"])
          (simp add: node_quiet_def node_cancelled_def)
    next
      case False
      have "run_steps c [Notice_Cancel (pn_id n)] st = Some (abandon_node c n x st)"
        using False Some N_Running cur assms(2) by simp
      moreover have "node_quiet (abandon_node c n x st) n"
        using abandon_node_fields(4) [of c n x st] by (auto simp: node_quiet_def)
      ultimately show ?thesis
        using abandon_node_fields(1,2) [of c n x st] abandon_node_fields(3) [of _ n c x st] assms(1,2)
        by (intro exI [of _ "[Notice_Cancel (pn_id n)]"] exI [of _ "abandon_node c n x st"]) simp
    qed
  next
    case (N_Finished oc)
    with Some assms show ?thesis by (intro exI [of _ "[]"]) (simp add: node_quiet_def)
  qed
qed

lemma wave_can_return:
  "rs_control st = In_Wave w ws \<Longrightarrow> rs_outer st \<Longrightarrow> set ns \<subseteq> set (wave_nodes (rc_plan c) w) \<Longrightarrow>
   distinct (map pn_id (plan_nodes (rc_plan c))) \<Longrightarrow>
   \<exists>chs st'. run_steps c chs st = Some st' \<and> rs_control st' = In_Wave w ws \<and> rs_outer st'
     \<and> (\<forall>n. node_quiet st n \<or> n \<in> set ns \<longrightarrow> node_quiet st' n)"
proof (induction ns arbitrary: st)
  case Nil
  then show ?case by (intro exI [of _ "[]"]) simp
next
  case (Cons n ns)
  then have "n \<in> set (wave_nodes (rc_plan c) w)" by simp
  from node_can_return [OF Cons.prems(1,2) this Cons.prems(4)] obtain chs1 st1 where
    one: "run_steps c chs1 st = Some st1" "rs_control st1 = In_Wave w ws" "rs_outer st1" "node_quiet st1 n"
      "\<forall>i. i \<noteq> pn_id n \<longrightarrow> dget (rs_phases st1) i = dget (rs_phases st) i" by blast
  have "set ns \<subseteq> set (wave_nodes (rc_plan c) w)" using Cons.prems(3) by simp
  from Cons.IH [OF one(2,3) this Cons.prems(4)] obtain chs2 st2 where
    two: "run_steps c chs2 st1 = Some st2" "rs_control st2 = In_Wave w ws" "rs_outer st2"
      "\<forall>n. node_quiet st1 n \<or> n \<in> set ns \<longrightarrow> node_quiet st2 n" by blast
  have "node_quiet st1 m" if "node_quiet st m" for m
  proof (cases "pn_id m = pn_id n")
    case True
    with one(4) show ?thesis by (simp add: node_quiet_def)
  next
    case False
    with one(5) that show ?thesis by (simp add: node_quiet_def)
  qed
  with one(4) two(4) have "\<forall>m. node_quiet st m \<or> m \<in> set (n # ns) \<longrightarrow> node_quiet st2 m" by auto
  moreover have "run_steps c (chs1 @ chs2) st = Some st2" using one(1) two(1) by (simp add: run_steps_append)
  ultimately show ?case using two(2,3) by blast
qed

lemma run_can_close:
  assumes "distinct (map pn_id (plan_nodes (rc_plan c)))" "not_closed st"
  shows "\<exists>chs st'. run_steps c (Outer_Cancel # chs) st = Some st' \<and> rs_control st' = Closed CANCELLED (Some ''RUN_CANCELLED'')"
proof -
  let ?st = "st\<lparr>rs_outer := True\<rparr>"
  have fin: "run_steps c [Finish] st' = Some (finish_outer c st')" "rs_control (finish_outer c st') = Closed CANCELLED (Some ''RUN_CANCELLED'')"
    if "rs_outer st'" "wave_quiet c st'" for st'
    using that by (simp_all add: finish_outer_def)
  show ?thesis
  proof (cases "rs_control st")
    case (In_Wave w ws)
    from wave_can_return [of ?st w ws "wave_nodes (rc_plan c) w" c] In_Wave assms(1) obtain chs st1 where
      s: "run_steps c chs ?st = Some st1" "rs_control st1 = In_Wave w ws" "rs_outer st1" "\<forall>n \<in> set (wave_nodes (rc_plan c) w). node_quiet st1 n"
      by auto
    then have "wave_quiet c st1" by (simp add: wave_quiet_def node_quiet_def list_all_iff)
    with fin [OF s(3)] have "run_steps c (chs @ [Finish]) ?st = Some (finish_outer c st1)"
      using s(1) by (simp only: run_steps_append option.case)
    with fin [OF s(3)] \<open>wave_quiet c st1\<close> assms(2) show ?thesis
      by (intro exI [of _ "chs @ [Finish]"] exI [of _ "finish_outer c st1"]) simp
  qed (use assms(2) fin [of ?st] in \<open>auto simp: not_closed_def wave_quiet_def intro!: exI [of _ "[Finish]"]\<close>)
qed

section \<open>A sample run\<close>

definition sample_operator_node :: physical_node where
  "sample_operator_node = \<lparr>pn_id = ''f'', pn_kind = OPERATOR, pn_operation = Op_LIMIT, pn_dependencies = [''s''],
     pn_wave = 1, pn_logical_node_ids = [''m''], pn_logical_operations = [], pn_source_fragment = None,
     pn_operator = Some ((operator_of Op_LIMIT)\<lparr>op_limit := Some 5\<rparr>)\<rparr>"

definition sample_run_plan :: physical_plan where
  "sample_run_plan = sample_lineage_plan\<lparr>plan_nodes := plan_nodes sample_lineage_plan @ [sample_operator_node],
     plan_output_node_id := ''f''\<rparr>"

definition sample_config :: run_config where
  "sample_config = \<lparr>rc_run_id = ''r'', rc_plan = sample_run_plan, rc_limits = sample_limits, rc_max_concurrency = 1\<rparr>"

definition sample_result :: table where
  "sample_result = \<lparr>tbl_schema = [], tbl_rows = [[''x'']], tbl_columns = [[PlainArray [Some (Buffer None 64 8)]]]\<rparr>"

definition sample_manifest :: "string \<Rightarrow> committed_manifest" where
  "sample_manifest i = \<lparr>man_result = \<lparr>rh_result_id = i, rh_run_id = ''r'', rh_node_id = i, rh_storage = Inline, rh_uri = i\<rparr>,
     man_schema = [], man_row_count = 1, man_byte_count = 8, man_parts = []\<rparr>"

definition sample_start :: run_state where
  "sample_start = initial_state sample_config empty_store (new_budget 2000)
     \<lparr>lr_run_id = ''r'', lr_nodes = [], lr_edges = []\<rparr>"

definition node_schedule :: "string \<Rightarrow> choice list" where
  "node_schedule i = [Begin_Wave, Begin_Node i, Start_Node i, Execution i Reserve, Execution i (Performed (Inr sample_result)),
     Execution i (Committed (Inr (sample_manifest i))), Complete_Node i, End_Wave]"

definition sample_schedule :: "choice list" where
  "sample_schedule = node_schedule ''s'' @ node_schedule ''f'' @ [Begin_Wave, Finish]"

definition sample_end :: run_state where
  "sample_end = the (run_steps sample_config sample_schedule sample_start)"

lemma sample_run: "run_steps sample_config sample_schedule sample_start = Some sample_end"
  and sample_end_control: "rs_control sample_end = Closed SUCCEEDED None"
proof -
  have "map_option rs_control (run_steps sample_config sample_schedule sample_start) = Some (Closed SUCCEEDED None)"
    by code_simp
  then show "run_steps sample_config sample_schedule sample_start = Some sample_end"
    and "rs_control sample_end = Closed SUCCEEDED None" by (auto simp: sample_end_def)
qed

lemma sample_valid: "validate_physical_plan (rc_plan sample_config) = Inr ()"
  by code_simp

lemma sample_reachable:
  "run_reachable sample_config (initial_state sample_config empty_store (new_budget 2000)
     \<lparr>lr_run_id = ''r'', lr_nodes = [], lr_edges = []\<rparr>) sample_end"
  using run_steps_reachable [OF sample_run run_start] by (simp only: sample_start_def)

lemma sample_store_fresh: "store_events empty_store (rc_run_id sample_config) = []"
  by code_simp

section \<open>Properties\<close>

text \<open>
  C10: A node starts only after all its inputs succeeded. In the event log of
  any reachable state of a run, whatever the interleaving, every event that
  reports a node as running is preceded by events that report each of its
  dependencies as succeeded.
\<close>

theorem nodes_start_after_inputs:
  assumes "run_reachable c (initial_state c store budget recorder) st"
    and "validate_physical_plan (rc_plan c) = Inr ()" "store_events store (rc_run_id c) = []"
    and "run_log c st = before @ e # after" "ev_scope e = Scope_node" "ev_state e = RUNNING"
    and "n \<in> set (plan_nodes (rc_plan c))" "ev_scope_id e = pn_id n" "d \<in> set (pn_dependencies n)"
  shows "\<exists>e' \<in> set before. ev_scope e' = Scope_node \<and> ev_scope_id e' = d \<and> ev_state e' = SUCCEEDED"
proof -
  have "ordered_starts (rc_plan c) (map entry_of before @ entry_of e # map entry_of after)"
    using progress_invD(6) [OF progress_reachable [OF assms(1-3)]] by (simp add: trace_def assms(4))
  moreover have "entry_of e = (Scope_node, pn_id n, RUNNING)" using assms(5,6,8) by (simp add: entry_of_def)
  ultimately have "(Scope_node, d, SUCCEEDED) \<in> set (map entry_of before)"
    using assms(7,9) unfolding ordered_starts_def
    by (auto simp: nth_append dest!: bspec [of _ _ n] spec [of _ "length before"])
  then obtain e' where "e' \<in> set before" "entry_of e' = (Scope_node, d, SUCCEEDED)" by auto
  then show ?thesis by (intro bexI [of _ e']) (simp_all add: entry_of_def)
qed

theorem nodes_start_after_inputs_witness:
  "\<exists>before e after. run_log sample_config sample_end = before @ e # after \<and> ev_scope_id e = ''f'' \<and> ev_state e = RUNNING
     \<and> (\<exists>e' \<in> set before. ev_scope e' = Scope_node \<and> ev_scope_id e' = ''s'' \<and> ev_state e' = SUCCEEDED)"
proof -
  have "map_option (\<lambda>st. list_ex (\<lambda>e. entry_of e = (Scope_node, ''f'', RUNNING)) (run_log sample_config st))
      (run_steps sample_config sample_schedule sample_start) = Some True" by code_simp
  then obtain e where e: "e \<in> set (run_log sample_config sample_end)" "entry_of e = (Scope_node, ''f'', RUNNING)"
    by (auto simp: sample_run list_ex_iff)
  then obtain before after where l: "run_log sample_config sample_end = before @ e # after" by (meson split_list)
  have n: "sample_operator_node \<in> set (plan_nodes (rc_plan sample_config))"
    by (simp add: sample_config_def sample_run_plan_def)
  from e(2) have e': "ev_scope e = Scope_node" "ev_state e = RUNNING" "ev_scope_id e = pn_id sample_operator_node"
    by (simp_all add: entry_of_def sample_operator_node_def)
  have "''s'' \<in> set (pn_dependencies sample_operator_node)" by (simp add: sample_operator_node_def)
  from nodes_start_after_inputs [OF sample_reachable sample_valid sample_store_fresh l e'(1,2) n e'(3) this] l e'
  show ?thesis by (auto simp: sample_operator_node_def)
qed



text \<open>
  C12: Success means success everywhere. When a run closes as SUCCEEDED, every
  node of the plan went through ready, running and succeeded, every node has a
  committed manifest, and \<open>run\<close> returns a summary whose result is the manifest
  of the output node; RUN\_OUTPUT\_MISSING is never raised.
\<close>

theorem success_means_all_succeeded:
  assumes "run_reachable c (initial_state c store budget recorder) st"
    and "validate_physical_plan (rc_plan c) = Inr ()" "store_events store (rc_run_id c) = []"
    and "rs_control st = Closed s code"
  shows "\<exists>summary. run_outcome c st = Inr summary \<and> sum_state summary = s \<and> sum_diagnostic_code summary = code
    \<and> (s = SUCCEEDED \<longrightarrow>
        (\<forall>n \<in> set (plan_nodes (rc_plan c)). history Scope_node (pn_id n) (trace c st) = [READY, RUNNING, SUCCEEDED]
           \<and> dget (rs_manifests st) (pn_id n) \<noteq> None)
        \<and> sum_result summary = map_option man_result (dget (rs_manifests st) (plan_output_node_id (rc_plan c)))
        \<and> sum_result summary \<noteq> None)"
proof -
  note d = progress_invD [OF progress_reachable [OF assms(1-3)]]
  have ok: "history Scope_node (pn_id n) (trace c st) = [READY, RUNNING, SUCCEEDED] \<and> dget (rs_manifests st) (pn_id n) \<noteq> None"
    if "s = SUCCEEDED" "n \<in> set (plan_nodes (rc_plan c))" for n
    using d(3) [OF that(2)] that(1) by (auto simp: assms(4) node_succeeded_def)
  have "dget (rs_manifests st) (plan_output_node_id (rc_plan c)) \<noteq> None" if "s = SUCCEEDED"
    using validated_plan(2) [OF assms(2)] ok [OF that] by auto
  with ok show ?thesis by (cases "s = SUCCEEDED") (auto simp: run_outcome_def assms(4) Let_def)
qed

theorem success_means_all_succeeded_witness:
  "\<exists>summary. run_outcome sample_config sample_end = Inr summary \<and> sum_state summary = SUCCEEDED \<and> sum_result summary \<noteq> None"
  using success_means_all_succeeded [OF sample_reachable sample_valid sample_store_fresh sample_end_control] by blast



end
