(* ===== verification/Iso_Datetime.thy ===== *)
theory Iso_Datetime
  imports Scalar_Values
begin

text \<open>
  Timezone-aware timestamps, as the graph validators read them:
  \<open>datetime.fromisoformat\<close> of Python 3.12 with its timezone suffix,
  \<open>astimezone(UTC)\<close> and \<open>date.isoformat\<close>. A timestamp is its wall-clock
  distance from 1970-01-01 in microseconds together with its UTC offset in
  microseconds, if it has one.

  The library scans the time up to the timezone sign and then looks only at
  whether the timezone itself was read completely: one stray character before
  the sign is skipped. That is what the flag of \<open>iso_time_scan\<close> records.
\<close>

record timestamp =
  ts_local :: int
  ts_offset :: "int option"

definition iso_fraction_scan :: "string \<Rightarrow> (int \<times> bool) option" where
  "iso_fraction_scan s =
     (let k = min 6 (length s)
      in if list_all is_digit (take k s)
         then Some (digits_value (take k s) * 10 ^ (6 - k), dropWhile is_digit (drop k s) \<noteq> []) else None)"

text \<open>
  \<open>parse_hh_mm_ss_ff\<close> of the library on the characters before the timezone
  (or on the timezone itself): the fields, the microseconds, and whether
  characters were left over.
\<close>

fun iso_time_scan :: "nat \<Rightarrow> bool \<Rightarrow> int list \<Rightarrow> string \<Rightarrow> (int list \<times> int \<times> bool) option" where
  "iso_time_scan 0 sep vs s = map_option (\<lambda>(f, junk). (vs, f, junk)) (iso_fraction_scan s)"
| "iso_time_scan (Suc i) sep vs s =
     (case parse_digits 2 s of None \<Rightarrow> None
      | Some (v, r) \<Rightarrow>
        let vs' = vs @ [v]
        in (case r of [] \<Rightarrow> Some (vs', 0, False)
            | c # r' \<Rightarrow>
              let sep' = (if i = 2 then c = CHR '':'' else sep)
              in if r' = [] then Some (vs', 0, True)
                 else if sep' \<and> c = CHR '':'' then iso_time_scan i sep' vs' r'
                 else if c = CHR ''.'' \<or> c = CHR '',''
                      then map_option (\<lambda>(f, junk). (vs', f, junk)) (iso_fraction_scan r')
                 else if \<not> sep' then iso_time_scan i sep' vs' r
                 else None))"

definition field_at :: "int list \<Rightarrow> nat \<Rightarrow> int" where
  "field_at vs i = (if i < length vs then vs ! i else 0)"

definition clock_seconds :: "int list \<Rightarrow> int" where
  "clock_seconds vs = (field_at vs 0 * 60 + field_at vs 1) * 60 + field_at vs 2"

definition is_zone_sign :: "char \<Rightarrow> bool" where
  "is_zone_sign c = (c \<in> {CHR ''+'', CHR ''-'', CHR ''Z''})"

text \<open>
  The timezone after its sign: \<open>Z\<close> stands alone, an offset is a complete time
  strictly below 24 hours, and an offset of zero seconds is UTC.
\<close>

definition parse_zone :: "string \<Rightarrow> int option" where
  "parse_zone z =
     (if hd z = CHR ''Z'' then (if tl z = [] then Some 0 else None)
      else case iso_time_scan 3 True [] (tl z) of
        Some (vs, us, False) \<Rightarrow>
          let off = clock_seconds vs * 1000000 + us
          in if clock_seconds vs = 0 then Some 0
             else if off < 86400000000 then Some (if hd z = CHR ''-'' then - off else off) else None
      | _ \<Rightarrow> None)"

definition parse_zoned_time :: "string \<Rightarrow> (int \<times> int option) option" where
  "parse_zoned_time t =
     (let clock = takeWhile (\<lambda>c. \<not> is_zone_sign c) t; z = dropWhile (\<lambda>c. \<not> is_zone_sign c) t
      in case iso_time_scan 3 True [] clock of None \<Rightarrow> None
         | Some (vs, us, junk) \<Rightarrow>
             if field_at vs 0 \<le> 23 \<and> field_at vs 1 \<le> 59 \<and> field_at vs 2 \<le> 59
             then (if z = [] then (if junk then None else Some (clock_seconds vs * 1000000 + us, None))
                   else map_option (\<lambda>off. (clock_seconds vs * 1000000 + us, Some off)) (parse_zone z))
             else None)"

definition datetime_fromisoformat :: "string \<Rightarrow> timestamp option" where
  "datetime_fromisoformat s =
     (if length s < 7 then None
      else case iso_separator s of None \<Rightarrow> None
      | Some k \<Rightarrow>
        (case parse_iso_date (take k s) of None \<Rightarrow> None
         | Some n \<Rightarrow>
           let base = (n - 719163) * 86400000000
           in if length s \<le> k then Some \<lparr>ts_local = base, ts_offset = None\<rparr>
              else map_option (\<lambda>(us, off). \<lparr>ts_local = base + us, ts_offset = off\<rparr>)
                     (parse_zoned_time (drop (Suc k) s))))"

text \<open>
  The instants \<open>datetime\<close> can represent, from year 1 to year 9999; shifting a
  timestamp to UTC outside of them raises \<open>OverflowError\<close>.
\<close>

definition min_instant :: int where
  "min_instant = (ymd_to_ord 1 1 1 - 719163) * 86400000000"

definition max_instant :: int where
  "max_instant = (ymd_to_ord 9999 12 31 - 719162) * 86400000000 - 1"

definition astimezone_utc :: "timestamp \<Rightarrow> int option" where
  "astimezone_utc t =
     (case ts_offset t of None \<Rightarrow> None
      | Some off \<Rightarrow>
          let u = ts_local t - off in if min_instant \<le> u \<and> u \<le> max_instant then Some u else None)"

text \<open>\<open>date.fromisoformat(value).isoformat() == value\<close>: only \<open>YYYY-MM-DD\<close> reads back as itself.\<close>

definition canonical_date :: "string \<Rightarrow> bool" where
  "canonical_date s =
     (length s = 10 \<and> s ! 4 = CHR ''-'' \<and> s ! 7 = CHR ''-'' \<and> date_fromisoformat s \<noteq> None)"

section \<open>Bounds\<close>

text \<open>Every instant the validators compare is one \<open>datetime\<close> can represent.\<close>

lemma astimezone_utc_bounds:
  "astimezone_utc t = Some u \<Longrightarrow> min_instant \<le> u \<and> u \<le> max_instant"
  by (auto simp: astimezone_utc_def Let_def split: option.splits if_splits)

lemma instant_constants: "min_instant = - 62135596800000000" "max_instant = 253402300799999999"
  by code_simp+

end
