(* ===== verification/Sqg_Contract.thy ===== *)
theory Sqg_Contract
  imports Iso_Datetime Dependency_Graph
begin

text \<open>
  The shared contracts of \<open>semantic_core/models.py\<close>: the ontology with its
  consistency check, the semantic query graph (contract \<open>sqg/v0\<close>), and the
  validators its models run, up to \<open>graph_is_deterministic\<close>, which checks the
  shape of the graph and the type and nullability every node declares for its
  outputs. Descriptions and the literal contract version are not modelled.

  A validator that raises \<open>ValueError\<close> (reported by pydantic) returns
  \<open>Inl ValueError\<close>; the subscripts it evaluates can raise as well, and it is
  a result of this theory that they never do.
\<close>

section \<open>Identifiers and literals\<close>

text \<open>\<open>Identifier\<close>: \<open>^[A-Za-z][A-Za-z0-9_.-]*$\<close>.\<close>

fun identifier_ok :: "string \<Rightarrow> bool" where
  "identifier_ok [] = False"
| "identifier_ok (c # s) =
     (ascii_letter c \<and> list_all (\<lambda>d. ascii_letter d \<or> is_digit d \<or> d \<in> set ''_.-'') s)"

text \<open>\<open>-?(0|[1-9][0-9]*)\<close>, and the fraction and exponent a decimal literal may add.\<close>

definition plain_integer :: "string \<Rightarrow> bool" where
  "plain_integer s = (s \<noteq> [] \<and> list_all is_digit s \<and> (hd s = CHR ''0'' \<longrightarrow> tl s = []))"

definition signed_integer :: "string \<Rightarrow> bool" where
  "signed_integer s = plain_integer (if starts_with CHR ''-'' s then tl s else s)"

definition exponent_text :: "string \<Rightarrow> bool" where
  "exponent_text s =
     (s = [] \<or> hd s \<in> {CHR ''e'', CHR ''E''}
        \<and> plain_integer (if starts_with CHR ''+'' (tl s) \<or> starts_with CHR ''-'' (tl s) then tl (tl s) else tl s))"

definition decimal_literal_text :: "string \<Rightarrow> bool" where
  "decimal_literal_text s =
     (let u = (if starts_with CHR ''-'' s then tl s else s);
          r = dropWhile is_digit u
      in plain_integer (takeWhile is_digit u)
         \<and> (if starts_with CHR ''.'' r
            then takeWhile is_digit (tl r) \<noteq> [] \<and> exponent_text (dropWhile is_digit (tl r))
            else exponent_text r))"

datatype numeric_literal = IntegerLiteral string | DecimalLiteral string

datatype json_scalar = JString string | JInt int | JFloat pyfloat | JBool bool | JNone | JDecimal string

section \<open>Types\<close>

datatype data_type = STRING | INTEGER | NUMBER | DECIMAL | BOOLEAN | DATE | DATETIME

datatype aggregation = AggSum | AggAvg | AggMin | AggMax | AggCount | AggCountDistinct

definition numeric_type :: "data_type \<Rightarrow> bool" where
  "numeric_type t = (t \<in> {INTEGER, NUMBER, DECIMAL})"

definition aggregation_output_type :: "aggregation \<Rightarrow> data_type \<Rightarrow> data_type res" where
  "aggregation_output_type a t =
     (if a \<in> {AggSum, AggAvg} \<and> \<not> numeric_type t then Inl ValueError
      else if a \<in> {AggMin, AggMax} \<and> t = BOOLEAN then Inl ValueError
      else if a \<in> {AggCount, AggCountDistinct} then Inr INTEGER
      else if a = AggAvg \<and> t = INTEGER then Inr NUMBER
      else Inr t)"

section \<open>Ontology\<close>

record ontology_field =
  fld_id :: string
  fld_type :: data_type
  fld_nullable :: bool

record entity =
  ent_id :: string
  ent_fields :: "ontology_field list"

record metric =
  met_id :: string
  met_entity :: string
  met_field :: string
  met_aggregation :: aggregation

datatype cardinality = ONE_TO_ONE | ONE_TO_MANY | MANY_TO_ONE | MANY_TO_MANY

record relation =
  rel_id :: string
  rel_left_entity :: string
  rel_right_entity :: string
  rel_left_field :: string
  rel_right_field :: string
  rel_cardinality :: cardinality

datatype resolver_kind = STATIC | SEARCH | DATABRICKS

record resolver_ref =
  res_id :: string
  res_entity :: string
  res_field :: string
  res_kind :: resolver_kind

record ontology =
  ont_id :: string
  ont_version :: string
  ont_entities :: "entity list"
  ont_metrics :: "metric list"
  ont_relations :: "relation list"
  ont_resolvers :: "resolver_ref list"

type_synonym entity_index = "(string, (string, ontology_field) dict) dict"

definition require_unique :: "string list \<Rightarrow> unit res" where
  "require_unique ids = raise_unless (distinct ids) ValueError"

definition fields_are_unique :: "entity \<Rightarrow> unit res" where
  "fields_are_unique e = require_unique (map fld_id (ent_fields e))"

definition entity_index_of :: "entity list \<Rightarrow> entity_index" where
  "entity_index_of es =
     dict_of (map (\<lambda>e. (ent_id e, dict_of (map (\<lambda>f. (fld_id f, f)) (ent_fields e)))) es)"

definition require_field :: "entity_index \<Rightarrow> string \<Rightarrow> string \<Rightarrow> unit res" where
  "require_field idx e f =
     (case dget idx e of None \<Rightarrow> Inl ValueError
      | Some fs \<Rightarrow> raise_unless (dget fs f \<noteq> None) ValueError)"

definition check_metric :: "entity list \<Rightarrow> metric \<Rightarrow> unit res" where
  "check_metric es m =
     rbind (require_field (entity_index_of es) (met_entity m) (met_field m)) (\<lambda>_.
     rbind (next_item (\<lambda>e. ent_id e = met_entity m) es) (\<lambda>e.
     rbind (next_item (\<lambda>f. fld_id f = met_field m) (ent_fields e)) (\<lambda>f.
     rbind (aggregation_output_type (met_aggregation m) (fld_type f)) (\<lambda>_. Inr ()))))"

definition index_field :: "entity_index \<Rightarrow> string \<Rightarrow> string \<Rightarrow> ontology_field res" where
  "index_field idx e f = rbind (dict_item idx e) (\<lambda>fs. dict_item fs f)"

definition check_relation :: "entity list \<Rightarrow> relation \<Rightarrow> unit res" where
  "check_relation es r =
     (let idx = entity_index_of es in
      rbind (require_field idx (rel_left_entity r) (rel_left_field r)) (\<lambda>_.
      rbind (require_field idx (rel_right_entity r) (rel_right_field r)) (\<lambda>_.
      rbind (index_field idx (rel_left_entity r) (rel_left_field r)) (\<lambda>lf.
      rbind (index_field idx (rel_right_entity r) (rel_right_field r)) (\<lambda>rf.
      raise_unless (fld_type lf = fld_type rf) ValueError)))))"

definition concepts_are_consistent :: "ontology \<Rightarrow> unit res" where
  "concepts_are_consistent ont =
     rbind (require_unique (map ent_id (ont_entities ont))) (\<lambda>_.
     rbind (require_unique (map met_id (ont_metrics ont))) (\<lambda>_.
     rbind (require_unique (map rel_id (ont_relations ont))) (\<lambda>_.
     rbind (require_unique (map res_id (ont_resolvers ont))) (\<lambda>_.
     rbind (check_each (check_metric (ont_entities ont)) (ont_metrics ont)) (\<lambda>_.
     rbind (check_each (check_relation (ont_entities ont)) (ont_relations ont)) (\<lambda>_.
     check_each (\<lambda>r. require_field (entity_index_of (ont_entities ont)) (res_entity r) (res_field r))
       (ont_resolvers ont)))))))"

text \<open>
  Constructing an \<open>Ontology\<close>: the entities are built first, each with at least
  one field, then the ontology, with at least one entity.
\<close>

definition ontology_identifiers :: "ontology \<Rightarrow> string list" where
  "ontology_identifiers ont =
     ont_id ont # ont_version ont
     # concat (map (\<lambda>e. ent_id e # map fld_id (ent_fields e)) (ont_entities ont))
     @ concat (map (\<lambda>m. [met_id m, met_entity m, met_field m]) (ont_metrics ont))
     @ concat (map (\<lambda>r. [rel_id r, rel_left_entity r, rel_right_entity r, rel_left_field r, rel_right_field r])
         (ont_relations ont))
     @ concat (map (\<lambda>r. [res_id r, res_entity r, res_field r]) (ont_resolvers ont))"

definition validate_ontology :: "ontology \<Rightarrow> unit res" where
  "validate_ontology ont =
     rbind (raise_unless (list_all identifier_ok (ontology_identifiers ont)
              \<and> list_all (\<lambda>e. ent_fields e \<noteq> []) (ont_entities ont)) ValueError) (\<lambda>_.
     rbind (check_each fields_are_unique (ont_entities ont)) (\<lambda>_.
     rbind (raise_unless (ont_entities ont \<noteq> []) ValueError) (\<lambda>_.
     concepts_are_consistent ont)))"

section \<open>Query graph\<close>

record output_field =
  out_name :: string
  out_type :: data_type
  out_nullable :: bool

datatype predicate_op = EQ | NEQ | GT | GTE | LT | LTE | IN | NOT_IN | CONTAINS

datatype predicate_value = ScalarValue json_scalar | ListValue "json_scalar list"

record predicate =
  pred_field :: string
  pred_op :: predicate_op
  pred_value :: predicate_value

record measure_ref =
  msr_metric :: string
  msr_source :: string
  msr_name :: string

datatype operand = FieldOperand string | LiteralOperand numeric_literal

datatype derive_op = ADD | SUBTRACT | MULTIPLY | DIVIDE

record derive_expression =
  drv_name :: string
  drv_op :: derive_op
  drv_left :: operand
  drv_right :: operand

datatype direction = ASC | DESC

datatype side = LEFT_INPUT | RIGHT_INPUT

record join_projection =
  jp_source :: side
  jp_field :: string
  jp_name :: string

datatype join_kind = INNER | LEFT | RIGHT | FULL

text \<open>The operator of a node with its parameters; the constructor is the discriminator.\<close>

datatype node_params =
    Select string "string list"
  | Filter predicate
  | Aggregate "string list" "measure_ref list"
  | Pivot "string list" string string aggregation "string list"
  | Derive "derive_expression list"
  | Project "string list"
  | Sort "(string \<times> direction) list"
  | Join string string string join_kind "join_projection list"

record sqg_node =
  nd_id :: string
  nd_inputs :: "string list"
  nd_outputs :: "output_field list"
  nd_params :: node_params

record sqg =
  sqg_query_id :: string
  sqg_ontology_version :: string
  sqg_nodes :: "sqg_node list"
  sqg_root :: string

type_synonym outputs = "(string, output_field) dict"

section \<open>Field constraints\<close>

definition collection_operators_use_lists :: "predicate \<Rightarrow> unit res" where
  "collection_operators_use_lists p =
     (case pred_value p of
        ListValue vs \<Rightarrow> raise_unless (pred_op p \<in> {IN, NOT_IN} \<and> vs \<noteq> []) ValueError
      | ScalarValue v \<Rightarrow> raise_unless (pred_op p \<notin> {IN, NOT_IN}) ValueError)"

definition json_scalar_ok :: "json_scalar \<Rightarrow> bool" where
  "json_scalar_ok v = (case v of JDecimal s \<Rightarrow> decimal_literal_text s | _ \<Rightarrow> True)"

definition predicate_values :: "predicate \<Rightarrow> json_scalar list" where
  "predicate_values p = (case pred_value p of ListValue vs \<Rightarrow> vs | ScalarValue v \<Rightarrow> [v])"

fun operand_ok :: "operand \<Rightarrow> bool" where
  "operand_ok (FieldOperand f) = identifier_ok f"
| "operand_ok (LiteralOperand (IntegerLiteral s)) = signed_integer s"
| "operand_ok (LiteralOperand (DecimalLiteral s)) = decimal_literal_text s"

fun params_ok :: "node_params \<Rightarrow> bool" where
  "params_ok (Select e fs) = (identifier_ok e \<and> fs \<noteq> [] \<and> list_all identifier_ok fs)"
| "params_ok (Filter p) =
     (identifier_ok (pred_field p) \<and> list_all json_scalar_ok (predicate_values p)
        \<and> is_ok (collection_operators_use_lists p))"
| "params_ok (Aggregate g ms) =
     (list_all identifier_ok g \<and> ms \<noteq> []
        \<and> list_all (\<lambda>m. identifier_ok (msr_metric m) \<and> identifier_ok (msr_source m) \<and> identifier_ok (msr_name m)) ms)"
| "params_ok (Pivot i c v a xs) =
     (i \<noteq> [] \<and> xs \<noteq> [] \<and> list_all identifier_ok (c # v # i @ xs))"
| "params_ok (Derive es) =
     (es \<noteq> [] \<and> list_all (\<lambda>e. identifier_ok (drv_name e) \<and> operand_ok (drv_left e) \<and> operand_ok (drv_right e)) es)"
| "params_ok (Project fs) = (fs \<noteq> [] \<and> list_all identifier_ok fs)"
| "params_ok (Sort ks) = (ks \<noteq> [] \<and> list_all (\<lambda>k. identifier_ok (fst k)) ks)"
| "params_ok (Join r lk rk k ps) =
     (ps \<noteq> [] \<and> list_all identifier_ok [r, lk, rk]
        \<and> list_all (\<lambda>p. identifier_ok (jp_field p) \<and> identifier_ok (jp_name p)) ps)"

definition output_names_are_unique :: "sqg_node \<Rightarrow> unit res" where
  "output_names_are_unique n = raise_unless (distinct (map out_name (nd_outputs n))) ValueError"

definition node_fields_ok :: "sqg_node \<Rightarrow> bool" where
  "node_fields_ok n =
     (identifier_ok (nd_id n) \<and> list_all identifier_ok (nd_inputs n) \<and> nd_outputs n \<noteq> []
        \<and> list_all (\<lambda>f. identifier_ok (out_name f)) (nd_outputs n) \<and> params_ok (nd_params n))"

section \<open>Operators\<close>

definition require_fields :: "string list \<Rightarrow> outputs \<Rightarrow> unit res" where
  "require_fields fs available = raise_unless (list_all (\<lambda>f. dget available f \<noteq> None) fs) ValueError"

definition replace_zulu :: "string \<Rightarrow> string" where
  "replace_zulu s = concat (map (\<lambda>c. if c = CHR ''Z'' then ''+00:00'' else [c]) s)"

definition aware_datetime_text :: "string \<Rightarrow> bool" where
  "aware_datetime_text s =
     (CHR ''T'' \<in> set s
        \<and> (case datetime_fromisoformat (replace_zulu s) of None \<Rightarrow> False | Some t \<Rightarrow> ts_offset t \<noteq> None))"

fun scalar_matches_type :: "json_scalar \<Rightarrow> data_type \<Rightarrow> bool" where
  "scalar_matches_type JNone t = True"
| "scalar_matches_type (JString s) t =
     (t = STRING \<or> t = DATE \<and> canonical_date s \<or> t = DATETIME \<and> aware_datetime_text s)"
| "scalar_matches_type (JInt i) t = numeric_type t"
| "scalar_matches_type (JFloat x) t = (t = NUMBER \<and> (case x of FFinite _ _ \<Rightarrow> True | _ \<Rightarrow> False))"
| "scalar_matches_type (JDecimal s) t = (t = DECIMAL)"
| "scalar_matches_type (JBool b) t = (t = BOOLEAN)"

definition validate_predicate_type :: "predicate \<Rightarrow> data_type \<Rightarrow> unit res" where
  "validate_predicate_type p t =
     (if pred_op p \<in> {GT, GTE, LT, LTE, CONTAINS} \<and> JNone \<in> set (predicate_values p) then Inl ValueError
      else if pred_op p = CONTAINS \<and> t \<noteq> STRING then Inl ValueError
      else if pred_op p \<in> {GT, GTE, LT, LTE} \<and> t = BOOLEAN then Inl ValueError
      else raise_unless (list_all (\<lambda>v. scalar_matches_type v t) (predicate_values p)) ValueError)"

fun operand_fields :: "operand \<Rightarrow> string list" where
  "operand_fields (FieldOperand f) = [f]"
| "operand_fields (LiteralOperand _) = []"

definition expression_fields :: "derive_expression \<Rightarrow> string list" where
  "expression_fields e = operand_fields (drv_left e) @ operand_fields (drv_right e)"

definition side_index :: "side \<Rightarrow> nat" where
  "side_index s = (case s of LEFT_INPUT \<Rightarrow> 0 | RIGHT_INPUT \<Rightarrow> 1)"

text \<open>The names a node must declare as its outputs, after the checks of its operator.\<close>

fun validate_operator :: "node_params \<Rightarrow> outputs list \<Rightarrow> string list res" where
  "validate_operator (Select e fs) ps = Inr fs"
| "validate_operator (Filter p) ps =
     rbind (list_item ps 0) (\<lambda>a.
     rbind (require_fields [pred_field p] a) (\<lambda>_.
     rbind (dict_item a (pred_field p)) (\<lambda>f.
     rbind (validate_predicate_type p (out_type f)) (\<lambda>_. Inr (dkeys a)))))"
| "validate_operator (Aggregate g ms) ps =
     rbind (list_item ps 0) (\<lambda>a.
     rbind (require_fields (g @ map msr_source ms) a) (\<lambda>_.
     let names = g @ map msr_name ms
     in rbind (raise_unless (distinct names) ValueError) (\<lambda>_. Inr names)))"
| "validate_operator (Pivot i c v agg xs) ps =
     rbind (list_item ps 0) (\<lambda>a.
     rbind (require_fields (i @ [c, v]) a) (\<lambda>_.
     let names = i @ xs
     in rbind (raise_unless (distinct names) ValueError) (\<lambda>_. Inr names)))"
| "validate_operator (Derive es) ps =
     rbind (list_item ps 0) (\<lambda>a.
     let names = map drv_name es
     in rbind (raise_unless (distinct names \<and> list_all (\<lambda>x. dget a x = None) names) ValueError) (\<lambda>_.
        rbind (check_each (\<lambda>e. require_fields (expression_fields e) a) es) (\<lambda>_. Inr (dkeys a @ names))))"
| "validate_operator (Project fs) ps =
     rbind (list_item ps 0) (\<lambda>a. rbind (require_fields fs a) (\<lambda>_. Inr fs))"
| "validate_operator (Sort ks) ps =
     rbind (list_item ps 0) (\<lambda>a. rbind (require_fields (map fst ks) a) (\<lambda>_. Inr (dkeys a)))"
| "validate_operator (Join r lk rk k js) ps =
     rbind (list_item ps 0) (\<lambda>l.
     rbind (require_fields [lk] l) (\<lambda>_.
     rbind (list_item ps 1) (\<lambda>a.
     rbind (require_fields [rk] a) (\<lambda>_.
     rbind (check_each (\<lambda>j. rbind (list_item ps (side_index (jp_source j))) (require_fields [jp_field j])) js) (\<lambda>_.
     let names = map jp_name js
     in rbind (raise_unless (distinct names) ValueError) (\<lambda>_. Inr names))))))"

section \<open>Output contracts\<close>

type_synonym contract = "data_type \<times> bool"

definition contract_of :: "output_field \<Rightarrow> contract" where
  "contract_of f = (out_type f, out_nullable f)"

text \<open>The contract of a field passed through unchanged, for every listed field.\<close>

definition inherited_contracts :: "outputs \<Rightarrow> string list \<Rightarrow> (string \<times> contract) list res" where
  "inherited_contracts a fs = traverse (\<lambda>f. rbind (dict_item a f) (\<lambda>x. Inr (f, contract_of x))) fs"

fun operand_type :: "outputs \<Rightarrow> operand \<Rightarrow> data_type res" where
  "operand_type a (FieldOperand f) = rbind (dict_item a f) (\<lambda>x. Inr (out_type x))"
| "operand_type a (LiteralOperand (IntegerLiteral s)) = Inr INTEGER"
| "operand_type a (LiteralOperand (DecimalLiteral s)) = Inr DECIMAL"

definition derive_output_type :: "derive_expression \<Rightarrow> outputs \<Rightarrow> data_type res" where
  "derive_output_type e a =
     rbind (operand_type a (drv_left e)) (\<lambda>t.
     rbind (operand_type a (drv_right e)) (\<lambda>u.
       if \<not> numeric_type t \<or> \<not> numeric_type u then Inl ValueError
       else if DECIMAL \<in> {t, u} then Inr DECIMAL
       else if drv_op e = DIVIDE \<or> NUMBER \<in> {t, u} then Inr NUMBER
       else Inr INTEGER))"

fun operand_nullable :: "outputs \<Rightarrow> operand \<Rightarrow> bool res" where
  "operand_nullable a (FieldOperand f) = rbind (dict_item a f) (\<lambda>x. Inr (out_nullable x))"
| "operand_nullable a (LiteralOperand _) = Inr False"

definition derive_output_nullable :: "derive_expression \<Rightarrow> outputs \<Rightarrow> bool res" where
  "derive_output_nullable e a =
     rbind (operand_nullable a (drv_left e)) (\<lambda>b.
       if b then Inr True else operand_nullable a (drv_right e))"

definition join_output_contract :: "join_kind \<Rightarrow> join_projection \<Rightarrow> output_field \<Rightarrow> contract" where
  "join_output_contract k j source =
     (let outer_nullable = (k = FULL \<or> k = LEFT \<and> jp_source j = RIGHT_INPUT \<or> k = RIGHT \<and> jp_source j = LEFT_INPUT)
      in (out_type source, out_nullable source \<or> outer_nullable))"

fun expected_output_contracts :: "node_params \<Rightarrow> outputs list \<Rightarrow> (string, contract) dict res" where
  "expected_output_contracts (Select e fs) ps = Inr []"
| "expected_output_contracts (Filter p) ps =
     rbind (list_item ps 0) (\<lambda>a. Inr (dict_of (map (\<lambda>(n, f). (n, contract_of f)) a)))"
| "expected_output_contracts (Sort ks) ps =
     rbind (list_item ps 0) (\<lambda>a. Inr (dict_of (map (\<lambda>(n, f). (n, contract_of f)) a)))"
| "expected_output_contracts (Project fs) ps =
     rbind (list_item ps 0) (\<lambda>a. rbind (inherited_contracts a fs) (\<lambda>cs. Inr (dict_of cs)))"
| "expected_output_contracts (Aggregate g ms) ps =
     rbind (list_item ps 0) (\<lambda>a. rbind (inherited_contracts a g) (\<lambda>cs. Inr (dict_of cs)))"
| "expected_output_contracts (Pivot i c v agg xs) ps =
     rbind (list_item ps 0) (\<lambda>a.
     rbind (dict_item a v) (\<lambda>f.
     rbind (aggregation_output_type agg (out_type f)) (\<lambda>t.
     rbind (inherited_contracts a i) (\<lambda>cs.
     Inr (dict_of (cs @ map (\<lambda>x. (x, (t, True))) xs))))))"
| "expected_output_contracts (Derive es) ps =
     rbind (list_item ps 0) (\<lambda>a.
     rbind (traverse (\<lambda>e. rbind (derive_output_type e a) (\<lambda>t.
              rbind (derive_output_nullable e a) (\<lambda>b. Inr (drv_name e, (t, b))))) es) (\<lambda>cs.
     Inr (dict_of (map (\<lambda>(n, f). (n, contract_of f)) a @ cs))))"
| "expected_output_contracts (Join r lk rk k js) ps =
     rbind (traverse (\<lambda>j. rbind (list_item ps (side_index (jp_source j))) (\<lambda>a.
              rbind (dict_item a (jp_field j)) (\<lambda>f. Inr (jp_name j, join_output_contract k j f)))) js) (\<lambda>cs.
     Inr (dict_of cs))"

section \<open>The graph\<close>

fun expected_inputs :: "node_params \<Rightarrow> nat" where
  "expected_inputs (Select _ _) = 0"
| "expected_inputs (Join _ _ _ _ _) = 2"
| "expected_inputs _ = 1"

definition check_input :: "(string, nat) dict \<Rightarrow> nat \<Rightarrow> sqg_node \<Rightarrow> string \<Rightarrow> unit res" where
  "check_input positions index n dep =
     (if dep = nd_id n then Inl ValueError
      else case dget positions dep of None \<Rightarrow> Inl ValueError
      | Some p \<Rightarrow> if index \<le> p then Inl ValueError else Inr ())"

definition check_output :: "(string, contract) dict \<Rightarrow> output_field \<Rightarrow> unit res" where
  "check_output contracts f =
     (case dget contracts (out_name f) of None \<Rightarrow> Inr ()
      | Some c \<Rightarrow> raise_unless (out_type f = fst c \<and> out_nullable f = snd c) ValueError)"

definition outputs_of :: "sqg_node \<Rightarrow> outputs" where
  "outputs_of n = dict_of (map (\<lambda>f. (out_name f, f)) (nd_outputs n))"

definition check_node ::
    "(string, nat) dict \<Rightarrow> nat \<Rightarrow> sqg_node \<Rightarrow> (string, outputs) dict \<Rightarrow> (string, outputs) dict res" where
  "check_node positions index n seen =
     rbind (raise_unless (length (nd_inputs n) = expected_inputs (nd_params n)) ValueError) (\<lambda>_.
     rbind (check_each (check_input positions index n) (nd_inputs n)) (\<lambda>_.
     rbind (traverse (dict_item seen) (nd_inputs n)) (\<lambda>parents.
     rbind (validate_operator (nd_params n) parents) (\<lambda>names.
     rbind (raise_unless (map out_name (nd_outputs n) = names) ValueError) (\<lambda>_.
     rbind (expected_output_contracts (nd_params n) parents) (\<lambda>contracts.
     rbind (check_each (check_output contracts) (nd_outputs n)) (\<lambda>_.
     Inr (dput (nd_id n) (outputs_of n) seen))))))))"

fun check_nodes ::
    "(string, nat) dict \<Rightarrow> nat \<Rightarrow> sqg_node list \<Rightarrow> (string, outputs) dict \<Rightarrow> (string, outputs) dict res" where
  "check_nodes positions index [] seen = Inr seen"
| "check_nodes positions index (n # ns) seen =
     rbind (check_node positions index n seen) (\<lambda>seen'. check_nodes positions (Suc index) ns seen')"

definition sqg_ids :: "sqg \<Rightarrow> string list" where
  "sqg_ids g = map nd_id (sqg_nodes g)"

definition sqg_graph :: "sqg \<Rightarrow> adjacency" where
  "sqg_graph g = map (\<lambda>n. (nd_id n, nd_inputs n)) (sqg_nodes g)"

text \<open>\<open>{node_id: index for index, node_id in enumerate(ids)}\<close>.\<close>

definition position_index :: "string list \<Rightarrow> (string, nat) dict" where
  "position_index ids = dict_of (zip ids [0..<length ids])"

definition graph_is_deterministic :: "sqg \<Rightarrow> unit res" where
  "graph_is_deterministic g =
     rbind (raise_unless (distinct (sqg_ids g)) ValueError) (\<lambda>_.
     rbind (raise_unless (sqg_root g \<in> set (sqg_ids g)) ValueError) (\<lambda>_.
     rbind (check_nodes (position_index (sqg_ids g)) 0 (sqg_nodes g) []) (\<lambda>_.
     rbind (reachable_from (sqg_root g) (dict_of (sqg_graph g))) (\<lambda>ancestors.
     raise_unless (list_all (\<lambda>i. i \<in> set ancestors) (sqg_ids g)) ValueError))))"

text \<open>Constructing a \<open>SemanticQueryGraph\<close>: fields, then nodes, then the graph.\<close>

definition validate_graph :: "sqg \<Rightarrow> unit res" where
  "validate_graph g =
     rbind (raise_unless (identifier_ok (sqg_query_id g) \<and> identifier_ok (sqg_ontology_version g)
              \<and> identifier_ok (sqg_root g) \<and> sqg_nodes g \<noteq> [] \<and> list_all node_fields_ok (sqg_nodes g)) ValueError) (\<lambda>_.
     rbind (check_each output_names_are_unique (sqg_nodes g)) (\<lambda>_. graph_is_deterministic g))"

section \<open>Exceptions\<close>

lemma require_fields_ok [simp]: "require_fields fs a = Inr u \<longleftrightarrow> set fs \<subseteq> dom (dget a)"
  by (auto simp: require_fields_def list_all_iff dom_def)

lemma require_fields_raises [simp, raises]: "raises_only {ValueError} (require_fields fs a)"
  by (simp add: require_fields_def)

lemma aggregation_output_type_raises [simp, raises]: "raises_only {ValueError} (aggregation_output_type a t)"
  by (simp add: aggregation_output_type_def)

lemma validate_predicate_type_raises [simp, raises]: "raises_only {ValueError} (validate_predicate_type p t)"
  by (simp add: validate_predicate_type_def)

lemma inherited_contracts_total:
  "set fs \<subseteq> dom (dget a) \<Longrightarrow> inherited_contracts a fs = Inr (map (\<lambda>f. (f, contract_of (the (dget a f)))) fs)"
  unfolding inherited_contracts_def by (intro traverse_total) (auto simp: dict_item_def)

lemma operand_type_raises: "set (operand_fields x) \<subseteq> dom (dget a) \<Longrightarrow> raises_only E (operand_type a x)"
  by (induction a x rule: operand_type.induct) (auto intro!: raises)

lemma operand_nullable_raises: "set (operand_fields x) \<subseteq> dom (dget a) \<Longrightarrow> raises_only E (operand_nullable a x)"
  by (induction a x rule: operand_nullable.induct) (auto intro!: raises)

lemma derive_output_type_raises:
  "set (expression_fields e) \<subseteq> dom (dget a) \<Longrightarrow> raises_only {ValueError} (derive_output_type e a)"
  by (auto simp: derive_output_type_def expression_fields_def intro!: raises operand_type_raises)

lemma derive_output_nullable_raises:
  "set (expression_fields e) \<subseteq> dom (dget a) \<Longrightarrow> raises_only E (derive_output_nullable e a)"
  by (auto simp: derive_output_nullable_def expression_fields_def intro!: raises operand_nullable_raises)

lemma side_index_less [simp]: "side_index s < 2" "side_index s < Suc (Suc 0)"
  by (simp_all add: side_index_def split: side.splits)

lemma validate_operator_raises:
  "length ps = expected_inputs p \<Longrightarrow> raises_only {ValueError} (validate_operator p ps)"
  by (cases p) (auto simp: Let_def intro!: raises)

lemma expected_output_contracts_raises:
  assumes "validate_operator p ps = Inr names" "length ps = expected_inputs p"
  shows "raises_only {ValueError} (expected_output_contracts p ps)"
proof (cases p)
  case (Derive es)
  with assms show ?thesis
    by (clarsimp simp: Let_def list_item_def)
      (intro raises derive_output_type_raises derive_output_nullable_raises; blast)
qed (use assms in \<open>auto simp: Let_def inherited_contracts_total intro!: raises\<close>)

definition seen_before :: "(string, nat) dict \<Rightarrow> nat \<Rightarrow> (string, outputs) dict \<Rightarrow> bool" where
  "seen_before positions index seen \<longleftrightarrow>
     (\<forall>d p. dget positions d = Some p \<and> p < index \<longrightarrow> d \<in> dom (dget seen))"

lemma check_input_ok [simp]:
  "check_input positions index n d = Inr () \<longleftrightarrow> d \<noteq> nd_id n \<and> (\<exists>p < index. dget positions d = Some p)"
  by (auto simp: check_input_def split: option.splits)

lemma check_input_raises [simp, raises]: "raises_only {ValueError} (check_input positions index n d)"
  by (simp add: check_input_def split: option.splits)

lemma check_output_raises [simp, raises]: "raises_only {ValueError} (check_output cs f)"
  by (simp add: check_output_def split: option.splits)

text \<open>What a successful node check establishes.\<close>

lemma check_nodeE:
  assumes "check_node positions index n seen = Inr seen'"
  obtains parents contracts where
    "length (nd_inputs n) = expected_inputs (nd_params n)"
    "\<And>d. d \<in> set (nd_inputs n) \<Longrightarrow> d \<noteq> nd_id n \<and> (\<exists>p < index. dget positions d = Some p)"
    "list_all2 (\<lambda>d a. dget seen d = Some a) (nd_inputs n) parents"
    "validate_operator (nd_params n) parents = Inr (map out_name (nd_outputs n))"
    "expected_output_contracts (nd_params n) parents = Inr contracts"
    "\<And>f. f \<in> set (nd_outputs n) \<Longrightarrow> check_output contracts f = Inr ()"
    "seen' = dput (nd_id n) (outputs_of n) seen"
  using assms by (auto simp: check_node_def traverse_eq_Inr)

lemma check_node_raises:
  assumes "seen_before positions index seen"
  shows "raises_only {ValueError} (check_node positions index n seen)"
proof -
  have "d \<in> dom (dget seen)" if "check_each (check_input positions index n) (nd_inputs n) = Inr u" "d \<in> set (nd_inputs n)" for u d
    using assms that unfolding seen_before_def check_each_eq_Inr check_input_ok by blast
  then show ?thesis
    unfolding check_node_def
    by (intro raises validate_operator_raises expected_output_contracts_raises)
      (auto dest: traverse_length)
qed

lemma seen_before_step:
  assumes "seen_before positions index seen" "\<And>d. dget positions d = Some index \<Longrightarrow> d = nd_id n"
  shows "seen_before positions (Suc index) (dput (nd_id n) a seen)"
  using assms by (auto simp: seen_before_def less_Suc_eq dom_def)

lemma position_index_Some:
  assumes "distinct ids"
  shows "dget (position_index ids) d = Some p \<longleftrightarrow> p < length ids \<and> ids ! p = d"
proof -
  have "map fst (zip ids [0..<length ids]) = ids" by simp
  with assms have "dget (position_index ids) d = Some p \<longleftrightarrow> (d, p) \<in> set (zip ids [0..<length ids])"
    by (simp add: position_index_def)
  also have "\<dots> \<longleftrightarrow> p < length ids \<and> ids ! p = d" by (auto simp: set_zip)
  finally show ?thesis .
qed

lemma check_nodes_raises:
  assumes "distinct ids" "drop index ids = map nd_id ns" "seen_before (position_index ids) index seen"
  shows "raises_only {ValueError} (check_nodes (position_index ids) index ns seen)"
  using assms(2,3)
proof (induction ns arbitrary: index seen)
  case (Cons n ns)
  have lt: "index < length ids"
    using Cons.prems(1) by (metis drop_all leI list.simps(3,9))
  then have at: "ids ! index = nd_id n" "drop (Suc index) ids = map nd_id ns"
    using Cons.prems(1) Cons_nth_drop_Suc [OF lt, symmetric] by simp_all
  have "seen_before (position_index ids) (Suc index) seen'"
    if "check_node (position_index ids) index n seen = Inr seen'" for seen'
    using seen_before_step [OF Cons.prems(2)] at(1) that assms(1)
    by (auto simp: position_index_Some elim!: check_nodeE)
  with Cons show ?case
    by (auto intro!: raises check_node_raises Cons.IH simp: at)
qed simp

lemma check_nodes_inputs:
  assumes "check_nodes positions index ns seen = Inr seen'" "n \<in> set ns" "d \<in> set (nd_inputs n)"
  shows "\<exists>p. dget positions d = Some p"
  using assms by (induction ns arbitrary: index seen) (auto elim!: check_nodeE)

lemma graph_is_deterministic_raises: "raises_only {ValueError} (graph_is_deterministic g)"
proof -
  let ?ids = "sqg_ids g"
  have closed: "closed_graph (sqg_graph g)" if "distinct ?ids" "check_nodes (position_index ?ids) 0 (sqg_nodes g) [] = Inr seen" for seen
    using check_nodes_inputs [OF that(2)] that(1)
    by (fastforce simp: closed_graph_def sqg_graph_def node_ids_def position_index_Some sqg_ids_def comp_def)
  have ids: "node_ids (sqg_graph g) = ?ids"
    by (simp add: node_ids_def sqg_graph_def sqg_ids_def comp_def)
  have reach: "raises_only {ValueError} (reachable_from (sqg_root g) (dict_of (sqg_graph g)))"
    if "distinct ?ids" "sqg_root g \<in> set ?ids" "check_nodes (position_index ?ids) 0 (sqg_nodes g) [] = Inr seen" for seen
    using reachable_from_ok [OF closed [OF that(1,3)]] that ids
    by (metis dict_of_distinct node_ids_def raises_only_Inr)
  show ?thesis
    unfolding graph_is_deterministic_def
    by (intro raises reach check_nodes_raises) (auto simp: seen_before_def sqg_ids_def)
qed

lemma require_field_raises [simp, raises]: "raises_only {ValueError} (require_field idx e f)"
  by (simp add: require_field_def split: option.splits)

lemma entity_index_lookup:
  assumes "distinct (map ent_id es)" "dget (entity_index_of es) i = Some fs"
  obtains e where "find (\<lambda>e. ent_id e = i) es = Some e" "fs = dict_of (map (\<lambda>f. (fld_id f, f)) (ent_fields e))"
proof -
  have "dget (entity_index_of es) i = map_option (\<lambda>e. dict_of (map (\<lambda>f. (fld_id f, f)) (ent_fields e))) (find (\<lambda>e. ent_id e = i) es)"
    using assms(1) unfolding entity_index_of_def by (subst dget_dict_of_distinct) (simp_all add: comp_def map_of_keyed)
  with assms(2) that show thesis by auto
qed

lemma check_metric_raises:
  assumes "distinct (map ent_id es)"
  shows "raises_only {ValueError} (check_metric es m)"
proof (cases "require_field (entity_index_of es) (met_entity m) (met_field m)")
  case (Inl e)
  with require_field_raises [of "entity_index_of es" "met_entity m" "met_field m"] show ?thesis
    by (simp add: check_metric_def)
next
  case (Inr u)
  then obtain fs x where fs: "dget (entity_index_of es) (met_entity m) = Some fs" "dget fs (met_field m) = Some x"
    by (auto simp: require_field_def split: option.splits)
  obtain e where e: "find (\<lambda>e. ent_id e = met_entity m) es = Some e" "fs = dict_of (map (\<lambda>f. (fld_id f, f)) (ent_fields e))"
    using assms fs(1) by (rule entity_index_lookup)
  have "find (\<lambda>f. fld_id f = met_field m) (ent_fields e) \<noteq> None"
    using dget_dict_of_SomeD [OF fs(2) [unfolded e(2)]] by (auto simp: find_None_iff)
  then show ?thesis
    by (auto simp: check_metric_def Inr e(1) next_item_def intro!: raises)
qed

lemma check_relation_raises: "raises_only {ValueError} (check_relation es r)"
  unfolding check_relation_def Let_def index_field_def
  by (intro raises) (auto simp: require_field_def split: option.splits)

lemma validate_ontology_raises: "raises_only {ValueError} (validate_ontology ont)"
  unfolding validate_ontology_def concepts_are_consistent_def require_unique_def fields_are_unique_def
  by (intro raises check_metric_raises check_relation_raises) auto

lemma validate_graph_raises: "raises_only {ValueError} (validate_graph g)"
  unfolding validate_graph_def output_names_are_unique_def
  by (intro raises graph_is_deterministic_raises) auto

section \<open>A sample graph\<close>

text \<open>Sales joined to regions, with a sum per region name.\<close>

definition sample_ontology :: ontology where
  "sample_ontology = \<lparr>
     ont_id = ''shop'', ont_version = ''v1'',
     ont_entities =
       [\<lparr>ent_id = ''sale'', ent_fields =
           [\<lparr>fld_id = ''region'', fld_type = STRING, fld_nullable = False\<rparr>,
            \<lparr>fld_id = ''profit'', fld_type = DECIMAL, fld_nullable = True\<rparr>]\<rparr>,
        \<lparr>ent_id = ''region'', ent_fields =
           [\<lparr>fld_id = ''code'', fld_type = STRING, fld_nullable = False\<rparr>,
            \<lparr>fld_id = ''name'', fld_type = STRING, fld_nullable = False\<rparr>]\<rparr>],
     ont_metrics = [\<lparr>met_id = ''total'', met_entity = ''sale'', met_field = ''profit'', met_aggregation = AggSum\<rparr>],
     ont_relations = [\<lparr>rel_id = ''in'', rel_left_entity = ''sale'', rel_right_entity = ''region'',
        rel_left_field = ''region'', rel_right_field = ''code'', rel_cardinality = MANY_TO_ONE\<rparr>],
     ont_resolvers = []\<rparr>"

definition column :: "string \<Rightarrow> data_type \<Rightarrow> bool \<Rightarrow> output_field" where
  "column n t b = \<lparr>out_name = n, out_type = t, out_nullable = b\<rparr>"

definition sample_graph :: "data_type \<Rightarrow> sqg" where
  "sample_graph t = \<lparr>
     sqg_query_id = ''q'', sqg_ontology_version = ''v1'',
     sqg_nodes =
       [\<lparr>nd_id = ''s'', nd_inputs = [],
         nd_outputs = [column ''region'' STRING False, column ''profit'' DECIMAL True],
         nd_params = Select ''sale'' [''region'', ''profit'']\<rparr>,
        \<lparr>nd_id = ''r'', nd_inputs = [],
         nd_outputs = [column ''code'' STRING False, column ''name'' STRING False],
         nd_params = Select ''region'' [''code'', ''name'']\<rparr>,
        \<lparr>nd_id = ''j'', nd_inputs = [''s'', ''r''],
         nd_outputs = [column ''profit'' DECIMAL True, column ''name'' STRING True],
         nd_params = Join ''in'' ''region'' ''code'' LEFT
           [\<lparr>jp_source = LEFT_INPUT, jp_field = ''profit'', jp_name = ''profit''\<rparr>,
            \<lparr>jp_source = RIGHT_INPUT, jp_field = ''name'', jp_name = ''name''\<rparr>]\<rparr>,
        \<lparr>nd_id = ''a'', nd_inputs = [''j''],
         nd_outputs = [column ''name'' STRING True, column ''sum'' t True],
         nd_params = Aggregate [''name''] [\<lparr>msr_metric = ''total'', msr_source = ''profit'', msr_name = ''sum''\<rparr>]\<rparr>],
     sqg_root = ''a''\<rparr>"

lemma sample_graph_valid: "validate_ontology sample_ontology = Inr ()" "validate_graph (sample_graph DECIMAL) = Inr ()"
  by code_simp+

section \<open>Properties\<close>

text \<open>
  Every exception that constructing a query graph or an ontology can end
  with is the \<open>ValueError\<close> that pydantic reports: whatever the nodes contain, no
  subscript, no \<open>next(...)\<close> and no lookup of the validators fails, and the
  ancestor loop of the graph validator ends.
\<close>

theorem contract_errors_are_reported:
  "validate_graph g \<in> {Inr (), Inl ValueError} \<and> validate_ontology ont \<in> {Inr (), Inl ValueError}"
  using validate_graph_raises [of g] validate_ontology_raises [of ont]
  by (cases "validate_graph g"; cases "validate_ontology ont") auto

text \<open>
  C40: A query graph that is accepted has unique node identifiers, lists every
  input before the node that reads it, with as many inputs as the operator
  takes, and every node contributes to the root.
\<close>

theorem accepted_graph_shape:
  assumes "validate_graph g = Inr ()"
  shows "distinct (sqg_ids g)
    \<and> (\<forall>i < length (sqg_nodes g). length (nd_inputs (sqg_nodes g ! i)) = expected_inputs (nd_params (sqg_nodes g ! i))
        \<and> (\<forall>d \<in> set (nd_inputs (sqg_nodes g ! i)). \<exists>j < i. sqg_ids g ! j = d))
    \<and> (\<forall>n \<in> set (sqg_nodes g). (nd_id n, sqg_root g) \<in> (edges (sqg_graph g))\<^sup>*)"
proof -
  obtain seen R where d: "distinct (sqg_ids g)" and root: "sqg_root g \<in> set (sqg_ids g)"
    and seen: "check_nodes (position_index (sqg_ids g)) 0 (sqg_nodes g) [] = Inr seen"
    and R: "reachable_from (sqg_root g) (dict_of (sqg_graph g)) = Inr R" "set (sqg_ids g) \<subseteq> set R"
    using assms by (auto simp: validate_graph_def graph_is_deterministic_def list_all_iff subset_iff)
  have ids: "node_ids (sqg_graph g) = sqg_ids g"
    by (simp add: node_ids_def sqg_graph_def sqg_ids_def comp_def)
  have inputs: "length (nd_inputs n) = expected_inputs (nd_params n)
      \<and> (\<forall>x \<in> set (nd_inputs n). \<exists>p < i + j. dget positions x = Some p)"
    if "check_nodes positions i ns seen = Inr seen'" "j < length ns" "n = ns ! j" for positions i ns seen seen' n j
    using that
  proof (induction ns arbitrary: i seen j)
    case (Cons m ns)
    show ?case
    proof (cases j)
      case 0
      with Cons.prems show ?thesis by (auto elim!: check_nodeE)
    next
      case (Suc k)
      obtain seen1 where "check_nodes positions (Suc i) ns seen1 = Inr seen'" using Cons.prems(1) by auto
      from Cons.IH [OF this] Cons.prems(2,3) Suc show ?thesis by simp
    qed
  qed simp
  have closed: "closed_graph (sqg_graph g)"
    using check_nodes_inputs [OF seen] d
    by (fastforce simp: closed_graph_def sqg_graph_def node_ids_def position_index_Some sqg_ids_def comp_def)
  have same: "dict_of (sqg_graph g) = sqg_graph g"
    by (rule dict_of_distinct) (use d ids in \<open>simp add: node_ids_def\<close>)
  obtain R' where "reachable_from (sqg_root g) (sqg_graph g) = Inr R'"
      "set R' = {i. (i, sqg_root g) \<in> (edges (sqg_graph g))\<^sup>*}"
    using d root ids by (auto intro: reachable_from_ok [OF closed, of "sqg_root g"])
  then have "set R = {i. (i, sqg_root g) \<in> (edges (sqg_graph g))\<^sup>*}"
    using R(1) same by simp
  with R(2) have "\<forall>n \<in> set (sqg_nodes g). (nd_id n, sqg_root g) \<in> (edges (sqg_graph g))\<^sup>*"
    by (auto simp: sqg_ids_def)
  moreover have "\<forall>i < length (sqg_nodes g). length (nd_inputs (sqg_nodes g ! i)) = expected_inputs (nd_params (sqg_nodes g ! i))
        \<and> (\<forall>d \<in> set (nd_inputs (sqg_nodes g ! i)). \<exists>j < i. sqg_ids g ! j = d)"
    using inputs [OF seen] d by (fastforce simp: position_index_Some)
  ultimately show ?thesis using d by blast
qed

theorem accepted_graph_shape_witness:
  "distinct (sqg_ids (sample_graph DECIMAL)) \<and> validate_graph (sample_graph DECIMAL) = Inr ()
   \<and> (''s'', ''a'') \<in> (edges (sqg_graph (sample_graph DECIMAL)))\<^sup>*"
  using accepted_graph_shape [OF sample_graph_valid(2)] sample_graph_valid(2) by (simp add: sample_graph_def)

end
