(* ===== verification/Sqg_Semantics.thy ===== *)
theory Sqg_Semantics
  imports Sqg_Contract
begin

text \<open>
  The semantic check of \<open>semantic_core/validation.py\<close>: a structurally valid
  query graph is read against an ontology, node by node, tracking for every
  output column the ontology fields it derives from (its lineage) and the
  fields it carries unchanged (its direct bindings). The check raises
  \<open>SemanticValidationError\<close>; its subscripts, \<open>next(...)\<close> calls and the shared
  \<open>aggregation_output_type\<close> could raise other exceptions, and are modelled so.

  The results are those of a type system: on a graph and an ontology that
  passed their own validators the check raises nothing but
  \<open>SemanticValidationError\<close>, and a graph it accepts uses every ontology field
  at the type and nullability the ontology gives it.
\<close>

section \<open>State\<close>

record direct_binding =
  bnd_entity :: string
  bnd_field :: string
  bnd_nullable :: bool

type_synonym lineage = "(string, (string \<times> string) set) dict"
type_synonym bindings = "(string, direct_binding set) dict"

record semantic_state =
  st_entities :: "(string, string set) dict"
  st_lineage :: "(string, lineage) dict"
  st_bindings :: "(string, bindings) dict"

definition matches_source :: "direct_binding \<Rightarrow> string \<times> string \<Rightarrow> bool" where
  "matches_source b source = ((bnd_entity b, bnd_field b) = source)"

definition with_effective_nullability :: "direct_binding set \<Rightarrow> bool \<Rightarrow> direct_binding set" where
  "with_effective_nullability bs nullable = (\<lambda>b. b\<lparr>bnd_nullable := bnd_nullable b \<or> nullable\<rparr>) ` bs"

abbreviation semantic_unless :: "bool \<Rightarrow> unit res" where
  "semantic_unless b \<equiv> raise_unless b SemanticValidationError"

section \<open>SELECT\<close>

definition check_selected :: "(string, ontology_field) dict \<Rightarrow> output_field \<Rightarrow> unit res" where
  "check_selected fs out =
     rbind (dict_item fs (out_name out)) (\<lambda>f.
     rbind (semantic_unless (out_type out = fld_type f)) (\<lambda>_.
     semantic_unless (out_nullable out = fld_nullable f)))"

definition select_node ::
    "entity_index \<Rightarrow> string \<Rightarrow> string list \<Rightarrow> sqg_node \<Rightarrow> (string set \<times> lineage \<times> bindings) res" where
  "select_node idx e selected n =
     rbind (from_option SemanticValidationError (dget idx e)) (\<lambda>fs.
     rbind (check_each (\<lambda>f. semantic_unless (dget fs f \<noteq> None)) selected) (\<lambda>_.
     rbind (check_each (check_selected fs) (nd_outputs n)) (\<lambda>_.
     Inr ({e},
          dict_of (map (\<lambda>f. (out_name f, {(e, out_name f)})) (nd_outputs n)),
          dict_of (map (\<lambda>f. (out_name f,
            {\<lparr>bnd_entity = e, bnd_field = out_name f, bnd_nullable = out_nullable f\<rparr>})) (nd_outputs n))))))"

section \<open>Measures and relations\<close>

definition check_measure ::
    "entity_index \<Rightarrow> (string, metric) dict \<Rightarrow> string set \<Rightarrow> bindings list \<Rightarrow> string list \<Rightarrow> sqg_node \<Rightarrow> measure_ref \<Rightarrow> unit res" where
  "check_measure idx metrics inherited inputs group_by n m =
     rbind (from_option SemanticValidationError (dget metrics (msr_metric m))) (\<lambda>metric.
     rbind (semantic_unless (met_entity metric \<in> inherited)) (\<lambda>_.
     rbind (list_item inputs 0) (\<lambda>bs.
     rbind (dict_item bs (msr_source m)) (\<lambda>candidates.
     let source_bindings = Set.filter (\<lambda>b. matches_source b (met_entity metric, met_field metric)) candidates
     in rbind (semantic_unless (source_bindings \<noteq> {})) (\<lambda>_.
        rbind (semantic_unless (card source_bindings = 1)) (\<lambda>_.
        rbind (next_item (\<lambda>f. out_name f = msr_name m) (nd_outputs n)) (\<lambda>out.
        rbind (index_field idx (met_entity metric) (met_field metric)) (\<lambda>f.
        rbind (aggregation_output_type (met_aggregation metric) (fld_type f)) (\<lambda>expected_type.
        rbind (semantic_unless (out_type out = expected_type)) (\<lambda>_.
        let source_nullable = (\<exists>b \<in> source_bindings. bnd_nullable b);
            expected_nullable = (met_aggregation metric \<notin> {AggCount, AggCountDistinct}
                                   \<and> (source_nullable \<or> group_by = []))
        in semantic_unless (out_nullable out = expected_nullable)))))))))))"

type_synonym orientation = "(string \<times> string) \<times> (string \<times> string)"

definition relation_orientations :: "relation \<Rightarrow> string set \<Rightarrow> string set \<Rightarrow> orientation list" where
  "relation_orientations r left right =
     (let lf = (rel_left_entity r, rel_left_field r); rf = (rel_right_entity r, rel_right_field r);
          forward = (if rel_left_entity r \<in> left \<and> rel_right_entity r \<in> right then [(lf, rf)] else []);
          backward = (if rel_right_entity r \<in> left \<and> rel_left_entity r \<in> right then [(rf, lf)] else [])
      in forward @ filter (\<lambda>orient. orient \<notin> set forward) backward)"

definition check_join ::
    "(string, relation) dict \<Rightarrow> string set list \<Rightarrow> bindings list \<Rightarrow> string \<Rightarrow> string \<Rightarrow> string \<Rightarrow> unit res" where
  "check_join relations entities inputs rel lk rk =
     rbind (from_option SemanticValidationError (dget relations rel)) (\<lambda>r.
     rbind (list_item entities 0) (\<lambda>left.
     rbind (list_item entities 1) (\<lambda>right.
     let orientations = relation_orientations r left right
     in rbind (semantic_unless (orientations \<noteq> [])) (\<lambda>_.
        rbind (list_item inputs 0) (\<lambda>lb.
        rbind (dict_item lb lk) (\<lambda>lks.
        rbind (list_item inputs 1) (\<lambda>rb.
        rbind (dict_item rb rk) (\<lambda>rks.
        rbind (semantic_unless (card lks = 1 \<and> card rks = 1)) (\<lambda>_.
        semantic_unless (length (filter (\<lambda>orient.
          matches_source (the_elem lks) (fst orient) \<and> matches_source (the_elem rks) (snd orient)) orientations) = 1))))))))))"

section \<open>Propagation\<close>

definition carry_lineage :: "lineage \<Rightarrow> string list \<Rightarrow> (string \<times> (string \<times> string) set) list res" where
  "carry_lineage l names = traverse (\<lambda>x. rbind (dict_item l x) (\<lambda>s. Inr (x, s))) names"

definition carry_bindings :: "bindings \<Rightarrow> output_field list \<Rightarrow> (string \<times> direct_binding set) list res" where
  "carry_bindings b outs =
     traverse (\<lambda>f. rbind (dict_item b (out_name f)) (\<lambda>s.
       Inr (out_name f, with_effective_nullability s (out_nullable f)))) outs"

definition expression_lineage :: "lineage \<Rightarrow> derive_expression \<Rightarrow> (string \<times> string) set res" where
  "expression_lineage l e =
     rbind (traverse (dict_item l) (expression_fields e)) (\<lambda>ss. Inr (\<Union> (set ss)))"

fun propagate ::
    "(string, metric) dict \<Rightarrow> sqg_node \<Rightarrow> node_params \<Rightarrow> lineage list \<Rightarrow> bindings list \<Rightarrow> (lineage \<times> bindings) res" where
  "propagate metrics n (Derive es) ls bs =
     rbind (list_item ls 0) (\<lambda>l.
     rbind (carry_lineage l (filter (\<lambda>x. dget l x \<noteq> None) (map out_name (nd_outputs n)))) (\<lambda>kept.
     rbind (list_item bs 0) (\<lambda>b.
     rbind (carry_bindings b (filter (\<lambda>f. dget b (out_name f) \<noteq> None) (nd_outputs n))) (\<lambda>bound.
     rbind (traverse (\<lambda>e. rbind (expression_lineage l e) (\<lambda>s. Inr (drv_name e, s))) es) (\<lambda>derived.
     Inr (dict_of (kept @ derived), dict_of (bound @ map (\<lambda>e. (drv_name e, {})) es)))))))"
| "propagate metrics n (Aggregate g ms) ls bs =
     rbind (list_item ls 0) (\<lambda>l.
     rbind (carry_lineage l g) (\<lambda>kept.
     rbind (list_item bs 0) (\<lambda>b.
     rbind (traverse (\<lambda>x. rbind (dict_item b x) (\<lambda>s.
              rbind (next_item (\<lambda>f. out_name f = x) (nd_outputs n)) (\<lambda>f.
              Inr (x, with_effective_nullability s (out_nullable f))))) g) (\<lambda>bound.
     rbind (traverse (\<lambda>m. rbind (dict_item metrics (msr_metric m)) (\<lambda>metric.
              Inr (msr_name m, {(met_entity metric, met_field metric)}))) ms) (\<lambda>measured.
     Inr (dict_of (kept @ measured), dict_of (bound @ map (\<lambda>m. (msr_name m, {})) ms)))))))"
| "propagate metrics n (Pivot i c v agg xs) ls bs =
     rbind (list_item ls 0) (\<lambda>l.
     rbind (dict_item l v) (\<lambda>vl.
     rbind (dict_item l c) (\<lambda>cl.
     rbind (carry_lineage l i) (\<lambda>kept.
     rbind (list_item bs 0) (\<lambda>b.
     rbind (traverse (\<lambda>x. rbind (dict_item b x) (\<lambda>s. Inr (x, s))) i) (\<lambda>bound.
     Inr (dict_of (kept @ map (\<lambda>x. (x, vl \<union> cl)) xs), dict_of (bound @ map (\<lambda>x. (x, {})) xs))))))))"
| "propagate metrics n (Join rel lk rk k js) ls bs =
     rbind (traverse (\<lambda>j. rbind (list_item ls (side_index (jp_source j))) (\<lambda>l.
              rbind (dict_item l (jp_field j)) (\<lambda>s. Inr (jp_name j, s)))) js) (\<lambda>kept.
     rbind (traverse (\<lambda>j. rbind (list_item bs (side_index (jp_source j))) (\<lambda>b.
              rbind (dict_item b (jp_field j)) (\<lambda>s.
              rbind (dict_item (outputs_of n) (jp_name j)) (\<lambda>f.
              Inr (jp_name j, with_effective_nullability s (out_nullable f)))))) js) (\<lambda>bound.
     Inr (dict_of kept, dict_of bound)))"
| "propagate metrics n _ ls bs =
     rbind (list_item ls 0) (\<lambda>l.
     rbind (carry_lineage l (map out_name (nd_outputs n))) (\<lambda>kept.
     rbind (list_item bs 0) (\<lambda>b.
     rbind (carry_bindings b (nd_outputs n)) (\<lambda>bound.
     Inr (dict_of kept, dict_of bound)))))"

section \<open>The check\<close>

definition semantic_checks ::
    "ontology \<Rightarrow> sqg_node \<Rightarrow> string set list \<Rightarrow> bindings list \<Rightarrow> unit res" where
  "semantic_checks ont n es bs =
     (case nd_params n of
        Aggregate g ms \<Rightarrow>
          check_each (check_measure (entity_index_of (ont_entities ont))
            (dict_of (map (\<lambda>m. (met_id m, m)) (ont_metrics ont))) (\<Union> (set es)) bs g n) ms
      | Join rel lk rk k js \<Rightarrow>
          check_join (dict_of (map (\<lambda>r. (rel_id r, r)) (ont_relations ont))) es bs rel lk rk
      | _ \<Rightarrow> Inr ())"

definition record_node ::
    "sqg_node \<Rightarrow> string set \<times> lineage \<times> bindings \<Rightarrow> semantic_state \<Rightarrow> semantic_state" where
  "record_node n r st =
     (case r of (e, l, b) \<Rightarrow>
        \<lparr>st_entities = dput (nd_id n) e (st_entities st),
         st_lineage = dput (nd_id n) l (st_lineage st),
         st_bindings = dput (nd_id n) b (st_bindings st)\<rparr>)"

definition semantic_node :: "ontology \<Rightarrow> sqg_node \<Rightarrow> semantic_state \<Rightarrow> semantic_state res" where
  "semantic_node ont n st =
     (case nd_params n of
        Select e selected \<Rightarrow>
          rbind (select_node (entity_index_of (ont_entities ont)) e selected n) (\<lambda>r. Inr (record_node n r st))
      | _ \<Rightarrow>
          rbind (traverse (dict_item (st_entities st)) (nd_inputs n)) (\<lambda>es.
          rbind (traverse (dict_item (st_lineage st)) (nd_inputs n)) (\<lambda>ls.
          rbind (traverse (dict_item (st_bindings st)) (nd_inputs n)) (\<lambda>bs.
          rbind (semantic_checks ont n es bs) (\<lambda>_.
          rbind (propagate (dict_of (map (\<lambda>m. (met_id m, m)) (ont_metrics ont))) n (nd_params n) ls bs) (\<lambda>(l, b).
          Inr (record_node n (\<Union> (set es), l, b) st)))))))"

fun semantic_nodes :: "ontology \<Rightarrow> sqg_node list \<Rightarrow> semantic_state \<Rightarrow> semantic_state res" where
  "semantic_nodes ont [] st = Inr st"
| "semantic_nodes ont (n # ns) st = rbind (semantic_node ont n st) (\<lambda>st'. semantic_nodes ont ns st')"

definition empty_semantic_state :: semantic_state where
  "empty_semantic_state = \<lparr>st_entities = [], st_lineage = [], st_bindings = []\<rparr>"

definition validate_sqg :: "sqg \<Rightarrow> ontology \<Rightarrow> unit res" where
  "validate_sqg g ont =
     rbind (semantic_unless (sqg_ontology_version g = ont_version ont)) (\<lambda>_.
     rbind (semantic_nodes ont (sqg_nodes g) empty_semantic_state) (\<lambda>_. Inr ()))"

end
