(* ===== verification/Sqg_Typing.thy ===== *)
theory Sqg_Typing
  imports Sqg_Semantics
begin

text \<open>
  Soundness of the semantic check of \<open>semantic_core/validation.py\<close>, in the
  manner of a type system. A column is sound when its lineage names ontology
  fields and every direct binding carries such a field at the type and the
  nullability the column declares; every operator keeps this invariant
  (preservation), and on a structurally valid graph the check never runs into
  another exception than its own (progress). The consequence for an accepted
  graph is \<open>typed_node\<close>: selected columns, measures and join keys have the
  types the ontology prescribes.
\<close>

section \<open>Sound columns\<close>

lemma dget_outputs_of:
  "distinct (map out_name (nd_outputs n)) \<Longrightarrow>
   dget (outputs_of n) c = Some f \<longleftrightarrow> f \<in> set (nd_outputs n) \<and> out_name f = c"
  using dget_dict_of_keyed [of out_name "nd_outputs n" _ "\<lambda>f. f"]
  by (auto simp: outputs_of_def dest: dget_dict_of_SomeD)

definition known_field :: "entity_index \<Rightarrow> string \<Rightarrow> string \<Rightarrow> ontology_field \<Rightarrow> bool" where
  "known_field idx e f x \<longleftrightarrow> (\<exists>fs. dget idx e = Some fs \<and> dget fs f = Some x)"

text \<open>
  A column with its lineage and its direct bindings: the lineage names fields of
  the ontology, and a direct binding carries such a field at the type the
  column declares, and at its nullability.
\<close>

definition column_sound ::
    "entity_index \<Rightarrow> string set \<Rightarrow> output_field \<Rightarrow> (string \<times> string) set \<Rightarrow> direct_binding set \<Rightarrow> bool" where
  "column_sound idx es f lin bs \<longleftrightarrow>
     (\<forall>(e, c) \<in> lin. \<exists>x. known_field idx e c x) \<and>
     (\<forall>b \<in> bs. bnd_entity b \<in> es \<and> (bnd_entity b, bnd_field b) \<in> lin \<and> bnd_nullable b = out_nullable f
        \<and> (\<exists>x. known_field idx (bnd_entity b) (bnd_field b) x \<and> fld_type x = out_type f))"

definition node_sound :: "entity_index \<Rightarrow> string set \<Rightarrow> outputs \<Rightarrow> lineage \<Rightarrow> bindings \<Rightarrow> bool" where
  "node_sound idx es out lin bnd \<longleftrightarrow>
     distinct (map fst out) \<and> dom (dget lin) = dom (dget out) \<and> dom (dget bnd) = dom (dget out) \<and>
     (\<forall>c f s bs. dget out c = Some f \<longrightarrow> dget lin c = Some s \<longrightarrow> dget bnd c = Some bs
        \<longrightarrow> column_sound idx es f s bs)"

lemma column_sound_carry:
  assumes "column_sound idx es g lin bs" "es \<subseteq> es'" "out_type f = out_type g" "out_nullable g \<longrightarrow> out_nullable f"
  shows "column_sound idx es' f lin (with_effective_nullability bs (out_nullable f))"
  using assms by (fastforce simp: column_sound_def with_effective_nullability_def)

lemma column_sound_mono:
  assumes "column_sound idx es g lin bs" "es \<subseteq> es'" "contract_of f = contract_of g"
  shows "column_sound idx es' f lin bs"
  using assms by (fastforce simp: column_sound_def contract_of_def)

lemma column_sound_lineage: "column_sound idx es f lin bs \<Longrightarrow> column_sound idx es' g lin {}"
  by (simp add: column_sound_def)

lemma column_sound_Union:
  "(\<And>s. s \<in> S \<Longrightarrow> column_sound idx es f s {}) \<Longrightarrow> column_sound idx es f (\<Union> S) {}"
  by (fastforce simp: column_sound_def)

lemma node_soundI:
  assumes "distinct (map out_name (nd_outputs n))"
    "fst ` set ls = out_name ` set (nd_outputs n)" "fst ` set bs = out_name ` set (nd_outputs n)"
    "\<And>f s t. f \<in> set (nd_outputs n) \<Longrightarrow> dget (dict_of ls) (out_name f) = Some s \<Longrightarrow>
       dget (dict_of bs) (out_name f) = Some t \<Longrightarrow> column_sound idx es f s t"
  shows "node_sound idx es (outputs_of n) (dict_of ls) (dict_of bs)"
  using assms
  by (auto simp: node_sound_def dget_outputs_of dict_of_distinct comp_def)
    (auto simp: outputs_of_def dict_of_distinct comp_def image_image)

lemma node_sound_column:
  assumes "node_sound idx es out lin bnd" "c \<in> dom (dget out)"
  obtains f s bs where "dget out c = Some f" "dget lin c = Some s" "dget bnd c = Some bs" "column_sound idx es f s bs"
  using assms unfolding node_sound_def by (metis domD)

lemma carry_lineage_total:
  "set names \<subseteq> dom (dget l) \<Longrightarrow> carry_lineage l names = Inr (map (\<lambda>x. (x, the (dget l x))) names)"
  unfolding carry_lineage_def by (intro traverse_total) (auto simp: dict_item_def)

lemma carry_bindings_total:
  "out_name ` set fs \<subseteq> dom (dget b) \<Longrightarrow>
   carry_bindings b fs = Inr (map (\<lambda>f. (out_name f, with_effective_nullability (the (dget b (out_name f))) (out_nullable f))) fs)"
  unfolding carry_bindings_def by (intro traverse_total) (auto simp: dict_item_def)

lemma expression_lineage_total:
  "set (expression_fields e) \<subseteq> dom (dget l) \<Longrightarrow>
   expression_lineage l e = Inr (\<Union>x \<in> set (expression_fields e). the (dget l x))"
  unfolding expression_lineage_def
  by (subst traverse_total [where g = "\<lambda>x. the (dget l x)"]) (auto simp: dict_item_def)

text \<open>The contract a node check enforces on the columns it passes through.\<close>

lemma check_output_ok: "check_output cs f = Inr () \<Longrightarrow> dget cs (out_name f) = Some c \<Longrightarrow> contract_of f = c"
  by (cases c) (simp add: check_output_def contract_of_def)

lemma inherited_dict:
  "distinct (map fst a) \<Longrightarrow> dget (dict_of (map (\<lambda>(n, f). (n, contract_of f)) a)) c = map_option contract_of (dget a c)"
  by (subst dget_dict_of_distinct) (simp add: comp_def case_prod_beta, simp add: map_of_map)

text \<open>A node that passes columns of its only input through unchanged.\<close>

lemma pass_through_sound:
  assumes sound: "node_sound idx es out l b" and d: "distinct (map out_name (nd_outputs n))"
    and names: "out_name ` set (nd_outputs n) \<subseteq> dom (dget out)"
    and contract: "\<And>f g. f \<in> set (nd_outputs n) \<Longrightarrow> dget out (out_name f) = Some g \<Longrightarrow> contract_of f = contract_of g"
  shows "\<exists>L B. carry_lineage l (map out_name (nd_outputs n)) = Inr L \<and> carry_bindings b (nd_outputs n) = Inr B
           \<and> node_sound idx es (outputs_of n) (dict_of L) (dict_of B)"
proof -
  let ?L = "map (\<lambda>x. (x, the (dget l x))) (map out_name (nd_outputs n))"
  let ?B = "map (\<lambda>f. (out_name f, with_effective_nullability (the (dget b (out_name f))) (out_nullable f))) (nd_outputs n)"
  have dom: "dom (dget l) = dom (dget out)" "dom (dget b) = dom (dget out)"
    using sound by (auto simp: node_sound_def)
  have "node_sound idx es (outputs_of n) (dict_of ?L) (dict_of ?B)"
  proof (rule node_soundI [OF d])
    fix f s t
    assume f: "f \<in> set (nd_outputs n)" and s: "dget (dict_of ?L) (out_name f) = Some s"
      and t: "dget (dict_of ?B) (out_name f) = Some t"
    from f names have "out_name f \<in> dom (dget out)" by blast
    then obtain g s' b' where g: "dget out (out_name f) = Some g" "dget l (out_name f) = Some s'"
        "dget b (out_name f) = Some b'" "column_sound idx es g s' b'"
      using sound by (blast elim: node_sound_column)
    have "s = s'" using s f g by (simp add: dget_dict_of_map del: map_map)
    moreover have "t = with_effective_nullability b' (out_nullable f)"
      using t f g dget_dict_of_keyed [OF d f, of "\<lambda>f. with_effective_nullability (the (dget b (out_name f))) (out_nullable f)"]
      by simp
    ultimately show "column_sound idx es f s t"
      using column_sound_carry [OF g(4), of es f] contract [OF f g(1)] by (simp add: contract_of_def)
  qed (simp_all add: image_image)
  moreover have "carry_lineage l (map out_name (nd_outputs n)) = Inr ?L"
    using names dom by (intro carry_lineage_total) simp
  moreover have "carry_bindings b (nd_outputs n) = Inr ?B"
    using names dom by (intro carry_bindings_total) simp
  ultimately show ?thesis by blast
qed

text \<open>
  A node with carried columns (names \<open>A\<close>) and new ones (names \<open>D\<close>): the two
  groups can be looked at separately.
\<close>

lemma mixed_soundI:
  assumes d: "distinct (map out_name (nd_outputs n))"
    and keys: "fst ` set L1 = A" "fst ` set B1 = A" "fst ` set L2 = D" "fst ` set B2 = D"
      "A \<union> D = out_name ` set (nd_outputs n)" "A \<inter> D = {}"
    and carried: "\<And>f s t. f \<in> set (nd_outputs n) \<Longrightarrow> out_name f \<in> A \<Longrightarrow> dget (dict_of L1) (out_name f) = Some s \<Longrightarrow>
      dget (dict_of B1) (out_name f) = Some t \<Longrightarrow> column_sound idx es f s t"
    and new: "\<And>f s t. f \<in> set (nd_outputs n) \<Longrightarrow> out_name f \<in> D \<Longrightarrow> dget (dict_of L2) (out_name f) = Some s \<Longrightarrow>
      dget (dict_of B2) (out_name f) = Some t \<Longrightarrow> column_sound idx es f s t"
  shows "node_sound idx es (outputs_of n) (dict_of (L1 @ L2)) (dict_of (B1 @ B2))"
proof (rule node_soundI [OF d])
  show "fst ` set (L1 @ L2) = out_name ` set (nd_outputs n)" "fst ` set (B1 @ B2) = out_name ` set (nd_outputs n)"
    using keys by (simp_all add: image_Un)
  fix f s t
  assume f: "f \<in> set (nd_outputs n)" and st: "dget (dict_of (L1 @ L2)) (out_name f) = Some s"
    "dget (dict_of (B1 @ B2)) (out_name f) = Some t"
  show "column_sound idx es f s t"
  proof (cases "out_name f \<in> D")
    case True
    then obtain s' t' where "dget (dict_of L2) (out_name f) = Some s'" "dget (dict_of B2) (out_name f) = Some t'"
      using keys(3,4) dom_dict_of by (metis domD)
    with st new [OF f True] show ?thesis by (simp add: dget_dict_of_append)
  next
    case False
    then have "dget (dict_of L2) (out_name f) = None" "dget (dict_of B2) (out_name f) = None"
      using keys(3,4) by (simp_all add: dget_dict_of_None)
    moreover have "out_name f \<in> A" using f False keys(5) by blast
    ultimately show ?thesis using st carried [OF f] by (simp add: dget_dict_of_append)
  qed
qed

lemma column_sound_parent:
  assumes "node_sound idx es out l b" "c \<in> dom (dget out)"
  shows "column_sound idx es' f (the (dget l c)) {}"
  using assms by (rule node_sound_column) (auto intro: column_sound_lineage)

lemma derive_sound:
  assumes sound: "node_sound idx es out l b" and d: "distinct (map out_name (nd_outputs n))"
    and ok: "validate_operator (Derive xs) [out] = Inr (map out_name (nd_outputs n))"
    and cs: "expected_output_contracts (Derive xs) [out] = Inr cs"
    and out: "\<And>f. f \<in> set (nd_outputs n) \<Longrightarrow> check_output cs f = Inr ()"
  shows "\<exists>L B. propagate ms n (Derive xs) [l] [b] = Inr (L, B) \<and> node_sound idx es (outputs_of n) L B"
proof -
  have dom: "dom (dget l) = dom (dget out)" "dom (dget b) = dom (dget out)" "distinct (map fst out)"
    using sound by (auto simp: node_sound_def)
  have names: "map out_name (nd_outputs n) = dkeys out @ map drv_name xs"
      "distinct (map drv_name xs)" "\<And>x. x \<in> set xs \<Longrightarrow> dget out (drv_name x) = None"
      "\<And>x. x \<in> set xs \<Longrightarrow> set (expression_fields x) \<subseteq> dom (dget out)"
    using ok by (auto simp: Let_def list_all_iff list_item_def)
  have all: "out_name ` set (nd_outputs n) = dom (dget out) \<union> drv_name ` set xs"
    using arg_cong [OF names(1), of set] by (simp add: set_dkeys)
  let ?kept = "filter (\<lambda>x. dget l x \<noteq> None) (map out_name (nd_outputs n))"
  let ?bound = "filter (\<lambda>f. dget b (out_name f) \<noteq> None) (nd_outputs n)"
  let ?eff = "\<lambda>f. with_effective_nullability (the (dget b (out_name f))) (out_nullable f)"
  let ?L1 = "map (\<lambda>x. (x, the (dget l x))) ?kept"
  let ?L2 = "map (\<lambda>x. (drv_name x, \<Union>y \<in> set (expression_fields x). the (dget l y))) xs"
  let ?B1 = "map (\<lambda>f. (out_name f, ?eff f)) ?bound"
  let ?B2 = "map (\<lambda>x. (drv_name x, {} :: direct_binding set)) xs"
  have kept: "carry_lineage l ?kept = Inr ?L1"
    by (intro carry_lineage_total) auto
  have bound: "carry_bindings b ?bound = Inr ?B1"
    by (intro carry_bindings_total) auto
  have derived: "traverse (\<lambda>e. rbind (expression_lineage l e) (\<lambda>s. Inr (drv_name e, s))) xs = Inr ?L2"
    by (intro traverse_total) (simp add: names(4) dom expression_lineage_total)
  have "propagate ms n (Derive xs) [l] [b] = Inr (dict_of (?L1 @ ?L2), dict_of (?B1 @ ?B2))"
    by (simp only: propagate.simps list_item_Cons rbind_Inr kept bound derived)
  moreover have "node_sound idx es (outputs_of n) (dict_of (?L1 @ ?L2)) (dict_of (?B1 @ ?B2))"
  proof (rule mixed_soundI [OF d, of _ "dom (dget out)" _ _ "drv_name ` set xs"])
    have "out_name ` set ?bound = {x \<in> out_name ` set (nd_outputs n). x \<in> dom (dget b)}" by auto
    also have "\<dots> = dom (dget out)" unfolding all dom(2) by blast
    finally show "fst ` set ?B1 = dom (dget out)" by (simp add: image_image)
    have "set ?kept = dom (dget out)" using all dom(1) by (auto simp del: filter_map)
    then show "fst ` set ?L1 = dom (dget out)" by (simp add: image_image del: filter_map map_map)
  next
    fix f s t
    assume f: "f \<in> set (nd_outputs n)" and c: "out_name f \<in> dom (dget out)"
      and s: "dget (dict_of ?L1) (out_name f) = Some s" and t: "dget (dict_of ?B1) (out_name f) = Some t"
    obtain g s' b' where g: "dget out (out_name f) = Some g" "dget l (out_name f) = Some s'"
        "dget b (out_name f) = Some b'" "column_sound idx es g s' b'"
      using sound c by (blast elim: node_sound_column)
    have "s = s'" using s f g by (simp add: dget_dict_of_map del: map_map filter_map)
    moreover have "t = with_effective_nullability b' (out_nullable f)"
      using t f g dget_dict_of_keyed [of out_name ?bound f ?eff] by (simp add: distinct_map_filter d)
    moreover have "contract_of f = contract_of g"
    proof (rule check_output_ok [OF out [OF f]])
      obtain ds where ds: "map fst ds = map drv_name xs" "cs = dict_of (map (\<lambda>(n, f). (n, contract_of f)) out @ ds)"
        using cs by (auto dest: traverse_keys [where k = drv_name])
      have "out_name f \<notin> fst ` set ds" using g(1) names(3) arg_cong [OF ds(1), of set] by auto
      then show "dget cs (out_name f) = Some (contract_of g)"
        using g(1) dom(3) by (simp add: ds(2) dget_dict_of_append dget_dict_of_None inherited_dict)
    qed
    ultimately show "column_sound idx es f s t"
      using column_sound_carry [OF g(4), of es f] by (simp add: contract_of_def)
  next
    fix f :: output_field and s t
    assume "out_name f \<in> drv_name ` set xs" and s: "dget (dict_of ?L2) (out_name f) = Some s"
      and t: "dget (dict_of ?B2) (out_name f) = Some t"
    then obtain x where x: "x \<in> set xs" "out_name f = drv_name x" by blast
    have "t = {}" "s = \<Union> ((\<lambda>y. the (dget l y)) ` set (expression_fields x))"
      using s t by (simp_all add: x(2) dget_dict_of_keyed [OF names(2) x(1)])
    with names(4) [OF x(1)] show "column_sound idx es f s t"
      by (auto intro!: column_sound_Union column_sound_parent [OF sound])
  qed (use names(3) all in \<open>auto simp: image_image\<close>)
  ultimately show ?thesis by blast
qed

lemma list_item_side: "list_item [x, y] (side_index s) = Inr (case s of LEFT_INPUT \<Rightarrow> x | RIGHT_INPUT \<Rightarrow> y)"
  by (simp add: side_index_def split: side.splits)

lemma find_output:
  "distinct (map out_name outs) \<Longrightarrow> f \<in> set outs \<Longrightarrow> find (\<lambda>g. out_name g = out_name f) outs = Some f"
  by (induction outs) (auto simp: image_iff)

lemma aggregate_sound:
  assumes sound: "node_sound idx es out l b" and d: "distinct (map out_name (nd_outputs n))"
    and ok: "validate_operator (Aggregate g ms) [out] = Inr (map out_name (nd_outputs n))"
    and cs: "expected_output_contracts (Aggregate g ms) [out] = Inr cs"
    and out: "\<And>f. f \<in> set (nd_outputs n) \<Longrightarrow> check_output cs f = Inr ()"
    and metrics: "\<And>m. m \<in> set ms \<Longrightarrow> \<exists>M x. dget metrics (msr_metric m) = Some M \<and> known_field idx (met_entity M) (met_field M) x"
  shows "\<exists>L B. propagate metrics n (Aggregate g ms) [l] [b] = Inr (L, B) \<and> node_sound idx es (outputs_of n) L B"
proof -
  have dom: "dom (dget l) = dom (dget out)" "dom (dget b) = dom (dget out)"
    using sound by (auto simp: node_sound_def)
  have names: "g @ map msr_name ms = map out_name (nd_outputs n)" "distinct (g @ map msr_name ms)" "set g \<subseteq> dom (dget out)"
    using ok d by (auto simp: Let_def)
  have dm: "distinct (map msr_name ms)" using names(2) by simp
  have all: "out_name ` set (nd_outputs n) = set g \<union> msr_name ` set ms"
    using arg_cong [OF names(1), of set] by simp
  let ?at = "\<lambda>x. the (find (\<lambda>f. out_name f = x) (nd_outputs n))"
  let ?L1 = "map (\<lambda>x. (x, the (dget l x))) g"
  let ?B1 = "map (\<lambda>x. (x, with_effective_nullability (the (dget b x)) (out_nullable (?at x)))) g"
  let ?src = "\<lambda>m. {(met_entity (the (dget metrics (msr_metric m))), met_field (the (dget metrics (msr_metric m))))}"
  let ?L2 = "map (\<lambda>m. (msr_name m, ?src m)) ms"
  let ?B2 = "map (\<lambda>m. (msr_name m, {} :: direct_binding set)) ms"
  have at: "find (\<lambda>f. out_name f = x) (nd_outputs n) \<noteq> None" if "x \<in> set g" for x
  proof -
    have "x \<in> out_name ` set (nd_outputs n)" using that all by simp
    then show ?thesis by (auto simp: find_None_iff)
  qed
  have kept: "carry_lineage l g = Inr ?L1"
    using names(3) dom by (intro carry_lineage_total) simp
  have bound: "traverse (\<lambda>x. rbind (dict_item b x) (\<lambda>s. rbind (next_item (\<lambda>f. out_name f = x) (nd_outputs n)) (\<lambda>f.
      Inr (x, with_effective_nullability s (out_nullable f))))) g = Inr ?B1"
    using names(3) dom(2) at by (intro traverse_total) (fastforce simp: dict_item_known subset_iff next_item_def)
  have measured: "traverse (\<lambda>m. rbind (dict_item metrics (msr_metric m)) (\<lambda>metric.
      Inr (msr_name m, {(met_entity metric, met_field metric)}))) ms = Inr ?L2"
    using metrics by (intro traverse_total) (force simp: dict_item_def)
  have "propagate metrics n (Aggregate g ms) [l] [b] = Inr (dict_of (?L1 @ ?L2), dict_of (?B1 @ ?B2))"
    by (simp only: propagate.simps list_item_Cons rbind_Inr kept bound measured)
  moreover have "node_sound idx es (outputs_of n) (dict_of (?L1 @ ?L2)) (dict_of (?B1 @ ?B2))"
  proof (rule mixed_soundI [OF d, of _ "set g" _ _ "msr_name ` set ms"])
    fix f s t
    assume f: "f \<in> set (nd_outputs n)" and c: "out_name f \<in> set g"
      and s: "dget (dict_of ?L1) (out_name f) = Some s" and t: "dget (dict_of ?B1) (out_name f) = Some t"
    have "out_name f \<in> dom (dget out)" using c names(3) by blast
    then obtain h s' b' where h: "dget out (out_name f) = Some h" "dget l (out_name f) = Some s'"
        "dget b (out_name f) = Some b'" "column_sound idx es h s' b'"
      using sound by (blast elim: node_sound_column)
    have "s = s'" "t = with_effective_nullability b' (out_nullable f)"
      using s t c h find_output [OF d f] by (simp_all add: dget_dict_of_map)
    moreover have "contract_of f = contract_of h"
      using cs c h(1) names(3) inherited_contracts_total [OF names(3)]
      by (intro check_output_ok [OF out [OF f]]) (auto simp: dget_dict_of_map)
    ultimately show "column_sound idx es f s t"
      using column_sound_carry [OF h(4), of es f] by (simp add: contract_of_def)
  next
    fix f :: output_field and s t
    assume "out_name f \<in> msr_name ` set ms" and s: "dget (dict_of ?L2) (out_name f) = Some s"
      and t: "dget (dict_of ?B2) (out_name f) = Some t"
    then obtain m where m: "m \<in> set ms" "out_name f = msr_name m" by blast
    have "t = {}" "s = ?src m"
      using s t by (simp_all add: m(2) dget_dict_of_keyed [OF dm m(1)])
    with metrics [OF m(1)] show "column_sound idx es f s t"
      by (auto simp: column_sound_def)
  qed (use all names(2) in \<open>auto simp: image_image\<close>)
  ultimately show ?thesis by blast
qed

lemma pivot_sound:
  assumes sound: "node_sound idx es out l b" and d: "distinct (map out_name (nd_outputs n))"
    and ok: "validate_operator (Pivot i c v agg xs) [out] = Inr (map out_name (nd_outputs n))"
    and cs: "expected_output_contracts (Pivot i c v agg xs) [out] = Inr cs"
    and out: "\<And>f. f \<in> set (nd_outputs n) \<Longrightarrow> check_output cs f = Inr ()"
  shows "\<exists>L B. propagate metrics n (Pivot i c v agg xs) [l] [b] = Inr (L, B) \<and> node_sound idx es (outputs_of n) L B"
proof -
  have dom: "dom (dget l) = dom (dget out)" "dom (dget b) = dom (dget out)"
    using sound by (auto simp: node_sound_def)
  have names: "i @ xs = map out_name (nd_outputs n)" "distinct (i @ xs)" "set i \<subseteq> dom (dget out)"
      "c \<in> dom (dget out)" "v \<in> dom (dget out)"
    using ok d by (auto simp: Let_def)
  have all: "out_name ` set (nd_outputs n) = set i \<union> set xs"
    using arg_cong [OF names(1), of set] by simp
  obtain vl cl where cells: "dict_item l v = Inr vl" "dict_item l c = Inr cl"
    using names(4,5) dom(1) by (metis dict_item_known)
  let ?L1 = "map (\<lambda>x. (x, the (dget l x))) i"
  let ?B1 = "map (\<lambda>x. (x, the (dget b x))) i"
  let ?L2 = "map (\<lambda>x. (x, vl \<union> cl)) xs"
  let ?B2 = "map (\<lambda>x. (x, {} :: direct_binding set)) xs"
  have kept: "carry_lineage l i = Inr ?L1"
    using names(3) dom by (intro carry_lineage_total) simp
  have bound: "traverse (\<lambda>x. rbind (dict_item b x) (\<lambda>s. Inr (x, s))) i = Inr ?B1"
    using names(3) dom(2) by (intro traverse_total) (simp add: dict_item_known subset_iff)
  have "propagate metrics n (Pivot i c v agg xs) [l] [b] = Inr (dict_of (?L1 @ ?L2), dict_of (?B1 @ ?B2))"
    by (simp only: propagate.simps list_item_Cons rbind_Inr kept bound cells)
  moreover have "node_sound idx es (outputs_of n) (dict_of (?L1 @ ?L2)) (dict_of (?B1 @ ?B2))"
  proof (rule mixed_soundI [OF d, of _ "set i" _ _ "set xs"])
    fix f s t
    assume f: "f \<in> set (nd_outputs n)" and x: "out_name f \<in> set i"
      and s: "dget (dict_of ?L1) (out_name f) = Some s" and t: "dget (dict_of ?B1) (out_name f) = Some t"
    have "out_name f \<in> dom (dget out)" using x names(3) by blast
    then obtain h s' b' where h: "dget out (out_name f) = Some h" "dget l (out_name f) = Some s'"
        "dget b (out_name f) = Some b'" "column_sound idx es h s' b'"
      using sound by (blast elim: node_sound_column)
    have "s = s'" "t = b'" using s t x h by (simp_all add: dget_dict_of_map)
    moreover have "out_name f \<notin> set xs" using x names(2) by auto
    then have "contract_of f = contract_of h"
      using cs x h(1) names(3) inherited_contracts_total [OF names(3)]
      by (intro check_output_ok [OF out [OF f]]) (auto simp: dget_dict_of_append dget_dict_of_map)
    ultimately show "column_sound idx es f s t"
      using column_sound_mono [OF h(4)] by simp
  next
    fix f :: output_field and s t
    assume "out_name f \<in> set xs" "dget (dict_of ?L2) (out_name f) = Some s" "dget (dict_of ?B2) (out_name f) = Some t"
    moreover have "column_sound idx es f vl {}" "column_sound idx es f cl {}"
      using column_sound_parent [OF sound names(4)] column_sound_parent [OF sound names(5)] cells
      by (metis dict_item_eq_Inr option.sel)+
    ultimately show "column_sound idx es f s t"
      by (auto simp: dget_dict_of_map column_sound_def)
  qed (use all names(2) in \<open>auto simp: image_image\<close>)
  ultimately show ?thesis by blast
qed

lemma join_sound:
  assumes sound: "node_sound idx es0 out0 l0 b0" "node_sound idx es1 out1 l1 b1"
    and d: "distinct (map out_name (nd_outputs n))"
    and ok: "validate_operator (Join r lk rk k js) [out0, out1] = Inr (map out_name (nd_outputs n))"
    and cs: "expected_output_contracts (Join r lk rk k js) [out0, out1] = Inr cs"
    and out: "\<And>f. f \<in> set (nd_outputs n) \<Longrightarrow> check_output cs f = Inr ()"
  shows "\<exists>L B. propagate metrics n (Join r lk rk k js) [l0, l1] [b0, b1] = Inr (L, B)
           \<and> node_sound idx (es0 \<union> es1) (outputs_of n) L B"
proof -
  let ?o = "\<lambda>j. case jp_source j of LEFT_INPUT \<Rightarrow> out0 | RIGHT_INPUT \<Rightarrow> out1"
  let ?l = "\<lambda>j. case jp_source j of LEFT_INPUT \<Rightarrow> l0 | RIGHT_INPUT \<Rightarrow> l1"
  let ?b = "\<lambda>j. case jp_source j of LEFT_INPUT \<Rightarrow> b0 | RIGHT_INPUT \<Rightarrow> b1"
  let ?e = "\<lambda>j. case jp_source j of LEFT_INPUT \<Rightarrow> es0 | RIGHT_INPUT \<Rightarrow> es1"
  have names: "map jp_name js = map out_name (nd_outputs n)"
      "\<And>j. j \<in> set js \<Longrightarrow> jp_field j \<in> dom (dget (?o j))"
    using ok by (auto simp: Let_def list_item_side)
  have dj: "distinct (map jp_name js)" using d names(1) by simp
  have side: "node_sound idx (?e j) (?o j) (?l j) (?b j)" for j
    using sound by (simp split: side.splits)
  have dom: "dom (dget (?l j)) = dom (dget (?o j))" "dom (dget (?b j)) = dom (dget (?o j))" for j
    using side [of j] by (auto simp: node_sound_def)
  have all: "out_name ` set (nd_outputs n) = jp_name ` set js"
    using arg_cong [OF names(1), of set] by simp
  let ?at = "\<lambda>j. the (dget (outputs_of n) (jp_name j))"
  let ?L = "map (\<lambda>j. (jp_name j, the (dget (?l j) (jp_field j)))) js"
  let ?B = "map (\<lambda>j. (jp_name j, with_effective_nullability (the (dget (?b j) (jp_field j))) (out_nullable (?at j)))) js"
  let ?C = "map (\<lambda>j. (jp_name j, join_output_contract k j (the (dget (?o j) (jp_field j))))) js"
  have item: "dict_item (?l j) (jp_field j) = Inr (the (dget (?l j) (jp_field j)))"
      "dict_item (?b j) (jp_field j) = Inr (the (dget (?b j) (jp_field j)))"
      "dict_item (?o j) (jp_field j) = Inr (the (dget (?o j) (jp_field j)))" if "j \<in> set js" for j
    by (rule dict_item_known, simp only: dom names(2) [OF that])+
  have kept: "traverse (\<lambda>j. rbind (list_item [l0, l1] (side_index (jp_source j))) (\<lambda>l.
      rbind (dict_item l (jp_field j)) (\<lambda>s. Inr (jp_name j, s)))) js = Inr ?L"
    by (intro traverse_total) (simp only: list_item_side rbind_Inr item)
  have named: "jp_name j \<in> dom (dget (outputs_of n))" if "j \<in> set js" for j
    using that all by (auto simp: outputs_of_def image_image)
  have bound: "traverse (\<lambda>j. rbind (list_item [b0, b1] (side_index (jp_source j))) (\<lambda>b.
      rbind (dict_item b (jp_field j)) (\<lambda>s. rbind (dict_item (outputs_of n) (jp_name j)) (\<lambda>f.
      Inr (jp_name j, with_effective_nullability s (out_nullable f)))))) js = Inr ?B"
    by (intro traverse_total) (simp only: list_item_side rbind_Inr item dict_item_known [OF named])
  have "traverse (\<lambda>j. rbind (list_item [out0, out1] (side_index (jp_source j))) (\<lambda>a.
      rbind (dict_item a (jp_field j)) (\<lambda>f. Inr (jp_name j, join_output_contract k j f)))) js = Inr ?C"
    by (intro traverse_total) (simp only: list_item_side rbind_Inr item)
  with cs have contracts: "cs = dict_of ?C" by simp
  have "propagate metrics n (Join r lk rk k js) [l0, l1] [b0, b1] = Inr (dict_of ?L, dict_of ?B)"
    by (simp only: propagate.simps rbind_Inr kept bound)
  moreover have "node_sound idx (es0 \<union> es1) (outputs_of n) (dict_of ?L) (dict_of ?B)"
  proof (rule node_soundI [OF d])
    fix f s t
    assume f: "f \<in> set (nd_outputs n)" and s: "dget (dict_of ?L) (out_name f) = Some s"
      and t: "dget (dict_of ?B) (out_name f) = Some t"
    obtain j where j: "j \<in> set js" "out_name f = jp_name j" using f all by blast
    obtain h s' b' where h: "dget (?o j) (jp_field j) = Some h" "dget (?l j) (jp_field j) = Some s'"
        "dget (?b j) (jp_field j) = Some b'" "column_sound idx (?e j) h s' b'"
      using node_sound_column [OF side names(2) [OF j(1)]] by blast
    have fat: "?at j = f" using dget_outputs_of [OF d, of "jp_name j" f] f j by simp
    have st: "s = s'" "t = with_effective_nullability b' (out_nullable f)"
      using s t h fat by (simp_all add: j(2) dget_dict_of_keyed [OF dj j(1)])
    have "contract_of f = join_output_contract k j h"
      using h(1) by (intro check_output_ok [OF out [OF f]]) (simp add: contracts j(2) dget_dict_of_keyed [OF dj j(1)])
    then show "column_sound idx (es0 \<union> es1) f s t"
      unfolding st by (intro column_sound_carry [OF h(4)])
        (auto simp: contract_of_def join_output_contract_def Let_def split: side.splits)
  qed (simp_all add: all image_image)
  ultimately show ?thesis by blast
qed

section \<open>The ontology\<close>

abbreviation ont_index :: "ontology \<Rightarrow> entity_index" where
  "ont_index ont \<equiv> entity_index_of (ont_entities ont)"

abbreviation metric_index :: "ontology \<Rightarrow> (string, metric) dict" where
  "metric_index ont \<equiv> dict_of (map (\<lambda>m. (met_id m, m)) (ont_metrics ont))"

lemma known_field_unique: "known_field idx e f x \<Longrightarrow> known_field idx e f y \<Longrightarrow> x = y"
  by (auto simp: known_field_def)

lemma find_known:
  assumes "distinct (map ent_id es)" "\<And>e. e \<in> set es \<Longrightarrow> distinct (map fld_id (ent_fields e))"
    "find (\<lambda>e. ent_id e = i) es = Some e" "find (\<lambda>f. fld_id f = j) (ent_fields e) = Some x"
  shows "known_field (entity_index_of es) i j x"
proof -
  have e: "e \<in> set es" "ent_id e = i" and x: "x \<in> set (ent_fields e)" "fld_id x = j"
    using assms(3,4) by (auto simp: find_Some_iff)
  have "dget (entity_index_of es) i = Some (dict_of (map (\<lambda>f. (fld_id f, f)) (ent_fields e)))"
    using dget_dict_of_keyed [OF assms(1) e(1), of "\<lambda>e. dict_of (map (\<lambda>f. (fld_id f, f)) (ent_fields e))"]
    by (simp add: entity_index_of_def e(2))
  moreover have "dget (dict_of (map (\<lambda>f. (fld_id f, f)) (ent_fields e))) j = Some x"
    using dget_dict_of_keyed [OF assms(2) [OF e(1)] x(1), of "\<lambda>f. f"] x(2) by simp
  ultimately show ?thesis by (simp add: known_field_def)
qed

lemma metric_known:
  assumes "validate_ontology ont = Inr ()" "m \<in> set (ont_metrics ont)"
  obtains x t where "known_field (ont_index ont) (met_entity m) (met_field m) x"
    "aggregation_output_type (met_aggregation m) (fld_type x) = Inr t"
proof -
  have "distinct (map ent_id (ont_entities ont))"
      "\<And>e. e \<in> set (ont_entities ont) \<Longrightarrow> distinct (map fld_id (ent_fields e))"
      "check_metric (ont_entities ont) m = Inr ()"
    using assms by (auto simp: validate_ontology_def concepts_are_consistent_def require_unique_def fields_are_unique_def)
  with that show thesis by (auto simp: check_metric_def intro: find_known)
qed

lemma relation_known:
  assumes "validate_ontology ont = Inr ()" "r \<in> set (ont_relations ont)"
  obtains x y where "known_field (ont_index ont) (rel_left_entity r) (rel_left_field r) x"
    "known_field (ont_index ont) (rel_right_entity r) (rel_right_field r) y" "fld_type x = fld_type y"
proof -
  have "check_relation (ont_entities ont) r = Inr ()"
    using assms by (auto simp: validate_ontology_def concepts_are_consistent_def)
  with that show thesis by (auto simp: check_relation_def index_field_def Let_def known_field_def)
qed

section \<open>Typed nodes\<close>

definition typed_select :: "entity_index \<Rightarrow> string \<Rightarrow> sqg_node \<Rightarrow> bool" where
  "typed_select idx e n \<longleftrightarrow>
     (\<forall>f \<in> set (nd_outputs n). \<exists>x. known_field idx e (out_name f) x \<and> contract_of f = (fld_type x, fld_nullable x))"

definition typed_measure :: "ontology \<Rightarrow> outputs \<Rightarrow> string list \<Rightarrow> sqg_node \<Rightarrow> measure_ref \<Rightarrow> bool" where
  "typed_measure ont inp g n m \<longleftrightarrow>
     (\<exists>metric x src f. metric \<in> set (ont_metrics ont) \<and> met_id metric = msr_metric m
        \<and> known_field (ont_index ont) (met_entity metric) (met_field metric) x
        \<and> dget inp (msr_source m) = Some src \<and> out_type src = fld_type x
        \<and> f \<in> set (nd_outputs n) \<and> out_name f = msr_name m
        \<and> aggregation_output_type (met_aggregation metric) (out_type src) = Inr (out_type f)
        \<and> out_nullable f = (met_aggregation metric \<notin> {AggCount, AggCountDistinct} \<and> (out_nullable src \<or> g = [])))"

definition typed_join :: "ontology \<Rightarrow> outputs \<Rightarrow> outputs \<Rightarrow> string \<Rightarrow> string \<Rightarrow> string \<Rightarrow> bool" where
  "typed_join ont left right rel lk rk \<longleftrightarrow>
     (\<exists>r f h. r \<in> set (ont_relations ont) \<and> rel_id r = rel
        \<and> dget left lk = Some f \<and> dget right rk = Some h \<and> out_type f = out_type h)"

definition typed_node :: "ontology \<Rightarrow> (string \<Rightarrow> outputs option) \<Rightarrow> sqg_node \<Rightarrow> bool" where
  "typed_node ont out n \<longleftrightarrow>
     (case nd_params n of
        Select e fs \<Rightarrow> typed_select (ont_index ont) e n
      | Aggregate g ms \<Rightarrow> (\<exists>d a. nd_inputs n = [d] \<and> out d = Some a \<and> (\<forall>m \<in> set ms. typed_measure ont a g n m))
      | Join r lk rk k js \<Rightarrow> (\<exists>d0 d1 a0 a1. nd_inputs n = [d0, d1] \<and> out d0 = Some a0 \<and> out d1 = Some a1
            \<and> typed_join ont a0 a1 r lk rk)
      | _ \<Rightarrow> True)"

section \<open>The step\<close>

lemma select_node_sound:
  assumes "map out_name (nd_outputs n) = fs" "distinct (map out_name (nd_outputs n))"
  shows "raises_only {SemanticValidationError} (select_node idx e fs n)"
    and "select_node idx e fs n = Inr (es, l, b) \<Longrightarrow>
      node_sound idx es (outputs_of n) l b \<and> typed_select idx e n"
proof -
  show "raises_only {SemanticValidationError} (select_node idx e fs n)"
    using assms(1) unfolding select_node_def check_selected_def
    by (auto intro!: raises simp: dom_def)
next
  assume ok: "select_node idx e fs n = Inr (es, l, b)"
  then obtain fd where fd: "dget idx e = Some fd" and sel: "\<And>f. f \<in> set (nd_outputs n) \<Longrightarrow> check_selected fd f = Inr ()"
      and res: "es = {e}" "l = dict_of (map (\<lambda>f. (out_name f, {(e, out_name f)})) (nd_outputs n))"
      "b = dict_of (map (\<lambda>f. (out_name f, {\<lparr>bnd_entity = e, bnd_field = out_name f, bnd_nullable = out_nullable f\<rparr>})) (nd_outputs n))"
    by (auto simp: select_node_def)
  have known: "\<exists>x. known_field idx e (out_name f) x \<and> contract_of f = (fld_type x, fld_nullable x)"
    if "f \<in> set (nd_outputs n)" for f
    using sel [OF that] fd by (auto simp: check_selected_def known_field_def contract_of_def)
  have "node_sound idx es (outputs_of n) l b"
    unfolding res
  proof (rule node_soundI [OF assms(2)])
    fix f s t
    assume f: "f \<in> set (nd_outputs n)"
      and "dget (dict_of (map (\<lambda>f. (out_name f, {(e, out_name f)})) (nd_outputs n))) (out_name f) = Some s"
      "dget (dict_of (map (\<lambda>f. (out_name f, {\<lparr>bnd_entity = e, bnd_field = out_name f, bnd_nullable = out_nullable f\<rparr>}))
        (nd_outputs n))) (out_name f) = Some t"
    with known [OF f] show "column_sound idx {e} f s t"
      by (auto simp: dget_dict_of_keyed [OF assms(2) f] column_sound_def contract_of_def)
  qed (simp_all add: image_image)
  with known show "node_sound idx es (outputs_of n) l b \<and> typed_select idx e n"
    by (simp add: typed_select_def)
qed

section \<open>Measures and joins\<close>

lemma metric_index_Some: "dget (metric_index ont) i = Some m \<Longrightarrow> m \<in> set (ont_metrics ont) \<and> met_id m = i"
  by (auto dest: dget_dict_of_SomeD)

lemma known_index_field: "known_field idx e f x \<Longrightarrow> index_field idx e f = Inr x"
  by (auto simp: known_field_def index_field_def)

lemma check_measure_raises:
  assumes ont: "validate_ontology ont = Inr ()"
    and src: "msr_source m \<in> dom (dget b)" and out: "msr_name m \<in> out_name ` set (nd_outputs n)"
  shows "raises_only {SemanticValidationError} (check_measure (ont_index ont) (metric_index ont) es [b] g n m)"
proof (cases "dget (metric_index ont) (msr_metric m)")
  case (Some metric)
  obtain x t where x: "index_field (ont_index ont) (met_entity metric) (met_field metric) = Inr x"
      "aggregation_output_type (met_aggregation metric) (fld_type x) = Inr t"
    using metric_known [OF ont] metric_index_Some [OF Some] by (metis known_index_field)
  have "raises_only {SemanticValidationError} (next_item (\<lambda>f. out_name f = msr_name m) (nd_outputs n))"
    using out by auto
  with src show ?thesis
    unfolding check_measure_def Let_def Some from_option_Some rbind_Inr x
    by (auto intro!: raises)
qed (simp add: check_measure_def)

lemma check_measure_typed:
  assumes sound: "node_sound (ont_index ont) es inp l b"
    and ok: "check_measure (ont_index ont) (metric_index ont) es [b] g n m = Inr ()"
  shows "typed_measure ont inp g n m
    \<and> (\<exists>metric x. dget (metric_index ont) (msr_metric m) = Some metric
         \<and> known_field (ont_index ont) (met_entity metric) (met_field metric) x)"
proof -
  obtain metric bs f x where metric: "dget (metric_index ont) (msr_metric m) = Some metric"
    and bs: "dget b (msr_source m) = Some bs"
    and card: "card (Set.filter (\<lambda>b. matches_source b (met_entity metric, met_field metric)) bs) = 1"
    and f: "find (\<lambda>f. out_name f = msr_name m) (nd_outputs n) = Some f"
    and x: "index_field (ont_index ont) (met_entity metric) (met_field metric) = Inr x"
    and ty: "aggregation_output_type (met_aggregation metric) (fld_type x) = Inr (out_type f)"
    and nul: "out_nullable f = (met_aggregation metric \<notin> {AggCount, AggCountDistinct}
        \<and> ((\<exists>b \<in> Set.filter (\<lambda>b. matches_source b (met_entity metric, met_field metric)) bs. bnd_nullable b) \<or> g = []))"
    using ok unfolding check_measure_def Let_def list_item_Cons rbind_Inr rbind_eq_Inr raise_unless_eq_Inr
      from_option_eq_Inr dict_item_eq_Inr next_item_eq_Inr
    by (elim exE conjE) (rule that; (assumption | simp only:))
  obtain b0 where b0: "Set.filter (\<lambda>b. matches_source b (met_entity metric, met_field metric)) bs = {b0}"
    using card by (auto simp: card_1_singleton_iff)
  then have mem: "b0 \<in> bs" "bnd_entity b0 = met_entity metric" "bnd_field b0 = met_field metric"
    by (auto simp: matches_source_def)
  have "msr_source m \<in> dom (dget inp)" using bs sound by (auto simp: node_sound_def)
  then obtain src s where src: "dget inp (msr_source m) = Some src" "column_sound (ont_index ont) es src s bs"
    using sound bs by (auto elim: node_sound_column)
  then obtain x' where x': "bnd_nullable b0 = out_nullable src"
      "known_field (ont_index ont) (met_entity metric) (met_field metric) x'" "fld_type x' = out_type src"
    using mem by (auto simp: column_sound_def)
  have x'': "x' = x" using x known_index_field [OF x'(2)] by simp
  have fo: "f \<in> set (nd_outputs n)" "out_name f = msr_name m" using f by (auto simp: find_Some_iff)
  have nul': "out_nullable f = (met_aggregation metric \<notin> {AggCount, AggCountDistinct} \<and> (out_nullable src \<or> g = []))"
    using nul unfolding b0 by (simp add: x'(1))
  have ty': "aggregation_output_type (met_aggregation metric) (out_type src) = Inr (out_type f)" "out_type src = fld_type x"
    using ty x'(3) x'' by simp_all
  have mem': "metric \<in> set (ont_metrics ont)" "met_id metric = msr_metric m"
    using metric_index_Some [OF metric] by blast+
  have "typed_measure ont inp g n m"
    unfolding typed_measure_def
    by (rule exI [of _ metric], rule exI [of _ x], rule exI [of _ src], rule exI [of _ f])
      (intro conjI; (rule mem' src(1) fo ty' nul' x'(2) [unfolded x'']))
  with metric x'(2) show ?thesis by blast
qed

lemma check_join_raises:
  assumes "lk \<in> dom (dget b0)" "rk \<in> dom (dget b1)"
  shows "raises_only {SemanticValidationError} (check_join rels [e0, e1] [b0, b1] r lk rk)"
  unfolding check_join_def Let_def list_item_Cons rbind_Inr
  by (intro raises) (simp_all add: assms del: domIff)

lemma optional_pair: "p \<in> set ((if a then [q] else []) @ filter P (if b then [r] else [])) \<Longrightarrow> p = q \<or> p = r"
  by (auto split: if_splits)

lemma relation_orientations_member:
  "p \<in> set (relation_orientations r l h) \<Longrightarrow>
   p = ((rel_left_entity r, rel_left_field r), (rel_right_entity r, rel_right_field r)) \<or>
   p = ((rel_right_entity r, rel_right_field r), (rel_left_entity r, rel_left_field r))"
  unfolding relation_orientations_def Let_def by (rule optional_pair)

lemma the_elem_mem: "card A = 1 \<Longrightarrow> the_elem A \<in> A"
  by (auto simp: card_1_singleton_iff)

lemma column_type:
  assumes "node_sound idx es inp l b" "dget b c = Some bs" "x \<in> bs" "known_field idx (bnd_entity x) (bnd_field x) y"
  obtains f where "dget inp c = Some f" "out_type f = fld_type y"
proof -
  have "c \<in> dom (dget inp)" using assms(1,2) by (auto simp: node_sound_def)
  then obtain f s where f: "dget inp c = Some f" "column_sound idx es f s bs"
    using assms(1,2) by (auto elim: node_sound_column)
  then obtain z where "known_field idx (bnd_entity x) (bnd_field x) z" "fld_type z = out_type f"
    using assms(3) by (auto simp: column_sound_def)
  with f assms(4) that show thesis by (metis known_field_unique)
qed

lemma check_join_typed:
  assumes ont: "validate_ontology ont = Inr ()"
    and sound: "node_sound (ont_index ont) e0 i0 l0 b0" "node_sound (ont_index ont) e1 i1 l1 b1"
    and ok: "check_join (dict_of (map (\<lambda>r. (rel_id r, r)) (ont_relations ont))) [e0, e1] [b0, b1] rel lk rk = Inr ()"
  shows "typed_join ont i0 i1 rel lk rk"
proof -
  obtain r lks rks where r: "dget (dict_of (map (\<lambda>r. (rel_id r, r)) (ont_relations ont))) rel = Some r"
    and keys: "dget b0 lk = Some lks" "dget b1 rk = Some rks" "card lks = 1" "card rks = 1"
    and len: "length (filter (\<lambda>orient. matches_source (the_elem lks) (fst orient) \<and> matches_source (the_elem rks) (snd orient))
      (relation_orientations r e0 e1)) = 1"
    using ok unfolding check_join_def Let_def by auto
  have mem: "r \<in> set (ont_relations ont)" "rel_id r = rel" using dget_dict_of_SomeD [OF r] by auto
  obtain p where p: "p \<in> set (relation_orientations r e0 e1)"
      "matches_source (the_elem lks) (fst p)" "matches_source (the_elem rks) (snd p)"
    using len by (metis (no_types, lifting) One_nat_def filter_eq_Cons_iff in_set_conv_decomp length_0_conv length_Suc_conv)
  obtain x y where xy: "known_field (ont_index ont) (rel_left_entity r) (rel_left_field r) x"
      "known_field (ont_index ont) (rel_right_entity r) (rel_right_field r) y" "fld_type x = fld_type y"
    using ont mem(1) by (rule relation_known)
  obtain x' y' where known: "known_field (ont_index ont) (bnd_entity (the_elem lks)) (bnd_field (the_elem lks)) x'"
      "known_field (ont_index ont) (bnd_entity (the_elem rks)) (bnd_field (the_elem rks)) y'" "fld_type x' = fld_type y'"
    using relation_orientations_member [OF p(1)] p(2,3) xy by (auto simp: matches_source_def)
  obtain f where f: "dget i0 lk = Some f" "out_type f = fld_type x'"
    using sound(1) keys(1) the_elem_mem [OF keys(3)] known(1) by (rule column_type)
  obtain h where h: "dget i1 rk = Some h" "out_type h = fld_type y'"
    using sound(2) keys(2) the_elem_mem [OF keys(4)] known(2) by (rule column_type)
  show ?thesis unfolding typed_join_def using mem f h known(3) by auto
qed

section \<open>The loop\<close>

definition state_sound :: "entity_index \<Rightarrow> (string, outputs) dict \<Rightarrow> semantic_state \<Rightarrow> bool" where
  "state_sound idx seen st \<longleftrightarrow>
     (\<forall>i out. dget seen i = Some out \<longrightarrow>
        (\<exists>es l b. dget (st_entities st) i = Some es \<and> dget (st_lineage st) i = Some l
           \<and> dget (st_bindings st) i = Some b \<and> node_sound idx es out l b))"

lemma state_soundE:
  assumes "state_sound idx seen st" "dget seen i = Some out"
  obtains es l b where "dict_item (st_entities st) i = Inr es" "dict_item (st_lineage st) i = Inr l"
    "dict_item (st_bindings st) i = Inr b" "node_sound idx es out l b"
  using assms unfolding state_sound_def dict_item_eq_Inr by blast

lemma state_sound_record:
  assumes "state_sound idx seen st" "node_sound idx es (outputs_of n) l b"
  shows "state_sound idx (dput (nd_id n) (outputs_of n) seen) (record_node n (es, l, b) st)"
  using assms by (simp add: state_sound_def record_node_def)

text \<open>
  One node: given a structurally checked node over a sound state, the semantic
  check ends in a sound state or in \<open>SemanticValidationError\<close>, and the node is typed.
\<close>

definition step_sound :: "ontology \<Rightarrow> (string, outputs) dict \<Rightarrow> sqg_node \<Rightarrow> semantic_state res \<Rightarrow> bool" where
  "step_sound ont seen n r \<longleftrightarrow>
     (case r of Inl e \<Rightarrow> e = SemanticValidationError
      | Inr st \<Rightarrow> state_sound (ont_index ont) (dput (nd_id n) (outputs_of n) seen) st \<and> typed_node ont (dget seen) n)"

lemma step_soundI:
  assumes "raises_only {SemanticValidationError} r" "\<And>x. r = Inr x \<Longrightarrow> step_sound ont seen n (f x)"
  shows "step_sound ont seen n (rbind r f)"
  using assms by (cases r) (auto simp: step_sound_def raises_only_def)

lemma unary_step:
  assumes st: "state_sound (ont_index ont) seen st" and inp: "nd_inputs n = [d]" "dget seen d = Some a"
    and sel: "\<And>e fs. nd_params n \<noteq> Select e fs"
    and checks: "\<And>es l b. node_sound (ont_index ont) es a l b \<Longrightarrow> raises_only {SemanticValidationError} (semantic_checks ont n [es] [b])"
    and pg: "\<And>es l b. node_sound (ont_index ont) es a l b \<Longrightarrow> semantic_checks ont n [es] [b] = Inr () \<Longrightarrow>
      (\<exists>L B. propagate (metric_index ont) n (nd_params n) [l] [b] = Inr (L, B) \<and> node_sound (ont_index ont) es (outputs_of n) L B)
      \<and> typed_node ont (dget seen) n"
  shows "step_sound ont seen n (semantic_node ont n st)"
proof -
  obtain es l b where items: "dict_item (st_entities st) d = Inr es" "dict_item (st_lineage st) d = Inr l"
      "dict_item (st_bindings st) d = Inr b" and sound: "node_sound (ont_index ont) es a l b"
    using st inp(2) by (rule state_soundE)
  have eq: "semantic_node ont n st = rbind (semantic_checks ont n [es] [b]) (\<lambda>_.
      rbind (propagate (metric_index ont) n (nd_params n) [l] [b]) (\<lambda>(l, b). Inr (record_node n (es, l, b) st)))"
    using sel by (cases "nd_params n") (auto simp add: semantic_node_def inp(1) items simp del: propagate.simps)
  show ?thesis
    unfolding eq
  proof (rule step_soundI [OF checks [OF sound]])
    fix u
    assume "semantic_checks ont n [es] [b] = Inr u"
    then obtain L B where "propagate (metric_index ont) n (nd_params n) [l] [b] = Inr (L, B)"
        "node_sound (ont_index ont) es (outputs_of n) L B" "typed_node ont (dget seen) n"
      using pg [OF sound] by auto
    with st show "step_sound ont seen n (rbind (propagate (metric_index ont) n (nd_params n) [l] [b])
        (\<lambda>(l, b). Inr (record_node n (es, l, b) st)))"
      by (simp add: step_sound_def state_sound_record)
  qed
qed

lemma join_step:
  assumes ont: "validate_ontology ont = Inr ()" and st: "state_sound (ont_index ont) seen st"
    and inp: "nd_inputs n = [d0, d1]" "dget seen d0 = Some a0" "dget seen d1 = Some a1"
    and p: "nd_params n = Join r lk rk k js" and d: "distinct (map out_name (nd_outputs n))"
    and ok: "validate_operator (Join r lk rk k js) [a0, a1] = Inr (map out_name (nd_outputs n))"
    and cs: "expected_output_contracts (Join r lk rk k js) [a0, a1] = Inr cs"
    and out: "\<And>f. f \<in> set (nd_outputs n) \<Longrightarrow> check_output cs f = Inr ()"
  shows "step_sound ont seen n (semantic_node ont n st)"
proof -
  obtain e0 l0 b0 where i0: "dict_item (st_entities st) d0 = Inr e0" "dict_item (st_lineage st) d0 = Inr l0"
      "dict_item (st_bindings st) d0 = Inr b0" and s0: "node_sound (ont_index ont) e0 a0 l0 b0"
    using st inp(2) by (rule state_soundE)
  obtain e1 l1 b1 where i1: "dict_item (st_entities st) d1 = Inr e1" "dict_item (st_lineage st) d1 = Inr l1"
      "dict_item (st_bindings st) d1 = Inr b1" and s1: "node_sound (ont_index ont) e1 a1 l1 b1"
    using st inp(3) by (rule state_soundE)
  have keys: "lk \<in> dom (dget b0)" "rk \<in> dom (dget b1)"
    using ok s0 s1 by (auto simp: Let_def node_sound_def)
  let ?check = "check_join (dict_of (map (\<lambda>r. (rel_id r, r)) (ont_relations ont))) [e0, e1] [b0, b1] r lk rk"
  obtain L B where pg: "propagate (metric_index ont) n (Join r lk rk k js) [l0, l1] [b0, b1] = Inr (L, B)"
      "node_sound (ont_index ont) (e0 \<union> e1) (outputs_of n) L B"
    using join_sound [OF s0 s1 d ok cs out] by blast
  have eq: "semantic_node ont n st = rbind ?check (\<lambda>_. Inr (record_node n (e0 \<union> e1, L, B) st))"
    by (simp add: semantic_node_def p inp(1) i0 i1 semantic_checks_def pg(1) del: propagate.simps)
  show ?thesis
    unfolding eq
  proof (rule step_soundI [OF check_join_raises [OF keys]])
    fix u
    assume "?check = Inr u"
    then have "typed_join ont a0 a1 r lk rk" using check_join_typed [OF ont s0 s1] by simp
    with st pg(2) inp show "step_sound ont seen n (Inr (record_node n (e0 \<union> e1, L, B) st))"
      by (simp add: step_sound_def state_sound_record typed_node_def p)
  qed
qed

lemma single_input:
  assumes "length (nd_inputs n) = Suc 0" "list_all2 (\<lambda>d a. dget seen d = Some a) (nd_inputs n) ps"
  obtains d a where "nd_inputs n = [d]" "ps = [a]" "dget seen d = Some a"
  using assms by (auto simp: length_Suc_conv list_all2_Cons1)

lemma pass_through_propagate:
  assumes "case p of Filter _ \<Rightarrow> True | Sort _ \<Rightarrow> True | Project _ \<Rightarrow> True | _ \<Rightarrow> False"
    and sound: "node_sound idx es a l b" and d: "distinct (map out_name (nd_outputs n))"
    and ok: "validate_operator p [a] = Inr (map out_name (nd_outputs n))"
    and cs: "expected_output_contracts p [a] = Inr cs"
    and out: "\<And>f. f \<in> set (nd_outputs n) \<Longrightarrow> check_output cs f = Inr ()"
  shows "\<exists>L B. propagate ms n p [l] [b] = Inr (L, B) \<and> node_sound idx es (outputs_of n) L B"
proof -
  have da: "distinct (map fst a)" using sound by (simp add: node_sound_def)
  have "out_name ` set (nd_outputs n) \<subseteq> dom (dget a)"
  proof -
    have "map out_name (nd_outputs n) = dkeys a \<or> set (map out_name (nd_outputs n)) \<subseteq> dom (dget a)"
      using assms(1) ok by (cases p) auto
    then show ?thesis using set_dkeys [of a] by (metis list.set_map order_refl)
  qed
  moreover have "contract_of f = contract_of g" if "f \<in> set (nd_outputs n)" "dget a (out_name f) = Some g" for f g
  proof (rule check_output_ok [OF out [OF that(1)]])
    show "dget cs (out_name f) = Some (contract_of g)"
    proof (cases p)
      case (Project fs)
      have "set fs \<subseteq> dom (dget a) \<and> fs = map out_name (nd_outputs n)"
        using ok unfolding Project validate_operator.simps list_item_Cons rbind_Inr rbind_eq_Inr require_fields_ok sum.inject
        by blast
      with that cs Project show ?thesis
        by (auto simp: inherited_contracts_total dget_dict_of_map simp del: map_map)
    qed (use assms(1) that(2) cs da in \<open>auto simp: inherited_dict\<close>)
  qed
  ultimately obtain L B where LB: "carry_lineage l (map out_name (nd_outputs n)) = Inr L" "carry_bindings b (nd_outputs n) = Inr B"
      "node_sound idx es (outputs_of n) (dict_of L) (dict_of B)"
    using pass_through_sound [OF sound d] by blast
  then show ?thesis using assms(1) by (cases p) simp_all
qed

lemma simple_step:
  assumes st: "state_sound (ont_index ont) seen st" and inp: "nd_inputs n = [d]" "dget seen d = Some a"
    and p: "case nd_params n of Select _ _ \<Rightarrow> False | Aggregate _ _ \<Rightarrow> False | Join _ _ _ _ _ \<Rightarrow> False | _ \<Rightarrow> True"
    and pg: "\<And>es l b. node_sound (ont_index ont) es a l b \<Longrightarrow>
      \<exists>L B. propagate (metric_index ont) n (nd_params n) [l] [b] = Inr (L, B) \<and> node_sound (ont_index ont) es (outputs_of n) L B"
  shows "step_sound ont seen n (semantic_node ont n st)"
proof (rule unary_step [OF st inp])
  have "semantic_checks ont n es bs = Inr ()" for es bs using p by (cases "nd_params n") (simp_all add: semantic_checks_def)
  then show "raises_only {SemanticValidationError} (semantic_checks ont n [es] [b])" for es b by simp
  have "typed_node ont (dget seen) n" using p by (cases "nd_params n") (simp_all add: typed_node_def)
  with pg show "(\<exists>L B. propagate (metric_index ont) n (nd_params n) [l] [b] = Inr (L, B)
      \<and> node_sound (ont_index ont) es (outputs_of n) L B) \<and> typed_node ont (dget seen) n"
    if "node_sound (ont_index ont) es a l b" for es l b using that by blast
qed (use p in auto)

lemma semantic_node_step:
  assumes ont: "validate_ontology ont = Inr ()" and chk: "check_node positions i n seen = Inr seen'"
    and d: "distinct (map out_name (nd_outputs n))" and st: "state_sound (ont_index ont) seen st"
  shows "step_sound ont seen n (semantic_node ont n st)"
proof -
  obtain ps cs where len: "length (nd_inputs n) = expected_inputs (nd_params n)"
    and ps: "list_all2 (\<lambda>d a. dget seen d = Some a) (nd_inputs n) ps"
    and ok: "validate_operator (nd_params n) ps = Inr (map out_name (nd_outputs n))"
    and cs: "expected_output_contracts (nd_params n) ps = Inr cs"
    and out: "\<And>f. f \<in> set (nd_outputs n) \<Longrightarrow> check_output cs f = Inr ()"
    by (rule check_nodeE [OF chk]) (rule that, assumption+)
  show ?thesis
  proof (cases "nd_params n")
    case (Select e fs)
    have names: "map out_name (nd_outputs n) = fs" using ok Select by simp
    have eq: "semantic_node ont n st = rbind (select_node (ont_index ont) e fs n) (\<lambda>r. Inr (record_node n r st))"
      by (simp add: semantic_node_def Select)
    show ?thesis
      unfolding eq
    proof (rule step_soundI [OF select_node_sound(1) [OF names d]])
      fix r
      assume r: "select_node (ont_index ont) e fs n = Inr r"
      obtain es l b where "r = (es, l, b)" by (cases r)
      with r select_node_sound(2) [OF names d] st show "step_sound ont seen n (Inr (record_node n r st))"
        by (simp add: step_sound_def state_sound_record typed_node_def Select)
    qed
  next
    case (Join r lk rk k js)
    obtain d0 d1 a0 a1 where inp: "nd_inputs n = [d0, d1]" "ps = [a0, a1]" "dget seen d0 = Some a0" "dget seen d1 = Some a1"
      using len ps Join by (auto simp: numeral_2_eq_2 length_Suc_conv list_all2_Cons1)
    show ?thesis
      using join_step [OF ont st inp(1,3,4) Join d] ok cs out Join inp(2) by simp
  next
    case (Aggregate g ms)
    obtain dd a where inp: "nd_inputs n = [dd]" "ps = [a]" "dget seen dd = Some a"
      using len ps Aggregate by (auto elim: single_input)
    have ok': "validate_operator (Aggregate g ms) [a] = Inr (map out_name (nd_outputs n))"
      and cs': "expected_output_contracts (Aggregate g ms) [a] = Inr cs" by (rule ok [unfolded Aggregate inp(2)], rule cs [unfolded Aggregate inp(2)])
    have src: "msr_source m \<in> dom (dget a)" "msr_name m \<in> out_name ` set (nd_outputs n)" if "m \<in> set ms" for m
    proof -
      have names: "g @ map msr_name ms = map out_name (nd_outputs n)" using ok' by (simp add: Let_def)
      show "msr_source m \<in> dom (dget a)" using ok' that by (auto simp: Let_def)
      show "msr_name m \<in> out_name ` set (nd_outputs n)"
        using arg_cong [OF names, of set] that by auto
    qed
    show ?thesis
    proof (rule unary_step [OF st inp(1,3)])
      fix es l b
      assume sound: "node_sound (ont_index ont) es a l b"
      then have db: "dom (dget b) = dom (dget a)" by (simp add: node_sound_def)
      show "raises_only {SemanticValidationError} (semantic_checks ont n [es] [b])"
        using src by (auto simp: semantic_checks_def Aggregate simp flip: db intro!: raises check_measure_raises [OF ont])
      assume "semantic_checks ont n [es] [b] = Inr ()"
      then have "check_measure (ont_index ont) (metric_index ont) es [b] g n m = Inr ()" if "m \<in> set ms" for m
        using that by (simp add: semantic_checks_def Aggregate)
      then have typed: "typed_measure ont a g n m \<and> (\<exists>metric x. dget (metric_index ont) (msr_metric m) = Some metric
         \<and> known_field (ont_index ont) (met_entity metric) (met_field metric) x)" if "m \<in> set ms" for m
        using that by (intro check_measure_typed [OF sound]) blast
      show "(\<exists>L B. propagate (metric_index ont) n (nd_params n) [l] [b] = Inr (L, B)
          \<and> node_sound (ont_index ont) es (outputs_of n) L B) \<and> typed_node ont (dget seen) n"
        using aggregate_sound [OF sound d ok' cs' out] typed inp by (auto simp: Aggregate typed_node_def)
    qed (simp add: Aggregate)
  next
    case (Derive xs)
    obtain dd a where inp: "nd_inputs n = [dd]" "ps = [a]" "dget seen dd = Some a"
      using len ps Derive by (auto elim: single_input)
    note ok' = ok [unfolded Derive inp(2)] and cs' = cs [unfolded Derive inp(2)]
    show ?thesis
      by (rule simple_step [OF st inp(1,3)]) (simp add: Derive, unfold Derive, rule derive_sound [OF _ d ok' cs' out], simp_all)
  next
    case (Pivot ks c v agg xs)
    obtain dd a where inp: "nd_inputs n = [dd]" "ps = [a]" "dget seen dd = Some a"
      using len ps Pivot by (auto elim: single_input)
    note ok' = ok [unfolded Pivot inp(2)] and cs' = cs [unfolded Pivot inp(2)]
    show ?thesis
      by (rule simple_step [OF st inp(1,3)]) (simp add: Pivot, unfold Pivot, rule pivot_sound [OF _ d ok' cs' out], simp_all)
  next
    case (Filter p)
    obtain dd a where inp: "nd_inputs n = [dd]" "ps = [a]" "dget seen dd = Some a"
      using len ps Filter by (auto elim: single_input)
    note ok' = ok [unfolded Filter inp(2)] and cs' = cs [unfolded Filter inp(2)]
    show ?thesis
      by (rule simple_step [OF st inp(1,3)]) (simp add: Filter, unfold Filter, rule pass_through_propagate [OF _ _ d ok' cs' out], simp_all)
  next
    case (Sort ks)
    obtain dd a where inp: "nd_inputs n = [dd]" "ps = [a]" "dget seen dd = Some a"
      using len ps Sort by (auto elim: single_input)
    note ok' = ok [unfolded Sort inp(2)] and cs' = cs [unfolded Sort inp(2)]
    show ?thesis
      by (rule simple_step [OF st inp(1,3)]) (simp add: Sort, unfold Sort, rule pass_through_propagate [OF _ _ d ok' cs' out], simp_all)
  next
    case (Project fs)
    obtain dd a where inp: "nd_inputs n = [dd]" "ps = [a]" "dget seen dd = Some a"
      using len ps Project by (auto elim: single_input)
    note ok' = ok [unfolded Project inp(2)] and cs' = cs [unfolded Project inp(2)]
    show ?thesis
      by (rule simple_step [OF st inp(1,3)]) (simp add: Project, unfold Project, rule pass_through_propagate [OF _ _ d ok' cs' out], simp_all)
  qed
qed

definition outputs_at :: "sqg \<Rightarrow> string \<Rightarrow> outputs option" where
  "outputs_at g i = map_option outputs_of (find (\<lambda>n. nd_id n = i) (sqg_nodes g))"

lemma typed_node_mono:
  "typed_node ont out n \<Longrightarrow> (\<And>i a. out i = Some a \<Longrightarrow> out' i = Some a) \<Longrightarrow> typed_node ont out' n"
  unfolding typed_node_def by (cases "nd_params n") (simp_all, blast+)

lemma semantic_nodes_sound:
  assumes ont: "validate_ontology ont = Inr ()"
    and "\<And>n. n \<in> set ns \<Longrightarrow> distinct (map out_name (nd_outputs n))"
    and "check_nodes positions i ns seen = Inr seen'" "state_sound (ont_index ont) seen st"
    and "\<And>n. n \<in> set ns \<Longrightarrow> at (nd_id n) = Some (outputs_of n)" "\<And>j a. dget seen j = Some a \<Longrightarrow> at j = Some a"
  shows "case semantic_nodes ont ns st of Inl e \<Rightarrow> e = SemanticValidationError
    | Inr st' \<Rightarrow> state_sound (ont_index ont) seen' st' \<and> (\<forall>n \<in> set ns. typed_node ont at n)"
  using assms(2-)
proof (induction ns arbitrary: i seen st)
  case (Cons n ns)
  obtain seen1 where c: "check_node positions i n seen = Inr seen1" "check_nodes positions (Suc i) ns seen1 = Inr seen'"
    using Cons.prems(2) by auto
  have seen1: "seen1 = dput (nd_id n) (outputs_of n) seen" using c(1) by (rule check_nodeE)
  have step: "step_sound ont seen n (semantic_node ont n st)"
    using semantic_node_step [OF ont c(1) _ Cons.prems(3)] Cons.prems(1) by simp
  show ?case
  proof (cases "semantic_node ont n st")
    case (Inl e)
    with step show ?thesis by (simp add: step_sound_def)
  next
    case (Inr st1)
    with step have s1: "state_sound (ont_index ont) seen1 st1" "typed_node ont (dget seen) n"
      by (simp_all add: step_sound_def seen1)
    have at1: "\<And>j a. dget seen1 j = Some a \<Longrightarrow> at j = Some a"
      using Cons.prems(4,5) by (auto simp: seen1 split: if_splits)
    have "typed_node ont at n" using s1(2) Cons.prems(5) by (rule typed_node_mono)
    with Cons.IH [OF _ c(2) s1(1) _ at1] Cons.prems(1,4) Inr show ?thesis
      by (auto split: sum.splits)
  qed
qed simp

lemma semantic_check_cases:
  assumes "validate_graph g = Inr ()" "validate_ontology ont = Inr ()"
  shows "validate_sqg g ont = Inr () \<and> (\<forall>n \<in> set (sqg_nodes g). typed_node ont (outputs_at g) n)
    \<or> validate_sqg g ont = Inl SemanticValidationError"
proof -
  have d: "\<And>n. n \<in> set (sqg_nodes g) \<Longrightarrow> distinct (map out_name (nd_outputs n))" "distinct (sqg_ids g)"
    using assms(1) by (auto simp: validate_graph_def output_names_are_unique_def graph_is_deterministic_def)
  obtain seen where seen: "check_nodes (position_index (sqg_ids g)) 0 (sqg_nodes g) [] = Inr seen"
    using assms(1) by (auto simp: validate_graph_def graph_is_deterministic_def Let_def)
  have at: "outputs_at g (nd_id n) = Some (outputs_of n)" if "n \<in> set (sqg_nodes g)" for n
  proof -
    have "find (\<lambda>m. nd_id m = nd_id n) ns = Some n" if "distinct (map nd_id ns)" "n \<in> set ns" for ns :: "sqg_node list"
      using that by (induction ns) (auto simp: image_iff)
    with d(2) that show ?thesis by (simp add: outputs_at_def sqg_ids_def)
  qed
  have "case semantic_nodes ont (sqg_nodes g) empty_semantic_state of Inl e \<Rightarrow> e = SemanticValidationError
    | Inr st \<Rightarrow> state_sound (ont_index ont) seen st \<and> (\<forall>n \<in> set (sqg_nodes g). typed_node ont (outputs_at g) n)"
    using semantic_nodes_sound [OF assms(2) d(1) seen, of empty_semantic_state "outputs_at g"] at
    by (simp add: state_sound_def)
  then show ?thesis
    by (cases "sqg_ontology_version g = ont_version ont")
      (auto simp: validate_sqg_def split: sum.splits)
qed

section \<open>Properties\<close>

text \<open>
  C32: On a query graph and an ontology that passed their own validators, the
  semantic check ends normally or with \<open>SemanticValidationError\<close> and never with
  a \<open>KeyError\<close>, \<open>IndexError\<close>, \<open>StopIteration\<close> or a bare \<open>ValueError\<close>; and when it
  accepts, every node is typed by the ontology: a selected column has the type
  and the nullability of its field, a measure reads a column of the type of its
  metric's field and declares the type of that aggregation and its nullability,
  and the two key columns of a join, governed by an existing relation, have the
  same type.
\<close>

theorem semantic_check_is_sound:
  assumes "validate_graph g = Inr ()" "validate_ontology ont = Inr ()"
  shows "case validate_sqg g ont of
      Inr _ \<Rightarrow> (\<forall>n \<in> set (sqg_nodes g). typed_node ont (outputs_at g) n)
    | Inl e \<Rightarrow> e = SemanticValidationError"
  using semantic_check_cases [OF assms] by (auto split: sum.splits)

theorem semantic_check_is_sound_witness:
  "list_all (typed_node sample_ontology (outputs_at (sample_graph DECIMAL))) (sqg_nodes (sample_graph DECIMAL))
   \<and> validate_sqg (sample_graph DECIMAL) sample_ontology = Inr ()
   \<and> validate_sqg (sample_graph INTEGER) sample_ontology = Inl SemanticValidationError"
proof -
  have "validate_sqg (sample_graph DECIMAL) sample_ontology = Inr ()"
    "validate_sqg (sample_graph INTEGER) sample_ontology = Inl SemanticValidationError"
    by code_simp+
  with semantic_check_is_sound [OF sample_graph_valid(2,1)] show ?thesis by (simp add: list_all_iff)
qed

end
