(* ===== verification/Trusted_Access.thy ===== *)
theory Trusted_Access
  imports Scalar_Values
begin

text \<open>
  Request authentication and authorization of the semantic backend:
  \<open>auth_context.py\<close> (the verified context and its constraints),
  \<open>authorization.py\<close> (\<open>PostgresAuthorization\<close>: membership check, resource
  grants, single-use service assertions) and \<open>auth_middleware.py\<close>
  (\<open>ServiceAuthentication.dispatch\<close>).

  The identity tables are an explicit state. A transaction is one step on it:
  what its body writes is kept only when the transaction commits. Clock
  readings, faults of the connection and the moment a fault strikes are given
  by an explicit record per transaction, so that a statement about all of them
  covers every schedule. The JWT library, SHA-256 and the request handler are
  parameters; the tokens the library returns carry all the claims the source
  requires of it (\<open>options["require"]\<close>). Times are microseconds.
\<close>

section \<open>The trusted context\<close>

type_synonym instant = int

record workspace_scope =
  sc_tenant :: string
  sc_workspace :: string

record trusted_principal =
  pr_id :: string
  pr_issuer :: string
  pr_subject :: string

record verified_authentication =
  au_audience :: string
  au_authenticated_at :: instant
  au_expires_at :: instant

record authorized_membership =
  mb_id :: string
  mb_revision :: int
  mb_authorized_at :: instant
  mb_permissions :: "string list"

record trusted_context =
  cx_scope :: workspace_scope
  cx_principal :: trusted_principal
  cx_authentication :: verified_authentication
  cx_membership :: authorized_membership

record resource_version =
  rv_scope :: workspace_scope
  rv_kind :: string
  rv_id :: string
  rv_revision :: int
  rv_sha256 :: string

definition regex_space :: "char \<Rightarrow> bool" where
  "regex_space c = (let n = (of_char c :: nat) in n \<in> {9, 10, 11, 12, 13, 32, 133, 160})"

text \<open>\<open>^[a-zA-Z0-9][a-zA-Z0-9._:-]*$\<close>, at most 128 characters.\<close>

definition context_identifier :: "string \<Rightarrow> bool" where
  "context_identifier s =
     (s \<noteq> [] \<and> length s \<le> 128 \<and> (ascii_letter (hd s) \<or> is_digit (hd s))
        \<and> list_all (\<lambda>c. ascii_letter c \<or> is_digit c \<or> c \<in> set ''._:-'') (tl s))"

definition issuer_ok :: "string \<Rightarrow> bool" where
  "issuer_ok s =
     (length s \<le> 2048 \<and> (case drop_prefix ''https://'' s of None \<Rightarrow> False
        | Some r \<Rightarrow> r \<noteq> [] \<and> list_all (\<lambda>c. \<not> regex_space c \<and> c \<notin> set ''?#@'') r))"

definition subject_ok :: "string \<Rightarrow> bool" where
  "subject_ok s = (s \<noteq> [] \<and> length s \<le> 255 \<and> list_all (\<lambda>c. \<not> regex_space c) s)"

definition sha256_text :: "string \<Rightarrow> bool" where
  "sha256_text s = (length s = 64 \<and> list_all (\<lambda>c. c \<in> set ''abcdef'' \<or> is_digit c) s)"

definition scope_ok :: "workspace_scope \<Rightarrow> bool" where
  "scope_ok s = (context_identifier (sc_tenant s) \<and> context_identifier (sc_workspace s))"

definition context_fields_ok :: "trusted_context \<Rightarrow> bool" where
  "context_fields_ok c =
     (let p = cx_principal c; a = cx_authentication c; m = cx_membership c in
        scope_ok (cx_scope c)
        \<and> context_identifier (pr_id p) \<and> issuer_ok (pr_issuer p) \<and> subject_ok (pr_subject p)
        \<and> 1 \<le> length (au_audience a) \<and> length (au_audience a) \<le> 256
        \<and> context_identifier (mb_id m) \<and> 1 \<le> mb_revision m
        \<and> mb_permissions m \<noteq> [] \<and> list_all context_identifier (mb_permissions m))"

text \<open>The model validator reads the clock twice; \<open>now\<close> and \<open>later\<close> are the readings.\<close>

definition ordered_times :: "instant \<Rightarrow> instant \<Rightarrow> trusted_context \<Rightarrow> bool" where
  "ordered_times now later c =
     (let a = cx_authentication c; m = cx_membership c in
        au_authenticated_at a \<le> mb_authorized_at m \<and> mb_authorized_at m < au_expires_at a
        \<and> \<not> (now < mb_authorized_at m \<or> au_expires_at a \<le> later \<or> \<not> distinct (mb_permissions m)))"

definition validate_context :: "instant \<times> instant \<Rightarrow> trusted_context \<Rightarrow> bool" where
  "validate_context clock c = (context_fields_ok c \<and> ordered_times (fst clock) (snd clock) c)"

definition resource_kinds :: "string list" where
  "resource_kinds = [''ontology'', ''knowledge-base'', ''resolver'', ''credential-reference'', ''llm'',
     ''prompt-template'', ''compute-engine'', ''result-store'', ''run'', ''dataset'', ''user'', ''group'',
     ''workspace'', ''policy'']"

definition resource_version_ok :: "resource_version \<Rightarrow> bool" where
  "resource_version_ok r =
     (scope_ok (rv_scope r) \<and> rv_kind r \<in> set resource_kinds \<and> context_identifier (rv_id r)
        \<and> 1 \<le> rv_revision r \<and> sha256_text (rv_sha256 r))"

section \<open>Identity tables\<close>

datatype access_error = AccessDenied | PostgresError | AuthorizationTimeout

datatype document = DText string | DList "document list" | DObject "(string \<times> document) list" | DOther

record access_row =
  ar_principal :: string
  ar_issuer :: string
  ar_subject :: string
  ar_scope :: workspace_scope
  ar_membership :: string
  ar_revision :: int
  ar_permissions :: "string list"

record grant_row =
  gr_workspace :: string
  gr_kind :: string
  gr_resource :: string
  gr_revision :: int
  gr_sha256 :: string
  gr_permission :: string
  gr_active :: bool
  gr_membership :: "string option"
  gr_group :: "string option"
  gr_allowed :: document

record identity_db =
  db_versions :: "int list"
  db_access :: "access_row list"
  db_grants :: "grant_row list"
  db_groups :: "(string \<times> string \<times> bool) list"
  db_group_members :: "(string \<times> string \<times> string) list"
  db_assertions :: "(string, instant) dict"

text \<open>
  One transaction seen from outside: the clock at entry, at the check and before
  the commit (wall clock and event loop clock), \<open>now()\<close> of the database, whether
  the time budget ran out, and a fault with the point where it strikes. A fault
  at the commit may leave the writes durable although the caller sees an error.
\<close>

datatype fault = NoFault | FaultBefore access_error | FaultAtCommit access_error bool

record transaction_io =
  io_start :: instant
  io_check :: instant
  io_end :: instant
  io_loop_start :: instant
  io_loop_end :: instant
  io_db_now :: instant
  io_expired :: bool
  io_fault :: fault

definition ready :: "fault \<Rightarrow> identity_db \<Rightarrow> bool" where
  "ready f db = (f = NoFault \<and> 2 \<in> set (db_versions db))"

definition row_grants :: "trusted_context \<Rightarrow> string \<Rightarrow> access_row \<Rightarrow> bool" where
  "row_grants c permission r =
     (ar_principal r = pr_id (cx_principal c) \<and> ar_issuer r = pr_issuer (cx_principal c)
        \<and> ar_subject r = pr_subject (cx_principal c) \<and> ar_scope r = cx_scope c
        \<and> ar_membership r = mb_id (cx_membership c) \<and> ar_revision r = mb_revision (cx_membership c)
        \<and> permission \<in> set (ar_permissions r))"

definition check_access :: "trusted_context \<Rightarrow> string \<Rightarrow> instant \<Rightarrow> identity_db \<Rightarrow> access_error + unit" where
  "check_access c permission now db =
     rbind (raise_unless (\<not> au_expires_at (cx_authentication c) \<le> now) AccessDenied) (\<lambda>_.
     raise_unless (list_ex (row_grants c permission) (db_access db)) AccessDenied)"

record catalog_access =
  ca_entities :: "string set"
  ca_fields :: "string set"
  ca_metrics :: "string set"
  ca_relations :: "string set"
  ca_members :: "string set"

definition access_names :: "string list" where
  "access_names = [''entity_ids'', ''field_ids'', ''metric_ids'', ''relation_ids'', ''member_ids'']"

definition member_groups :: "trusted_context \<Rightarrow> identity_db \<Rightarrow> string list" where
  "member_groups c db =
     map (\<lambda>(w, g, a). g) (filter (\<lambda>(w, g, a). w = sc_workspace (cx_scope c) \<and> a
        \<and> (w, g, mb_id (cx_membership c)) \<in> set (db_group_members db)) (db_groups db))"

definition grant_applies :: "trusted_context \<Rightarrow> resource_version \<Rightarrow> string \<Rightarrow> identity_db \<Rightarrow> grant_row \<Rightarrow> bool" where
  "grant_applies c pin permission db r =
     (gr_workspace r = sc_workspace (rv_scope pin) \<and> gr_kind r = rv_kind pin \<and> gr_resource r = rv_id pin
        \<and> gr_revision r = rv_revision pin \<and> gr_sha256 r = rv_sha256 pin \<and> gr_permission r = permission \<and> gr_active r
        \<and> (gr_membership r = Some (mb_id (cx_membership c))
           \<or> (case gr_group r of None \<Rightarrow> False | Some g \<Rightarrow> g \<in> set (member_groups c db))))"

fun text_items :: "document list \<Rightarrow> string list option" where
  "text_items [] = Some []"
| "text_items (DText s # ds) = map_option (\<lambda>ss. s # ss) (text_items ds)"
| "text_items (_ # ds) = None"

definition grant_values :: "document \<Rightarrow> string \<Rightarrow> access_error + string list" where
  "grant_values doc name =
     (case doc of DObject kvs \<Rightarrow>
        (case dget kvs name of Some (DList ds) \<Rightarrow> from_option AccessDenied (text_items ds) | _ \<Rightarrow> Inl AccessDenied)
      | _ \<Rightarrow> Inl AccessDenied)"

definition grant_document :: "document \<Rightarrow> access_error + string list list" where
  "grant_document doc =
     (case doc of DObject kvs \<Rightarrow>
        rbind (raise_unless (set (map fst kvs) = set access_names) AccessDenied) (\<lambda>_.
        traverse (grant_values doc) access_names)
      | _ \<Rightarrow> Inl AccessDenied)"

text \<open>The union of the granted identifiers over all rows, one set per name.\<close>

definition column_union :: "string list list list \<Rightarrow> nat \<Rightarrow> string set" where
  "column_union rows i = (\<Union>r \<in> set rows. set (r ! i))"

definition resource_access ::
    "trusted_context \<Rightarrow> resource_version \<Rightarrow> string \<Rightarrow> identity_db \<Rightarrow> access_error + catalog_access" where
  "resource_access c pin permission db =
     rbind (raise_unless (sc_tenant (rv_scope pin) = sc_tenant (cx_scope c)
              \<and> sc_workspace (rv_scope pin) = sc_workspace (cx_scope c)) AccessDenied) (\<lambda>_.
     let rows = filter (grant_applies c pin permission db) (db_grants db)
     in rbind (raise_unless (rows \<noteq> []) AccessDenied) (\<lambda>_.
        rbind (traverse (\<lambda>r. grant_document (gr_allowed r)) rows) (\<lambda>docs.
        Inr \<lparr>ca_entities = column_union docs 0, ca_fields = column_union docs 1, ca_metrics = column_union docs 2,
             ca_relations = column_union docs 3, ca_members = column_union docs 4\<rparr>)))"

section \<open>The guarded transaction\<close>

definition remaining_budget :: "trusted_context \<Rightarrow> instant option \<Rightarrow> transaction_io \<Rightarrow> instant" where
  "remaining_budget c deadline io =
     (let r = min 5000000 (au_expires_at (cx_authentication c) - io_start io)
      in case deadline of None \<Rightarrow> r | Some d \<Rightarrow> min r (d - io_loop_start io))"

definition after_body :: "trusted_context \<Rightarrow> instant option \<Rightarrow> transaction_io \<Rightarrow> access_error + unit" where
  "after_body c deadline io =
     rbind (raise_unless (\<not> au_expires_at (cx_authentication c) \<le> io_end io) AccessDenied) (\<lambda>_.
     rbind (raise_unless (case deadline of None \<Rightarrow> True | Some d \<Rightarrow> \<not> d \<le> io_loop_end io) AuthorizationTimeout) (\<lambda>_.
     raise_unless (\<not> io_expired io) AuthorizationTimeout))"

text \<open>
  \<open>guard\<close> with the body of its \<open>async with\<close> block: the body gets the decision
  and the tables, and returns its result with the tables it leaves.
\<close>

definition guard ::
    "trusted_context \<Rightarrow> resource_version option \<Rightarrow> string \<Rightarrow> instant option \<Rightarrow> transaction_io
      \<Rightarrow> (catalog_access option \<Rightarrow> identity_db \<Rightarrow> access_error + 'a \<times> identity_db)
      \<Rightarrow> identity_db \<Rightarrow> (access_error + 'a) \<times> identity_db" where
  "guard c pin permission deadline io body db =
     (if remaining_budget c deadline io \<le> 0 then (Inl AccessDenied, db)
      else case io_fault io of
        FaultBefore e \<Rightarrow> (Inl e, db)
      | _ \<Rightarrow>
        (case rbind (check_access c permission (io_check io) db) (\<lambda>_.
              rbind (case pin of None \<Rightarrow> Inr None | Some p \<Rightarrow> map_sum id Some (resource_access c p permission db)) (\<lambda>access.
              rbind (body access db) (\<lambda>result.
              rbind (after_body c deadline io) (\<lambda>_. Inr result)))) of
           Inl e \<Rightarrow> (Inl e, db)
         | Inr (x, db') \<Rightarrow>
             (case io_fault io of FaultAtCommit e durable \<Rightarrow> (Inl e, if durable then db' else db)
              | _ \<Rightarrow> (Inr x, db'))))"

definition reauthorize ::
    "trusted_context \<Rightarrow> string \<Rightarrow> transaction_io \<Rightarrow> identity_db \<Rightarrow> (access_error + unit) \<times> identity_db" where
  "reauthorize c permission io db = guard c None permission None io (\<lambda>_ db. Inr ((), db)) db"

text \<open>
  The body of \<open>accept_assertion\<close>: uses past their expiry are deleted, then the
  assertion is inserted unless it is already there (\<open>assertion_id\<close> is the
  primary key of the table).
\<close>

definition use_assertion :: "string \<Rightarrow> instant \<Rightarrow> instant \<Rightarrow> identity_db \<Rightarrow> access_error + unit \<times> identity_db" where
  "use_assertion assertion_id expires_at now db =
     (let kept = filter (\<lambda>(i, e). \<not> e < now) (db_assertions db)
      in if dget kept assertion_id \<noteq> None then Inl AccessDenied
         else Inr ((), db\<lparr>db_assertions := kept @ [(assertion_id, expires_at)]\<rparr>))"

definition accept_assertion ::
    "trusted_context \<Rightarrow> string \<Rightarrow> string \<Rightarrow> instant \<Rightarrow> transaction_io \<Rightarrow> identity_db \<Rightarrow> (access_error + unit) \<times> identity_db" where
  "accept_assertion c permission assertion_id expires_at io db =
     guard c None permission None io (\<lambda>_. use_assertion assertion_id expires_at (io_db_now io)) db"

definition require ::
    "trusted_context \<Rightarrow> resource_version \<Rightarrow> string \<Rightarrow> transaction_io \<Rightarrow> identity_db \<Rightarrow> (access_error + catalog_access option) \<times> identity_db" where
  "require c pin permission io db = guard c (Some pin) permission None io (\<lambda>access db. Inr (access, db)) db"

section \<open>Reading the context\<close>

definition get_trusted_context :: "instant \<Rightarrow> trusted_context option \<Rightarrow> access_error + trusted_context" where
  "get_trusted_context now context =
     (case context of None \<Rightarrow> Inl AccessDenied
      | Some c \<Rightarrow> if au_expires_at (cx_authentication c) \<le> now then Inl AccessDenied else Inr c)"

text \<open>The two environment variables; \<open>None\<close> is an unset variable.\<close>

definition legacy_development :: "string option \<Rightarrow> string option \<Rightarrow> bool res" where
  "legacy_development auth_mode environment =
     (let mode = (case auth_mode of None \<Rightarrow> ''service'' | Some m \<Rightarrow> m)
      in if mode \<notin> {''service'', ''legacy-development''} then Inl ValueError
         else if mode = ''legacy-development''
         then (if environment \<noteq> Some ''Development'' then Inl ValueError else Inr True)
         else Inr False)"

section \<open>Service authentication\<close>

datatype claim = CText string | CInt int | COther

text \<open>
  What \<open>jwt.decode_complete\<close> returns: the \<open>typ\<close> header and the required claims.
  \<open>tk_ctx\<close> is \<open>None\<close> when the context claim has the wrong structure for the model.
\<close>

record service_token =
  tk_typ :: claim
  tk_exp :: claim
  tk_iat :: claim
  tk_nbf :: claim
  tk_htm :: claim
  tk_htu :: claim
  tk_bh :: claim
  tk_jti :: claim
  tk_ctx :: "trusted_context option"

record http_request =
  rq_path :: string
  rq_query :: string
  rq_method :: string
  rq_authorization :: string
  rq_body :: string

definition request_target :: "http_request \<Rightarrow> string" where
  "request_target r = rq_path r @ (if rq_query r \<noteq> [] then ''?'' @ rq_query r else [])"

definition assertion_id_text :: "string \<Rightarrow> bool" where
  "assertion_id_text s = (length s = 32 \<and> list_all (\<lambda>c. c \<in> set ''abcdef'' \<or> is_digit c) s)"

text \<open>The assertion of a token bound to this request: its identifier and its expiry in seconds.\<close>

definition request_binding :: "(string \<Rightarrow> string) \<Rightarrow> service_token \<Rightarrow> http_request \<Rightarrow> (string \<times> int) option" where
  "request_binding sha256_hex tk r =
     (case (tk_exp tk, tk_iat tk, tk_nbf tk, tk_jti tk) of
        (CInt ex, CInt iat, CInt nbf, CText jti) \<Rightarrow>
          if tk_typ tk = CText ''nexus-service+jwt'' \<and> tk_htm tk = CText (rq_method r)
             \<and> tk_htu tk = CText (request_target r) \<and> tk_bh tk = CText (sha256_hex (rq_body r))
             \<and> 0 < ex - iat \<and> ex - iat \<le> 30 \<and> nbf = iat \<and> assertion_id_text jti
          then Some (jti, ex) else None
      | _ \<Rightarrow> None)"

datatype handler_failure = DeniedByHandler access_error | HandlerCrash

text \<open>A response: a refusal by its status, a handler response passed on for the
  health routes or released to an authorized caller, or an unhandled exception.\<close>

datatype 'r response = Refused nat | Passed 'r | Released 'r | Unhandled

record 'r dispatch_env =
  env_decode :: "string \<Rightarrow> service_token option"
  env_sha256 :: "string \<Rightarrow> string"
  env_context_clock :: "instant \<times> instant"
  env_accept :: transaction_io
  env_health :: "http_request \<Rightarrow> 'r"
  env_handler :: "trusted_context \<Rightarrow> http_request \<Rightarrow> handler_failure + 'r"
  env_elapsed :: "identity_db \<Rightarrow> identity_db"
  env_reauthorize :: transaction_io

definition request_permission :: "http_request \<Rightarrow> string" where
  "request_permission r = (if rq_method r = ''GET'' then ''run.reader'' else ''run.contributor'')"

definition refusal :: "access_error \<Rightarrow> nat" where
  "refusal e = (if e = AccessDenied then 403 else 503)"

text \<open>
  The middleware after the context was accepted: the handler runs with the
  context, the identity tables may change meanwhile (\<open>env_elapsed\<close>), and the
  response is released only after a second authorization.
\<close>

definition run_authorized ::
    "'r dispatch_env \<Rightarrow> trusted_context \<Rightarrow> http_request \<Rightarrow> identity_db \<Rightarrow> 'r response \<times> identity_db" where
  "run_authorized env c r db =
     (let db1 = env_elapsed env db in
      case env_handler env c r of
        Inl HandlerCrash \<Rightarrow> (Unhandled, db1)
      | Inl (DeniedByHandler e) \<Rightarrow> (Refused (refusal e), db1)
      | Inr response \<Rightarrow>
          (case reauthorize c (request_permission r) (env_reauthorize env) db1 of
             (Inl e, db2) \<Rightarrow> (Refused (refusal e), db2)
           | (Inr _, db2) \<Rightarrow> (Released response, db2)))"

definition dispatch :: "'r dispatch_env \<Rightarrow> http_request \<Rightarrow> identity_db \<Rightarrow> 'r response \<times> identity_db" where
  "dispatch env r db =
     (if rq_path r \<in> {''/health/live'', ''/health/ready''} then (Passed (env_health env r), db)
      else if take 7 (rq_authorization r) \<noteq> ''Bearer '' \<or> 16384 < length (rq_authorization r)
      then (Refused 401, db)
      else case env_decode env (drop 7 (rq_authorization r)) of
        None \<Rightarrow> (Refused 403, db)
      | Some tk \<Rightarrow>
          if 65536 < length (rq_body r) then (Refused 413, db)
          else case request_binding (env_sha256 env) tk r of
            None \<Rightarrow> (Refused 403, db)
          | Some (jti, ex) \<Rightarrow>
              (case tk_ctx tk of None \<Rightarrow> (Refused 403, db)
               | Some c \<Rightarrow>
                   if \<not> validate_context (env_context_clock env) c then (Refused 403, db)
                   else (case accept_assertion c (request_permission r) jti (ex * 1000000) (env_accept env) db of
                       (Inl e, db1) \<Rightarrow> (Refused (refusal e), db1)
                     | (Inr _, db1) \<Rightarrow> run_authorized env c r db1)))"

section \<open>Authorized transactions\<close>

text \<open>The membership of the context is in force: not expired and backed by the tables.\<close>

definition in_force :: "trusted_context \<Rightarrow> string \<Rightarrow> transaction_io \<Rightarrow> identity_db \<Rightarrow> bool" where
  "in_force c permission io db \<longleftrightarrow>
     io_start io < au_expires_at (cx_authentication c) \<and> io_check io < au_expires_at (cx_authentication c)
     \<and> io_end io < au_expires_at (cx_authentication c) \<and> (\<exists>r \<in> set (db_access db). row_grants c permission r)"

lemma remaining_budget_pos: "\<not> remaining_budget c deadline io \<le> 0 \<Longrightarrow> io_start io < au_expires_at (cx_authentication c)"
  by (auto simp: remaining_budget_def Let_def split: option.splits)

lemma map_sum_Some_Inr [simp]: "map_sum id Some r = Inr y \<longleftrightarrow> (\<exists>a. r = Inr a \<and> y = Some a)"
  by (cases r) auto

lemma guard_ok:
  assumes "guard c pin permission deadline io body db = (Inr x, db')"
  shows "in_force c permission io db \<and> \<not> io_expired io
    \<and> (\<exists>access. body access db = Inr (x, db') \<and> (pin = None \<longrightarrow> access = None)
        \<and> (\<forall>p. pin = Some p \<longrightarrow> (\<exists>a. resource_access c p permission db = Inr a \<and> access = Some a)))"
  using assms
  by (auto simp: guard_def in_force_def check_access_def after_body_def list_ex_iff
      split: if_splits fault.splits sum.splits option.splits prod.splits dest: remaining_budget_pos)

lemma guard_db:
  assumes "guard c pin permission deadline io body db = (r, db')"
  shows "db' = db \<or> (\<exists>access x. body access db = Inr (x, db'))"
  using assms
  by (auto simp: guard_def split: if_splits fault.splits sum.splits prod.splits)

lemma reauthorize_db: "reauthorize c permission io db = (r, db') \<Longrightarrow> db' = db"
  unfolding reauthorize_def by (drule guard_db) auto

lemma reauthorize_ok: "reauthorize c permission io db = (Inr u, db') \<Longrightarrow> in_force c permission io db \<and> db' = db"
  unfolding reauthorize_def by (drule guard_ok) auto

lemma accept_assertion_ok:
  assumes "accept_assertion c permission i e io db = (Inr u, db')"
  shows "in_force c permission io db \<and> use_assertion i e (io_db_now io) db = Inr ((), db')"
  using assms unfolding accept_assertion_def by (auto dest!: guard_ok)

lemma use_assertion_ok:
  "use_assertion i e now db = Inr (u, db') \<longleftrightarrow>
   (\<forall>e'. (i, e') \<in> set (db_assertions db) \<longrightarrow> e' < now)
   \<and> db' = db\<lparr>db_assertions := filter (\<lambda>(i, e). \<not> e < now) (db_assertions db) @ [(i, e)]\<rparr>"
  by (auto simp: use_assertion_def Let_def map_of_eq_None_iff image_iff split: if_splits)

lemma accept_assertion_db:
  assumes "accept_assertion c permission i e io db = (r, db')"
  shows "db_access db' = db_access db \<and> db_grants db' = db_grants db
    \<and> (\<forall>j e'. (j, e') \<in> set (db_assertions db) \<longrightarrow> \<not> e' < io_db_now io \<longrightarrow> (j, e') \<in> set (db_assertions db'))"
  using guard_db [OF assms [unfolded accept_assertion_def]] by (auto simp: use_assertion_ok)

section \<open>Histories of the tables\<close>

text \<open>
  The identity tables between two requests: other requests are dispatched, and
  the control service changes memberships and grants. It does not write the
  assertion table. The bound \<open>t\<close> is a reading of the database clock that no
  transaction of the history exceeds.
\<close>

definition identity_change :: "identity_db \<Rightarrow> identity_db \<Rightarrow> bool" where
  "identity_change db db' \<longleftrightarrow> db_assertions db' = db_assertions db"

inductive identity_history :: "instant \<Rightarrow> identity_db \<Rightarrow> identity_db \<Rightarrow> bool" for t where
  history_refl: "identity_history t db db"
| history_accept: "identity_history t db db1 \<Longrightarrow> io_db_now io \<le> t \<Longrightarrow>
    identity_history t db (snd (accept_assertion c permission i e io db1))"
| history_change: "identity_history t db db1 \<Longrightarrow> identity_change db1 db2 \<Longrightarrow> identity_history t db db2"

lemma history_keeps_assertion:
  assumes "identity_history t db db'" "(i, e) \<in> set (db_assertions db)" "t \<le> e"
  shows "(i, e) \<in> set (db_assertions db')"
  using assms
proof (induction rule: identity_history.induct)
  case (history_accept db db1 io c permission j f)
  then show ?case
    using accept_assertion_db [OF surjective_pairing, of c permission j f io db1] by fastforce
qed (auto simp: identity_change_def)

section \<open>A sample request\<close>

definition sample_context :: trusted_context where
  "sample_context = \<lparr>
     cx_scope = \<lparr>sc_tenant = ''t1'', sc_workspace = ''w1''\<rparr>,
     cx_principal = \<lparr>pr_id = ''alice'', pr_issuer = ''https://idp.example'', pr_subject = ''s-1''\<rparr>,
     cx_authentication = \<lparr>au_audience = ''nexus'', au_authenticated_at = 0, au_expires_at = 90000000\<rparr>,
     cx_membership = \<lparr>mb_id = ''m1'', mb_revision = 3, mb_authorized_at = 1, mb_permissions = [''run.reader'']\<rparr>\<rparr>"

definition sample_db :: identity_db where
  "sample_db = \<lparr>db_versions = [2],
     db_access = [\<lparr>ar_principal = ''alice'', ar_issuer = ''https://idp.example'', ar_subject = ''s-1'',
        ar_scope = \<lparr>sc_tenant = ''t1'', sc_workspace = ''w1''\<rparr>, ar_membership = ''m1'', ar_revision = 3,
        ar_permissions = [''run.reader'']\<rparr>],
     db_grants = [], db_groups = [], db_group_members = [], db_assertions = []\<rparr>"

definition sample_io :: "instant \<Rightarrow> transaction_io" where
  "sample_io t = \<lparr>io_start = t, io_check = t, io_end = t, io_loop_start = t, io_loop_end = t,
     io_db_now = t, io_expired = False, io_fault = NoFault\<rparr>"

definition sample_id :: string where
  "sample_id = ''0123456789abcdef0123456789abcdef''"

definition sample_token :: service_token where
  "sample_token = \<lparr>tk_typ = CText ''nexus-service+jwt'', tk_exp = CInt 31, tk_iat = CInt 1, tk_nbf = CInt 1,
     tk_htm = CText ''GET'', tk_htu = CText ''/v1/runs'', tk_bh = CText [], tk_jti = CText sample_id,
     tk_ctx = Some sample_context\<rparr>"

definition sample_env :: "instant \<Rightarrow> nat dispatch_env" where
  "sample_env t = \<lparr>env_decode = (\<lambda>_. Some sample_token), env_sha256 = id, env_context_clock = (2000000, 2000000),
     env_accept = sample_io t, env_health = (\<lambda>_. 0), env_handler = (\<lambda>_ _. Inr 200),
     env_elapsed = id, env_reauthorize = sample_io (t + 1)\<rparr>"

definition sample_request :: http_request where
  "sample_request = \<lparr>rq_path = ''/v1/runs'', rq_query = [], rq_method = ''GET'',
     rq_authorization = ''Bearer x'', rq_body = []\<rparr>"

lemmas dispatch_defs = dispatch_def request_binding_def request_target_def request_permission_def run_authorized_def
  reauthorize_def accept_assertion_def use_assertion_def guard_def remaining_budget_def after_body_def
  refusal_def

lemma sample_expiry: "au_expires_at (cx_authentication sample_context) = 90000000"
  by (simp add: sample_context_def)

lemma sample_check: "u < 90000000 \<Longrightarrow> check_access sample_context ''run.reader'' u (sample_db\<lparr>db_assertions := as\<rparr>) = Inr ()"
  by (simp add: check_access_def row_grants_def sample_context_def sample_db_def)

lemma sample_texts: "validate_context (2000000, 2000000) sample_context" "assertion_id_text sample_id"
  by code_simp+

lemma sample_dispatch:
  assumes "t < 89000000" "\<forall>(i, e) \<in> set as. e < t"
  shows "dispatch (sample_env t) sample_request (sample_db\<lparr>db_assertions := as\<rparr>)
     = (Released 200, sample_db\<lparr>db_assertions := [(sample_id, 31000000)]\<rparr>)"
proof -
  have "filter (\<lambda>(i, e). \<not> e < t) as = []" using assms(2) by (auto simp: filter_empty_conv)
  with assms(1) sample_texts show ?thesis
    by (simp add: dispatch_defs sample_token_def sample_env_def sample_request_def sample_io_def sample_check sample_expiry)
      (simp add: min_def)
qed

section \<open>Properties\<close>

text \<open>
  C36: The middleware releases the response of a protected route only when the
  bearer token was accepted by the JWT library and bound to exactly this
  request (method, target and body hash), its context passed validation, its
  assertion had no unexpired use on record and has one afterwards, the handler
  ran with that context, and the membership granting the permission of the
  method was in force both when the assertion was accepted and again after the
  handler, in the tables as they were then.
\<close>

theorem released_response_is_authorized:
  assumes "dispatch env r db = (Released response, db')"
  shows "\<exists>tk c jti ex db1.
    env_decode env (drop 7 (rq_authorization r)) = Some tk \<and> tk_ctx tk = Some c
    \<and> tk_htm tk = CText (rq_method r) \<and> tk_htu tk = CText (request_target r)
    \<and> tk_bh tk = CText (env_sha256 env (rq_body r)) \<and> tk_jti tk = CText jti \<and> tk_exp tk = CInt ex
    \<and> validate_context (env_context_clock env) c
    \<and> in_force c (request_permission r) (env_accept env) db
    \<and> (\<forall>e. (jti, e) \<in> set (db_assertions db) \<longrightarrow> e < io_db_now (env_accept env))
    \<and> (jti, ex * 1000000) \<in> set (db_assertions db1)
    \<and> env_handler env c r = Inr response
    \<and> db' = env_elapsed env db1
    \<and> in_force c (request_permission r) (env_reauthorize env) db'"
proof -
  obtain tk c jti ex db1 where tk: "env_decode env (drop 7 (rq_authorization r)) = Some tk"
    and bind: "request_binding (env_sha256 env) tk r = Some (jti, ex)" and c: "tk_ctx tk = Some c"
    and valid: "validate_context (env_context_clock env) c"
    and acc: "accept_assertion c (request_permission r) jti (ex * 1000000) (env_accept env) db = (Inr (), db1)"
    and run: "run_authorized env c r db1 = (Released response, db')"
    using assms
    by (simp add: dispatch_def split: if_split_asm option.split_asm sum.split_asm prod.split_asm)
  have b: "tk_htm tk = CText (rq_method r)" "tk_htu tk = CText (request_target r)"
      "tk_bh tk = CText (env_sha256 env (rq_body r))" "tk_jti tk = CText jti" "tk_exp tk = CInt ex"
    using bind by (auto simp: request_binding_def split: claim.splits if_splits)
  have a: "in_force c (request_permission r) (env_accept env) db"
      "\<forall>e. (jti, e) \<in> set (db_assertions db) \<longrightarrow> e < io_db_now (env_accept env)"
      "(jti, ex * 1000000) \<in> set (db_assertions db1)"
    using accept_assertion_ok [OF acc] by (auto simp: use_assertion_ok)
  have h: "env_handler env c r = Inr response" "db' = env_elapsed env db1"
      "in_force c (request_permission r) (env_reauthorize env) db'"
    using run by (auto simp: run_authorized_def Let_def
        split: sum.splits handler_failure.splits prod.splits dest: reauthorize_ok)
  show ?thesis
    using tk c b valid a h by (intro exI conjI)
qed

theorem released_response_is_authorized_witness:
  "in_force sample_context ''run.reader'' (sample_io 3000000) (sample_db\<lparr>db_assertions := []\<rparr>)
   \<and> in_force sample_context ''run.reader'' (sample_io 3000001) (sample_db\<lparr>db_assertions := [(sample_id, 31000000)]\<rparr>)"
  using released_response_is_authorized [OF sample_dispatch [of 3000000 "[]"]]
  by (simp add: sample_env_def sample_token_def request_permission_def sample_request_def)

text \<open>
  C37: A service assertion is accepted at most once before it expires: once a
  request was accepted with it, any later attempt to accept it again fails as
  long as the database clock has not passed its expiry, whatever other requests
  and identity changes happened in between.
\<close>

theorem assertion_accepted_once:
  assumes "accept_assertion c permission i e io db = (Inr (), db1)"
    and "identity_history e db1 db2" "io_db_now io' \<le> e"
  shows "\<exists>err. fst (accept_assertion c' permission' i e' io' db2) = Inl err"
proof -
  have "(i, e) \<in> set (db_assertions db1)"
    using accept_assertion_ok [OF assms(1)] by (simp add: use_assertion_ok)
  then have kept: "(i, e) \<in> set (db_assertions db2)"
    using history_keeps_assertion [OF assms(2)] by simp
  show ?thesis
  proof (cases "fst (accept_assertion c' permission' i e' io' db2)")
    case (Inr u)
    then have "use_assertion i e' (io_db_now io') db2 = Inr ((), snd (accept_assertion c' permission' i e' io' db2))"
      using accept_assertion_ok by (metis prod.collapse)
    with kept assms(3) show ?thesis by (auto simp: use_assertion_ok)
  qed simp
qed

theorem assertion_accepted_once_witness:
  "\<exists>err. fst (accept_assertion sample_context ''run.reader'' sample_id 31000000 (sample_io 31000000)
      (snd (accept_assertion sample_context ''run.reader'' sample_id 31000000 (sample_io 3000000)
        (sample_db\<lparr>db_assertions := []\<rparr>)))) = Inl err"
proof -
  have first: "accept_assertion sample_context ''run.reader'' sample_id 31000000 (sample_io 3000000) (sample_db\<lparr>db_assertions := []\<rparr>)
      = (Inr (), sample_db\<lparr>db_assertions := [(sample_id, 31000000)]\<rparr>)"
    by (simp add: dispatch_defs sample_io_def sample_check sample_expiry)
  show ?thesis
    unfolding first snd_conv
    by (rule assertion_accepted_once [OF first history_refl]) (simp add: sample_io_def)
qed


end
