(* ===== verification/Semantic_Registry.thy ===== *)
theory Semantic_Registry
  imports Iso_Datetime Dependency_Graph
begin

text \<open>
  The data model of the semantic API (\<open>models.py\<close>) and its ontology registry
  (\<open>ontology.py\<close>): construction of the indexes with their uniqueness and
  reference checks, the concept lookups, and \<open>retrieve\<close>, which selects the part
  of the ontology a question may use.

  Texts are compared after \<open>casefold\<close>; the case folding table is written out for
  the code points the character type has.
\<close>

section \<open>Ontology documents\<close>

datatype query_policy = ALLOW | DENY

datatype column_type = STRING | NUMBER | BOOLEAN | DATETIME

record ontology_member =
  om_id :: string
  om_label :: string
  om_synonyms :: "string list"
  om_enabled :: bool

record ontology_entity =
  oe_id :: string
  oe_label :: string
  oe_synonyms :: "string list"
  oe_enabled :: bool
  oe_query_policy :: query_policy

record ontology_field =
  of_id :: string
  of_entity_id :: string
  of_label :: string
  of_data_type :: column_type
  of_synonyms :: "string list"
  of_members :: "ontology_member list"
  of_enabled :: bool
  of_query_policy :: query_policy

record ontology_metric =
  ot_id :: string
  ot_entity_id :: string
  ot_label :: string
  ot_data_type :: column_type
  ot_synonyms :: "string list"
  ot_enabled :: bool
  ot_query_policy :: query_policy

record ontology_relation =
  or_id :: string
  or_from_entity_id :: string
  or_to_entity_id :: string
  or_from_field_id :: string
  or_to_field_id :: string
  or_label :: string
  or_enabled :: bool
  or_query_policy :: query_policy

record ontology_document =
  od_ontology_id :: string
  od_version :: string
  od_entities :: "ontology_entity list"
  od_fields :: "ontology_field list"
  od_metrics :: "ontology_metric list"
  od_relations :: "ontology_relation list"

record semantic_context =
  sx_ontology_id :: string
  sx_ontology_version :: string
  sx_entities :: "ontology_entity list"
  sx_fields :: "ontology_field list"
  sx_metrics :: "ontology_metric list"
  sx_relations :: "ontology_relation list"

section \<open>Resolved terms and time windows\<close>

datatype term_kind = TERM_ENTITY | TERM_FIELD | TERM_METRIC | TERM_MEMBER | TERM_TIME_WINDOW

datatype resolution_source = MACHINE_ID | LABEL | SYNONYM | RELATIVE_TIME | EVALUATION_CLOCK

record resolved_term =
  rt_source_text :: string
  rt_kind :: term_kind
  rt_machine_id :: string
  rt_resolution_source :: resolution_source

datatype grain = YEAR | QUARTER | MONTH

text \<open>The boundaries of a window carry their UTC offset.\<close>

record time_window =
  tw_source_text :: string
  tw_start :: timestamp
  tw_end_exclusive :: timestamp
  tw_timezone :: string
  tw_grain :: grain

datatype compilation_mode = REGIONAL_QUARTERLY_PROFIT | MONTHLY_REGIONAL_COMPARISON

section \<open>The registry\<close>

record registry =
  rg_document :: ontology_document
  rg_entities :: "(string, ontology_entity) dict"
  rg_fields :: "(string, ontology_field) dict"
  rg_metrics :: "(string, ontology_metric) dict"
  rg_relations :: "(string, ontology_relation) dict"
  rg_members :: "(string, string \<times> ontology_member) dict"

fun unique_index :: "('a \<Rightarrow> string) \<Rightarrow> 'a list \<Rightarrow> (string, 'a) dict \<Rightarrow> (string, 'a) dict res" where
  "unique_index key [] index = Inr index"
| "unique_index key (x # xs) index =
     rbind (raise_unless (dget index (key x) = None) ValueError) (\<lambda>_. unique_index key xs (dput (key x) x index))"

definition register_global_id :: "string \<Rightarrow> string \<Rightarrow> (string, string) dict \<Rightarrow> (string, string) dict res" where
  "register_global_id kind machine_id index =
     rbind (raise_unless (dget index machine_id = None) ValueError) (\<lambda>_. Inr (dput machine_id kind index))"

fun register_all :: "string \<Rightarrow> string list \<Rightarrow> (string, string) dict \<Rightarrow> (string, string) dict res" where
  "register_all kind [] index = Inr index"
| "register_all kind (i # is) index = rbind (register_global_id kind i index) (register_all kind is)"

type_synonym member_index = "(string, string \<times> ontology_member) dict"

fun register_members ::
    "(string \<times> ontology_member) list \<Rightarrow> member_index \<Rightarrow> (string, string) dict \<Rightarrow> member_index res" where
  "register_members [] members ids = Inr members"
| "register_members ((f, m) # ms) members ids =
     rbind (raise_unless (dget members (om_id m) = None) ValueError) (\<lambda>_.
     rbind (register_global_id ''member'' (om_id m) ids) (\<lambda>ids'.
     register_members ms (dput (om_id m) (f, m) members) ids'))"

definition check_relation :: "(string, ontology_entity) dict \<Rightarrow> (string, ontology_field) dict \<Rightarrow> ontology_relation \<Rightarrow> unit res" where
  "check_relation entities fields_by_id r =
     (case (dget fields_by_id (or_from_field_id r), dget fields_by_id (or_to_field_id r)) of
        (Some from, Some to) \<Rightarrow>
          rbind (raise_unless (dget entities (or_from_entity_id r) \<noteq> None \<and> dget entities (or_to_entity_id r) \<noteq> None
                   \<and> of_entity_id from = or_from_entity_id r \<and> of_entity_id to = or_to_entity_id r) ValueError) (\<lambda>_.
          raise_unless (of_data_type from = of_data_type to) ValueError)
      | _ \<Rightarrow> Inl ValueError)"

definition validate_references :: "registry \<Rightarrow> unit res" where
  "validate_references rg =
     rbind (check_each (\<lambda>f. raise_unless (dget (rg_entities rg) (of_entity_id f) \<noteq> None) ValueError) (map snd (rg_fields rg))) (\<lambda>_.
     rbind (check_each (\<lambda>m. raise_unless (dget (rg_entities rg) (ot_entity_id m) \<noteq> None) ValueError) (map snd (rg_metrics rg))) (\<lambda>_.
     check_each (check_relation (rg_entities rg) (rg_fields rg)) (map snd (rg_relations rg))))"

definition new_registry :: "ontology_document \<Rightarrow> registry res" where
  "new_registry d =
     rbind (unique_index oe_id (od_entities d) []) (\<lambda>entities.
     rbind (unique_index of_id (od_fields d) []) (\<lambda>fields_by_id.
     rbind (unique_index ot_id (od_metrics d) []) (\<lambda>metrics.
     rbind (unique_index or_id (od_relations d) []) (\<lambda>relations.
     rbind (register_all ''entity'' (dkeys entities) []) (\<lambda>ids.
     rbind (register_all ''field'' (dkeys fields_by_id) ids) (\<lambda>ids.
     rbind (register_all ''metric'' (dkeys metrics) ids) (\<lambda>ids.
     rbind (register_all ''relation'' (dkeys relations) ids) (\<lambda>ids.
     rbind (register_members (concat (map (\<lambda>f. map (Pair (of_id f)) (of_members f)) (od_fields d))) [] ids) (\<lambda>members.
     let rg = \<lparr>rg_document = d, rg_entities = entities, rg_fields = fields_by_id, rg_metrics = metrics,
               rg_relations = relations, rg_members = members\<rparr>
     in rbind (validate_references rg) (\<lambda>_. Inr rg))))))))))"

definition has_entity :: "registry \<Rightarrow> string \<Rightarrow> bool" where
  "has_entity rg i = (dget (rg_entities rg) i \<noteq> None)"

definition has_field :: "registry \<Rightarrow> string \<Rightarrow> bool" where
  "has_field rg i = (dget (rg_fields rg) i \<noteq> None)"

definition has_metric :: "registry \<Rightarrow> string \<Rightarrow> bool" where
  "has_metric rg i = (dget (rg_metrics rg) i \<noteq> None)"

definition has_relation :: "registry \<Rightarrow> string \<Rightarrow> bool" where
  "has_relation rg i = (dget (rg_relations rg) i \<noteq> None)"

definition has_member :: "registry \<Rightarrow> string \<Rightarrow> bool" where
  "has_member rg i = (dget (rg_members rg) i \<noteq> None)"

datatype concept_kind = EntityConcept | FieldConcept | MetricConcept | RelationConcept

definition concept_state :: "registry \<Rightarrow> string \<Rightarrow> concept_kind \<Rightarrow> (bool \<times> query_policy) option" where
  "concept_state rg i kind =
     (case kind of
        EntityConcept \<Rightarrow> map_option (\<lambda>x. (oe_enabled x, oe_query_policy x)) (dget (rg_entities rg) i)
      | FieldConcept \<Rightarrow> map_option (\<lambda>x. (of_enabled x, of_query_policy x)) (dget (rg_fields rg) i)
      | MetricConcept \<Rightarrow> map_option (\<lambda>x. (ot_enabled x, ot_query_policy x)) (dget (rg_metrics rg) i)
      | RelationConcept \<Rightarrow> map_option (\<lambda>x. (or_enabled x, or_query_policy x)) (dget (rg_relations rg) i))"

definition member_state :: "registry \<Rightarrow> string \<Rightarrow> (bool \<times> query_policy) option" where
  "member_state rg i = map_option (\<lambda>(f, m). (om_enabled m, ALLOW)) (dget (rg_members rg) i)"

definition typed_fields :: "registry \<Rightarrow> (string, ontology_field) dict" where
  "typed_fields rg = dict_of (map (\<lambda>f. (of_id f, f)) (od_fields (rg_document rg)))"

definition typed_metrics :: "registry \<Rightarrow> (string, ontology_metric) dict" where
  "typed_metrics rg = dict_of (map (\<lambda>m. (ot_id m, m)) (od_metrics (rg_document rg)))"

definition typed_relations :: "registry \<Rightarrow> (string, ontology_relation) dict" where
  "typed_relations rg = dict_of (map (\<lambda>r. (or_id r, r)) (od_relations (rg_document rg)))"

definition typed_entities :: "registry \<Rightarrow> (string, ontology_entity) dict" where
  "typed_entities rg = dict_of (map (\<lambda>e. (oe_id e, e)) (od_entities (rg_document rg)))"

section \<open>Retrieval\<close>

text \<open>
  \<open>str.casefold\<close>. The micro sign folds to a letter outside of the character
  type that nothing else of the type folds to; it stands for itself.
\<close>

definition casefold_char :: "char \<Rightarrow> string" where
  "casefold_char c =
     (let n = (of_char c :: nat)
      in if 65 \<le> n \<and> n \<le> 90 \<or> 192 \<le> n \<and> n \<le> 222 \<and> n \<noteq> 215 then [char_of (n + 32)]
         else if n = 223 then ''ss'' else [c])"

definition casefold :: "string \<Rightarrow> string" where
  "casefold s = concat (map casefold_char s)"

fun contains_text :: "string \<Rightarrow> string \<Rightarrow> bool" where
  "contains_text needle [] = (needle = [])"
| "contains_text needle (c # s) = (take (length needle) (c # s) = needle \<or> contains_text needle s)"

definition matches :: "string \<Rightarrow> string \<Rightarrow> string \<Rightarrow> string list \<Rightarrow> bool" where
  "matches question machine_id label synonyms =
     list_ex (\<lambda>c. c \<noteq> [] \<and> contains_text (casefold c) question) (machine_id # label # synonyms)"

record selection =
  sl_entities :: "string set"
  sl_fields :: "string set"
  sl_metrics :: "string set"

definition resolved_ids :: "term_kind \<Rightarrow> resolved_term list \<Rightarrow> string set" where
  "resolved_ids kind terms = set (map rt_machine_id (filter (\<lambda>t. rt_kind t = kind) terms))"

definition select_scope :: "registry \<Rightarrow> string \<Rightarrow> selection \<Rightarrow> selection" where
  "select_scope rg i s =
     (if has_entity rg i then s\<lparr>sl_entities := insert i (sl_entities s)\<rparr>
      else case dget (rg_fields rg) i of
        Some f \<Rightarrow> s\<lparr>sl_fields := insert i (sl_fields s), sl_entities := insert (of_entity_id f) (sl_entities s)\<rparr>
      | None \<Rightarrow>
          (case dget (rg_metrics rg) i of
             Some m \<Rightarrow> s\<lparr>sl_metrics := insert i (sl_metrics s), sl_entities := insert (ot_entity_id m) (sl_entities s)\<rparr>
           | None \<Rightarrow> s))"

definition select_field :: "string \<Rightarrow> ontology_field \<Rightarrow> selection \<Rightarrow> selection" where
  "select_field question f s =
     (if matches question (of_id f) (of_label f) (of_synonyms f)
      then s\<lparr>sl_fields := insert (of_id f) (sl_fields s), sl_entities := insert (of_entity_id f) (sl_entities s)\<rparr> else s)"

definition select_metric :: "string \<Rightarrow> ontology_metric \<Rightarrow> selection \<Rightarrow> selection" where
  "select_metric question m s =
     (if matches question (ot_id m) (ot_label m) (ot_synonyms m)
      then s\<lparr>sl_metrics := insert (ot_id m) (sl_metrics s), sl_entities := insert (ot_entity_id m) (sl_entities s)\<rparr> else s)"

definition select_entity :: "string \<Rightarrow> ontology_entity \<Rightarrow> selection \<Rightarrow> selection" where
  "select_entity question e s =
     (if matches question (oe_id e) (oe_label e) (oe_synonyms e)
      then s\<lparr>sl_entities := insert (oe_id e) (sl_entities s)\<rparr> else s)"

text \<open>\<open>self.fields[field_id]\<close> raises \<open>KeyError\<close> for a member without field.\<close>

definition select_member :: "registry \<Rightarrow> resolved_term \<Rightarrow> selection \<Rightarrow> selection res" where
  "select_member rg t s =
     (if rt_kind t \<noteq> TERM_MEMBER then Inr s
      else case dget (rg_members rg) (rt_machine_id t) of None \<Rightarrow> Inr s
        | Some (f, m) \<Rightarrow>
            rbind (dict_item (rg_fields rg) f) (\<lambda>field.
            Inr (s\<lparr>sl_fields := insert f (sl_fields s), sl_entities := insert (of_entity_id field) (sl_entities s)\<rparr>)))"

fun select_members :: "registry \<Rightarrow> resolved_term list \<Rightarrow> selection \<Rightarrow> selection res" where
  "select_members rg [] s = Inr s"
| "select_members rg (t # ts) s = rbind (select_member rg t s) (select_members rg ts)"

definition selected_context :: "ontology_document \<Rightarrow> selection \<Rightarrow> semantic_context" where
  "selected_context d s =
     \<lparr>sx_ontology_id = od_ontology_id d, sx_ontology_version = od_version d,
      sx_entities = filter (\<lambda>e. oe_id e \<in> sl_entities s) (od_entities d),
      sx_fields = filter (\<lambda>f. of_id f \<in> sl_fields s \<and> of_entity_id f \<in> sl_entities s) (od_fields d),
      sx_metrics = filter (\<lambda>m. ot_id m \<in> sl_metrics s \<and> ot_entity_id m \<in> sl_entities s) (od_metrics d),
      sx_relations = filter (\<lambda>r. or_from_entity_id r \<in> sl_entities s \<and> or_to_entity_id r \<in> sl_entities s) (od_relations d)\<rparr>"

definition retrieve :: "registry \<Rightarrow> string \<Rightarrow> resolved_term list \<Rightarrow> string list \<Rightarrow> semantic_context res" where
  "retrieve rg question terms scope =
     (let d = rg_document rg; q = casefold question;
          s0 = \<lparr>sl_entities = resolved_ids TERM_ENTITY terms, sl_fields = resolved_ids TERM_FIELD terms,
                sl_metrics = resolved_ids TERM_METRIC terms\<rparr>;
          s1 = fold (select_scope rg) scope s0;
          s2 = fold (select_field q) (od_fields d) s1;
          s3 = fold (select_metric q) (od_metrics d) s2;
          s4 = fold (select_entity q) (od_entities d) s3
      in rbind (select_members rg terms s4) (\<lambda>s. Inr (selected_context d s)))"

section \<open>Well-formed registries\<close>

lemma unique_index_ok:
  "unique_index key xs index = Inr d \<Longrightarrow>
   d = index @ map (\<lambda>x. (key x, x)) xs \<and> distinct (map key xs) \<and> key ` set xs \<inter> dom (dget index) = {}"
proof (induction xs arbitrary: index)
  case (Cons x xs)
  then have fresh: "key x \<notin> fst ` set index" and rest: "unique_index key xs (index @ [(key x, x)]) = Inr d"
    by (auto simp: update_fresh map_of_eq_None_iff)
  show ?case
    using Cons.IH [OF rest] fresh by (force simp: dom_map_of_conv_image_fst)
qed simp

lemma register_all_ok:
  "register_all kind is ids = Inr ids' \<Longrightarrow> dom (dget ids') = dom (dget ids) \<union> set is \<and> set is \<inter> dom (dget ids) = {}"
proof (induction "is" arbitrary: ids)
  case (Cons i "is")
  then obtain m where m: "dget ids i = None" "m = dput i kind ids" "register_all kind is m = Inr ids'"
    by (auto simp: register_global_id_def)
  with Cons.IH [OF m(3)] show ?case by (auto simp: dom_update)
qed simp

lemma register_members_ok:
  "register_members ms members ids = Inr members' \<Longrightarrow>
   (\<forall>i. dget members' i = (case dget members i of Some x \<Rightarrow> Some x
      | None \<Rightarrow> map_of (map (\<lambda>(f, m). (om_id m, (f, m))) ms) i))
   \<and> (\<forall>(f, m) \<in> set ms. om_id m \<notin> dom (dget ids))"
proof (induction ms members ids rule: register_members.induct)
  case (2 f m ms members ids)
  then have m: "dget members (om_id m) = None" "dget ids (om_id m) = None"
      "register_members ms (dput (om_id m) (f, m) members) (dput (om_id m) ''member'' ids) = Inr members'"
    by (auto simp: register_global_id_def)
  have ih: "(\<forall>i. dget members' i = (case dget (dput (om_id m) (f, m) members) i of Some x \<Rightarrow> Some x
      | None \<Rightarrow> map_of (map (\<lambda>(f, m). (om_id m, (f, m))) ms) i))
   \<and> (\<forall>(f', m') \<in> set ms. om_id m' \<notin> dom (dget (dput (om_id m) ''member'' ids)))"
    using "2.IH" m by (simp add: register_global_id_def)
  then show ?case using m by (auto split: option.splits)
qed (simp split: option.splits)

text \<open>
  What a constructed registry guarantees: the indexes are exactly the lists of
  the document, every concept has its entity, every member its field, and a
  relation joins fields of equal type on its two entities.
\<close>

definition registry_ok :: "registry \<Rightarrow> bool" where
  "registry_ok rg \<longleftrightarrow>
     (let d = rg_document rg in
      rg_entities rg = map (\<lambda>e. (oe_id e, e)) (od_entities d) \<and> rg_fields rg = map (\<lambda>f. (of_id f, f)) (od_fields d)
      \<and> rg_metrics rg = map (\<lambda>m. (ot_id m, m)) (od_metrics d) \<and> rg_relations rg = map (\<lambda>r. (or_id r, r)) (od_relations d)
      \<and> distinct (map oe_id (od_entities d) @ map of_id (od_fields d) @ map ot_id (od_metrics d) @ map or_id (od_relations d))
      \<and> (\<forall>i f m. dget (rg_members rg) i = Some (f, m) \<longrightarrow> om_id m = i \<and> (\<exists>fl \<in> set (od_fields d). of_id fl = f \<and> m \<in> set (of_members fl)))
      \<and> (\<forall>f \<in> set (od_fields d). of_entity_id f \<in> oe_id ` set (od_entities d))
      \<and> (\<forall>m \<in> set (od_metrics d). ot_entity_id m \<in> oe_id ` set (od_entities d)))"

lemma dget_index_Some: "dget (map (\<lambda>x. (key x, x)) xs) i \<noteq> None \<longleftrightarrow> i \<in> key ` set xs"
  by (induction xs) auto

lemma dkeys_keyed [simp]: "dkeys (map (\<lambda>x. (key x, x)) xs) = map key xs"
  by (simp add: dkeys_def comp_def)

lemma new_registry_ok:
  assumes "new_registry d = Inr rg"
  shows "registry_ok rg \<and> rg_document rg = d"
proof -
  obtain es fs ms rs ids1 ids2 ids3 ids4 mem where
      e: "unique_index oe_id (od_entities d) [] = Inr es" and f: "unique_index of_id (od_fields d) [] = Inr fs"
      and m: "unique_index ot_id (od_metrics d) [] = Inr ms" and r: "unique_index or_id (od_relations d) [] = Inr rs"
      and i1: "register_all ''entity'' (dkeys es) [] = Inr ids1" and i2: "register_all ''field'' (dkeys fs) ids1 = Inr ids2"
      and i3: "register_all ''metric'' (dkeys ms) ids2 = Inr ids3" and i4: "register_all ''relation'' (dkeys rs) ids3 = Inr ids4"
      and mem: "register_members (concat (map (\<lambda>f. map (Pair (of_id f)) (of_members f)) (od_fields d))) [] ids4 = Inr mem"
      and rg: "rg = \<lparr>rg_document = d, rg_entities = es, rg_fields = fs, rg_metrics = ms, rg_relations = rs, rg_members = mem\<rparr>"
      and refs: "validate_references rg = Inr ()"
    using assms unfolding new_registry_def Let_def by auto
  have idx: "es = map (\<lambda>x. (oe_id x, x)) (od_entities d)" "distinct (map oe_id (od_entities d))"
      "fs = map (\<lambda>x. (of_id x, x)) (od_fields d)" "distinct (map of_id (od_fields d))"
      "ms = map (\<lambda>x. (ot_id x, x)) (od_metrics d)" "distinct (map ot_id (od_metrics d))"
      "rs = map (\<lambda>x. (or_id x, x)) (od_relations d)" "distinct (map or_id (od_relations d))"
    using unique_index_ok [OF e] unique_index_ok [OF f] unique_index_ok [OF m] unique_index_ok [OF r] by simp_all
  have dis: "distinct (map oe_id (od_entities d) @ map of_id (od_fields d) @ map ot_id (od_metrics d) @ map or_id (od_relations d))"
    using register_all_ok [OF i1] register_all_ok [OF i2] register_all_ok [OF i3] register_all_ok [OF i4] idx(2,4,6,8)
    unfolding idx(1,3,5,7) dkeys_keyed by auto
  have mems: "om_id x = i \<and> (\<exists>fl \<in> set (od_fields d). of_id fl = fi \<and> x \<in> set (of_members fl))"
    if "dget mem i = Some (fi, x)" for i fi x
    using register_members_ok [OF mem] that by (auto dest!: map_of_SomeD)
  have ents: "\<forall>f \<in> set (od_fields d). of_entity_id f \<in> oe_id ` set (od_entities d)"
      "\<forall>m \<in> set (od_metrics d). ot_entity_id m \<in> oe_id ` set (od_entities d)"
    using refs dget_index_Some [of oe_id "od_entities d"]
    unfolding validate_references_def rg idx by (auto simp: comp_def)
  show ?thesis
    unfolding registry_ok_def rg Let_def registry.simps using idx dis mems ents by blast
qed

end
