(* ===== verification/Run_Models.thy ===== *)
theory Run_Models
  imports Trusted_Access Semantic_Registry
begin

text \<open>
  The request, status and detail models of the semantic backend (\<open>models.py\<close>)
  with their validators. A cell of a result is one of the JSON scalars; the
  validator of a result set decides which of them a column type admits.
\<close>

section \<open>Requests and status\<close>

datatype run_state = QUEUED | STARTING | RUNNING | CANCELLED | SUCCEEDED | FAILED

definition terminal :: "run_state \<Rightarrow> bool" where
  "terminal s = (s \<in> {CANCELLED, SUCCEEDED, FAILED})"

datatype execution_mode = THREAD

datatype output_mode = NORMAL | STREAM

record start_run_request =
  rq_run_id :: string
  rq_client_request_id :: string
  rq_workload :: string
  rq_question :: string
  rq_evaluation_clock :: instant
  rq_evaluation_timezone :: string
  rq_compilation_mode :: compilation_mode
  rq_execution_mode :: execution_mode
  rq_output_mode :: output_mode
  rq_requested_by :: string
  rq_trace_id :: string

definition lower_hex :: "char \<Rightarrow> bool" where
  "lower_hex c = (is_digit c \<or> c \<in> set ''abcdef'')"

definition canonical_run_id :: "string \<Rightarrow> bool" where
  "canonical_run_id s =
     (case drop_prefix ''run_'' s of None \<Rightarrow> False | Some r \<Rightarrow> length r = 32 \<and> list_all lower_hex r)"

definition safe_metadata :: "string \<Rightarrow> bool" where
  "safe_metadata s =
     (s \<noteq> [] \<and> length s \<le> 64 \<and> (ascii_letter (hd s) \<or> is_digit (hd s))
        \<and> list_all (\<lambda>c. ascii_letter c \<or> is_digit c \<or> c \<in> set ''._-'') (tl s))"

text \<open>The characters below 256 whose Unicode category starts with C.\<close>

definition control_char :: "char \<Rightarrow> bool" where
  "control_char c = (let n = (of_char c :: nat) in n < 32 \<or> 127 \<le> n \<and> n \<le> 159 \<or> n = 173)"

definition nonblank :: "string \<Rightarrow> bool" where
  "nonblank s = (strip s \<noteq> [] \<and> \<not> list_ex control_char s)"

fun split_slash :: "string \<Rightarrow> string list" where
  "split_slash [] = [[]]"
| "split_slash (c # s) =
     (if c = CHR ''/'' then [] # split_slash s else (c # hd (split_slash s)) # tl (split_slash s))"

definition zone_part :: "string \<Rightarrow> bool" where
  "zone_part s =
     (s \<noteq> [] \<and> length s \<le> 14 \<and> ascii_letter (hd s)
        \<and> list_all (\<lambda>c. ascii_letter c \<or> is_digit c \<or> c \<in> set ''_+-'') (tl s))"

definition iana_timezone :: "string \<Rightarrow> bool" where
  "iana_timezone s = (s = ''UTC'' \<or> 2 \<le> length (split_slash s) \<and> list_all zone_part (split_slash s))"

definition length_between :: "nat \<Rightarrow> nat \<Rightarrow> string \<Rightarrow> bool" where
  "length_between a b s = (a \<le> length s \<and> length s \<le> b)"

definition start_request_ok :: "start_run_request \<Rightarrow> bool" where
  "start_request_ok r =
     (canonical_run_id (rq_run_id r) \<and> safe_metadata (rq_client_request_id r) \<and> safe_metadata (rq_workload r)
        \<and> length_between 1 4000 (rq_question r) \<and> nonblank (rq_question r)
        \<and> length_between 1 100 (rq_evaluation_timezone r) \<and> iana_timezone (rq_evaluation_timezone r)
        \<and> length_between 1 200 (rq_requested_by r) \<and> nonblank (rq_requested_by r)
        \<and> length_between 1 128 (rq_trace_id r) \<and> nonblank (rq_trace_id r))"

record node_summary =
  ns_node_id :: string
  ns_kind :: string
  ns_state :: run_state
  ns_started_at :: "instant option"
  ns_completed_at :: "instant option"

record stage_summary =
  ss_stage_id :: string
  ss_name :: string
  ss_state :: run_state
  ss_started_at :: "instant option"
  ss_completed_at :: "instant option"
  ss_nodes :: "node_summary list"

record diagnostic_summary =
  dx_code :: string
  dx_message :: string
  dx_stage :: "string option"
  dx_occurred_at :: instant

record run_status =
  rs_run_id :: string
  rs_state :: run_state
  rs_started_at :: "instant option"
  rs_finalized_at :: "instant option"
  rs_stages :: "stage_summary list"
  rs_tokens :: "int \<times> int"
  rs_diagnostics :: "diagnostic_summary list"

section \<open>Result sets\<close>

datatype scalar_type =
  ST_STRING | ST_INTEGER | ST_FLOAT | ST_DECIMAL | ST_BOOLEAN | ST_DATE | ST_TIMESTAMP

datatype column_format = CF_TEXT | CF_CURRENCY | CF_PERCENT | CF_NUMBER | CF_DATE | CF_TIMESTAMP

record result_column =
  co_key :: string
  co_label :: string
  co_data_type :: scalar_type
  co_format :: column_format
  co_nullable :: bool

record result_set =
  rt_columns :: "result_column list"
  rt_rows :: "scalar list list"
  rt_row_count :: int
  rt_truncated :: bool

definition MAX_SAFE_INTEGER :: int where
  "MAX_SAFE_INTEGER = 9007199254740991"

definition safe_integer :: "int \<Rightarrow> bool" where
  "safe_integer i = (- MAX_SAFE_INTEGER \<le> i \<and> i \<le> MAX_SAFE_INTEGER)"

text \<open>A pattern in which \<open>d\<close> stands for a digit and every other character for itself.\<close>

definition like_pattern :: "string \<Rightarrow> string \<Rightarrow> bool" where
  "like_pattern p s = list_all2 (\<lambda>t c. if t = CHR ''d'' then is_digit c else c = t) p s"

text \<open>
  The value of a finite double is \<open>m * 2 ^ e\<close>. Above \<open>2 ^ 53\<close> every double is an
  integer, so comparing the exact value instead of its shortest decimal text
  with \<open>1e28\<close> gives the same verdict.
\<close>

definition float_within :: "int \<Rightarrow> int \<Rightarrow> int \<Rightarrow> bool" where
  "float_within m e bound = (if 0 \<le> e then \<bar>m\<bar> * 2 ^ nat e \<le> bound else \<bar>m\<bar> \<le> bound * 2 ^ nat (- e))"

definition float_is_integer :: "int \<Rightarrow> int \<Rightarrow> bool" where
  "float_is_integer m e = (0 \<le> e \<or> m mod 2 ^ nat (- e) = 0)"

fun float_cell :: "scalar \<Rightarrow> bool" where
  "float_cell (SInt i) = safe_integer i"
| "float_cell (SFloat (FFinite m e)) =
     (float_within m e (10 ^ 28) \<and> (\<not> float_is_integer m e \<or> float_within m e MAX_SAFE_INTEGER))"
| "float_cell _ = False"

text \<open>\<open>^-?(0|[1-9][0-9]*)(?:\.([0-9]+))?$\<close>: the sign, the integer digits and the fraction digits.\<close>

definition decimal_text :: "string \<Rightarrow> (bool \<times> string \<times> string) option" where
  "decimal_text s =
     (let neg = (s \<noteq> [] \<and> hd s = CHR ''-''); u = (if neg then tl s else s);
          ip = takeWhile is_digit u; r = dropWhile is_digit u
      in if ip = [] \<or> (hd ip = CHR ''0'' \<and> length ip \<noteq> 1) then None
         else case r of [] \<Rightarrow> Some (neg, ip, [])
              | c # f \<Rightarrow> if c = CHR ''.'' \<and> f \<noteq> [] \<and> list_all is_digit f then Some (neg, ip, f) else None)"

definition decimal_cell :: "string \<Rightarrow> bool" where
  "decimal_cell s =
     (case decimal_text s of None \<Rightarrow> False
      | Some (neg, ip, f) \<Rightarrow>
          let digits = dropWhile (\<lambda>c. c = CHR ''0'') (ip @ f);
              significant = (if digits = [] then 1 else length digits)
          in \<not> (digits_value (ip @ f) = 0 \<and> neg) \<and> significant \<le> 29 \<and> length f \<le> 28
             \<and> digits_value (ip @ f) \<le> 10 ^ 28 * 10 ^ length f)"

definition date_cell :: "string \<Rightarrow> bool" where
  "date_cell s = (like_pattern ''dddd-dd-dd'' s \<and> date_fromisoformat s \<noteq> None \<and> length s = 10)"

definition rfc3339 :: "string \<Rightarrow> bool" where
  "rfc3339 s =
     (let r = drop 19 s;
          f = (if r \<noteq> [] \<and> hd r = CHR ''.'' then takeWhile is_digit (tl r) else []);
          z = (if r \<noteq> [] \<and> hd r = CHR ''.'' then dropWhile is_digit (tl r) else r)
      in like_pattern ''dddd-dd-ddTdd:dd:dd'' (take 19 s)
         \<and> (r \<noteq> [] \<and> hd r = CHR ''.'' \<longrightarrow> f \<noteq> [])
         \<and> (z = ''Z'' \<or> like_pattern ''+dd:dd'' z \<or> like_pattern ''-dd:dd'' z))"

definition replace_zulu :: "string \<Rightarrow> string" where
  "replace_zulu s = concat (map (\<lambda>c. if c = CHR ''Z'' then ''+00:00'' else [c]) s)"

definition timestamp_cell :: "string \<Rightarrow> bool" where
  "timestamp_cell s =
     (rfc3339 s \<and> (case datetime_fromisoformat (replace_zulu s) of None \<Rightarrow> False | Some t \<Rightarrow> ts_offset t \<noteq> None))"

definition validate_cell :: "scalar \<Rightarrow> result_column \<Rightarrow> unit res" where
  "validate_cell v c =
     (if v = SNone then raise_unless (co_nullable c) ValueError
      else raise_unless
        (case co_data_type c of
           ST_STRING \<Rightarrow> (case v of SString s \<Rightarrow> length s \<le> 4000 | _ \<Rightarrow> False)
         | ST_INTEGER \<Rightarrow> (case v of SInt i \<Rightarrow> safe_integer i | _ \<Rightarrow> False)
         | ST_FLOAT \<Rightarrow> float_cell v
         | ST_DECIMAL \<Rightarrow> (case v of SString s \<Rightarrow> decimal_cell s | _ \<Rightarrow> False)
         | ST_BOOLEAN \<Rightarrow> (case v of SBool b \<Rightarrow> True | _ \<Rightarrow> False)
         | ST_DATE \<Rightarrow> (case v of SString s \<Rightarrow> date_cell s | _ \<Rightarrow> False)
         | ST_TIMESTAMP \<Rightarrow> (case v of SString s \<Rightarrow> timestamp_cell s | _ \<Rightarrow> False)) ValueError)"

definition validate_row :: "result_column list \<Rightarrow> scalar list \<Rightarrow> unit res" where
  "validate_row cs row =
     rbind (raise_unless (length row = length cs) ValueError) (\<lambda>_.
     check_each (\<lambda>(v, c). validate_cell v c) (zip row cs))"

definition validate_rows :: "result_set \<Rightarrow> unit res" where
  "validate_rows r =
     rbind (raise_unless (distinct (map co_key (rt_columns r))) ValueError) (\<lambda>_.
     rbind (raise_unless (\<not> rt_row_count r < int (length (rt_rows r))) ValueError) (\<lambda>_.
     rbind (raise_unless (rt_truncated r = (int (length (rt_rows r)) < rt_row_count r)) ValueError) (\<lambda>_.
     check_each (validate_row (rt_columns r)) (rt_rows r))))"

definition column_ok :: "result_column \<Rightarrow> bool" where
  "column_ok c = (length_between 1 128 (co_key c) \<and> length_between 1 256 (co_label c))"

definition new_result_set :: "result_column list \<Rightarrow> scalar list list \<Rightarrow> int \<Rightarrow> bool \<Rightarrow> result_set res" where
  "new_result_set cs rows n truncated =
     (let r = \<lparr>rt_columns = cs, rt_rows = rows, rt_row_count = n, rt_truncated = truncated\<rparr>
      in rbind (raise_unless (list_all column_ok cs \<and> length cs \<le> 100 \<and> length rows \<le> 1000 \<and> 0 \<le> n \<and> n \<le> 2147483647) ValueError) (\<lambda>_.
         rbind (validate_rows r) (\<lambda>_. Inr r)))"

section \<open>Run detail\<close>

datatype result_storage = RS_INLINE | RS_PARQUET

record run_manifest =
  cm_result_id :: string
  cm_run_id :: string
  cm_node_id :: string
  cm_storage :: result_storage
  cm_uri :: string
  cm_row_count :: int
  cm_byte_count :: int
  cm_checksum :: string
  cm_committed_at :: instant

datatype lineage_node_kind = LN_LOGICAL | LN_PHYSICAL | LN_SOURCE | LN_RESULT

datatype lineage_relation = REALIZED_AS | READS_FROM | DEPENDS_ON | PRODUCES

record lineage_node_detail =
  ln_id :: string
  ln_kind :: lineage_node_kind
  ln_operation :: "string option"
  ln_source_alias :: "string option"
  ln_source_type :: "string option"
  ln_result_id :: "string option"
  ln_parameters :: "(string \<times> scalar_type) list"

record lineage_edge_detail =
  le_source :: string
  le_target :: string
  le_relation :: lineage_relation

record lineage_detail =
  ld_run_id :: string
  ld_nodes :: "lineage_node_detail list"
  ld_edges :: "lineage_edge_detail list"

datatype detail_severity = SEV_INFO | SEV_WARNING | SEV_ERROR

datatype detail_scope = IN_RUN | IN_STAGE | IN_NODE

record detail_diagnostic =
  dd_sequence :: int
  dd_run_id :: string
  dd_scope :: detail_scope
  dd_scope_id :: string
  dd_code :: string
  dd_message :: string
  dd_severity :: detail_severity
  dd_occurred_at :: instant

record sqg_filter =
  sg_field :: string
  sg_operator :: string
  sg_value :: string

record sqg_summary =
  sq_version :: string
  sq_intent :: string
  sq_ontology :: string
  sq_resolved_members :: "string list"
  sq_metrics :: "string list"
  sq_dimensions :: "string list"
  sq_filters :: "sqg_filter list"
  sq_policy_checks :: "string list"

record physical_node_detail =
  pd_id :: string
  pd_kind :: string
  pd_inputs :: "string list"
  pd_output_fields :: "string list"

record run_detail =
  dt_run_id :: string
  dt_question :: string
  dt_sqg :: sqg_summary
  dt_physical_nodes :: "physical_node_detail list"
  dt_result :: "result_set option"
  dt_manifest :: "run_manifest option"
  dt_lineage :: lineage_detail
  dt_diagnostics :: "detail_diagnostic list"

definition result_nodes :: "run_detail \<Rightarrow> lineage_node_detail list" where
  "result_nodes d = filter (\<lambda>n. ln_kind n = LN_RESULT) (ld_nodes (dt_lineage d))"

fun increasing_from :: "int \<Rightarrow> string \<Rightarrow> detail_diagnostic list \<Rightarrow> bool" where
  "increasing_from previous run_id [] = True"
| "increasing_from previous run_id (d # ds) =
     (dd_run_id d = run_id \<and> previous < dd_sequence d \<and> increasing_from (dd_sequence d) run_id ds)"

definition validate_detail :: "run_detail \<Rightarrow> unit res" where
  "validate_detail d =
     (let known = map ln_id (ld_nodes (dt_lineage d)) in
      rbind (raise_unless (canonical_run_id (dt_run_id d)) ValueError) (\<lambda>_.
      rbind (raise_unless (distinct (map pd_id (dt_physical_nodes d))) ValueError) (\<lambda>_.
      rbind (raise_unless (case dt_manifest d of None \<Rightarrow> True | Some m \<Rightarrow> cm_run_id m = dt_run_id d) ValueError) (\<lambda>_.
      rbind (raise_unless (ld_run_id (dt_lineage d) = dt_run_id d) ValueError) (\<lambda>_.
      rbind (raise_unless (distinct known) ValueError) (\<lambda>_.
      rbind (raise_unless (list_all (\<lambda>e. le_source e \<in> set known \<and> le_target e \<in> set known) (ld_edges (dt_lineage d))) ValueError) (\<lambda>_.
      rbind (raise_unless (list_all (\<lambda>n. case ln_result_id n of None \<Rightarrow> False | Some i \<Rightarrow> ln_id n = ''result:'' @ i) (result_nodes d)) ValueError) (\<lambda>_.
      rbind (raise_unless (case dt_manifest d of None \<Rightarrow> True
               | Some m \<Rightarrow> list_ex (\<lambda>n. ln_result_id n = Some (cm_result_id m)) (result_nodes d)) ValueError) (\<lambda>_.
      raise_unless (increasing_from (- 1) (dt_run_id d) (dt_diagnostics d)) ValueError)))))))))"

end
