(* ===== verification/Run_Repository.thy ===== *)
theory Run_Repository
  imports Run_Models
begin

text \<open>
  The in-memory run repository of the semantic backend (\<open>repository.py\<close>).
  Every operation holds the repository lock, so it is one step on the records;
  the service changes the status of a record through the reference it was
  given, which is a step of its own. Clock readings and the result of
  \<open>legacy_development()\<close> are arguments. The fields of \<open>RunRecord\<close> that only the
  service uses are modelled with the service.
\<close>

section \<open>The repository\<close>

record run_record =
  rc_request :: start_run_request
  rc_status :: run_status
  rc_detail :: run_detail
  rc_context :: "trusted_context option"

record repository =
  rp_max_runs :: nat
  rp_retention :: instant
  rp_records :: "(string, run_record) dict"

datatype repository_error =
    RunNotFoundError | RunConflictError | RunCapacityError | ContextRequired | AuthModeInvalid

type_synonym 'a repo_result = "(repository_error + 'a) \<times> repository"

definition new_repository :: "nat \<Rightarrow> instant \<Rightarrow> repository" where
  "new_repository max_runs retention = \<lparr>rp_max_runs = max_runs, rp_retention = retention, rp_records = []\<rparr>"

definition require_context :: "bool res \<Rightarrow> trusted_context option \<Rightarrow> repository_error + unit" where
  "require_context legacy context =
     (case legacy of Inl _ \<Rightarrow> Inl AuthModeInvalid
      | Inr b \<Rightarrow> raise_unless (b \<or> context \<noteq> None) ContextRequired)"

definition stale :: "instant \<Rightarrow> run_record \<Rightarrow> bool" where
  "stale cutoff r = (case rs_finalized_at (rc_status r) of None \<Rightarrow> False | Some t \<Rightarrow> t < cutoff)"

definition prune_locked :: "instant \<Rightarrow> repository \<Rightarrow> repository" where
  "prune_locked now rp = rp\<lparr>rp_records := filter (\<lambda>(i, r). \<not> stale (now - rp_retention rp) r) (rp_records rp)\<rparr>"

definition scope_of :: "trusted_context option \<Rightarrow> workspace_scope option" where
  "scope_of context = map_option cx_scope context"

definition new_record :: "start_run_request \<Rightarrow> run_status \<Rightarrow> trusted_context option \<Rightarrow> run_record" where
  "new_record request status context =
     \<lparr>rc_request = request, rc_status = status,
      rc_detail = \<lparr>dt_run_id = rq_run_id request, dt_question = rq_question request,
        dt_sqg = \<lparr>sq_version = ''sqg.v0'', sq_intent = take 512 (rq_question request), sq_ontology = ''pending'',
          sq_resolved_members = [], sq_metrics = [], sq_dimensions = [], sq_filters = [],
          sq_policy_checks = [''validation_pending'']\<rparr>,
        dt_physical_nodes = [], dt_result = None, dt_manifest = None,
        dt_lineage = \<lparr>ld_run_id = rq_run_id request, ld_nodes = [], ld_edges = []\<rparr>, dt_diagnostics = []\<rparr>,
      rc_context = context\<rparr>"

definition repo_create ::
    "bool res \<Rightarrow> instant \<Rightarrow> start_run_request \<Rightarrow> run_status \<Rightarrow> trusted_context option \<Rightarrow> repository
      \<Rightarrow> (run_record \<times> bool) repo_result" where
  "repo_create legacy now request status context rp =
     (case require_context legacy context of Inl e \<Rightarrow> (Inl e, rp)
      | Inr _ \<Rightarrow>
        let rp1 = prune_locked now rp
        in case dget (rp_records rp1) (rq_run_id request) of
            Some existing \<Rightarrow>
              if scope_of (rc_context existing) \<noteq> scope_of context then (Inl RunNotFoundError, rp1)
              else if rc_request existing \<noteq> request then (Inl RunConflictError, rp1)
              else (Inr (existing, False), rp1)
          | None \<Rightarrow>
              if rp_max_runs rp1 \<le> length (rp_records rp1) then (Inl RunCapacityError, rp1)
              else let r = new_record request status context
                   in (Inr (r, True), rp1\<lparr>rp_records := dput (rq_run_id request) r (rp_records rp1)\<rparr>))"

definition repo_get ::
    "bool res \<Rightarrow> instant \<Rightarrow> string \<Rightarrow> trusted_context option \<Rightarrow> repository \<Rightarrow> run_record repo_result" where
  "repo_get legacy now run_id context rp =
     (case require_context legacy context of Inl e \<Rightarrow> (Inl e, rp)
      | Inr _ \<Rightarrow>
        let rp1 = prune_locked now rp
        in case dget (rp_records rp1) run_id of
            None \<Rightarrow> (Inl RunNotFoundError, rp1)
          | Some r \<Rightarrow> if scope_of (rc_context r) \<noteq> scope_of context then (Inl RunNotFoundError, rp1) else (Inr r, rp1))"

definition repo_list ::
    "bool res \<Rightarrow> instant \<Rightarrow> trusted_context option \<Rightarrow> repository \<Rightarrow> run_record list repo_result" where
  "repo_list legacy now context rp =
     (let rp1 = prune_locked now rp
      in case require_context legacy context of Inl e \<Rightarrow> (Inl e, rp1)
         | Inr _ \<Rightarrow> (Inr (filter (\<lambda>r. scope_of (rc_context r) = scope_of context) (map snd (rp_records rp1))), rp1))"

definition shutdown_records :: "repository \<Rightarrow> run_record list" where
  "shutdown_records rp = map snd (rp_records rp)"

text \<open>The service replaces the status and the detail of a record it holds.\<close>

definition update_run :: "string \<Rightarrow> (run_status \<Rightarrow> run_status) \<Rightarrow> (run_detail \<Rightarrow> run_detail) \<Rightarrow> repository \<Rightarrow> repository" where
  "update_run run_id f g rp =
     rp\<lparr>rp_records := map (\<lambda>(i, r). (i, if i = run_id then r\<lparr>rc_status := f (rc_status r), rc_detail := g (rc_detail r)\<rparr> else r))
        (rp_records rp)\<rparr>"

section \<open>Histories\<close>

inductive repo_history :: "repository \<Rightarrow> repository \<Rightarrow> bool" for rp0 where
  repo_start: "repo_history rp0 rp0"
| repo_created: "repo_history rp0 rp \<Longrightarrow> repo_history rp0 (snd (repo_create legacy now request status context rp))"
| repo_got: "repo_history rp0 rp \<Longrightarrow> repo_history rp0 (snd (repo_get legacy now run_id context rp))"
| repo_listed: "repo_history rp0 rp \<Longrightarrow> repo_history rp0 (snd (repo_list legacy now context rp))"
| repo_updated: "repo_history rp0 rp \<Longrightarrow> repo_history rp0 (update_run run_id f g rp)"

definition repo_inv :: "repository \<Rightarrow> bool" where
  "repo_inv rp \<longleftrightarrow> distinct (map fst (rp_records rp)) \<and> length (rp_records rp) \<le> rp_max_runs rp
     \<and> (\<forall>(i, r) \<in> set (rp_records rp). rq_run_id (rc_request r) = i)"

lemma prune_locked_fields [simp]:
  "rp_max_runs (prune_locked now rp) = rp_max_runs rp" "rp_retention (prune_locked now rp) = rp_retention rp"
  by (simp_all add: prune_locked_def)

lemma prune_inv: "repo_inv rp \<Longrightarrow> repo_inv (prune_locked now rp)"
  by (auto simp: repo_inv_def prune_locked_def distinct_map_filter intro: le_trans [OF length_filter_le])

lemma fresh_record: "dget d k = None \<Longrightarrow> dput k v d = d @ [(k, v)]"
  by (simp add: update_fresh map_of_eq_None_iff)

lemma create_inv: "repo_inv rp \<Longrightarrow> repo_inv (snd (repo_create legacy now request status context rp))"
  using prune_inv [of rp now]
  by (auto simp: repo_create_def Let_def repo_inv_def fresh_record new_record_def map_of_eq_None_iff
      split: sum.splits option.splits)

lemma get_inv: "repo_inv rp \<Longrightarrow> repo_inv (snd (repo_get legacy now run_id context rp))"
  using prune_inv [of rp now] by (auto simp: repo_get_def Let_def split: sum.splits option.splits)

lemma list_inv: "repo_inv rp \<Longrightarrow> repo_inv (snd (repo_list legacy now context rp))"
  using prune_inv [of rp now] by (auto simp: repo_list_def Let_def split: sum.splits)

lemma update_inv: "repo_inv rp \<Longrightarrow> repo_inv (update_run run_id f g rp)"
proof -
  have "map fst (rp_records (update_run run_id f g rp)) = map fst (rp_records rp)"
    by (auto simp: update_run_def)
  moreover have "length (rp_records (update_run run_id f g rp)) = length (rp_records rp)"
      "rp_max_runs (update_run run_id f g rp) = rp_max_runs rp"
    by (simp_all add: update_run_def)
  moreover have "\<forall>(i, r) \<in> set (rp_records (update_run run_id f g rp)). rq_run_id (rc_request r) = i" if "repo_inv rp"
    using that by (auto simp: repo_inv_def update_run_def)
  ultimately show "repo_inv rp \<Longrightarrow> repo_inv (update_run run_id f g rp)"
    unfolding repo_inv_def by simp
qed

lemma history_inv: "repo_history rp0 rp \<Longrightarrow> repo_inv rp0 \<Longrightarrow> repo_inv rp"
  by (induction rule: repo_history.induct) (auto intro: create_inv get_inv list_inv update_inv)

lemma new_repository_inv: "repo_inv (new_repository m t)"
  by (simp add: repo_inv_def new_repository_def)

section \<open>Scopes\<close>

text \<open>
  The specification: every workspace scope has a store of its own, and an
  operation at time \<open>now\<close> sees the records of its scope that are not expired.
\<close>

definition live :: "instant \<Rightarrow> repository \<Rightarrow> workspace_scope option \<Rightarrow> (string, run_record) dict" where
  "live now rp s = filter (\<lambda>(i, r). scope_of (rc_context r) = s \<and> \<not> stale (now - rp_retention rp) r) (rp_records rp)"

lemma live_prune [simp]: "live now (prune_locked now rp) s = live now rp s"
  by (auto simp: live_def prune_locked_def intro!: filter_cong)

lemma dget_filter:
  "distinct (map fst d) \<Longrightarrow> dget (filter P d) k = (case dget d k of None \<Rightarrow> None | Some v \<Rightarrow> if P (k, v) then Some v else None)"
  by (induction d) (auto simp: map_of_eq_None_iff image_iff split: option.splits)

lemma live_lookup:
  assumes "repo_inv rp"
  shows "dget (live now rp s) i =
    (case dget (rp_records (prune_locked now rp)) i of None \<Rightarrow> None
     | Some r \<Rightarrow> if scope_of (rc_context r) = s then Some r else None)"
  using assms by (auto simp: live_def prune_locked_def repo_inv_def dget_filter split: option.splits)


definition sample_start :: start_run_request where
  "sample_start = \<lparr>rq_run_id = ''run_1'', rq_client_request_id = ''c'', rq_workload = ''w'', rq_question = ''profit by region'',
     rq_evaluation_clock = 0, rq_evaluation_timezone = ''UTC'', rq_compilation_mode = REGIONAL_QUARTERLY_PROFIT,
     rq_execution_mode = THREAD, rq_output_mode = NORMAL, rq_requested_by = ''alice'', rq_trace_id = ''t''\<rparr>"

definition sample_status :: run_status where
  "sample_status = \<lparr>rs_run_id = ''run_1'', rs_state = STARTING, rs_started_at = Some 0, rs_finalized_at = None,
     rs_stages = [], rs_tokens = (0, 0), rs_diagnostics = []\<rparr>"

definition sample_repository :: repository where
  "sample_repository = snd (repo_create (Inr False) 5 sample_start sample_status (Some sample_context) (new_repository 2 100))"


end
