(* ===== verification/Semantic_Validator.thy ===== *)
theory Semantic_Validator
  imports Semantic_Registry "HOL-Library.Product_Lexorder"
begin

text \<open>
  \<open>SQGValidator\<close> (\<open>validator.py\<close>): the checks a candidate query graph of the
  semantic compiler passes before it is executed. The graph is read node by
  node; every node gets a flow (the columns it emits with their types, their
  ontology lineage and the constraints enforced so far), and the flow of the
  output node is compared with the members and time windows resolved from the
  question and with the contract of the compilation mode.

  The list \<open>diagnostics\<close> is only appended to, so a check returns the diagnostics
  it appends, in order, together with its result. Messages and \<open>details\<close> are
  left out; code and path are modelled. Loops over \<open>enumerate(...)\<close> are
  instances of \<open>check_fold\<close>. The walk along the dependencies in
  \<open>_validate_compilation_mode\<close> carries fuel, and running out of it is the
  outcome \<open>Endless\<close>, which is shown not to occur.
\<close>

section \<open>Candidates\<close>

datatype binary_operator = ADD | SUBTRACT | MULTIPLY | DIVIDE

datatype operand = ColumnOperand string | LiteralOperand scalar column_type

datatype expression = Operand operand | Binary binary_operator operand operand

datatype predicate_operator = EQ | NE | GT | GTE | LT | LTE | IN | BETWEEN

datatype predicate_value = PScalar scalar | PList "scalar list" | PMap "(string \<times> string) list"

record predicate =
  pr_column :: string
  pr_operator :: predicate_operator
  pr_value :: predicate_value

datatype operator = SELECT | FILTER | AGGREGATE | PIVOT | DERIVE | PROJECT | SORT | JOIN

datatype aggregate_function = FN_SUM | FN_AVG | FN_MIN | FN_MAX | FN_COUNT

record aggregate_measure =
  am_source :: string
  am_output :: string
  am_function :: aggregate_function

record derived_column =
  dc_output :: string
  dc_expression :: expression
  dc_data_type :: column_type

record projection =
  pj_source :: string
  pj_alias :: string

datatype sort_direction = ASC | DESC

datatype join_type = INNER | LEFT

datatype node_parameters =
    SelectParameters string "string list"
  | FilterParameters predicate
  | AggregateParameters "string list" "aggregate_measure list"
  | PivotParameters "string list" string string "string list" "(string \<times> timestamp) list"
  | DeriveParameters "derived_column list"
  | ProjectParameters "projection list"
  | SortParameters "(string \<times> sort_direction) list"
  | JoinParameters string string string join_type

fun parameters_kind :: "node_parameters \<Rightarrow> operator" where
  "parameters_kind (SelectParameters _ _) = SELECT"
| "parameters_kind (FilterParameters _) = FILTER"
| "parameters_kind (AggregateParameters _ _) = AGGREGATE"
| "parameters_kind (PivotParameters _ _ _ _ _) = PIVOT"
| "parameters_kind (DeriveParameters _) = DERIVE"
| "parameters_kind (ProjectParameters _) = PROJECT"
| "parameters_kind (SortParameters _) = SORT"
| "parameters_kind (JoinParameters _ _ _ _) = JOIN"

record node =
  nd_id :: string
  nd_name :: string
  nd_operator :: operator
  nd_dependencies :: "string list"
  nd_parameters :: node_parameters

record sqg =
  qg_nodes :: "node list"
  qg_output_node_id :: string
  qg_result_schema :: "(string \<times> column_type) list"

text \<open>The constraints of the models; a payload of another structure is no candidate.\<close>

definition node_id_ok :: "string \<Rightarrow> bool" where
  "node_id_ok s =
     (s \<noteq> [] \<and> length s \<le> 128 \<and> ascii_letter (hd s)
        \<and> list_all (\<lambda>c. ascii_letter c \<or> is_digit c \<or> c \<in> set ''_.-'') (tl s))"

definition parameters_ok :: "node_parameters \<Rightarrow> bool" where
  "parameters_ok p =
     (case p of PivotParameters ix c v vs bs \<Rightarrow>
        1 \<le> length vs \<and> length vs \<le> 100 \<and> length bs \<le> 100 \<and> list_all (\<lambda>b. ts_offset (snd b) \<noteq> None) bs
      | _ \<Rightarrow> True)"

definition node_ok :: "node \<Rightarrow> bool" where
  "node_ok n =
     (node_id_ok (nd_id n) \<and> 1 \<le> length (nd_name n) \<and> length (nd_name n) \<le> 200
        \<and> length (nd_dependencies n) \<le> 10 \<and> parameters_ok (nd_parameters n))"

definition sqg_ok :: "sqg \<Rightarrow> bool" where
  "sqg_ok g = (1 \<le> length (qg_nodes g) \<and> length (qg_nodes g) \<le> 100 \<and> list_all node_ok (qg_nodes g))"

section \<open>Diagnostics\<close>

datatype severity = INFO | WARNING | ERROR

datatype diagnostic_stage = INITIALIZE | PROVIDER | VALIDATE | REPAIR | API

record diagnostic =
  dg_code :: string
  dg_severity :: severity
  dg_stage :: diagnostic_stage
  dg_path :: "string option"

definition error_at :: "string \<Rightarrow> string \<Rightarrow> diagnostic" where
  "error_at code path = \<lparr>dg_code = code, dg_severity = ERROR, dg_stage = VALIDATE, dg_path = Some path\<rparr>"

definition report :: "bool \<Rightarrow> string \<Rightarrow> string \<Rightarrow> diagnostic list" where
  "report b code path = (if b then [error_at code path] else [])"

type_synonym 'a checked = "diagnostic list \<times> 'a"

definition path_item :: "string \<Rightarrow> nat \<Rightarrow> string" where
  "path_item path i = path @ ''.'' @ show_nat (int i)"

fun check_fold :: "(nat \<Rightarrow> 'a \<Rightarrow> 's \<Rightarrow> 's checked) \<Rightarrow> nat \<Rightarrow> 'a list \<Rightarrow> 's \<Rightarrow> 's checked" where
  "check_fold f i [] s = ([], s)"
| "check_fold f i (x # xs) s =
     (let (d1, s1) = f i x s; (d2, s2) = check_fold f (Suc i) xs s1 in (d1 @ d2, s2))"

section \<open>Flows\<close>

record column =
  cl_data_type :: column_type
  cl_entities :: "string set"
  cl_source_concept_id :: "string option"
  cl_member_domain :: "string option"
  cl_time_domain :: "string option"
  cl_concept_lineage :: "string set"
  cl_aggregated_concepts :: "string set"
  cl_constraint_eligible :: bool

definition plain_column :: "column_type \<Rightarrow> string set \<Rightarrow> column" where
  "plain_column t es = \<lparr>cl_data_type = t, cl_entities = es, cl_source_concept_id = None, cl_member_domain = None,
     cl_time_domain = None, cl_concept_lineage = {}, cl_aggregated_concepts = {}, cl_constraint_eligible = True\<rparr>"

record member_constraint =
  mc_field_id :: string
  mc_values :: "string set"
  mc_source_enforcing :: bool

record time_constraint =
  tc_field_id :: string
  tc_window :: "(int \<times> int) option"
  tc_source_enforcing :: bool

record flow =
  fl_columns :: "(string, column) dict"
  fl_grain :: "string set"
  fl_entities :: "string set"
  fl_used_concepts :: "string set"
  fl_enforcing_concepts :: "string set"
  fl_member_constraints :: "member_constraint list"
  fl_time_constraints :: "time_constraint list"

definition require_column :: "string \<Rightarrow> flow \<Rightarrow> string \<Rightarrow> column option checked" where
  "require_column c source path =
     (case dget (fl_columns source) c of
        None \<Rightarrow> ([error_at ''COLUMN_NOT_AVAILABLE'' path], None)
      | Some info \<Rightarrow> ([], Some info))"

definition concept_exists :: "registry \<Rightarrow> string \<Rightarrow> concept_kind \<Rightarrow> bool" where
  "concept_exists rg i kind =
     (case kind of EntityConcept \<Rightarrow> has_entity rg i | FieldConcept \<Rightarrow> has_field rg i
      | MetricConcept \<Rightarrow> has_metric rg i | RelationConcept \<Rightarrow> has_relation rg i)"

definition validate_concept :: "registry \<Rightarrow> string \<Rightarrow> concept_kind \<Rightarrow> string set \<Rightarrow> string \<Rightarrow> diagnostic list" where
  "validate_concept rg i kind selected path =
     (if \<not> concept_exists rg i kind then [error_at ''ONTOLOGY_CONCEPT_UNKNOWN'' path]
      else report (case concept_state rg i kind of None \<Rightarrow> False | Some (enabled, policy) \<Rightarrow> \<not> enabled \<or> policy = DENY)
             ''ONTOLOGY_CONCEPT_FORBIDDEN'' path
           @ report (i \<notin> selected) ''CONTEXT_CONCEPT_NOT_SELECTED'' path)"

text \<open>What the column of a flow contributes to \<open>enforcing_concepts\<close>.\<close>

definition column_concepts :: "column option \<Rightarrow> string set" where
  "column_concepts info = (case info of None \<Rightarrow> {} | Some c \<Rightarrow> cl_concept_lineage c \<union> cl_entities c)"

section \<open>Values\<close>

definition parse_datetime :: "scalar \<Rightarrow> timestamp option" where
  "parse_datetime v =
     (case v of SString s \<Rightarrow>
        (case datetime_fromisoformat s of None \<Rightarrow> None | Some t \<Rightarrow> if ts_offset t = None then None else Some t)
      | _ \<Rightarrow> None)"

definition as_utc :: "timestamp \<Rightarrow> int option" where
  "as_utc t = astimezone_utc t"

definition runtime_value_matches :: "scalar \<Rightarrow> column_type \<Rightarrow> bool" where
  "runtime_value_matches v t =
     (case t of
        STRING \<Rightarrow> (case v of SString _ \<Rightarrow> True | _ \<Rightarrow> False)
      | NUMBER \<Rightarrow> (case v of SBool _ \<Rightarrow> False | SInt _ \<Rightarrow> True | SFloat (FFinite _ _) \<Rightarrow> True | _ \<Rightarrow> False)
      | BOOLEAN \<Rightarrow> (case v of SBool _ \<Rightarrow> True | _ \<Rightarrow> False)
      | DATETIME \<Rightarrow> parse_datetime v \<noteq> None)"

section \<open>Filters\<close>

text \<open>\<open>set(raw_value) == {"start", "end_exclusive"}\<close> and the two boundaries.\<close>

definition range_keys :: "(string \<times> string) list \<Rightarrow> bool" where
  "range_keys m = (set (map fst m) = {''start'', ''end_exclusive''})"

definition boundary :: "(string \<times> string) list \<Rightarrow> string \<Rightarrow> timestamp option" where
  "boundary m k = (case dget m k of None \<Rightarrow> None | Some s \<Rightarrow> parse_datetime (SString s))"

definition validate_between :: "predicate_value \<Rightarrow> column \<Rightarrow> string \<Rightarrow> diagnostic list" where
  "validate_between v column path =
     (case v of
        PMap m \<Rightarrow>
          if \<not> range_keys m \<or> cl_data_type column \<noteq> DATETIME then [error_at ''PREDICATE_CARDINALITY_INVALID'' path]
          else (case (boundary m ''start'', boundary m ''end_exclusive'') of
              (Some s, Some e) \<Rightarrow>
                (case (as_utc s, as_utc e) of
                   (Some su, Some eu) \<Rightarrow> report (eu \<le> su) ''TIME_RANGE_INVALID'' path
                 | _ \<Rightarrow> [error_at ''DATETIME_INSTANT_OUT_OF_RANGE'' path])
            | _ \<Rightarrow> [error_at ''DATETIME_LITERAL_INVALID'' path])
      | _ \<Rightarrow> [error_at ''PREDICATE_CARDINALITY_INVALID'' path])"

definition check_value :: "registry \<Rightarrow> column \<Rightarrow> predicate_operator \<Rightarrow> string \<Rightarrow> scalar \<Rightarrow> diagnostic list" where
  "check_value rg column op path v =
     (if cl_data_type column = DATETIME \<and> v \<noteq> SNone \<and> parse_datetime v = None
      then [error_at ''DATETIME_LITERAL_INVALID'' path]
      else report (v \<noteq> SNone \<and> \<not> runtime_value_matches v (cl_data_type column)) ''PREDICATE_VALUE_TYPE_INVALID'' path)
     @ report (v = SNone \<and> op \<notin> {EQ, NE}) ''PREDICATE_VALUE_TYPE_INVALID'' path
     @ (case cl_member_domain column of None \<Rightarrow> []
        | Some field \<Rightarrow>
            (case v of SString s \<Rightarrow>
               (case dget (rg_members rg) s of None \<Rightarrow> [error_at ''ONTOLOGY_MEMBER_UNKNOWN'' path]
                | Some (f, m) \<Rightarrow>
                    if f \<noteq> field then [error_at ''MEMBER_FIELD_MISMATCH'' path]
                    else report (\<not> om_enabled m) ''ONTOLOGY_CONCEPT_FORBIDDEN'' path)
             | _ \<Rightarrow> [error_at ''ONTOLOGY_MEMBER_UNKNOWN'' path]))"

definition check_values :: "registry \<Rightarrow> column \<Rightarrow> predicate_operator \<Rightarrow> string \<Rightarrow> scalar list \<Rightarrow> diagnostic list" where
  "check_values rg column op path vs =
     concat (map (\<lambda>(i, v). check_value rg column op (path_item path i) v) (enumerate 0 vs))"

definition validate_predicate :: "registry \<Rightarrow> predicate \<Rightarrow> flow \<Rightarrow> string \<Rightarrow> diagnostic list" where
  "validate_predicate rg p source path =
     (let value_path = path @ ''.parameters.predicate.value''
      in case require_column (pr_column p) source (path @ ''.parameters.predicate.column'') of
        (ds, None) \<Rightarrow> ds
      | (ds, Some column) \<Rightarrow>
          ds @ report (cl_member_domain column \<noteq> None \<and> pr_operator p \<notin> {EQ, IN})
                 ''MEMBER_OPERATOR_UNSUPPORTED'' (path @ ''.parameters.predicate.operator'')
          @ (if pr_operator p = IN
             then (case pr_value p of
                     PList (v # vs) \<Rightarrow> check_values rg column IN value_path (v # vs)
                   | _ \<Rightarrow> [error_at ''PREDICATE_CARDINALITY_INVALID'' value_path])
             else if pr_operator p = BETWEEN then validate_between (pr_value p) column value_path
             else (case pr_value p of
                     PScalar v \<Rightarrow> check_value rg column (pr_operator p) value_path v
                   | _ \<Rightarrow> [error_at ''PREDICATE_CARDINALITY_INVALID'' value_path])))"

text \<open>The member identifiers a positive member predicate keeps.\<close>

definition predicate_members :: "registry \<Rightarrow> predicate_value \<Rightarrow> string set" where
  "predicate_members rg v =
     (let vs = (case v of PList vs \<Rightarrow> vs | PScalar x \<Rightarrow> [x] | PMap _ \<Rightarrow> [])
      in set (concat (map (\<lambda>x. case x of SString s \<Rightarrow> if has_member rg s then [s] else [] | _ \<Rightarrow> []) vs)))"

definition predicate_window :: "predicate \<Rightarrow> (int \<times> int) option" where
  "predicate_window p =
     (case (pr_operator p, pr_value p) of
        (BETWEEN, PMap m) \<Rightarrow>
          if \<not> range_keys m then None
          else (case (Option.bind (boundary m ''start'') as_utc, Option.bind (boundary m ''end_exclusive'') as_utc) of
              (Some s, Some e) \<Rightarrow> if s < e then Some (s, e) else None
            | _ \<Rightarrow> None)
      | _ \<Rightarrow> None)"

definition filtered_flow :: "registry \<Rightarrow> predicate \<Rightarrow> flow \<Rightarrow> flow" where
  "filtered_flow rg p source =
     (case dget (fl_columns source) (pr_column p) of
        None \<Rightarrow> source
      | Some column \<Rightarrow>
          source\<lparr>fl_enforcing_concepts := fl_enforcing_concepts source \<union> cl_concept_lineage column \<union> cl_entities column,
            fl_member_constraints := fl_member_constraints source
              @ (case cl_member_domain column of
                   Some f \<Rightarrow> if pr_operator p \<in> {EQ, IN}
                     then [\<lparr>mc_field_id = f, mc_values = predicate_members rg (pr_value p),
                            mc_source_enforcing = cl_constraint_eligible column\<rparr>]
                     else []
                 | None \<Rightarrow> []),
            fl_time_constraints := fl_time_constraints source
              @ (case cl_time_domain column of
                   Some f \<Rightarrow> [\<lparr>tc_field_id = f, tc_window = predicate_window p,
                              tc_source_enforcing = cl_constraint_eligible column\<rparr>]
                 | None \<Rightarrow> [])\<rparr>)"

section \<open>Operator flows\<close>

type_synonym columns = "(string, column) dict"

definition field_column :: "ontology_field \<Rightarrow> column" where
  "field_column f =
     \<lparr>cl_data_type = of_data_type f, cl_entities = {of_entity_id f}, cl_source_concept_id = Some (of_id f),
      cl_member_domain = (if of_members f \<noteq> [] then Some (of_id f) else None),
      cl_time_domain = (if of_data_type f = DATETIME then Some (of_id f) else None),
      cl_concept_lineage = {of_id f}, cl_aggregated_concepts = {}, cl_constraint_eligible = True\<rparr>"

definition metric_column :: "ontology_metric \<Rightarrow> column" where
  "metric_column m =
     (plain_column (ot_data_type m) {ot_entity_id m})\<lparr>cl_source_concept_id := Some (ot_id m), cl_concept_lineage := {ot_id m}\<rparr>"

definition select_column ::
    "registry \<Rightarrow> string \<Rightarrow> string set \<Rightarrow> string \<Rightarrow> nat \<Rightarrow> string \<Rightarrow> columns \<times> string set \<Rightarrow> (columns \<times> string set) checked" where
  "select_column rg entity selected path i c acc =
     (let column_path = path_item (path @ ''.parameters.columns'') i
      in if dget (fst acc) c \<noteq> None then ([error_at ''DUPLICATE_OUTPUT_COLUMN'' column_path], acc)
         else case dget (typed_fields rg) c of
           Some f \<Rightarrow>
             (validate_concept rg c FieldConcept selected column_path
                @ report (of_entity_id f \<noteq> entity) ''FIELD_ENTITY_MISMATCH'' column_path,
              (dput c (field_column f) (fst acc), insert c (snd acc)))
         | None \<Rightarrow>
             (case dget (typed_metrics rg) c of
                Some m \<Rightarrow>
                  (validate_concept rg c MetricConcept selected column_path
                     @ report (ot_entity_id m \<noteq> entity) ''METRIC_ENTITY_MISMATCH'' column_path,
                   (dput c (metric_column m) (fst acc), snd acc))
              | None \<Rightarrow> ([error_at ''ONTOLOGY_CONCEPT_UNKNOWN'' column_path], acc)))"

definition select_flow :: "registry \<Rightarrow> string \<Rightarrow> string list \<Rightarrow> string \<Rightarrow> string set \<Rightarrow> flow checked" where
  "select_flow rg entity cs path selected =
     (let d1 = validate_concept rg entity EntityConcept selected (path @ ''.parameters.entity_id'');
          (d2, columns, grain) = check_fold (select_column rg entity selected path) 0 cs ([], {})
      in (d1 @ d2,
          \<lparr>fl_columns = columns, fl_grain = grain, fl_entities = {entity},
           fl_used_concepts = insert entity (set (dkeys columns)), fl_enforcing_concepts = {},
           fl_member_constraints = [], fl_time_constraints = []\<rparr>))"

definition group_column ::
    "flow \<Rightarrow> string \<Rightarrow> nat \<Rightarrow> string \<Rightarrow> columns \<times> string set \<Rightarrow> (columns \<times> string set) checked" where
  "group_column source path i g acc =
     (let item_path = path_item (path @ ''.parameters.group_by'') i; (ds, info) = require_column g source item_path
      in if dget (fst acc) g \<noteq> None then (ds @ [error_at ''DUPLICATE_OUTPUT_COLUMN'' item_path], acc)
         else case info of None \<Rightarrow> (ds, acc)
           | Some c \<Rightarrow> (ds, (dput g c (fst acc), snd acc \<union> column_concepts info)))"

definition measure_output :: "flow \<Rightarrow> column option \<Rightarrow> column" where
  "measure_output source info =
     (case info of
        None \<Rightarrow> (plain_column NUMBER (fl_entities source))\<lparr>cl_constraint_eligible := False\<rparr>
      | Some c \<Rightarrow> (plain_column NUMBER (cl_entities c))\<lparr>cl_concept_lineage := cl_concept_lineage c,
          cl_aggregated_concepts := cl_concept_lineage c \<union> cl_aggregated_concepts c, cl_constraint_eligible := False\<rparr>)"

definition measure_column :: "flow \<Rightarrow> string \<Rightarrow> nat \<Rightarrow> aggregate_measure \<Rightarrow> columns \<Rightarrow> columns checked" where
  "measure_column source path i m columns =
     (let measure_path = path_item (path @ ''.parameters.measures'') i;
          (ds, info) = require_column (am_source m) source (measure_path @ ''.source'');
          ds' = ds @ report (case info of None \<Rightarrow> False | Some c \<Rightarrow> cl_data_type c \<noteq> NUMBER)
                  ''AGGREGATE_TYPE_INVALID'' (measure_path @ ''.source'')
      in if dget columns (am_output m) \<noteq> None
         then (ds' @ [error_at ''DUPLICATE_OUTPUT_COLUMN'' (measure_path @ ''.output'')], columns)
         else (ds', dput (am_output m) (measure_output source info) columns))"

definition aggregate_flow :: "string list \<Rightarrow> aggregate_measure list \<Rightarrow> flow \<Rightarrow> string \<Rightarrow> flow checked" where
  "aggregate_flow group_by ms source path =
     (let (d1, columns, enforcing) = check_fold (group_column source path) 0 group_by ([], fl_enforcing_concepts source);
          (d2, columns') = check_fold (measure_column source path) 0 ms columns
      in (d1 @ d2, source\<lparr>fl_columns := columns', fl_grain := set group_by, fl_enforcing_concepts := enforcing\<rparr>))"

definition index_column ::
    "flow \<Rightarrow> string \<Rightarrow> nat \<Rightarrow> string \<Rightarrow> columns \<times> string set \<Rightarrow> (columns \<times> string set) checked" where
  "index_column source path i c acc =
     (case require_column c source (path_item (path @ ''.parameters.index'') i) of
        (ds, None) \<Rightarrow> (ds, acc)
      | (ds, Some info) \<Rightarrow> (ds, (dput c info (fst acc), snd acc \<union> column_concepts (Some info))))"

definition pivot_output :: "flow \<Rightarrow> column option \<Rightarrow> column" where
  "pivot_output source info =
     (case info of
        None \<Rightarrow> (plain_column NUMBER (fl_entities source))\<lparr>cl_constraint_eligible := False\<rparr>
      | Some c \<Rightarrow> c\<lparr>cl_source_concept_id := None, cl_constraint_eligible := False\<rparr>)"

definition pivot_column :: "flow \<Rightarrow> column option \<Rightarrow> string \<Rightarrow> nat \<Rightarrow> string \<Rightarrow> columns \<Rightarrow> columns checked" where
  "pivot_column source info path i v columns =
     (if dget columns v \<noteq> None
      then ([error_at ''DUPLICATE_OUTPUT_COLUMN'' (path_item (path @ ''.parameters.values'') i)], columns)
      else ([], dput v (pivot_output source info) columns))"

definition pivot_flow :: "string list \<Rightarrow> string \<Rightarrow> string \<Rightarrow> string list \<Rightarrow> flow \<Rightarrow> string \<Rightarrow> flow checked" where
  "pivot_flow ix column v vs source path =
     (let (d1, columns, enforcing) = check_fold (index_column source path) 0 ix ([], fl_enforcing_concepts source);
          (d2, pivot_info) = require_column column source (path @ ''.parameters.column'');
          (d3, value_info) = require_column v source (path @ ''.parameters.value'');
          (d4, columns') = check_fold (pivot_column source value_info path) 0 vs columns
      in (d1 @ d2 @ d3 @ d4 @ report (\<not> distinct vs) ''DUPLICATE_OUTPUT_COLUMN'' (path @ ''.parameters.values''),
          source\<lparr>fl_columns := columns', fl_grain := set ix,
            fl_enforcing_concepts := enforcing \<union> column_concepts pivot_info \<union> column_concepts value_info\<rparr>))"

definition operand_info :: "operand \<Rightarrow> flow \<Rightarrow> string \<Rightarrow> column option checked" where
  "operand_info e source path =
     (case e of
        ColumnOperand c \<Rightarrow> require_column c source (path @ ''.column'')
      | LiteralOperand v t \<Rightarrow>
          (report (v \<noteq> SNone \<and> \<not> runtime_value_matches v t) ''LITERAL_VALUE_TYPE_INVALID'' (path @ ''.value'')
           @ report (t = DATETIME \<and> v \<noteq> SNone \<and> parse_datetime v = None) ''DATETIME_LITERAL_INVALID'' (path @ ''.value''),
           Some (plain_column t {})))"

definition info_set :: "(column \<Rightarrow> string set) \<Rightarrow> column option \<Rightarrow> string set" where
  "info_set f info = (case info of None \<Rightarrow> {} | Some c \<Rightarrow> f c)"

definition expression_info :: "expression \<Rightarrow> flow \<Rightarrow> string \<Rightarrow> column option checked" where
  "expression_info e source path =
     (case e of
        Operand x \<Rightarrow> operand_info x source path
      | Binary op l r \<Rightarrow>
          let (d1, li) = operand_info l source (path @ ''.left''); (d2, ri) = operand_info r source (path @ ''.right'')
          in (d1 @ d2
              @ report (case li of None \<Rightarrow> False | Some c \<Rightarrow> cl_data_type c \<noteq> NUMBER) ''EXPRESSION_TYPE_INVALID'' (path @ ''.left'')
              @ report (case ri of None \<Rightarrow> False | Some c \<Rightarrow> cl_data_type c \<noteq> NUMBER) ''EXPRESSION_TYPE_INVALID'' (path @ ''.right''),
              Some ((plain_column NUMBER (info_set cl_entities li \<union> info_set cl_entities ri))
                \<lparr>cl_concept_lineage := info_set cl_concept_lineage li \<union> info_set cl_concept_lineage ri,
                 cl_aggregated_concepts := info_set cl_aggregated_concepts li \<union> info_set cl_aggregated_concepts ri,
                 cl_constraint_eligible := False\<rparr>)))"

definition derived_output :: "flow \<Rightarrow> column_type \<Rightarrow> column option \<Rightarrow> column" where
  "derived_output source t info =
     (case info of
        None \<Rightarrow> (plain_column t (fl_entities source))\<lparr>cl_constraint_eligible := False\<rparr>
      | Some c \<Rightarrow> c\<lparr>cl_data_type := t, cl_source_concept_id := None, cl_constraint_eligible := False\<rparr>)"

definition derive_column :: "flow \<Rightarrow> string \<Rightarrow> nat \<Rightarrow> derived_column \<Rightarrow> columns \<Rightarrow> columns checked" where
  "derive_column source path i d columns =
     (let column_path = path_item (path @ ''.parameters.columns'') i
      in if dget columns (dc_output d) \<noteq> None
         then ([error_at ''DERIVE_OUTPUT_COLLISION'' (column_path @ ''.output'')], columns)
         else let (ds, info) = expression_info (dc_expression d) source (column_path @ ''.expression'')
              in (ds @ report (case info of None \<Rightarrow> False | Some c \<Rightarrow> cl_data_type c \<noteq> dc_data_type d)
                    ''DERIVE_TYPE_MISMATCH'' (column_path @ ''.data_type''),
                  dput (dc_output d) (derived_output source (dc_data_type d) info) columns))"

definition derive_flow :: "derived_column list \<Rightarrow> flow \<Rightarrow> string \<Rightarrow> flow checked" where
  "derive_flow ds source path =
     (let (d, columns) = check_fold (derive_column source path) 0 ds (fl_columns source)
      in (d, source\<lparr>fl_columns := columns\<rparr>))"

definition project_column ::
    "flow \<Rightarrow> string \<Rightarrow> nat \<Rightarrow> projection \<Rightarrow> columns \<times> string set \<Rightarrow> (columns \<times> string set) checked" where
  "project_column source path i p acc =
     (let projection_path = path_item (path @ ''.parameters.columns'') i;
          (ds, info) = require_column (pj_source p) source (projection_path @ ''.source'')
      in if dget (fst acc) (pj_alias p) \<noteq> None
         then (ds @ [error_at ''DUPLICATE_OUTPUT_COLUMN'' (projection_path @ ''.alias'')], acc)
         else case info of None \<Rightarrow> (ds, acc)
           | Some c \<Rightarrow> (ds, (dput (pj_alias p) c (fst acc),
                            if pj_source p \<in> fl_grain source then insert (pj_alias p) (snd acc) else snd acc)))"

definition project_flow :: "projection list \<Rightarrow> flow \<Rightarrow> string \<Rightarrow> flow checked" where
  "project_flow ps source path =
     (let (ds, columns, grain) = check_fold (project_column source path) 0 ps ([], {})
      in (ds @ report (fl_grain source \<noteq> {} \<and> grain = {}) ''GRAIN_LOST'' (path @ ''.parameters.columns''),
          source\<lparr>fl_columns := columns, fl_grain := grain\<rparr>))"

definition sort_key_concepts ::
    "flow \<Rightarrow> string \<Rightarrow> nat \<Rightarrow> string \<times> sort_direction \<Rightarrow> string set \<Rightarrow> string set checked" where
  "sort_key_concepts source path i k enforcing =
     (let (ds, info) = require_column (fst k) source (path_item (path @ ''.parameters.keys'') i @ ''.column'')
      in (ds, enforcing \<union> column_concepts info))"

definition sort_flow :: "(string \<times> sort_direction) list \<Rightarrow> flow \<Rightarrow> string \<Rightarrow> flow checked" where
  "sort_flow ks source path =
     (let (ds, enforcing) = check_fold (sort_key_concepts source path) 0 ks (fl_enforcing_concepts source)
      in (ds, source\<lparr>fl_enforcing_concepts := enforcing\<rparr>))"

definition join_column :: "string \<Rightarrow> nat \<Rightarrow> string \<times> column \<Rightarrow> columns \<Rightarrow> columns checked" where
  "join_column path i c columns =
     (if dget columns (fst c) \<noteq> None then ([error_at ''JOIN_OUTPUT_COLLISION'' (path @ ''.parameters'')], columns)
      else ([], dput (fst c) (snd c) columns))"

definition check_join_relation ::
    "ontology_relation \<Rightarrow> flow \<Rightarrow> flow \<Rightarrow> column option \<Rightarrow> column option \<Rightarrow> string \<Rightarrow> diagnostic list" where
  "check_join_relation r l rt left_key right_key path =
     report (or_from_entity_id r \<notin> fl_entities l \<or> or_to_entity_id r \<notin> fl_entities rt)
       ''RELATION_ENDPOINT_MISMATCH'' (path @ ''.dependencies'')
     @ report ((case left_key of None \<Rightarrow> False | Some c \<Rightarrow> cl_source_concept_id c \<noteq> Some (or_from_field_id r))
          \<or> (case right_key of None \<Rightarrow> False | Some c \<Rightarrow> cl_source_concept_id c \<noteq> Some (or_to_field_id r)))
         ''JOIN_KEY_NOT_GOVERNED'' (path @ ''.parameters'')
     @ report (case (left_key, right_key) of (Some a, Some b) \<Rightarrow> cl_data_type a \<noteq> cl_data_type b | _ \<Rightarrow> False)
         ''JOIN_KEY_TYPE_MISMATCH'' (path @ ''.parameters'')"

definition join_flow ::
    "registry \<Rightarrow> string \<Rightarrow> string \<Rightarrow> string \<Rightarrow> join_type \<Rightarrow> flow \<Rightarrow> flow \<Rightarrow> string \<Rightarrow> string set \<Rightarrow> flow checked" where
  "join_flow rg relation_id left_key right_key join_type l r path selected =
     (let d1 = validate_concept rg relation_id RelationConcept selected (path @ ''.parameters.relation_id'');
          (d2, li) = require_column left_key l (path @ ''.parameters.left_key'');
          (d3, ri) = require_column right_key r (path @ ''.parameters.right_key'');
          d4 = (case dget (typed_relations rg) relation_id of None \<Rightarrow> []
                | Some rel \<Rightarrow> check_join_relation rel l r li ri path);
          (d5, columns) = check_fold (join_column path) 0 (fl_columns r) (fl_columns l);
          weaken = (join_type \<noteq> INNER)
      in (d1 @ d2 @ d3 @ d4 @ d5,
          \<lparr>fl_columns = columns, fl_grain = fl_grain l \<union> fl_grain r, fl_entities = fl_entities l \<union> fl_entities r,
           fl_used_concepts = insert relation_id (fl_used_concepts l \<union> fl_used_concepts r),
           fl_enforcing_concepts = insert relation_id (fl_enforcing_concepts l \<union> fl_enforcing_concepts r
             \<union> column_concepts li \<union> column_concepts ri \<union> fl_entities l \<union> fl_entities r),
           fl_member_constraints = fl_member_constraints l
             @ map (\<lambda>m. if weaken then m\<lparr>mc_source_enforcing := False\<rparr> else m) (fl_member_constraints r),
           fl_time_constraints = fl_time_constraints l
             @ map (\<lambda>t. if weaken then t\<lparr>tc_source_enforcing := False\<rparr> else t) (fl_time_constraints r)\<rparr>))"

section \<open>Graph structure\<close>

definition node_path :: "nat \<Rightarrow> string" where
  "node_path i = path_item ''nodes'' i"

definition index_node :: "nat \<Rightarrow> node \<Rightarrow> (string, nat) dict \<Rightarrow> (string, nat) dict checked" where
  "index_node i n positions =
     (if dget positions (nd_id n) \<noteq> None then ([error_at ''DUPLICATE_NODE_ID'' (node_path i @ ''.id'')], positions)
      else ([], dput (nd_id n) i positions))"

definition dependency_step ::
    "(string, nat) dict \<Rightarrow> nat \<Rightarrow> string \<Rightarrow> nat \<Rightarrow> string \<Rightarrow> string set \<Rightarrow> string set checked" where
  "dependency_step positions index node_id j d seen =
     (let path = node_path index @ ''.dependencies''
      in (report (d \<in> seen) ''DUPLICATE_DEPENDENCY'' path
          @ (if d = node_id then [error_at ''SELF_DEPENDENCY'' path]
             else case dget positions d of None \<Rightarrow> [error_at ''MISSING_DEPENDENCY'' path]
               | Some p \<Rightarrow> report (index \<le> p) ''FORWARD_DEPENDENCY'' path),
          insert d seen))"

definition expected_inputs :: "operator \<Rightarrow> nat" where
  "expected_inputs op = (if op = SELECT then 0 else if op = JOIN then 2 else 1)"

text \<open>The flag is \<open>dependency_structure_valid\<close>.\<close>

definition node_structure :: "(string, nat) dict \<Rightarrow> nat \<Rightarrow> node \<Rightarrow> bool \<Rightarrow> bool checked" where
  "node_structure positions i n ok =
     (let mismatch = report (nd_operator n \<noteq> parameters_kind (nd_parameters n))
            ''OPERATOR_PARAMETER_MISMATCH'' (node_path i @ ''.parameters.kind'');
          ds = fst (check_fold (dependency_step positions i (nd_id n)) 0 (nd_dependencies n) {});
          arity = report (length (nd_dependencies n) \<noteq> expected_inputs (nd_operator n))
            ''DEPENDENCY_ARITY_INVALID'' (node_path i @ ''.dependencies'')
      in (mismatch @ ds @ arity, ok \<and> ds = [] \<and> arity = []))"

definition node_adjacency :: "node list \<Rightarrow> adjacency" where
  "node_adjacency ns = dict_of (map (\<lambda>n. (nd_id n, nd_dependencies n)) ns)"

definition unreachable_nodes :: "(string, nat) dict \<Rightarrow> sqg \<Rightarrow> diagnostic list res" where
  "unreachable_nodes positions g =
     rbind (reachable_from (qg_output_node_id g) (node_adjacency (qg_nodes g))) (\<lambda>reachable.
     rbind (traverse (\<lambda>n. if nd_id n \<in> set reachable then Inr []
              else rbind (dict_item positions (nd_id n)) (\<lambda>p.
                   Inr [error_at ''NODE_NOT_OUTPUT_REACHABLE'' (node_path p @ ''.id'')])) (qg_nodes g)) (\<lambda>dss.
     Inr (concat dss)))"

definition check_structure :: "sqg \<Rightarrow> (diagnostic list \<times> bool) res" where
  "check_structure g =
     (let (d1, positions) = check_fold index_node 0 (qg_nodes g) [];
          (d2, ok) = check_fold (node_structure positions) 0 (qg_nodes g) (d1 = [])
      in if dget positions (qg_output_node_id g) = None
         then Inr (d1 @ d2 @ [error_at ''OUTPUT_NODE_MISSING'' ''output_node_id''], False)
         else if ok then rbind (unreachable_nodes positions g) (\<lambda>d3. Inr (d1 @ d2 @ d3, True))
         else Inr (d1 @ d2, False))"

section \<open>Node flows\<close>

definition operator_flow ::
    "registry \<Rightarrow> string set \<Rightarrow> string \<Rightarrow> node_parameters \<Rightarrow> flow list \<Rightarrow> flow checked res" where
  "operator_flow rg selected path ps inputs =
     rbind (list_item inputs 0) (\<lambda>source.
     case ps of
       FilterParameters p \<Rightarrow> Inr (validate_predicate rg p source path, filtered_flow rg p source)
     | AggregateParameters group_by ms \<Rightarrow> Inr (aggregate_flow group_by ms source path)
     | PivotParameters ix c v vs bs \<Rightarrow> Inr (pivot_flow ix c v vs source path)
     | DeriveParameters ds \<Rightarrow> Inr (derive_flow ds source path)
     | ProjectParameters cs \<Rightarrow> Inr (project_flow cs source path)
     | SortParameters ks \<Rightarrow> Inr (sort_flow ks source path)
     | JoinParameters rel lk rk jt \<Rightarrow>
         rbind (list_item inputs 1) (\<lambda>right. Inr (join_flow rg rel lk rk jt source right path selected))
     | SelectParameters e cs \<Rightarrow> Inr (select_flow rg e cs path selected))"

definition validate_node ::
    "registry \<Rightarrow> string set \<Rightarrow> nat \<Rightarrow> node \<Rightarrow> (string, flow) dict \<Rightarrow> flow option checked res" where
  "validate_node rg selected i n flows =
     (let path = node_path i
      in case (nd_operator n, nd_parameters n) of
        (SELECT, SelectParameters e cs) \<Rightarrow> Inr (map_prod id Some (select_flow rg e cs path selected))
      | _ \<Rightarrow>
          (case those (map (dget flows) (nd_dependencies n)) of
             None \<Rightarrow> Inr ([error_at ''DEPENDENCY_FLOW_UNAVAILABLE'' (path @ ''.dependencies'')], None)
           | Some inputs \<Rightarrow>
               if nd_operator n = parameters_kind (nd_parameters n)
               then rbind (operator_flow rg selected path (nd_parameters n) inputs) (\<lambda>r. Inr (map_prod id Some r))
               else Inr ([error_at ''UNSUPPORTED_OPERATOR'' (path @ ''.operator'')], None)))"

definition record_flow :: "string \<Rightarrow> flow option \<Rightarrow> (string, flow) dict \<Rightarrow> (string, flow) dict" where
  "record_flow i f flows = (case f of None \<Rightarrow> flows | Some f \<Rightarrow> dput i f flows)"

fun validate_nodes ::
    "registry \<Rightarrow> string set \<Rightarrow> nat \<Rightarrow> node list \<Rightarrow> (string, flow) dict \<Rightarrow> (string, flow) dict checked res" where
  "validate_nodes rg selected i [] flows = Inr ([], flows)"
| "validate_nodes rg selected i (n # ns) flows =
     rbind (validate_node rg selected i n flows) (\<lambda>r.
     rbind (validate_nodes rg selected (Suc i) ns (record_flow (nd_id n) (snd r) flows)) (\<lambda>(d2, flows').
     Inr (fst r @ d2, flows')))"

section \<open>Constraint coverage\<close>

definition period_field :: string where "period_field = ''commerce.sales_record.period''"
definition region_field :: string where "region_field = ''commerce.sales_record.region''"
definition profit_metric :: string where "profit_metric = ''metric.profit''"

definition window_instants :: "nat \<Rightarrow> time_window \<Rightarrow> (int \<times> int) set \<Rightarrow> (int \<times> int) set checked" where
  "window_instants i w ws =
     (case (as_utc (tw_start w), as_utc (tw_end_exclusive w)) of
        (Some s, Some e) \<Rightarrow> ([], insert (s, e) ws)
      | _ \<Rightarrow> ([error_at ''DATETIME_INSTANT_OUT_OF_RANGE'' (path_item ''time_windows'' i)], ws))"

text \<open>Two adjacent months are enforced as the one window they form.\<close>

definition filter_windows :: "compilation_mode option \<Rightarrow> (int \<times> int) set \<Rightarrow> (int \<times> int) set" where
  "filter_windows mode ws =
     (if mode = Some MONTHLY_REGIONAL_COMPARISON \<and> card ws = 2
      then let os = sorted_list_of_set ws
           in if snd (os ! 0) = fst (os ! 1) then {(fst (os ! 0), snd (os ! 1))} else ws
      else ws)"

definition expected_time_fields ::
    "registry \<Rightarrow> resolved_term list \<Rightarrow> compilation_mode option \<Rightarrow> (int \<times> int) set \<Rightarrow> string set" where
  "expected_time_fields rg terms mode ws =
     (let fs = (if mode \<noteq> None \<and> ws \<noteq> {} then {period_field}
           else set (map rt_machine_id (filter (\<lambda>t. rt_kind t = TERM_FIELD
             \<and> (case dget (typed_fields rg) (rt_machine_id t) of None \<Rightarrow> False | Some f \<Rightarrow> of_data_type f = DATETIME)) terms)))
      in if ws \<noteq> {} \<and> fs = {} then {period_field} else fs)"

definition contributing_concepts :: "flow option \<Rightarrow> string set" where
  "contributing_concepts fl =
     (case fl of None \<Rightarrow> {}
      | Some f \<Rightarrow> (\<Union>c \<in> set (map snd (fl_columns f)). cl_concept_lineage c \<union> cl_entities c) \<union> fl_enforcing_concepts f)"

definition members_by_field :: "registry \<Rightarrow> string set \<Rightarrow> string \<Rightarrow> string set" where
  "members_by_field rg expected f =
     Set.filter (\<lambda>i. case dget (rg_members rg) i of None \<Rightarrow> False | Some (g, m) \<Rightarrow> g = f) expected"

text \<open>
  One member domain: its predicates, and the resolved members of the domain
  when there are any.
\<close>

definition check_member_domain :: "registry \<Rightarrow> string set \<Rightarrow> member_constraint list \<Rightarrow> string \<Rightarrow> diagnostic list" where
  "check_member_domain rg expected mcs f =
     (let predicates = map mc_values (filter (\<lambda>m. mc_field_id m = f) mcs); wanted = members_by_field rg expected f
      in report (length predicates \<noteq> 1 \<or> wanted \<noteq> {} \<and> predicates ! 0 \<noteq> wanted)
           ''MEMBER_CONSTRAINT_SHAPE_INVALID'' ''nodes'')"

definition validate_constraint_coverage ::
    "registry \<Rightarrow> flow option \<Rightarrow> resolved_term list \<Rightarrow> time_window list \<Rightarrow> compilation_mode option \<Rightarrow> diagnostic list" where
  "validate_constraint_coverage rg out terms windows mode =
     (let (d1, ws) = check_fold window_instants 0 windows {};
          expected_members = resolved_ids TERM_MEMBER terms;
          fws = filter_windows mode ws;
          tfs = expected_time_fields rg terms mode ws;
          mcs = (case out of None \<Rightarrow> [] | Some f \<Rightarrow> fl_member_constraints f);
          tcs = (case out of None \<Rightarrow> [] | Some f \<Rightarrow> fl_time_constraints f);
          enforced_members = (\<Union>m \<in> set (filter mc_source_enforcing mcs). mc_values m);
          introduced_members = (\<Union>m \<in> set mcs. mc_values m);
          introduced_windows = set (concat (map (\<lambda>t. case tc_window t of None \<Rightarrow> [] | Some w \<Rightarrow> [w]) tcs));
          enforced_windows = set (concat (map (\<lambda>t. case tc_window t of None \<Rightarrow> []
            | Some w \<Rightarrow> if tc_source_enforcing t \<and> (tfs = {} \<or> tc_field_id t \<in> tfs) then [w] else []) tcs));
          d2 = concat (map (\<lambda>t. report (tfs \<noteq> {} \<and> tc_field_id t \<notin> tfs) ''UNRESOLVED_TIME_DOMAIN'' ''nodes'') tcs);
          expected_concepts = set (map rt_machine_id (filter (\<lambda>t. rt_kind t \<in> {TERM_ENTITY, TERM_FIELD, TERM_METRIC}) terms));
          d3 = map (\<lambda>_. error_at ''MISSING_RESOLVED_CONCEPT'' ''nodes'')
                 (sorted_list_of_set (expected_concepts - contributing_concepts out));
          d4 = concat (map (check_member_domain rg expected_members mcs) (sorted_list_of_set (set (map mc_field_id mcs))));
          d5 = map (\<lambda>_. error_at ''MISSING_MEMBER_CONSTRAINT'' ''nodes'') (sorted_list_of_set (expected_members - enforced_members));
          d6 = map (\<lambda>_. error_at ''UNRESOLVED_MEMBER_CONSTRAINT'' ''nodes'') (sorted_list_of_set (introduced_members - expected_members));
          d7 = report (\<not> fws \<subseteq> enforced_windows) ''MISSING_TIME_CONSTRAINT'' ''nodes'';
          d8 = report (\<not> introduced_windows \<subseteq> fws) ''UNRESOLVED_TIME_CONSTRAINT'' ''nodes'';
          d9 = report (length tcs \<noteq> card fws \<or> None \<in> set (map tc_window tcs)) ''TIME_CONSTRAINT_SHAPE_INVALID'' ''nodes''
      in d1 @ d2 @ d3 @ d4 @ d5 @ d6 @ d7 @ d8 @ d9)"

section \<open>Compilation modes\<close>

datatype validator_failure = Raised failure | Endless

type_synonym 'a outcome = "validator_failure + 'a"

definition raised :: "'a res \<Rightarrow> 'a outcome" where
  "raised r = map_sum Raised id r"

text \<open>
  The walk from the output along single dependencies, in the order visited; the
  list is emptied when a node has several dependencies.
\<close>

fun linear_walk :: "nat \<Rightarrow> (string, node) dict \<Rightarrow> node list \<Rightarrow> node option \<Rightarrow> node list outcome" where
  "linear_walk fuel by_id visited None = Inr visited"
| "linear_walk 0 by_id visited (Some n) = Inl Endless"
| "linear_walk (Suc fuel) by_id visited (Some n) =
     (case nd_dependencies n of
        [] \<Rightarrow> Inr (visited @ [n])
      | [d] \<Rightarrow> linear_walk fuel by_id (visited @ [n]) (dget by_id d)
      | _ \<Rightarrow> Inr [])"

definition node_by_id :: "sqg \<Rightarrow> (string, node) dict" where
  "node_by_id g = dict_of (map (\<lambda>n. (nd_id n, n)) (qg_nodes g))"

definition expected_schema :: "compilation_mode \<Rightarrow> (string \<times> column_type) list" where
  "expected_schema mode =
     (if mode = REGIONAL_QUARTERLY_PROFIT then [(''region'', STRING), (''period'', DATETIME), (''profit'', NUMBER)]
      else [(''region'', STRING), (''profit_current'', NUMBER), (''profit_previous'', NUMBER), (''profit_change'', NUMBER)])"

definition required_lineage :: "compilation_mode \<Rightarrow> (string \<times> string) list" where
  "required_lineage mode =
     (''region'', region_field) #
     (if mode = REGIONAL_QUARTERLY_PROFIT then [(''period'', period_field), (''profit'', profit_metric)]
      else [(''profit_current'', profit_metric), (''profit_previous'', profit_metric), (''profit_change'', profit_metric)])"

definition check_lineage :: "flow \<Rightarrow> string \<times> string \<Rightarrow> diagnostic list" where
  "check_lineage fl r =
     report (case dget (fl_columns fl) (fst r) of None \<Rightarrow> True
       | Some c \<Rightarrow> snd r \<notin> cl_concept_lineage c \<or> snd r = profit_metric \<and> snd r \<notin> cl_aggregated_concepts c)
       ''COMPILATION_MODE_OUTPUT_LINEAGE_INVALID'' ''result_schema''"

definition expected_tail :: "compilation_mode \<Rightarrow> operator list" where
  "expected_tail mode =
     (if mode = REGIONAL_QUARTERLY_PROFIT then [AGGREGATE, SORT, PROJECT] else [AGGREGATE, PIVOT, DERIVE, PROJECT])"

definition exact_topology :: "sqg \<Rightarrow> compilation_mode \<Rightarrow> node list \<Rightarrow> bool" where
  "exact_topology g mode linear_path =
     (let ops = map nd_operator linear_path;
          filter_count = (case ops of SELECT # os \<Rightarrow> length (takeWhile (\<lambda>x. x = FILTER) os) | _ \<Rightarrow> 0)
      in length linear_path = length (qg_nodes g) \<and> ops = SELECT # replicate filter_count FILTER @ expected_tail mode)"

definition allowed_filter_columns :: "resolved_term list \<Rightarrow> time_window list \<Rightarrow> string set" where
  "allowed_filter_columns terms windows =
     (if \<exists>t \<in> set terms. rt_kind t = TERM_MEMBER then {region_field} else {})
     \<union> (if windows \<noteq> [] then {period_field} else {})"

definition filter_column :: "node \<Rightarrow> string option" where
  "filter_column n = (case nd_parameters n of FilterParameters p \<Rightarrow> Some (pr_column p) | _ \<Rightarrow> None)"

definition exact_aggregate :: "sqg \<Rightarrow> bool" where
  "exact_aggregate g =
     (case filter (\<lambda>n. nd_operator n = AGGREGATE \<and> parameters_kind (nd_parameters n) = AGGREGATE) (qg_nodes g) of
        [n] \<Rightarrow> nd_parameters n = AggregateParameters [region_field, period_field]
                 [\<lparr>am_source = profit_metric, am_output = ''profit'', am_function = FN_SUM\<rparr>]
      | _ \<Rightarrow> False)"

text \<open>Aware timestamps are ordered by the instant they denote.\<close>

definition instant_of :: "timestamp \<Rightarrow> int" where
  "instant_of t = ts_local t - (case ts_offset t of None \<Rightarrow> 0 | Some off \<Rightarrow> off)"

definition expected_bindings :: "time_window list \<Rightarrow> (string \<times> int option) list \<Rightarrow> (string \<times> int option) list" where
  "expected_bindings windows actual =
     (if length windows = 2
      then let ws = sort_key (\<lambda>w. instant_of (tw_start w)) windows
           in [(''profit_current'', as_utc (tw_start (ws ! 1))), (''profit_previous'', as_utc (tw_start (ws ! 0)))]
      else [(''profit_current'', case actual of [] \<Rightarrow> None | a # _ \<Rightarrow> snd a),
            (''profit_previous'', case actual of _ # b # _ \<Rightarrow> snd b | _ \<Rightarrow> None)])"

definition exact_pivot :: "time_window list \<Rightarrow> node list \<Rightarrow> bool" where
  "exact_pivot windows linear_path =
     (case filter (\<lambda>p. parameters_kind p = PIVOT) (map nd_parameters linear_path) of
        [PivotParameters ix c v vs bs] \<Rightarrow>
          (let actual = map (\<lambda>(a, t). (a, as_utc t)) bs
           in ix = [region_field] \<and> c = period_field \<and> v = ''profit'' \<and> vs = [''profit_current'', ''profit_previous'']
              \<and> actual = expected_bindings windows actual \<and> list_all (\<lambda>(a, t). t \<noteq> None) actual
              \<and> (case actual of [(a, Some current), (b, Some previous)] \<Rightarrow> previous < current | _ \<Rightarrow> False))
      | _ \<Rightarrow> False)"

definition project_mapping :: "node option \<Rightarrow> (string \<times> string) set" where
  "project_mapping out =
     (case out of Some n \<Rightarrow>
        (case nd_parameters n of ProjectParameters ps \<Rightarrow> set (dict_of (map (\<lambda>p. (pj_alias p, pj_source p)) ps)) | _ \<Rightarrow> {})
      | None \<Rightarrow> {})"

definition exact_change :: "(string, node) dict \<Rightarrow> node option \<Rightarrow> bool" where
  "exact_change by_id out =
     (case out of None \<Rightarrow> False
      | Some n \<Rightarrow>
          (case nd_dependencies n of
             [d] \<Rightarrow>
               (case dget by_id d of None \<Rightarrow> False
                | Some m \<Rightarrow>
                    (case nd_parameters m of
                       DeriveParameters cs \<Rightarrow>
                         (case filter (\<lambda>c. dc_output c = ''profit_change'') cs of
                            [c] \<Rightarrow> dc_expression c = Binary SUBTRACT (ColumnOperand ''profit_current'') (ColumnOperand ''profit_previous'')
                          | _ \<Rightarrow> False)
                     | _ \<Rightarrow> False))
           | _ \<Rightarrow> False))"

definition comparison_checks :: "sqg \<Rightarrow> time_window list \<Rightarrow> node list \<Rightarrow> diagnostic list" where
  "comparison_checks g windows linear_path =
     (let out = dget (node_by_id g) (qg_output_node_id g)
      in report (\<not> exact_pivot windows linear_path) ''COMPILATION_MODE_PIVOT_INVALID'' ''nodes''
         @ report (project_mapping out \<noteq> {(''region'', region_field), (''profit_current'', ''profit_current''),
              (''profit_previous'', ''profit_previous''), (''profit_change'', ''profit_change'')}
              \<or> \<not> exact_change (node_by_id g) out)
             ''COMPILATION_MODE_DERIVATION_INVALID'' ''nodes'')"

definition validate_compilation_mode ::
    "sqg \<Rightarrow> flow option \<Rightarrow> compilation_mode \<Rightarrow> resolved_term list \<Rightarrow> time_window list \<Rightarrow> diagnostic list outcome" where
  "validate_compilation_mode g out mode terms windows =
     (case out of None \<Rightarrow> Inr []
      | Some fl \<Rightarrow>
          let d1 = map (\<lambda>_. error_at ''COMPILATION_MODE_CONCEPT_MISSING'' ''nodes'')
                     (sorted_list_of_set ({region_field, period_field, profit_metric} - fl_used_concepts fl));
              d2 = report (map (\<lambda>(n, c). (n, cl_data_type c)) (fl_columns fl) \<noteq> expected_schema mode)
                     ''COMPILATION_MODE_SCHEMA_INVALID'' ''result_schema'';
              d3 = concat (map (check_lineage fl) (required_lineage mode))
          in rbind (linear_walk (length (qg_nodes g)) (node_by_id g) [] (dget (node_by_id g) (qg_output_node_id g))) (\<lambda>walk.
             let linear_path = rev walk;
                 allowed = allowed_filter_columns terms windows;
                 d4 = report (\<not> exact_topology g mode linear_path) ''COMPILATION_MODE_TOPOLOGY_INVALID'' ''nodes'';
                 d5 = concat (map (\<lambda>n. case filter_column n of None \<Rightarrow> []
                        | Some c \<Rightarrow> report (c \<notin> allowed) ''COMPILATION_MODE_FILTER_INVALID'' ''nodes'') (qg_nodes g));
                 d6 = report (\<not> exact_aggregate g) ''COMPILATION_MODE_AGGREGATE_INVALID'' ''nodes'';
                 d7 = (if mode = MONTHLY_REGIONAL_COMPARISON then comparison_checks g windows linear_path else [])
             in Inr (d1 @ d2 @ d3 @ d4 @ d5 @ d6 @ d7)))"

section \<open>Validation\<close>

record validation_result =
  vr_normalized :: "sqg option"
  vr_diagnostics :: "diagnostic list"

definition has_error :: "diagnostic list \<Rightarrow> bool" where
  "has_error ds = list_ex (\<lambda>d. dg_severity d = ERROR) ds"

definition valid :: "validation_result \<Rightarrow> bool" where
  "valid r = (vr_normalized r \<noteq> None \<and> \<not> has_error (vr_diagnostics r))"

definition selected_ids :: "semantic_context \<Rightarrow> string set" where
  "selected_ids sx =
     set (map oe_id (sx_entities sx) @ map of_id (sx_fields sx) @ map ot_id (sx_metrics sx) @ map or_id (sx_relations sx))"

text \<open>The path of the first schema error is the business of the model library.\<close>

definition schema_invalid :: validation_result where
  "schema_invalid = \<lparr>vr_normalized = None,
     vr_diagnostics = [\<lparr>dg_code = ''SCHEMA_INVALID'', dg_severity = ERROR, dg_stage = VALIDATE, dg_path = None\<rparr>]\<rparr>"

definition conclude :: "sqg \<Rightarrow> (string, flow) dict \<Rightarrow> diagnostic list \<Rightarrow> validation_result" where
  "conclude g flows ds =
     (case dget flows (qg_output_node_id g) of
        None \<Rightarrow> \<lparr>vr_normalized = None, vr_diagnostics = ds\<rparr>
      | Some fl \<Rightarrow>
          let inferred = map (\<lambda>(n, c). (n, cl_data_type c)) (fl_columns fl);
              ds' = ds @ report (qg_result_schema g \<noteq> [] \<and> qg_result_schema g \<noteq> inferred) ''RESULT_SCHEMA_MISMATCH'' ''result_schema''
          in \<lparr>vr_normalized = (if has_error ds' then None
                else Some (g\<lparr>qg_result_schema := (if qg_result_schema g \<noteq> [] then qg_result_schema g else inferred)\<rparr>)),
              vr_diagnostics = ds'\<rparr>)"

definition validate ::
    "registry \<Rightarrow> sqg option \<Rightarrow> semantic_context \<Rightarrow> resolved_term list \<Rightarrow> time_window list \<Rightarrow> compilation_mode option
      \<Rightarrow> validation_result outcome" where
  "validate rg candidate sx terms windows mode =
     (case candidate of None \<Rightarrow> Inr schema_invalid
      | Some g \<Rightarrow>
          if \<not> sqg_ok g then Inr schema_invalid
          else rbind (raised (check_structure g)) (\<lambda>(d1, ok).
            if \<not> ok then Inr (conclude g [] d1)
            else rbind (raised (validate_nodes rg (selected_ids sx) 0 (qg_nodes g) [])) (\<lambda>(d2, flows).
              let out = dget flows (qg_output_node_id g);
                  d3 = validate_constraint_coverage rg out terms windows mode
              in rbind (case mode of None \<Rightarrow> Inr [] | Some m \<Rightarrow> validate_compilation_mode g out m terms windows) (\<lambda>d4.
                 Inr (conclude g flows (d1 @ d2 @ d3 @ d4))))))"

end
