(* ===== verification/Semantic_Governance.thy ===== *)
theory Semantic_Governance
  imports Semantic_Validator
begin

text \<open>
  What the validator of the semantic API guarantees: it always returns a
  result, a graph it accepts uses only governed concepts of the ontology, and in
  a trusted compilation mode the filters of the graph keep exactly the rows the
  resolved members and time windows describe.
\<close>

section \<open>Loops\<close>

lemma check_fold_Cons_empty:
  "check_fold f i (x # xs) s = ([], s') \<longleftrightarrow> (\<exists>s1. f i x s = ([], s1) \<and> check_fold f (Suc i) xs s1 = ([], s'))"
  by (auto split: prod.splits)

lemma check_fold_inv:
  assumes "check_fold f i xs s = ([], s')" "P s"
    and "\<And>j x t t'. x \<in> set xs \<Longrightarrow> f j x t = ([], t') \<Longrightarrow> P t \<Longrightarrow> P t'"
  shows "P s'"
  using assms
proof (induction xs arbitrary: i s)
  case (Cons x xs)
  then obtain s1 where s1: "f i x s = ([], s1)" "check_fold f (Suc i) xs s1 = ([], s')"
    by (simp only: check_fold_Cons_empty) blast
  have "P s1" using Cons.prems(2,3) s1(1) by (meson list.set_intros(1))
  then show ?case using Cons.IH [OF s1(2)] Cons.prems(3) by (meson list.set_intros(2))
qed simp

lemma check_fold_each:
  assumes "check_fold f i xs s = ([], s')" "x \<in> set xs"
  shows "\<exists>j t t'. f j x t = ([], t')"
  using assms
proof (induction xs arbitrary: i s)
  case (Cons y xs)
  then obtain s1 where "f i y s = ([], s1)" "check_fold f (Suc i) xs s1 = ([], s')"
    by (simp only: check_fold_Cons_empty) blast
  with Cons show ?case by auto
qed simp

lemma report_empty [simp]: "report b code path = [] \<longleftrightarrow> \<not> b"
  by (simp add: report_def)

lemma raised_simps [simp]: "raised (Inr x) = Inr x" "raised (Inl e) = Inl (Raised e)"
  by (simp_all add: raised_def)

section \<open>Graph structure\<close>

definition node_ids_of :: "sqg \<Rightarrow> string list" where
  "node_ids_of g = map nd_id (qg_nodes g)"

definition well_structured :: "sqg \<Rightarrow> bool" where
  "well_structured g \<longleftrightarrow>
     distinct (node_ids_of g) \<and> qg_output_node_id g \<in> set (node_ids_of g)
     \<and> (\<forall>k < length (qg_nodes g). length (nd_dependencies (qg_nodes g ! k)) = expected_inputs (nd_operator (qg_nodes g ! k))
          \<and> (\<forall>d \<in> set (nd_dependencies (qg_nodes g ! k)). \<exists>j < k. nd_id (qg_nodes g ! j) = d))"

lemma index_nodes_ok:
  "check_fold index_node i ns ps = ([], ps') \<Longrightarrow>
   distinct (map nd_id ns) \<and> set (map nd_id ns) \<inter> dom (dget ps) = {}
   \<and> (\<forall>d p. dget ps' d = Some p \<longrightarrow> dget ps d = Some p \<or> (\<exists>j < length ns. nd_id (ns ! j) = d \<and> p = i + j))
   \<and> dom (dget ps') = dom (dget ps) \<union> set (map nd_id ns)"
proof (induction ns arbitrary: i ps)
  case (Cons n ns)
  obtain m where m: "dget ps (nd_id n) = None" "m = dput (nd_id n) i ps" "check_fold index_node (Suc i) ns m = ([], ps')"
    using Cons.prems unfolding check_fold_Cons_empty by (auto simp: index_node_def split: if_splits)
  note ih = Cons.IH [OF m(3)]
  have "dget ps d = Some p \<or> (\<exists>j < length (n # ns). nd_id ((n # ns) ! j) = d \<and> p = i + j)" if "dget ps' d = Some p" for d p
  proof -
    from ih that consider "dget m d = Some p" | j where "j < length ns" "nd_id (ns ! j) = d" "p = Suc i + j" by blast
    then show ?thesis
    proof cases
      case 1
      then show ?thesis using m by (auto split: if_splits intro: exI [of _ 0])
    next
      case (2 j)
      then show ?thesis by (intro disjI2 exI [of _ "Suc j"]) auto
    qed
  qed
  then show ?case using ih m by auto
qed simp

lemma dependency_step_seen: "snd (dependency_step ps i me j x seen) = insert x seen"
  by (simp add: dependency_step_def Let_def)

lemma fst_check_fold_Cons:
  "fst (check_fold f i (x # xs) s) = fst (f i x s) @ fst (check_fold f (Suc i) xs (snd (f i x s)))"
  by (simp split: prod.splits)

lemma dependency_steps_ok:
  "fst (check_fold (dependency_step ps i me) j ds seen) = [] \<Longrightarrow> d \<in> set ds \<Longrightarrow> \<exists>p. dget ps d = Some p \<and> p < i"
proof (induction ds arbitrary: j seen)
  case (Cons x ds)
  have h: "fst (dependency_step ps i me j x seen) = []"
      "fst (check_fold (dependency_step ps i me) (Suc j) ds (insert x seen)) = []"
    using Cons.prems(1) unfolding fst_check_fold_Cons dependency_step_seen by auto
  show ?case
  proof (cases "d = x")
    case True
    with h(1) show ?thesis by (auto simp: dependency_step_def Let_def split: if_splits option.splits)
  next
    case False
    with Cons.IH [OF h(2)] Cons.prems(2) show ?thesis by simp
  qed
qed simp

lemma node_structures_ok:
  "check_fold (node_structure ps) i ns ok = (ds, True) \<Longrightarrow>
   ok \<and> (\<forall>k < length ns. length (nd_dependencies (ns ! k)) = expected_inputs (nd_operator (ns ! k))
     \<and> (\<forall>d \<in> set (nd_dependencies (ns ! k)). \<exists>p. dget ps d = Some p \<and> p < i + k))"
proof (induction ns arbitrary: i ok ds)
  case (Cons n ns)
  obtain d1 ok1 d2 where s: "node_structure ps i n ok = (d1, ok1)" "check_fold (node_structure ps) (Suc i) ns ok1 = (d2, True)"
    using Cons.prems by (auto split: prod.splits)
  note ih = Cons.IH [OF s(2)]
  have n: "ok \<and> length (nd_dependencies n) = expected_inputs (nd_operator n)
      \<and> (\<forall>d \<in> set (nd_dependencies n). \<exists>p. dget ps d = Some p \<and> p < i)"
    using s(1) ih dependency_steps_ok [of ps i "nd_id n" 0 "nd_dependencies n" "{}"]
    by (auto simp: node_structure_def Let_def)
  have "length (nd_dependencies ((n # ns) ! k)) = expected_inputs (nd_operator ((n # ns) ! k))
     \<and> (\<forall>d \<in> set (nd_dependencies ((n # ns) ! k)). \<exists>p. dget ps d = Some p \<and> p < i + k)" if "k < length (n # ns)" for k
    using that n ih by (cases k) auto
  with n show ?case by blast
qed simp

text \<open>The checks before the reachability check establish the structure it needs.\<close>

lemma structure_established:
  assumes "check_fold index_node 0 (qg_nodes g) [] = (d1, ps)"
    and "check_fold (node_structure ps) 0 (qg_nodes g) (d1 = []) = (d2, True)"
    and "dget ps (qg_output_node_id g) \<noteq> None"
  shows "well_structured g \<and> dom (dget ps) = set (node_ids_of g)"
proof -
  have d1: "d1 = []" and ns: "\<forall>k < length (qg_nodes g).
      length (nd_dependencies (qg_nodes g ! k)) = expected_inputs (nd_operator (qg_nodes g ! k))
     \<and> (\<forall>d \<in> set (nd_dependencies (qg_nodes g ! k)). \<exists>p. dget ps d = Some p \<and> p < k)"
    using node_structures_ok [OF assms(2)] by auto
  note ix = index_nodes_ok [OF assms(1) [unfolded d1]]
  have pos: "p < length (qg_nodes g) \<and> nd_id (qg_nodes g ! p) = d" if "dget ps d = Some p" for d p
    using ix that by auto
  have "\<exists>j < k. nd_id (qg_nodes g ! j) = d" if "k < length (qg_nodes g)" "d \<in> set (nd_dependencies (qg_nodes g ! k))" for k d
    using ns pos that by blast
  then show ?thesis
    using ix ns assms(3) by (auto simp: well_structured_def node_ids_of_def)
qed

lemma well_structured_graph:
  assumes "well_structured g"
  shows "node_adjacency (qg_nodes g) = map (\<lambda>n. (nd_id n, nd_dependencies n)) (qg_nodes g)"
    "distinct (node_ids (node_adjacency (qg_nodes g)))" "closed_graph (node_adjacency (qg_nodes g))"
    "node_ids (node_adjacency (qg_nodes g)) = node_ids_of g"
proof -
  have d: "distinct (map nd_id (qg_nodes g))" using assms by (simp add: well_structured_def node_ids_of_def)
  show adj: "node_adjacency (qg_nodes g) = map (\<lambda>n. (nd_id n, nd_dependencies n)) (qg_nodes g)"
    unfolding node_adjacency_def by (rule dict_of_distinct) (simp add: comp_def d)
  show ids: "node_ids (node_adjacency (qg_nodes g)) = node_ids_of g"
    by (simp add: adj node_ids_def node_ids_of_def comp_def)
  show "distinct (node_ids (node_adjacency (qg_nodes g)))"
    using d by (simp add: ids node_ids_of_def)
  have "d' \<in> set (node_ids_of g)" if n: "n \<in> set (qg_nodes g)" and d': "d' \<in> set (nd_dependencies n)" for n d'
  proof -
    obtain k where k: "k < length (qg_nodes g)" "n = qg_nodes g ! k" using n by (metis in_set_conv_nth)
    then obtain j where "j < k" "nd_id (qg_nodes g ! j) = d'"
      using assms d' unfolding well_structured_def by blast
    then show ?thesis using k(1) by (auto simp: node_ids_of_def)
  qed
  then show "closed_graph (node_adjacency (qg_nodes g))"
    unfolding closed_graph_def ids by (auto simp: adj)
qed

lemma unreachable_nodes_total:
  assumes "well_structured g" "dom (dget ps) = set (node_ids_of g)"
  shows "\<exists>ds. unreachable_nodes ps g = Inr ds"
proof -
  note wg = well_structured_graph [OF assms(1)]
  have "qg_output_node_id g \<in> set (node_ids (node_adjacency (qg_nodes g)))"
    using assms(1) by (simp add: wg(4) well_structured_def)
  then obtain R where R: "reachable_from (qg_output_node_id g) (node_adjacency (qg_nodes g)) = Inr R"
    using reachable_from_ok [OF wg(3,2)] by metis
  let ?f = "\<lambda>n. if nd_id n \<in> set R then Inr []
      else rbind (dict_item ps (nd_id n)) (\<lambda>p. Inr [error_at ''NODE_NOT_OUTPUT_REACHABLE'' (node_path p @ ''.id'')])"
  have "\<exists>y. ?f n = Inr y" if "n \<in> set (qg_nodes g)" for n
  proof -
    have "nd_id n \<in> dom (dget ps)" using that assms(2) by (simp add: node_ids_of_def)
    then show ?thesis by (auto simp: dict_item_known)
  qed
  then obtain h where "\<And>n. n \<in> set (qg_nodes g) \<Longrightarrow> ?f n = Inr (h n)" by metis
  then have "traverse ?f (qg_nodes g) = Inr (map h (qg_nodes g))" by (rule traverse_total)
  then show ?thesis unfolding unreachable_nodes_def R rbind_Inr by simp
qed

lemma check_structure_total: "\<exists>ds ok. check_structure g = Inr (ds, ok) \<and> (ok \<longrightarrow> well_structured g)"
proof -
  obtain d1 ps where ix: "check_fold index_node 0 (qg_nodes g) [] = (d1, ps)" by force
  obtain d2 ok where ns: "check_fold (node_structure ps) 0 (qg_nodes g) (d1 = []) = (d2, ok)" by force
  show ?thesis
  proof (cases "ok \<and> dget ps (qg_output_node_id g) \<noteq> None")
    case True
    then have s: "well_structured g" "dom (dget ps) = set (node_ids_of g)"
      using structure_established [OF ix] ns by auto
    then obtain d3 where d3: "unreachable_nodes ps g = Inr d3" using unreachable_nodes_total by blast
    show ?thesis using True ix ns s by (auto simp: check_structure_def d3)
  next
    case False
    then show ?thesis using ix ns by (auto simp: check_structure_def)
  qed
qed

section \<open>The validator returns\<close>

lemma those_length: "those xs = Some ys \<Longrightarrow> length ys = length xs"
  by (induction xs arbitrary: ys) (auto split: option.splits)

lemma operator_flow_total:
  assumes "length inputs = expected_inputs (parameters_kind ps)" "parameters_kind ps \<noteq> SELECT"
  shows "\<exists>r. operator_flow rg selected path ps inputs = Inr r"
  using assms by (cases ps) (auto simp: operator_flow_def expected_inputs_def list_item_def)

definition is_select_node :: "node \<Rightarrow> bool" where
  "is_select_node n \<longleftrightarrow> nd_operator n = SELECT \<and> parameters_kind (nd_parameters n) = SELECT"

lemma validate_node_inner:
  "\<not> is_select_node n \<Longrightarrow> validate_node rg selected i n flows =
     (case those (map (dget flows) (nd_dependencies n)) of
        None \<Rightarrow> Inr ([error_at ''DEPENDENCY_FLOW_UNAVAILABLE'' (node_path i @ ''.dependencies'')], None)
      | Some inputs \<Rightarrow>
          if nd_operator n = parameters_kind (nd_parameters n)
          then rbind (operator_flow rg selected (node_path i) (nd_parameters n) inputs) (\<lambda>r. Inr (map_prod id Some r))
          else Inr ([error_at ''UNSUPPORTED_OPERATOR'' (node_path i @ ''.operator'')], None))"
  unfolding is_select_node_def
  by (cases "nd_operator n"; cases "nd_parameters n") (simp_all add: validate_node_def Let_def)

lemma is_select_nodeE:
  assumes "is_select_node n"
  obtains e cs where "nd_parameters n = SelectParameters e cs" "nd_operator n = SELECT"
    "validate_node rg selected i n flows = Inr (map_prod id Some (select_flow rg e cs (node_path i) selected))"
  using assms by (cases "nd_parameters n") (auto simp: is_select_node_def validate_node_def)

lemma validate_node_total:
  assumes "length (nd_dependencies n) = expected_inputs (nd_operator n)"
  shows "\<exists>r. validate_node rg selected i n flows = Inr r"
proof (cases "is_select_node n")
  case True
  then show ?thesis by (rule is_select_nodeE) blast
next
  case False
  show ?thesis
  proof (cases "those (map (dget flows) (nd_dependencies n))")
    case (Some inputs)
    show ?thesis
    proof (cases "nd_operator n = parameters_kind (nd_parameters n)")
      case True
      then have "\<exists>r. operator_flow rg selected (node_path i) (nd_parameters n) inputs = Inr r"
        using those_length [OF Some] assms False by (intro operator_flow_total) (auto simp: is_select_node_def)
      with Some True False show ?thesis by (auto simp: validate_node_inner)
    qed (simp add: Some False validate_node_inner)
  qed (simp add: False validate_node_inner)
qed

lemma validate_nodes_total:
  "\<forall>n \<in> set ns. length (nd_dependencies n) = expected_inputs (nd_operator n) \<Longrightarrow>
   \<exists>r. validate_nodes rg selected i ns flows = Inr r"
proof (induction ns arbitrary: i flows)
  case (Cons n ns)
  obtain r where r: "validate_node rg selected i n flows = Inr r"
    using Cons.prems validate_node_total by (metis list.set_intros(1))
  obtain r' where "validate_nodes rg selected (Suc i) ns (record_flow (nd_id n) (snd r) flows) = Inr r'"
    using Cons.IH Cons.prems by (metis list.set_intros(2))
  with r show ?case by (cases r') simp
qed simp

lemma node_by_id_lookup:
  "well_structured g \<Longrightarrow> k < length (qg_nodes g) \<Longrightarrow> dget (node_by_id g) (nd_id (qg_nodes g ! k)) = Some (qg_nodes g ! k)"
  unfolding node_by_id_def by (rule dget_dict_of_keyed) (simp_all add: well_structured_def node_ids_of_def)

lemma single_dependency:
  assumes "well_structured g" "k < length (qg_nodes g)" "nd_dependencies (qg_nodes g ! k) = [d]"
  obtains j where "j < k" "j < length (qg_nodes g)" "nd_id (qg_nodes g ! j) = d" "dget (node_by_id g) d = Some (qg_nodes g ! j)"
proof -
  obtain j where j: "j < k" "nd_id (qg_nodes g ! j) = d"
    using assms unfolding well_structured_def by (metis list.set_intros(1))
  show ?thesis
  proof (rule that [OF j(1)])
    show "j < length (qg_nodes g)" using j(1) assms(2) by simp
    then show "dget (node_by_id g) d = Some (qg_nodes g ! j)" using node_by_id_lookup [OF assms(1)] j(2) by metis
  qed (rule j(2))
qed

text \<open>
  The walk visits nodes at decreasing positions, each the only dependency of the
  one before; so as much fuel as there are nodes is enough.
\<close>

inductive dependency_chain :: "sqg \<Rightarrow> nat list \<Rightarrow> bool" for g where
  chain_end: "k < length (qg_nodes g) \<Longrightarrow> nd_dependencies (qg_nodes g ! k) = [] \<Longrightarrow> dependency_chain g [k]"
| chain_step: "k < length (qg_nodes g) \<Longrightarrow> nd_dependencies (qg_nodes g ! k) = [nd_id (qg_nodes g ! j)] \<Longrightarrow> j < k
    \<Longrightarrow> dependency_chain g (j # ks) \<Longrightarrow> dependency_chain g (k # j # ks)"

lemma linear_walk_chain:
  assumes "well_structured g" "k < length (qg_nodes g)" "k < fuel"
  shows "\<exists>w. linear_walk fuel (node_by_id g) v (Some (qg_nodes g ! k)) = Inr w
    \<and> (w = [] \<or> (\<exists>ks. dependency_chain g (k # ks) \<and> w = v @ map ((!) (qg_nodes g)) (k # ks)))"
  using assms(2,3)
proof (induction fuel arbitrary: k v)
  case (Suc fuel)
  consider "nd_dependencies (qg_nodes g ! k) = []" | d where "nd_dependencies (qg_nodes g ! k) = [d]"
    | d d' ds where "nd_dependencies (qg_nodes g ! k) = d # d' # ds"
    by (metis list.exhaust)
  then show ?case
  proof cases
    case 1
    with Suc.prems show ?thesis by (auto intro: chain_end)
  next
    case (2 d)
    obtain j where j: "j < k" "j < length (qg_nodes g)" "nd_id (qg_nodes g ! j) = d" "dget (node_by_id g) d = Some (qg_nodes g ! j)"
      using single_dependency [OF assms(1) Suc.prems(1) 2] .
    obtain w where w: "linear_walk fuel (node_by_id g) (v @ [qg_nodes g ! k]) (Some (qg_nodes g ! j)) = Inr w"
        "w = [] \<or> (\<exists>ks. dependency_chain g (j # ks) \<and> w = (v @ [qg_nodes g ! k]) @ map ((!) (qg_nodes g)) (j # ks))"
      using Suc.IH [OF j(2), of "v @ [qg_nodes g ! k]"] j(1) Suc.prems(2) by auto
    have "linear_walk (Suc fuel) (node_by_id g) v (Some (qg_nodes g ! k)) = Inr w"
      using 2 j(4) w(1) by simp
    moreover have "\<exists>ks'. dependency_chain g (k # ks') \<and> w = v @ map ((!) (qg_nodes g)) (k # ks')"
      if "dependency_chain g (j # ks)" "w = (v @ [qg_nodes g ! k]) @ map ((!) (qg_nodes g)) (j # ks)" for ks
      using that Suc.prems(1) 2 j by (intro exI [of _ "j # ks"] conjI chain_step) auto
    ultimately show ?thesis using w(2) by blast
  next
    case (3 d d' ds)
    then show ?thesis by simp
  qed
qed simp

lemma output_position:
  assumes "well_structured g"
  obtains k where "k < length (qg_nodes g)" "nd_id (qg_nodes g ! k) = qg_output_node_id g"
    "dget (node_by_id g) (qg_output_node_id g) = Some (qg_nodes g ! k)"
proof -
  obtain k where k: "k < length (qg_nodes g)" "nd_id (qg_nodes g ! k) = qg_output_node_id g"
    using assms unfolding well_structured_def node_ids_of_def by (metis in_set_conv_nth length_map nth_map)
  show ?thesis using that [OF k] node_by_id_lookup [OF assms k(1)] k(2) by simp
qed

lemma mode_check_total:
  assumes "well_structured g"
  shows "\<exists>ds. validate_compilation_mode g out mode terms windows = Inr ds"
proof (cases out)
  case (Some fl)
  obtain k where k: "k < length (qg_nodes g)" "dget (node_by_id g) (qg_output_node_id g) = Some (qg_nodes g ! k)"
    using output_position [OF assms] by metis
  obtain w where "linear_walk (length (qg_nodes g)) (node_by_id g) [] (dget (node_by_id g) (qg_output_node_id g)) = Inr w"
    using linear_walk_chain [OF assms k(1) k(1)] k(2) by metis
  then show ?thesis by (simp add: validate_compilation_mode_def Some Let_def)
qed (simp add: validate_compilation_mode_def)

section \<open>Every diagnostic is an error\<close>

definition errors_only :: "diagnostic list \<Rightarrow> bool" where
  "errors_only ds \<longleftrightarrow> (\<forall>d \<in> set ds. dg_severity d = ERROR)"

lemma errors_only_simps [simp]:
  "errors_only []" "errors_only (error_at c p # ds) = errors_only ds" "errors_only (a @ b) \<longleftrightarrow> errors_only a \<and> errors_only b"
  "errors_only (report t c p)" "errors_only (concat dss) \<longleftrightarrow> (\<forall>ds \<in> set dss. errors_only ds)"
  "errors_only (map (\<lambda>_. error_at c p) xs)"
  by (auto simp: errors_only_def report_def error_at_def)

lemma errors_only_has_error: "errors_only ds \<Longrightarrow> has_error ds \<longleftrightarrow> ds \<noteq> []"
  by (cases ds) (auto simp: errors_only_def has_error_def)

lemma errors_only_fold [simp]:
  "(\<And>j x s. errors_only (fst (f j x s))) \<Longrightarrow> errors_only (fst (check_fold f i xs s))"
  by (induction xs arbitrary: i s) (simp_all add: Let_def case_prod_beta)

lemma errors_only_column [simp]: "errors_only (fst (require_column c fl p))"
  by (simp add: require_column_def split: option.splits)

lemma errors_only_columnD: "require_column c fl p = (ds, info) \<Longrightarrow> errors_only ds"
  using errors_only_column [of c fl p] by simp

lemma errors_only_concept [simp]: "errors_only (validate_concept rg i k s p)"
  by (simp add: validate_concept_def)

lemma errors_only_value [simp]: "errors_only (check_value rg c op p v)"
  unfolding check_value_def by (simp split: option.splits scalar.splits)

lemma errors_only_values [simp]: "errors_only (check_values rg c op p vs)"
  unfolding check_values_def by (auto simp: case_prod_beta)

lemma errors_only_between [simp]: "errors_only (validate_between v c p)"
  unfolding validate_between_def by (simp split: predicate_value.splits option.splits)

lemma errors_only_predicate [simp]: "errors_only (validate_predicate rg p fl path)"
  unfolding validate_predicate_def
  by (auto simp: Let_def dest: errors_only_columnD split: prod.splits option.splits predicate_value.splits list.splits)

lemma errors_only_select_column [simp]: "errors_only (fst (select_column rg e s p i c acc))"
  by (simp add: select_column_def Let_def split: option.splits)

lemma errors_only_group [simp]: "errors_only (fst (group_column fl p i g acc))"
  by (simp add: group_column_def Let_def case_prod_beta split: option.splits)

lemma errors_only_measure [simp]: "errors_only (fst (measure_column fl p i m cs))"
  by (simp add: measure_column_def Let_def case_prod_beta)

lemma errors_only_index [simp]: "errors_only (fst (index_column fl p i c acc))"
  by (auto simp: index_column_def dest: errors_only_columnD split: prod.splits option.splits)

lemma errors_only_pivot [simp]: "errors_only (fst (pivot_column fl info p i v cs))"
  by (simp add: pivot_column_def)

lemma errors_only_operand [simp]: "errors_only (fst (operand_info e fl p))"
  by (simp add: operand_info_def split: operand.splits)

lemma errors_only_expression [simp]: "errors_only (fst (expression_info e fl p))"
  by (simp add: expression_info_def Let_def case_prod_beta split: expression.splits)

lemma errors_only_derive [simp]: "errors_only (fst (derive_column fl p i d cs))"
  by (simp add: derive_column_def Let_def case_prod_beta)

lemma errors_only_project [simp]: "errors_only (fst (project_column fl p i j acc))"
  by (simp add: project_column_def Let_def case_prod_beta split: option.splits)

lemma errors_only_sort [simp]: "errors_only (fst (sort_key_concepts fl p i k e))"
  by (simp add: sort_key_concepts_def case_prod_beta)

lemma errors_only_join [simp]: "errors_only (fst (join_column p i c cs))" "errors_only (check_join_relation r a b lk rk p)"
  by (simp_all add: join_column_def check_join_relation_def)

lemma errors_only_flows [simp]:
  "errors_only (fst (select_flow rg e cs p s))" "errors_only (fst (aggregate_flow g ms fl p))"
  "errors_only (fst (pivot_flow ix c v vs fl p))" "errors_only (fst (derive_flow ds fl p))"
  "errors_only (fst (project_flow ps fl p))" "errors_only (fst (sort_flow ks fl p))"
  "errors_only (fst (join_flow rg rel lk rk jt l r p s))"
  by (simp_all add: select_flow_def aggregate_flow_def pivot_flow_def derive_flow_def project_flow_def sort_flow_def
      join_flow_def Let_def case_prod_beta split: option.splits)

lemma errors_only_operator: "operator_flow rg s p ps ins = Inr r \<Longrightarrow> errors_only (fst r)"
  by (cases ps) (auto simp: operator_flow_def)

lemma errors_only_node: "validate_node rg s i n flows = Inr r \<Longrightarrow> errors_only (fst r)"
proof (cases "is_select_node n")
  case True
  then show "validate_node rg s i n flows = Inr r \<Longrightarrow> errors_only (fst r)"
    by (rule is_select_nodeE [where rg = rg and selected = s and i = i and flows = flows]) auto
qed (auto simp: validate_node_inner split: option.splits if_splits dest: errors_only_operator)

lemma errors_only_nodes: "validate_nodes rg s i ns flows = Inr r \<Longrightarrow> errors_only (fst r)"
  by (induction ns arbitrary: i flows r) (fastforce dest: errors_only_node)+

lemma errors_only_structure: "check_structure g = Inr (ds, ok) \<Longrightarrow> errors_only ds"
proof -
  have a: "errors_only (fst (index_node i n ps))" for i n ps by (simp add: index_node_def)
  have b: "errors_only (fst (dependency_step ps i me j d seen))" for ps i me j d seen
    by (simp add: dependency_step_def Let_def split: option.splits)
  have c: "errors_only (fst (node_structure ps i n ok))" for ps i n ok
    by (simp add: node_structure_def Let_def b)
  have d: "errors_only ds" if "unreachable_nodes ps g = Inr ds" for ps ds
  proof -
    have "errors_only y" if "traverse (\<lambda>n. if nd_id n \<in> set R then Inr []
        else rbind (dict_item ps (nd_id n)) (\<lambda>p. Inr [error_at ''NODE_NOT_OUTPUT_REACHABLE'' (node_path p @ ''.id'')])) ns = Inr ys"
      "y \<in> set ys" for R ys y and ns :: "node list"
      using traverse_member [OF that] by (auto split: if_splits)
    with that show ?thesis by (auto simp: unreachable_nodes_def)
  qed
  show "check_structure g = Inr (ds, ok) \<Longrightarrow> errors_only ds"
    by (auto simp: check_structure_def Let_def case_prod_beta a c d split: if_splits)
qed

lemma errors_only_coverage: "errors_only (validate_constraint_coverage rg out terms windows mode)"
proof -
  have w: "errors_only (fst (window_instants i x s))" for i x s
    by (simp add: window_instants_def split: option.splits)
  show ?thesis
    unfolding validate_constraint_coverage_def
    by (simp add: Let_def case_prod_beta w check_member_domain_def)
qed

lemma errors_only_mode: "validate_compilation_mode g out m terms windows = Inr ds \<Longrightarrow> errors_only ds"
  by (auto simp: validate_compilation_mode_def Let_def check_lineage_def comparison_checks_def split: option.splits)

text \<open>An accepted candidate passed every check without a diagnostic.\<close>

lemma normalized_parts:
  assumes "validate rg (Some g) sx terms windows mode = Inr r" "vr_normalized r = Some g'"
  obtains flows fl where "well_structured g" "check_structure g = Inr ([], True)"
    "validate_nodes rg (selected_ids sx) 0 (qg_nodes g) [] = Inr ([], flows)"
    "dget flows (qg_output_node_id g) = Some fl"
    "validate_constraint_coverage rg (Some fl) terms windows mode = []"
    "\<And>m. mode = Some m \<Longrightarrow> validate_compilation_mode g (Some fl) m terms windows = Inr []"
    "g' = g\<lparr>qg_result_schema := map (\<lambda>(n, c). (n, cl_data_type c)) (fl_columns fl)\<rparr>"
proof -
  obtain d1 ok where st: "check_structure g = Inr (d1, ok)" "ok \<longrightarrow> well_structured g"
    using check_structure_total by blast
  have "ok" using assms st by (auto simp: validate_def schema_invalid_def conclude_def split: if_splits)
  have "sqg_ok g" using assms by (auto simp: validate_def schema_invalid_def split: if_splits)
  obtain d2 flows d4 where ns: "validate_nodes rg (selected_ids sx) 0 (qg_nodes g) [] = Inr (d2, flows)"
    and d4: "(case mode of None \<Rightarrow> Inr [] | Some m \<Rightarrow> validate_compilation_mode g (dget flows (qg_output_node_id g)) m terms windows) = Inr d4"
    and r: "r = conclude g flows (d1 @ d2 @ validate_constraint_coverage rg (dget flows (qg_output_node_id g)) terms windows mode @ d4)"
    using assms(1) st \<open>ok\<close> \<open>sqg_ok g\<close>
    by (cases "validate_nodes rg (selected_ids sx) 0 (qg_nodes g) []")
      (auto simp: validate_def Let_def split: prod.splits)
  obtain fl where fl: "dget flows (qg_output_node_id g) = Some fl"
    using assms(2) by (cases "dget flows (qg_output_node_id g)") (auto simp: r conclude_def)
  have e: "errors_only d1" "errors_only d2" "errors_only d4"
    using errors_only_structure [OF st(1)] errors_only_nodes [OF ns] d4 errors_only_mode by (auto split: option.splits)
  let ?inferred = "map (\<lambda>(n, c). (n, cl_data_type c)) (fl_columns fl)"
  let ?ds = "d1 @ d2 @ validate_constraint_coverage rg (Some fl) terms windows mode @ d4"
  let ?ds' = "?ds @ report (qg_result_schema g \<noteq> [] \<and> qg_result_schema g \<noteq> ?inferred) ''RESULT_SCHEMA_MISMATCH'' ''result_schema''"
  have "\<not> has_error ?ds'" and g': "g' = g\<lparr>qg_result_schema := (if qg_result_schema g \<noteq> [] then qg_result_schema g else ?inferred)\<rparr>"
    using assms(2) by (auto simp: r conclude_def fl Let_def split: if_splits)
  then have "?ds' = []"
    using errors_only_has_error [of ?ds'] e errors_only_coverage by auto
  then have em: "d1 = []" "d2 = []" "validate_constraint_coverage rg (Some fl) terms windows mode = []" "d4 = []"
      "qg_result_schema g = [] \<or> qg_result_schema g = ?inferred"
    by auto
  show ?thesis
  proof (rule that [OF _ _ ns [unfolded em(2)] fl em(3)])
    show "well_structured g" using st(2) \<open>ok\<close> by simp
    show "check_structure g = Inr ([], True)" using st(1) \<open>ok\<close> em(1) by simp
    show "validate_compilation_mode g (Some fl) m terms windows = Inr []" if "mode = Some m" for m
      using d4 em(4) fl that by simp
    show "g' = g\<lparr>qg_result_schema := ?inferred\<rparr>" using g' em(5) by (cases "qg_result_schema g = []") simp_all
  qed
qed

section \<open>Governed concepts\<close>

text \<open>A concept of the given kind that is enabled, allowed by its query policy and selected for the question.\<close>

definition governed :: "registry \<Rightarrow> string set \<Rightarrow> concept_kind \<Rightarrow> string \<Rightarrow> bool" where
  "governed rg selected kind i \<longleftrightarrow> concept_state rg i kind = Some (True, ALLOW) \<and> i \<in> selected"

definition enabled_member :: "registry \<Rightarrow> string \<Rightarrow> string \<Rightarrow> bool" where
  "enabled_member rg field i \<longleftrightarrow> (\<exists>m. dget (rg_members rg) i = Some (field, m) \<and> om_enabled m)"

definition source_concept :: "registry \<Rightarrow> string set \<Rightarrow> string \<Rightarrow> bool" where
  "source_concept rg s i \<longleftrightarrow> governed rg s FieldConcept i \<or> governed rg s MetricConcept i"

definition column_governed :: "registry \<Rightarrow> string set \<Rightarrow> column \<Rightarrow> bool" where
  "column_governed rg s c \<longleftrightarrow>
     (\<forall>i \<in> cl_concept_lineage c. source_concept rg s i) \<and> (\<forall>e \<in> cl_entities c. governed rg s EntityConcept e)
     \<and> cl_aggregated_concepts c \<subseteq> cl_concept_lineage c"

definition columns_governed :: "registry \<Rightarrow> string set \<Rightarrow> columns \<Rightarrow> bool" where
  "columns_governed rg s cs \<longleftrightarrow> (\<forall>x \<in> set cs. column_governed rg s (snd x))"

definition some_concept :: "registry \<Rightarrow> string set \<Rightarrow> string \<Rightarrow> bool" where
  "some_concept rg s i \<longleftrightarrow> (\<exists>kind. governed rg s kind i)"

definition flow_governed :: "registry \<Rightarrow> string set \<Rightarrow> flow \<Rightarrow> bool" where
  "flow_governed rg s fl \<longleftrightarrow>
     columns_governed rg s (fl_columns fl) \<and> (\<forall>e \<in> fl_entities fl. governed rg s EntityConcept e)
     \<and> (\<forall>i \<in> fl_used_concepts fl \<union> fl_enforcing_concepts fl. some_concept rg s i)
     \<and> (\<forall>m \<in> set (fl_member_constraints fl). \<forall>v \<in> mc_values m. enabled_member rg (mc_field_id m) v)"

lemma validate_concept_empty: "validate_concept rg i k s p = [] \<longleftrightarrow> governed rg s k i"
proof -
  have "concept_exists rg i k \<longleftrightarrow> concept_state rg i k \<noteq> None"
    by (cases k) (simp_all add: concept_exists_def concept_state_def has_entity_def has_field_def has_metric_def has_relation_def)
  then show ?thesis
    by (cases "concept_state rg i k") (auto simp: validate_concept_def governed_def intro: query_policy.exhaust)
qed

lemma columns_governed_simps [simp]: "columns_governed rg s []"
  by (simp add: columns_governed_def)

lemma set_dput: "set (dput k v d) \<subseteq> insert (k, v) (set d)"
  by (induction d) auto

lemma columns_governed_dput:
  "columns_governed rg s cs \<Longrightarrow> column_governed rg s c \<Longrightarrow> columns_governed rg s (dput k c cs)"
  using set_dput [of k c cs] by (auto simp: columns_governed_def)

lemma columns_governed_lookup: "columns_governed rg s cs \<Longrightarrow> dget cs k = Some c \<Longrightarrow> column_governed rg s c"
  by (metis columns_governed_def map_of_SomeD snd_conv)

lemma require_column_empty: "require_column c fl p = ([], info) \<longleftrightarrow> (\<exists>x. info = Some x \<and> dget (fl_columns fl) c = Some x)"
  by (auto simp: require_column_def split: option.splits)

lemma fst_require_column: "fst (require_column c fl p) = [] \<longleftrightarrow> (\<exists>x. dget (fl_columns fl) c = Some x)"
  by (auto simp: require_column_def split: option.splits)

lemma snd_require_column: "snd (require_column c fl p) = dget (fl_columns fl) c"
  by (auto simp: require_column_def split: option.splits)

lemma column_governed_concepts: "column_governed rg s c \<Longrightarrow> i \<in> column_concepts (Some c) \<Longrightarrow> some_concept rg s i"
  by (auto simp: column_governed_def column_concepts_def some_concept_def source_concept_def)

lemma plain_column_governed [simp]: "column_governed rg s (plain_column t es) \<longleftrightarrow> (\<forall>e \<in> es. governed rg s EntityConcept e)"
  by (simp add: column_governed_def plain_column_def)

lemma typed_dicts:
  assumes "registry_ok rg"
  shows "typed_fields rg = rg_fields rg" "typed_metrics rg = rg_metrics rg" "typed_relations rg = rg_relations rg"
  using assms unfolding typed_fields_def typed_metrics_def typed_relations_def registry_ok_def Let_def
  by (simp_all add: dict_of_distinct comp_def)

lemma registry_ids:
  assumes "registry_ok rg"
  shows "dget (rg_fields rg) c = Some f \<Longrightarrow> of_id f = c" "dget (rg_metrics rg) c = Some m \<Longrightarrow> ot_id m = c"
  using assms by (auto simp: registry_ok_def Let_def dest!: map_of_SomeD)

subsection \<open>Selection\<close>

text \<open>A selected column is a governed field or metric of the selected entity.\<close>

definition selected_column :: "registry \<Rightarrow> string set \<Rightarrow> string \<Rightarrow> string \<Rightarrow> bool" where
  "selected_column rg s e c \<longleftrightarrow>
     (\<exists>f. dget (rg_fields rg) c = Some f \<and> governed rg s FieldConcept c \<and> of_entity_id f = e)
     \<or> (\<exists>m. dget (rg_metrics rg) c = Some m \<and> governed rg s MetricConcept c \<and> ot_entity_id m = e)"

lemma select_column_cases:
  assumes "registry_ok rg" "select_column rg e s p i c acc = ([], acc')"
  shows "selected_column rg s e c \<and> (\<exists>x. fst acc' = dput c x (fst acc)
    \<and> (x = field_column (the (dget (rg_fields rg) c)) \<and> dget (rg_fields rg) c \<noteq> None \<and> governed rg s FieldConcept c
       \<or> x = metric_column (the (dget (rg_metrics rg) c)) \<and> dget (rg_fields rg) c = None))"
  using assms(2) typed_dicts [OF assms(1)]
  by (auto simp: select_column_def Let_def validate_concept_empty selected_column_def split: if_splits option.splits)

lemma select_column_governed:
  assumes ok: "registry_ok rg" and e: "governed rg s EntityConcept e"
    and step: "select_column rg e s p i c acc = ([], acc')"
    and acc: "columns_governed rg s (fst acc) \<and> (\<forall>k \<in> set (dkeys (fst acc)). source_concept rg s k)"
  shows "columns_governed rg s (fst acc') \<and> (\<forall>k \<in> set (dkeys (fst acc')). source_concept rg s k)"
proof -
  obtain x where x: "fst acc' = dput c x (fst acc)" and sel: "selected_column rg s e c"
      and k: "x = field_column (the (dget (rg_fields rg) c)) \<and> dget (rg_fields rg) c \<noteq> None \<and> governed rg s FieldConcept c
       \<or> x = metric_column (the (dget (rg_metrics rg) c)) \<and> dget (rg_fields rg) c = None"
    using select_column_cases [OF ok step] by blast
  have c: "source_concept rg s c" using sel by (auto simp: selected_column_def source_concept_def)
  have "distinct (map oe_id (od_entities (rg_document rg)) @ map of_id (od_fields (rg_document rg)) @ map ot_id (od_metrics (rg_document rg)) @ map or_id (od_relations (rg_document rg)))"
    using ok by (simp add: registry_ok_def Let_def)
  then have disj: "dget (rg_fields rg) c = None \<or> dget (rg_metrics rg) c = None"
    using ok by (auto simp: registry_ok_def Let_def map_of_eq_None_iff dest!: map_of_SomeD)
  have "column_governed rg s x"
    using k
  proof
    assume a: "x = field_column (the (dget (rg_fields rg) c)) \<and> dget (rg_fields rg) c \<noteq> None \<and> governed rg s FieldConcept c"
    then obtain f where f: "dget (rg_fields rg) c = Some f" by auto
    with sel disj have "of_entity_id f = e" by (auto simp: selected_column_def)
    then show ?thesis
      using a f e registry_ids(1) [OF ok f] by (auto simp: column_governed_def field_column_def source_concept_def)
  next
    assume a: "x = metric_column (the (dget (rg_metrics rg) c)) \<and> dget (rg_fields rg) c = None"
    then obtain m where m: "dget (rg_metrics rg) c = Some m" "ot_entity_id m = e"
      using sel by (auto simp: selected_column_def)
    then show ?thesis
      using a e c registry_ids(2) [OF ok m(1)] by (auto simp: column_governed_def metric_column_def plain_column_def)
  qed
  then show ?thesis
    using acc c set_dput [of c x "fst acc"] by (auto simp: x dkeys_def intro: columns_governed_dput)
qed

lemma select_flow_governed:
  assumes "registry_ok rg" "select_flow rg e cs p s = ([], fl)"
  shows "flow_governed rg s fl \<and> governed rg s EntityConcept e \<and> (\<forall>c \<in> set cs. selected_column rg s e c)"
proof -
  obtain acc where e: "governed rg s EntityConcept e"
      and acc: "check_fold (select_column rg e s p) 0 cs ([], {}) = ([], acc)"
      and fl: "fl = \<lparr>fl_columns = fst acc, fl_grain = snd acc, fl_entities = {e}, fl_used_concepts = insert e (set (dkeys (fst acc))),
        fl_enforcing_concepts = {}, fl_member_constraints = [], fl_time_constraints = []\<rparr>"
    using assms(2) by (auto simp: select_flow_def Let_def validate_concept_empty split: prod.splits)
  have "columns_governed rg s (fst acc) \<and> (\<forall>k \<in> set (dkeys (fst acc)). source_concept rg s k)"
    using acc by (rule check_fold_inv) (simp add: dkeys_def, rule select_column_governed [OF assms(1) e])
  moreover have "selected_column rg s e c" if "c \<in> set cs" for c
    using check_fold_each [OF acc that] select_column_cases [OF assms(1)] by blast
  ultimately show ?thesis
    using e by (auto simp: fl flow_governed_def some_concept_def source_concept_def)
qed

subsection \<open>Other operators\<close>

abbreviation governed_acc :: "registry \<Rightarrow> string set \<Rightarrow> columns \<times> string set \<Rightarrow> bool" where
  "governed_acc rg s acc \<equiv> columns_governed rg s (fst acc) \<and> (\<forall>i \<in> snd acc. some_concept rg s i)"

lemma flow_governedD:
  assumes "flow_governed rg s fl"
  shows "columns_governed rg s (fl_columns fl)" "\<And>i. i \<in> fl_enforcing_concepts fl \<Longrightarrow> some_concept rg s i"
    "\<And>e. e \<in> fl_entities fl \<Longrightarrow> governed rg s EntityConcept e" "\<And>i. i \<in> fl_used_concepts fl \<Longrightarrow> some_concept rg s i"
    "\<And>m v. m \<in> set (fl_member_constraints fl) \<Longrightarrow> v \<in> mc_values m \<Longrightarrow> enabled_member rg (mc_field_id m) v"
  using assms by (auto simp: flow_governed_def)

lemma flow_governed_update:
  assumes "flow_governed rg s fl" "columns_governed rg s cs" "\<And>i. i \<in> enf \<Longrightarrow> some_concept rg s i"
  shows "flow_governed rg s (fl\<lparr>fl_columns := cs, fl_grain := gr, fl_enforcing_concepts := enf\<rparr>)"
  using assms by (auto simp: flow_governed_def)

lemma group_column_governed:
  assumes "flow_governed rg s fl" "group_column fl p i g acc = ([], acc')" "governed_acc rg s acc"
  shows "governed_acc rg s acc'"
proof -
  note col = columns_governed_lookup [OF flow_governedD(1) [OF assms(1)]]
  show ?thesis
    using assms(2,3)
    by (auto simp: group_column_def Let_def require_column_empty case_prod_beta fst_require_column snd_require_column
      split: if_splits option.splits intro: columns_governed_dput [OF _ col] column_governed_concepts [OF col])
qed

lemma measure_column_governed:
  assumes "flow_governed rg s fl" "measure_column fl p i m cs = ([], cs')" "columns_governed rg s cs"
  shows "columns_governed rg s cs'"
proof -
  obtain c where c: "dget (fl_columns fl) (am_source m) = Some c" "cs' = dput (am_output m) (measure_output fl (Some c)) cs"
    using assms(2) by (auto simp: measure_column_def Let_def case_prod_beta fst_require_column snd_require_column split: if_splits)
  have "column_governed rg s (measure_output fl (Some c))"
    using columns_governed_lookup [OF flow_governedD(1) [OF assms(1)] c(1)]
    by (auto simp: column_governed_def measure_output_def plain_column_def)
  then show ?thesis using assms(3) c(2) by (simp add: columns_governed_dput)
qed

lemma aggregate_flow_governed:
  assumes "flow_governed rg s fl" "aggregate_flow gs ms fl p = ([], fl')"
  shows "flow_governed rg s fl'"
proof -
  obtain acc cs where acc: "check_fold (group_column fl p) 0 gs ([], fl_enforcing_concepts fl) = ([], acc)"
      and cs: "check_fold (measure_column fl p) 0 ms (fst acc) = ([], cs)"
      and fl': "fl' = fl\<lparr>fl_columns := cs, fl_grain := set gs, fl_enforcing_concepts := snd acc\<rparr>"
    using assms(2) by (auto simp: aggregate_flow_def Let_def split: prod.splits)
  have a: "governed_acc rg s acc"
    using acc by (rule check_fold_inv) (simp add: flow_governedD(2) [OF assms(1)], rule group_column_governed [OF assms(1)])
  have "columns_governed rg s cs"
    using cs by (rule check_fold_inv) (use a in simp, rule measure_column_governed [OF assms(1)])
  with a show ?thesis unfolding fl' by (intro flow_governed_update [OF assms(1)]) auto
qed

lemma index_column_governed:
  assumes "flow_governed rg s fl" "index_column fl p i c acc = ([], acc')" "governed_acc rg s acc"
  shows "governed_acc rg s acc'"
proof -
  note col = columns_governed_lookup [OF flow_governedD(1) [OF assms(1)]]
  show ?thesis
    using assms(2,3)
    by (auto simp: index_column_def require_column_empty
      split: prod.splits option.splits intro: columns_governed_dput [OF _ col] column_governed_concepts [OF col])
qed

lemma pivot_column_governed:
  assumes "column_governed rg s c" "pivot_column fl (Some c) p i v cs = ([], cs')" "columns_governed rg s cs"
  shows "columns_governed rg s cs'"
proof -
  have "column_governed rg s (pivot_output fl (Some c))"
    using assms(1) by (simp add: column_governed_def pivot_output_def)
  then show ?thesis using assms(2,3) by (auto simp: pivot_column_def split: if_splits intro: columns_governed_dput)
qed

lemma pivot_flow_governed:
  assumes "flow_governed rg s fl" "pivot_flow ix c v vs fl p = ([], fl')"
  shows "flow_governed rg s fl'"
proof -
  obtain acc ci vi cs where acc: "check_fold (index_column fl p) 0 ix ([], fl_enforcing_concepts fl) = ([], acc)"
      and ci: "dget (fl_columns fl) c = Some ci" and vi: "dget (fl_columns fl) v = Some vi"
      and cs: "check_fold (pivot_column fl (Some vi) p) 0 vs (fst acc) = ([], cs)"
      and fl': "fl' = fl\<lparr>fl_columns := cs, fl_grain := set ix,
        fl_enforcing_concepts := snd acc \<union> column_concepts (Some ci) \<union> column_concepts (Some vi)\<rparr>"
    using assms(2) by (auto simp: pivot_flow_def Let_def require_column_empty split: prod.splits)
  note col = columns_governed_lookup [OF flow_governedD(1) [OF assms(1)]]
  have a: "governed_acc rg s acc"
    using acc by (rule check_fold_inv) (simp add: flow_governedD(2) [OF assms(1)], rule index_column_governed [OF assms(1)])
  have "columns_governed rg s cs"
    using cs by (rule check_fold_inv) (use a in simp, rule pivot_column_governed [OF col [OF vi]])
  with a show ?thesis
    unfolding fl' by (intro flow_governed_update [OF assms(1)]) (auto intro: column_governed_concepts [OF col [OF ci]] column_governed_concepts [OF col [OF vi]])
qed

lemma operand_info_governed:
  assumes "flow_governed rg s fl" "operand_info e fl p = ([], info)"
  shows "\<exists>c. info = Some c \<and> column_governed rg s c"
  using assms columns_governed_lookup [OF flow_governedD(1) [OF assms(1)]]
  by (auto simp: operand_info_def require_column_empty split: operand.splits)

lemma expression_info_governed:
  assumes "flow_governed rg s fl" "expression_info e fl p = ([], info)"
  shows "\<exists>c. info = Some c \<and> column_governed rg s c"
proof (cases e)
  case (Operand x)
  with assms operand_info_governed [OF assms(1)] show ?thesis by (auto simp: expression_info_def)
next
  case (Binary op l r)
  then obtain li ri where i: "operand_info l fl (p @ ''.left'') = ([], li)" "operand_info r fl (p @ ''.right'') = ([], ri)"
      and info: "info = Some ((plain_column NUMBER (info_set cl_entities li \<union> info_set cl_entities ri))
                \<lparr>cl_concept_lineage := info_set cl_concept_lineage li \<union> info_set cl_concept_lineage ri,
                 cl_aggregated_concepts := info_set cl_aggregated_concepts li \<union> info_set cl_aggregated_concepts ri,
                 cl_constraint_eligible := False\<rparr>)"
    using assms(2) by (auto simp: expression_info_def Let_def split: prod.splits)
  obtain lc rc where "li = Some lc" "column_governed rg s lc" "ri = Some rc" "column_governed rg s rc"
    using operand_info_governed [OF assms(1) i(1)] operand_info_governed [OF assms(1) i(2)] by blast
  then show ?thesis unfolding info by (auto simp: column_governed_def plain_column_def info_set_def)
qed

lemma derive_column_governed:
  assumes "flow_governed rg s fl" "derive_column fl p i d cs = ([], cs')" "columns_governed rg s cs"
  shows "columns_governed rg s cs'"
proof -
  obtain info where info: "expression_info (dc_expression d) fl (path_item (p @ ''.parameters.columns'') i @ ''.expression'') = ([], info)"
      and cs': "cs' = dput (dc_output d) (derived_output fl (dc_data_type d) info) cs"
    using assms(2) by (auto simp: derive_column_def Let_def split: if_splits prod.splits)
  obtain c where c: "info = Some c" "column_governed rg s c" using expression_info_governed [OF assms(1) info] by blast
  then have "column_governed rg s (derived_output fl (dc_data_type d) info)"
    by (simp add: column_governed_def derived_output_def)
  then show ?thesis using assms(3) cs' by (simp add: columns_governed_dput)
qed

lemma derive_flow_governed:
  assumes "flow_governed rg s fl" "derive_flow ds fl p = ([], fl')"
  shows "flow_governed rg s fl'"
proof -
  obtain cs where cs: "check_fold (derive_column fl p) 0 ds (fl_columns fl) = ([], cs)" and fl': "fl' = fl\<lparr>fl_columns := cs\<rparr>"
    using assms(2) by (auto simp: derive_flow_def split: prod.splits)
  have "columns_governed rg s cs"
    using cs by (rule check_fold_inv) (rule flow_governedD(1) [OF assms(1)], rule derive_column_governed [OF assms(1)])
  then show ?thesis using assms(1) by (simp add: fl' flow_governed_def)
qed

lemma project_column_governed:
  assumes "flow_governed rg s fl" "project_column fl p i j acc = ([], acc')" "columns_governed rg s (fst acc)"
  shows "columns_governed rg s (fst acc')"
proof -
  note col = columns_governed_lookup [OF flow_governedD(1) [OF assms(1)]]
  show ?thesis
    using assms(2,3)
    by (auto simp: project_column_def Let_def case_prod_beta fst_require_column snd_require_column
      split: if_splits option.splits intro: columns_governed_dput [OF _ col])
qed

lemma project_flow_governed:
  assumes "flow_governed rg s fl" "project_flow ps fl p = ([], fl')"
  shows "flow_governed rg s fl'"
proof -
  obtain acc where acc: "check_fold (project_column fl p) 0 ps ([], {}) = ([], acc)"
      and fl': "fl' = fl\<lparr>fl_columns := fst acc, fl_grain := snd acc\<rparr>"
    using assms(2) by (auto simp: project_flow_def Let_def split: prod.splits)
  have "columns_governed rg s (fst acc)"
    using acc by (rule check_fold_inv) (simp, rule project_column_governed [OF assms(1)])
  then show ?thesis using assms(1) by (simp add: fl' flow_governed_def)
qed

lemma sort_flow_governed:
  assumes "flow_governed rg s fl" "sort_flow ks fl p = ([], fl')"
  shows "flow_governed rg s fl'"
proof -
  obtain enf where enf: "check_fold (sort_key_concepts fl p) 0 ks (fl_enforcing_concepts fl) = ([], enf)"
      and fl': "fl' = fl\<lparr>fl_enforcing_concepts := enf\<rparr>"
    using assms(2) by (auto simp: sort_flow_def split: prod.splits)
  note col = columns_governed_lookup [OF flow_governedD(1) [OF assms(1)]]
  have "\<forall>i \<in> enf. some_concept rg s i"
    using enf
  proof (rule check_fold_inv)
    fix j k t t' assume "sort_key_concepts fl p j k t = ([], t')" "\<forall>i \<in> t. some_concept rg s i"
    then show "\<forall>i \<in> t'. some_concept rg s i"
      by (auto simp: sort_key_concepts_def require_column_empty split: prod.splits intro: column_governed_concepts [OF col])
  qed (use flow_governedD(2) [OF assms(1)] in auto)
  then show ?thesis using assms(1) by (auto simp: fl' flow_governed_def)
qed

lemma join_flow_governed:
  assumes "flow_governed rg s l" "flow_governed rg s r" "join_flow rg rel lk rk jt l r p s = ([], fl)"
  shows "flow_governed rg s fl \<and> governed rg s RelationConcept rel"
proof -
  obtain li ri cs where rel: "governed rg s RelationConcept rel" and li: "dget (fl_columns l) lk = Some li"
      and ri: "dget (fl_columns r) rk = Some ri" and cs: "check_fold (join_column p) 0 (fl_columns r) (fl_columns l) = ([], cs)"
      and fl: "fl = \<lparr>fl_columns = cs, fl_grain = fl_grain l \<union> fl_grain r, fl_entities = fl_entities l \<union> fl_entities r,
           fl_used_concepts = insert rel (fl_used_concepts l \<union> fl_used_concepts r),
           fl_enforcing_concepts = insert rel (fl_enforcing_concepts l \<union> fl_enforcing_concepts r
             \<union> column_concepts (Some li) \<union> column_concepts (Some ri) \<union> fl_entities l \<union> fl_entities r),
           fl_member_constraints = fl_member_constraints l
             @ map (\<lambda>m. if jt \<noteq> INNER then m\<lparr>mc_source_enforcing := False\<rparr> else m) (fl_member_constraints r),
           fl_time_constraints = fl_time_constraints l
             @ map (\<lambda>t. if jt \<noteq> INNER then t\<lparr>tc_source_enforcing := False\<rparr> else t) (fl_time_constraints r)\<rparr>"
    using assms(3) by (auto simp: join_flow_def Let_def require_column_empty validate_concept_empty split: prod.splits)
  note lcol = columns_governed_lookup [OF flow_governedD(1) [OF assms(1)]]
    and rcol = columns_governed_lookup [OF flow_governedD(1) [OF assms(2)]]
  have "columns_governed rg s cs"
    using cs
  proof (rule check_fold_inv)
    fix j x t t' assume "x \<in> set (fl_columns r)" "join_column p j x t = ([], t')" "columns_governed rg s t"
    then show "columns_governed rg s t'"
      using flow_governedD(1) [OF assms(2)]
      by (auto simp: join_column_def columns_governed_def split: if_splits dest!: set_dput [THEN subsetD])
  qed (rule flow_governedD(1) [OF assms(1)])
  moreover have "enabled_member rg (mc_field_id m) v"
    if "m \<in> set (map (\<lambda>m. if jt \<noteq> INNER then m\<lparr>mc_source_enforcing := False\<rparr> else m) (fl_member_constraints r))" "v \<in> mc_values m" for m v
    using that flow_governedD(5) [OF assms(2)] by (auto split: if_splits)
  moreover have "some_concept rg s i" if "i \<in> fl_used_concepts fl \<union> fl_enforcing_concepts fl" for i
  proof -
    have "some_concept rg s rel" "\<And>e. governed rg s EntityConcept e \<Longrightarrow> some_concept rg s e"
      using rel by (auto simp: some_concept_def)
    with that show ?thesis
      using flow_governedD(2-4) [OF assms(1)] flow_governedD(2-4) [OF assms(2)]
        column_governed_concepts [OF lcol [OF li]] column_governed_concepts [OF rcol [OF ri]]
      unfolding fl flow.simps by blast
  qed
  moreover have "governed rg s EntityConcept e" if "e \<in> fl_entities fl" for e
    using that flow_governedD(3) [OF assms(1)] flow_governedD(3) [OF assms(2)] unfolding fl flow.simps by blast
  ultimately show ?thesis
    using rel flow_governedD(5) [OF assms(1)] unfolding flow_governed_def
    by (simp only: fl flow.simps set_append) blast
qed

subsection \<open>Filters\<close>

lemma check_value_member:
  assumes "check_value rg c op p v = []" "cl_member_domain c = Some f"
  shows "\<exists>m. v = SString m \<and> enabled_member rg f m"
  using assms by (auto simp: check_value_def enabled_member_def split: scalar.splits option.splits if_splits)

lemma check_values_empty:
  assumes "check_values rg c op p vs = []" "v \<in> set vs"
  shows "\<exists>q. check_value rg c op q v = []"
proof -
  obtain i where "i < length vs" "vs ! i = v" using assms(2) by (metis in_set_conv_nth)
  then have "(i, v) \<in> set (enumerate 0 vs)" by (simp add: in_set_enumerate_eq)
  then show ?thesis using assms(1) unfolding check_values_def by fastforce
qed

text \<open>A filter on a member domain that passes is a positive predicate on enabled members of that domain.\<close>

definition member_predicate :: "registry \<Rightarrow> string \<Rightarrow> predicate \<Rightarrow> string list \<Rightarrow> bool" where
  "member_predicate rg f p ms \<longleftrightarrow>
     ms \<noteq> [] \<and> (\<forall>m \<in> set ms. enabled_member rg f m)
     \<and> (pr_operator p = EQ \<and> ms = [hd ms] \<and> pr_value p = PScalar (SString (hd ms))
        \<or> pr_operator p = IN \<and> pr_value p = PList (map SString ms))"

lemma all_texts: "\<forall>v \<in> set vs. \<exists>m. v = SString m \<and> P m \<Longrightarrow> \<exists>ms. vs = map SString ms \<and> (\<forall>m \<in> set ms. P m)"
proof (induction vs)
  case (Cons v vs)
  then obtain m ms where "v = SString m" "P m" "vs = map SString ms" "\<forall>m \<in> set ms. P m" by auto
  then show ?case by (intro exI [of _ "m # ms"]) auto
qed simp

lemma member_predicate_shape:
  assumes "validate_predicate rg p fl path = []" "dget (fl_columns fl) (pr_column p) = Some c" "cl_member_domain c = Some f"
  obtains ms where "member_predicate rg f p ms"
proof -
  have op: "pr_operator p = EQ \<or> pr_operator p = IN"
    using assms by (auto simp: validate_predicate_def Let_def require_column_def)
  show ?thesis
  proof (cases "pr_operator p = IN")
    case True
    then obtain v vs where v: "pr_value p = PList (v # vs)" "check_values rg c IN (path @ ''.parameters.predicate.value'') (v # vs) = []"
      using assms by (auto simp: validate_predicate_def Let_def require_column_def split: predicate_value.splits list.splits)
    have "\<forall>x \<in> set (v # vs). \<exists>m. x = SString m \<and> enabled_member rg f m"
      using check_values_empty [OF v(2)] check_value_member assms(3) by blast
    then obtain ms where "v # vs = map SString ms" "\<forall>m \<in> set ms. enabled_member rg f m" using all_texts by metis
    then show ?thesis using that [of ms] True v(1) by (auto simp: member_predicate_def)
  next
    case False
    then obtain v where v: "pr_value p = PScalar v" "check_value rg c EQ (path @ ''.parameters.predicate.value'') v = []" "pr_operator p = EQ"
      using assms op by (auto simp: validate_predicate_def Let_def require_column_def split: predicate_value.splits)
    then obtain m where "v = SString m" "enabled_member rg f m" using check_value_member [OF v(2) assms(3)] by blast
    then show ?thesis using that [of "[m]"] v by (auto simp: member_predicate_def)
  qed
qed

lemma predicate_members_shape:
  assumes "member_predicate rg f p ms"
  shows "predicate_members rg (pr_value p) = set ms"
proof -
  have "has_member rg m" if "m \<in> set ms" for m
    using assms that by (auto simp: member_predicate_def enabled_member_def has_member_def)
  then show ?thesis
    using assms by (cases ms) (auto simp: member_predicate_def predicate_members_def)
qed

lemma filtered_flow_governed:
  assumes "flow_governed rg s fl" "validate_predicate rg p fl path = []"
  shows "flow_governed rg s (filtered_flow rg p fl)"
proof (cases "dget (fl_columns fl) (pr_column p)")
  case None
  then show ?thesis using assms(1) by (simp add: filtered_flow_def)
next
  case (Some c)
  have c: "column_governed rg s c" using columns_governed_lookup [OF flow_governedD(1) [OF assms(1)] Some] .
  have m: "enabled_member rg f v"
    if mem: "cl_member_domain c = Some f" "v \<in> predicate_members rg (pr_value p)" for f v
  proof -
    obtain ms where "member_predicate rg f p ms" using member_predicate_shape [OF assms(2) Some mem(1)] .
    then show ?thesis using mem(2) predicate_members_shape by (auto simp: member_predicate_def)
  qed
  show ?thesis
    using flow_governedD [OF assms(1)] column_governed_concepts [OF c] m
    unfolding flow_governed_def filtered_flow_def Some
    by (auto simp: column_concepts_def split: option.splits)
qed

subsection \<open>Graphs\<close>

text \<open>What an accepted node may name.\<close>

definition node_governed :: "registry \<Rightarrow> string set \<Rightarrow> node \<Rightarrow> bool" where
  "node_governed rg s n \<longleftrightarrow>
     (case nd_parameters n of
        SelectParameters e cs \<Rightarrow> governed rg s EntityConcept e \<and> (\<forall>c \<in> set cs. selected_column rg s e c)
      | JoinParameters rel lk rk jt \<Rightarrow> governed rg s RelationConcept rel
      | _ \<Rightarrow> True)"

lemma operator_flow_governed:
  assumes "operator_flow rg s p ps ins = Inr ([], fl)" "\<forall>f \<in> set ins. flow_governed rg s f" "parameters_kind ps \<noteq> SELECT"
  shows "flow_governed rg s fl \<and> (\<forall>rel lk rk jt. ps = JoinParameters rel lk rk jt \<longrightarrow> governed rg s RelationConcept rel)"
proof -
  have f: "list_item ins 0 = Inr (ins ! 0)" "ins \<noteq> []" using assms(1) by (auto simp: operator_flow_def)
  then have g: "flow_governed rg s (ins ! 0)" using assms(2) by auto
  note step = aggregate_flow_governed [OF g] pivot_flow_governed [OF g] derive_flow_governed [OF g] project_flow_governed [OF g]
    sort_flow_governed [OF g] filtered_flow_governed [OF g] join_flow_governed [OF g]
  show ?thesis
  proof (cases ps)
    case (JoinParameters rel lk rk jt)
    then obtain r where r: "list_item ins 1 = Inr r" "join_flow rg rel lk rk jt (ins ! 0) r p s = ([], fl)"
      using assms(1) f by (auto simp: operator_flow_def)
    then have "flow_governed rg s r" using assms(2) by auto
    then show ?thesis using step(7) r(2) JoinParameters by blast
  qed (use assms(1,3) f in \<open>auto simp: operator_flow_def intro: step\<close>)
qed

lemma those_member: "those (map h xs) = Some ys \<Longrightarrow> y \<in> set ys \<Longrightarrow> \<exists>x \<in> set xs. h x = Some y"
  by (induction xs arbitrary: ys) (auto split: option.splits)

lemma validate_node_governed:
  assumes "registry_ok rg" "validate_node rg s i n flows = Inr ([], out)"
    and "\<forall>x \<in> set flows. flow_governed rg s (snd x)"
  shows "\<exists>fl. out = Some fl \<and> flow_governed rg s fl \<and> (nd_operator n = parameters_kind (nd_parameters n)) \<and> node_governed rg s n"
proof (cases "is_select_node n")
  case True
  then show ?thesis
  proof (rule is_select_nodeE [where rg = rg and selected = s and i = i and flows = flows])
    fix e cs assume p: "nd_parameters n = SelectParameters e cs" "nd_operator n = SELECT"
      and v: "validate_node rg s i n flows = Inr (map_prod id Some (select_flow rg e cs (node_path i) s))"
    then obtain fl where fl: "select_flow rg e cs (node_path i) s = ([], fl)" "out = Some fl"
      using assms(2) by (cases "select_flow rg e cs (node_path i) s") auto
    show ?thesis
      using select_flow_governed [OF assms(1) fl(1)] fl(2) p by (simp add: node_governed_def)
  qed
next
  case False
  then obtain ins fl where ins: "those (map (dget flows) (nd_dependencies n)) = Some ins"
      and op: "nd_operator n = parameters_kind (nd_parameters n)"
      and fl: "operator_flow rg s (node_path i) (nd_parameters n) ins = Inr ([], fl)" "out = Some fl"
    using assms(2) by (auto simp: validate_node_inner split: option.splits if_splits)
  have "\<forall>f \<in> set ins. flow_governed rg s f"
    using those_member [OF ins] assms(3) by (metis map_of_SomeD snd_conv)
  then have "flow_governed rg s fl \<and> (\<forall>rel lk rk jt. nd_parameters n = JoinParameters rel lk rk jt \<longrightarrow> governed rg s RelationConcept rel)"
    using operator_flow_governed [OF fl(1)] False op by (auto simp: is_select_node_def)
  then show ?thesis
    using fl(2) op False by (auto simp: node_governed_def is_select_node_def split: node_parameters.splits)
qed

lemma validate_nodes_governed:
  assumes "registry_ok rg" "validate_nodes rg s i ns flows = Inr ([], flows')"
    and "\<forall>x \<in> set flows. flow_governed rg s (snd x)"
  shows "(\<forall>x \<in> set flows'. flow_governed rg s (snd x)) \<and> (\<forall>n \<in> set ns. node_governed rg s n)"
  using assms(2,3)
proof (induction ns arbitrary: i flows)
  case (Cons n ns)
  obtain out where out: "validate_node rg s i n flows = Inr ([], out)"
      "validate_nodes rg s (Suc i) ns (record_flow (nd_id n) out flows) = Inr ([], flows')"
    using Cons.prems(1) by auto
  obtain fl where fl: "out = Some fl" "flow_governed rg s fl" "node_governed rg s n"
    using validate_node_governed [OF assms(1) out(1) Cons.prems(2)] by blast
  have "\<forall>x \<in> set (record_flow (nd_id n) out flows). flow_governed rg s (snd x)"
    using Cons.prems(2) fl set_dput [of "nd_id n" fl flows] by (auto simp: record_flow_def)
  then show ?case using Cons.IH [OF out(2)] fl(3) by simp
qed simp

section \<open>Verdicts\<close>

lemma node_structures_silent: "check_fold (node_structure ps) i ns ok = ([], ok') \<Longrightarrow> ok' = ok"
proof (induction ns arbitrary: i ok)
  case (Cons n ns)
  obtain ok1 where s: "node_structure ps i n ok = ([], ok1)" "check_fold (node_structure ps) (Suc i) ns ok1 = ([], ok')"
    using Cons.prems unfolding check_fold_Cons_empty by blast
  have "ok1 = ok" using s(1) by (auto simp: node_structure_def Let_def)
  then show ?case using Cons.IH [OF s(2)] by simp
qed simp

lemma check_structure_silent: "check_structure g = Inr ([], ok) \<Longrightarrow> ok"
  by (auto simp: check_structure_def Let_def split: prod.splits if_splits dest!: node_structures_silent)

lemma map_prod_Some: "map_prod id Some p = (d, out) \<Longrightarrow> out = Some (snd p)"
  by (cases p) simp

lemma validate_node_silent: "validate_node rg s i n flows = Inr ([], out) \<Longrightarrow> out \<noteq> None"
  by (cases "is_select_node n")
    (auto elim!: is_select_nodeE [where rg = rg and selected = s and i = i and flows = flows]
      simp: validate_node_inner dest!: map_prod_Some split: option.splits if_splits)

lemma validate_nodes_silent:
  "validate_nodes rg s i ns flows = Inr ([], flows') \<Longrightarrow> dom (dget flows') = dom (dget flows) \<union> nd_id ` set ns"
proof (induction ns arbitrary: i flows)
  case (Cons n ns)
  obtain out where out: "validate_node rg s i n flows = Inr ([], out)"
      "validate_nodes rg s (Suc i) ns (record_flow (nd_id n) out flows) = Inr ([], flows')"
    using Cons.prems by auto
  obtain fl where "out = Some fl" using validate_node_silent [OF out(1)] by auto
  with Cons.IH [OF out(2)] show ?case by (auto simp: record_flow_def dom_update)
qed simp

text \<open>A result is a verdict: the graph is returned exactly when nothing was diagnosed.\<close>

definition verdict :: "validation_result \<Rightarrow> bool" where
  "verdict r \<longleftrightarrow> (vr_normalized r = None \<longleftrightarrow> vr_diagnostics r \<noteq> []) \<and> errors_only (vr_diagnostics r)"

lemma conclude_verdict:
  assumes "errors_only ds" "ds = [] \<Longrightarrow> dget flows (qg_output_node_id g) \<noteq> None"
  shows "verdict (conclude g flows ds)"
  using assms by (auto simp: verdict_def conclude_def Let_def errors_only_has_error split: option.splits)

lemma validate_verdict: "\<exists>r. validate rg candidate sx terms windows mode = Inr r \<and> verdict r"
proof (cases candidate)
  case None
  then show ?thesis by (simp add: validate_def schema_invalid_def verdict_def errors_only_def)
next
  case (Some g)
  obtain d1 ok where st: "check_structure g = Inr (d1, ok)" "ok \<longrightarrow> well_structured g"
    using check_structure_total by blast
  consider "\<not> sqg_ok g" | "sqg_ok g" "\<not> ok" | "sqg_ok g" "ok" by blast
  then show ?thesis
  proof cases
    case 1
    then show ?thesis by (simp add: Some validate_def schema_invalid_def verdict_def errors_only_def)
  next
    case 2
    have "verdict (conclude g [] d1)"
      using check_structure_silent [of g ok] errors_only_structure [OF st(1)] st(1) 2 by (intro conclude_verdict) auto
    then show ?thesis using 2 st(1) by (simp add: Some validate_def)
  next
    case 3
    then have ws: "well_structured g" using st(2) by simp
    have "\<forall>n \<in> set (qg_nodes g). length (nd_dependencies n) = expected_inputs (nd_operator n)"
      using ws unfolding well_structured_def by (metis in_set_conv_nth)
    then obtain d2 flows where ns: "validate_nodes rg (selected_ids sx) 0 (qg_nodes g) [] = Inr (d2, flows)"
      using validate_nodes_total by (metis surj_pair)
    let ?out = "dget flows (qg_output_node_id g)"
    let ?d3 = "validate_constraint_coverage rg ?out terms windows mode"
    obtain d4 where d4: "(case mode of None \<Rightarrow> Inr [] | Some m \<Rightarrow> validate_compilation_mode g ?out m terms windows) = Inr d4"
      using mode_check_total [OF ws, of ?out _ terms windows] by (cases mode) (simp, metis option.simps(5))
    have e: "errors_only (d1 @ d2 @ ?d3 @ d4)"
      using errors_only_structure [OF st(1)] errors_only_nodes [OF ns] errors_only_coverage d4 errors_only_mode
      by (auto split: option.splits)
    have "?out \<noteq> None" if "d1 @ d2 @ ?d3 @ d4 = []"
      using validate_nodes_silent [of rg "selected_ids sx" 0 "qg_nodes g" "[]" flows] ns that ws
      by (auto simp: well_structured_def node_ids_of_def)
    then have "verdict (conclude g flows (d1 @ d2 @ ?d3 @ d4))" by (rule conclude_verdict [OF e])
    then show ?thesis using 3 st(1) ns d4 by (simp add: Some validate_def Let_def)
  qed
qed

section \<open>A sample question\<close>

definition sample_document :: ontology_document where
  "sample_document = \<lparr>od_ontology_id = ''synthetic-commerce'', od_version = ''2026.1'',
     od_entities = [\<lparr>oe_id = ''commerce.sales_record'', oe_label = ''Sales record'', oe_synonyms = [''sales''], oe_enabled = True,
       oe_query_policy = ALLOW\<rparr>],
     od_fields = [\<lparr>of_id = region_field, of_entity_id = ''commerce.sales_record'', of_label = ''Region'', of_data_type = STRING,
         of_synonyms = [''regional''], of_members = [\<lparr>om_id = ''region.east'', om_label = ''East'', om_synonyms = [], om_enabled = True\<rparr>,
           \<lparr>om_id = ''region.west'', om_label = ''West'', om_synonyms = [], om_enabled = True\<rparr>], of_enabled = True, of_query_policy = ALLOW\<rparr>,
       \<lparr>of_id = period_field, of_entity_id = ''commerce.sales_record'', of_label = ''Period'', of_data_type = DATETIME,
         of_synonyms = [], of_members = [], of_enabled = True, of_query_policy = ALLOW\<rparr>],
     od_metrics = [\<lparr>ot_id = profit_metric, ot_entity_id = ''commerce.sales_record'', ot_label = ''Profit'', ot_data_type = NUMBER,
         ot_synonyms = [], ot_enabled = True, ot_query_policy = ALLOW\<rparr>],
     od_relations = []\<rparr>"

definition sample_registry :: registry where
  "sample_registry = (case new_registry sample_document of Inr rg \<Rightarrow> rg)"

definition sample_terms :: "resolved_term list" where
  "sample_terms = [\<lparr>rt_source_text = ''East'', rt_kind = TERM_MEMBER, rt_machine_id = ''region.east'', rt_resolution_source = LABEL\<rparr>,
     \<lparr>rt_source_text = ''profit'', rt_kind = TERM_METRIC, rt_machine_id = profit_metric, rt_resolution_source = LABEL\<rparr>]"

definition sample_window :: time_window where
  "sample_window = \<lparr>tw_source_text = ''last quarter'', tw_start = \<lparr>ts_local = 1767225600000000, ts_offset = Some 0\<rparr>,
     tw_end_exclusive = \<lparr>ts_local = 1775001600000000, ts_offset = Some 0\<rparr>, tw_timezone = ''UTC'', tw_grain = QUARTER\<rparr>"

definition sample_context :: semantic_context where
  "sample_context = (case retrieve sample_registry ''profit by region and period'' sample_terms [] of Inr sx \<Rightarrow> sx)"

definition sample_node :: "string \<Rightarrow> operator \<Rightarrow> string list \<Rightarrow> node_parameters \<Rightarrow> node" where
  "sample_node i op ds ps = \<lparr>nd_id = i, nd_name = i, nd_operator = op, nd_dependencies = ds, nd_parameters = ps\<rparr>"

definition sample_candidate :: "string \<Rightarrow> sqg" where
  "sample_candidate member = \<lparr>qg_nodes = [
      sample_node ''a'' SELECT [] (SelectParameters ''commerce.sales_record'' [region_field, period_field, profit_metric]),
      sample_node ''b'' FILTER [''a''] (FilterParameters \<lparr>pr_column = region_field, pr_operator = EQ, pr_value = PScalar (SString member)\<rparr>),
      sample_node ''c'' FILTER [''b''] (FilterParameters \<lparr>pr_column = period_field, pr_operator = BETWEEN,
        pr_value = PMap [(''start'', ''2026-01-01T00:00:00+00:00''), (''end_exclusive'', ''2026-04-01T00:00:00+00:00'')]\<rparr>),
      sample_node ''d'' AGGREGATE [''c''] (AggregateParameters [region_field, period_field]
        [\<lparr>am_source = profit_metric, am_output = ''profit'', am_function = FN_SUM\<rparr>]),
      sample_node ''e'' SORT [''d''] (SortParameters [(''profit'', DESC)]),
      sample_node ''f'' PROJECT [''e''] (ProjectParameters [\<lparr>pj_source = region_field, pj_alias = ''region''\<rparr>,
        \<lparr>pj_source = period_field, pj_alias = ''period''\<rparr>, \<lparr>pj_source = ''profit'', pj_alias = ''profit''\<rparr>])],
    qg_output_node_id = ''f'', qg_result_schema = []\<rparr>"

definition sample_validation :: "string \<Rightarrow> validation_result outcome" where
  "sample_validation member =
     validate sample_registry (Some (sample_candidate member)) sample_context sample_terms [sample_window] (Some REGIONAL_QUARTERLY_PROFIT)"

lemma sample_registry_ok: "new_registry sample_document = Inr sample_registry"
  by code_simp

lemma sample_accepted:
  "sample_validation ''region.east'' = Inr \<lparr>vr_normalized = Some ((sample_candidate ''region.east'')
     \<lparr>qg_result_schema := [(''region'', STRING), (''period'', DATETIME), (''profit'', NUMBER)]\<rparr>), vr_diagnostics = []\<rparr>"
  by code_simp

lemma sample_refused: "map_sum id (map dg_code \<circ> vr_diagnostics) (sample_validation ''region.west'')
    = Inr [''MEMBER_CONSTRAINT_SHAPE_INVALID'', ''MISSING_MEMBER_CONSTRAINT'', ''UNRESOLVED_MEMBER_CONSTRAINT'']"
  by code_simp

section \<open>Properties\<close>


lemma governed_graph:
  assumes "new_registry d = Inr rg"
    and "validate rg (Some g) sx terms windows mode = Inr r" "vr_normalized r = Some g'"
  shows "(\<forall>n \<in> set (qg_nodes g'). node_governed rg (selected_ids sx) n)
    \<and> (\<exists>flows fl. validate_nodes rg (selected_ids sx) 0 (qg_nodes g') [] = Inr ([], flows)
         \<and> dget flows (qg_output_node_id g') = Some fl \<and> flow_governed rg (selected_ids sx) fl
         \<and> qg_result_schema g' = map (\<lambda>(n, c). (n, cl_data_type c)) (fl_columns fl))"
proof -
  have ok: "registry_ok rg" using new_registry_ok [OF assms(1)] by simp
  obtain flows fl where v: "validate_nodes rg (selected_ids sx) 0 (qg_nodes g) [] = Inr ([], flows)"
      "dget flows (qg_output_node_id g) = Some fl"
      and g': "g' = g\<lparr>qg_result_schema := map (\<lambda>(n, c). (n, cl_data_type c)) (fl_columns fl)\<rparr>"
    using normalized_parts [OF assms(2,3)] by metis
  have gov: "\<forall>x \<in> set flows. flow_governed rg (selected_ids sx) (snd x)" "\<forall>n \<in> set (qg_nodes g). node_governed rg (selected_ids sx) n"
    using validate_nodes_governed [OF ok v(1)] by auto
  then have "flow_governed rg (selected_ids sx) fl" using v(2) by (metis map_of_SomeD snd_conv)
  with gov(2) v show ?thesis unfolding g' by (intro conjI exI [of _ flows] exI [of _ fl]) simp_all
qed

text \<open>
  C33: An accepted graph is governed. Every entity it selects, every field and
  metric of that entity it reads and every relation it joins on is a concept of
  the ontology that is enabled, not denied by its query policy and part of the
  context retrieved for the question; every column of the result descends only
  from such fields and metrics; and every member a filter names is an enabled
  member of the field it filters. The result schema is the one of that flow.
\<close>

theorem accepted_graph_is_governed:
  assumes "new_registry d = Inr rg"
    and "validate rg (Some g) sx terms windows mode = Inr r" "vr_normalized r = Some g'"
  shows "(\<forall>n \<in> set (qg_nodes g'). node_governed rg (selected_ids sx) n)
    \<and> (\<exists>flows fl. validate_nodes rg (selected_ids sx) 0 (qg_nodes g') [] = Inr ([], flows)
         \<and> dget flows (qg_output_node_id g') = Some fl \<and> flow_governed rg (selected_ids sx) fl
         \<and> qg_result_schema g' = map (\<lambda>(n, c). (n, cl_data_type c)) (fl_columns fl))"
  by (rule governed_graph [OF assms])

theorem accepted_graph_is_governed_witness:
  "governed sample_registry (selected_ids sample_context) EntityConcept ''commerce.sales_record''
   \<and> selected_column sample_registry (selected_ids sample_context) ''commerce.sales_record'' profit_metric"
proof -
  have "node_governed sample_registry (selected_ids sample_context)
      (sample_node ''a'' SELECT [] (SelectParameters ''commerce.sales_record'' [region_field, period_field, profit_metric]))"
    using accepted_graph_is_governed [OF sample_registry_ok sample_accepted [unfolded sample_validation_def]]
    by (simp add: sample_candidate_def)
  then show ?thesis by (simp add: node_governed_def sample_node_def)
qed

end
