(* ===== verification/Semantic_Initializer.thy ===== *)
theory Semantic_Initializer
  imports Semantic_Governance "HOL-Library.Product_Lexorder"
begin

text \<open>
  \<open>DeterministicInitializer\<close> (\<open>initializer.py\<close>): resolution of the terms a question
  mentions, choice among overlapping member mentions, relative time windows in
  the time zone of the request, and the verdict of the initialization.

  Two readings of the question are arguments: where a relative time phrase
  occurs, and whether a mention is negated. The first searches for Chinese
  phrases, outside of the character type, the second is a set of heuristics on
  both languages. A time zone is the offset it gives to a wall clock time and to
  an instant; \<open>None\<close> stands for a name that \<open>ZoneInfo\<close> refuses.
\<close>

section \<open>Requests\<close>

datatype member_resolution_mode = EXACT | EXACT_AND_SYNONYM

datatype provider_selection = STATIC | OPENAI_COMPATIBLE

datatype compile_status = ST_SUCCEEDED | ST_CLARIFICATION_REQUIRED | ST_FAILED

record compile_request =
  cq_question :: string
  cq_evaluation_clock :: timestamp
  cq_evaluation_timezone :: string
  cq_ontology_scope :: "string list"
  cq_member_resolution_mode :: member_resolution_mode
  cq_compilation_mode :: compilation_mode
  cq_provider_selection :: provider_selection

record initialize_response =
  ir_status :: compile_status
  ir_correlation_id :: string
  ir_resolved_terms :: "resolved_term list"
  ir_time_windows :: "time_window list"
  ir_context :: semantic_context
  ir_diagnostics :: "diagnostic list"

datatype time_phrase = LAST_QUARTER | THIS_YEAR | LAST_YEAR | THIS_MONTH | LAST_MONTH

record text_reading =
  tr_time_spans :: "time_phrase \<Rightarrow> (nat \<times> nat) list"
  tr_negated :: "nat \<Rightarrow> nat \<Rightarrow> bool"
  tr_phrase :: "time_phrase \<Rightarrow> string"

record time_zone =
  tz_of_wall :: "int \<Rightarrow> int"
  tz_of_instant :: "int \<Rightarrow> int"

type_synonym zone_database = "string \<Rightarrow> time_zone option"

definition initialize_error :: "string \<Rightarrow> string \<Rightarrow> diagnostic" where
  "initialize_error code path =
     \<lparr>dg_code = code, dg_severity = ERROR, dg_stage = INITIALIZE, dg_path = Some path\<rparr>"

section \<open>Mentions\<close>

record candidate =
  ca_source_text :: string
  ca_kind :: term_kind
  ca_machine_id :: string
  ca_source :: resolution_source

record member_match =
  mm_candidate :: candidate
  mm_start :: nat
  mm_end :: nat

text \<open>\<open>_source_rank\<close>; an evaluation clock source is not in its table.\<close>

fun source_rank :: "resolution_source \<Rightarrow> int" where
  "source_rank MACHINE_ID = 0"
| "source_rank LABEL = 1"
| "source_rank SYNONYM = 2"
| "source_rank RELATIVE_TIME = 3"
| "source_rank EVALUATION_CLOCK = 4"

definition word_char :: "char \<Rightarrow> bool" where
  "word_char c =
     (let n = (of_char c :: nat)
      in ascii_letter c \<or> is_digit c \<or> c = CHR ''_'' \<or> n \<in> {170, 178, 179, 181, 185, 186, 188, 189, 190}
         \<or> 192 \<le> n \<and> n \<noteq> 215 \<and> n \<noteq> 247)"

definition mention_at :: "bool \<Rightarrow> string \<Rightarrow> string \<Rightarrow> nat \<Rightarrow> bool" where
  "mention_at bounded folded question i =
     (take (length folded) (drop i question) = folded
        \<and> (bounded \<longrightarrow> (i = 0 \<or> \<not> word_char (question ! (i - 1)))
              \<and> (length question \<le> i + length folded \<or> \<not> word_char (question ! (i + length folded)))))"

text \<open>\<open>re.finditer\<close>: matches from left to right that do not overlap.\<close>

fun leftmost_spans :: "(nat \<Rightarrow> bool) \<Rightarrow> nat \<Rightarrow> nat \<Rightarrow> nat list \<Rightarrow> (nat \<times> nat) list" where
  "leftmost_spans P n next [] = []"
| "leftmost_spans P n next (i # is) =
     (if next \<le> i \<and> P i then (i, i + n) # leftmost_spans P n (i + n) is else leftmost_spans P n next is)"

definition mention_spans :: "string \<Rightarrow> string \<Rightarrow> (nat \<times> nat) list" where
  "mention_spans question text =
     (let folded = casefold text; bounded = list_ex (\<lambda>c. ascii_letter c \<or> is_digit c) folded
      in leftmost_spans (mention_at bounded folded question) (length folded) 0 [0..<Suc (length question)])"

definition match_form_spans ::
    "string \<Rightarrow> string \<Rightarrow> string \<Rightarrow> string list \<Rightarrow> member_resolution_mode \<Rightarrow> (string \<times> resolution_source \<times> nat \<times> nat) list" where
  "match_form_spans question machine_id label synonyms mode =
     (let forms = [(machine_id, MACHINE_ID), (label, LABEL)]
            @ (if mode = EXACT_AND_SYNONYM then map (\<lambda>s. (s, SYNONYM)) synonyms else [])
      in concat (map (\<lambda>(text, source). if text = [] then []
           else map (\<lambda>(a, b). (text, source, a, b)) (mention_spans question text)) forms))"

definition concept_matches ::
    "string \<Rightarrow> string \<Rightarrow> string \<Rightarrow> string list \<Rightarrow> term_kind \<Rightarrow> member_resolution_mode \<Rightarrow> member_match list" where
  "concept_matches question machine_id label synonyms kind mode =
     map (\<lambda>(text, source, a, b).
        \<lparr>mm_candidate = \<lparr>ca_source_text = text, ca_kind = kind, ca_machine_id = machine_id, ca_source = source\<rparr>,
         mm_start = a, mm_end = b\<rparr>)
       (match_form_spans question machine_id label synonyms mode)"

section \<open>Overlapping member mentions\<close>

type_synonym span = "nat \<times> nat"

definition by_span :: "member_match list \<Rightarrow> (span, member_match list) dict" where
  "by_span ms =
     foldl (\<lambda>d m. let k = (mm_start m, mm_end m)
                  in dput k ((case dget d k of None \<Rightarrow> [] | Some xs \<Rightarrow> xs) @ [m]) d) [] ms"

definition rank_of :: "member_match \<Rightarrow> int" where
  "rank_of m = source_rank (ca_source (mm_candidate m))"

definition rank_span :: "span \<times> member_match list \<Rightarrow> nat \<times> nat \<times> int \<times> member_match list" where
  "rank_span e =
     (let best = Min (set (map rank_of (snd e)))
      in (fst (fst e), snd (fst e), best, filter (\<lambda>m. rank_of m = best) (snd e)))"

definition span_key :: "nat \<times> nat \<times> int \<times> member_match list \<Rightarrow> int \<times> int \<times> nat" where
  "span_key r = (case r of (a, b, k, ms) \<Rightarrow> (- (int b - int a), k, a))"

definition spans_overlap :: "span \<Rightarrow> span \<Rightarrow> bool" where
  "spans_overlap s t = (fst s < snd t \<and> fst t < snd s)"

fun select_spans ::
    "(span \<times> member_match list) list \<Rightarrow> (nat \<times> nat \<times> int \<times> member_match list) list \<Rightarrow> (span \<times> member_match list) list" where
  "select_spans selected [] = selected"
| "select_spans selected ((a, b, k, ms) # rs) =
     (if list_ex (\<lambda>s. spans_overlap (a, b) (fst s)) selected then select_spans selected rs
      else select_spans (selected @ [((a, b), ms)]) rs)"

definition preferred_spans :: "member_match list \<Rightarrow> (span \<times> member_match list) list" where
  "preferred_spans ms =
     sort_key (\<lambda>s. fst (fst s)) (select_spans [] (sort_key span_key (map rank_span (by_span ms))))"

definition preferred_member_matches :: "member_match list \<Rightarrow> member_match list list" where
  "preferred_member_matches ms = map snd (preferred_spans ms)"

section \<open>Resolution\<close>

fun kind_value :: "term_kind \<Rightarrow> string" where
  "kind_value TERM_ENTITY = ''entity''"
| "kind_value TERM_FIELD = ''field''"
| "kind_value TERM_METRIC = ''metric''"
| "kind_value TERM_MEMBER = ''member''"
| "kind_value TERM_TIME_WINDOW = ''time_window''"

type_synonym resolution = "candidate list \<times> diagnostic list"

definition candidate_key :: "candidate \<Rightarrow> term_kind \<times> string" where
  "candidate_key c = (ca_kind c, ca_machine_id c)"

fun resolve_concepts ::
    "(nat \<Rightarrow> nat \<Rightarrow> bool) \<Rightarrow> (term_kind \<times> string) list \<Rightarrow> member_match list \<Rightarrow> resolution" where
  "resolve_concepts negated reported [] = ([], [])"
| "resolve_concepts negated reported (m # ms) =
     (if negated (mm_start m) (mm_end m)
      then (let key = candidate_key (mm_candidate m); (cs, ds) = resolve_concepts negated (key # reported) ms
            in (cs, if key \<in> set reported then ds
                    else initialize_error ''NEGATED_CONCEPT_UNSUPPORTED'' ''question'' # ds))
      else (let (cs, ds) = resolve_concepts negated reported ms in (mm_candidate m # cs, ds)))"

fun resolve_members :: "(nat \<Rightarrow> nat \<Rightarrow> bool) \<Rightarrow> member_match list list \<Rightarrow> resolution" where
  "resolve_members negated [] = ([], [])"
| "resolve_members negated (ms # rest) =
     (let (cs, ds) = resolve_members negated rest; m = hd ms;
          ids = remdups (map (\<lambda>x. ca_machine_id (mm_candidate x)) ms)
      in if negated (mm_start m) (mm_end m)
         then (cs, initialize_error ''NEGATED_MEMBER_UNSUPPORTED'' ''question'' # ds)
         else if 1 < length ids then (cs, initialize_error ''AMBIGUOUS_MEMBER'' ''question'' # ds)
         else (mm_candidate m # cs, ds))"

definition keep_best :: "(term_kind \<times> string, candidate) dict \<Rightarrow> candidate \<Rightarrow> (term_kind \<times> string, candidate) dict" where
  "keep_best d c =
     (case dget d (candidate_key c) of
        None \<Rightarrow> dput (candidate_key c) c d
      | Some e \<Rightarrow> if source_rank (ca_source c) < source_rank (ca_source e) then dput (candidate_key c) c d else d)"

definition resolved_of :: "candidate \<Rightarrow> resolved_term" where
  "resolved_of c = \<lparr>rt_source_text = ca_source_text c, rt_kind = ca_kind c, rt_machine_id = ca_machine_id c,
     rt_resolution_source = ca_source c\<rparr>"

definition resolve_terms ::
    "registry \<Rightarrow> (nat \<Rightarrow> nat \<Rightarrow> bool) \<Rightarrow> string \<Rightarrow> member_resolution_mode \<Rightarrow> resolved_term list \<times> diagnostic list" where
  "resolve_terms rg negated question mode =
     (let q = casefold question; d = rg_document rg;
          concepts = concat (map (\<lambda>e. concept_matches q (oe_id e) (oe_label e) (oe_synonyms e) TERM_ENTITY mode) (od_entities d))
            @ concat (map (\<lambda>f. concept_matches q (of_id f) (of_label f) (of_synonyms f) TERM_FIELD mode) (od_fields d))
            @ concat (map (\<lambda>m. concept_matches q (ot_id m) (ot_label m) (ot_synonyms m) TERM_METRIC mode) (od_metrics d));
          members = concat (map (\<lambda>f. concat (map (\<lambda>m. concept_matches q (om_id m) (om_label m) (om_synonyms m) TERM_MEMBER mode)
            (of_members f))) (od_fields d));
          (c1, d1) = resolve_concepts negated [] concepts;
          (c2, d2) = resolve_members negated (preferred_member_matches members);
          unique = map snd (foldl keep_best [] (c1 @ c2))
      in (map resolved_of (sort_key (\<lambda>c. (kind_value (ca_kind c), ca_machine_id c)) unique), d1 @ d2))"

section \<open>Calendar\<close>

text \<open>
  Year and month of a day number. The year of day \<open>n\<close> lies between \<open>n div 366\<close>
  and \<open>n div 365 + 1\<close>, so the search is short.
\<close>

definition year_of_day :: "int \<Rightarrow> int" where
  "year_of_day n = last (takeWhile (\<lambda>y. days_before_year y < n) [n div 366..n div 365 + 1])"

definition month_of_day :: "int \<Rightarrow> int" where
  "month_of_day n =
     (let y = year_of_day n in last (takeWhile (\<lambda>m. days_before_year y + days_before_month y m < n) [1..12]))"

definition day_number :: "int \<Rightarrow> int" where
  "day_number wall = wall div 86400000000 + 719163"

definition clock_year :: "timestamp \<Rightarrow> int" where
  "clock_year t = year_of_day (day_number (ts_local t))"

definition clock_month :: "timestamp \<Rightarrow> int" where
  "clock_month t = month_of_day (day_number (ts_local t))"

definition clock_day :: "timestamp \<Rightarrow> int" where
  "clock_day t =
     (let n = day_number (ts_local t) in n - days_before_year (clock_year t) - days_before_month (clock_year t) (clock_month t))"

text \<open>\<open>astimezone\<close>, which raises \<open>OverflowError\<close> outside of the representable range.\<close>

definition astimezone :: "time_zone \<Rightarrow> timestamp \<Rightarrow> timestamp option" where
  "astimezone tz t =
     (case astimezone_utc t of None \<Rightarrow> None
      | Some u \<Rightarrow>
          let l = u + tz_of_instant tz u
          in if min_instant \<le> l \<and> l \<le> max_instant
             then Some \<lparr>ts_local = l, ts_offset = Some (tz_of_instant tz u)\<rparr> else None)"

definition at_midnight :: "time_zone \<Rightarrow> int \<Rightarrow> int \<Rightarrow> timestamp option" where
  "at_midnight tz year month =
     (if valid_ymd year month 1
      then let l = (ymd_to_ord year month 1 - 719163) * 86400000000
           in Some \<lparr>ts_local = l, ts_offset = Some (tz_of_wall tz l)\<rparr>
      else None)"

definition interval :: "timestamp option \<Rightarrow> timestamp option \<Rightarrow> grain \<Rightarrow> (timestamp \<times> timestamp \<times> grain) option" where
  "interval a b g = (case a of None \<Rightarrow> None | Some s \<Rightarrow> map_option (\<lambda>e. (s, e, g)) b)"

definition this_year :: "time_zone \<Rightarrow> timestamp \<Rightarrow> (timestamp \<times> timestamp \<times> grain) option" where
  "this_year tz t = interval (at_midnight tz (clock_year t) 1) (at_midnight tz (clock_year t + 1) 1) YEAR"

definition previous_year :: "time_zone \<Rightarrow> timestamp \<Rightarrow> (timestamp \<times> timestamp \<times> grain) option" where
  "previous_year tz t = interval (at_midnight tz (clock_year t - 1) 1) (at_midnight tz (clock_year t) 1) YEAR"

definition quarter_start :: "int \<Rightarrow> int" where
  "quarter_start m = (m - 1) div 3 * 3 + 1"

definition previous_quarter :: "time_zone \<Rightarrow> timestamp \<Rightarrow> (timestamp \<times> timestamp \<times> grain) option" where
  "previous_quarter tz t =
     (let c = quarter_start (clock_month t)
      in interval (if c = 1 then at_midnight tz (clock_year t - 1) 10 else at_midnight tz (clock_year t) (c - 3))
           (at_midnight tz (clock_year t) c) QUARTER)"

definition this_month :: "time_zone \<Rightarrow> timestamp \<Rightarrow> (timestamp \<times> timestamp \<times> grain) option" where
  "this_month tz t =
     interval (at_midnight tz (clock_year t) (clock_month t))
       (if clock_month t = 12 then at_midnight tz (clock_year t + 1) 1 else at_midnight tz (clock_year t) (clock_month t + 1)) MONTH"

definition previous_month :: "time_zone \<Rightarrow> timestamp \<Rightarrow> (timestamp \<times> timestamp \<times> grain) option" where
  "previous_month tz t =
     interval (if clock_month t = 1 then at_midnight tz (clock_year t - 1) 12 else at_midnight tz (clock_year t) (clock_month t - 1))
       (at_midnight tz (clock_year t) (clock_month t)) MONTH"

fun resolve_phrase :: "time_phrase \<Rightarrow> time_zone \<Rightarrow> timestamp \<Rightarrow> (timestamp \<times> timestamp \<times> grain) option" where
  "resolve_phrase LAST_QUARTER = previous_quarter"
| "resolve_phrase THIS_YEAR = this_year"
| "resolve_phrase LAST_YEAR = previous_year"
| "resolve_phrase THIS_MONTH = this_month"
| "resolve_phrase LAST_MONTH = previous_month"

section \<open>Time windows\<close>

definition window_of :: "string \<Rightarrow> string \<Rightarrow> timestamp \<times> timestamp \<times> grain \<Rightarrow> time_window" where
  "window_of text zone_name w =
     (case w of (s, e, g) \<Rightarrow>
        \<lparr>tw_source_text = text, tw_start = s, tw_end_exclusive = e, tw_timezone = zone_name, tw_grain = g\<rparr>)"

fun recognize :: "text_reading \<Rightarrow> time_zone \<Rightarrow> string \<Rightarrow> timestamp \<Rightarrow> time_phrase list \<Rightarrow> time_window list \<times> diagnostic list" where
  "recognize rd tz zone_name clock [] = ([], [])"
| "recognize rd tz zone_name clock (p # ps) =
     (let (ws, ds) = recognize rd tz zone_name clock ps; spans = tr_time_spans rd p
      in if spans = [] then (ws, ds)
         else if list_ex (\<lambda>(a, b). tr_negated rd a b) spans
         then (ws, initialize_error ''NEGATED_TIME_UNSUPPORTED'' ''question'' # ds)
         else case resolve_phrase p tz clock of
             None \<Rightarrow> (ws, initialize_error ''INVALID_EVALUATION_CLOCK'' ''evaluation_clock'' # ds)
           | Some w \<Rightarrow> (window_of (tr_phrase rd p) zone_name w # ws, ds))"

definition recognizers :: "time_phrase list" where
  "recognizers = [LAST_QUARTER, THIS_YEAR, LAST_YEAR, THIS_MONTH, LAST_MONTH]"

definition normalize_time ::
    "zone_database \<Rightarrow> text_reading \<Rightarrow> timestamp \<Rightarrow> string \<Rightarrow> time_window list \<times> diagnostic list" where
  "normalize_time zones rd clock zone_name =
     (case zones zone_name of
        None \<Rightarrow> ([], [initialize_error ''INVALID_TIMEZONE'' ''evaluation_timezone''])
      | Some tz \<Rightarrow>
          (case astimezone tz clock of
             None \<Rightarrow> ([], [initialize_error ''INVALID_EVALUATION_CLOCK'' ''evaluation_clock''])
           | Some l \<Rightarrow> recognize rd tz zone_name l recognizers))"

definition current_month_text :: string where
  "current_month_text = ''evaluation_clock.current_month''"

definition previous_month_text :: string where
  "previous_month_text = ''evaluation_clock.previous_month''"

definition monthly_comparison_windows ::
    "zone_database \<Rightarrow> timestamp \<Rightarrow> string \<Rightarrow> time_window list \<times> diagnostic list" where
  "monthly_comparison_windows zones clock zone_name =
     (let bad = ([], [initialize_error ''INVALID_EVALUATION_CLOCK'' ''evaluation_clock''])
      in case zones zone_name of None \<Rightarrow> bad
         | Some tz \<Rightarrow>
             (case astimezone tz clock of None \<Rightarrow> bad
              | Some l \<Rightarrow>
                  (case this_month tz l of None \<Rightarrow> bad
                   | Some c \<Rightarrow>
                       (case previous_month tz l of None \<Rightarrow> bad
                        | Some p \<Rightarrow> ([window_of current_month_text zone_name c, window_of previous_month_text zone_name p], [])))))"

section \<open>Initialization\<close>

definition two_digits :: "int \<Rightarrow> string" where
  "two_digits n = (if n < 10 then ''0'' else []) @ show_nat n"

definition pad_left :: "nat \<Rightarrow> string \<Rightarrow> string" where
  "pad_left n s = replicate (n - length s) CHR ''0'' @ s"

definition clock_text :: "int \<Rightarrow> string" where
  "clock_text us =
     (let s = us div 1000000
      in two_digits (s div 3600) @ '':'' @ two_digits (s div 60 mod 60) @ '':'' @ two_digits (s mod 60)
         @ (if us mod 1000000 = 0 then [] else ''.'' @ pad_left 6 (show_nat (us mod 1000000))))"

definition offset_text :: "int \<Rightarrow> string" where
  "offset_text off =
     (let a = \<bar>off\<bar>; s = a div 1000000
      in (if off < 0 then ''-'' else ''+'') @ two_digits (s div 3600) @ '':'' @ two_digits (s div 60 mod 60)
         @ (if a mod 60000000 = 0 then [] else '':'' @ two_digits (s mod 60)
              @ (if a mod 1000000 = 0 then [] else ''.'' @ pad_left 6 (show_nat (a mod 1000000)))))"

definition isoformat :: "timestamp \<Rightarrow> string" where
  "isoformat t =
     pad_left 4 (show_nat (clock_year t)) @ ''-'' @ two_digits (clock_month t) @ ''-'' @ two_digits (clock_day t) @ ''T''
       @ clock_text (ts_local t mod 86400000000) @ (case ts_offset t of None \<Rightarrow> [] | Some off \<Rightarrow> offset_text off)"

definition window_term :: "time_window \<Rightarrow> resolved_term" where
  "window_term w =
     \<lparr>rt_source_text = tw_source_text w, rt_kind = TERM_TIME_WINDOW,
      rt_machine_id = ''time:'' @ isoformat (tw_start w) @ ''/'' @ isoformat (tw_end_exclusive w),
      rt_resolution_source =
        (if drop_prefix ''evaluation_clock.'' (tw_source_text w) \<noteq> None then EVALUATION_CLOCK else RELATIVE_TIME)\<rparr>"

definition window_policy ::
    "zone_database \<Rightarrow> compile_request \<Rightarrow> time_window list \<times> diagnostic list \<Rightarrow> time_window list \<times> diagnostic list" where
  "window_policy zones rq found =
     (case found of (windows, ds) \<Rightarrow>
        if cq_compilation_mode rq = MONTHLY_REGIONAL_COMPARISON
        then (if windows \<noteq> [] then (windows, ds @ [initialize_error ''MONTHLY_EXPLICIT_TIME_UNSUPPORTED'' ''question''])
              else if ds = []
              then monthly_comparison_windows zones (cq_evaluation_clock rq) (cq_evaluation_timezone rq)
              else (windows, ds))
        else if 1 < length windows
        then (windows, ds @ [initialize_error ''MULTIPLE_TIME_WINDOWS_UNSUPPORTED'' ''question''])
        else (windows, ds))"

definition initialize_status :: "diagnostic list \<Rightarrow> compile_status" where
  "initialize_status ds =
     (if list_ex (\<lambda>d. dg_code d = ''AMBIGUOUS_MEMBER'') ds then ST_CLARIFICATION_REQUIRED
      else if has_error ds then ST_FAILED else ST_SUCCEEDED)"

definition initialize ::
    "registry \<Rightarrow> zone_database \<Rightarrow> text_reading \<Rightarrow> compile_request \<Rightarrow> string \<Rightarrow> initialize_response res" where
  "initialize rg zones rd rq correlation_id =
     (let (terms, d1) = resolve_terms rg (tr_negated rd) (cq_question rq) (cq_member_resolution_mode rq);
          (windows, d2) = window_policy zones rq (normalize_time zones rd (cq_evaluation_clock rq) (cq_evaluation_timezone rq));
          all_terms = terms @ map window_term windows;
          ds = d1 @ d2
      in rbind (retrieve rg (cq_question rq) all_terms (cq_ontology_scope rq)) (\<lambda>sx.
         Inr \<lparr>ir_status = initialize_status ds, ir_correlation_id = correlation_id, ir_resolved_terms = all_terms,
              ir_time_windows = windows, ir_context = sx, ir_diagnostics = ds\<rparr>))"

section \<open>Calendar facts\<close>

lemma last_takeWhile_upto:
  fixes a b :: int
  assumes "a \<le> b" "P a" "\<not> P (b + 1)"
  shows "P (last (takeWhile P [a..b])) \<and> \<not> P (last (takeWhile P [a..b]) + 1)
    \<and> a \<le> last (takeWhile P [a..b]) \<and> last (takeWhile P [a..b]) \<le> b"
  using assms
proof (induction "nat (b - a)" arbitrary: a)
  case 0
  then show ?case by simp
next
  case (Suc k)
  then have ab: "a < b" by linarith
  show ?case
  proof (cases "P (a + 1)")
    case True
    have "[a..b] = a # [a + 1..b]" using ab by (simp add: upto_rec1)
    moreover have "takeWhile P [a + 1..b] \<noteq> []" using ab True by (simp add: upto_rec1)
    moreover have "k = nat (b - (a + 1))" using Suc.hyps by linarith
    ultimately show ?thesis using Suc.hyps(1) [of "a + 1"] Suc.prems ab True by simp
  next
    case False
    have "takeWhile P [a..b] = [a]" using ab Suc.prems False by (simp add: upto_rec1 [of a] upto_rec1 [of "a + 1"])
    then show ?thesis using Suc.prems False by simp
  qed
qed

lemma year_bounds_arith:
  fixes p :: int
  assumes "b \<le> a" "c \<le> b" "0 \<le> c" "a \<le> p"
  shows "365 * p \<le> p * 365 + a - b + c" "p * 365 + a - b + c \<le> 366 * p"
  using assms by linarith+

lemma days_before_year_bounds:
  assumes "1 \<le> y" shows "365 * (y - 1) \<le> days_before_year y" "days_before_year y \<le> 366 * (y - 1)"
proof -
  let ?p = "y - 1"
  have p: "0 \<le> ?p" using assms by simp
  have le: "?p div 100 \<le> ?p div 4" "?p div 400 \<le> ?p div 100" "0 \<le> ?p div 400"
    using p by (auto intro!: zdiv_mono2 simp: pos_imp_zdiv_nonneg_iff simp del: div_pos_pos_trivial)
  have "?p div 4 \<le> ?p div 1" using p by (intro zdiv_mono2) simp_all
  then have "?p div 4 \<le> ?p" by (simp only: div_by_1)
  from year_bounds_arith [OF le this] show "365 * (y - 1) \<le> days_before_year y" "days_before_year y \<le> 366 * (y - 1)"
    by (simp_all only: days_before_year_def Let_def)
qed

lemma div_step:
  fixes y k :: int
  assumes "0 < k" shows "y div k = (y - 1) div k + (if y mod k = 0 then 1 else 0)"
proof (cases "y mod k = 0")
  case True
  have "(y - 1) div k = y div k - 1"
    using assms True by (intro int_div_pos_eq [where r = "k - 1"]) (auto simp: algebra_simps)
  with True show ?thesis by simp
next
  case False
  have "0 \<le> y mod k" "y mod k < k" using assms by simp_all
  with False have "0 \<le> y mod k - 1" "y mod k - 1 < k" by linarith+
  then have "(y - 1) div k = y div k"
    by (intro int_div_pos_eq [where r = "y mod k - 1"]) (simp_all add: algebra_simps)
  with False show ?thesis by simp
qed

lemma leap_arith:
  fixes y :: int
  assumes "a' = a + (if p4 then 1 else 0)" "b' = b + (if p100 then 1 else 0)" "c' = c + (if p400 then 1 else 0)"
    and "p400 \<Longrightarrow> p100" "p100 \<Longrightarrow> p4"
  shows "y * 365 + a' - b' + c' = (y - 1) * 365 + a - b + c + (if p4 \<and> (\<not> p100 \<or> p400) then 366 else 365)"
  using assms by (cases p4; cases p100; cases p400) simp_all

lemma days_before_year_Suc: "days_before_year (y + 1) = days_before_year y + (if is_leap y then 366 else 365)"
proof -
  have m: "y mod 400 = 0 \<Longrightarrow> y mod 100 = 0" "y mod 100 = 0 \<Longrightarrow> y mod 4 = 0"
    using mod_mod_cancel [of 100 400 y] mod_mod_cancel [of 4 100 y] by auto
  have "days_before_year (y + 1) = y * 365 + y div 4 - y div 100 + y div 400"
      "days_before_year y = (y - 1) * 365 + (y - 1) div 4 - (y - 1) div 100 + (y - 1) div 400"
    by (simp_all only: days_before_year_def Let_def add_diff_cancel_right')
  then show ?thesis
    unfolding is_leap_def by (simp only:) (rule leap_arith [OF div_step div_step div_step m]; simp)
qed

lemma div_bounds:
  fixes n k :: int
  assumes "0 < k" shows "k * (n div k) \<le> n" "n < k * (n div k + 1)"
proof -
  have "n = k * (n div k) + n mod k" by (rule mult_div_mod_eq [symmetric])
  moreover have "0 \<le> n mod k" "n mod k < k" using assms by simp_all
  ultimately show "k * (n div k) \<le> n" "n < k * (n div k + 1)" unfolding distrib_left by linarith+
qed

lemma year_of_day_correct:
  assumes "1 \<le> n"
  shows "1 \<le> year_of_day n \<and> days_before_year (year_of_day n) < n \<and> n \<le> days_before_year (year_of_day n + 1)"
proof -
  define a b where "a = max 1 (n div 366)" and "b = n div 365 + 1"
  have low: "n div 366 \<le> n div 365" using assms by (intro zdiv_mono2) simp_all
  have ab: "a \<le> b" "1 \<le> a" using low assms pos_imp_zdiv_nonneg_iff [of 365 n] by (auto simp: a_def b_def)
  have "366 * (n div 366) \<le> n" by (rule div_bounds) simp
  then have "366 * (a - 1) < n" using assms by (auto simp: a_def max_def)
  then have Pa: "days_before_year a < n" using days_before_year_bounds(2) [OF ab(2)] by linarith
  have "n < 365 * (n div 365 + 1)" by (rule div_bounds) simp
  then have Pb: "\<not> days_before_year (b + 1) < n"
    using days_before_year_bounds(1) [of "b + 1"] ab by (simp add: b_def)
  have eq: "takeWhile (\<lambda>y. days_before_year y < n) [n div 366..b]
      = (if n div 366 = 0 then [0] else []) @ takeWhile (\<lambda>y. days_before_year y < n) [a..b]"
  proof (cases "n div 366 = 0")
    case True
    have "days_before_year 0 < n" using assms by (simp add: days_before_year_def Let_def)
    then show ?thesis using True ab by (simp add: a_def upto_rec1)
  next
    case False
    have "0 \<le> n div 366" using assms by (simp add: pos_imp_zdiv_nonneg_iff)
    with False have "a = n div 366" by (simp add: a_def)
    then show ?thesis using False by simp
  qed
  have ne: "takeWhile (\<lambda>y. days_before_year y < n) [a..b] \<noteq> []" using Pa ab by (simp add: upto_rec1)
  then have "year_of_day n = last (takeWhile (\<lambda>y. days_before_year y < n) [a..b])"
    unfolding year_of_day_def b_def [symmetric] eq by simp
  then show ?thesis
    using last_takeWhile_upto [of a b "\<lambda>y. days_before_year y < n"] ab Pa Pb by auto
qed

lemma days_before_month_Suc: "1 \<le> m \<Longrightarrow> days_before_month y (m + 1) = days_before_month y m + days_in_month y m"
  by (simp add: days_before_month_def upto_rec2 [of 1 m])

lemma days_before_month_ends:
  "days_before_month y 1 = 0" "days_before_year y + days_before_month y 13 = days_before_year (y + 1)"
proof -
  have "[1..12::int] = [1, 2, 3, 4, 5, 6, 7, 8, 9, 10, 11, 12]" by code_simp
  then show "days_before_month y 1 = 0" "days_before_year y + days_before_month y 13 = days_before_year (y + 1)"
    by (simp_all add: days_before_month_def days_in_month_def days_before_year_Suc)
qed

lemma month_of_day_correct:
  assumes "1 \<le> n"
  shows "1 \<le> month_of_day n \<and> month_of_day n \<le> 12
    \<and> days_before_year (year_of_day n) + days_before_month (year_of_day n) (month_of_day n) < n
    \<and> n \<le> days_before_year (year_of_day n) + days_before_month (year_of_day n) (month_of_day n + 1)"
proof -
  let ?y = "year_of_day n"
  have y: "days_before_year ?y < n" "n \<le> days_before_year (?y + 1)" using year_of_day_correct [OF assms] by auto
  have "month_of_day n = last (takeWhile (\<lambda>m. days_before_year ?y + days_before_month ?y m < n) [1..12])"
    by (simp add: month_of_day_def Let_def)
  then show ?thesis
    using last_takeWhile_upto [of 1 12 "\<lambda>m. days_before_year ?y + days_before_month ?y m < n"] y
      days_before_month_ends [of ?y] by auto
qed

text \<open>Midnights as wall clock readings, and the month a clock reading lies in.\<close>

definition midnight :: "int \<Rightarrow> int \<Rightarrow> int" where
  "midnight y m = (ymd_to_ord y m 1 - 719163) * 86400000000"

lemma at_midnight_wall: "at_midnight tz y m = Some t \<Longrightarrow> ts_local t = midnight y m \<and> valid_ymd y m 1"
  by (auto simp: at_midnight_def midnight_def Let_def split: if_splits)

lemma midnight_next_month:
  assumes "1 \<le> m" "m \<le> 12"
  shows "(if m = 12 then midnight (y + 1) 1 else midnight y (m + 1)) =
    (days_before_year y + days_before_month y (m + 1) + 1 - 719163) * 86400000000"
  using days_before_month_ends [of y] days_before_month_ends [of "y + 1"] by (auto simp: midnight_def ymd_to_ord_def)

lemma midnight_order:
  "midnight y m < (days_before_year y + days_before_month y (m + 1) + 1 - 719163) * 86400000000" if "1 \<le> m"
  using that by (simp add: midnight_def ymd_to_ord_def days_before_month_Suc days_in_month_def)

lemma clock_in_month:
  assumes "min_instant \<le> ts_local t"
  shows "1 \<le> clock_year t \<and> 1 \<le> clock_month t \<and> clock_month t \<le> 12
    \<and> midnight (clock_year t) (clock_month t) \<le> ts_local t
    \<and> ts_local t < (if clock_month t = 12 then midnight (clock_year t + 1) 1 else midnight (clock_year t) (clock_month t + 1))"
proof -
  let ?n = "day_number (ts_local t)"
  have "min_instant div 86400000000 \<le> ts_local t div 86400000000" using assms by (rule zdiv_mono1) simp
  then have n: "1 \<le> ?n" by (simp add: day_number_def instant_constants)
  have d: "(?n - 719163) * 86400000000 \<le> ts_local t" "ts_local t < (?n + 1 - 719163) * 86400000000"
    using div_bounds [of 86400000000 "ts_local t"] by (simp_all add: day_number_def mult.commute)
  have m: "1 \<le> clock_month t" "clock_month t \<le> 12"
      "days_before_year (clock_year t) + days_before_month (clock_year t) (clock_month t) < ?n"
      "?n \<le> days_before_year (clock_year t) + days_before_month (clock_year t) (clock_month t + 1)"
    using month_of_day_correct [OF n] by (simp_all add: clock_month_def clock_year_def)
  have "midnight (clock_year t) (clock_month t) \<le> (?n - 719163) * 86400000000"
    using m(3) by (simp add: midnight_def ymd_to_ord_def)
  moreover have "(?n + 1 - 719163) * 86400000000 \<le>
      (if clock_month t = 12 then midnight (clock_year t + 1) 1 else midnight (clock_year t) (clock_month t + 1))"
    unfolding midnight_next_month [OF m(1,2)] using m(4) by simp
  moreover have "1 \<le> clock_year t" using year_of_day_correct [OF n] by (simp add: clock_year_def)
  ultimately show ?thesis
    using d m(1,2) by (blast intro: order_trans order_less_le_trans)
qed

text \<open>
  A relative window is an interval of the wall clock that starts no later than
  the clock reading; the current month holds it, and the month before ends where
  the current one starts.
\<close>

lemma interval_Some: "interval a b g = Some (s, e, g') \<longleftrightarrow> a = Some s \<and> b = Some e \<and> g' = g"
  by (auto simp: interval_def split: option.splits)

lemma midnight_year: "midnight (y + 1) 1 = midnight y 1 + (if is_leap y then 366 else 365) * 86400000000"
  by (simp add: midnight_def ymd_to_ord_def days_before_month_ends days_before_year_Suc)

lemma midnight_month_less:
  assumes "1 \<le> m" "m < m'" shows "midnight y m < midnight y m'"
proof -
  have "days_before_month y m < days_before_month y m'" using assms(2)
  proof (induction m' rule: int_gr_induct)
    case base
    then show ?case using assms by (simp add: days_before_month_Suc days_in_month_def)
  next
    case (step k)
    moreover have "0 < days_in_month y k" by (simp add: days_in_month_def)
    ultimately show ?case using assms by (simp add: days_before_month_Suc)
  qed
  then show ?thesis by (simp add: midnight_def ymd_to_ord_def)
qed

lemma midnight_mono:
  assumes "1 \<le> m" "m \<le> m'" shows "midnight y m \<le> midnight y m'"
  using midnight_month_less [OF assms(1), of m' y] assms(2) by (cases "m = m'") auto

lemma midnight_13: "midnight (y + 1) 1 = midnight y 13"
  using days_before_month_ends [of y] days_before_month_ends [of "y + 1"] by (simp add: midnight_def ymd_to_ord_def)

lemma this_month_holds_clock:
  assumes "this_month tz t = Some (s, e, g)" "min_instant \<le> ts_local t"
  shows "ts_local s \<le> ts_local t \<and> ts_local t < ts_local e \<and> g = MONTH"
  using assms clock_in_month [OF assms(2)]
  by (auto simp: this_month_def interval_Some dest!: at_midnight_wall split: if_splits)

lemma months_are_adjacent:
  assumes "this_month tz t = Some (s, e, g)" "previous_month tz t = Some (s', e', g')"
  shows "e' = s"
  using assms by (auto simp: this_month_def previous_month_def interval_Some)

lemma year_before: "midnight (y - 1) m < midnight y m'" if "1 \<le> m" "m \<le> 12" "1 \<le> m'"
  using midnight_month_less [of m 13 "y - 1"] midnight_13 [of "y - 1"] midnight_mono [of 1 m' y] that by auto

lemma quarter_start_bounds: "1 \<le> m \<Longrightarrow> m \<le> 12 \<Longrightarrow> quarter_start m \<le> m \<and> (quarter_start m = 1 \<or> 4 \<le> quarter_start m)"
  unfolding quarter_start_def by presburger

lemma relative_window_order:
  assumes "resolve_phrase p tz t = Some (s, e, g)" "min_instant \<le> ts_local t"
  shows "ts_local s < ts_local e \<and> ts_local s \<le> ts_local t"
proof -
  let ?y = "clock_year t" and ?m = "clock_month t"
  have c: "1 \<le> ?m" "?m \<le> 12" "midnight ?y ?m \<le> ts_local t" using clock_in_month [OF assms(2)] by auto
  have q: "quarter_start ?m \<le> ?m" "quarter_start ?m = 1 \<or> 4 \<le> quarter_start ?m" using quarter_start_bounds [OF c(1,2)] by auto
  note low = midnight_mono [of _ ?m ?y, THEN order_trans, OF _ _ c(3)]
  show ?thesis
  proof (cases p)
    case LAST_QUARTER
    then show ?thesis using assms(1) q low [of 1] low [of "quarter_start ?m - 3"] c year_before [of 10 1 ?y]
        midnight_month_less [of "quarter_start ?m - 3" "quarter_start ?m" ?y]
      by (auto simp: previous_quarter_def Let_def interval_Some dest!: at_midnight_wall split: if_splits)
  next
    case THIS_YEAR
    then show ?thesis using assms(1) low [of 1] c midnight_year [of ?y]
      by (auto simp: this_year_def interval_Some dest!: at_midnight_wall split: if_splits)
  next
    case LAST_YEAR
    then show ?thesis using assms(1) low [of 1] c year_before [of 1 1 ?y]
      by (auto simp: previous_year_def interval_Some dest!: at_midnight_wall)
  next
    case THIS_MONTH
    then show ?thesis using this_month_holds_clock [OF _ assms(2), of tz s e g] assms(1) by auto
  next
    case LAST_MONTH
    then show ?thesis using assms(1) c low [of "?m - 1"] year_before [of 12 1 ?y] midnight_month_less [of "?m - 1" ?m ?y]
      by (auto simp: previous_month_def interval_Some dest!: at_midnight_wall split: if_splits)
  qed
qed

section \<open>Windows of an initialized request\<close>

lemma astimezone_range: "astimezone tz t = Some l \<Longrightarrow> min_instant \<le> ts_local l"
  by (auto simp: astimezone_def Let_def split: option.splits if_splits)

lemma recognized_windows:
  assumes "min_instant \<le> ts_local l" "(ws, ds) = recognize rd tz zone_name l ps" "w \<in> set ws"
  shows "ts_local (tw_start w) < ts_local (tw_end_exclusive w) \<and> ts_local (tw_start w) \<le> ts_local l"
  using assms(2,3)
proof (induction ps arbitrary: ws ds)
  case (Cons p ps)
  then show ?case
    using relative_window_order [OF _ assms(1)]
    by (fastforce simp: Let_def window_of_def split: prod.splits if_splits option.splits)
qed simp

lemma initialize_error_severity [simp]: "dg_severity (initialize_error c p) = ERROR"
  by (simp add: initialize_error_def)

lemma recognize_errors:
  "(ws, ds) = recognize rd tz zone_name l ps \<Longrightarrow> d \<in> set ds \<Longrightarrow> dg_severity d = ERROR"
  by (induction ps arbitrary: ws ds) (fastforce simp: Let_def split: prod.splits if_splits option.splits)+

lemma no_error_diagnostic: "initialize_status ds = ST_SUCCEEDED \<Longrightarrow> \<forall>d \<in> set ds. dg_severity d \<noteq> ERROR"
  by (auto simp: initialize_status_def has_error_def list_ex_iff split: if_splits)


text \<open>A request on a small ontology; the zone is one hour ahead of UTC.\<close>

definition small_document :: ontology_document where
  "small_document = \<lparr>od_ontology_id = ''small'', od_version = ''1'',
     od_entities = [\<lparr>oe_id = ''s'', oe_label = ''S'', oe_synonyms = [], oe_enabled = True, oe_query_policy = ALLOW\<rparr>],
     od_fields = [\<lparr>of_id = ''r'', of_entity_id = ''s'', of_label = ''R'', of_data_type = STRING, of_synonyms = [],
       of_members = [\<lparr>om_id = ''m'', om_label = ''East'', om_synonyms = [], om_enabled = True\<rparr>], of_enabled = True, of_query_policy = ALLOW\<rparr>],
     od_metrics = [], od_relations = []\<rparr>"

definition small_registry :: registry where
  "small_registry = (case new_registry small_document of Inr rg \<Rightarrow> rg)"

definition sample_zones :: zone_database where
  "sample_zones name = (if name = ''CET'' then Some \<lparr>tz_of_wall = \<lambda>_. 3600000000, tz_of_instant = \<lambda>_. 3600000000\<rparr> else None)"

definition sample_reading :: text_reading where
  "sample_reading = \<lparr>tr_time_spans = \<lambda>_. [], tr_negated = \<lambda>_ _. False, tr_phrase = \<lambda>_. []\<rparr>"

definition sample_request :: "string \<Rightarrow> compilation_mode \<Rightarrow> compile_request" where
  "sample_request question mode =
     \<lparr>cq_question = question, cq_evaluation_clock = \<lparr>ts_local = 1767225599000000, ts_offset = Some 0\<rparr>,
      cq_evaluation_timezone = ''CET'', cq_ontology_scope = [], cq_member_resolution_mode = EXACT_AND_SYNONYM,
      cq_compilation_mode = mode, cq_provider_selection = STATIC\<rparr>"

definition sample_initialization :: "initialize_response res" where
  "sample_initialization =
     initialize small_registry sample_zones sample_reading (sample_request ''the East'' MONTHLY_REGIONAL_COMPARISON) ''c1''"

lemma sample_initialized:
  "case sample_initialization of Inl e \<Rightarrow> False
   | Inr r \<Rightarrow> ir_status r = ST_SUCCEEDED \<and> map (\<lambda>w. ts_local (tw_start w)) (ir_time_windows r) = [1767225600000000, 1764547200000000]
       \<and> map rt_kind (ir_resolved_terms r) = [TERM_MEMBER, TERM_TIME_WINDOW, TERM_TIME_WINDOW]"
  by code_simp

lemma midnight_text:
  "isoformat \<lparr>ts_local = 1767225600000000, ts_offset = Some 3600000000\<rparr> = ''2026-01-01T00:00:00+01:00''"
  by code_simp


section \<open>Chosen mentions\<close>

definition span_of :: "member_match \<Rightarrow> span" where
  "span_of m = (mm_start m, mm_end m)"

lemma by_span_snoc:
  "by_span (ms @ [m]) = dput (span_of m) ((case dget (by_span ms) (span_of m) of None \<Rightarrow> [] | Some xs \<Rightarrow> xs) @ [m]) (by_span ms)"
  by (simp add: by_span_def span_of_def Let_def)

lemma by_span_lookup:
  "dget (by_span ms) k = (if filter (\<lambda>m. span_of m = k) ms = [] then None else Some (filter (\<lambda>m. span_of m = k) ms))"
proof (induction ms rule: rev_induct)
  case Nil
  then show ?case by (simp add: by_span_def)
next
  case (snoc m ms)
  then show ?case by (auto simp: by_span_snoc update_conv' split: if_splits)
qed

lemma by_span_distinct: "distinct (map fst (by_span ms))"
  by (induction ms rule: rev_induct) (simp_all add: by_span_snoc distinct_update, simp add: by_span_def)

lemma by_span_entries:
  "(k, xs) \<in> set (by_span ms) \<longleftrightarrow> xs \<noteq> [] \<and> xs = filter (\<lambda>m. span_of m = k) ms"
  using by_span_lookup [of ms k] map_of_eq_Some_iff [OF by_span_distinct, of ms k xs] by (auto split: if_splits)

definition ranked :: "member_match list \<Rightarrow> (nat \<times> nat \<times> int \<times> member_match list) list" where
  "ranked ms = sort_key span_key (map rank_span (by_span ms))"

lemma ranked_entries:
  assumes "(a, b, k, xs) \<in> set (ranked ms)"
  shows "xs \<noteq> [] \<and> xs = filter (\<lambda>m. span_of m = (a, b) \<and> (\<forall>m' \<in> set ms. span_of m' = (a, b) \<longrightarrow> rank_of m \<le> rank_of m')) ms"
proof -
  obtain ys where ys: "((a, b), ys) \<in> set (by_span ms)" and k: "k = Min (set (map rank_of ys))" "xs = filter (\<lambda>m. rank_of m = k) ys"
    using assms by (auto simp: ranked_def rank_span_def Let_def)
  have ne: "ys \<noteq> []" and eq: "ys = filter (\<lambda>m. span_of m = (a, b)) ms" using ys by (auto simp: by_span_entries)
  have "k \<in> rank_of ` set ys" unfolding k using ne by (simp add: Min_in)
  then have "xs \<noteq> []" by (auto simp: k(2) filter_empty_conv)
  have "rank_of m = k \<longleftrightarrow> (\<forall>m' \<in> set ys. rank_of m \<le> rank_of m')" if "m \<in> set ys" for m
    using that ne unfolding k by (auto intro: antisym Min_le simp: Min_le_iff Min_ge_iff)
  then have "xs = filter (\<lambda>m. \<forall>m' \<in> set ys. rank_of m \<le> rank_of m') ys" unfolding k(2) by (intro filter_cong) auto
  then have "xs = filter (\<lambda>m. span_of m = (a, b) \<and> (\<forall>m' \<in> set ys. rank_of m \<le> rank_of m')) ms"
    by (simp add: eq conj_commute)
  moreover have "set ys = {m' \<in> set ms. span_of m' = (a, b)}" by (auto simp: eq)
  ultimately show ?thesis using \<open>xs \<noteq> []\<close> by (auto intro!: filter_cong)
qed

definition span_r :: "nat \<times> nat \<times> int \<times> member_match list \<Rightarrow> span" where
  "span_r r = (fst r, fst (snd r))"

definition entry_of :: "nat \<times> nat \<times> int \<times> member_match list \<Rightarrow> span \<times> member_match list" where
  "entry_of r = (span_r r, snd (snd (snd r)))"

definition span_len :: "span \<Rightarrow> int" where
  "span_len s = int (snd s) - int (fst s)"

lemma select_spans_Cons:
  "select_spans sel (r # rs) =
     (if list_ex (\<lambda>s. spans_overlap (span_r r) (fst s)) sel then select_spans sel rs else select_spans (sel @ [entry_of r]) rs)"
  by (cases r) (simp add: span_r_def entry_of_def)

declare select_spans.simps(2) [simp del]

lemma select_spans_subset: "set (select_spans sel rs) \<subseteq> set sel \<union> entry_of ` set rs"
proof (induction rs arbitrary: sel)
  case (Cons r rs)
  show ?case using Cons [of sel] Cons [of "sel @ [entry_of r]"] by (auto simp: select_spans_Cons)
qed simp

lemma spans_overlap_refl: "fst s < snd s \<Longrightarrow> spans_overlap s s"
  by (simp add: spans_overlap_def)

lemma spans_overlap_sym: "spans_overlap s t \<longleftrightarrow> spans_overlap t s"
  by (auto simp: spans_overlap_def)

lemma fst_entry_of [simp]: "fst (entry_of r) = span_r r"
  by (simp add: entry_of_def)

lemma select_spans_apart:
  assumes "pairwise (\<lambda>s t. \<not> spans_overlap (fst s) (fst t)) (set sel)" "distinct sel"
    and "\<forall>r \<in> set rs. fst (span_r r) < snd (span_r r)"
  shows "pairwise (\<lambda>s t. \<not> spans_overlap (fst s) (fst t)) (set (select_spans sel rs)) \<and> distinct (select_spans sel rs)"
  using assms
proof (induction rs arbitrary: sel)
  case (Cons r rs)
  show ?case
  proof (cases "list_ex (\<lambda>s. spans_overlap (span_r r) (fst s)) sel")
    case True
    then show ?thesis using Cons by (simp add: select_spans_Cons)
  next
    case False
    have self: "spans_overlap (span_r r) (span_r r)" using Cons.prems by (simp add: spans_overlap_refl)
    then have "entry_of r \<notin> set sel" using False by (auto simp: list_ex_iff dest: bspec)
    moreover have "pairwise (\<lambda>s t. \<not> spans_overlap (fst s) (fst t)) (set (sel @ [entry_of r]))"
      using Cons.prems False by (auto simp: pairwise_insert list_ex_iff spans_overlap_sym)
    ultimately show ?thesis using Cons False by (simp add: select_spans_Cons)
  qed
qed simp

definition covers :: "nat \<times> nat \<times> int \<times> member_match list \<Rightarrow> span \<times> member_match list \<Rightarrow> bool" where
  "covers r s \<longleftrightarrow> spans_overlap (span_r r) (fst s) \<and> span_len (span_r r) \<le> span_len (fst s)"

lemma span_key_le: "span_key r \<le> span_key r' \<Longrightarrow> span_len (span_r r') \<le> span_len (span_r r)"
  by (cases r; cases r') (auto simp: span_key_def span_len_def span_r_def less_eq_prod_def)

lemma select_spans_cover:
  assumes "sorted (map span_key rs)" "\<forall>r \<in> set rs. fst (span_r r) < snd (span_r r)"
    and "\<forall>s \<in> set sel. \<forall>r \<in> set rs. span_len (span_r r) \<le> span_len (fst s)"
  shows "set sel \<subseteq> set (select_spans sel rs) \<and> (\<forall>r \<in> set rs. \<exists>s \<in> set (select_spans sel rs). covers r s)"
  using assms
proof (induction rs arbitrary: sel)
  case (Cons r rs)
  show ?case
  proof (cases "list_ex (\<lambda>s. spans_overlap (span_r r) (fst s)) sel")
    case True
    then obtain s where s: "s \<in> set sel" "spans_overlap (span_r r) (fst s)" by (auto simp: list_ex_iff)
    have ih: "set sel \<subseteq> set (select_spans sel rs) \<and> (\<forall>r \<in> set rs. \<exists>s \<in> set (select_spans sel rs). covers r s)"
      using Cons.prems by (intro Cons.IH) simp_all
    moreover have "covers r s" using Cons.prems s by (simp add: covers_def)
    ultimately show ?thesis using True s by (auto simp: select_spans_Cons)
  next
    case False
    let ?sel = "sel @ [entry_of r]"
    have ih: "set ?sel \<subseteq> set (select_spans ?sel rs) \<and> (\<forall>r \<in> set rs. \<exists>s \<in> set (select_spans ?sel rs). covers r s)"
      using Cons.prems by (intro Cons.IH) (auto intro: span_key_le)
    moreover have "covers r (entry_of r)" using Cons.prems by (simp add: covers_def spans_overlap_refl)
    ultimately show ?thesis using False by (auto simp: select_spans_Cons)
  qed
qed simp

text \<open>
  C9: The choice among member mentions keeps the longest ones. When no mention
  is empty, the chosen spans follow one another in the text without overlap;
  every mention overlaps a chosen span that is at least as long; and the matches
  kept for a chosen span are exactly the matches of that span whose source
  (identifier, label, synonym) ranks best.
\<close>

theorem longest_mentions_are_chosen:
  assumes "\<forall>m \<in> set ms. mm_start m < mm_end m"
  shows "preferred_member_matches ms = map snd (preferred_spans ms)
    \<and> sorted_wrt (\<lambda>s t. snd (fst s) \<le> fst (fst t)) (preferred_spans ms)
    \<and> (\<forall>m \<in> set ms. \<exists>s \<in> set (preferred_spans ms). spans_overlap (span_of m) (fst s) \<and> span_len (span_of m) \<le> span_len (fst s))
    \<and> (\<forall>s \<in> set (preferred_spans ms). snd s \<noteq> [] \<and> snd s = filter (\<lambda>m. span_of m = fst s
         \<and> (\<forall>m' \<in> set ms. span_of m' = fst s \<longrightarrow> rank_of m \<le> rank_of m')) ms)"
proof -
  let ?rs = "ranked ms" and ?ss = "select_spans [] (ranked ms)"
  have ps: "preferred_spans ms = sort_key (\<lambda>s. fst (fst s)) ?ss" by (simp add: preferred_spans_def ranked_def)
  have entries: "snd (entry_of r) \<noteq> [] \<and> snd (entry_of r) = filter (\<lambda>m. span_of m = span_r r
         \<and> (\<forall>m' \<in> set ms. span_of m' = span_r r \<longrightarrow> rank_of m \<le> rank_of m')) ms" if "r \<in> set ?rs" for r
  proof -
    obtain a b k xs where r: "r = (a, b, k, xs)" by (cases r)
    show ?thesis
      unfolding r entry_of_def span_r_def fst_conv snd_conv using that r by (intro ranked_entries [of a b k xs]) simp
  qed
  have pos: "\<forall>r \<in> set ?rs. fst (span_r r) < snd (span_r r)"
  proof
    fix r assume "r \<in> set ?rs"
    from entries [OF this] obtain m where "m \<in> set ms" "span_of m = span_r r" by (metis (mono_tags, lifting) filter_False)
    with assms show "fst (span_r r) < snd (span_r r)" by (metis span_of_def fst_conv snd_conv)
  qed
  have sub: "set ?ss \<subseteq> entry_of ` set ?rs" using select_spans_subset [of "[]" ?rs] by simp
  have cover: "\<forall>r \<in> set ?rs. \<exists>s \<in> set ?ss. covers r s"
    using select_spans_cover [OF _ pos, of "[]"] by (simp add: ranked_def)
  have apart: "pairwise (\<lambda>s t. \<not> spans_overlap (fst s) (fst t)) (set ?ss)" "distinct ?ss"
    using select_spans_apart [OF _ _ pos, of "[]"] by (simp_all add: pairwise_def)
  have spos: "fst (fst s) < snd (fst s)" if "s \<in> set ?ss" for s using sub pos that by auto
  have order: "sorted_wrt (\<lambda>s t. snd (fst s) \<le> fst (fst t)) (preferred_spans ms)"
  proof (unfold sorted_wrt_iff_nth_less, intro allI impI)
    fix i j assume ij: "i < j" "j < length (preferred_spans ms)"
    let ?s = "preferred_spans ms ! i" and ?t = "preferred_spans ms ! j"
    have mem: "?s \<in> set ?ss" "?t \<in> set ?ss"
      using ij nth_mem [of i "preferred_spans ms"] nth_mem [of j "preferred_spans ms"] by (auto simp: ps)
    have "distinct (preferred_spans ms)" using apart(2) by (simp add: ps)
    then have "?s \<noteq> ?t" using ij by (simp add: nth_eq_iff_index_eq)
    then have "\<not> spans_overlap (fst ?s) (fst ?t)" using apart(1) mem by (auto simp: pairwise_def)
    moreover have "fst (fst ?s) \<le> fst (fst ?t)"
      using sorted_nth_mono [of "map (\<lambda>s. fst (fst s)) (preferred_spans ms)" i j] ij by (simp add: ps)
    ultimately show "snd (fst ?s) \<le> fst (fst ?t)" using spos [OF mem(2)] by (auto simp: spans_overlap_def)
  qed
  have reach: "\<exists>s \<in> set (preferred_spans ms). spans_overlap (span_of m) (fst s) \<and> span_len (span_of m) \<le> span_len (fst s)"
    if "m \<in> set ms" for m
  proof -
    have "(span_of m, filter (\<lambda>x. span_of x = span_of m) ms) \<in> set (by_span ms)"
      using that by (auto simp: by_span_entries filter_empty_conv)
    then obtain r where r: "r \<in> set ?rs" "span_r r = span_of m"
      by (force simp: ranked_def span_r_def rank_span_def Let_def)
    show ?thesis using bspec [OF cover r(1)] by (simp add: covers_def ps r(2))
  qed
  have groups: "snd s \<noteq> [] \<and> snd s = filter (\<lambda>m. span_of m = fst s
      \<and> (\<forall>m' \<in> set ms. span_of m' = fst s \<longrightarrow> rank_of m \<le> rank_of m')) ms" if s: "s \<in> set (preferred_spans ms)" for s
  proof -
    obtain r where r: "r \<in> set ?rs" "s = entry_of r" using s sub by (auto simp: ps)
    show ?thesis unfolding r(2) fst_entry_of by (rule entries [OF r(1)])
  qed
  show ?thesis
    by (intro conjI ballI preferred_member_matches_def [THEN trans] refl order reach groups [THEN conjunct1] groups [THEN conjunct2])
qed

definition sample_match :: "string \<Rightarrow> resolution_source \<Rightarrow> nat \<Rightarrow> nat \<Rightarrow> member_match" where
  "sample_match i source a b = \<lparr>mm_candidate = \<lparr>ca_source_text = i, ca_kind = TERM_MEMBER, ca_machine_id = i, ca_source = source\<rparr>,
     mm_start = a, mm_end = b\<rparr>"

definition sample_matches :: "member_match list" where
  "sample_matches = [sample_match ''east'' SYNONYM 8 12, sample_match ''north-east'' LABEL 2 12, sample_match ''west'' SYNONYM 14 18,
     sample_match ''far-west'' LABEL 14 18]"

theorem longest_mentions_are_chosen_witness:
  "map (\<lambda>s. (fst s, map (\<lambda>m. ca_machine_id (mm_candidate m)) (snd s))) (preferred_spans sample_matches)
     = [((2, 12), [''north-east'']), ((14, 18), [''far-west''])]
   \<and> sorted_wrt (\<lambda>s t. snd (fst s) \<le> fst (fst t)) (preferred_spans sample_matches)"
proof -
  have "\<forall>m \<in> set sample_matches. mm_start m < mm_end m" by (simp add: sample_matches_def sample_match_def)
  from longest_mentions_are_chosen [OF this]
  have "sorted_wrt (\<lambda>s t. snd (fst s) \<le> fst (fst t)) (preferred_spans sample_matches)" by (elim conjE)
  moreover have "map (\<lambda>s. (fst s, map (\<lambda>m. ca_machine_id (mm_candidate m)) (snd s))) (preferred_spans sample_matches)
     = [((2, 12), [''north-east'']), ((14, 18), [''far-west''])]" by code_simp
  ultimately show ?thesis by simp
qed

end
