(* ===== verification/Trusted_Filters.thy ===== *)
theory Trusted_Filters
  imports Semantic_Governance
begin

text \<open>
  The meaning of an accepted graph in a trusted compilation mode. Such a graph
  is a chain from one selection through filters to the aggregation, and its
  filters keep exactly the rows that the resolved members and the normalized
  time windows of the question describe.
\<close>

section \<open>Chains\<close>

lemma chain_decreasing: "dependency_chain g ks \<Longrightarrow> sorted_wrt (>) ks \<and> (\<forall>k \<in> set ks. k < length (qg_nodes g))"
  by (induction rule: dependency_chain.induct) auto

lemma decreasing_complete:
  assumes "sorted_wrt (>) (ks :: nat list)" "\<forall>k \<in> set ks. k < n" "length ks = n"
  shows "ks = rev [0..<n]"
proof -
  have s: "sorted_wrt (<) (rev ks)" using assms(1) by (simp add: sorted_wrt_rev)
  then have d: "distinct (rev ks)" "sorted (rev ks)" by (simp_all add: strict_sorted_iff)
  have "set (rev ks) \<subseteq> set [0..<n]" using assms(2) by auto
  moreover have "card (set (rev ks)) = n" using d(1) assms(3) by (simp add: distinct_card)
  ultimately have "set (rev ks) = set [0..<n]" by (metis card_subset_eq card_atLeastLessThan diff_zero finite_set set_upt)
  then have "rev ks = [0..<n]" using d by (metis sorted_distinct_set_unique distinct_upt sorted_upt)
  then show ?thesis by (metis rev_rev_ident)
qed

lemma chain_dependencies:
  "dependency_chain g ks \<Longrightarrow>
   (\<forall>i. Suc i < length ks \<longrightarrow> nd_dependencies (qg_nodes g ! (ks ! i)) = [nd_id (qg_nodes g ! (ks ! Suc i))])
   \<and> nd_dependencies (qg_nodes g ! last ks) = []"
proof (induction rule: dependency_chain.induct)
  case (chain_step k j ks)
  have "nd_dependencies (qg_nodes g ! ((k # j # ks) ! i)) = [nd_id (qg_nodes g ! ((k # j # ks) ! Suc i))]"
    if "Suc i < length (k # j # ks)" for i
    using that chain_step by (cases i) auto
  with chain_step show ?case by simp
qed simp

text \<open>When the walk visits as many nodes as there are, the graph is the reversed walk.\<close>

definition chain_graph :: "sqg \<Rightarrow> bool" where
  "chain_graph g \<longleftrightarrow>
     (\<forall>i. Suc i < length (qg_nodes g) \<longrightarrow> nd_dependencies (qg_nodes g ! Suc i) = [nd_id (qg_nodes g ! i)])
     \<and> qg_output_node_id g = nd_id (last (qg_nodes g))"

lemma full_chain:
  assumes "dependency_chain g (k # ks)" "Suc (length ks) = length (qg_nodes g)"
    and "nd_id (qg_nodes g ! k) = qg_output_node_id g"
  shows "chain_graph g \<and> map ((!) (qg_nodes g)) (k # ks) = rev (qg_nodes g)"
proof -
  let ?n = "length (qg_nodes g)"
  have kks: "k # ks = rev [0..<?n]"
    using chain_decreasing [OF assms(1)] assms(2) by (intro decreasing_complete) auto
  have pos: "0 < ?n" using assms(2) by (metis zero_less_Suc)
  have at: "(k # ks) ! i = ?n - Suc i" if "i < ?n" for i
    using that unfolding kks by (simp add: rev_nth)
  have deps: "nd_dependencies (qg_nodes g ! Suc i) = [nd_id (qg_nodes g ! i)]" if "Suc i < ?n" for i
  proof -
    let ?j = "?n - Suc (Suc i)"
    have "Suc ?j < length (k # ks)" using that assms(2) by simp
    then have "nd_dependencies (qg_nodes g ! ((k # ks) ! ?j)) = [nd_id (qg_nodes g ! ((k # ks) ! Suc ?j))]"
      using chain_dependencies [OF assms(1)] by blast
    moreover have "(k # ks) ! ?j = Suc i" using that at [of ?j] by simp
    moreover have "(k # ks) ! Suc ?j = i" using that at [of "Suc ?j"] by (simp only:)
    ultimately show ?thesis by simp
  qed
  have "k = ?n - 1" using at [OF pos] by simp
  then have "qg_output_node_id g = nd_id (last (qg_nodes g))"
    using assms(3) pos by (simp add: last_conv_nth)
  moreover have "map ((!) (qg_nodes g)) (k # ks) = rev (qg_nodes g)"
    unfolding kks by (simp flip: rev_map add: map_nth)
  ultimately show ?thesis using deps by (simp add: chain_graph_def)
qed

lemma mode_topology:
  assumes "well_structured g" "validate_compilation_mode g (Some fl) mode terms windows = Inr []"
  shows "chain_graph g \<and> exact_topology g mode (qg_nodes g)"
proof -
  obtain k where k: "k < length (qg_nodes g)" "nd_id (qg_nodes g ! k) = qg_output_node_id g"
      "dget (node_by_id g) (qg_output_node_id g) = Some (qg_nodes g ! k)"
    using output_position [OF assms(1)] .
  obtain w where w: "linear_walk (length (qg_nodes g)) (node_by_id g) [] (Some (qg_nodes g ! k)) = Inr w"
      "w = [] \<or> (\<exists>ks. dependency_chain g (k # ks) \<and> w = map ((!) (qg_nodes g)) (k # ks))"
    using linear_walk_chain [OF assms(1) k(1) k(1), of "[]"] by auto
  have t: "exact_topology g mode (rev w)"
    using assms(2) by (simp add: validate_compilation_mode_def Let_def k(3) w(1))
  then have "w \<noteq> []" "length w = length (qg_nodes g)" by (auto simp: exact_topology_def Let_def)
  with w(2) obtain ks where ks: "dependency_chain g (k # ks)" "w = map ((!) (qg_nodes g)) (k # ks)" by blast
  have "chain_graph g \<and> w = rev (qg_nodes g)"
    using full_chain [OF ks(1) _ k(2)] ks(2) \<open>length w = length (qg_nodes g)\<close> by simp
  then show ?thesis using t by simp
qed

section \<open>Flows along a chain\<close>

lemma validate_nodes_other:
  "validate_nodes rg s i ns flows = Inr (ds, flows') \<Longrightarrow> x \<notin> nd_id ` set ns \<Longrightarrow> dget flows' x = dget flows x"
proof (induction ns arbitrary: i flows ds)
  case (Cons n ns)
  then obtain r d2 where "validate_nodes rg s (Suc i) ns (record_flow (nd_id n) (snd r) flows) = Inr (d2, flows')" by auto
  from Cons.IH [OF this] Cons.prems(2) show ?case by (auto simp: record_flow_def split: option.splits)
qed simp

lemma validate_nodes_flows:
  assumes "validate_nodes rg s i ns flows = Inr ([], flows')" "distinct (map nd_id ns)" "k < length ns"
  shows "\<exists>fl fls. validate_node rg s (i + k) (ns ! k) fls = Inr ([], Some fl) \<and> dget flows' (nd_id (ns ! k)) = Some fl
    \<and> (\<forall>x. x \<notin> nd_id ` set (drop k ns) \<longrightarrow> dget fls x = dget flows' x)"
  using assms
proof (induction ns arbitrary: i flows k)
  case (Cons n ns)
  obtain out where out: "validate_node rg s i n flows = Inr ([], out)"
      "validate_nodes rg s (Suc i) ns (record_flow (nd_id n) out flows) = Inr ([], flows')"
    using Cons.prems(1) by auto
  obtain fl where fl: "out = Some fl" using validate_node_silent [OF out(1)] by auto
  have n: "dget flows' (nd_id n) = Some fl"
    using validate_nodes_other [OF out(2), of "nd_id n"] Cons.prems(2) by (simp add: record_flow_def fl)
  show ?case
  proof (cases k)
    case 0
    have "dget flows x = dget flows' x" if "x \<notin> nd_id ` set (n # ns)" for x
      using validate_nodes_other [OF Cons.prems(1) that] by simp
    then show ?thesis using out(1) fl n 0 by (intro exI [of _ fl] exI [of _ flows]) simp
  next
    case (Suc k')
    then show ?thesis using Cons.IH [OF out(2), of k'] Cons.prems(2,3) by simp
  qed
qed simp

lemma those_single: "those (map h [x]) = Some ys \<longleftrightarrow> (\<exists>y. h x = Some y \<and> ys = [y])"
  by (auto split: option.splits)

text \<open>In an accepted chain every node reads the flow of the node before it.\<close>

lemma chain_flow_step:
  assumes "validate_nodes rg s 0 (qg_nodes g) [] = Inr ([], flows)" "distinct (node_ids_of g)" "chain_graph g"
    and "Suc k < length (qg_nodes g)" "nd_operator (qg_nodes g ! Suc k) \<noteq> SELECT"
  shows "\<exists>fl fl'. dget flows (nd_id (qg_nodes g ! k)) = Some fl \<and> dget flows (nd_id (qg_nodes g ! Suc k)) = Some fl'
    \<and> nd_operator (qg_nodes g ! Suc k) = parameters_kind (nd_parameters (qg_nodes g ! Suc k))
    \<and> operator_flow rg s (node_path (Suc k)) (nd_parameters (qg_nodes g ! Suc k)) [fl] = Inr ([], fl')"
proof -
  let ?ns = "qg_nodes g"
  obtain fl' fls where v: "validate_node rg s (Suc k) (?ns ! Suc k) fls = Inr ([], Some fl')"
      "dget flows (nd_id (?ns ! Suc k)) = Some fl'" and fls: "\<And>x. x \<notin> nd_id ` set (drop (Suc k) ?ns) \<Longrightarrow> dget fls x = dget flows x"
    using validate_nodes_flows [OF assms(1) _ assms(4)] assms(2) by (auto simp: node_ids_of_def)
  have "nd_id (?ns ! k) \<notin> nd_id ` set (drop (Suc k) ?ns)"
  proof
    assume "nd_id (?ns ! k) \<in> nd_id ` set (drop (Suc k) ?ns)"
    then obtain n where "n \<in> set (drop (Suc k) ?ns)" "nd_id (?ns ! k) = nd_id n" by auto
    then obtain j where j: "Suc k + j < length ?ns" "nd_id (?ns ! k) = nd_id (?ns ! (Suc k + j))"
      by (metis in_set_conv_nth length_drop less_diff_conv add.commute nth_drop assms(4) less_imp_le)
    then show False
      using assms(2,4) nth_eq_iff_index_eq [of "map nd_id ?ns" k "Suc k + j"] by (simp add: node_ids_of_def)
  qed
  then have same: "dget fls (nd_id (?ns ! k)) = dget flows (nd_id (?ns ! k))" by (rule fls)
  have deps: "nd_dependencies (?ns ! Suc k) = [nd_id (?ns ! k)]" using assms(3,4) by (simp add: chain_graph_def)
  have ns: "\<not> is_select_node (?ns ! Suc k)" using assms(5) by (simp add: is_select_node_def)
  obtain fl where "dget fls (nd_id (?ns ! k)) = Some fl"
      "nd_operator (?ns ! Suc k) = parameters_kind (nd_parameters (?ns ! Suc k))"
      "operator_flow rg s (node_path (Suc k)) (nd_parameters (?ns ! Suc k)) [fl] = Inr ([], fl')"
    using v(1) unfolding validate_node_inner [OF ns] deps by (auto split: option.splits if_splits)
  then show ?thesis using v(2) same by auto
qed

lemma chain_flow_start:
  assumes "validate_nodes rg s 0 (qg_nodes g) [] = Inr ([], flows)" "distinct (node_ids_of g)"
    and "0 < length (qg_nodes g)" "nd_operator (qg_nodes g ! 0) = SELECT"
  shows "\<exists>e cs fl. nd_parameters (qg_nodes g ! 0) = SelectParameters e cs \<and> dget flows (nd_id (qg_nodes g ! 0)) = Some fl
    \<and> select_flow rg e cs (node_path 0) s = ([], fl)"
proof -
  obtain fl fls where v: "validate_node rg s 0 (qg_nodes g ! 0) fls = Inr ([], Some fl)" "dget flows (nd_id (qg_nodes g ! 0)) = Some fl"
    using validate_nodes_flows [OF assms(1) _ assms(3)] assms(2) by (auto simp: node_ids_of_def)
  have "is_select_node (qg_nodes g ! 0)"
  proof (rule ccontr)
    assume n: "\<not> is_select_node (qg_nodes g ! 0)"
    then show False
      using v(1) assms(4) unfolding validate_node_inner [OF n] by (auto simp: is_select_node_def split: option.splits if_splits)
  qed
  then obtain e cs where "nd_parameters (qg_nodes g ! 0) = SelectParameters e cs"
      "validate_node rg s 0 (qg_nodes g ! 0) fls = Inr (map_prod id Some (select_flow rg e cs (node_path 0) s))"
    by (rule is_select_nodeE)
  with v show ?thesis by (cases "select_flow rg e cs (node_path 0) s") auto
qed

section \<open>Constraints along a chain\<close>

definition same_constraints :: "flow \<Rightarrow> flow \<Rightarrow> bool" where
  "same_constraints a b \<longleftrightarrow> fl_member_constraints a = fl_member_constraints b \<and> fl_time_constraints a = fl_time_constraints b"

lemma operator_flow_constraints:
  assumes "operator_flow rg s p ps [fl] = Inr (ds, fl')" "parameters_kind ps \<notin> {SELECT, FILTER, JOIN}"
  shows "same_constraints fl fl'"
  using assms
  by (cases ps) (auto simp: operator_flow_def same_constraints_def aggregate_flow_def pivot_flow_def derive_flow_def
      project_flow_def sort_flow_def Let_def split: prod.splits)

text \<open>The filters of a chain, starting from the flow of its selection.\<close>

inductive filter_chain :: "registry \<Rightarrow> flow \<Rightarrow> predicate list \<Rightarrow> flow \<Rightarrow> bool" for rg where
  filter_none: "filter_chain rg fl [] fl"
| filter_more: "filter_chain rg fl ps fl' \<Longrightarrow> validate_predicate rg p fl' path = []
    \<Longrightarrow> filter_chain rg fl (ps @ [p]) (filtered_flow rg p fl')"

lemma filtered_flow_columns [simp]: "fl_columns (filtered_flow rg p fl) = fl_columns fl"
  by (simp add: filtered_flow_def split: option.splits)

lemma filter_chain_columns: "filter_chain rg fl ps fl' \<Longrightarrow> fl_columns fl' = fl_columns fl"
  by (induction rule: filter_chain.induct) simp_all

lemma chain_tail:
  assumes "validate_nodes rg s 0 (qg_nodes g) [] = Inr ([], flows)" "distinct (node_ids_of g)" "chain_graph g"
    and "i < length (qg_nodes g)" "dget flows (nd_id (qg_nodes g ! i)) = Some fl"
    and "\<And>k. i < k \<Longrightarrow> k < length (qg_nodes g) \<Longrightarrow> nd_operator (qg_nodes g ! k) \<notin> {SELECT, FILTER, JOIN}"
    and "i \<le> k" "k < length (qg_nodes g)"
  shows "\<exists>fl'. dget flows (nd_id (qg_nodes g ! k)) = Some fl' \<and> same_constraints fl fl'"
  using assms(7,8)
proof (induction k rule: dec_induct)
  case base
  then show ?case using assms(5) by (simp add: same_constraints_def)
next
  case (step k)
  obtain a where a: "dget flows (nd_id (qg_nodes g ! k)) = Some a" "same_constraints fl a" using step by auto
  have op: "nd_operator (qg_nodes g ! Suc k) \<notin> {SELECT, FILTER, JOIN}" using assms(6) step by simp
  obtain b where "dget flows (nd_id (qg_nodes g ! Suc k)) = Some b"
      "nd_operator (qg_nodes g ! Suc k) = parameters_kind (nd_parameters (qg_nodes g ! Suc k))"
      "operator_flow rg s (node_path (Suc k)) (nd_parameters (qg_nodes g ! Suc k)) [a] = Inr ([], b)"
    using chain_flow_step [OF assms(1-3), of k] step.prems op a(1) by auto
  then show ?case using operator_flow_constraints [of rg s "node_path (Suc k)" _ a "[]" b] op a(2) by (auto simp: same_constraints_def)
qed

lemma chain_filters:
  assumes "validate_nodes rg s 0 (qg_nodes g) [] = Inr ([], flows)" "distinct (node_ids_of g)" "chain_graph g"
    and "dget flows (nd_id (qg_nodes g ! 0)) = Some fl"
    and "m < length (qg_nodes g)" "\<And>k. 0 < k \<Longrightarrow> k \<le> m \<Longrightarrow> nd_operator (qg_nodes g ! k) = FILTER"
  shows "\<exists>ps fl'. map nd_parameters (take m (tl (qg_nodes g))) = map FilterParameters ps
    \<and> dget flows (nd_id (qg_nodes g ! m)) = Some fl' \<and> filter_chain rg fl ps fl'"
  using assms(5,6)
proof (induction m)
  case 0
  then show ?case using assms(4) by (auto intro: filter_none)
next
  case (Suc m)
  obtain ps a where a: "map nd_parameters (take m (tl (qg_nodes g))) = map FilterParameters ps"
      "dget flows (nd_id (qg_nodes g ! m)) = Some a" "filter_chain rg fl ps a"
    using Suc by auto
  have op: "nd_operator (qg_nodes g ! Suc m) = FILTER" using Suc.prems(2) by simp
  obtain b where b: "dget flows (nd_id (qg_nodes g ! Suc m)) = Some b"
      "nd_operator (qg_nodes g ! Suc m) = parameters_kind (nd_parameters (qg_nodes g ! Suc m))"
      "operator_flow rg s (node_path (Suc m)) (nd_parameters (qg_nodes g ! Suc m)) [a] = Inr ([], b)"
    using chain_flow_step [OF assms(1-3) Suc.prems(1)] op a(2) by auto
  obtain p where p: "nd_parameters (qg_nodes g ! Suc m) = FilterParameters p"
    using b(2) op by (cases "nd_parameters (qg_nodes g ! Suc m)") auto
  then have v: "validate_predicate rg p a (node_path (Suc m)) = []" "b = filtered_flow rg p a"
    using b(3) by (auto simp: operator_flow_def)
  have "take (Suc m) (tl (qg_nodes g)) = take m (tl (qg_nodes g)) @ [qg_nodes g ! Suc m]"
    using Suc.prems(1) by (simp add: take_Suc_conv_app_nth nth_tl)
  then have "map nd_parameters (take (Suc m) (tl (qg_nodes g))) = map FilterParameters (ps @ [p])" using a(1) p by simp
  moreover have "filter_chain rg fl (ps @ [p]) b" unfolding v(2) by (rule filter_more [OF a(3) v(1)])
  ultimately show ?case using b(1) by blast
qed

text \<open>The columns of a selection that are ontology fields.\<close>

lemma select_flow_fields:
  assumes "registry_ok rg" "select_flow rg e cs p s = ([], fl)" "dget (fl_columns fl) c = Some x" "dget (rg_fields rg) c = Some f"
  shows "x = field_column f"
proof -
  let ?I = "\<lambda>acc :: columns \<times> string set. \<forall>c x f. dget (fst acc) c = Some x \<longrightarrow> dget (rg_fields rg) c = Some f \<longrightarrow> x = field_column f"
  obtain acc where acc: "check_fold (select_column rg e s p) 0 cs ([], {}) = ([], acc)" and fl: "fl_columns fl = fst acc"
    using assms(2) by (auto simp: select_flow_def Let_def split: prod.splits)
  have "?I acc"
    using acc
  proof (rule check_fold_inv)
    fix j c t t' assume st: "select_column rg e s p j c t = ([], t')" and I: "?I t"
    obtain x where "fst t' = dput c x (fst t)"
        "x = field_column (the (dget (rg_fields rg) c)) \<and> dget (rg_fields rg) c \<noteq> None
          \<or> x = metric_column (the (dget (rg_metrics rg) c)) \<and> dget (rg_fields rg) c = None"
      using select_column_cases [OF assms(1) st] by blast
    then show "?I t'" using I by (auto split: if_splits)
  qed simp
  then show ?thesis using assms(3,4) fl by simp
qed

lemma select_flow_unconstrained: "select_flow rg e cs p s = (ds, fl) \<Longrightarrow> fl_member_constraints fl = [] \<and> fl_time_constraints fl = []"
  by (auto simp: select_flow_def Let_def split: prod.splits)

section \<open>Meaning of filters\<close>

text \<open>
  A source row gives every column a cell: a member identifier, an instant or
  something else. \<open>keeps\<close> reads the predicates a trusted mode can contain.
\<close>

datatype cell = CellText string | CellInstant int | CellOther

type_synonym row = "string \<Rightarrow> cell"

definition in_window :: "int \<times> int \<Rightarrow> cell \<Rightarrow> bool" where
  "in_window w c = (case c of CellInstant t \<Rightarrow> fst w \<le> t \<and> t < snd w | _ \<Rightarrow> False)"

definition keeps :: "predicate \<Rightarrow> row \<Rightarrow> bool option" where
  "keeps p r =
     (let c = r (pr_column p)
      in case (pr_operator p, pr_value p) of
        (EQ, PScalar (SString m)) \<Rightarrow> Some (c = CellText m)
      | (IN, PList vs) \<Rightarrow> if list_all (\<lambda>v. case v of SString _ \<Rightarrow> True | _ \<Rightarrow> False) vs
          then Some (\<exists>m. c = CellText m \<and> SString m \<in> set vs) else None
      | (BETWEEN, PMap b) \<Rightarrow>
          (case (Option.bind (boundary b ''start'') as_utc, Option.bind (boundary b ''end_exclusive'') as_utc) of
             (Some s, Some e) \<Rightarrow> Some (in_window (s, e) c)
           | _ \<Rightarrow> None)
      | _ \<Rightarrow> None)"

lemma keeps_member: "member_predicate rg f p ms \<Longrightarrow> keeps p r = Some (\<exists>m \<in> set ms. r (pr_column p) = CellText m)"
  by (cases ms) (auto simp: member_predicate_def keeps_def Let_def list_all_iff image_iff)

lemma keeps_window: "predicate_window p = Some w \<Longrightarrow> keeps p r = Some (in_window w (r (pr_column p)))"
  by (auto simp: predicate_window_def keeps_def Let_def split: predicate_operator.splits predicate_value.splits if_splits option.splits)

lemma fields_differ [simp]: "region_field \<noteq> period_field" "period_field \<noteq> region_field"
  by (simp_all add: region_field_def period_field_def)

text \<open>The two fields a trusted mode filters on, as the ontology declares them.\<close>

definition trusted_ontology :: "registry \<Rightarrow> bool" where
  "trusted_ontology rg =
     (case (dget (rg_fields rg) region_field, dget (rg_fields rg) period_field) of
        (Some rf, Some pf) \<Rightarrow> of_data_type rf = STRING \<and> of_members rf \<noteq> [] \<and> of_data_type pf = DATETIME \<and> of_members pf = []
      | _ \<Rightarrow> False)"

lemma field_column_region:
  assumes "registry_ok rg" "trusted_ontology rg"
  obtains rf pf where "dget (rg_fields rg) region_field = Some rf" "dget (rg_fields rg) period_field = Some pf"
    "cl_member_domain (field_column rf) = Some region_field" "cl_time_domain (field_column rf) = None"
    "cl_member_domain (field_column pf) = None" "cl_time_domain (field_column pf) = Some period_field"
    "cl_constraint_eligible (field_column rf)" "cl_constraint_eligible (field_column pf)"
  using assms(2) registry_ids(1) [OF assms(1)]
  by (auto simp: trusted_ontology_def field_column_def split: option.splits)

definition on :: "string \<Rightarrow> predicate list \<Rightarrow> predicate list" where
  "on c ps = filter (\<lambda>p. pr_column p = c) ps"

lemma filter_chain_constraints:
  assumes "registry_ok rg" "trusted_ontology rg" "filter_chain rg fl ps fl'"
    and "fl_member_constraints fl = [] \<and> fl_time_constraints fl = []"
    and cols: "\<And>c x f. dget (fl_columns fl) c = Some x \<Longrightarrow> dget (rg_fields rg) c = Some f \<Longrightarrow> x = field_column f"
    and "\<forall>p \<in> set ps. pr_column p \<in> {region_field, period_field}"
  shows "fl_member_constraints fl' = map (\<lambda>p. \<lparr>mc_field_id = region_field, mc_values = predicate_members rg (pr_value p),
      mc_source_enforcing = True\<rparr>) (on region_field ps)
    \<and> fl_time_constraints fl' = map (\<lambda>p. \<lparr>tc_field_id = period_field, tc_window = predicate_window p,
      tc_source_enforcing = True\<rparr>) (on period_field ps)
    \<and> (\<forall>p \<in> set (on region_field ps). \<exists>ms. member_predicate rg region_field p ms)"
  using assms(3,4,6) cols
proof (induction rule: filter_chain.induct)
  case (filter_none fl)
  then show ?case by (simp add: on_def)
next
  case (filter_more fl ps fl' p path)
  obtain rf pf where f: "dget (rg_fields rg) region_field = Some rf" "dget (rg_fields rg) period_field = Some pf"
    and rf: "cl_member_domain (field_column rf) = Some region_field" "cl_time_domain (field_column rf) = None" "cl_constraint_eligible (field_column rf)"
    and pf: "cl_member_domain (field_column pf) = None" "cl_time_domain (field_column pf) = Some period_field" "cl_constraint_eligible (field_column pf)"
    using field_column_region [OF assms(1,2)] by metis
  obtain c where c: "dget (fl_columns fl') (pr_column p) = Some c"
    using filter_more.hyps(2) by (auto simp: validate_predicate_def Let_def require_column_def split: option.splits)
  then have c': "dget (fl_columns fl) (pr_column p) = Some c" using filter_chain_columns [OF filter_more.hyps(1)] by simp
  have ih: "fl_member_constraints fl' = map (\<lambda>p. \<lparr>mc_field_id = region_field, mc_values = predicate_members rg (pr_value p),
      mc_source_enforcing = True\<rparr>) (on region_field ps)"
      "fl_time_constraints fl' = map (\<lambda>p. \<lparr>tc_field_id = period_field, tc_window = predicate_window p,
      tc_source_enforcing = True\<rparr>) (on period_field ps)" "\<forall>p \<in> set (on region_field ps). \<exists>ms. member_predicate rg region_field p ms"
    using filter_more.IH filter_more.prems by auto
  consider (region) "pr_column p = region_field" "c = field_column rf" | (period) "pr_column p = period_field" "c = field_column pf"
    using filter_more.prems(2,3) c' f by force
  then show ?case
  proof cases
    case region
    obtain ms where ms: "member_predicate rg region_field p ms"
      using member_predicate_shape [OF filter_more.hyps(2) c] region rf(1) by auto
    then have "pr_operator p \<in> {EQ, IN}" by (auto simp: member_predicate_def)
    then show ?thesis using ih ms region rf c by (auto simp: filtered_flow_def on_def)
  next
    case period
    then show ?thesis using ih pf c by (auto simp: filtered_flow_def on_def)
  qed
qed

section \<open>Coverage\<close>

definition requested_windows :: "time_window list \<Rightarrow> (int \<times> int) set" where
  "requested_windows windows = set (map (\<lambda>w. (instant_of (tw_start w), instant_of (tw_end_exclusive w))) windows)"

lemma as_utc_instant: "as_utc t = Some u \<Longrightarrow> u = instant_of t"
  by (auto simp: as_utc_def astimezone_utc_def instant_of_def Let_def split: option.splits if_splits)

lemma window_instants_ok:
  "check_fold window_instants i windows ws = ([], ws') \<Longrightarrow> ws' = ws \<union> requested_windows windows"
proof (induction windows arbitrary: i ws)
  case (Cons w windows)
  obtain ws1 where s: "window_instants i w ws = ([], ws1)" "check_fold window_instants (Suc i) windows ws1 = ([], ws')"
    using Cons.prems unfolding check_fold_Cons_empty by blast
  have "ws1 = insert (instant_of (tw_start w), instant_of (tw_end_exclusive w)) ws"
    using s(1) by (auto simp: window_instants_def split: option.splits dest!: as_utc_instant)
  then show ?case using Cons.IH [OF s(2)] by (auto simp: requested_windows_def)
qed (simp add: requested_windows_def)

lemma report_nil_iff: "concat (map (\<lambda>t. report (P t) c p) ts) = [] \<longleftrightarrow> (\<forall>t \<in> set ts. \<not> P t)"
  by auto

text \<open>What a silent coverage check says about the constraints of the output flow.\<close>

lemma coverage_silent:
  assumes "validate_constraint_coverage rg (Some fl) terms windows (Some mode) = []"
    and "\<And>m. m \<in> set (fl_member_constraints fl) \<Longrightarrow> finite (mc_values m)"
  shows "resolved_ids TERM_MEMBER terms \<subseteq> (\<Union>m \<in> set (filter mc_source_enforcing (fl_member_constraints fl)). mc_values m)
    \<and> (\<Union>m \<in> set (fl_member_constraints fl). mc_values m) \<subseteq> resolved_ids TERM_MEMBER terms
    \<and> (\<forall>m \<in> set (fl_member_constraints fl). length (filter (\<lambda>m'. mc_field_id m' = mc_field_id m) (fl_member_constraints fl)) = 1)
    \<and> (\<forall>t \<in> set (fl_time_constraints fl). tc_window t \<noteq> None)
    \<and> {w. \<exists>t \<in> set (fl_time_constraints fl). tc_window t = Some w} = filter_windows (Some mode) (requested_windows windows)"
proof -
  let ?mcs = "fl_member_constraints fl" and ?tcs = "fl_time_constraints fl" and ?exp = "resolved_ids TERM_MEMBER terms"
  obtain ws where w: "check_fold window_instants 0 windows {} = ([], ws)"
    using assms(1) unfolding validate_constraint_coverage_def
    by (cases "check_fold window_instants 0 windows {}") (simp add: Let_def)
  have ws: "ws = requested_windows windows" using window_instants_ok [OF w] by simp
  let ?fws = "filter_windows (Some mode) ws" and ?tfs = "expected_time_fields rg terms (Some mode) ws"
  have fin: "finite ?exp" "finite ((\<Union>m \<in> set ?mcs. mc_values m) - ?exp)" "finite (?exp - X)" for X
    using assms(2) by (auto simp: resolved_ids_def)
  have nil: "?exp \<subseteq> (\<Union>m \<in> set (filter mc_source_enforcing ?mcs). mc_values m)"
      "(\<Union>m \<in> set ?mcs. mc_values m) \<subseteq> ?exp"
      "\<forall>f \<in> set (map mc_field_id ?mcs). check_member_domain rg ?exp ?mcs f = []"
      "?fws \<subseteq> set (concat (map (\<lambda>t. case tc_window t of None \<Rightarrow> []
            | Some w \<Rightarrow> if tc_source_enforcing t \<and> (?tfs = {} \<or> tc_field_id t \<in> ?tfs) then [w] else []) ?tcs))"
      "set (concat (map (\<lambda>t. case tc_window t of None \<Rightarrow> [] | Some w \<Rightarrow> [w]) ?tcs)) \<subseteq> ?fws"
      "None \<notin> set (map tc_window ?tcs)"
    using assms(1) fin unfolding validate_constraint_coverage_def w
    by (simp_all add: Let_def sorted_list_of_set_eq_Nil_iff)
  have a: "length (filter (\<lambda>m'. mc_field_id m' = mc_field_id m) ?mcs) = 1" if "m \<in> set ?mcs" for m
    using nil(3) that by (auto simp: check_member_domain_def Let_def)
  have b: "{w. \<exists>t \<in> set ?tcs. tc_window t = Some w} = ?fws"
    using nil(4,5) by (force split: option.splits if_splits)
  have "\<forall>t \<in> set ?tcs. tc_window t \<noteq> None" using nil(6) by (metis image_eqI set_map)
  then show ?thesis using nil(1,2) a b ws by blast
qed

lemma mode_filters:
  assumes "well_structured g" "validate_compilation_mode g (Some fl) mode terms windows = Inr []" "n \<in> set (qg_nodes g)"
    and "nd_parameters n = FilterParameters p"
  shows "pr_column p \<in> {region_field, period_field}"
proof -
  obtain w where "linear_walk (length (qg_nodes g)) (node_by_id g) [] (dget (node_by_id g) (qg_output_node_id g)) = Inr w"
    using assms(2) by (cases "linear_walk (length (qg_nodes g)) (node_by_id g) [] (dget (node_by_id g) (qg_output_node_id g))")
      (auto simp: validate_compilation_mode_def Let_def)
  then have "\<forall>n \<in> set (qg_nodes g). (case filter_column n of None \<Rightarrow> []
      | Some c \<Rightarrow> report (c \<notin> allowed_filter_columns terms windows) ''COMPILATION_MODE_FILTER_INVALID'' ''nodes'') = []"
    using assms(2) by (simp add: validate_compilation_mode_def Let_def)
  then have "pr_column p \<in> allowed_filter_columns terms windows"
    using assms(3,4) by (force simp: filter_column_def)
  then show ?thesis by (auto simp: allowed_filter_columns_def split: if_splits)
qed

lemma mode_aggregate:
  assumes "validate_compilation_mode g (Some fl) mode terms windows = Inr []"
  shows "exact_aggregate g"
proof -
  obtain w where "linear_walk (length (qg_nodes g)) (node_by_id g) [] (dget (node_by_id g) (qg_output_node_id g)) = Inr w"
    using assms by (cases "linear_walk (length (qg_nodes g)) (node_by_id g) [] (dget (node_by_id g) (qg_output_node_id g))")
      (auto simp: validate_compilation_mode_def Let_def)
  then show ?thesis using assms by (simp add: validate_compilation_mode_def Let_def)
qed

text \<open>The filters taken together: a row passes all of them exactly when it is requested.\<close>

definition requested_row :: "resolved_term list \<Rightarrow> time_window list \<Rightarrow> compilation_mode \<Rightarrow> row \<Rightarrow> bool" where
  "requested_row terms windows mode r \<longleftrightarrow>
     (resolved_ids TERM_MEMBER terms \<noteq> {} \<longrightarrow> (\<exists>m \<in> resolved_ids TERM_MEMBER terms. r region_field = CellText m))
     \<and> (\<forall>w \<in> filter_windows (Some mode) (requested_windows windows). in_window w (r period_field))"

text \<open>The two forms of predicate a trusted graph filters with.\<close>

definition trusted_predicate :: "registry \<Rightarrow> predicate \<Rightarrow> bool" where
  "trusted_predicate rg p \<longleftrightarrow>
     pr_column p = region_field \<and> (\<exists>ms. member_predicate rg region_field p ms) \<or> pr_column p = period_field \<and> predicate_window p \<noteq> None"

lemma filters_exact:
  assumes cov: "validate_constraint_coverage rg (Some fl) terms windows (Some mode) = []"
    and mcs: "fl_member_constraints fl = map (\<lambda>p. \<lparr>mc_field_id = region_field, mc_values = predicate_members rg (pr_value p),
      mc_source_enforcing = True\<rparr>) (on region_field ps)"
    and tcs: "fl_time_constraints fl = map (\<lambda>p. \<lparr>tc_field_id = period_field, tc_window = predicate_window p,
      tc_source_enforcing = True\<rparr>) (on period_field ps)"
    and shape: "\<forall>p \<in> set (on region_field ps). \<exists>ms. member_predicate rg region_field p ms"
    and cols: "\<forall>p \<in> set ps. pr_column p \<in> {region_field, period_field}"
  shows "((\<forall>p \<in> set ps. keeps p r = Some True) \<longleftrightarrow> requested_row terms windows mode r) \<and> (\<forall>p \<in> set ps. trusted_predicate rg p)"
proof -
  let ?exp = "resolved_ids TERM_MEMBER terms" and ?fws = "filter_windows (Some mode) (requested_windows windows)"
  have "finite (predicate_members rg v)" for v
    unfolding predicate_members_def Let_def by (rule finite_set)
  then have "finite (mc_values m)" if "m \<in> set (fl_member_constraints fl)" for m
    using that by (auto simp: mcs)
  note c = coverage_silent [OF cov this]
  have split: "(\<forall>p \<in> set ps. Q p) \<longleftrightarrow> (\<forall>p \<in> set (on region_field ps). Q p) \<and> (\<forall>p \<in> set (on period_field ps). Q p)" for Q
    using cols by (auto simp: on_def)
  have members: "(\<forall>p \<in> set (on region_field ps). keeps p r = Some True)
      \<longleftrightarrow> (?exp \<noteq> {} \<longrightarrow> (\<exists>m \<in> ?exp. r region_field = CellText m))"
  proof (cases "on region_field ps")
    case Nil
    then have "?exp = {}" using c by (simp add: mcs)
    with Nil show ?thesis by simp
  next
    case (Cons p qs)
    have len: "\<forall>m \<in> set (fl_member_constraints fl). length (filter (\<lambda>m'. mc_field_id m' = mc_field_id m) (fl_member_constraints fl)) = 1"
      using c by blast
    then have qs: "qs = []" by (simp add: mcs Cons)
    obtain ms where ms: "member_predicate rg region_field p ms" using shape Cons by auto
    have "?exp = set ms" "?exp \<noteq> {}"
      using c predicate_members_shape [OF ms] ms by (auto simp: mcs Cons qs member_predicate_def)
    moreover have "pr_column p = region_field"
    proof -
      have "p \<in> set (on region_field ps)" by (simp add: Cons)
      then show ?thesis by (simp add: on_def)
    qed
    ultimately show ?thesis using keeps_member [OF ms] by (simp add: Cons qs)
  qed
  have win: "predicate_window p \<noteq> None \<and> pr_column p = period_field" if "p \<in> set (on period_field ps)" for p
    using that c by (auto simp: tcs on_def)
  have fws: "{w. \<exists>p \<in> set (on period_field ps). predicate_window p = Some w} = ?fws"
    using c by (auto simp: tcs)
  have times: "(\<forall>p \<in> set (on period_field ps). keeps p r = Some True) \<longleftrightarrow> (\<forall>w \<in> ?fws. in_window w (r period_field))"
    unfolding fws [symmetric] using win keeps_window by fastforce
  have trusted: "trusted_predicate rg p" if "p \<in> set ps" for p
  proof (cases "pr_column p = region_field")
    case True
    then have "p \<in> set (on region_field ps)" using that by (simp add: on_def)
    then show ?thesis using shape True unfolding trusted_predicate_def by blast
  next
    case False
    then have "p \<in> set (on period_field ps)" using that cols by (auto simp: on_def)
    then show ?thesis using win unfolding trusted_predicate_def by blast
  qed
  show ?thesis
  proof (intro conjI ballI)
    show "(\<forall>p \<in> set ps. keeps p r = Some True) \<longleftrightarrow> requested_row terms windows mode r"
      unfolding split members times requested_row_def ..
  qed (rule trusted)
qed

section \<open>Properties\<close>

text \<open>The parts of a graph with the topology of a trusted mode.\<close>

lemma trusted_parts:
  assumes "exact_topology g mode (qg_nodes g)"
  obtains m where "m < length (qg_nodes g)" "0 < length (qg_nodes g)" "nd_operator (qg_nodes g ! 0) = SELECT"
    "\<And>k. 0 < k \<Longrightarrow> k \<le> m \<Longrightarrow> nd_operator (qg_nodes g ! k) = FILTER"
    "map nd_operator (drop (Suc m) (qg_nodes g)) = expected_tail mode"
proof -
  obtain m where ops: "map nd_operator (qg_nodes g) = SELECT # replicate m FILTER @ expected_tail mode"
    using assms by (auto simp: exact_topology_def Let_def)
  have len: "length (qg_nodes g) = Suc m + length (expected_tail mode)"
    using arg_cong [OF ops, of length] by simp
  have at: "nd_operator (qg_nodes g ! k) = (SELECT # replicate m FILTER @ expected_tail mode) ! k" if "k < length (qg_nodes g)" for k
    using that by (simp flip: ops)
  show ?thesis
  proof (rule that [of m])
    show "m < length (qg_nodes g)" "0 < length (qg_nodes g)" using len by simp_all
    then show "nd_operator (qg_nodes g ! 0) = SELECT" using at [of 0] by simp
    show "nd_operator (qg_nodes g ! k) = FILTER" if "0 < k" "k \<le> m" for k
      using that at [of k] len by (cases k) (simp_all add: nth_append)
    show "map nd_operator (drop (Suc m) (qg_nodes g)) = expected_tail mode"
      by (simp flip: drop_map add: ops)
  qed
qed

text \<open>The selection, the filters and the output flow of an accepted graph in a trusted mode.\<close>

lemma trusted_chain:
  assumes ws: "well_structured g" and v: "validate_nodes rg s 0 (qg_nodes g) [] = Inr ([], flows)"
    and out: "dget flows (qg_output_node_id g) = Some fl"
    and mode: "validate_compilation_mode g (Some fl) mode terms windows = Inr []"
  obtains e cs fl0 ps flm rest where
    "map nd_parameters (qg_nodes g) = SelectParameters e cs # map FilterParameters ps @ rest"
    "length rest = length (expected_tail mode)" "select_flow rg e cs (node_path 0) s = ([], fl0)"
    "filter_chain rg fl0 ps flm" "same_constraints fl flm"
proof -
  have d: "distinct (node_ids_of g)" using ws by (simp add: well_structured_def)
  have ch: "chain_graph g" "exact_topology g mode (qg_nodes g)" using mode_topology [OF ws mode] by auto
  obtain m where m: "m < length (qg_nodes g)" "0 < length (qg_nodes g)" "nd_operator (qg_nodes g ! 0) = SELECT"
      and fil: "\<And>k. 0 < k \<Longrightarrow> k \<le> m \<Longrightarrow> nd_operator (qg_nodes g ! k) = FILTER"
      and tail: "map nd_operator (drop (Suc m) (qg_nodes g)) = expected_tail mode"
    using trusted_parts [OF ch(2)] by metis
  obtain e cs fl0 where s: "nd_parameters (qg_nodes g ! 0) = SelectParameters e cs" "dget flows (nd_id (qg_nodes g ! 0)) = Some fl0"
      "select_flow rg e cs (node_path 0) s = ([], fl0)"
    using chain_flow_start [OF v d m(2,3)] by blast
  obtain ps flm where f: "map nd_parameters (take m (tl (qg_nodes g))) = map FilterParameters ps"
      "dget flows (nd_id (qg_nodes g ! m)) = Some flm" "filter_chain rg fl0 ps flm"
    using chain_filters [OF v d ch(1) s(2) m(1) fil] by blast
  have parts: "qg_nodes g = qg_nodes g ! 0 # take m (tl (qg_nodes g)) @ drop (Suc m) (qg_nodes g)"
    using m(2) by (cases "qg_nodes g") auto
  have "\<exists>fl'. dget flows (nd_id (qg_nodes g ! (length (qg_nodes g) - 1))) = Some fl' \<and> same_constraints flm fl'"
  proof (rule chain_tail [OF v d ch(1) m(1) f(2)])
    fix k assume k: "m < k" "k < length (qg_nodes g)"
    have "drop (Suc m) (qg_nodes g) ! (k - Suc m) \<in> set (drop (Suc m) (qg_nodes g))" using k by (intro nth_mem) simp
    then have "nd_operator (qg_nodes g ! k) \<in> set (map nd_operator (drop (Suc m) (qg_nodes g)))" using k by simp
    then show "nd_operator (qg_nodes g ! k) \<notin> {SELECT, FILTER, JOIN}" unfolding tail by (auto simp: expected_tail_def split: if_splits)
  qed (use m in auto)
  moreover have "qg_output_node_id g = nd_id (qg_nodes g ! (length (qg_nodes g) - 1))"
    using ch(1) m(2) by (simp add: chain_graph_def last_conv_nth)
  ultimately have same: "same_constraints fl flm" using out by (simp add: same_constraints_def)
  show ?thesis
  proof (rule that [OF _ _ s(3) f(3) same])
    show "map nd_parameters (qg_nodes g) = SelectParameters e cs # map FilterParameters ps @ map nd_parameters (drop (Suc m) (qg_nodes g))"
      by (subst parts) (simp add: s(1) f(1))
    show "length (map nd_parameters (drop (Suc m) (qg_nodes g))) = length (expected_tail mode)"
      using arg_cong [OF tail, of length] by simp
  qed
qed

lemma trusted_graph_shape:
  assumes "new_registry d = Inr rg" "trusted_ontology rg"
    and "validate rg (Some g) sx terms windows (Some mode) = Inr r" "vr_normalized r = Some g'"
  shows "chain_graph g' \<and> exact_aggregate g' \<and>
    (\<exists>e cs ps rest. map nd_parameters (qg_nodes g') = SelectParameters e cs # map FilterParameters ps @ rest
       \<and> length rest = length (expected_tail mode)
       \<and> map nd_operator (qg_nodes g') = SELECT # replicate (length ps) FILTER @ expected_tail mode
       \<and> (\<forall>p \<in> set ps. trusted_predicate rg p)
       \<and> (\<forall>row. (\<forall>p \<in> set ps. keeps p row = Some True) \<longleftrightarrow> requested_row terms windows mode row))"
proof -
  have ok: "registry_ok rg" using new_registry_ok [OF assms(1)] by simp
  obtain flows fl where ws: "well_structured g" and v: "validate_nodes rg (selected_ids sx) 0 (qg_nodes g) [] = Inr ([], flows)"
      and out: "dget flows (qg_output_node_id g) = Some fl"
      and cov: "validate_constraint_coverage rg (Some fl) terms windows (Some mode) = []"
      and mode: "validate_compilation_mode g (Some fl) mode terms windows = Inr []"
      and g'_def: "g' = g\<lparr>qg_result_schema := map (\<lambda>(n, c). (n, cl_data_type c)) (fl_columns fl)\<rparr>"
    by (rule normalized_parts [OF assms(3,4)]) blast
  have g': "qg_nodes g' = qg_nodes g" "qg_output_node_id g' = qg_output_node_id g" by (simp_all add: g'_def)
  obtain e cs fl0 ps flm rest where
      parts: "map nd_parameters (qg_nodes g) = SelectParameters e cs # map FilterParameters ps @ rest"
      and rest: "length rest = length (expected_tail mode)"
      and sel: "select_flow rg e cs (node_path 0) (selected_ids sx) = ([], fl0)"
      and f: "filter_chain rg fl0 ps flm" and same: "same_constraints fl flm"
    using trusted_chain [OF ws v out mode] .
  have cols: "\<forall>p \<in> set ps. pr_column p \<in> {region_field, period_field}"
  proof
    fix p assume "p \<in> set ps"
    then have "FilterParameters p \<in> set (map nd_parameters (qg_nodes g))" unfolding parts by simp
    then obtain n where "n \<in> set (qg_nodes g)" "nd_parameters n = FilterParameters p" by auto
    then show "pr_column p \<in> {region_field, period_field}" using mode_filters [OF ws mode] by blast
  qed
  note cs' = filter_chain_constraints [OF ok assms(2) f select_flow_unconstrained [OF sel] select_flow_fields [OF ok sel] cols]
  have sm: "fl_member_constraints fl = fl_member_constraints flm" "fl_time_constraints fl = fl_time_constraints flm"
    using same by (simp_all add: same_constraints_def)
  have filters: "((\<forall>p \<in> set ps. keeps p row = Some True) \<longleftrightarrow> requested_row terms windows mode row) \<and> (\<forall>p \<in> set ps. trusted_predicate rg p)" for row
    by (rule filters_exact [OF cov trans [OF sm(1) cs' [THEN conjunct1]] trans [OF sm(2) cs' [THEN conjunct2, THEN conjunct1]]
          cs' [THEN conjunct2, THEN conjunct2] cols])
  have g'_shape: "chain_graph g'" "exact_aggregate g'"
    using mode_topology [OF ws mode] mode_aggregate [OF mode] by (simp_all add: chain_graph_def exact_aggregate_def g')
  have ops: "map nd_operator (qg_nodes g) = SELECT # replicate (length ps) FILTER @ expected_tail mode"
  proof -
    have "exact_topology g mode (qg_nodes g)" by (rule mode_topology [OF ws mode, THEN conjunct2])
    then obtain m where ops: "map nd_operator (qg_nodes g) = SELECT # replicate m FILTER @ expected_tail mode"
      by (auto simp: exact_topology_def Let_def)
    have "m = length ps" using arg_cong [OF ops, of length] arg_cong [OF parts, of length] rest by simp
    with ops show ?thesis by simp
  qed
  have all: "\<forall>row. (\<forall>p \<in> set ps. keeps p row = Some True) \<longleftrightarrow> requested_row terms windows mode row"
    by (rule allI) (rule filters [THEN conjunct1])
  show ?thesis
    unfolding g'(1)
    by (rule conjI [OF g'_shape(1)], rule conjI [OF g'_shape(2)], rule exI [of _ e], rule exI [of _ cs], rule exI [of _ ps],
        rule exI [of _ rest], rule conjI [OF parts], rule conjI [OF rest], rule conjI [OF ops],
        rule conjI [OF filters [THEN conjunct2] all])
qed

lemma trusted_graph_exact:
  assumes "new_registry d = Inr rg" "trusted_ontology rg"
    and "validate rg (Some g) sx terms windows (Some mode) = Inr r" "vr_normalized r = Some g'"
  shows "chain_graph g' \<and> exact_aggregate g' \<and>
    (\<exists>e cs ps rest. map nd_parameters (qg_nodes g') = SelectParameters e cs # map FilterParameters ps @ rest
       \<and> length rest = length (expected_tail mode)
       \<and> (\<forall>row. (\<forall>p \<in> set ps. keeps p row = Some True) \<longleftrightarrow> requested_row terms windows mode row))"
proof -
  obtain e cs ps rest where
    "map nd_parameters (qg_nodes g') = SelectParameters e cs # map FilterParameters ps @ rest" "length rest = length (expected_tail mode)"
    "\<forall>row. (\<forall>p \<in> set ps. keeps p row = Some True) \<longleftrightarrow> requested_row terms windows mode row"
    using trusted_graph_shape [OF assms] by (elim exE conjE)
  then show ?thesis using trusted_graph_shape [OF assms] by (intro conjI exI [of _ e] exI [of _ cs] exI [of _ ps] exI [of _ rest]) (elim conjE, assumption)+
qed

text \<open>
  In a trusted compilation mode an accepted graph means what the question
  was resolved to. It is a chain: one selection, then filters, then the
  operators of the mode, each reading the node before it, with the output at
  the end; it aggregates the sum of the profit by region and period; and a
  source row passes all its filters exactly when its region is one of the
  resolved members (any region when none was resolved) and its period lies in
  every normalized time window (two adjacent months of a comparison count as
  the window they form together).
\<close>

theorem trusted_filters_are_exact:
  assumes "new_registry d = Inr rg" "trusted_ontology rg"
    and "validate rg (Some g) sx terms windows (Some mode) = Inr r" "vr_normalized r = Some g'"
  shows "chain_graph g' \<and> exact_aggregate g' \<and>
    (\<exists>e cs ps rest. map nd_parameters (qg_nodes g') = SelectParameters e cs # map FilterParameters ps @ rest
       \<and> length rest = length (expected_tail mode)
       \<and> (\<forall>row. (\<forall>p \<in> set ps. keeps p row = Some True) \<longleftrightarrow> requested_row terms windows mode row))"
  by (rule trusted_graph_exact [OF assms])

lemma sample_ontology_trusted: "trusted_ontology sample_registry"
  by code_simp

theorem trusted_filters_are_exact_witness:
  "\<exists>e cs ps rest. map nd_parameters (qg_nodes (sample_candidate ''region.east'')) = SelectParameters e cs # map FilterParameters ps @ rest
     \<and> length rest = 3 \<and> (\<forall>row. list_all (\<lambda>p. keeps p row = Some True) ps
       = requested_row sample_terms [sample_window] REGIONAL_QUARTERLY_PROFIT row)"
  using trusted_filters_are_exact [OF sample_registry_ok sample_ontology_trusted sample_accepted [unfolded sample_validation_def]]
  by (simp add: list_all_iff expected_tail_def numeral_3_eq_3)

end
