(* ===== verification/Semantic_Compiler.thy ===== *)
theory Semantic_Compiler
  imports Semantic_Initializer Trusted_Filters
begin

text \<open>
  \<open>SemanticCompiler\<close> (\<open>compiler.py\<close>) with the provider boundary it calls
  (\<open>ProviderInvoker\<close> in \<open>provider.py\<close>): one compilation is an initialization, one
  request to the provider, a validation and at most one repair request with a
  second validation.

  The provider is an argument: for each call it gives an attempt, that is its
  result together with the readings of the event loop clock and with what
  happens while the invoker waits. A payload is the candidate as the graph model
  reads it, \<open>None\<close> when it cannot be read. Timing metadata is left out.
\<close>

section \<open>Provider calls\<close>

datatype call_phase = PHASE_COMPILE | PHASE_REPAIR

record call_metadata =
  pm_model :: string
  pm_phase :: call_phase
  pm_input_tokens :: "int option"
  pm_output_tokens :: "int option"
  pm_outcome :: string

record provider_result =
  pv_candidate :: "sqg option"
  pv_input_tokens :: "int option"
  pv_output_tokens :: "int option"
  pv_metadata :: "call_metadata option"

record provider_error =
  pe_code :: string
  pe_metadata :: "call_metadata option"

datatype compile_raise = ProviderError provider_error | Cancelled | Unexpected

record attempt =
  at_started :: int
  at_asked :: int
  at_woken :: int
  at_done :: bool
  at_cancelled :: bool
  at_result :: "compile_raise + provider_result"

record compile_context =
  cc_question :: string
  cc_mode :: compilation_mode
  cc_terms :: "resolved_term list"
  cc_windows :: "time_window list"
  cc_semantic :: semantic_context

record provider =
  pr_compile :: "compile_context \<Rightarrow> attempt"
  pr_repair :: "compile_context \<Rightarrow> sqg option \<Rightarrow> diagnostic list \<Rightarrow> attempt"

definition provider_timeout :: compile_raise where
  "provider_timeout = ProviderError \<lparr>pe_code = ''PROVIDER_TIMEOUT'', pe_metadata = None\<rparr>"

definition attempt_deadline :: "int \<Rightarrow> int option \<Rightarrow> attempt \<Rightarrow> int" where
  "attempt_deadline timeout deadline a =
     (case deadline of None \<Rightarrow> at_started a + timeout | Some d \<Rightarrow> min (at_started a + timeout) d)"

definition bounded :: "int \<Rightarrow> int option \<Rightarrow> attempt \<Rightarrow> compile_raise + provider_result" where
  "bounded timeout deadline a =
     (let d = attempt_deadline timeout deadline a
      in if d - at_asked a \<le> 0 then Inl provider_timeout
         else if at_cancelled a then Inl Cancelled
         else if \<not> at_done a \<or> d < at_woken a then Inl provider_timeout
         else at_result a)"

section \<open>Token metadata\<close>

record token_metadata =
  tm_input_tokens :: "int option"
  tm_output_tokens :: "int option"
  tm_max_output_tokens :: int
  tm_calls :: "call_metadata list"

definition optional_call :: "call_metadata option \<Rightarrow> call_metadata list" where
  "optional_call m = (case m of None \<Rightarrow> [] | Some c \<Rightarrow> [c])"

definition result_tokens :: "int \<Rightarrow> provider_result \<Rightarrow> token_metadata" where
  "result_tokens mx r = \<lparr>tm_input_tokens = pv_input_tokens r, tm_output_tokens = pv_output_tokens r,
     tm_max_output_tokens = mx, tm_calls = optional_call (pv_metadata r)\<rparr>"

definition error_tokens :: "int \<Rightarrow> provider_error \<Rightarrow> token_metadata" where
  "error_tokens mx e =
     \<lparr>tm_input_tokens = (case pe_metadata e of None \<Rightarrow> None | Some m \<Rightarrow> pm_input_tokens m),
      tm_output_tokens = (case pe_metadata e of None \<Rightarrow> None | Some m \<Rightarrow> pm_output_tokens m),
      tm_max_output_tokens = mx, tm_calls = optional_call (pe_metadata e)\<rparr>"

definition sum_optional :: "int option \<Rightarrow> int option \<Rightarrow> int option" where
  "sum_optional l r = (case (l, r) of (Some a, Some b) \<Rightarrow> Some (a + b) | _ \<Rightarrow> None)"

definition combine_tokens :: "int \<Rightarrow> token_metadata \<Rightarrow> token_metadata \<Rightarrow> token_metadata" where
  "combine_tokens mx l r =
     \<lparr>tm_input_tokens = sum_optional (tm_input_tokens l) (tm_input_tokens r),
      tm_output_tokens = sum_optional (tm_output_tokens l) (tm_output_tokens r),
      tm_max_output_tokens = mx, tm_calls = tm_calls l @ tm_calls r\<rparr>"

section \<open>Compilation\<close>

record compiler =
  cp_registry :: registry
  cp_configuration_valid :: bool
  cp_runtime_ready :: "bool option"
  cp_factory :: "provider_selection \<Rightarrow> provider_error + provider"
  cp_timeout :: int
  cp_max_output_tokens :: int

definition static_provider :: "provider \<Rightarrow> provider_selection \<Rightarrow> provider_error + provider" where
  "static_provider fixture selection =
     (if selection \<noteq> STATIC then Inl \<lparr>pe_code = ''PROVIDER_NOT_CONFIGURED'', pe_metadata = None\<rparr> else Inr fixture)"

definition compiler_ready :: "compiler \<Rightarrow> bool" where
  "compiler_ready cp =
     (od_version (rg_document (cp_registry cp)) \<noteq> [] \<and> cp_configuration_valid cp \<and> cp_runtime_ready cp \<noteq> Some False)"

record compile_response =
  cr_status :: compile_status
  cr_correlation_id :: string
  cr_resolved_terms :: "resolved_term list"
  cr_context :: semantic_context
  cr_candidate :: "sqg option option"
  cr_normalized :: "sqg option"
  cr_diagnostics :: "diagnostic list"
  cr_tokens :: token_metadata
  cr_repair_attempted :: bool

definition stage_diagnostic :: "string \<Rightarrow> severity \<Rightarrow> diagnostic_stage \<Rightarrow> diagnostic" where
  "stage_diagnostic code sev stage = \<lparr>dg_code = code, dg_severity = sev, dg_stage = stage, dg_path = None\<rparr>"

definition failure_response ::
    "string \<Rightarrow> initialize_response \<Rightarrow> sqg option option \<Rightarrow> diagnostic list \<Rightarrow> token_metadata \<Rightarrow> bool \<Rightarrow> compile_response" where
  "failure_response cid ini candidate ds tokens repaired =
     \<lparr>cr_status = ST_FAILED, cr_correlation_id = cid, cr_resolved_terms = ir_resolved_terms ini, cr_context = ir_context ini,
      cr_candidate = candidate, cr_normalized = None, cr_diagnostics = ds, cr_tokens = tokens, cr_repair_attempted = repaired\<rparr>"

definition success_response ::
    "string \<Rightarrow> initialize_response \<Rightarrow> sqg option \<Rightarrow> sqg option \<Rightarrow> diagnostic list \<Rightarrow> token_metadata \<Rightarrow> bool \<Rightarrow> compile_response" where
  "success_response cid ini candidate normalized ds tokens repaired =
     \<lparr>cr_status = ST_SUCCEEDED, cr_correlation_id = cid, cr_resolved_terms = ir_resolved_terms ini, cr_context = ir_context ini,
      cr_candidate = Some candidate, cr_normalized = normalized, cr_diagnostics = ds, cr_tokens = tokens, cr_repair_attempted = repaired\<rparr>"

text \<open>The response of an unsuccessful initialization; its status is passed on.\<close>

definition refused_response :: "compiler \<Rightarrow> string \<Rightarrow> initialize_response \<Rightarrow> compile_response" where
  "refused_response cp cid ini =
     \<lparr>cr_status = ir_status ini, cr_correlation_id = cid, cr_resolved_terms = ir_resolved_terms ini, cr_context = ir_context ini,
      cr_candidate = None, cr_normalized = None, cr_diagnostics = ir_diagnostics ini,
      cr_tokens = \<lparr>tm_input_tokens = None, tm_output_tokens = None, tm_max_output_tokens = cp_max_output_tokens cp, tm_calls = []\<rparr>,
      cr_repair_attempted = False\<rparr>"

definition run_validator :: "compiler \<Rightarrow> compile_request \<Rightarrow> initialize_response \<Rightarrow> sqg option \<Rightarrow> compile_raise + validation_result" where
  "run_validator cp rq ini candidate =
     map_sum (\<lambda>_. Unexpected) id
       (validate (cp_registry cp) candidate (ir_context ini) (ir_resolved_terms ini) (ir_time_windows ini) (Some (cq_compilation_mode rq)))"

definition context_of :: "compile_request \<Rightarrow> initialize_response \<Rightarrow> compile_context" where
  "context_of rq ini = \<lparr>cc_question = cq_question rq, cc_mode = cq_compilation_mode rq, cc_terms = ir_resolved_terms ini,
     cc_windows = ir_time_windows ini, cc_semantic = ir_context ini\<rparr>"

text \<open>What follows a rejected first candidate.\<close>

definition repair_candidate ::
    "compiler \<Rightarrow> provider \<Rightarrow> int option \<Rightarrow> compile_request \<Rightarrow> string \<Rightarrow> initialize_response \<Rightarrow> provider_result \<Rightarrow> validation_result
      \<Rightarrow> compile_raise + compile_response" where
  "repair_candidate cp p deadline rq cid ini first v =
     (let mx = cp_max_output_tokens cp; tokens = result_tokens mx first
      in case bounded (cp_timeout cp) deadline (pr_repair p (context_of rq ini) (pv_candidate first) (vr_diagnostics v)) of
          Inl (ProviderError e) \<Rightarrow>
            Inr (failure_response cid ini (Some (pv_candidate first))
              (ir_diagnostics ini @ vr_diagnostics v
                 @ [stage_diagnostic (if pe_code e = ''PROVIDER_TIMEOUT'' then ''REPAIR_TIMEOUT'' else pe_code e) ERROR REPAIR])
              (combine_tokens mx tokens (error_tokens mx e)) True)
        | Inl x \<Rightarrow> Inl x
        | Inr second \<Rightarrow>
            rbind (run_validator cp rq ini (pv_candidate second)) (\<lambda>repaired.
            let all_tokens = combine_tokens mx tokens (result_tokens mx second)
            in Inr (if valid repaired
                 then success_response cid ini (pv_candidate second) (vr_normalized repaired)
                        (ir_diagnostics ini @ [stage_diagnostic ''REPAIR_APPLIED'' INFO REPAIR]) all_tokens True
                 else failure_response cid ini (Some (pv_candidate second))
                        (ir_diagnostics ini @ vr_diagnostics repaired @ [stage_diagnostic ''REPAIR_FAILED'' ERROR REPAIR]) all_tokens True)))"

definition select_provider :: "compiler \<Rightarrow> compile_request \<Rightarrow> compile_raise + provider" where
  "select_provider cp rq =
     (if \<not> compiler_ready cp then Inl (ProviderError \<lparr>pe_code = ''PROVIDER_CONFIGURATION'', pe_metadata = None\<rparr>)
      else rbind (map_sum ProviderError id (cp_factory cp (cq_provider_selection rq))) (\<lambda>p.
           if cp_timeout cp \<le> 0 then Inl Unexpected else Inr p))"

definition compile ::
    "compiler \<Rightarrow> zone_database \<Rightarrow> text_reading \<Rightarrow> compile_request \<Rightarrow> string \<Rightarrow> int option \<Rightarrow> compile_raise + compile_response" where
  "compile cp zones rd rq cid deadline =
     (case initialize (cp_registry cp) zones rd rq cid of Inl _ \<Rightarrow> Inl Unexpected
      | Inr ini \<Rightarrow>
        if ir_status ini \<noteq> ST_SUCCEEDED then Inr (refused_response cp cid ini)
        else case rbind (select_provider cp rq) (\<lambda>p.
                    rbind (bounded (cp_timeout cp) deadline (pr_compile p (context_of rq ini))) (\<lambda>r. Inr (p, r))) of
            Inl (ProviderError e) \<Rightarrow>
              Inr (failure_response cid ini None (ir_diagnostics ini @ [stage_diagnostic (pe_code e) ERROR PROVIDER])
                    (error_tokens (cp_max_output_tokens cp) e) False)
          | Inl x \<Rightarrow> Inl x
          | Inr (p, first) \<Rightarrow>
              rbind (run_validator cp rq ini (pv_candidate first)) (\<lambda>v.
              if valid v
              then Inr (success_response cid ini (pv_candidate first) (vr_normalized v) (ir_diagnostics ini @ vr_diagnostics v)
                     (result_tokens (cp_max_output_tokens cp) first) False)
              else repair_candidate cp p deadline rq cid ini first v))"

section \<open>The compiler always answers\<close>

lemma select_members_total:
  assumes "registry_ok rg" shows "\<exists>s'. select_members rg ts s = Inr s'"
proof (induction ts arbitrary: s)
  case (Cons t ts)
  have "\<exists>s1. select_member rg t s = Inr s1"
  proof (cases "dget (rg_members rg) (rt_machine_id t)")
    case (Some fm)
    obtain f m where fm: "fm = (f, m)" by (cases fm)
    have "\<exists>fl \<in> set (od_fields (rg_document rg)). of_id fl = f"
      using assms Some unfolding fm registry_ok_def Let_def by blast
    then have "f \<in> of_id ` set (od_fields (rg_document rg))" by blast
    then obtain x where "dget (rg_fields rg) f = Some x"
      using assms dget_index_Some [of of_id "od_fields (rg_document rg)" f] by (auto simp: registry_ok_def Let_def)
    then show ?thesis using Some fm by (simp add: select_member_def dict_item_def)
  qed (simp add: select_member_def)
  then show ?case using Cons by auto
qed simp

lemma resolve_concepts_errors: "d \<in> set (snd (resolve_concepts negated reported ms)) \<Longrightarrow> dg_severity d = ERROR"
  by (induction ms arbitrary: reported) (auto simp: Let_def split: prod.splits if_splits, (metis snd_conv)+)

lemma resolve_members_errors: "d \<in> set (snd (resolve_members negated mss)) \<Longrightarrow> dg_severity d = ERROR"
  by (induction mss) (auto simp: Let_def split: prod.splits if_splits)

lemma resolve_terms_errors: "d \<in> set (snd (resolve_terms rg negated question mode)) \<Longrightarrow> dg_severity d = ERROR"
  unfolding resolve_terms_def Let_def case_prod_beta snd_conv set_append
  using resolve_concepts_errors resolve_members_errors by blast

lemma window_policy_errors:
  assumes "d \<in> set (snd (window_policy zones rq (normalize_time zones rd clock zone_name)))"
  shows "dg_severity d = ERROR"
proof -
  have mw: "dg_severity x = ERROR" if "x \<in> set (snd (monthly_comparison_windows zones c z))" for x c z
    using that by (auto simp: monthly_comparison_windows_def Let_def split: option.splits)
  have nt: "dg_severity x = ERROR" if "x \<in> set (snd (normalize_time zones rd clock zone_name))" for x
    using that recognize_errors [OF prod.collapse] by (auto simp: normalize_time_def split: option.splits)
  obtain ws ds where "normalize_time zones rd clock zone_name = (ws, ds)" by fastforce
  with assms nt mw show ?thesis by (auto simp: window_policy_def split: if_splits)
qed

lemma initialize_total:
  assumes "registry_ok rg"
  obtains ini where "initialize rg zones rd rq cid = Inr ini"
    "ir_status ini = ST_SUCCEEDED \<longleftrightarrow> ir_diagnostics ini = []" "\<forall>d \<in> set (ir_diagnostics ini). dg_severity d = ERROR"
proof -
  obtain terms d1 where r: "resolve_terms rg (tr_negated rd) (cq_question rq) (cq_member_resolution_mode rq) = (terms, d1)" by fastforce
  obtain ws d2 where w: "window_policy zones rq (normalize_time zones rd (cq_evaluation_clock rq) (cq_evaluation_timezone rq)) = (ws, d2)"
    by fastforce
  obtain sx where sx: "retrieve rg (cq_question rq) (terms @ map window_term ws) (cq_ontology_scope rq) = Inr sx"
    using select_members_total [OF assms] unfolding retrieve_def Let_def by (metis rbind_Inr)
  have "\<forall>d \<in> set d1. dg_severity d = ERROR" using resolve_terms_errors r by (metis snd_conv)
  moreover have "\<forall>d \<in> set d2. dg_severity d = ERROR" using window_policy_errors [of _ zones rq rd] w by (metis snd_conv)
  ultimately have e: "\<forall>d \<in> set (d1 @ d2). dg_severity d = ERROR" by auto
  then have st: "initialize_status (d1 @ d2) = ST_SUCCEEDED \<longleftrightarrow> d1 @ d2 = []"
    by (cases "d1 @ d2") (auto simp: initialize_status_def has_error_def list_ex_iff)
  have eq: "initialize rg zones rd rq cid = Inr \<lparr>ir_status = initialize_status (d1 @ d2), ir_correlation_id = cid,
      ir_resolved_terms = terms @ map window_term ws, ir_time_windows = ws, ir_context = sx, ir_diagnostics = d1 @ d2\<rparr>"
    by (simp add: initialize_def r w sx Let_def)
  show ?thesis by (rule that [OF eq]) (use e st in simp_all)
qed

lemma run_validator_total:
  "\<exists>v. run_validator cp rq ini candidate = Inr v \<and> (valid v \<longleftrightarrow> vr_diagnostics v = []) \<and> (valid v \<longleftrightarrow> vr_normalized v \<noteq> None)
     \<and> errors_only (vr_diagnostics v)"
proof -
  obtain v where v: "validate (cp_registry cp) candidate (ir_context ini) (ir_resolved_terms ini) (ir_time_windows ini)
      (Some (cq_compilation_mode rq)) = Inr v" "verdict v"
    using validate_verdict by blast
  then show ?thesis by (auto simp: run_validator_def valid_def verdict_def errors_only_has_error)
qed

definition well_behaved :: "attempt \<Rightarrow> bool" where
  "well_behaved a \<longleftrightarrow> \<not> at_cancelled a \<and> (case at_result a of Inl (ProviderError e) \<Rightarrow> True | Inl _ \<Rightarrow> False | Inr r \<Rightarrow> True)"

lemma bounded_well_behaved:
  "well_behaved a \<Longrightarrow> (\<exists>e. bounded t d a = Inl (ProviderError e)) \<or> (\<exists>r. bounded t d a = Inr r)"
  by (cases "at_result a")
    (auto simp: well_behaved_def bounded_def provider_timeout_def Let_def split: compile_raise.splits)

lemma has_error_append: "has_error (xs @ ys) \<longleftrightarrow> has_error xs \<or> has_error ys"
  by (simp add: has_error_def)

lemma has_error_stage [simp]: "has_error [stage_diagnostic c s g] \<longleftrightarrow> s = ERROR"
  by (simp add: has_error_def stage_diagnostic_def)

lemma optional_call_length: "length (optional_call m) \<le> 1"
  by (simp add: optional_call_def split: option.splits)

definition consistent_response :: "compile_response \<Rightarrow> bool" where
  "consistent_response r \<longleftrightarrow>
     (cr_status r = ST_SUCCEEDED \<longleftrightarrow> cr_normalized r \<noteq> None) \<and> (cr_status r = ST_SUCCEEDED \<longleftrightarrow> \<not> has_error (cr_diagnostics r))
     \<and> (cr_normalized r \<noteq> None \<longrightarrow> cr_candidate r \<noteq> None)
     \<and> length (tm_calls (cr_tokens r)) \<le> (if cr_repair_attempted r then 2 else 1)"

lemma repair_answers:
  assumes "\<forall>cx c ds. well_behaved (pr_repair p cx c ds)" "ir_diagnostics ini = []" "has_error (vr_diagnostics v)"
  shows "\<exists>r. repair_candidate cp p deadline rq cid ini first v = Inr r \<and> consistent_response r \<and> cr_repair_attempted r"
proof -
  let ?a = "pr_repair p (context_of rq ini) (pv_candidate first) (vr_diagnostics v)"
  have two: "length (optional_call x) + length (optional_call y) \<le> 2" for x y
    using optional_call_length [of x] optional_call_length [of y] by linarith
  from bounded_well_behaved [of ?a "cp_timeout cp" deadline] assms(1) consider
      e where "bounded (cp_timeout cp) deadline ?a = Inl (ProviderError e)"
    | second where "bounded (cp_timeout cp) deadline ?a = Inr second" by blast
  then show ?thesis
  proof cases
    case 1
    then show ?thesis
      using assms two by (simp add: repair_candidate_def consistent_response_def failure_response_def has_error_append combine_tokens_def
          result_tokens_def error_tokens_def Let_def)
  next
    case 2
    obtain v2 where v2: "run_validator cp rq ini (pv_candidate second) = Inr v2" "valid v2 \<longleftrightarrow> vr_normalized v2 \<noteq> None"
      using run_validator_total by blast
    then show ?thesis
      using assms two 2
      by (auto simp: repair_candidate_def consistent_response_def failure_response_def success_response_def has_error_append
          combine_tokens_def result_tokens_def Let_def)
  qed
qed

text \<open>
  A compilation on the sample ontology: the first candidate filters another
  member than the one the question names, the repaired one is accepted.
\<close>

lemma casefold_char_code [code]:
  "casefold_char (Char b0 b1 b2 b3 b4 b5 b6 b7) =
     (if b6 \<and> \<not> b5 \<and> \<not> b7 \<and> (b0 \<or> b1 \<or> b2 \<or> b3 \<or> b4) \<and> \<not> (b4 \<and> b3 \<and> (b2 \<or> b1 \<and> b0)) then [Char b0 b1 b2 b3 b4 True b6 b7]
      else if b6 \<and> \<not> b5 \<and> b7 then
        (if b0 \<and> b1 \<and> b2 \<and> b3 \<and> b4 then ''ss''
         else if b0 \<and> b1 \<and> b2 \<and> \<not> b3 \<and> b4 then [Char b0 b1 b2 b3 b4 b5 b6 b7] else [Char b0 b1 b2 b3 b4 True b6 b7])
      else [Char b0 b1 b2 b3 b4 b5 b6 b7])"
  by (cases b0; cases b1; cases b2; cases b3; cases b4; cases b5; cases b6; cases b7) (simp_all add: casefold_char_def char_of_def bit_0)

definition plain_candidate :: "string \<Rightarrow> sqg" where
  "plain_candidate member = \<lparr>qg_nodes = [
      sample_node ''a'' SELECT [] (SelectParameters ''commerce.sales_record'' [region_field, period_field, profit_metric]),
      sample_node ''b'' FILTER [''a''] (FilterParameters \<lparr>pr_column = region_field, pr_operator = EQ, pr_value = PScalar (SString member)\<rparr>),
      sample_node ''d'' AGGREGATE [''b''] (AggregateParameters [region_field, period_field]
        [\<lparr>am_source = profit_metric, am_output = ''profit'', am_function = FN_SUM\<rparr>]),
      sample_node ''e'' SORT [''d''] (SortParameters [(''profit'', DESC)]),
      sample_node ''f'' PROJECT [''e''] (ProjectParameters [\<lparr>pj_source = region_field, pj_alias = ''region''\<rparr>,
        \<lparr>pj_source = period_field, pj_alias = ''period''\<rparr>, \<lparr>pj_source = ''profit'', pj_alias = ''profit''\<rparr>])],
    qg_output_node_id = ''f'', qg_result_schema = []\<rparr>"

definition sample_attempt :: "string \<Rightarrow> attempt" where
  "sample_attempt member = \<lparr>at_started = 0, at_asked = 1, at_woken = 2, at_done = True, at_cancelled = False,
     at_result = Inr \<lparr>pv_candidate = Some (plain_candidate member), pv_input_tokens = Some 5, pv_output_tokens = Some 7, pv_metadata = None\<rparr>\<rparr>"

definition sample_compiler :: compiler where
  "sample_compiler = \<lparr>cp_registry = sample_registry, cp_configuration_valid = True, cp_runtime_ready = None,
     cp_factory = static_provider \<lparr>pr_compile = \<lambda>_. sample_attempt ''region.west'', pr_repair = \<lambda>_ _ _. sample_attempt ''region.east''\<rparr>,
     cp_timeout = 5000000, cp_max_output_tokens = 2048\<rparr>"

definition sample_question :: compile_request where
  "sample_question = (sample_request ''East'' REGIONAL_QUARTERLY_PROFIT)\<lparr>cq_ontology_scope := [region_field, period_field, profit_metric]\<rparr>"

definition sample_compilation :: "compile_raise + compile_response" where
  "sample_compilation = compile sample_compiler sample_zones sample_reading sample_question ''c1'' (Some 10)"

lemma sample_compiled:
  "case sample_compilation of Inl _ \<Rightarrow> False
   | Inr r \<Rightarrow> cr_status r = ST_SUCCEEDED \<and> cr_repair_attempted r \<and> map dg_code (cr_diagnostics r) = [''REPAIR_APPLIED'']
       \<and> tm_input_tokens (cr_tokens r) = Some 10
       \<and> map_option qg_nodes (cr_normalized r) = Some (qg_nodes (plain_candidate ''region.east''))"
  by code_simp

text \<open>
  C7: The compiler always answers, and its answer is consistent. With an ontology
  that loaded, a positive provider timeout and a provider that raises nothing
  but provider errors, every request gets a response, however slow or wrong the
  provider is; a graph is returned exactly when the status is success, which is
  when no diagnostic is an error; a returned graph comes with its candidate; and
  the provider is called at most once, or twice when a repair was attempted.
\<close>

theorem compilation_always_answers:
  assumes "new_registry d = Inr (cp_registry cp)" "0 < cp_timeout cp"
    and "\<forall>selection p. cp_factory cp selection = Inr p \<longrightarrow>
      (\<forall>cx. well_behaved (pr_compile p cx)) \<and> (\<forall>cx c ds. well_behaved (pr_repair p cx c ds))"
  shows "\<exists>r. compile cp zones rd rq cid deadline = Inr r
    \<and> (cr_status r = ST_SUCCEEDED \<longleftrightarrow> cr_normalized r \<noteq> None) \<and> (cr_status r = ST_SUCCEEDED \<longleftrightarrow> \<not> has_error (cr_diagnostics r))
    \<and> (cr_normalized r \<noteq> None \<longrightarrow> cr_candidate r \<noteq> None)
    \<and> length (tm_calls (cr_tokens r)) \<le> (if cr_repair_attempted r then 2 else 1)"
proof -
  have "registry_ok (cp_registry cp)" using new_registry_ok [OF assms(1)] by simp
  then obtain ini where ini: "initialize (cp_registry cp) zones rd rq cid = Inr ini"
      and st: "ir_status ini = ST_SUCCEEDED \<longleftrightarrow> ir_diagnostics ini = []" and err: "\<forall>d \<in> set (ir_diagnostics ini). dg_severity d = ERROR"
    by (rule initialize_total)
  have "\<exists>r. compile cp zones rd rq cid deadline = Inr r \<and> consistent_response r"
  proof (cases "ir_status ini = ST_SUCCEEDED")
    case False
    then have "has_error (ir_diagnostics ini)" using st err by (cases "ir_diagnostics ini") (auto simp: has_error_def)
    with False ini show ?thesis by (simp add: compile_def consistent_response_def refused_response_def)
  next
    case True
    then have clean: "ir_diagnostics ini = []" using st by simp
    let ?call = "rbind (select_provider cp rq) (\<lambda>p.
        rbind (bounded (cp_timeout cp) deadline (pr_compile p (context_of rq ini))) (\<lambda>r. Inr (p, r)))"
    consider e where "?call = Inl (ProviderError e)"
      | p first where "?call = Inr (p, first)" "\<forall>cx c ds. well_behaved (pr_repair p cx c ds)"
    proof (cases "select_provider cp rq")
      case (Inl x)
      then obtain e where "x = ProviderError e" using assms(2)
        by (auto simp: select_provider_def rbind_eq_Inl split: if_splits) (metis map_sum.simps Inl_Inr_False sum.exhaust sum.inject(1))
      then show ?thesis using that Inl by simp
    next
      case (Inr p)
      then have "cp_factory cp (cq_provider_selection rq) = Inr p"
        by (auto simp: select_provider_def split: if_splits) (metis map_sum.simps Inl_Inr_False id_apply sum.exhaust sum.inject(2))
      then have "well_behaved (pr_compile p (context_of rq ini))" "\<forall>cx c ds. well_behaved (pr_repair p cx c ds)" using assms(3) by blast+
      then show ?thesis using that Inr bounded_well_behaved [of "pr_compile p (context_of rq ini)" "cp_timeout cp" deadline] by auto
    qed
    then show ?thesis
    proof cases
      case 1
      then show ?thesis
        using ini True optional_call_length
        by (simp add: compile_def consistent_response_def failure_response_def has_error_append error_tokens_def)
    next
      case 2
      obtain v where v: "run_validator cp rq ini (pv_candidate first) = Inr v" "valid v \<longleftrightarrow> vr_diagnostics v = []"
          "valid v \<longleftrightarrow> vr_normalized v \<noteq> None" "errors_only (vr_diagnostics v)"
        using run_validator_total by blast
      show ?thesis
      proof (cases "valid v")
        case True
        then show ?thesis
          using ini \<open>ir_status ini = ST_SUCCEEDED\<close> 2 v clean optional_call_length
          by (simp add: compile_def consistent_response_def success_response_def result_tokens_def has_error_def)
      next
        case False
        then have "has_error (vr_diagnostics v)" using v by (simp add: errors_only_has_error)
        from repair_answers [OF 2(2) clean this, of cp deadline rq cid first] show ?thesis
          using ini \<open>ir_status ini = ST_SUCCEEDED\<close> 2 v False by (auto simp: compile_def)
      qed
    qed
  qed
  then show ?thesis unfolding consistent_response_def by blast
qed

lemma sample_provider_behaves:
  "cp_factory sample_compiler selection = Inr p \<Longrightarrow> well_behaved (pr_compile p cx) \<and> well_behaved (pr_repair p cx c ds)"
  by (auto simp: sample_compiler_def static_provider_def sample_attempt_def well_behaved_def split: if_splits)

theorem compilation_always_answers_witness:
  "\<exists>r. sample_compilation = Inr r \<and> cr_status r = ST_SUCCEEDED \<and> cr_normalized r \<noteq> None \<and> cr_repair_attempted r
     \<and> length (tm_calls (cr_tokens r)) \<le> 2"
proof -
  have reg: "new_registry sample_document = Inr (cp_registry sample_compiler)"
    using sample_registry_ok by (simp add: sample_compiler_def)
  obtain r where r: "sample_compilation = Inr r" "length (tm_calls (cr_tokens r)) \<le> (if cr_repair_attempted r then 2 else 1)"
      "cr_status r = ST_SUCCEEDED \<longleftrightarrow> cr_normalized r \<noteq> None"
    using compilation_always_answers [OF reg, of sample_zones sample_reading sample_question "''c1''" "Some 10"] sample_provider_behaves
    unfolding sample_compilation_def by (auto simp: sample_compiler_def)
  moreover have "cr_status r = ST_SUCCEEDED" "cr_repair_attempted r" using sample_compiled unfolding r(1) by simp_all
  ultimately show ?thesis by (intro exI [of _ r]) simp
qed

section \<open>A compiled graph means the question\<close>

lemma compiled_graph_parts:
  assumes "compile cp zones rd rq cid deadline = Inr r" "cr_normalized r = Some g'"
  obtains ini g v where "initialize (cp_registry cp) zones rd rq cid = Inr ini" "ir_status ini = ST_SUCCEEDED"
    "cr_resolved_terms r = ir_resolved_terms ini" "cr_context r = ir_context ini" "cr_candidate r = Some (Some g)"
    "validate (cp_registry cp) (Some g) (ir_context ini) (ir_resolved_terms ini) (ir_time_windows ini)
       (Some (cq_compilation_mode rq)) = Inr v" "vr_normalized v = Some g'"
proof -
  obtain ini where ini: "initialize (cp_registry cp) zones rd rq cid = Inr ini" "ir_status ini = ST_SUCCEEDED"
    using assms by (auto simp: compile_def refused_response_def split: sum.splits if_splits)
  have "\<exists>c v. run_validator cp rq ini c = Inr v \<and> vr_normalized v = Some g' \<and> cr_resolved_terms r = ir_resolved_terms ini
      \<and> cr_context r = ir_context ini \<and> cr_candidate r = Some c"
    using assms ini
    by (auto simp: compile_def repair_candidate_def success_response_def failure_response_def Let_def
        split: sum.splits if_splits compile_raise.splits)
  then obtain c v where c: "run_validator cp rq ini c = Inr v" "vr_normalized v = Some g'" "cr_resolved_terms r = ir_resolved_terms ini"
      "cr_context r = ir_context ini" "cr_candidate r = Some c" by blast
  from c(1) have val: "validate (cp_registry cp) c (ir_context ini) (ir_resolved_terms ini) (ir_time_windows ini)
       (Some (cq_compilation_mode rq)) = Inr v"
    unfolding run_validator_def by (cases "validate (cp_registry cp) c (ir_context ini) (ir_resolved_terms ini) (ir_time_windows ini)
       (Some (cq_compilation_mode rq))") simp_all
  obtain g where "c = Some g" using val c(2) by (cases c) (auto simp: validate_def schema_invalid_def)
  with val c ini show ?thesis by (intro that) simp_all
qed

text \<open>
  C6: A compiled graph means what was asked. Whatever the provider proposed, a
  graph that the compiler returns uses only enabled, allowed concepts of the
  context selected for the question; it is a single chain that aggregates the
  profit; and its filters keep exactly the rows described by the members and the
  time windows that the initializer resolved from the question.
\<close>

theorem compiled_graph_means_the_question:
  assumes "new_registry d = Inr (cp_registry cp)" "trusted_ontology (cp_registry cp)"
    and "compile cp zones rd rq cid deadline = Inr r" "cr_normalized r = Some g"
  shows "\<exists>ini. initialize (cp_registry cp) zones rd rq cid = Inr ini \<and> ir_status ini = ST_SUCCEEDED
    \<and> (\<forall>n \<in> set (qg_nodes g). node_governed (cp_registry cp) (selected_ids (ir_context ini)) n)
    \<and> chain_graph g \<and> exact_aggregate g
    \<and> (\<exists>e cs ps rest. map nd_parameters (qg_nodes g) = SelectParameters e cs # map FilterParameters ps @ rest
         \<and> length rest = length (expected_tail (cq_compilation_mode rq))
         \<and> (\<forall>row. (\<forall>p \<in> set ps. keeps p row = Some True)
              \<longleftrightarrow> requested_row (ir_resolved_terms ini) (ir_time_windows ini) (cq_compilation_mode rq) row))"
proof -
  obtain ini c v where ini: "initialize (cp_registry cp) zones rd rq cid = Inr ini" "ir_status ini = ST_SUCCEEDED"
      and v: "validate (cp_registry cp) (Some c) (ir_context ini) (ir_resolved_terms ini) (ir_time_windows ini)
       (Some (cq_compilation_mode rq)) = Inr v" "vr_normalized v = Some g"
    using compiled_graph_parts [OF assms(3,4)] by metis
  note gov = governed_graph [OF assms(1) v] and exact = trusted_graph_exact [OF assms(1,2) v]
  show ?thesis
    by (intro exI [of _ ini] conjI ini gov [THEN conjunct1] exact [THEN conjunct1] exact [THEN conjunct2, THEN conjunct1]
        exact [THEN conjunct2, THEN conjunct2])
qed

theorem compiled_graph_means_the_question_witness:
  "\<exists>r g e cs ps rest. sample_compilation = Inr r \<and> cr_normalized r = Some g \<and> chain_graph g
     \<and> map nd_parameters (qg_nodes g) = SelectParameters e cs # map FilterParameters ps @ rest \<and> length rest = 3"
proof -
  have reg: "new_registry sample_document = Inr (cp_registry sample_compiler)" "trusted_ontology (cp_registry sample_compiler)"
    using sample_registry_ok sample_ontology_trusted by (simp_all add: sample_compiler_def)
  obtain r g where r: "sample_compilation = Inr r" "cr_normalized r = Some g"
    using sample_compiled by (auto split: sum.splits)
  have "cq_compilation_mode sample_question = REGIONAL_QUARTERLY_PROFIT" by (simp add: sample_question_def sample_request_def)
  then have tail: "length (expected_tail (cq_compilation_mode sample_question)) = 3" by (simp add: expected_tail_def)
  from compiled_graph_means_the_question [OF reg r(1) [unfolded sample_compilation_def] r(2), unfolded tail]
  obtain e cs ps rest where "chain_graph g" "length rest = 3"
      "map nd_parameters (qg_nodes g) = SelectParameters e cs # map FilterParameters ps @ rest"
    by (elim exE conjE)
  with r show ?thesis
    by (intro exI [of _ r] exI [of _ g] exI [of _ e] exI [of _ cs] exI [of _ ps] exI [of _ rest]) simp
qed

end
