(* ===== verification/Runtime_Adapter.thy ===== *)
theory Runtime_Adapter
  imports Semantic_Compiler Query_Planner
begin

text \<open>
  \<open>CompilerRuntimeAdapter\<close> (\<open>adapter.py\<close> of the semantic backend): the translation
  of a compiled query graph into the logical graph of the query runtime, with
  the bindings of governed concepts to source columns and of governed members to
  source values. The mapping document is an argument; \<open>load_default\<close> only reads it.
\<close>

section \<open>Source mappings\<close>

record concept_definition =
  cd_column :: string
  cd_data_type :: Runtime_Domain.scalar_type
  cd_mode_columns :: "(compilation_mode, string) dict"

record source_mapping =
  sm_version :: string
  sm_alias :: string
  sm_source_type :: string
  sm_object_name :: string
  sm_concepts :: "(string, concept_definition) dict"
  sm_members :: "(string, string) dict"

datatype adapter_error = AdapterFailure string | AdapterOther

definition column_for :: "source_mapping \<Rightarrow> compilation_mode \<Rightarrow> string \<Rightarrow> adapter_error + bound_column" where
  "column_for m mode concept =
     rbind (from_option (AdapterFailure ''ADAPTER_CONCEPT_UNMAPPED'') (dget (sm_concepts m) concept)) (\<lambda>d.
     Inr \<lparr>bc_concept = concept, bc_source_alias = sm_alias m,
          bc_column_name = dget_or (cd_mode_columns d) mode (cd_column d), bc_data_type = cd_data_type d\<rparr>)"

section \<open>Types and expressions\<close>

fun runtime_type :: "column_type \<Rightarrow> Runtime_Domain.scalar_type" where
  "runtime_type STRING = T_STRING"
| "runtime_type NUMBER = T_FLOAT"
| "runtime_type BOOLEAN = T_BOOLEAN"
| "runtime_type DATETIME = T_TIMESTAMP"

fun binary_kind :: "binary_operator \<Rightarrow> expression_kind" where
  "binary_kind ADD = E_ADD"
| "binary_kind SUBTRACT = E_SUBTRACT"
| "binary_kind MULTIPLY = E_MULTIPLY"
| "binary_kind DIVIDE = E_DIVIDE"

fun predicate_kind :: "predicate_operator \<Rightarrow> expression_kind option" where
  "predicate_kind EQ = Some E_EQUAL"
| "predicate_kind NE = Some E_NOT_EQUAL"
| "predicate_kind GT = Some E_GREATER_THAN"
| "predicate_kind GTE = Some E_GREATER_EQUAL"
| "predicate_kind LT = Some E_LESS_THAN"
| "predicate_kind LTE = Some E_LESS_EQUAL"
| "predicate_kind _ = None"

fun runtime_aggregate :: "Semantic_Validator.aggregate_function \<Rightarrow> Runtime_Domain.aggregate_function" where
  "runtime_aggregate FN_SUM = Agg_SUM"
| "runtime_aggregate FN_AVG = Agg_AVG"
| "runtime_aggregate FN_MIN = Agg_MIN"
| "runtime_aggregate FN_MAX = Agg_MAX"
| "runtime_aggregate FN_COUNT = Agg_COUNT"

type_synonym column_types = "(string, Runtime_Domain.scalar_type) dict"

definition type_of :: "column_types \<Rightarrow> string \<Rightarrow> adapter_error + Runtime_Domain.scalar_type" where
  "type_of types column = from_option (AdapterFailure ''ADAPTER_COLUMN_UNMAPPED'') (dget types column)"

definition typed_column :: "column_types \<Rightarrow> string \<Rightarrow> adapter_error + typed_expression" where
  "typed_column types column = rbind (type_of types column) (\<lambda>t. Inr (expr_col column t))"

definition source_value :: "source_mapping \<Rightarrow> string \<Rightarrow> scalar \<Rightarrow> adapter_error + scalar" where
  "source_value m column v =
     (if column = region_field
      then (case v of SString s \<Rightarrow> from_option (AdapterFailure ''ADAPTER_MEMBER_UNMAPPED'') (map_option SString (dget (sm_members m) s))
            | _ \<Rightarrow> Inl (AdapterFailure ''ADAPTER_MEMBER_UNMAPPED''))
      else Inr v)"

definition comparison ::
    "source_mapping \<Rightarrow> expression_kind \<Rightarrow> string \<Rightarrow> Runtime_Domain.scalar_type \<Rightarrow> scalar \<Rightarrow> adapter_error + typed_expression" where
  "comparison m kind column t v =
     rbind (source_value m column v) (\<lambda>s.
     Inr (TypedExpression kind T_BOOLEAN None SNone [expr_col column t, expr_literal s t]))"

definition connective :: "expression_kind \<Rightarrow> typed_expression \<Rightarrow> typed_expression \<Rightarrow> typed_expression" where
  "connective kind l r = TypedExpression kind T_BOOLEAN None SNone [l, r]"

definition adapt_predicate :: "source_mapping \<Rightarrow> column_types \<Rightarrow> predicate \<Rightarrow> adapter_error + bound_predicate" where
  "adapt_predicate m types p =
     (let column = pr_column p in
      rbind (type_of types column) (\<lambda>t.
      rbind (case pr_operator p of
          BETWEEN \<Rightarrow>
            (case pr_value p of
               PMap b \<Rightarrow>
                 if set (map fst b) \<noteq> {''start'', ''end_exclusive''} then Inl (AdapterFailure ''ADAPTER_PREDICATE_INVALID'')
                 else rbind (comparison m E_GREATER_EQUAL column t (SString (the (dget b ''start'')))) (\<lambda>l.
                      rbind (comparison m E_LESS_THAN column t (SString (the (dget b ''end_exclusive'')))) (\<lambda>r.
                      Inr (connective E_AND l r)))
             | _ \<Rightarrow> Inl (AdapterFailure ''ADAPTER_PREDICATE_INVALID''))
        | IN \<Rightarrow>
            (case pr_value p of
               PList (v # vs) \<Rightarrow>
                 rbind (comparison m E_EQUAL column t v) (\<lambda>first.
                 rbind (traverse (comparison m E_EQUAL column t) vs) (\<lambda>rest.
                 Inr (foldl (connective E_OR) first rest)))
             | _ \<Rightarrow> Inl (AdapterFailure ''ADAPTER_PREDICATE_INVALID''))
        | operator \<Rightarrow>
            (case (predicate_kind operator, pr_value p) of
               (Some kind, PScalar v) \<Rightarrow> comparison m kind column t v
             | _ \<Rightarrow> Inl (AdapterFailure ''ADAPTER_PREDICATE_UNSUPPORTED''))) (\<lambda>e.
      Inr (BoundPredicate e))))"

type_synonym pivot_aliases = "(string, string) dict"

definition resolve_alias :: "pivot_aliases \<Rightarrow> string \<Rightarrow> string" where
  "resolve_alias aliases column = dget_or aliases column column"

fun adapt_operand :: "column_types \<Rightarrow> pivot_aliases \<Rightarrow> operand \<Rightarrow> adapter_error + typed_expression" where
  "adapt_operand types aliases (ColumnOperand c) = typed_column types (resolve_alias aliases c)"
| "adapt_operand types aliases (LiteralOperand v t) = Inr (expr_literal v (runtime_type t))"

fun adapt_expression ::
    "column_types \<Rightarrow> pivot_aliases \<Rightarrow> Runtime_Domain.scalar_type \<Rightarrow> expression \<Rightarrow> adapter_error + typed_expression" where
  "adapt_expression types aliases out (Operand x) = adapt_operand types aliases x"
| "adapt_expression types aliases out (Binary k l r) =
     rbind (adapt_operand types aliases l) (\<lambda>a.
     rbind (adapt_operand types aliases r) (\<lambda>b.
     Inr (TypedExpression (binary_kind k) out None SNone [a, b])))"

section \<open>Operators\<close>

type_synonym adapted_operation = "operator_spec \<times> column_types \<times> pivot_aliases"

definition adapt_measure :: "column_types \<Rightarrow> aggregate_measure \<Rightarrow> adapter_error + aggregate_spec" where
  "adapt_measure types a =
     rbind (typed_column types (am_source a)) (\<lambda>e.
     Inr \<lparr>agg_name = am_output a, agg_function = runtime_aggregate (am_function a), agg_expression = Some e\<rparr>)"

definition adapt_derived :: "column_types \<Rightarrow> pivot_aliases \<Rightarrow> derived_column \<Rightarrow> adapter_error + named_expression" where
  "adapt_derived types aliases c =
     rbind (adapt_expression types aliases (runtime_type (dc_data_type c)) (dc_expression c)) (\<lambda>e.
     Inr \<lparr>ne_name = dc_output c, ne_expression = e\<rparr>)"

definition adapt_projection :: "column_types \<Rightarrow> pivot_aliases \<Rightarrow> projection \<Rightarrow> adapter_error + named_expression" where
  "adapt_projection types aliases p =
     rbind (typed_column types (resolve_alias aliases (pj_source p))) (\<lambda>e.
     Inr \<lparr>ne_name = pj_alias p, ne_expression = e\<rparr>)"

definition named_types :: "named_expression list \<Rightarrow> column_types" where
  "named_types es = dict_of (map (\<lambda>e. (ne_name e, expr_type (ne_expression e))) es)"

fun runtime_direction :: "Semantic_Validator.sort_direction \<Rightarrow> Runtime_Domain.sort_direction" where
  "runtime_direction Semantic_Validator.ASC = Runtime_Domain.ASC"
| "runtime_direction Semantic_Validator.DESC = Runtime_Domain.DESC"

fun runtime_join :: "Semantic_Validator.join_type \<Rightarrow> Runtime_Domain.join_type" where
  "runtime_join INNER = J_INNER"
| "runtime_join LEFT = J_LEFT"

text \<open>
  The branches of \<open>_operation\<close> test the operator and the type of the parameters;
  the aggregation tests the operator only, so other parameters raise an
  attribute error there.
\<close>

definition adapt_operation ::
    "source_mapping \<Rightarrow> Semantic_Validator.operator \<Rightarrow> node_parameters \<Rightarrow> column_types \<Rightarrow> pivot_aliases \<Rightarrow> adapter_error + adapted_operation" where
  "adapt_operation m operator parameters types aliases =
     (case (operator, parameters) of
        (SELECT, SelectParameters entity cs) \<Rightarrow> Inr ((operator_of Op_SELECT)\<lparr>op_columns := cs\<rparr>, [], [])
      | (FILTER, FilterParameters p) \<Rightarrow>
          rbind (adapt_predicate m types p) (\<lambda>q. Inr ((operator_of Op_FILTER)\<lparr>op_predicate := Some q\<rparr>, [], []))
      | (AGGREGATE, AggregateParameters gs ms) \<Rightarrow>
          rbind (traverse (adapt_measure types) ms) (\<lambda>aggs.
          Inr ((operator_of Op_AGGREGATE)\<lparr>op_group_by := gs, op_aggregates := aggs\<rparr>,
               dict_of (concat (map (\<lambda>a. case agg_expression a of None \<Rightarrow> [] | Some e \<Rightarrow> [(agg_name a, expr_type e)]) aggs)), []))
      | (AGGREGATE, _) \<Rightarrow> Inl AdapterOther
      | (PIVOT, PivotParameters ix c v vs bs) \<Rightarrow>
          let bound = dict_of (map (\<lambda>(a, t). (a, isoformat t)) bs)
          in if set (map fst bound) \<noteq> set vs then Inl (AdapterFailure ''ADAPTER_PIVOT_BINDING_INVALID'')
             else rbind (type_of types v) (\<lambda>t.
               Inr ((operator_of Op_PIVOT)\<lparr>op_pivot_index := ix, op_pivot_column := Some c, op_pivot_value := Some v,
                       op_pivot_values := map (\<lambda>x. the (dget bound x)) vs\<rparr>,
                    dict_of (map (\<lambda>x. (snd x, t)) bound), bound))
      | (DERIVE, DeriveParameters cs) \<Rightarrow>
          rbind (traverse (adapt_derived types aliases) cs) (\<lambda>es.
          Inr ((operator_of Op_DERIVE)\<lparr>op_expressions := es\<rparr>, named_types es, []))
      | (PROJECT, ProjectParameters ps) \<Rightarrow>
          rbind (traverse (adapt_projection types aliases) ps) (\<lambda>es.
          Inr ((operator_of Op_PROJECT)\<lparr>op_expressions := es\<rparr>, named_types es, []))
      | (SORT, SortParameters ks) \<Rightarrow>
          Inr ((operator_of Op_SORT)\<lparr>op_sort := map (\<lambda>(c, d). \<lparr>sort_column = resolve_alias aliases c,
                 sort_dir = runtime_direction d, sort_nulls_first = False\<rparr>) ks\<rparr>, [], [])
      | (JOIN, JoinParameters relation l r t) \<Rightarrow>
          Inr ((operator_of Op_JOIN)\<lparr>op_join_type := Some (runtime_join t), op_join_keys := [\<lparr>jk_left = l, jk_right = r\<rparr>]\<rparr>, [], [])
      | _ \<Rightarrow> Inl (AdapterFailure ''ADAPTER_OPERATOR_UNSUPPORTED''))"

section \<open>Concepts of a node\<close>

fun scalar_strings :: "scalar \<Rightarrow> string list" where
  "scalar_strings (SString s) = [s]"
| "scalar_strings _ = []"

fun value_strings :: "predicate_value \<Rightarrow> string list" where
  "value_strings (PScalar v) = scalar_strings v"
| "value_strings (PList vs) = concat (map scalar_strings vs)"
| "value_strings (PMap b) = map snd b"

fun operand_strings :: "operand \<Rightarrow> string list" where
  "operand_strings (ColumnOperand c) = [c]"
| "operand_strings (LiteralOperand v t) = scalar_strings v"

fun expression_strings :: "expression \<Rightarrow> string list" where
  "expression_strings (Operand x) = operand_strings x"
| "expression_strings (Binary k l r) = operand_strings l @ operand_strings r"

fun parameter_strings :: "node_parameters \<Rightarrow> string list" where
  "parameter_strings (SelectParameters e cs) = e # cs"
| "parameter_strings (FilterParameters p) = pr_column p # value_strings (pr_value p)"
| "parameter_strings (AggregateParameters gs ms) = gs @ concat (map (\<lambda>a. [am_source a, am_output a]) ms)"
| "parameter_strings (PivotParameters ix c v vs bs) = ix @ [c, v] @ vs @ map fst bs"
| "parameter_strings (DeriveParameters cs) = concat (map (\<lambda>c. dc_output c # expression_strings (dc_expression c)) cs)"
| "parameter_strings (ProjectParameters ps) = concat (map (\<lambda>p. [pj_source p, pj_alias p]) ps)"
| "parameter_strings (SortParameters ks) = map fst ks"
| "parameter_strings (JoinParameters relation l r t) = [relation, l, r]"

definition node_concepts :: "node_parameters \<Rightarrow> string list" where
  "node_concepts ps = filter (\<lambda>s. CHR ''.'' \<in> set s) (parameter_strings ps)"

section \<open>Adaptation\<close>

fun mode_value :: "compilation_mode \<Rightarrow> string" where
  "mode_value REGIONAL_QUARTERLY_PROFIT = ''regional_quarterly_profit''"
| "mode_value MONTHLY_REGIONAL_COMPARISON = ''monthly_regional_comparison''"

record adapted =
  ad_graph :: logical_graph
  ad_planner :: planner
  ad_metadata :: "(string, string) dict"

definition source_concept :: "source_mapping \<Rightarrow> string \<Rightarrow> bool" where
  "source_concept m c =
     ((drop_prefix ''commerce.sales_record.'' c \<noteq> None \<or> drop_prefix ''metric.'' c \<noteq> None) \<and> dget (sm_members m) c = None)"

definition used_concepts :: "source_mapping \<Rightarrow> sqg \<Rightarrow> string list" where
  "used_concepts m g =
     sort (remdups (filter (source_concept m) (concat (map (\<lambda>n. node_concepts (nd_parameters n)) (qg_nodes g)))))"

definition adapted_node :: "source_mapping \<Rightarrow> (string, bound_column) dict \<Rightarrow> node \<Rightarrow> operator_spec \<Rightarrow> logical_node" where
  "adapted_node m bindings n operation =
     \<lparr>ln_id = nd_id n, ln_operation = operation, ln_dependencies = nd_dependencies n, ln_source_alias = Some (sm_alias m),
      ln_concepts = sort (remdups (filter (\<lambda>c. dget bindings c \<noteq> None) (node_concepts (nd_parameters n)))),
      ln_estimated_rows = Some 10000, ln_estimated_bytes = Some (4 * 1024 * 1024), ln_requires_spill = False\<rparr>"

definition update_all :: "('k, 'v) dict \<Rightarrow> ('k, 'v) dict \<Rightarrow> ('k, 'v) dict" where
  "update_all new d = foldl (\<lambda>d (k, v). dput k v d) d new"

fun adapt_nodes ::
    "source_mapping \<Rightarrow> (string, bound_column) dict \<Rightarrow> node list \<Rightarrow> column_types \<Rightarrow> pivot_aliases \<Rightarrow> adapter_error + logical_node list" where
  "adapt_nodes m bindings [] types aliases = Inr []"
| "adapt_nodes m bindings (n # ns) types aliases =
     rbind (adapt_operation m (nd_operator n) (nd_parameters n) types aliases) (\<lambda>(operation, produced, new_aliases).
     rbind (adapt_nodes m bindings ns (update_all produced types) (update_all new_aliases aliases)) (\<lambda>rest.
     Inr (adapted_node m bindings n operation # rest)))"

definition capability_of :: "source_mapping \<Rightarrow> string \<Rightarrow> capability_catalog" where
  "capability_of m source_type =
     \<lparr>cap_source_alias = sm_alias m, cap_source_type = source_type, cap_operator_kinds = [Op_SELECT, Op_FILTER, Op_AGGREGATE, Op_SORT],
      cap_joins = False, cap_aggregate_functions = [Agg_SUM, Agg_AVG, Agg_MIN, Agg_MAX, Agg_COUNT], cap_time_grains = [],
      cap_spill_supported = False, cap_max_rows = Some 100000, cap_max_bytes = Some (32 * 1024 * 1024)\<rparr>"

definition bind_concepts :: "source_mapping \<Rightarrow> compilation_mode \<Rightarrow> sqg \<Rightarrow> adapter_error + (string, bound_column) dict" where
  "bind_concepts m mode g = traverse (\<lambda>c. rbind (column_for m mode c) (\<lambda>b. Inr (c, b))) (used_concepts m g)"

definition adapt :: "source_mapping \<Rightarrow> compile_response \<Rightarrow> string \<Rightarrow> compilation_mode \<Rightarrow> string \<Rightarrow> adapter_error + adapted" where
  "adapt m response run_id mode source_type =
     (case (cr_status response, cr_normalized response) of
        (ST_SUCCEEDED, Some g) \<Rightarrow>
          let st = (if source_type = [] then sm_source_type m else source_type) in
          rbind (bind_concepts m mode g) (\<lambda>bindings.
          rbind (adapt_nodes m bindings (qg_nodes g) (map (\<lambda>(c, b). (c, bc_data_type b)) bindings) []) (\<lambda>nodes.
          Inr \<lparr>ad_graph = \<lparr>lg_version = V0, lg_id = ''sqg-'' @ run_id, lg_nodes = nodes, lg_output_node_id = qg_output_node_id g\<rparr>,
               ad_planner = \<lparr>pl_binder = exact_bind (map (\<lambda>(c, b). (c, [b])) bindings),
                 pl_sources = [(sm_alias m, \<lparr>src_alias = sm_alias m, src_type = st, src_object_name = sm_object_name m\<rparr>)],
                 pl_capabilities = [(sm_alias m, capability_of m st)], pl_fragment_supported = None\<rparr>,
               ad_metadata = [(''mapping_version'', sm_version m), (''ontology_version'', sx_ontology_version (cr_context response)),
                 (''compilation_mode'', mode_value mode)]\<rparr>))
      | _ \<Rightarrow> Inl (AdapterFailure ''ADAPTER_COMPILE_NOT_SUCCEEDED''))"

section \<open>What adapted filters keep\<close>

text \<open>
  A reading of the typed expressions that filters of a trusted mode adapt to,
  over the rows of the source: text and instants compared with literals.
\<close>

definition literal_cell :: "scalar \<Rightarrow> Runtime_Domain.scalar_type \<Rightarrow> cell option" where
  "literal_cell v t =
     (case v of
        SString s \<Rightarrow>
          if t = T_STRING then Some (CellText s)
          else if t = T_TIMESTAMP then map_option CellInstant (Option.bind (parse_datetime (SString s)) as_utc)
          else None
      | _ \<Rightarrow> None)"

definition compare_cells :: "expression_kind \<Rightarrow> cell \<Rightarrow> cell \<Rightarrow> bool option" where
  "compare_cells kind c l =
     (case l of
        CellText s \<Rightarrow> if kind = E_EQUAL then Some (c = CellText s) else None
      | CellInstant t \<Rightarrow>
          if kind = E_GREATER_EQUAL then Some (case c of CellInstant u \<Rightarrow> t \<le> u | _ \<Rightarrow> False)
          else if kind = E_LESS_THAN then Some (case c of CellInstant u \<Rightarrow> u < t | _ \<Rightarrow> False)
          else None
      | CellOther \<Rightarrow> None)"

fun both :: "(bool \<Rightarrow> bool \<Rightarrow> bool) \<Rightarrow> bool option \<Rightarrow> bool option \<Rightarrow> bool option" where
  "both f (Some a) (Some b) = Some (f a b)"
| "both f _ _ = None"

fun expr_holds :: "typed_expression \<Rightarrow> row \<Rightarrow> bool option" where
  "expr_holds (TypedExpression kind t c v args) row =
     (case args of
        [l, r] \<Rightarrow>
          if kind = E_AND then both (\<and>) (expr_holds l row) (expr_holds r row)
          else if kind = E_OR then both (\<or>) (expr_holds l row) (expr_holds r row)
          else if expr_kind l = E_COLUMN \<and> expr_kind r = E_LITERAL
          then Option.bind (literal_cell (expr_value r) (expr_type r)) (compare_cells kind (row (the (expr_column l))))
          else None
      | _ \<Rightarrow> None)"

text \<open>The source row as the ontology names it: source values of regions read back as members.\<close>

definition governed_row :: "source_mapping \<Rightarrow> row \<Rightarrow> row" where
  "governed_row m row c =
     (if c = region_field
      then (case row c of
              CellText s \<Rightarrow> (case find (\<lambda>kv. snd kv = s) (sm_members m) of Some kv \<Rightarrow> CellText (fst kv) | None \<Rightarrow> CellOther)
            | _ \<Rightarrow> CellOther)
      else row c)"

definition concept_type :: "source_mapping \<Rightarrow> string \<Rightarrow> Runtime_Domain.scalar_type option" where
  "concept_type m c = map_option cd_data_type (dget (sm_concepts m) c)"

definition mapping_ok :: "source_mapping \<Rightarrow> bool" where
  "mapping_ok m \<longleftrightarrow> distinct (map fst (sm_members m)) \<and> distinct (map snd (sm_members m))
     \<and> concept_type m region_field = Some T_STRING \<and> concept_type m period_field = Some T_TIMESTAMP"

lemma governed_member:
  assumes "mapping_ok m" "dget (sm_members m) k = Some s"
  shows "governed_row m row region_field = CellText k \<longleftrightarrow> row region_field = CellText s"
proof -
  have d: "distinct (map fst (sm_members m))" "distinct (map snd (sm_members m))" using assms(1) by (simp_all add: mapping_ok_def)
  have ks: "(k, s) \<in> set (sm_members m)" using assms(2) by (rule map_of_SomeD)
  have uniq: "kv = (k, s)" if "kv \<in> set (sm_members m)" "fst kv = k \<or> snd kv = s" for kv
  proof -
    have "inj_on fst (set (sm_members m))" "inj_on snd (set (sm_members m))" using d by (simp_all add: distinct_map)
    note inj_onD [OF this(1), of kv "(k, s)"] inj_onD [OF this(2), of kv "(k, s)"]
    then show ?thesis using that ks by auto
  qed
  have f: "find (\<lambda>kv. snd kv = s) (sm_members m) = Some (k, s)"
  proof (cases "find (\<lambda>kv. snd kv = s) (sm_members m)")
    case None
    then show ?thesis using ks by (auto simp: find_None_iff)
  next
    case (Some kv)
    then have "kv \<in> set (sm_members m)" "snd kv = s" by (auto simp: find_Some_iff)
    then have "kv = (k, s)" by (intro uniq disjI2)
    then show ?thesis using Some by simp
  qed
  have "row region_field = CellText s" if gov: "governed_row m row region_field = CellText k"
  proof -
    obtain t kv where t: "row region_field = CellText t" "find (\<lambda>kv. snd kv = t) (sm_members m) = Some kv" "fst kv = k"
      using gov by (auto simp: governed_row_def split: cell.splits option.splits)
    then have "kv \<in> set (sm_members m)" "snd kv = t" by (auto simp: find_Some_iff)
    then have "kv = (k, s)" using t(3) by (intro uniq disjI1)
    then have "t = s" using \<open>snd kv = t\<close> by simp
    then show ?thesis using t(1) by simp
  qed
  then show ?thesis using f by (auto simp: governed_row_def)
qed

lemma adapted_comparison:
  assumes "comparison m kind c t v = Inr e" "kind \<noteq> E_AND" "kind \<noteq> E_OR"
  obtains s where "source_value m c v = Inr s" "expr_holds e row = Option.bind (literal_cell s t) (compare_cells kind (row c))"
  using assms by (auto simp: comparison_def expr_col_def expr_literal_def)

lemma member_comparison:
  assumes "mapping_ok m" "comparison m E_EQUAL region_field T_STRING (SString k) = Inr e"
  shows "expr_holds e row = Some (governed_row m row region_field = CellText k)"
proof -
  obtain s where s: "source_value m region_field (SString k) = Inr s"
      "expr_holds e row = Option.bind (literal_cell s T_STRING) (compare_cells E_EQUAL (row region_field))"
    using adapted_comparison [OF assms(2), of row] by auto
  then obtain x where "dget (sm_members m) k = Some x" "s = SString x"
    by (auto simp: source_value_def from_option_def split: option.splits)
  with s(2) show ?thesis using governed_member [OF assms(1)] by (simp add: literal_cell_def compare_cells_def)
qed

lemma disjunction_holds:
  assumes "expr_holds e row = Some b" "list_all2 (\<lambda>v e. expr_holds e row = Some (P v)) vs es"
  shows "expr_holds (foldl (connective E_OR) e es) row = Some (b \<or> (\<exists>v \<in> set vs. P v))"
  using assms(2,1)
proof (induction arbitrary: e b rule: list_all2_induct)
  case (Cons v vs e' es)
  have "expr_holds (connective E_OR e e') row = Some (b \<or> P v)" using Cons by (simp add: connective_def)
  from Cons.IH [OF this] show ?case by (simp add: disj_assoc)
qed simp

text \<open>An adapted filter keeps the source rows whose governed reading the compiled filter keeps.\<close>

lemma adapted_predicate_exact:
  assumes m: "mapping_ok m" and types: "\<forall>c t. dget types c = Some t \<longrightarrow> concept_type m c = Some t"
    and p: "trusted_predicate rg p" and q: "adapt_predicate m types p = Inr q"
  shows "expr_holds (pred_expression q) row = keeps p (governed_row m row)"
  using p unfolding trusted_predicate_def
proof (elim disjE conjE exE)
  fix ms assume c: "pr_column p = region_field" and ms: "member_predicate rg region_field p ms"
  have "type_of types region_field = Inr T_STRING"
    using q c types m by (auto simp: adapt_predicate_def type_of_def from_option_def mapping_ok_def Let_def split: option.splits)
  note t = this
  from ms consider (eq) k where "pr_operator p = EQ" "pr_value p = PScalar (SString k)" "ms = [k]"
    | (inc) k ks where "pr_operator p = IN" "pr_value p = PList (map SString (k # ks))" "ms = k # ks"
    by (cases ms) (auto simp: member_predicate_def)
  then show ?thesis
  proof cases
    case eq
    then have "comparison m E_EQUAL region_field T_STRING (SString k) = Inr (pred_expression q)"
      using q c t by (auto simp: adapt_predicate_def Let_def)
    from member_comparison [OF m this] eq c show ?thesis by (simp add: keeps_def Let_def)
  next
    case inc
    then obtain e es where e: "comparison m E_EQUAL region_field T_STRING (SString k) = Inr e"
        "list_all2 (\<lambda>v e. comparison m E_EQUAL region_field T_STRING v = Inr e) (map SString ks) es"
        "pred_expression q = foldl (connective E_OR) e es"
      using q c t by (auto simp: adapt_predicate_def Let_def traverse_eq_Inr)
    have "list_all2 (\<lambda>j e. expr_holds e row = Some (governed_row m row region_field = CellText j)) ks es"
      using e(2) by (auto simp: list_all2_map1 elim!: list_all2_mono intro: member_comparison [OF m])
    from disjunction_holds [OF member_comparison [OF m e(1)] this] e(3)
    have "expr_holds (pred_expression q) row = Some (\<exists>j \<in> set ms. governed_row m row region_field = CellText j)"
      unfolding inc(3) by auto
    then show ?thesis using keeps_member [OF ms] c by simp
  qed
next
  assume c: "pr_column p = period_field" and "predicate_window p \<noteq> None"
  then obtain w where pw: "predicate_window p = Some w" by auto
  then obtain b s e where w: "pr_operator p = BETWEEN" "pr_value p = PMap b"
      "dget b ''start'' = Some s" "dget b ''end_exclusive'' = Some e"
      "Option.bind (parse_datetime (SString s)) as_utc = Some (fst w)" "Option.bind (parse_datetime (SString e)) as_utc = Some (snd w)"
    by (auto simp: predicate_window_def boundary_def split: predicate_operator.splits predicate_value.splits if_splits option.splits)
  have t: "type_of types period_field = Inr T_TIMESTAMP"
    using q c types m by (auto simp: adapt_predicate_def type_of_def from_option_def mapping_ok_def Let_def split: option.splits)
  have v: "source_value m period_field x = Inr x" for x by (simp add: source_value_def)
  obtain l r where l: "comparison m E_GREATER_EQUAL period_field T_TIMESTAMP (SString s) = Inr l"
      "comparison m E_LESS_THAN period_field T_TIMESTAMP (SString e) = Inr r" "pred_expression q = connective E_AND l r"
    using q c t w by (auto simp: adapt_predicate_def Let_def split: if_splits)
  have "expr_holds l row = Option.bind (literal_cell (SString s) T_TIMESTAMP) (compare_cells E_GREATER_EQUAL (row period_field))"
    using adapted_comparison [OF l(1), of row] v by auto
  moreover have "expr_holds r row = Option.bind (literal_cell (SString e) T_TIMESTAMP) (compare_cells E_LESS_THAN (row period_field))"
    using adapted_comparison [OF l(2), of row] v by auto
  ultimately have "expr_holds (pred_expression q) row = Some (in_window w (row period_field))"
    unfolding l(3) using w by (auto simp: connective_def literal_cell_def compare_cells_def in_window_def split: cell.splits)
  then show ?thesis using keeps_window [OF pw] c by (simp add: governed_row_def)
qed

section \<open>Shape of an adapted graph\<close>

fun runtime_operator :: "Semantic_Validator.operator \<Rightarrow> operator_kind" where
  "runtime_operator SELECT = Op_SELECT"
| "runtime_operator FILTER = Op_FILTER"
| "runtime_operator AGGREGATE = Op_AGGREGATE"
| "runtime_operator PIVOT = Op_PIVOT"
| "runtime_operator DERIVE = Op_DERIVE"
| "runtime_operator PROJECT = Op_PROJECT"
| "runtime_operator SORT = Op_SORT"
| "runtime_operator JOIN = Op_JOIN"

lemma adapt_operation_shape:
  assumes "adapt_operation m operator ps types aliases = Inr (spec, produced, new_aliases)"
  shows "op_kind spec = runtime_operator operator \<and> (operator \<noteq> FILTER \<longrightarrow> op_predicate spec = None)
    \<and> (operator = SELECT \<or> operator = FILTER \<longrightarrow> produced = [] \<and> new_aliases = [])"
  using assms
  by (cases operator; cases ps) (auto simp: adapt_operation_def operator_of_def Let_def split: if_splits)

definition node_adapted :: "source_mapping \<Rightarrow> node \<Rightarrow> logical_node \<Rightarrow> bool" where
  "node_adapted m n l \<longleftrightarrow> ln_id l = nd_id n \<and> ln_dependencies l = nd_dependencies n \<and> ln_source_alias l = Some (sm_alias m)
     \<and> op_kind (ln_operation l) = runtime_operator (nd_operator n) \<and> (nd_operator n \<noteq> FILTER \<longrightarrow> op_predicate (ln_operation l) = None)"

lemma adapt_nodes_shape: "adapt_nodes m b ns types aliases = Inr ls \<Longrightarrow> list_all2 (node_adapted m) ns ls"
proof (induction ns arbitrary: types aliases ls)
  case (Cons n ns)
  then obtain spec pr na rest where "adapt_operation m (nd_operator n) (nd_parameters n) types aliases = Inr (spec, pr, na)"
      "adapt_nodes m b ns (update_all pr types) (update_all na aliases) = Inr rest" "ls = adapted_node m b n spec # rest"
    by auto
  then show ?case
    using Cons.IH adapt_operation_shape by (auto simp: node_adapted_def adapted_node_def)
qed simp

lemma update_all_Nil [simp]: "update_all [] d = d"
  by (simp add: update_all_def)

lemma adapt_filter_nodes:
  assumes "map nd_operator fs = replicate (length ps) FILTER" "map nd_parameters fs = map FilterParameters ps"
    and "adapt_nodes m b (fs @ tail) types aliases = Inr ls"
  shows "\<exists>qs. list_all2 (\<lambda>p q. adapt_predicate m types p = Inr q) ps qs
    \<and> map (\<lambda>l. op_predicate (ln_operation l)) (take (length ps) ls) = map Some qs"
  using assms
proof (induction ps arbitrary: fs ls)
  case (Cons p ps)
  obtain f fs' where fs: "fs = f # fs'" "nd_operator f = FILTER" "nd_parameters f = FilterParameters p"
      "map nd_operator fs' = replicate (length ps) FILTER" "map nd_parameters fs' = map FilterParameters ps"
    using Cons.prems(1,2) by (cases fs) auto
  obtain q rest where q: "adapt_predicate m types p = Inr q" "adapt_nodes m b (fs' @ tail) types aliases = Inr rest"
      "ls = adapted_node m b f ((operator_of Op_FILTER)\<lparr>op_predicate := Some q\<rparr>) # rest"
    using Cons.prems(3) fs(2,3) unfolding fs(1) by (auto simp: adapt_operation_def)
  obtain qs where "list_all2 (\<lambda>p q. adapt_predicate m types p = Inr q) ps qs"
      "map (\<lambda>l. op_predicate (ln_operation l)) (take (length ps) rest) = map Some qs"
    using Cons.IH [OF fs(4,5) q(2)] by blast
  then show ?case using q by (intro exI [of _ "q # qs"]) (simp add: adapted_node_def)
qed simp

lemma bound_types:
  assumes "bind_concepts m mode g = Inr bindings" "dget (map (\<lambda>(c, b). (c, bc_data_type b)) bindings) c = Some t"
  shows "concept_type m c = Some t"
proof -
  obtain b where "(c, b) \<in> set bindings" "t = bc_data_type b" using map_of_SomeD [OF assms(2)] by auto
  moreover then have "column_for m mode c = Inr b"
    using traverse_member [OF assms(1) [unfolded bind_concepts_def]] by auto
  ultimately show ?thesis by (auto simp: column_for_def concept_type_def from_option_def split: option.splits)
qed

definition passes :: "logical_graph \<Rightarrow> row \<Rightarrow> bool" where
  "passes lg row = list_all (\<lambda>l. case op_predicate (ln_operation l) of None \<Rightarrow> True | Some q \<Rightarrow> expr_holds (pred_expression q) row = Some True) (lg_nodes lg)"

lemma adapted_graph_filters:
  assumes "mapping_ok m" "bind_concepts m mode g = Inr bindings"
    and "adapt_nodes m bindings (qg_nodes g) (map (\<lambda>(c, b). (c, bc_data_type b)) bindings) [] = Inr ls"
    and params: "map nd_parameters (qg_nodes g) = SelectParameters e cs # map FilterParameters ps @ rest"
    and ops: "map nd_operator (qg_nodes g) = SELECT # replicate (length ps) FILTER @ tail" "FILTER \<notin> set tail"
    and trusted: "\<forall>p \<in> set ps. trusted_predicate rg p"
  shows "list_all (\<lambda>l. case op_predicate (ln_operation l) of None \<Rightarrow> True | Some q \<Rightarrow> expr_holds (pred_expression q) row = Some True) ls
    \<longleftrightarrow> (\<forall>p \<in> set ps. keeps p (governed_row m row) = Some True)"
proof -
  let ?types = "map (\<lambda>(c, b). (c, bc_data_type b)) bindings" and ?ok = "\<lambda>l. case op_predicate (ln_operation l) of None \<Rightarrow> True
    | Some q \<Rightarrow> expr_holds (pred_expression q) row = Some True"
  obtain n ns where ns: "qg_nodes g = n # ns" using params by (cases "qg_nodes g") auto
  let ?fs = "take (length ps) ns" and ?tl = "drop (length ps) ns"
  have n: "nd_operator n = SELECT" "nd_parameters n = SelectParameters e cs"
      "map nd_operator ns = replicate (length ps) FILTER @ tail" "map nd_parameters ns = map FilterParameters ps @ rest"
    using params ops(1) by (simp_all add: ns)
  have fs: "map nd_operator ?fs = replicate (length ps) FILTER" "map nd_parameters ?fs = map FilterParameters ps"
      "map nd_operator ?tl = tail"
    by (simp_all flip: take_map drop_map add: n(3,4))
  obtain ls' where ls': "adapt_nodes m bindings (?fs @ ?tl) ?types [] = Inr ls'"
      "ls = adapted_node m bindings n ((operator_of Op_SELECT)\<lparr>op_columns := cs\<rparr>) # ls'"
    using assms(3) n(1,2) unfolding ns by (auto simp: adapt_operation_def)
  obtain qs where qs: "list_all2 (\<lambda>p q. adapt_predicate m ?types p = Inr q) ps qs"
      "map (\<lambda>l. op_predicate (ln_operation l)) (take (length ps) ls') = map Some qs"
    using adapt_filter_nodes [OF fs(1,2) ls'(1)] by blast
  have tail_ok: "list_all ?ok (drop (length ps) ls')"
  proof -
    have "list_all2 (node_adapted m) ?tl (drop (length ps) ls')"
      using list_all2_dropI [OF adapt_nodes_shape [OF ls'(1)], of "length ps"] by simp
    then have "list_all2 (\<lambda>n l. op_predicate (ln_operation l) = None) ?tl (drop (length ps) ls')"
    proof (rule list.rel_mono_strong)
      fix x l assume x: "x \<in> set ?tl" "node_adapted m x l"
      have "nd_operator x \<in> set (map nd_operator ?tl)" using imageI [OF x(1), of nd_operator] by (simp only: set_map)
      then have "nd_operator x \<noteq> FILTER" using ops(2) unfolding fs(3) by metis
      then show "op_predicate (ln_operation l) = None" using x(2) by (simp add: node_adapted_def)
    qed
    then show ?thesis by (auto simp: list_all2_conv_all_nth list_all_length)
  qed
  have "list_all ?ok (take (length ps) ls') \<longleftrightarrow> list_all (\<lambda>q. expr_holds (pred_expression q) row = Some True) qs"
  proof -
    have over: "list_all ?ok xs \<longleftrightarrow> list_all (\<lambda>x. case x of None \<Rightarrow> True | Some q \<Rightarrow> expr_holds (pred_expression q) row = Some True)
      (map (\<lambda>l. op_predicate (ln_operation l)) xs)" for xs by (simp add: list_all_iff)
    show ?thesis unfolding over qs(2) by (simp add: list_all_iff)
  qed
  also have "\<dots> \<longleftrightarrow> (\<forall>p \<in> set ps. keeps p (governed_row m row) = Some True)"
  proof -
    have "list_all2 (\<lambda>p q. expr_holds (pred_expression q) row = keeps p (governed_row m row)) ps qs"
      using qs(1)
    proof (rule list.rel_mono_strong)
      fix p q assume "p \<in> set ps" "adapt_predicate m ?types p = Inr q"
      with trusted bound_types [OF assms(2)] show "expr_holds (pred_expression q) row = keeps p (governed_row m row)"
        by (intro adapted_predicate_exact [OF assms(1)]) auto
    qed
    then show ?thesis by (auto simp: list_all2_conv_all_nth list_all_length all_set_conv_all_nth)
  qed
  finally have split: "list_all ?ok (take (length ps) ls') \<longleftrightarrow> (\<forall>p \<in> set ps. keeps p (governed_row m row) = Some True)" .
  have "list_all ?ok ls' \<longleftrightarrow> list_all ?ok (take (length ps) ls') \<and> list_all ?ok (drop (length ps) ls')"
    by (metis append_take_drop_id list_all_append)
  then show ?thesis unfolding ls'(2) using split tail_ok by (simp add: adapted_node_def operator_of_def)
qed

text \<open>
  C5: From the question to the source. When the compiler accepts a question and
  its graph is adapted for the runtime, the logical graph has the nodes,
  dependencies, operators and output of the compiled graph, all on the one
  reviewed source; and a source row passes all its filters exactly when the row,
  with the source's region value read back as the governed member, is one that
  the resolved members and time windows of the question ask for.
\<close>

theorem adapted_graph_selects_the_question:
  assumes "new_registry d = Inr (cp_registry cp)" "trusted_ontology (cp_registry cp)" "mapping_ok m"
    and "compile cp zones rd rq cid deadline = Inr r" "cr_normalized r = Some g"
    and "adapt m r run_id (cq_compilation_mode rq) source_type = Inr ad"
  shows "list_all2 (node_adapted m) (qg_nodes g) (lg_nodes (ad_graph ad)) \<and> lg_output_node_id (ad_graph ad) = qg_output_node_id g
    \<and> (\<exists>ini. initialize (cp_registry cp) zones rd rq cid = Inr ini \<and>
         (\<forall>row. passes (ad_graph ad) row
            \<longleftrightarrow> requested_row (ir_resolved_terms ini) (ir_time_windows ini) (cq_compilation_mode rq) (governed_row m row)))"
proof -
  obtain ini c v where ini: "initialize (cp_registry cp) zones rd rq cid = Inr ini"
      and v: "validate (cp_registry cp) (Some c) (ir_context ini) (ir_resolved_terms ini) (ir_time_windows ini)
       (Some (cq_compilation_mode rq)) = Inr v" "vr_normalized v = Some g"
    using compiled_graph_parts [OF assms(4,5)] by metis
  obtain e cs ps rest where shape: "map nd_parameters (qg_nodes g) = SelectParameters e cs # map FilterParameters ps @ rest"
      "map nd_operator (qg_nodes g) = SELECT # replicate (length ps) FILTER @ expected_tail (cq_compilation_mode rq)"
      "\<forall>p \<in> set ps. trusted_predicate (cp_registry cp) p"
    and kept: "\<forall>row. (\<forall>p \<in> set ps. keeps p row = Some True)
      \<longleftrightarrow> requested_row (ir_resolved_terms ini) (ir_time_windows ini) (cq_compilation_mode rq) row"
    using trusted_graph_shape [OF assms(1,2) v] by (elim exE conjE)
  obtain bindings ls where b: "bind_concepts m (cq_compilation_mode rq) g = Inr bindings"
      "adapt_nodes m bindings (qg_nodes g) (map (\<lambda>(c, b). (c, bc_data_type b)) bindings) [] = Inr ls"
      "lg_nodes (ad_graph ad) = ls" "lg_output_node_id (ad_graph ad) = qg_output_node_id g"
    using assms(5,6) by (auto simp: adapt_def Let_def split: compile_status.splits)
  have tail: "FILTER \<notin> set (expected_tail (cq_compilation_mode rq))" by (simp add: expected_tail_def)
  have pass: "passes (ad_graph ad) row
      \<longleftrightarrow> requested_row (ir_resolved_terms ini) (ir_time_windows ini) (cq_compilation_mode rq) (governed_row m row)" for row
    unfolding passes_def b(3) adapted_graph_filters [OF assms(3) b(1,2) shape(1,2) tail shape(3)] by (rule kept [rule_format])
  show ?thesis
    by (intro conjI exI [of _ ini] allI adapt_nodes_shape [OF b(2), folded b(3)] b(4) ini pass)
qed

definition sample_mapping :: source_mapping where
  "sample_mapping = \<lparr>sm_version = ''v0'', sm_alias = ''synthetic_sales'', sm_source_type = ''synthetic_csv'', sm_object_name = ''commerce_sales_record'',
     sm_concepts = [
       (region_field, \<lparr>cd_column = ''region'', cd_data_type = T_STRING, cd_mode_columns = []\<rparr>),
       (period_field, \<lparr>cd_column = ''period_quarter'', cd_data_type = T_TIMESTAMP, cd_mode_columns = [(MONTHLY_REGIONAL_COMPARISON, ''period_month'')]\<rparr>),
       (profit_metric, \<lparr>cd_column = ''profit'', cd_data_type = T_FLOAT, cd_mode_columns = []\<rparr>)],
     sm_members = [(''region.east'', ''Donghu''), (''region.west'', ''Xiling'')]\<rparr>"

definition sample_adapted :: "compile_response \<Rightarrow> adapter_error + adapted" where
  "sample_adapted r = adapt sample_mapping r ''r1'' (cq_compilation_mode sample_question) []"

lemma sample_adapts:
  "case sample_compilation of Inl _ \<Rightarrow> False
   | Inr r \<Rightarrow> cr_normalized r \<noteq> None \<and> (case sample_adapted r of Inl _ \<Rightarrow> False | Inr ad \<Rightarrow> length (lg_nodes (ad_graph ad)) = 5
       \<and> passes (ad_graph ad) (\<lambda>c. CellText ''Donghu'') \<and> \<not> passes (ad_graph ad) (\<lambda>c. CellText ''Xiling''))"
  by code_simp

theorem adapted_graph_selects_the_question_witness:
  "\<exists>r ad (ini :: initialize_response). sample_compilation = Inr r \<and> sample_adapted r = Inr ad
     \<and> requested_row (ir_resolved_terms ini) (ir_time_windows ini) (cq_compilation_mode sample_question) (governed_row sample_mapping (\<lambda>c. CellText ''Donghu''))
     \<and> \<not> requested_row (ir_resolved_terms ini) (ir_time_windows ini) (cq_compilation_mode sample_question) (governed_row sample_mapping (\<lambda>c. CellText ''Xiling''))"
proof -
  have reg: "new_registry sample_document = Inr (cp_registry sample_compiler)" "trusted_ontology (cp_registry sample_compiler)"
    using sample_registry_ok sample_ontology_trusted by (simp_all add: sample_compiler_def)
  have ok: "mapping_ok sample_mapping" by code_simp
  obtain r g where r: "sample_compilation = Inr r" "cr_normalized r = Some g"
    using sample_adapts by (auto split: sum.splits)
  obtain ad where ad: "sample_adapted r = Inr ad" "passes (ad_graph ad) (\<lambda>c. CellText ''Donghu'')" "\<not> passes (ad_graph ad) (\<lambda>c. CellText ''Xiling'')"
    using sample_adapts unfolding r(1) by (auto split: sum.splits)
  obtain ini :: initialize_response where pass: "\<forall>row. passes (ad_graph ad) row
      \<longleftrightarrow> requested_row (ir_resolved_terms ini) (ir_time_windows ini) (cq_compilation_mode sample_question) (governed_row sample_mapping row)"
    using adapted_graph_selects_the_question [OF reg ok r(1) [unfolded sample_compilation_def] r(2) ad(1) [unfolded sample_adapted_def]]
    by blast
  show ?thesis using r(1) ad pass by (intro exI [of _ r] exI [of _ ad] exI [of _ ini]) simp
qed

end
