(* ===== verification/Run_Artifacts.thy ===== *)
theory Run_Artifacts
  imports Run_Repository Runtime_Adapter Runtime_Lineage Sql_Expressions
begin

text \<open>
  The parts of \<open>service.py\<close> that build what a run shows: the summary of the
  compiled graph, the physical plan, the typed result with its manifest and
  lineage, and the changes of stages and nodes. They are functions of the values
  the service holds; the service itself (\<open>Run_Service\<close>) calls them. The text of a
  double, SHA-256 and the size of a serialized detail come from libraries and are
  arguments.
\<close>

section \<open>Errors of a run\<close>

datatype run_error =
    Run_Cancelled | Run_Denied access_error | Run_Timeout | Run_Adapter string | Run_Runtime string | Run_Other

definition of_failure :: "failure \<Rightarrow> run_error" where
  "of_failure f =
     (case failure_code f of
        Some c \<Rightarrow> Run_Runtime c
      | None \<Rightarrow> (case f of TimeoutError \<Rightarrow> Run_Timeout | CancelledError \<Rightarrow> Run_Cancelled | DeferredCleanupCancellation \<Rightarrow> Run_Cancelled
                 | _ \<Rightarrow> Run_Other))"

fun of_access :: "access_error \<Rightarrow> run_error" where
  "of_access AuthorizationTimeout = Run_Timeout"
| "of_access e = Run_Denied e"

fun of_adapter :: "adapter_error \<Rightarrow> run_error" where
  "of_adapter (AdapterFailure c) = Run_Adapter c"
| "of_adapter AdapterOther = Run_Other"

definition lift_error :: "('e \<Rightarrow> run_error) \<Rightarrow> 'e + 'a \<Rightarrow> run_error + 'a" where
  "lift_error h r = map_sum h id r"

lemma lift_error_Inr [simp]: "lift_error h r = Inr x \<longleftrightarrow> r = Inr x"
  by (cases r) (simp_all add: lift_error_def)

definition model_ok :: "bool \<Rightarrow> run_error + unit" where
  "model_ok b = raise_unless b Run_Other"

section \<open>JSON texts\<close>

text \<open>\<open>json.dumps\<close> with \<open>ensure_ascii=False\<close> and the separators \<open>(",", ":")\<close>.\<close>

definition hex_digit :: "nat \<Rightarrow> char" where
  "hex_digit n = (if n < 10 then char_of (48 + n) else char_of (87 + n))"

definition json_char :: "char \<Rightarrow> string" where
  "json_char c =
     (let n = (of_char c :: nat)
      in if n = 34 then [CHR 0x5C, CHR 0x22]
         else if n = 92 then [CHR 0x5C, CHR 0x5C]
         else if n = 10 then [CHR 0x5C] @ ''n''
         else if n = 13 then [CHR 0x5C] @ ''r''
         else if n = 9 then [CHR 0x5C] @ ''t''
         else if n = 8 then [CHR 0x5C] @ ''b''
         else if n = 12 then [CHR 0x5C] @ ''f''
         else if n < 32 then [CHR 0x5C] @ ''u00'' @ [hex_digit (n div 16), hex_digit (n mod 16)]
         else [c])"

definition json_string :: "string \<Rightarrow> string" where
  "json_string s = [CHR 0x22] @ concat (map json_char s) @ [CHR 0x22]"

definition json_array :: "string list \<Rightarrow> string" where
  "json_array ss = ''['' @ join_with '','' ss @ '']''"

definition json_object :: "(string \<times> string) list \<Rightarrow> string" where
  "json_object kvs = ''{'' @ join_with '','' (map (\<lambda>(k, v). json_string k @ '':'' @ v) kvs) @ ''}''"

fun scalar_json :: "(pyfloat \<Rightarrow> string) \<Rightarrow> scalar \<Rightarrow> string" where
  "scalar_json float_text (SString s) = json_string s"
| "scalar_json float_text (SInt i) = show_int i"
| "scalar_json float_text (SFloat f) = float_text f"
| "scalar_json float_text (SBool b) = (if b then ''true'' else ''false'')"
| "scalar_json float_text SNone = ''null''"

fun json_value :: "(pyfloat \<Rightarrow> string) \<Rightarrow> predicate_value \<Rightarrow> string" where
  "json_value float_text (PScalar v) = scalar_json float_text v"
| "json_value float_text (PList vs) = json_array (map (scalar_json float_text) vs)"
| "json_value float_text (PMap b) = json_object (sort_key fst (map (\<lambda>(k, v). (k, json_string v)) b))"

section \<open>Summary of the compiled graph\<close>

fun predicate_operator_value :: "predicate_operator \<Rightarrow> string" where
  "predicate_operator_value EQ = ''eq''"
| "predicate_operator_value NE = ''ne''"
| "predicate_operator_value GT = ''gt''"
| "predicate_operator_value GTE = ''gte''"
| "predicate_operator_value LT = ''lt''"
| "predicate_operator_value LTE = ''lte''"
| "predicate_operator_value IN = ''in''"
| "predicate_operator_value BETWEEN = ''between''"

definition sqg_filter_ok :: "sqg_filter \<Rightarrow> bool" where
  "sqg_filter_ok f = (length_between 1 128 (sg_field f) \<and> length_between 1 128 (sg_operator f) \<and> length_between 1 512 (sg_value f))"

definition sqg_summary_ok :: "sqg_summary \<Rightarrow> bool" where
  "sqg_summary_ok s =
     (length_between 1 128 (sq_version s) \<and> length_between 1 512 (sq_intent s) \<and> length_between 1 128 (sq_ontology s)
        \<and> list_all (\<lambda>xs. length xs \<le> 100) [sq_resolved_members s, sq_metrics s, sq_dimensions s, sq_policy_checks s]
        \<and> length (sq_filters s) \<le> 100)"

definition filter_summary :: "(pyfloat \<Rightarrow> string) \<Rightarrow> node \<Rightarrow> run_error + sqg_filter" where
  "filter_summary float_text n =
     (case nd_parameters n of
        FilterParameters p \<Rightarrow>
          let f = \<lparr>sg_field = pr_column p, sg_operator = predicate_operator_value (pr_operator p), sg_value = json_value float_text (pr_value p)\<rparr>
          in rbind (model_ok (sqg_filter_ok f)) (\<lambda>_. Inr f)
      | _ \<Rightarrow> Inl Run_Other)"

definition measure_sources :: "node_parameters \<Rightarrow> string list" where
  "measure_sources ps = (case ps of AggregateParameters gs ms \<Rightarrow> map am_source ms | _ \<Rightarrow> [])"

definition sorted_set :: "string list \<Rightarrow> string list" where
  "sorted_set xs = sort (remdups xs)"

definition compile_artifact :: "(pyfloat \<Rightarrow> string) \<Rightarrow> start_run_request \<Rightarrow> compile_response \<Rightarrow> run_error + sqg_summary" where
  "compile_artifact float_text request response =
     (case cr_normalized response of None \<Rightarrow> Inl Run_Other
      | Some g \<Rightarrow>
        rbind (traverse (filter_summary float_text) (filter (\<lambda>n. nd_operator n = FILTER) (qg_nodes g))) (\<lambda>filters.
        let s = \<lparr>sq_version = ''sqg.v0'', sq_intent = take 512 (rq_question request),
               sq_ontology = sx_ontology_id (cr_context response) @ ''@'' @ sx_ontology_version (cr_context response),
               sq_resolved_members = sort (map rt_machine_id (filter (\<lambda>t. rt_kind t = TERM_MEMBER) (cr_resolved_terms response))),
               sq_metrics = sorted_set (concat (map (\<lambda>n. measure_sources (nd_parameters n)) (qg_nodes g))),
               sq_dimensions = sorted_set (filter (\<lambda>c. drop_prefix ''commerce.sales_record.'' c \<noteq> None)
                 (concat (map (\<lambda>n. node_concepts (nd_parameters n)) (qg_nodes g)))),
               sq_filters = filters, sq_policy_checks = [''validated_sqg'', ''versioned_source_mapping'']\<rparr>
        in rbind (model_ok (sqg_summary_ok s)) (\<lambda>_. Inr s)))"

definition token_usage :: "compile_response \<Rightarrow> int \<times> int" where
  "token_usage response =
     (case_option 0 id (tm_input_tokens (cr_tokens response)), case_option 0 id (tm_output_tokens (cr_tokens response)))"

section \<open>The physical plan\<close>

definition api_operator_kinds :: "operator_kind list" where
  "api_operator_kinds =
     [Op_SOURCE, Op_SELECT, Op_FILTER, Op_AGGREGATE, Op_PIVOT, Op_DERIVE, Op_PROJECT, Op_SORT, Op_LIMIT, Op_JOIN]"

definition operation_fields :: "operator_spec \<Rightarrow> string list" where
  "operation_fields op =
     op_columns op @ op_group_by op @ map agg_name (op_aggregates op) @ map ne_name (op_expressions op)
       @ op_pivot_index op @ op_pivot_values op"

text \<open>\<open>list(dict.fromkeys(xs))\<close>: the first occurrence of every value.\<close>

definition from_keys :: "string list \<Rightarrow> string list" where
  "from_keys xs = rev (remdups (rev xs))"

definition physical_node_detail_of :: "physical_node \<Rightarrow> run_error + physical_node_detail" where
  "physical_node_detail_of n =
     rbind (case pn_source_fragment n of
              None \<Rightarrow> Inr ([], pn_operator n)
            | Some f \<Rightarrow> if frag_operations f = [] then Inl Run_Other
                        else Inr (map bc_column_name (frag_bound_columns f), Some (last (frag_operations f)))) (\<lambda>(columns, operation).
     let d = \<lparr>pd_id = pn_id n, pd_kind = op_kind_value (pn_operation n), pd_inputs = pn_dependencies n,
              pd_output_fields = take 100 (from_keys (columns @ (case operation of None \<Rightarrow> [] | Some op \<Rightarrow> operation_fields op)))\<rparr>
     in rbind (model_ok (pn_operation n \<in> set api_operator_kinds \<and> length_between 1 160 (pd_id d) \<and> length (pd_inputs d) \<le> 100)) (\<lambda>_. Inr d))"

section \<open>The typed result\<close>

definition begins_with :: "string \<Rightarrow> string \<Rightarrow> bool" where
  "begins_with p s = (drop_prefix p s \<noteq> None)"

definition scalar_type_of :: "string \<Rightarrow> Run_Models.scalar_type" where
  "scalar_type_of data_type =
     (let s = casefold data_type
      in if begins_with ''timestamp'' s then ST_TIMESTAMP
         else if begins_with ''date'' s then ST_DATE
         else if begins_with ''int'' s \<or> begins_with ''uint'' s then ST_INTEGER
         else if begins_with ''decimal'' s then ST_DECIMAL
         else if s \<in> {''double'', ''float'', ''halffloat''} then ST_FLOAT
         else if s \<in> {''bool'', ''boolean''} then ST_BOOLEAN
         else ST_STRING)"

definition column_format_of :: "string \<Rightarrow> string \<Rightarrow> column_format" where
  "column_format_of name data_type =
     (let t = scalar_type_of data_type
      in if t = ST_TIMESTAMP then CF_TIMESTAMP
         else if t = ST_DATE then CF_DATE
         else if contains_text ''profit'' (casefold name) then CF_CURRENCY
         else if t \<in> {ST_INTEGER, ST_FLOAT, ST_DECIMAL} then CF_NUMBER
         else CF_TEXT)"

text \<open>A value of \<open>to_pylist\<close>. Values of other classes are given by their \<open>str\<close>.\<close>

datatype py_value = PyScalar scalar | PyDecimal decimal | PyDatetime timestamp | PyDate int | PyObject string

fun replace_text :: "string \<Rightarrow> string \<Rightarrow> nat \<Rightarrow> string \<Rightarrow> string" where
  "replace_text old new skip [] = []"
| "replace_text old new (Suc k) (c # s) = replace_text old new k s"
| "replace_text old new 0 (c # s) =
     (if begins_with old (c # s) then new @ replace_text old new (length old - 1) s else c # replace_text old new 0 s)"

definition utc_text :: "timestamp \<Rightarrow> string" where
  "utc_text t = replace_text ''+00:00'' ''Z'' 0 (isoformat (if ts_offset t = None then t\<lparr>ts_offset := Some 0\<rparr> else t))"

text \<open>\<open>date.isoformat\<close> of a day given by its ordinal.\<close>

definition date_text :: "int \<Rightarrow> string" where
  "date_text n =
     (let y = year_of_day n; m = month_of_day n
      in pad_left 4 (show_nat y) @ ''-'' @ two_digits m @ ''-'' @ two_digits (n - days_before_year y - days_before_month y m))"

fun json_scalar_of :: "py_value \<Rightarrow> Run_Models.scalar_type \<Rightarrow> run_error + scalar" where
  "json_scalar_of (PyScalar v) t = Inr v"
| "json_scalar_of (PyDecimal d) t =
     (if t = ST_DECIMAL then Inr (SString (format_decimal d)) else Inl (Run_Runtime ''RESULT_DECIMAL_TYPE_MISMATCH''))"
| "json_scalar_of (PyDatetime x) t = Inr (SString (utc_text x))"
| "json_scalar_of (PyDate d) t = Inr (SString (date_text d))"
| "json_scalar_of (PyObject s) t =
     (if t = ST_STRING then Inr (SString s) else Inl (Run_Runtime ''RESULT_SCALAR_UNSUPPORTED''))"

text \<open>\<open>name.replace("_", " ").title()\<close>. The columns of the compilation modes are ASCII, and only ASCII letters are cased here.\<close>

definition upper_char :: "char \<Rightarrow> char" where
  "upper_char c = (let n = (of_char c :: nat) in if 97 \<le> n \<and> n \<le> 122 then char_of (n - 32) else c)"

definition lower_char :: "char \<Rightarrow> char" where
  "lower_char c = (let n = (of_char c :: nat) in if 65 \<le> n \<and> n \<le> 90 then char_of (n + 32) else c)"

fun title_text :: "bool \<Rightarrow> string \<Rightarrow> string" where
  "title_text inside [] = []"
| "title_text inside (c # s) = (if inside then lower_char c else upper_char c) # title_text (ascii_letter c) s"

definition label_of :: "string \<Rightarrow> string" where
  "label_of name = title_text False (map (\<lambda>c. if c = CHR ''_'' then CHR '' '' else c) name)"

definition result_column_of :: "schema_field \<Rightarrow> run_error + result_column" where
  "result_column_of f =
     (let c = \<lparr>co_key = sf_name f, co_label = label_of (sf_name f), co_data_type = scalar_type_of (sf_data_type f),
               co_format = column_format_of (sf_name f) (sf_data_type f), co_nullable = sf_nullable f\<rparr>
      in rbind (model_ok (column_ok c)) (\<lambda>_. Inr c))"

type_synonym table_row = "(string, py_value) dict"

definition result_row :: "result_column list \<Rightarrow> table_row \<Rightarrow> run_error + scalar list" where
  "result_row cs row =
     traverse (\<lambda>c. rbind (from_option Run_Other (dget row (co_key c))) (\<lambda>v. json_scalar_of v (co_data_type c))) cs"

definition finite_scalar :: "scalar \<Rightarrow> bool" where
  "finite_scalar v = (case v of SFloat (FFinite m e) \<Rightarrow> True | SFloat _ \<Rightarrow> False | _ \<Rightarrow> True)"

text \<open>With \<open>allow_nan=False\<close> the payload of the checksum has no infinite or undefined number.\<close>

definition checksum_payload :: "(pyfloat \<Rightarrow> string) \<Rightarrow> result_column list \<Rightarrow> scalar list list \<Rightarrow> run_error + string" where
  "checksum_payload float_text cs rows =
     rbind (model_ok (list_all (list_all finite_scalar) rows)) (\<lambda>_.
     Inr (json_object [(''columns'', json_array (map (\<lambda>c. json_string (co_key c)) cs)),
                       (''rows'', json_array (map (\<lambda>r. json_array (map (scalar_json float_text) r)) rows))]))"

section \<open>Manifest and lineage\<close>

record run_outcome =
  oc_state :: execution_state
  oc_diagnostic_code :: "string option"
  oc_manifest :: "(committed_manifest \<times> instant) option"
  oc_lineage :: lineage_graph
  oc_events :: "(diagnostic_event \<times> instant) list"

fun storage_of :: "storage_kind \<Rightarrow> result_storage" where
  "storage_of Inline = RS_INLINE"
| "storage_of Parquet = RS_PARQUET"

definition manifest_of :: "string \<Rightarrow> string \<Rightarrow> committed_manifest \<times> instant \<Rightarrow> run_error + run_manifest" where
  "manifest_of run_id checksum = (\<lambda>(man, committed_at).
     let h = man_result man;
         m = \<lparr>cm_result_id = rh_result_id h, cm_run_id = run_id, cm_node_id = rh_node_id h, cm_storage = storage_of (rh_storage h),
              cm_uri = rh_uri h, cm_row_count = int (man_row_count man), cm_byte_count = int (man_byte_count man),
              cm_checksum = ''sha256:'' @ checksum, cm_committed_at = committed_at\<rparr>
     in rbind (model_ok (length_between 1 128 (cm_result_id m) \<and> length_between 1 160 (cm_node_id m) \<and> length_between 1 2048 (cm_uri m)
                 \<and> length_between 1 256 (cm_checksum m))) (\<lambda>_. Inr m))"

fun api_lineage_kind :: "lineage_kind \<Rightarrow> lineage_node_kind" where
  "api_lineage_kind L_Logical = LN_LOGICAL"
| "api_lineage_kind L_Physical = LN_PHYSICAL"
| "api_lineage_kind L_Source = LN_SOURCE"
| "api_lineage_kind L_Result = LN_RESULT"

definition api_scalar_type :: "string \<Rightarrow> Run_Models.scalar_type option" where
  "api_scalar_type s =
     dget [(''string'', ST_STRING), (''integer'', ST_INTEGER), (''float'', ST_FLOAT), (''decimal'', ST_DECIMAL),
           (''boolean'', ST_BOOLEAN), (''date'', ST_DATE), (''timestamp'', ST_TIMESTAMP)] s"

definition api_relation :: "string \<Rightarrow> lineage_relation option" where
  "api_relation s =
     dget [(''realized_as'', REALIZED_AS), (''reads_from'', READS_FROM), (''depends_on'', DEPENDS_ON), (''produces'', PRODUCES)] s"

definition lineage_parameter :: "(string, string) dict \<Rightarrow> run_error + string \<times> Run_Models.scalar_type" where
  "lineage_parameter d =
     rbind (from_option Run_Other (dget d ''name'')) (\<lambda>name.
     rbind (from_option Run_Other (Option.bind (dget d ''data_type'') api_scalar_type)) (\<lambda>t.
     rbind (model_ok (length_between 1 128 name)) (\<lambda>_. Inr (name, t))))"

definition at_most :: "nat \<Rightarrow> string option \<Rightarrow> bool" where
  "at_most n s = (case s of None \<Rightarrow> True | Some t \<Rightarrow> length t \<le> n)"

definition lineage_node_of :: "string option \<Rightarrow> lineage_node \<Rightarrow> run_error + lineage_node_detail" where
  "lineage_node_of resolver_name n =
     rbind (traverse lineage_parameter (lin_parameter_metadata n)) (\<lambda>ps.
     let d = \<lparr>lineage_node_detail.ln_id = lin_id n, ln_kind = api_lineage_kind (lin_kind n),
              lineage_node_detail.ln_operation = (if lin_kind n = L_Source then resolver_name else lin_operation n),
              lineage_node_detail.ln_source_alias = lin_source_alias n, ln_source_type = lin_source_type n, ln_result_id = lin_result_id n,
              ln_parameters = ps\<rparr>
     in rbind (model_ok (length_between 1 160 (lin_id n) \<and> at_most 128 (lineage_node_detail.ln_operation d) \<and> at_most 160 (lin_source_alias n)
                 \<and> at_most 160 (lin_source_type n) \<and> at_most 160 (lin_result_id n) \<and> length ps \<le> 100)) (\<lambda>_. Inr d))"

text \<open>Edges that read or depend are turned round: the detail names the reader first.\<close>

definition lineage_edge_of :: "lineage_edge \<Rightarrow> run_error + lineage_edge_detail" where
  "lineage_edge_of = (\<lambda>(source, target, relation).
     rbind (from_option Run_Other (api_relation relation)) (\<lambda>r.
     let turned = r \<in> {READS_FROM, DEPENDS_ON};
         d = \<lparr>le_source = (if turned then target else source), le_target = (if turned then source else target), le_relation = r\<rparr>
     in rbind (model_ok (length_between 1 160 (le_source d) \<and> length_between 1 160 (le_target d))) (\<lambda>_. Inr d)))"

definition lineage_of :: "string \<Rightarrow> string option \<Rightarrow> lineage_graph \<Rightarrow> run_error + lineage_detail" where
  "lineage_of run_id resolver_name g =
     rbind (traverse (lineage_node_of resolver_name) (lineage_graph.lg_nodes g)) (\<lambda>nodes.
     rbind (traverse lineage_edge_of (lg_edges g)) (\<lambda>edges.
     rbind (model_ok (length nodes \<le> 5000 \<and> length edges \<le> 10000)) (\<lambda>_.
     Inr \<lparr>ld_run_id = run_id, ld_nodes = nodes, ld_edges = edges\<rparr>)))"

record publisher =
  pb_float_text :: "pyfloat \<Rightarrow> string"
  pb_sha256 :: "string \<Rightarrow> string"
  pb_detail_size :: "run_detail \<Rightarrow> int"

definition runtime_result ::
    "publisher \<Rightarrow> string \<Rightarrow> string option \<Rightarrow> run_outcome \<Rightarrow> table_row list \<Rightarrow> run_error + result_set \<times> run_manifest \<times> lineage_detail" where
  "runtime_result pb run_id resolver_name outcome table =
     rbind (from_option Run_Other (oc_manifest outcome)) (\<lambda>man.
     rbind (traverse result_column_of (man_schema (fst man))) (\<lambda>cs.
     rbind (traverse (result_row cs) table) (\<lambda>rows.
     rbind (checksum_payload (pb_float_text pb) cs rows) (\<lambda>payload.
     let n = int (man_row_count (fst man)) in
     rbind (lift_error of_failure (new_result_set cs rows n (int (length rows) < n))) (\<lambda>result.
     rbind (manifest_of run_id (pb_sha256 pb payload) man) (\<lambda>committed.
     rbind (lineage_of run_id resolver_name (oc_lineage outcome)) (\<lambda>lineage.
     Inr (result, committed, lineage))))))))"

section \<open>Stages and nodes\<close>

definition STAGES :: "string list" where
  "STAGES = [''Initialize'', ''Compile'', ''Optimize'', ''Execute'', ''Generate'']"

definition lower_text :: "string \<Rightarrow> string" where
  "lower_text s = map lower_char s"

definition initial_stage :: "instant \<Rightarrow> bool \<Rightarrow> string \<Rightarrow> stage_summary" where
  "initial_stage now first name =
     (let state = (if first then STARTING else QUEUED); started = (if first then Some now else None)
      in \<lparr>ss_stage_id = lower_text name, ss_name = name, ss_state = state, ss_started_at = started, ss_completed_at = None,
          ss_nodes = [\<lparr>ns_node_id = lower_text name @ ''-1'', ns_kind = ''orchestration'', ns_state = state, ns_started_at = started,
                       ns_completed_at = None\<rparr>]\<rparr>)"

definition initial_status :: "instant \<Rightarrow> string \<Rightarrow> run_status" where
  "initial_status now run_id =
     \<lparr>rs_run_id = run_id, rs_state = STARTING, rs_started_at = Some now, rs_finalized_at = None,
      rs_stages = initial_stage now True (hd STAGES) # map (initial_stage now False) (tl STAGES), rs_tokens = (0, 0), rs_diagnostics = []\<rparr>"

definition on_stage :: "string \<Rightarrow> (stage_summary \<Rightarrow> stage_summary) \<Rightarrow> run_status \<Rightarrow> run_status" where
  "on_stage name f st = st\<lparr>rs_stages := map (\<lambda>s. if ss_name s = name then f s else s) (rs_stages st)\<rparr>"

definition planned_node :: "instant \<Rightarrow> physical_node \<Rightarrow> node_summary" where
  "planned_node now n =
     \<lparr>ns_node_id = pn_id n, ns_kind = op_kind_value (pn_operation n), ns_state = (if pn_wave n = 0 then run_state.RUNNING else QUEUED),
      ns_started_at = (if pn_wave n = 0 then Some now else None), ns_completed_at = None\<rparr>"

definition begin_stage :: "instant \<Rightarrow> string \<Rightarrow> physical_plan option \<Rightarrow> run_status \<Rightarrow> run_error + run_status" where
  "begin_stage now name pp st =
     rbind (model_ok (case pp of None \<Rightarrow> True | Some p \<Rightarrow> list_all (\<lambda>n. length_between 1 160 (pn_id n)) (plan_nodes p))) (\<lambda>_.
     Inr ((on_stage name (\<lambda>s. s\<lparr>ss_state := run_state.RUNNING, ss_started_at := Some now,
            ss_nodes := (case pp of
                Some p \<Rightarrow> map (planned_node now) (plan_nodes p)
              | None \<Rightarrow> map (\<lambda>n. n\<lparr>ns_state := run_state.RUNNING, ns_started_at := Some now\<rparr>) (ss_nodes s))\<rparr>) st)\<lparr>rs_state := run_state.RUNNING\<rparr>))"

definition complete_stage :: "instant \<Rightarrow> string \<Rightarrow> bool \<Rightarrow> run_status \<Rightarrow> run_status" where
  "complete_stage now name complete_nodes st =
     on_stage name (\<lambda>s. s\<lparr>ss_state := run_state.SUCCEEDED, ss_completed_at := Some now,
       ss_nodes := (if complete_nodes then map (\<lambda>n. n\<lparr>ns_state := run_state.SUCCEEDED, ns_completed_at := Some now\<rparr>) (ss_nodes s)
                    else ss_nodes s)\<rparr>) st"

definition active :: "run_state \<Rightarrow> bool" where
  "active s = (s \<in> {STARTING, run_state.RUNNING})"

definition close_node :: "instant \<Rightarrow> run_state \<Rightarrow> node_summary \<Rightarrow> node_summary" where
  "close_node now final n =
     (if terminal (ns_state n) \<or> ns_state n = QUEUED then n else n\<lparr>ns_state := final, ns_completed_at := Some now\<rparr>)"

definition close_stage :: "instant \<Rightarrow> run_state \<Rightarrow> stage_summary \<Rightarrow> stage_summary" where
  "close_stage now final s =
     (if active (ss_state s)
      then s\<lparr>ss_state := final, ss_completed_at := Some now, ss_nodes := map (close_node now final) (ss_nodes s)\<rparr> else s)"

definition close_status :: "instant \<Rightarrow> run_state \<Rightarrow> run_status \<Rightarrow> run_status" where
  "close_status now final st =
     st\<lparr>rs_state := final, rs_finalized_at := Some now, rs_stages := map (close_stage now final) (rs_stages st)\<rparr>"

definition finalize_cancelled :: "instant \<Rightarrow> run_status \<Rightarrow> run_status" where
  "finalize_cancelled now st = (if terminal (rs_state st) then st else close_status now run_state.CANCELLED st)"

definition last_items :: "nat \<Rightarrow> 'a list \<Rightarrow> 'a list" where
  "last_items n xs = drop (length xs - n) xs"

definition failed_stage :: "run_status \<Rightarrow> string option" where
  "failed_stage st = (case filter (\<lambda>s. active (ss_state s)) (rs_stages st) of [] \<Rightarrow> None | ss \<Rightarrow> Some (ss_name (last ss)))"

definition fail_run ::
    "instant \<Rightarrow> string \<Rightarrow> string \<Rightarrow> string \<Rightarrow> run_status \<times> run_detail \<Rightarrow> run_error + run_status \<times> run_detail" where
  "fail_run now run_id code message = (\<lambda>(st, detail).
     if terminal (rs_state st) then Inr (st, detail)
     else let stage = failed_stage st;
              summary = \<lparr>dx_code = take 64 code, dx_message = take 512 message, dx_stage = stage, dx_occurred_at = now\<rparr>;
              diagnostic = \<lparr>dd_sequence = int (length (dt_diagnostics detail)), dd_run_id = run_id, dd_scope = IN_STAGE,
                dd_scope_id = lower_text (case stage of None \<Rightarrow> ''run'' | Some n \<Rightarrow> if n = [] then ''run'' else n),
                dd_code = take 128 code, dd_message = take 1000 message, dd_severity = SEV_ERROR, dd_occurred_at = now\<rparr>
          in rbind (model_ok (code \<noteq> [] \<and> message \<noteq> [])) (\<lambda>_.
             Inr ((close_status now run_state.FAILED st)\<lparr>rs_diagnostics := last_items 100 (rs_diagnostics st @ [summary])\<rparr>,
                  detail\<lparr>dt_diagnostics := last_items 1000 (dt_diagnostics detail @ [diagnostic])\<rparr>)))"

section \<open>Events of the runtime\<close>

fun runtime_states :: "execution_state \<Rightarrow> run_state" where
  "runtime_states PENDING = QUEUED"
| "runtime_states READY = STARTING"
| "runtime_states execution_state.RUNNING = run_state.RUNNING"
| "runtime_states execution_state.SUCCEEDED = run_state.SUCCEEDED"
| "runtime_states execution_state.CANCELLED = run_state.CANCELLED"
| "runtime_states execution_state.FAILED = run_state.FAILED"
| "runtime_states TIMED_OUT = run_state.FAILED"
| "runtime_states SKIPPED = run_state.CANCELLED"

type_synonym timed_event = "diagnostic_event \<times> instant"

definition node_events :: "string \<Rightarrow> timed_event list \<Rightarrow> timed_event list" where
  "node_events i events = filter (\<lambda>(e, t). ev_scope e = Scope_node \<and> ev_scope_id e = i) events"

definition apply_node_events :: "timed_event list \<Rightarrow> node_summary \<Rightarrow> node_summary" where
  "apply_node_events events n =
     (case node_events (ns_node_id n) events of [] \<Rightarrow> n
      | e # es \<Rightarrow>
        let running = find (\<lambda>x. ev_state (fst x) = execution_state.RUNNING) (e # es);
            final = find (\<lambda>x. terminal (runtime_states (ev_state (fst x)))) (rev (e # es));
            latest = (case final of Some x \<Rightarrow> x | None \<Rightarrow> last (e # es));
            state = runtime_states (ev_state (fst latest))
        in n\<lparr>ns_state := state,
             ns_started_at := (case running of Some x \<Rightarrow> Some (snd x) | None \<Rightarrow> if state \<noteq> QUEUED then Some (snd latest) else None),
             ns_completed_at := (if terminal state then Some (snd latest) else None)\<rparr>)"

definition apply_runtime_events :: "timed_event list \<Rightarrow> run_status \<Rightarrow> run_status" where
  "apply_runtime_events events st =
     on_stage ''Execute'' (\<lambda>s. s\<lparr>ss_nodes := map (apply_node_events events) (ss_nodes s)\<rparr>) st"

end
