(* ===== verification/Run_Service.thy ===== *)
theory Run_Service
  imports Run_Artifacts
begin

text \<open>
  \<open>OrchestrationService\<close> (\<open>service.py\<close>): the life of a run. A run has a task
  (\<open>_run\<close>), a watcher that keeps asking whether the caller's membership still
  holds (\<open>_watch_authorization\<close>), any number of cancel calls (\<open>_cancel_record\<close>) and
  the timer of the whole-run deadline. All share the fields of \<open>RunRecord\<close>; every
  section that holds the lock of the record is one step, and the steps interleave
  in any order. Steps are at least as fine as the points where the code suspends.

  The task is a list of actions in the order of the source. What an awaited call
  returns is an observation of the step: the clocks, the tables of the identity
  database and the course of the transaction, the outcome of the coordinator,
  the page read from the result store, and what the resolver's hooks raise.
\<close>

section \<open>The service and its observations\<close>

record service =
  sv_legacy :: bool
  sv_authority :: bool
  sv_compiler :: compiler
  sv_zones :: zone_database
  sv_reading :: text_reading
  sv_mapping :: source_mapping
  sv_source_type :: string
  sv_publisher :: publisher

record observation =
  sp_now :: instant
  sp_loop :: instant
  sp_transaction :: transaction_io
  sp_db :: identity_db
  sp_hook :: "run_error + unit"
  sp_outcome :: "run_error + run_outcome"
  sp_table :: "run_error + table_row list"
  sp_resolver_name :: "string option"
  sp_cleanup :: "run_error + string option"
  sp_message :: string
  sp_swallowed :: bool
  sp_accepted :: bool
  sp_events :: "timed_event list"

datatype action =
    Acquire_Slot | Check_Active | Authorize | Begin string bool | Initialize | Complete string bool | Compile | Check_Timeout
  | Store_Response | Check_Response | Set_Artifact | Set_Plan | Open_Coordinator | Prepare_Run | Run_Plan | Apply_Events
  | Check_Outcome | Read_Page | Hold_Result | Succeed

definition ensure_active :: "action list" where
  "ensure_active = [Check_Active, Authorize]"

definition stage_begins :: "string \<Rightarrow> bool \<Rightarrow> action list" where
  "stage_begins name planned = ensure_active @ [Begin name planned]"

text \<open>The body of \<open>_run\<close>.\<close>

definition run_program :: "action list" where
  "run_program =
     [Acquire_Slot] @ ensure_active
     @ stage_begins ''Initialize'' False @ [Initialize, Complete ''Initialize'' True]
     @ stage_begins ''Compile'' False @ [Compile, Check_Timeout] @ ensure_active
       @ [Store_Response, Check_Response, Set_Artifact, Complete ''Compile'' True]
     @ stage_begins ''Optimize'' False @ [Set_Plan, Complete ''Optimize'' True]
     @ stage_begins ''Execute'' True @ [Open_Coordinator, Prepare_Run] @ ensure_active
       @ [Run_Plan, Check_Timeout] @ ensure_active @ [Apply_Events, Check_Outcome] @ ensure_active
       @ [Read_Page, Hold_Result, Complete ''Execute'' False]
     @ stage_begins ''Generate'' False @ [Complete ''Generate'' True, Check_Timeout, Succeed]"

section \<open>A live run\<close>

datatype settlement = Cancel_Run | Fail_With string string | Withhold string string

datatype task =
    Waiting | Body "action list" | Handling run_error | Settling settlement
  | Closing "run_error option" | Releasing "run_error option" | Ended "run_error option"

datatype watcher = No_Watch | Watching | Refusing string | Stopped

datatype caller =
    Requesting | Asking | Accepting | Rejected | Observing "timed_event list" | Observed | Interrupting bool bool
  | Awaiting | Finalizing | Returned | Raised | Gone

record live_run =
  lv_record :: run_record
  lv_deadline :: "instant option"
  lv_coordinator :: bool
  lv_cancel_requested :: bool
  lv_cancel_accepted :: bool
  lv_terminal_observed :: bool
  lv_compile_response :: "compile_response option"
  lv_physical_plan :: "physical_plan option"
  lv_authorization_error :: "string option"
  lv_pending_detail :: "run_detail option"
  lv_cleanup_started :: bool
  lv_response :: "compile_response option"
  lv_outcome :: "run_outcome option"
  lv_table :: "table_row list option"
  lv_task :: task
  lv_interrupt :: bool
  lv_cancelling :: bool
  lv_expiring :: bool
  lv_watcher :: watcher
  lv_callers :: "caller list"

abbreviation status :: "live_run \<Rightarrow> run_status" where
  "status r \<equiv> rc_status (lv_record r)"

abbreviation detail :: "live_run \<Rightarrow> run_detail" where
  "detail r \<equiv> rc_detail (lv_record r)"

abbreviation request_of :: "live_run \<Rightarrow> start_run_request" where
  "request_of r \<equiv> rc_request (lv_record r)"

abbreviation run_state_of :: "live_run \<Rightarrow> run_state" where
  "run_state_of r \<equiv> rs_state (status r)"

definition set_status :: "run_status \<Rightarrow> live_run \<Rightarrow> live_run" where
  "set_status st r = r\<lparr>lv_record := (lv_record r)\<lparr>rc_status := st\<rparr>\<rparr>"

definition set_detail :: "run_detail \<Rightarrow> live_run \<Rightarrow> live_run" where
  "set_detail d r = r\<lparr>lv_record := (lv_record r)\<lparr>rc_detail := d\<rparr>\<rparr>"

definition RUN_TIMEOUT :: instant where
  "RUN_TIMEOUT = 30000000"

text \<open>What \<open>start\<close> sets up when the repository created the record.\<close>

definition new_live_run :: "instant \<Rightarrow> run_record \<Rightarrow> live_run" where
  "new_live_run loop rec =
     \<lparr>lv_record = rec, lv_deadline = Some (loop + RUN_TIMEOUT), lv_coordinator = False, lv_cancel_requested = False,
      lv_cancel_accepted = False, lv_terminal_observed = False, lv_compile_response = None, lv_physical_plan = None,
      lv_authorization_error = None, lv_pending_detail = None, lv_cleanup_started = False, lv_response = None, lv_outcome = None,
      lv_table = None, lv_task = Waiting, lv_interrupt = False, lv_cancelling = False, lv_expiring = False,
      lv_watcher = (if rc_context rec = None then No_Watch else Watching), lv_callers = []\<rparr>"

section \<open>Authorization\<close>

definition authorize_request ::
    "service \<Rightarrow> trusted_context option \<Rightarrow> string \<Rightarrow> observation \<Rightarrow> run_error + unit" where
  "authorize_request sv context permission ob =
     (if sv_legacy sv then raise_unless (context = None) (Run_Denied AccessDenied)
      else case context of
        None \<Rightarrow> Inl (Run_Denied AccessDenied)
      | Some c \<Rightarrow> if \<not> sv_authority sv then Inl (Run_Denied AccessDenied)
                  else lift_error of_access (fst (reauthorize c permission (sp_transaction ob) (sp_db ob))))"

text \<open>
  \<open>async with self._publication_guard(record)\<close> with the outcome of its body: an
  error of the body leaves the transaction as it is, after the checks at its start.
\<close>

definition publication_guard :: "service \<Rightarrow> observation \<Rightarrow> live_run \<Rightarrow> run_error + 'a \<Rightarrow> run_error + 'a" where
  "publication_guard sv ob r body =
     (if sv_legacy sv then body
      else case rc_context (lv_record r) of
        None \<Rightarrow> Inl (Run_Denied AccessDenied)
      | Some c \<Rightarrow>
          if \<not> sv_authority sv then Inl (Run_Denied AccessDenied)
          else case body of
            Inr y \<Rightarrow> lift_error of_access
              (fst (guard c None ''run.contributor'' (lv_deadline r) (sp_transaction ob) (\<lambda>_ db. Inr (y, db)) (sp_db ob)))
          | Inl x \<Rightarrow>
              if remaining_budget c (lv_deadline r) (sp_transaction ob) \<le> 0 then Inl (Run_Denied AccessDenied)
              else case io_fault (sp_transaction ob) of
                FaultBefore e \<Rightarrow> Inl (of_access e)
              | _ \<Rightarrow> rbind (lift_error of_access (check_access c ''run.contributor'' (io_check (sp_transaction ob)) (sp_db ob))) (\<lambda>_. Inl x))"

section \<open>Actions of the task\<close>

definition out_of_time :: "observation \<Rightarrow> live_run \<Rightarrow> bool" where
  "out_of_time ob r = (case lv_deadline r of None \<Rightarrow> False | Some d \<Rightarrow> d - sp_loop ob \<le> 0)"

definition stop_requested :: "live_run \<Rightarrow> bool" where
  "stop_requested r = (lv_cancel_requested r \<and> \<not> lv_terminal_observed r)"

definition compile_request_of :: "start_run_request \<Rightarrow> compile_request" where
  "compile_request_of rq =
     \<lparr>cq_question = rq_question rq, cq_evaluation_clock = \<lparr>ts_local = rq_evaluation_clock rq, ts_offset = Some 0\<rparr>,
      cq_evaluation_timezone = rq_evaluation_timezone rq, cq_ontology_scope = [], cq_member_resolution_mode = EXACT_AND_SYNONYM,
      cq_compilation_mode = rq_compilation_mode rq, cq_provider_selection = STATIC\<rparr>"

definition initialize_action :: "service \<Rightarrow> live_run \<Rightarrow> run_error + live_run" where
  "initialize_action sv r =
     rbind (lift_error of_failure (initialize (cp_registry (sv_compiler sv)) (sv_zones sv) (sv_reading sv)
              (compile_request_of (request_of r)) (rq_trace_id (request_of r)))) (\<lambda>ini.
     if ir_status ini = ST_SUCCEEDED then Inr r
     else Inl (Run_Adapter (case ir_diagnostics ini of [] \<Rightarrow> ''INITIALIZE_FAILED'' | d # _ \<Rightarrow> dg_code d)))"

fun of_compile_raise :: "compile_raise \<Rightarrow> run_error" where
  "of_compile_raise Cancelled = Run_Cancelled"
| "of_compile_raise _ = Run_Other"

definition compile_action :: "service \<Rightarrow> live_run \<Rightarrow> run_error + live_run" where
  "compile_action sv r =
     rbind (lift_error of_compile_raise (compile (sv_compiler sv) (sv_zones sv) (sv_reading sv)
              (compile_request_of (request_of r)) (rq_trace_id (request_of r)) (lv_deadline r))) (\<lambda>response.
     Inr (r\<lparr>lv_response := Some response\<rparr>))"

definition check_response :: "live_run \<Rightarrow> run_error + live_run" where
  "check_response r =
     rbind (from_option Run_Other (lv_response r)) (\<lambda>response.
     if cr_status response = ST_SUCCEEDED then Inr r
     else Inl (Run_Adapter (if cr_diagnostics response = [] then ''COMPILE_FAILED'' else dg_code (last (cr_diagnostics response)))))"

definition set_compile_artifact :: "service \<Rightarrow> live_run \<Rightarrow> run_error + live_run" where
  "set_compile_artifact sv r =
     rbind (from_option Run_Other (lv_response r)) (\<lambda>response.
     rbind (compile_artifact (pb_float_text (sv_publisher sv)) (request_of r) response) (\<lambda>summary.
     rbind (model_ok (0 \<le> fst (token_usage response) \<and> 0 \<le> snd (token_usage response))) (\<lambda>_.
     Inr (set_detail ((detail r)\<lparr>dt_sqg := summary\<rparr>) (set_status ((status r)\<lparr>rs_tokens := token_usage response\<rparr>) r)))))"

definition set_plan :: "service \<Rightarrow> live_run \<Rightarrow> run_error + live_run" where
  "set_plan sv r =
     rbind (from_option Run_Other (lv_response r)) (\<lambda>response.
     rbind (lift_error of_adapter (adapt (sv_mapping sv) response (rq_run_id (request_of r)) (rq_compilation_mode (request_of r)) (sv_source_type sv))) (\<lambda>ad.
     rbind (lift_error of_failure (plan (ad_planner ad) (ad_graph ad))) (\<lambda>p.
     rbind (traverse physical_node_detail_of (plan_nodes p)) (\<lambda>nodes.
     Inr (set_detail ((detail r)\<lparr>dt_physical_nodes := nodes\<rparr>) (r\<lparr>lv_physical_plan := Some p\<rparr>))))))"

definition check_outcome :: "live_run \<Rightarrow> run_error + live_run" where
  "check_outcome r =
     rbind (from_option Run_Other (lv_outcome r)) (\<lambda>oc.
     if oc_state oc = execution_state.CANCELLED \<and> lv_cancel_requested r then Inl Run_Cancelled
     else if oc_state oc \<noteq> execution_state.SUCCEEDED \<or> oc_manifest oc = None
     then Inl (Run_Runtime (case oc_diagnostic_code oc of Some c \<Rightarrow> if c = [] then ''RUNTIME_FAILED'' else c | None \<Rightarrow> ''RUNTIME_FAILED''))
     else Inr r)"

definition MAX_SERIALIZED_DETAIL_BYTES :: int where
  "MAX_SERIALIZED_DETAIL_BYTES = 24 * 1024 * 1024"

definition hold_result :: "service \<Rightarrow> observation \<Rightarrow> live_run \<Rightarrow> run_error + live_run" where
  "hold_result sv ob r =
     rbind (from_option Run_Other (lv_outcome r)) (\<lambda>oc.
     rbind (from_option Run_Other (lv_table r)) (\<lambda>table.
     rbind (runtime_result (sv_publisher sv) (rq_run_id (request_of r)) (sp_resolver_name ob) oc table) (\<lambda>(result, manifest, lineage).
     let d = (detail r)\<lparr>dt_result := Some result, dt_manifest := Some manifest, dt_lineage := lineage\<rparr> in
     rbind (publication_guard sv ob r
       (if stop_requested r \<or> lv_authorization_error r \<noteq> None then Inl Run_Cancelled
        else if MAX_SERIALIZED_DETAIL_BYTES < pb_detail_size (sv_publisher sv) d then Inl (Run_Runtime ''DETAIL_SERIALIZATION_LIMIT'')
        else if out_of_time ob r then Inl Run_Timeout
        else Inr d)) (\<lambda>d.
     Inr (r\<lparr>lv_pending_detail := Some d\<rparr>)))))"

definition publish :: "run_status \<Rightarrow> live_run \<Rightarrow> live_run" where
  "publish st r =
     (let r1 = set_status st r
      in case lv_pending_detail r of None \<Rightarrow> r1 | Some d \<Rightarrow> (set_detail d r1)\<lparr>lv_pending_detail := None\<rparr>)"

definition succeed :: "service \<Rightarrow> observation \<Rightarrow> live_run \<Rightarrow> run_error + live_run" where
  "succeed sv ob r =
     rbind (publication_guard sv ob r
       (if terminal (run_state_of r) then Inr None
        else if stop_requested r \<or> lv_authorization_error r \<noteq> None then Inl Run_Cancelled
        else if out_of_time ob r then Inl Run_Timeout
        else Inr (Some ((status r)\<lparr>rs_state := run_state.SUCCEEDED, rs_finalized_at := Some (sp_now ob)\<rparr>)))) (\<lambda>st.
     Inr (case st of None \<Rightarrow> r | Some st \<Rightarrow> publish st r))"

fun perform :: "service \<Rightarrow> observation \<Rightarrow> action \<Rightarrow> live_run \<Rightarrow> run_error + live_run" where
  "perform sv ob Acquire_Slot r = Inr r"
| "perform sv ob Check_Active r =
     (if stop_requested r \<or> run_state_of r = run_state.CANCELLED then Inl Run_Cancelled
      else if out_of_time ob r then Inl Run_Timeout else Inr r)"
| "perform sv ob Authorize r = rbind (authorize_request sv (rc_context (lv_record r)) ''run.contributor'' ob) (\<lambda>_. Inr r)"
| "perform sv ob (Begin name planned) r =
     rbind (begin_stage (sp_now ob) name (if planned then lv_physical_plan r else None) (status r)) (\<lambda>st. Inr (set_status st r))"
| "perform sv ob Initialize r = initialize_action sv r"
| "perform sv ob (Complete name nodes) r = Inr (set_status (complete_stage (sp_now ob) name nodes (status r)) r)"
| "perform sv ob Compile r = compile_action sv r"
| "perform sv ob Check_Timeout r = (if lv_expiring r then Inl Run_Timeout else Inr r)"
| "perform sv ob Store_Response r = Inr (r\<lparr>lv_compile_response := lv_response r\<rparr>)"
| "perform sv ob Check_Response r = check_response r"
| "perform sv ob Set_Artifact r = set_compile_artifact sv r"
| "perform sv ob Set_Plan r = set_plan sv r"
| "perform sv ob Open_Coordinator r = (if out_of_time ob r then Inl Run_Timeout else Inr (r\<lparr>lv_coordinator := True\<rparr>))"
| "perform sv ob Prepare_Run r = rbind (sp_hook ob) (\<lambda>_. Inr r)"
| "perform sv ob Run_Plan r = rbind (sp_outcome ob) (\<lambda>oc. Inr (r\<lparr>lv_outcome := Some oc\<rparr>))"
| "perform sv ob Apply_Events r =
     rbind (from_option Run_Other (lv_outcome r)) (\<lambda>oc. Inr (set_status (apply_runtime_events (oc_events oc) (status r)) r))"
| "perform sv ob Check_Outcome r = check_outcome r"
| "perform sv ob Read_Page r = rbind (sp_table ob) (\<lambda>t. Inr (r\<lparr>lv_table := Some t\<rparr>))"
| "perform sv ob Hold_Result r = hold_result sv ob r"
| "perform sv ob Succeed r = succeed sv ob r"

section \<open>Steps of the task\<close>

text \<open>
  An error leaves the body: \<open>asyncio.timeout_at\<close> turns a cancellation into a timeout
  when only its own timer has cancelled the task, and the handler marks the
  terminal cleanup before it awaits anything.
\<close>

definition leave_body :: "run_error \<Rightarrow> live_run \<Rightarrow> live_run" where
  "leave_body e r =
     r\<lparr>lv_task := Handling (if e = Run_Cancelled \<and> lv_expiring r \<and> \<not> lv_cancelling r then Run_Timeout else e),
       lv_cleanup_started := True, lv_interrupt := False\<rparr>"

text \<open>The awaited calls that may answer although a cancellation is on its way to them.\<close>

definition may_swallow :: "action \<Rightarrow> bool" where
  "may_swallow a = (a \<in> {Compile, Prepare_Run, Run_Plan, Read_Page})"

definition body_step :: "service \<Rightarrow> observation \<Rightarrow> action \<Rightarrow> action list \<Rightarrow> live_run \<Rightarrow> live_run" where
  "body_step sv ob a as r =
     (if lv_interrupt r \<and> \<not> (may_swallow a \<and> sp_swallowed ob) then leave_body Run_Cancelled r
      else case perform sv ob a (r\<lparr>lv_interrupt := False\<rparr>) of
          Inl e \<Rightarrow> leave_body e r
        | Inr r' \<Rightarrow> r'\<lparr>lv_task := (if as = [] then Closing None else Body as)\<rparr>)"

definition denial_code :: "access_error \<Rightarrow> string" where
  "denial_code e = (if e = AccessDenied then ''AUTHORIZATION_DENIED'' else ''AUTHORIZATION_UNAVAILABLE'')"

text \<open>\<open>_resolver_cleanup_failure\<close>: no failure, the code of a runtime failure, or another exception.\<close>

definition after_cleanup :: "observation \<Rightarrow> (string option \<Rightarrow> settlement) \<Rightarrow> live_run \<Rightarrow> live_run" where
  "after_cleanup ob next r =
     (case sp_cleanup ob of Inl e \<Rightarrow> r\<lparr>lv_task := Closing (Some e)\<rparr> | Inr c \<Rightarrow> r\<lparr>lv_task := Settling (next c)\<rparr>)"

definition code_or :: "string \<Rightarrow> string option \<Rightarrow> string" where
  "code_or code cleanup = (case cleanup of None \<Rightarrow> code | Some c \<Rightarrow> c)"

definition authorization_failed :: "observation \<Rightarrow> live_run \<Rightarrow> live_run" where
  "authorization_failed ob r =
     after_cleanup ob (\<lambda>c. Withhold
       (code_or (case lv_authorization_error r of None \<Rightarrow> ''AUTHORIZATION_DENIED'' | Some e \<Rightarrow> if e = [] then ''AUTHORIZATION_DENIED'' else e) c)
       ''Workspace authorization ended; active work was cancelled and no result was released.'') r"

definition handle :: "observation \<Rightarrow> run_error \<Rightarrow> live_run \<Rightarrow> live_run" where
  "handle ob e r =
     (let r1 = r\<lparr>lv_watcher := Stopped\<rparr> in
      case sp_hook ob of
        Inl x \<Rightarrow> r1\<lparr>lv_task := Closing (Some x)\<rparr>
      | Inr _ \<Rightarrow>
        (case e of
           Run_Cancelled \<Rightarrow>
             if lv_authorization_error r \<noteq> None then authorization_failed ob r1
             else after_cleanup ob (\<lambda>c. case c of None \<Rightarrow> Cancel_Run
               | Some code \<Rightarrow> Fail_With code ''The provider cancellation could not be confirmed safely.'') r1
         | Run_Denied x \<Rightarrow> authorization_failed ob (r1\<lparr>lv_authorization_error := Some (denial_code x)\<rparr>)
         | Run_Timeout \<Rightarrow> after_cleanup ob (\<lambda>c. Fail_With (code_or ''RUN_TIMEOUT'' c)
             (if c = None then ''The bounded run exceeded its timeout.''
              else ''The resolver did not clean up safely after the run timeout.'')) r1
         | Run_Adapter code \<Rightarrow> r1\<lparr>lv_task := Settling (Fail_With code (sp_message ob))\<rparr>
         | Run_Runtime code \<Rightarrow> after_cleanup ob (\<lambda>c. Fail_With (code_or code c)
             (if c = None then ''The validated runtime operation failed safely.''
              else ''The resolver did not clean up safely after runtime failure.'')) r1
         | Run_Other \<Rightarrow> after_cleanup ob (\<lambda>c. Fail_With (code_or ''INTEGRATION_FAILURE'' c)
             (if c = None then ''The integration service could not complete the run.''
              else ''The resolver did not clean up safely after integration failure.'')) r1))"

definition withhold :: "live_run \<Rightarrow> live_run" where
  "withhold r =
     (if terminal (run_state_of r) then r
      else (set_detail ((detail r)\<lparr>dt_result := None, dt_manifest := None\<rparr>) r)\<lparr>lv_pending_detail := None\<rparr>)"

fun settle :: "observation \<Rightarrow> settlement \<Rightarrow> live_run \<Rightarrow> live_run" where
  "settle ob Cancel_Run r = (set_status (finalize_cancelled (sp_now ob) (status r)) r)\<lparr>lv_task := Closing None\<rparr>"
| "settle ob (Fail_With code message) r =
     (case fail_run (sp_now ob) (rq_run_id (request_of r)) code message (status r, detail r) of
        Inl e \<Rightarrow> r\<lparr>lv_task := Closing (Some e)\<rparr>
      | Inr (st, d) \<Rightarrow> (set_detail d (set_status st r))\<lparr>lv_task := Closing None\<rparr>)"
| "settle ob (Withhold code message) r = (withhold r)\<lparr>lv_task := Settling (Fail_With code message)\<rparr>"

text \<open>The \<open>finally\<close> block: stop the watcher, drop the coordinator, then tell the resolver.\<close>

definition close_step :: "observation \<Rightarrow> run_error option \<Rightarrow> live_run \<Rightarrow> live_run" where
  "close_step ob x r =
     (if lv_interrupt r \<and> \<not> sp_swallowed ob then r\<lparr>lv_task := Ended (Some Run_Cancelled), lv_interrupt := False\<rparr>
      else case sp_hook ob of
        Inl e \<Rightarrow> r\<lparr>lv_task := Ended (Some e), lv_interrupt := False\<rparr>
      | Inr _ \<Rightarrow> r\<lparr>lv_watcher := (if lv_watcher r = No_Watch then No_Watch else Stopped), lv_coordinator := False,
                 lv_task := Releasing x, lv_interrupt := False\<rparr>)"

definition release_step :: "observation \<Rightarrow> run_error option \<Rightarrow> live_run \<Rightarrow> live_run" where
  "release_step ob x r =
     (if lv_interrupt r \<and> \<not> sp_swallowed ob then r\<lparr>lv_task := Ended (Some Run_Cancelled), lv_interrupt := False\<rparr>
      else r\<lparr>lv_task := Ended (case sp_hook ob of Inl e \<Rightarrow> Some e | Inr _ \<Rightarrow> x), lv_interrupt := False\<rparr>)"

definition task_step :: "service \<Rightarrow> observation \<Rightarrow> live_run \<Rightarrow> live_run" where
  "task_step sv ob r =
     (case lv_task r of
        Waiting \<Rightarrow> if lv_interrupt r then r\<lparr>lv_task := Ended (Some Run_Cancelled), lv_interrupt := False\<rparr>
                   else r\<lparr>lv_task := Body run_program\<rparr>
      | Body [] \<Rightarrow> r\<lparr>lv_task := Closing None\<rparr>
      | Body (a # as) \<Rightarrow> body_step sv ob a as r
      | Handling e \<Rightarrow> handle ob e r
      | Settling s \<Rightarrow> settle ob s r
      | Closing x \<Rightarrow> close_step ob x r
      | Releasing x \<Rightarrow> release_step ob x r
      | Ended x \<Rightarrow> r)"

section \<open>Timer, watcher and cancel calls\<close>

fun in_body :: "task \<Rightarrow> bool" where
  "in_body (Body as) = True"
| "in_body _ = False"

fun ended :: "task \<Rightarrow> bool" where
  "ended (Ended x) = True"
| "ended _ = False"

definition timer_step :: "observation \<Rightarrow> live_run \<Rightarrow> live_run" where
  "timer_step ob r =
     (if in_body (lv_task r) \<and> out_of_time ob r \<and> \<not> lv_expiring r then r\<lparr>lv_expiring := True, lv_interrupt := True\<rparr> else r)"

text \<open>\<open>task.cancel()\<close> unless the task is done or already being cancelled.\<close>

definition cancel_task :: "live_run \<Rightarrow> live_run" where
  "cancel_task r =
     (if ended (lv_task r) \<or> lv_cancelling r \<or> lv_expiring r then r else r\<lparr>lv_interrupt := True, lv_cancelling := True\<rparr>)"

text \<open>
  The watcher wakes after the task has started, because its task was created second.
\<close>

definition watch_step :: "service \<Rightarrow> observation \<Rightarrow> live_run \<Rightarrow> live_run" where
  "watch_step sv ob r =
     (case lv_watcher r of
        Watching \<Rightarrow>
          if lv_task r = Waiting then r
          else if terminal (run_state_of r) \<or> lv_cleanup_started r then r\<lparr>lv_watcher := Stopped\<rparr>
          else (case authorize_request sv (rc_context (lv_record r)) ''run.contributor'' ob of
                  Inr _ \<Rightarrow> r
                | Inl (Run_Denied e) \<Rightarrow> r\<lparr>lv_watcher := Refusing (denial_code e)\<rparr>
                | Inl Run_Timeout \<Rightarrow> r\<lparr>lv_watcher := Refusing ''AUTHORIZATION_UNAVAILABLE''\<rparr>
                | Inl _ \<Rightarrow> r\<lparr>lv_watcher := Stopped\<rparr>)
      | Refusing code \<Rightarrow>
          if terminal (run_state_of r) \<or> lv_cleanup_started r then r\<lparr>lv_watcher := Stopped\<rparr>
          else cancel_task (r\<lparr>lv_authorization_error := Some code, lv_watcher := Stopped\<rparr>)
      | _ \<Rightarrow> r)"

definition set_caller :: "nat \<Rightarrow> caller \<Rightarrow> live_run \<Rightarrow> live_run" where
  "set_caller i c r = r\<lparr>lv_callers := (lv_callers r)[i := c]\<rparr>"

definition caller_step :: "observation \<Rightarrow> nat \<Rightarrow> caller \<Rightarrow> live_run \<Rightarrow> live_run" where
  "caller_step ob i c r =
     (case c of
        Requesting \<Rightarrow>
          if terminal (run_state_of r) then set_caller i Returned r
          else set_caller i (if lv_coordinator r \<and> \<not> lv_cleanup_started r then Asking else Interrupting False False)
                 (r\<lparr>lv_cancel_requested := True\<rparr>)
      | Asking \<Rightarrow> set_caller i (if sp_accepted ob then Accepting else Rejected) r
      | Accepting \<Rightarrow> set_caller i (Interrupting True False) (r\<lparr>lv_cancel_accepted := True\<rparr>)
      | Rejected \<Rightarrow>
          set_caller i (if lv_cancel_accepted r then Interrupting True False
                        else if sp_events ob = [] then Interrupting False False else Observing (sp_events ob)) r
      | Observing events \<Rightarrow> set_caller i Observed (set_status (apply_runtime_events events (status r)) r)
      | Observed \<Rightarrow> set_caller i (Interrupting False True) (r\<lparr>lv_terminal_observed := True\<rparr>)
      | Interrupting accepted finishing \<Rightarrow>
          (let r1 = (if accepted \<or> finishing \<or> lv_cleanup_started r then r else cancel_task r)
           in set_caller i (if ended (lv_task r1) then Finalizing else Awaiting) r1)
      | Awaiting \<Rightarrow>
          (case lv_task r of
             Ended x \<Rightarrow> set_caller i (if x = None \<or> x = Some Run_Cancelled then Finalizing else Raised) r
           | _ \<Rightarrow> r)
      | Finalizing \<Rightarrow> set_caller i Returned (set_status (finalize_cancelled (sp_now ob) (status r)) r)
      | _ \<Rightarrow> r)"

definition cancel_step :: "observation \<Rightarrow> nat \<Rightarrow> live_run \<Rightarrow> live_run" where
  "cancel_step ob i r = (if i < length (lv_callers r) then caller_step ob i (lv_callers r ! i) r else r)"

inductive service_step :: "service \<Rightarrow> live_run \<Rightarrow> live_run \<Rightarrow> bool" for sv where
  step_task: "service_step sv r (task_step sv ob r)"
| step_timer: "service_step sv r (timer_step ob r)"
| step_watch: "service_step sv r (watch_step sv ob r)"
| step_call: "service_step sv r (r\<lparr>lv_callers := lv_callers r @ [Requesting]\<rparr>)"
| step_cancel: "service_step sv r (cancel_step ob i r)"
| step_gone: "lv_callers r ! i \<noteq> Returned \<Longrightarrow> service_step sv r (set_caller i Gone r)"

inductive service_run :: "service \<Rightarrow> live_run \<Rightarrow> live_run \<Rightarrow> bool" for sv r0 where
  run_start: "service_run sv r0 r0"
| run_more: "service_run sv r0 r \<Longrightarrow> service_step sv r r' \<Longrightarrow> service_run sv r0 r'"

section \<open>Requests\<close>

datatype service_error = Not_Authorized run_error | Not_Stored repository_error | Not_Available

definition service_start ::
    "service \<Rightarrow> observation \<Rightarrow> bool res \<Rightarrow> start_run_request \<Rightarrow> trusted_context option \<Rightarrow> repository
      \<Rightarrow> (service_error + run_status \<times> live_run option) \<times> repository" where
  "service_start sv ob legacy request context rp =
     (case rbind (authorize_request sv context ''run.contributor'' ob) (\<lambda>_.
             raise_unless (case context of None \<Rightarrow> True | Some c \<Rightarrow> rq_requested_by request = pr_id (cx_principal c)) (Run_Denied AccessDenied)) of
        Inl e \<Rightarrow> (Inl (Not_Authorized e), rp)
      | Inr _ \<Rightarrow>
        (case repo_create legacy (sp_now ob) request (initial_status (sp_now ob) (rq_run_id request)) context rp of
           (Inl e, rp1) \<Rightarrow> (Inl (Not_Stored e), rp1)
         | (Inr (rec, created), rp1) \<Rightarrow>
             (Inr (rc_status rec, if created then Some (new_live_run (sp_loop ob) rec) else None), rp1)))"

definition service_get ::
    "service \<Rightarrow> observation \<Rightarrow> bool res \<Rightarrow> string \<Rightarrow> trusted_context option \<Rightarrow> repository
      \<Rightarrow> (service_error + run_record) \<times> repository" where
  "service_get sv ob legacy run_id context rp =
     (case authorize_request sv context ''run.reader'' ob of
        Inl e \<Rightarrow> (Inl (Not_Authorized e), rp)
      | Inr _ \<Rightarrow> map_prod (map_sum Not_Stored id) id (repo_get legacy (sp_now ob) run_id context rp))"

record integrated_artifact =
  ia_detail :: run_detail
  ia_response :: compile_response
  ia_plan :: physical_plan
  ia_members :: "(string, string) dict"

definition get_integrated_artifact :: "service \<Rightarrow> live_run \<Rightarrow> service_error + integrated_artifact" where
  "get_integrated_artifact sv r =
     (case (run_state_of r = run_state.SUCCEEDED, lv_compile_response r, lv_physical_plan r) of
        (True, Some response, Some p) \<Rightarrow>
          rbind (traverse (\<lambda>t. rbind (from_option (Not_Authorized Run_Other) (dget (sm_members (sv_mapping sv)) (rt_machine_id t)))
                   (\<lambda>v. Inr (rt_machine_id t, v)))
                 (filter (\<lambda>t. rt_kind t = TERM_MEMBER) (cr_resolved_terms response))) (\<lambda>ms.
          Inr \<lparr>ia_detail = detail r, ia_response = response, ia_plan = p, ia_members = dict_of ms\<rparr>)
      | _ \<Rightarrow> Inl Not_Available)"

end
