(* ===== verification/Run_Lifecycle.thy ===== *)
theory Run_Lifecycle
  imports Run_Service
begin

text \<open>
  What every interleaving of the task, the timer, the watcher and the cancel
  calls of a run keeps: results appear only with success, success only under a
  committed authorization, a final state stays, the task comes to an end and its
  end leaves a final state.
\<close>

section \<open>Facts about the program\<close>

definition completes :: "string \<Rightarrow> action list \<Rightarrow> bool" where
  "completes n as = list_ex (\<lambda>a. case a of Complete m b \<Rightarrow> m = n | _ \<Rightarrow> False) as"

definition follows :: "action \<Rightarrow> action list \<Rightarrow> bool" where
  "follows a as =
     ((a = Store_Response \<longrightarrow> Compile \<notin> set as) \<and> (case a of Begin n b \<Rightarrow> completes n as | _ \<Rightarrow> True) \<and> (as = [] \<longleftrightarrow> a = Succeed))"

fun well_ordered :: "action list \<Rightarrow> bool" where
  "well_ordered [] = True"
| "well_ordered (a # as) = (follows a as \<and> well_ordered as)"

lemma program_ordered: "well_ordered run_program"
  by code_simp

lemma program_completes: "list_all (\<lambda>n. completes n run_program) STAGES"
  by code_simp

lemma program_contains: "Compile \<in> set run_program" "Store_Response \<in> set run_program" "Set_Plan \<in> set run_program"
    "Hold_Result \<in> set run_program" "run_program \<noteq> []"
  by (simp_all add: run_program_def)

lemma completes_simps [simp]:
  "completes n [] = False" "completes n (Complete m b # as) = (m = n \<or> completes n as)"
  by (simp_all add: completes_def)

lemma completes_Cons: "completes n (a # as) \<longleftrightarrow> (\<exists>b. a = Complete n b) \<or> completes n as"
  by (cases a) (auto simp: completes_def)

section \<open>What the actions keep\<close>

lemmas action_defs = initialize_action_def compile_action_def check_response_def set_compile_artifact_def set_plan_def check_outcome_def
  hold_result_def begin_stage_def complete_stage_def apply_runtime_events_def on_stage_def set_status_def set_detail_def Let_def

lemma publication_guard_Inr:
  assumes "publication_guard sv ob r body = Inr y"
  shows "body = Inr y \<and> (sv_legacy sv \<or> (\<exists>c. rc_context (lv_record r) = Some c \<and> sv_authority sv
    \<and> in_force c ''run.contributor'' (sp_transaction ob) (sp_db ob)))"
proof (cases "sv_legacy sv")
  case False
  then obtain c where c: "rc_context (lv_record r) = Some c" "sv_authority sv"
    using assms by (auto simp: publication_guard_def split: option.splits if_splits)
  obtain z where z: "body = Inr z"
    using assms c False by (cases body) (auto simp: publication_guard_def split: if_splits fault.splits)
  have "fst (guard c None ''run.contributor'' (lv_deadline r) (sp_transaction ob) (\<lambda>_ db. Inr (z, db)) (sp_db ob)) = Inr y"
    using assms c z False by (simp add: publication_guard_def)
  then obtain db' where g: "guard c None ''run.contributor'' (lv_deadline r) (sp_transaction ob) (\<lambda>_ db. Inr (z, db)) (sp_db ob) = (Inr y, db')"
    by (metis prod.collapse)
  from guard_ok [OF g] show ?thesis using c z by auto
qed (use assms in \<open>simp add: publication_guard_def\<close>)

definition authorized_now :: "service \<Rightarrow> observation \<Rightarrow> live_run \<Rightarrow> bool" where
  "authorized_now sv ob r \<longleftrightarrow>
     sv_legacy sv \<or> (\<exists>c. rc_context (lv_record r) = Some c \<and> in_force c ''run.contributor'' (sp_transaction ob) (sp_db ob))"

definition may_publish :: "service \<Rightarrow> observation \<Rightarrow> live_run \<Rightarrow> bool" where
  "may_publish sv ob r \<longleftrightarrow>
     \<not> stop_requested r \<and> lv_authorization_error r = None \<and> \<not> out_of_time ob r \<and> authorized_now sv ob r"

lemma succeed_Inr:
  assumes "succeed sv ob r = Inr r'"
  shows "terminal (run_state_of r) \<and> r' = r \<or> \<not> terminal (run_state_of r) \<and> may_publish sv ob r
    \<and> r' = publish ((status r)\<lparr>rs_state := run_state.SUCCEEDED, rs_finalized_at := Some (sp_now ob)\<rparr>) r"
proof -
  obtain st where st: "publication_guard sv ob r
       (if terminal (run_state_of r) then Inr None
        else if stop_requested r \<or> lv_authorization_error r \<noteq> None then Inl Run_Cancelled
        else if out_of_time ob r then Inl Run_Timeout
        else Inr (Some ((status r)\<lparr>rs_state := run_state.SUCCEEDED, rs_finalized_at := Some (sp_now ob)\<rparr>))) = Inr st"
      "r' = (case st of None \<Rightarrow> r | Some st \<Rightarrow> publish st r)"
    using assms unfolding succeed_def rbind_eq_Inr by (elim exE conjE) simp
  from publication_guard_Inr [OF st(1)] st(2) show ?thesis
    by (auto simp: may_publish_def authorized_now_def split: if_splits)
qed

lemma publish_simps [simp]:
  "status (publish st r) = st" "lv_callers (publish st r) = lv_callers r" "lv_task (publish st r) = lv_task r"
  "rc_request (lv_record (publish st r)) = request_of r" "rc_context (lv_record (publish st r)) = rc_context (lv_record r)"
  "lv_pending_detail (publish st r) = None" "lv_compile_response (publish st r) = lv_compile_response r"
  "lv_physical_plan (publish st r) = lv_physical_plan r"
  "detail (publish st r) = (case lv_pending_detail r of None \<Rightarrow> detail r | Some d \<Rightarrow> d)"
  by (auto simp: publish_def set_status_def set_detail_def Let_def split: option.splits)

lemma perform_frame:
  assumes "perform sv ob a r = Inr r'"
  shows "lv_callers r' = lv_callers r \<and> lv_task r' = lv_task r \<and> rc_request (lv_record r') = rc_request (lv_record r)
    \<and> rc_context (lv_record r') = rc_context (lv_record r)"
proof (cases "a = Succeed")
  case True
  then show ?thesis using succeed_Inr [of sv ob r r'] assms by auto
next
  case False
  then show ?thesis using assms by (cases a) (auto simp: action_defs split: if_splits)
qed

lemma perform_state:
  assumes "perform sv ob a r = Inr r'" "a \<noteq> Succeed"
  shows "rs_state (status r') \<in> {run_state_of r, run_state.RUNNING} \<and> dt_result (detail r') = dt_result (detail r)
    \<and> dt_manifest (detail r') = dt_manifest (detail r)"
  using assms by (cases a) (auto simp: action_defs split: if_splits)

lemma perform_pending:
  assumes "perform sv ob a r = Inr r'" "a \<noteq> Succeed" "lv_pending_detail r' = Some d"
  shows "lv_pending_detail r = Some d \<or> dt_result d \<noteq> None \<and> dt_manifest d \<noteq> None"
  using assms by (cases a) (auto simp: action_defs split: if_splits dest!: publication_guard_Inr)

definition stage_states :: "run_status \<Rightarrow> (string \<times> run_state) list" where
  "stage_states st = map (\<lambda>s. (ss_name s, ss_state s)) (rs_stages st)"

lemma stage_states_begin:
  "begin_stage now name pp st = Inr st' \<Longrightarrow>
   stage_states st' = map (\<lambda>(n, x). (n, if n = name then run_state.RUNNING else x)) (stage_states st)"
  by (auto simp: begin_stage_def on_stage_def stage_states_def)

lemma stage_states_complete:
  "stage_states (complete_stage now name b st) = map (\<lambda>(n, x). (n, if n = name then run_state.SUCCEEDED else x)) (stage_states st)"
  by (auto simp: complete_stage_def on_stage_def stage_states_def)

lemma stage_states_events [simp]: "stage_states (apply_runtime_events es st) = stage_states st"
  by (auto simp: apply_runtime_events_def on_stage_def stage_states_def)

lemma stage_states_close: "stage_states (close_status now final st) = map (\<lambda>(n, x). (n, if active x then final else x)) (stage_states st)"
  by (auto simp: close_status_def close_stage_def stage_states_def)

lemma stage_states_update [simp]:
  "stage_states (st\<lparr>rs_state := x\<rparr>) = stage_states st" "stage_states (st\<lparr>rs_finalized_at := t\<rparr>) = stage_states st"
  "stage_states (st\<lparr>rs_tokens := u\<rparr>) = stage_states st" "stage_states (st\<lparr>rs_diagnostics := ds\<rparr>) = stage_states st"
  by (simp_all add: stage_states_def)

lemma perform_stage_states:
  assumes "perform sv ob a r = Inr r'"
  shows "stage_states (status r') = (case a of
      Begin n b \<Rightarrow> map (\<lambda>(m, x). (m, if m = n then run_state.RUNNING else x)) (stage_states (status r))
    | Complete n b \<Rightarrow> map (\<lambda>(m, x). (m, if m = n then run_state.SUCCEEDED else x)) (stage_states (status r))
    | _ \<Rightarrow> stage_states (status r))"
proof (cases a)
  case Succeed
  then show ?thesis using succeed_Inr [of sv ob r r'] assms by auto
next
  case (Begin n b)
  then show ?thesis using assms stage_states_begin by (auto simp: set_status_def)
next
  case (Complete n b)
  then show ?thesis using assms by (auto simp: set_status_def stage_states_complete)
next
  case Apply_Events
  then show ?thesis using assms by (auto simp: set_status_def)
qed (use assms in \<open>auto simp: initialize_action_def compile_action_def check_response_def set_compile_artifact_def set_plan_def
    check_outcome_def hold_result_def set_status_def set_detail_def Let_def split: if_splits\<close>)

definition due :: "action list \<Rightarrow> run_status \<Rightarrow> bool" where
  "due as st = list_all (\<lambda>(n, x). x = run_state.SUCCEEDED \<or> completes n as) (stage_states st)"

lemma perform_due:
  assumes "perform sv ob a r = Inr r'" "follows a as" "due (a # as) (status r)"
  shows "due as (status r')"
  using assms(2,3) unfolding due_def perform_stage_states [OF assms(1)]
  by (cases a) (auto simp: list_all_iff follows_def completes_Cons)

text \<open>An action that is due leaves its mark; the others keep it.\<close>

definition marked :: "action list \<Rightarrow> live_run \<Rightarrow> bool" where
  "marked as r \<longleftrightarrow> (Compile \<in> set as \<or> lv_response r \<noteq> None) \<and> (Store_Response \<in> set as \<or> lv_compile_response r \<noteq> None)
     \<and> (Set_Plan \<in> set as \<or> lv_physical_plan r \<noteq> None) \<and> (Hold_Result \<in> set as \<or> lv_pending_detail r \<noteq> None)"

lemma perform_mark:
  assumes "perform sv ob a r = Inr r'" "a \<noteq> Succeed"
  shows "if a = Compile then lv_response r' \<noteq> None else lv_response r' = lv_response r"
    and "lv_compile_response r' = (if a = Store_Response then lv_response r else lv_compile_response r)"
    and "if a = Set_Plan then lv_physical_plan r' \<noteq> None else lv_physical_plan r' = lv_physical_plan r"
    and "if a = Hold_Result then lv_pending_detail r' \<noteq> None else lv_pending_detail r' = lv_pending_detail r"
  using assms by (cases a; auto simp: action_defs split: if_splits)+

lemma perform_marks:
  assumes "perform sv ob a r = Inr r'" "a \<noteq> Succeed" "follows a as" "marked (a # as) r"
  shows "marked as r'"
proof -
  note m = perform_mark [OF assms(1,2)]
  have "a = Store_Response \<Longrightarrow> lv_response r \<noteq> None" using assms(3,4) by (simp add: follows_def marked_def)
  then show ?thesis using m assms(4) unfolding marked_def by (cases "a = Compile"; cases "a = Store_Response"; cases "a = Set_Plan"; cases "a = Hold_Result") simp_all
qed

section \<open>The invariant of a run\<close>

fun over :: "task \<Rightarrow> bool" where
  "over (Closing x) = True"
| "over (Releasing x) = True"
| "over (Ended x) = True"
| "over _ = False"

fun task_ok :: "live_run \<Rightarrow> task \<Rightarrow> bool" where
  "task_ok r Waiting = due run_program (status r)"
| "task_ok r (Body as) = (as \<noteq> [] \<and> well_ordered as \<and> due as (status r) \<and> marked as r)"
| "task_ok r (Closing None) = terminal (run_state_of r)"
| "task_ok r (Releasing None) = terminal (run_state_of r)"
| "task_ok r (Ended None) = terminal (run_state_of r)"
| "task_ok r _ = True"

fun caller_ok :: "live_run \<Rightarrow> caller \<Rightarrow> bool" where
  "caller_ok r Returned = terminal (run_state_of r)"
| "caller_ok r Finalizing = ended (lv_task r)"
| "caller_ok r _ = True"

definition result_ok :: "live_run \<Rightarrow> bool" where
  "result_ok r \<longleftrightarrow>
     (run_state_of r \<noteq> run_state.SUCCEEDED \<longrightarrow> dt_result (detail r) = None \<and> dt_manifest (detail r) = None)
     \<and> (\<forall>d. lv_pending_detail r = Some d \<longrightarrow> dt_result d \<noteq> None \<and> dt_manifest d \<noteq> None)
     \<and> (run_state_of r = run_state.SUCCEEDED \<longrightarrow> list_all (\<lambda>(n, x). x = run_state.SUCCEEDED) (stage_states (status r))
          \<and> lv_compile_response r \<noteq> None \<and> lv_physical_plan r \<noteq> None \<and> dt_result (detail r) \<noteq> None \<and> dt_manifest (detail r) \<noteq> None)"

definition final_ok :: "live_run \<Rightarrow> bool" where
  "final_ok r \<longleftrightarrow> (terminal (run_state_of r) \<longrightarrow>
     over (lv_task r) \<and> rs_finalized_at (status r) \<noteq> None \<and> list_all (\<lambda>(n, x). \<not> active x) (stage_states (status r)))"

definition run_inv :: "live_run \<Rightarrow> bool" where
  "run_inv r \<longleftrightarrow> task_ok r (lv_task r) \<and> result_ok r \<and> final_ok r \<and> list_all (caller_ok r) (lv_callers r)"

lemma run_inv_record:
  assumes "run_inv r" "lv_record r' = lv_record r" "lv_task r' = lv_task r" "lv_pending_detail r' = lv_pending_detail r"
    and "lv_compile_response r' = lv_compile_response r" "lv_physical_plan r' = lv_physical_plan r" "lv_response r' = lv_response r"
    and "list_all (caller_ok r') (lv_callers r')"
  shows "run_inv r'"
proof -
  have "task_ok r' t = task_ok r t" for t
    using assms(2-7) by (cases "(r, t)" rule: task_ok.cases) (simp_all add: marked_def)
  then show ?thesis using assms by (simp add: run_inv_def result_ok_def final_ok_def)
qed

lemma caller_ok_cong:
  "run_state_of r' = run_state_of r \<Longrightarrow> lv_task r' = lv_task r \<Longrightarrow> caller_ok r' c = caller_ok r c"
  by (cases "(r, c)" rule: caller_ok.cases) simp_all

lemma callers_cong:
  "run_state_of r' = run_state_of r \<Longrightarrow> lv_task r' = lv_task r \<Longrightarrow> list_all (caller_ok r') cs = list_all (caller_ok r) cs"
  by (simp add: list_all_iff caller_ok_cong [of r' r])

text \<open>A step of the task that ends nothing keeps the callers in order, as no caller is past the end of the task.\<close>

lemma callers_progress:
  assumes "list_all (caller_ok r) cs" "terminal (run_state_of r) \<Longrightarrow> terminal (run_state_of r')" "ended (lv_task r) \<Longrightarrow> ended (lv_task r')"
  shows "list_all (caller_ok r') cs"
proof -
  have "caller_ok r c \<Longrightarrow> caller_ok r' c" for c
    using assms(2,3) by (cases "(r, c)" rule: caller_ok.cases) auto
  then show ?thesis using assms(1) by (auto simp: list_all_iff)
qed

lemma not_active_terminal: "\<not> active run_state.CANCELLED" "\<not> active run_state.FAILED" "\<not> active run_state.SUCCEEDED"
  by (simp_all add: active_def)

lemma terminal_simps [simp]: "terminal run_state.CANCELLED" "terminal run_state.FAILED" "terminal run_state.SUCCEEDED" "\<not> terminal run_state.RUNNING"
  by (simp_all add: terminal_def)

lemma body_keeps_inv:
  assumes inv: "run_inv r" and t: "lv_task r = Body (a # as)"
  shows "run_inv (body_step sv ob a as r)"
proof -
  have open_run: "\<not> terminal (run_state_of r)" using inv t by (auto simp: run_inv_def final_ok_def)
  have task: "follows a as" "well_ordered as" "due (a # as) (status r)" "marked (a # as) r"
    using inv t by (simp_all add: run_inv_def)
  have res: "result_ok r" and callers: "list_all (caller_ok r) (lv_callers r)" using inv by (simp_all add: run_inv_def)
  have leave: "run_inv (leave_body e r)" for e
    using res open_run callers t
    by (auto simp: run_inv_def leave_body_def result_ok_def final_ok_def elim!: callers_progress)
  let ?r = "r\<lparr>lv_interrupt := False\<rparr>"
  show ?thesis
  proof (cases "(lv_interrupt r \<and> \<not> (may_swallow a \<and> sp_swallowed ob)) \<or> (\<exists>e. perform sv ob a ?r = Inl e)")
    case True
    then show ?thesis using leave by (auto simp: body_step_def)
  next
    case False
    then obtain r' where r': "perform sv ob a ?r = Inr r'" by (cases "perform sv ob a ?r") auto
    have step: "body_step sv ob a as r = r'\<lparr>lv_task := (if as = [] then Closing None else Body as)\<rparr>"
      using False r' by (auto simp: body_step_def)
    have frame: "lv_callers r' = lv_callers r" "lv_task r' = Body (a # as)" using perform_frame [OF r'] t by simp_all
    show ?thesis
    proof (cases "a = Succeed")
      case True
      then have as: "as = []" using task(1) by (simp add: follows_def)
      have p: "r' = publish ((status r)\<lparr>rs_state := run_state.SUCCEEDED, rs_finalized_at := Some (sp_now ob)\<rparr>) ?r"
        using succeed_Inr [of sv ob ?r r'] r' True open_run by auto
      obtain d where d: "lv_pending_detail r = Some d" "dt_result d \<noteq> None" "dt_manifest d \<noteq> None"
        using task(4) res as True by (auto simp: marked_def result_ok_def)
      have "list_all (\<lambda>(n, x). x = run_state.SUCCEEDED) (stage_states (status r))"
        using task(3) True as by (auto simp: due_def list_all_iff completes_Cons)
      moreover then have "list_all (\<lambda>(n, x). \<not> active x) (stage_states (status r))"
        by (auto simp: list_all_iff not_active_terminal)
      moreover have "lv_compile_response r \<noteq> None" "lv_physical_plan r \<noteq> None"
        using task(4) True as by (auto simp: marked_def)
      moreover have "list_all (caller_ok (body_step sv ob a as r)) (lv_callers r)"
        by (rule callers_progress [OF callers]) (use open_run t in auto)
      ultimately show ?thesis
        using d unfolding step run_inv_def result_ok_def final_ok_def by (simp add: as p)
    next
      case False
      then have as: "as \<noteq> []" using task(1) by (simp add: follows_def)
      have st: "\<not> terminal (run_state_of r')" "dt_result (detail r') = dt_result (detail r)" "dt_manifest (detail r') = dt_manifest (detail r)"
        using perform_state [OF r' False] open_run by auto
      have "dt_result d \<noteq> None \<and> dt_manifest d \<noteq> None" if "lv_pending_detail r' = Some d" for d
        using perform_pending [OF r' False that] res by (auto simp: result_ok_def)
      moreover have "due as (status r')" "marked as r'"
        using perform_due [OF r' task(1)] perform_marks [OF r' False task(1)] task(3,4) by (simp_all add: marked_def)
      moreover have "list_all (caller_ok (r'\<lparr>lv_task := Body as\<rparr>)) (lv_callers r)"
        by (rule callers_progress [OF callers]) (use open_run t in auto)
      moreover have "run_state_of r' \<noteq> run_state.SUCCEEDED" "run_state_of r \<noteq> run_state.SUCCEEDED" using st(1) open_run by auto
      ultimately show ?thesis
        unfolding step using as st frame(1) task(2) res by (simp add: run_inv_def result_ok_def final_ok_def marked_def)
    qed
  qed
qed

text \<open>A change of the control state alone, while the run is open.\<close>

lemma control_keeps_inv:
  assumes "run_inv r" "lv_record r' = lv_record r" "lv_pending_detail r' = lv_pending_detail r"
    and "lv_compile_response r' = lv_compile_response r" "lv_physical_plan r' = lv_physical_plan r" "lv_callers r' = lv_callers r"
    and "task_ok r' (lv_task r')" "over (lv_task r) \<Longrightarrow> over (lv_task r')" "ended (lv_task r) \<Longrightarrow> ended (lv_task r')"
  shows "run_inv r'"
proof -
  have "list_all (caller_ok r') (lv_callers r)"
    by (rule callers_progress [of r]) (use assms in \<open>simp_all add: run_inv_def\<close>)
  then show ?thesis using assms by (simp add: run_inv_def result_ok_def final_ok_def)
qed

lemma after_cleanup_simps:
  "lv_record (after_cleanup ob f r) = lv_record r" "lv_pending_detail (after_cleanup ob f r) = lv_pending_detail r"
  "lv_compile_response (after_cleanup ob f r) = lv_compile_response r" "lv_physical_plan (after_cleanup ob f r) = lv_physical_plan r"
  "lv_callers (after_cleanup ob f r) = lv_callers r"
  "(\<exists>e. lv_task (after_cleanup ob f r) = Closing (Some e)) \<or> (\<exists>c. lv_task (after_cleanup ob f r) = Settling (f c))"
  by (auto simp: after_cleanup_def split: sum.splits)

lemma handle_control:
  "lv_record (handle ob e r) = lv_record r" "lv_pending_detail (handle ob e r) = lv_pending_detail r"
  "lv_compile_response (handle ob e r) = lv_compile_response r" "lv_physical_plan (handle ob e r) = lv_physical_plan r"
  "lv_callers (handle ob e r) = lv_callers r"
  "(\<exists>x. lv_task (handle ob e r) = Closing (Some x)) \<or> (\<exists>x. lv_task (handle ob e r) = Settling x)"
  by (auto simp: handle_def authorization_failed_def Let_def after_cleanup_def split: sum.splits run_error.splits)

lemma handle_keeps_inv:
  assumes "run_inv r" "lv_task r = Handling e"
  shows "run_inv (handle ob e r)"
proof (rule control_keeps_inv [OF assms(1)])
  show "task_ok (handle ob e r) (lv_task (handle ob e r))" using handle_control(6) [of ob e r] by auto
qed (simp_all add: handle_control assms(2))

text \<open>Closing the run with a final state other than success.\<close>

lemma close_status_simps [simp]: "rs_state (close_status now final st) = final" "rs_finalized_at (close_status now final st) = Some now"
  by (simp_all add: close_status_def)

lemma closed_run_inv:
  assumes inv: "run_inv r" and t: "\<not> terminal (run_state_of r)"
    and final: "final \<in> {run_state.CANCELLED, run_state.FAILED}"
    and r': "run_state_of r' = final" "rs_finalized_at (status r') \<noteq> None"
      "stage_states (status r') = map (\<lambda>(n, x). (n, if active x then final else x)) (stage_states (status r))"
      "dt_result (detail r') = dt_result (detail r)" "dt_manifest (detail r') = dt_manifest (detail r)"
      "lv_pending_detail r' = lv_pending_detail r" "over (lv_task r')" "ended (lv_task r) \<Longrightarrow> ended (lv_task r')"
    and "list_all (caller_ok r') (lv_callers r')"
  shows "run_inv r'"
proof -
  have fin: "terminal (run_state_of r')" "run_state_of r' \<noteq> run_state.SUCCEEDED" using r'(1) final by auto
  have "\<not> active final" using final by (auto simp: not_active_terminal)
  then have "list_all (\<lambda>(n, x). \<not> active x) (stage_states (status r'))"
    unfolding r'(3) by (auto simp: list_all_iff split: if_splits)
  moreover have "task_ok r' (lv_task r')" using r'(7) fin(1) by (cases "(r', lv_task r')" rule: task_ok.cases) auto
  moreover have "run_state_of r \<noteq> run_state.SUCCEEDED" using t by auto
  ultimately show ?thesis using inv r' fin assms(12) by (simp add: run_inv_def result_ok_def final_ok_def)
qed

lemma fail_run_Inr:
  assumes "fail_run now run_id code message (st, d) = Inr (st', d')" "\<not> terminal (rs_state st)"
  shows "rs_state st' = run_state.FAILED \<and> rs_finalized_at st' = Some now
    \<and> stage_states st' = map (\<lambda>(n, x). (n, if active x then run_state.FAILED else x)) (stage_states st)
    \<and> dt_result d' = dt_result d \<and> dt_manifest d' = dt_manifest d"
  using assms by (auto simp: fail_run_def Let_def stage_states_close)

lemma settle_keeps_inv:
  assumes inv: "run_inv r" and t: "lv_task r = Settling x"
  shows "run_inv (settle ob x r)"
proof (cases x)
  case Cancel_Run
  have o: "\<not> terminal (run_state_of r)" using inv t by (auto simp: run_inv_def final_ok_def)
  have c: "list_all (caller_ok (settle ob x r)) (lv_callers (settle ob x r))"
    using inv t o by (auto simp: run_inv_def Cancel_Run set_status_def elim!: callers_progress)
  have s: "settle ob x r = (set_status (close_status (sp_now ob) run_state.CANCELLED (status r)) r)\<lparr>lv_task := Closing None\<rparr>"
    using o by (simp add: Cancel_Run finalize_cancelled_def)
  show ?thesis
    by (rule closed_run_inv [OF inv o, of run_state.CANCELLED]) (use o t c in \<open>simp_all add: s set_status_def stage_states_close\<close>)
next
  case (Fail_With code message)
  have o: "\<not> terminal (run_state_of r)" using inv t by (auto simp: run_inv_def final_ok_def)
  show ?thesis
  proof (cases "fail_run (sp_now ob) (rq_run_id (request_of r)) code message (status r, detail r)")
    case (Inl e)
    then show ?thesis
      by (intro control_keeps_inv [OF inv]) (simp_all add: Fail_With t)
  next
    case (Inr sd)
    then obtain st d where f: "fail_run (sp_now ob) (rq_run_id (request_of r)) code message (status r, detail r) = Inr (st, d)" by (cases sd) auto
    have c: "list_all (caller_ok (settle ob x r)) (lv_callers (settle ob x r))"
      using inv t o by (auto simp: run_inv_def Fail_With f set_status_def set_detail_def elim!: callers_progress)
    show ?thesis
      by (rule closed_run_inv [OF inv o, of run_state.FAILED]) (use o t c fail_run_Inr [OF f o] in \<open>simp_all add: Fail_With f set_status_def set_detail_def\<close>)
  qed
next
  case (Withhold code message)
  have o: "\<not> terminal (run_state_of r)" using inv t by (auto simp: run_inv_def final_ok_def)
  have c: "list_all (caller_ok (settle ob x r)) (lv_callers (settle ob x r))"
    using inv t o by (auto simp: run_inv_def Withhold withhold_def set_detail_def elim!: callers_progress)
  then show ?thesis
    using inv o t by (auto simp: run_inv_def Withhold withhold_def set_detail_def result_ok_def final_ok_def)
qed

lemma task_keeps_inv:
  assumes inv: "run_inv r"
  shows "run_inv (task_step sv ob r)"
proof (cases "lv_task r")
  case Waiting
  have "marked run_program r" "due run_program (status r)" using inv Waiting program_contains by (simp_all add: marked_def run_inv_def)
  then show ?thesis
    using Waiting program_contains(5) program_ordered
    by (intro control_keeps_inv [OF inv]) (simp_all add: task_step_def marked_def)
next
  case (Body as)
  then show ?thesis
    using body_keeps_inv [OF inv] inv by (cases as) (simp_all add: task_step_def run_inv_def)
next
  case (Handling e)
  then show ?thesis using handle_keeps_inv [OF inv] by (simp add: task_step_def)
next
  case (Settling x)
  then show ?thesis using settle_keeps_inv [OF inv] by (simp add: task_step_def)
next
  case (Closing x)
  have "task_ok r (Closing x)" using inv Closing by (simp add: run_inv_def)
  then show ?thesis
    by (intro control_keeps_inv [OF inv]) (cases x; auto simp: task_step_def Closing close_step_def split: sum.splits)+
next
  case (Releasing x)
  have "task_ok r (Releasing x)" using inv Releasing by (simp add: run_inv_def)
  then show ?thesis
    by (intro control_keeps_inv [OF inv]) (cases x; auto simp: task_step_def Releasing release_step_def split: sum.splits)+
next
  case (Ended x)
  then show ?thesis using inv by (simp add: task_step_def)
qed

section \<open>The other steps\<close>

lemma timer_keeps_inv: "run_inv r \<Longrightarrow> run_inv (timer_step ob r)"
  by (rule run_inv_record [of r]) (auto simp: timer_step_def run_inv_def elim!: callers_progress)

lemma cancel_task_simps [simp]:
  "lv_record (cancel_task r) = lv_record r" "lv_task (cancel_task r) = lv_task r" "lv_pending_detail (cancel_task r) = lv_pending_detail r"
  "lv_compile_response (cancel_task r) = lv_compile_response r" "lv_physical_plan (cancel_task r) = lv_physical_plan r"
  "lv_response (cancel_task r) = lv_response r" "lv_callers (cancel_task r) = lv_callers r"
  by (simp_all add: cancel_task_def)

lemma watch_simps:
  "lv_record (watch_step sv ob r) = lv_record r" "lv_task (watch_step sv ob r) = lv_task r"
  "lv_pending_detail (watch_step sv ob r) = lv_pending_detail r" "lv_compile_response (watch_step sv ob r) = lv_compile_response r"
  "lv_physical_plan (watch_step sv ob r) = lv_physical_plan r" "lv_response (watch_step sv ob r) = lv_response r"
  "lv_callers (watch_step sv ob r) = lv_callers r"
  by (simp_all add: watch_step_def split: watcher.splits sum.splits run_error.splits)

lemma watch_keeps_inv: "run_inv r \<Longrightarrow> run_inv (watch_step sv ob r)"
  by (rule run_inv_record [of r]) (auto simp: watch_simps run_inv_def elim!: callers_progress)

lemma callers_update:
  assumes "list_all (caller_ok r) cs" "caller_ok r c" shows "list_all (caller_ok r) (cs[i := c])"
  using assms by (auto simp: list_all_iff dest!: set_update_subset_insert [THEN subsetD])

lemma caller_moves:
  assumes "run_inv r" "lv_record r' = lv_record r" "lv_task r' = lv_task r" "lv_pending_detail r' = lv_pending_detail r"
    and "lv_compile_response r' = lv_compile_response r" "lv_physical_plan r' = lv_physical_plan r" "lv_response r' = lv_response r"
    and "lv_callers r' = lv_callers r" "caller_ok r c"
  shows "run_inv (set_caller i c r')"
proof (rule run_inv_record [OF assms(1)])
  have "list_all (caller_ok r) ((lv_callers r)[i := c])"
    using callers_update [OF _ assms(9)] assms(1) by (simp add: run_inv_def)
  then show "list_all (caller_ok (set_caller i c r')) (lv_callers (set_caller i c r'))"
    using callers_cong [of "set_caller i c r'" r] assms by (simp add: set_caller_def)
qed (simp_all add: set_caller_def assms)

lemma events_keep_inv:
  assumes "run_inv r" shows "run_inv (set_status (apply_runtime_events es (status r)) r)" (is "run_inv ?r")
proof -
  have f: "rs_state (apply_runtime_events es st) = rs_state st" "rs_finalized_at (apply_runtime_events es st) = rs_finalized_at st" for st
    by (simp_all add: apply_runtime_events_def on_stage_def)
  have "task_ok ?r t = task_ok r t" for t
    by (cases "(r, t)" rule: task_ok.cases) (simp_all add: set_status_def f due_def marked_def)
  then show ?thesis
    using assms callers_cong [of ?r r] by (simp add: run_inv_def result_ok_def final_ok_def set_status_def f)
qed

lemma finalize_keeps_inv:
  assumes inv: "run_inv r" and "ended (lv_task r)"
  shows "run_inv (set_status (finalize_cancelled now (status r)) r)" (is "run_inv ?r")
proof (cases "terminal (run_state_of r)")
  case True
  then have "?r = r" by (simp add: finalize_cancelled_def set_status_def)
  then show ?thesis using inv by simp
next
  case False
  then have s: "?r = set_status (close_status now run_state.CANCELLED (status r)) r" by (simp add: finalize_cancelled_def)
  have c: "list_all (caller_ok ?r) (lv_callers ?r)"
    using inv False by (auto simp: run_inv_def s set_status_def elim!: callers_progress)
  have "over (lv_task r)" using assms(2) by (cases "lv_task r") simp_all
  then have "run_inv (set_status (close_status now run_state.CANCELLED (status r)) r)"
    by (intro closed_run_inv [OF inv False, of run_state.CANCELLED]) (use c [unfolded s] in \<open>simp_all add: set_status_def stage_states_close\<close>)
  then show ?thesis unfolding s .
qed

lemma finalized_terminal: "terminal (rs_state (finalize_cancelled now st))"
  by (simp add: finalize_cancelled_def)

lemma caller_keeps_inv:
  assumes inv: "run_inv r" and i: "i < length (lv_callers r)" "lv_callers r ! i = c"
  shows "run_inv (caller_step ob i c r)"
proof (cases c)
  case (Observing es)
  have "run_inv (set_caller i Observed (set_status (apply_runtime_events es (status r)) r))"
    by (rule caller_moves [OF events_keep_inv [OF inv]]) simp_all
  then show ?thesis by (simp add: caller_step_def Observing)
next
  case Finalizing
  have "ended (lv_task r)" using inv i Finalizing by (auto simp: run_inv_def list_all_length dest!: spec [of _ i])
  then have "run_inv (set_status (finalize_cancelled (sp_now ob) (status r)) r)" by (rule finalize_keeps_inv [OF inv])
  then have "run_inv (set_caller i Returned (set_status (finalize_cancelled (sp_now ob) (status r)) r))"
    by (rule caller_moves) (simp_all add: set_status_def finalized_terminal)
  then show ?thesis by (simp add: caller_step_def Finalizing)
next
  case (Interrupting a f)
  show ?thesis
    unfolding caller_step_def Interrupting by (auto simp: Let_def intro!: caller_moves [OF inv])
next
  case Awaiting
  show ?thesis
    unfolding caller_step_def Awaiting using inv by (auto split: task.splits intro!: caller_moves [OF inv])
qed (use inv in \<open>auto simp: caller_step_def intro!: caller_moves [OF inv]\<close>)

lemma step_keeps_inv: "service_step sv r r' \<Longrightarrow> run_inv r \<Longrightarrow> run_inv r'"
proof (induction rule: service_step.induct)
  case (step_call r)
  then have "list_all (caller_ok (r\<lparr>lv_callers := lv_callers r @ [Requesting]\<rparr>)) (lv_callers r @ [Requesting])"
    using callers_cong [of "r\<lparr>lv_callers := lv_callers r @ [Requesting]\<rparr>" r] by (simp add: run_inv_def)
  then show ?case by (intro run_inv_record [OF step_call]) simp_all
next
  case (step_cancel r ob i)
  then show ?case using caller_keeps_inv [of r i] by (simp add: cancel_step_def)
next
  case (step_gone r i)
  then show ?case by (intro caller_moves [OF step_gone(2)]) simp_all
qed (simp_all add: task_keeps_inv timer_keeps_inv watch_keeps_inv)

definition first_run :: "instant \<Rightarrow> instant \<Rightarrow> start_run_request \<Rightarrow> trusted_context option \<Rightarrow> live_run" where
  "first_run loop now request context = new_live_run loop (new_record request (initial_status now (rq_run_id request)) context)"

lemma first_run_inv: "run_inv (first_run loop now request context)"
proof -
  let ?r = "first_run loop now request context"
  have "map fst (stage_states (status ?r)) = STAGES"
    by (simp add: first_run_def new_live_run_def new_record_def initial_status_def stage_states_def initial_stage_def STAGES_def Let_def)
  then have "list_all (\<lambda>n. completes n run_program) (map fst (stage_states (status ?r)))" using program_completes by simp
  then have "due run_program (status ?r)" by (auto simp: due_def list_all_iff)
  then show ?thesis
    by (simp add: run_inv_def result_ok_def final_ok_def first_run_def new_live_run_def new_record_def initial_status_def terminal_def)
qed

lemma run_keeps_inv: "service_run sv r0 r \<Longrightarrow> run_inv r0 \<Longrightarrow> run_inv r"
  by (induction rule: service_run.induct) (auto intro: step_keeps_inv)

section \<open>Properties\<close>

text \<open>
  C2: What a run shows is consistent at every moment, whatever the interleaving of
  its task, its deadline, the revocation of the membership and any number of
  cancel calls. A result and a manifest are visible exactly when the run has
  succeeded; then all five stages have succeeded and the compiled graph and the
  plan are kept with it. A final run has a finalization time and no stage that
  still starts or runs. When the task has ended without an exception, or a cancel
  call has returned, the run is final.
\<close>

theorem run_shows_result_only_on_success:
  assumes "service_run sv (first_run loop now request context) r"
  shows "(dt_result (detail r) \<noteq> None \<longleftrightarrow> run_state_of r = run_state.SUCCEEDED)
    \<and> (dt_manifest (detail r) \<noteq> None \<longleftrightarrow> run_state_of r = run_state.SUCCEEDED)
    \<and> (run_state_of r = run_state.SUCCEEDED \<longrightarrow>
         (\<forall>s \<in> set (rs_stages (status r)). ss_state s = run_state.SUCCEEDED) \<and> lv_compile_response r \<noteq> None \<and> lv_physical_plan r \<noteq> None)
    \<and> (terminal (run_state_of r) \<longrightarrow> rs_finalized_at (status r) \<noteq> None \<and> (\<forall>s \<in> set (rs_stages (status r)). \<not> active (ss_state s)))
    \<and> (lv_task r = Ended None \<or> Returned \<in> set (lv_callers r) \<longrightarrow> terminal (run_state_of r))"
proof -
  have inv: "run_inv r" by (rule run_keeps_inv [OF assms first_run_inv])
  have stages: "list_all (\<lambda>(n, x). P x) (stage_states (status r)) \<longleftrightarrow> (\<forall>s \<in> set (rs_stages (status r)). P (ss_state s))" for P
    by (simp add: stage_states_def list_all_iff)
  have "lv_task r = Ended None \<Longrightarrow> terminal (run_state_of r)" using inv by (auto simp: run_inv_def)
  moreover have "Returned \<in> set (lv_callers r) \<Longrightarrow> terminal (run_state_of r)" using inv by (auto simp: run_inv_def list_all_iff)
  ultimately show ?thesis using inv by (auto simp: run_inv_def result_ok_def final_ok_def stages)
qed

text \<open>Only the last action of the task publishes success.\<close>

lemma only_succeed_publishes:
  assumes "run_inv r" "service_step sv r r'" "run_state_of r \<noteq> run_state.SUCCEEDED" "run_state_of r' = run_state.SUCCEEDED"
  shows "\<exists>ob. r' = task_step sv ob r \<and> lv_task r = Body [Succeed] \<and> \<not> lv_interrupt r \<and> may_publish sv ob r"
  using assms(2)
proof cases
  case (step_task ob)
  show ?thesis
  proof (cases "lv_task r")
    case (Body as)
    then obtain a as' where as: "as = a # as'" "follows a as'" using assms(1) by (cases as) (auto simp: run_inv_def)
    have open_run: "\<not> terminal (run_state_of r)" using assms(1) Body by (auto simp: run_inv_def final_ok_def)
    let ?r = "r\<lparr>lv_interrupt := False\<rparr>"
    obtain r1 where r1: "perform sv ob a ?r = Inr r1" "\<not> (lv_interrupt r \<and> \<not> (may_swallow a \<and> sp_swallowed ob))"
        "run_state_of r1 = run_state.SUCCEEDED"
      using assms(3,4) unfolding step_task task_step_def Body as(1)
      by (auto simp: body_step_def leave_body_def split: if_splits sum.splits)
    have a: "a = Succeed" using perform_state [OF r1(1)] r1(3) assms(3) by auto
    then have "as' = []" "\<not> lv_interrupt r" using as(2) r1(2) by (auto simp: follows_def may_swallow_def)
    moreover have "may_publish sv ob r"
      using succeed_Inr [of sv ob ?r r1] r1(1) a open_run
      by (auto simp: may_publish_def stop_requested_def out_of_time_def authorized_now_def)
    ultimately show ?thesis using step_task Body as(1) a by blast
  next
    case (Settling x)
    then show ?thesis
      using assms(1,3,4) unfolding step_task task_step_def
      by (cases x) (auto simp: set_status_def set_detail_def finalize_cancelled_def withhold_def fail_run_def Let_def run_inv_def
          final_ok_def split: if_splits sum.splits)
  next
    case (Handling e)
    then show ?thesis using assms(3,4) unfolding step_task task_step_def by (simp add: handle_control)
  qed (use assms(3,4) in \<open>auto simp: step_task task_step_def close_step_def release_step_def split: if_splits sum.splits\<close>)
next
  case (step_timer ob)
  then show ?thesis using assms(3,4) by (auto simp: timer_step_def split: if_splits)
next
  case (step_watch ob)
  then show ?thesis using assms(3,4) by (simp add: watch_simps)
next
  case step_call
  then show ?thesis using assms(3,4) by simp
next
  case (step_cancel ob i)
  have "run_state_of (caller_step ob i c r) \<in> {run_state_of r, run_state.CANCELLED}" for c
    by (cases c) (auto simp: caller_step_def set_caller_def set_status_def apply_runtime_events_def on_stage_def finalize_cancelled_def Let_def
        split: task.splits)
  from this [of "lv_callers r ! i"] show ?thesis
    using assms(3,4) unfolding step_cancel cancel_step_def by (cases "i < length (lv_callers r)") simp_all
next
  case (step_gone i)
  then show ?thesis using assms(3,4) by (simp add: set_caller_def)
qed


text \<open>A final run stays as it is.\<close>

definition kept :: "live_run \<Rightarrow> live_run \<Rightarrow> bool" where
  "kept r r' \<longleftrightarrow> run_state_of r' = run_state_of r \<and> rs_finalized_at (status r') = rs_finalized_at (status r)
     \<and> stage_states (status r') = stage_states (status r) \<and> detail r' = detail r"

lemma record_kept: "lv_record r' = lv_record r \<Longrightarrow> kept r r'"
  by (simp add: kept_def)

lemma final_step:
  assumes "run_inv r" "terminal (run_state_of r)" "service_step sv r r'"
  shows "kept r r'"
  using assms(3)
proof cases
  case (step_task ob)
  have "over (lv_task r)" using assms(1,2) by (simp add: run_inv_def final_ok_def)
  then show ?thesis
    unfolding step_task
    by (intro record_kept) (cases "lv_task r"; auto simp: task_step_def close_step_def release_step_def split: sum.splits)
next
  case (step_timer ob)
  then show ?thesis by (intro record_kept) (simp add: timer_step_def)
next
  case (step_cancel ob i)
  have "kept r (caller_step ob i c r)" for c
  proof (cases c)
    case (Observing es)
    then show ?thesis
      by (simp add: kept_def caller_step_def set_caller_def set_status_def apply_runtime_events_def on_stage_def)
        (simp add: stage_states_def)
  next
    case Finalizing
    then show ?thesis using assms(2) by (simp add: kept_def caller_step_def set_caller_def set_status_def finalize_cancelled_def)
  next
    case Awaiting
    then show ?thesis by (intro record_kept) (simp add: caller_step_def set_caller_def split: task.splits)
  qed (auto simp: caller_step_def set_caller_def Let_def intro!: record_kept)
  then show ?thesis using step_cancel by (simp add: cancel_step_def kept_def)
qed (auto simp: watch_simps set_caller_def intro!: record_kept)


section \<open>The task ends\<close>

fun task_rank :: "task \<Rightarrow> nat" where
  "task_rank Waiting = 6 + length run_program"
| "task_rank (Body as) = 5 + length as"
| "task_rank (Handling e) = 5"
| "task_rank (Settling (Withhold c m)) = 4"
| "task_rank (Settling x) = 3"
| "task_rank (Closing x) = 2"
| "task_rank (Releasing x) = 1"
| "task_rank (Ended x) = 0"

lemma settling_rank: "task_rank (Settling x) < 5"
  by (cases x) simp_all

lemma task_step_rank:
  assumes "\<not> ended (lv_task r)"
  shows "task_rank (lv_task (task_step sv ob r)) < task_rank (lv_task r)"
proof (cases "lv_task r")
  case (Body as)
  then show ?thesis
    by (cases as) (auto simp: task_step_def body_step_def leave_body_def split: sum.splits)
next
  case (Handling e)
  then show ?thesis using handle_control(6) [of ob e r] by (auto simp: task_step_def settling_rank)
next
  case (Settling x)
  then show ?thesis by (cases x) (auto simp: task_step_def split: sum.splits)
next
  case (Ended x)
  then show ?thesis using assms by simp
qed (auto simp: task_step_def close_step_def release_step_def split: sum.splits)

text \<open>Runs with the number of steps their task has taken.\<close>

inductive counted_run :: "service \<Rightarrow> live_run \<Rightarrow> nat \<Rightarrow> live_run \<Rightarrow> bool" for sv r0 where
  counted_start: "counted_run sv r0 0 r0"
| counted_task: "counted_run sv r0 n r \<Longrightarrow> \<not> ended (lv_task r) \<Longrightarrow> counted_run sv r0 (Suc n) (task_step sv ob r)"
| counted_other: "counted_run sv r0 n r \<Longrightarrow> service_step sv r r' \<Longrightarrow> lv_task r' = lv_task r \<Longrightarrow> counted_run sv r0 n r'"

lemma other_steps_keep_task:
  assumes "service_step sv r r'"
  shows "lv_task r' = lv_task r \<or> (\<exists>ob. r' = task_step sv ob r)"
  using assms
proof cases
  case (step_cancel ob i)
  have "lv_task (caller_step ob i c r) = lv_task r" for c
    by (cases c) (auto simp: caller_step_def set_caller_def set_status_def Let_def split: task.splits)
  then show ?thesis using step_cancel by (simp add: cancel_step_def)
qed (auto simp: timer_step_def watch_simps set_caller_def)

lemma run_is_counted: "service_run sv r0 r \<Longrightarrow> \<exists>n. counted_run sv r0 n r"
proof (induction rule: service_run.induct)
  case run_start
  then show ?case using counted_start by blast
next
  case (run_more r r')
  then obtain n where n: "counted_run sv r0 n r" by blast
  show ?case
  proof (cases "lv_task r' = lv_task r")
    case True
    then show ?thesis using counted_other [OF n run_more.hyps(2)] by blast
  next
    case False
    then obtain ob where ob: "r' = task_step sv ob r" using other_steps_keep_task [OF run_more.hyps(2)] by blast
    have "\<not> ended (lv_task r)" using False unfolding ob by (cases "lv_task r") (auto simp: task_step_def)
    then show ?thesis using counted_task [OF n] ob by blast
  qed
qed

lemma counted_rank: "counted_run sv r0 n r \<Longrightarrow> n + task_rank (lv_task r) \<le> task_rank (lv_task r0)"
proof (induction rule: counted_run.induct)
  case (counted_task n r ob)
  then show ?case using task_step_rank [of r sv ob] by linarith
qed simp_all


section \<open>A sample run\<close>

text \<open>A question that is compiled, planned, executed and published by an authorized caller.\<close>

definition run_db :: identity_db where
  "run_db = sample_db\<lparr>db_access := map (\<lambda>a. a\<lparr>ar_permissions := [''run.contributor'']\<rparr>) (db_access sample_db)\<rparr>"

definition direct_compiler :: compiler where
  "direct_compiler = sample_compiler\<lparr>cp_factory := static_provider \<lparr>pr_compile = \<lambda>_. sample_attempt ''region.east'', pr_repair = \<lambda>_ _ _. sample_attempt ''region.east''\<rparr>\<rparr>"

definition sample_service :: service where
  "sample_service = \<lparr>sv_legacy = False, sv_authority = True, sv_compiler = direct_compiler, sv_zones = sample_zones, sv_reading = sample_reading,
     sv_mapping = sample_mapping, sv_source_type = ''synthetic_csv'',
     sv_publisher = \<lparr>pb_float_text = \<lambda>_. ''1.5'', pb_sha256 = \<lambda>_. ''abc'', pb_detail_size = \<lambda>_. 100\<rparr>\<rparr>"

definition sample_run_request :: start_run_request where
  "sample_run_request = \<lparr>rq_run_id = ''run_1'', rq_client_request_id = ''c'', rq_workload = ''w'',
     rq_question = ''region period profit East'', rq_evaluation_clock = 1767225599000000, rq_evaluation_timezone = ''CET'',
     rq_compilation_mode = REGIONAL_QUARTERLY_PROFIT, rq_execution_mode = THREAD, rq_output_mode = NORMAL, rq_requested_by = ''alice'',
     rq_trace_id = ''t''\<rparr>"

definition sample_manifest :: committed_manifest where
  "sample_manifest = \<lparr>man_result = \<lparr>rh_result_id = ''x'', rh_run_id = ''run_1'', rh_node_id = ''physical-f'', rh_storage = Inline, rh_uri = ''inline:x''\<rparr>,
     man_schema = [\<lparr>sf_name = ''region'', sf_data_type = ''string'', sf_nullable = True\<rparr>, \<lparr>sf_name = ''profit'', sf_data_type = ''double'', sf_nullable = True\<rparr>],
     man_row_count = 1, man_byte_count = 16, man_parts = []\<rparr>"

definition sample_run_outcome :: run_outcome where
  "sample_run_outcome = \<lparr>oc_state = execution_state.SUCCEEDED, oc_diagnostic_code = None, oc_manifest = Some (sample_manifest, 7),
     oc_lineage = \<lparr>lg_run_id = ''run_1'', lineage_graph.lg_nodes = [(plain_node ''result:x'' L_Result)\<lparr>lin_result_id := Some ''x''\<rparr>], lg_edges = []\<rparr>,
     oc_events = []\<rparr>"

definition sample_observation :: observation where
  "sample_observation = \<lparr>sp_now = 5, sp_loop = 1, sp_transaction = sample_io 10, sp_db = run_db, sp_hook = Inr (), sp_outcome = Inr sample_run_outcome,
     sp_table = Inr [[(''region'', PyScalar (SString ''Donghu'')), (''profit'', PyScalar (SFloat (FFinite 3 (- 1))))]],
     sp_resolver_name = None, sp_cleanup = Inr None, sp_message = ''refused'', sp_swallowed = False, sp_accepted = False, sp_events = []\<rparr>"

definition sample_first :: live_run where
  "sample_first = first_run 0 0 sample_run_request (Some Trusted_Access.sample_context)"

fun task_steps :: "nat \<Rightarrow> live_run \<Rightarrow> live_run" where
  "task_steps 0 r = r"
| "task_steps (Suc n) r = task_steps n (task_step sample_service sample_observation r)"

lemma task_steps_run: "service_run sample_service r0 r \<Longrightarrow> service_run sample_service r0 (task_steps n r)"
  by (induction n arbitrary: r) (auto intro: run_more step_task)

definition sample_last :: live_run where
  "sample_last = task_steps 51 sample_first"

lemma sample_succeeds: "run_state_of sample_last = run_state.SUCCEEDED"
  by code_simp

lemma sample_last_run: "service_run sample_service (first_run 0 0 sample_run_request (Some Trusted_Access.sample_context)) sample_last"
  unfolding sample_last_def by (rule task_steps_run) (simp add: sample_first_def run_start)

theorem run_shows_result_only_on_success_witness:
  "dt_result (detail sample_last) \<noteq> None \<and> dt_manifest (detail sample_last) \<noteq> None
     \<and> list_all (\<lambda>s. ss_state s = run_state.SUCCEEDED) (rs_stages (status sample_last))"
  using run_shows_result_only_on_success [OF sample_last_run] sample_succeeds by (simp add: list_all_iff)




end
