(* ===== verification/Spec2Isabelle.thy ===== *)
theory Spec2Isabelle
  imports Runtime_Events Memory_Budget Plan_Semantics Operator_Executor Result_Store Run_Progress Sqg_Typing Run_Lifecycle
begin

text \<open>
  Verification of semantic-data-nexus, the Python services that turn a question
  over a governed ontology into an executed and audited query.

  \<^bold>\<open>How the system is put together.\<close> A request reaches the semantic backend
  (\<open>services/semantic-backend\<close>), whose middleware authenticates the calling
  service, binds its assertion to the request and asks the authorization
  database twice, before and after the handler. Its run service takes a question
  through five stages in a background task. The semantic API
  (\<open>services/semantic-api\<close>) resolves the terms and time windows of the question,
  selects an ontology context, asks a provider for a candidate query graph and
  validates it, with one repair; an adapter binds the graph to a source. The shared contracts of
  \<open>packages/semantic-core\<close> give the graph its form and check it against
  the ontology. The query runtime (\<open>services/query-runtime\<close>) binds the graph to
  sources, plans pushdown fragments and execution waves, runs the waves
  concurrently under a memory budget, renders operators to SQL for DuckDB,
  commits results to a store, and publishes events and lineage.

  \<^bold>\<open>Query runtime.\<close>
  \<^item> \<open>Nexus_Prelude\<close>: \<open>errors.py\<close>, the result type of fallible code, Python
    dictionaries, general list facts.
  \<^item> \<open>Scalar_Values\<close>, \<open>Runtime_Domain\<close>: \<open>scalar_values.py\<close> and \<open>domain.py\<close>. The
    stack based check of expressions agrees with the recursive reading.
  \<^item> \<open>Runtime_Events\<close>: \<open>events.py\<close>. The state machine, and the event store with its
    bounded subscriber queues; the locale \<open>event_log\<close> is what an emitter relies
    on, interpreted on the in-memory store.
  \<^item> \<open>Arrow_Memory\<close>, \<open>Memory_Budget\<close>: \<open>arrow_memory.py\<close> and \<open>_MemoryBudget\<close> of
    \<open>coordinator.py\<close>. The counter is exact and bounded after every sequence of
    calls.
  \<^item> \<open>Dependency_Graph\<close>, \<open>Query_Planner\<close>, \<open>Plan_Semantics\<close>: \<open>planner.py\<close>. The graph
    loops terminate and are correct, and a plan computes what its logical graph
    computes for every reading of operations over tables.
  \<^item> \<open>Plan_Validation\<close>: \<open>validate_physical_plan\<close> of \<open>coordinator.py\<close> accepts exactly
    the executable plans, and every plan of the planner up to operator arity.
  \<^item> \<open>Sql_Expressions\<close>, \<open>Sql_Operators\<close>: \<open>expressions.py\<close>, \<open>operators.py\<close>,
    \<open>operators_v1.py\<close>. Rendered text is balanced whatever the identifiers are.
  \<^item> \<open>Operator_Executor\<close>: \<open>DuckDBOperatorExecutor\<close>, its limits and the order of its
    effects on the connection under cancellation.
  \<^item> \<open>Result_Store\<close>: \<open>result_store.py\<close> over an explicit file system; the locale
    \<open>result_store\<close> is the contract of a store, interpreted on the inline, the
    Parquet and the hybrid store.
  \<^item> \<open>Runtime_Lineage\<close>: \<open>lineage.py\<close>.
  \<^item> \<open>Run_Coordinator\<close>, \<open>Run_Progress\<close>: \<open>QueryCoordinator.run\<close> as a step relation over
    all interleavings of node tasks, cancellation and deadline, and the invariant
    that relates its event log to the phases of the nodes.

  \<^bold>\<open>Contracts.\<close>
  \<^item> \<open>Iso_Datetime\<close>, \<open>Sqg_Contract\<close>: \<open>semantic_core/models.py\<close>, every validator.
  \<^item> \<open>Sqg_Semantics\<close>, \<open>Sqg_Typing\<close>: \<open>semantic_core/validation.py\<close>; on validated
    inputs the check raises its own error only, and accepted graphs are typed.

  \<^bold>\<open>Semantic API.\<close>
  \<^item> \<open>Semantic_Registry\<close>: \<open>ontology.py\<close> and the data of \<open>models.py\<close>.
  \<^item> \<open>Semantic_Validator\<close>: \<open>validator.py\<close>, every check.
  \<^item> \<open>Semantic_Governance\<close>, \<open>Trusted_Filters\<close>: an accepted graph uses governed
    concepts only, and in a trusted mode it filters exactly what was resolved.
  \<^item> \<open>Semantic_Initializer\<close>: \<open>initializer.py\<close>. Mentions are resolved longest first,
    and time windows are the calendar periods of the evaluation clock.
  \<^item> \<open>Semantic_Compiler\<close>: \<open>compiler.py\<close> and the bounded call of \<open>provider.py\<close>. The
    compiler always answers, and a compiled graph means the question.

  \<^bold>\<open>Semantic backend.\<close>
  \<^item> \<open>Trusted_Access\<close>: \<open>auth_context.py\<close>, \<open>authorization.py\<close>, \<open>auth_middleware.py\<close>.
  \<^item> \<open>Run_Models\<close>: \<open>models.py\<close>, requests, typed results and run details.
  \<^item> \<open>Run_Repository\<close>: \<open>repository.py\<close>, which behaves as one store per scope.
  \<^item> \<open>Runtime_Adapter\<close>: \<open>adapter.py\<close>. A source row passes the filters of an adapted
    graph exactly when the question asks for it.
  \<^item> \<open>Run_Artifacts\<close>, \<open>Run_Service\<close>: \<open>service.py\<close>. The values a run shows, and the
    life of a run as steps of its task (\<open>run_program\<close> lists the actions of \<open>_run\<close>),
    its timer, the watcher of its authorization and cancel calls.
  \<^item> \<open>Run_Lifecycle\<close>: on every interleaving a result is visible only with success,
    success is published only under a committed authorization, final states
    stay, and the task ends. A sample question runs through all five stages.

  \<^bold>\<open>Parameters.\<close> Code outside the repository is an argument of the definitions
  that call it: what DuckDB returns for a query, what a source resolver
  delivers, the conversion of a Python value to an Arrow scalar, JSON web token
  verification, SHA-256, clocks, and the outcome of each file operation; also the
  time zone database, the answers of a language model provider, the hooks of a
  resolver, the text of a double and the size of a serialized detail. The
  negation heuristics and the search for Chinese phrases of the initializer are
  arguments of the model too. The
  typed result of pydantic parsing is the input of the validators, with the
  field constraints as predicates. Strings range over the 256 characters of the
  HOL type; case folding and digit classes are those of that range.

  \<^bold>\<open>Termination.\<close> Loops are structural or have a measure. The walk along a
  linear graph in \<open>validator.py\<close> follows input references and takes the number of
  nodes as fuel; its exhausted branch is shown unreachable for graphs that
  passed the earlier checks. The runs of the coordinator and of the service are
  step relations: that they come to an end is stated as such, for the service
  with a bound on the steps of its task.

  \<^bold>\<open>Not modelled.\<close> HTTP routing and command lines, the clients of language model
  providers, shutdown, readiness and connector provenance of the run service,
  timing metadata, the Databricks client and the connector plugins, the
  evaluation harness, repository scripts and data generators, the C# control API
  and the web front end: they are input and output, clients of external services
  or tooling. In the run service the coordinator is represented by the outcome of
  its run, which \<open>Run_Coordinator\<close> models, and the cap of four concurrent runs by
  a step that waits. Exceptions are modelled by their class and code; of their
  messages only the fixed texts the run service stores in diagnostics.
\<close>

end
